(* ===== verification/Go_Base.thy ===== *)
theory Go_Base
  imports Main "HOL-Library.AList" "HOL-Library.Char_ord" "HOL-Library.List_Lexorder"
begin

section \<open>Prelude: Go values, byte strings, decimal text, error threading\<close>

text \<open>
  The vocabulary every component of the development shares.

  \<^item> A Go string or byte slice is a list of bytes; HOL's \<^typ>\<open>char\<close> is exactly a byte, so
    \<open>bytes\<close> and \<open>string\<close> are the same type and a conversion between them is the identity.
  \<^item> Integers are \<^typ>\<open>int\<close> or \<^typ>\<open>nat\<close>; the conversions that truncate in the source
    (\<open>int32(x)\<close>, \<open>uint32(x)\<close>, \<open>x + 1\<close> on \<open>int64\<close>) are written with the functions below.
  \<^item> A Go function that may fail and changes state is a function to
    \<open>error option \<times> state\<close>: the state is returned on the error path too, because the source
    keeps what it had already changed when it returns early.  \<open>bindE\<close> runs the rest only when
    the first part returned \<open>nil\<close>, \<open>wrapE\<close> wraps an error on its way out.
\<close>

named_theorems go_sem \<open>defining equations used to run the model symbolically\<close>

type_synonym bytes = string

subsection \<open>Errors and state\<close>

type_synonym ('e, 's) step = "'e option \<times> 's"

definition okE :: "'s \<Rightarrow> ('e, 's) step" where
  "okE s = (None, s)"

definition failE :: "'e \<Rightarrow> 's \<Rightarrow> ('e, 's) step" where
  "failE e s = (Some e, s)"

definition bindE :: "('e, 's) step \<Rightarrow> ('s \<Rightarrow> ('e, 's) step) \<Rightarrow> ('e, 's) step" where
  "bindE r k = (case r of (None, s) \<Rightarrow> k s | (Some e, s) \<Rightarrow> (Some e, s))"

definition wrapE :: "('e \<Rightarrow> 'f) \<Rightarrow> ('e, 's) step \<Rightarrow> ('f, 's) step" where
  "wrapE f r = (map_option f (fst r), snd r)"

lemma bindE_simps [simp]:
  "bindE (None, s) k = k s"
  "bindE (Some e, s) k = (Some e, s)"
  by (simp_all add: bindE_def)

lemma wrapE_simps [simp]:
  "wrapE f (None, s) = (None, s)"
  "wrapE f (Some e, s) = (Some (f e), s)"
  by (simp_all add: wrapE_def)

lemma okE_failE_simps [simp]:
  "okE s = (None, s)" "failE e s = (Some e, s)"
  by (simp_all add: okE_def failE_def)

lemma bindE_snd_inv:
  "I (snd r) \<Longrightarrow> (\<And>s. I s \<Longrightarrow> I (snd (k s))) \<Longrightarrow> I (snd (bindE r k))"
  by (cases r) (auto simp: bindE_def split: option.splits)

lemma wrapE_snd [simp]: "snd (wrapE f r) = snd r"
  by (simp add: wrapE_def)

lemma wrapE_fst_None [simp]: "fst (wrapE f r) = None \<longleftrightarrow> fst r = None"
  by (simp add: wrapE_def)

lemma bindE_None:
  "bindE r k = (None, t) \<longleftrightarrow> (\<exists>s. r = (None, s) \<and> k s = (None, t))"
  by (cases r) (auto simp: bindE_def split: option.splits)

lemma wrapE_None: "wrapE f r = (None, t) \<longleftrightarrow> r = (None, t)"
  by (cases r) (auto simp: wrapE_def)

subsection \<open>Fixed-width integers\<close>

definition to_u32 :: "int \<Rightarrow> int" where
  "to_u32 x = x mod 2 ^ 32"

definition to_i32 :: "int \<Rightarrow> int" where
  "to_i32 x = (x + 2 ^ 31) mod 2 ^ 32 - 2 ^ 31"

definition to_i64 :: "int \<Rightarrow> int" where
  "to_i64 x = (x + 2 ^ 63) mod 2 ^ 64 - 2 ^ 63"

lemma to_i64_id: "- (2 ^ 63) \<le> x \<Longrightarrow> x < 2 ^ 63 \<Longrightarrow> to_i64 x = x"
  by (simp add: to_i64_def)

lemma to_i32_id: "- (2 ^ 31) \<le> x \<Longrightarrow> x < 2 ^ 31 \<Longrightarrow> to_i32 x = x"
  by (simp add: to_i32_def)

subsection \<open>Little-endian encodings (encoding/binary)\<close>

primrec le_put :: "nat \<Rightarrow> nat \<Rightarrow> bytes" where
  "le_put 0 n = []"
| "le_put (Suc k) n = char_of n # le_put k (n div 256)"

primrec le_get :: "bytes \<Rightarrow> nat" where
  "le_get [] = 0"
| "le_get (b # bs) = of_char b + 256 * le_get bs"

lemma length_le_put [simp]: "length (le_put k n) = k"
  by (induction k arbitrary: n) auto

lemma le_get_le_put: "le_get (le_put k n) = n mod 256 ^ k"
proof (induction k arbitrary: n)
  case 0
  show ?case by simp
next
  case (Suc k)
  have "n mod 256 ^ Suc k = 256 * (n div 256 mod 256 ^ k) + n mod 256"
    by (simp add: mod_mult2_eq)
  with Suc.IH[of "n div 256"] show ?case by simp
qed

lemma le_get_bound: "le_get bs < 256 ^ length bs"
proof (induction bs)
  case Nil
  show ?case by simp
next
  case (Cons b bs)
  define X :: nat where "X = 256 ^ length bs"
  have b: "of_char b < (256 :: nat)" by simp
  from Cons.IH have "le_get bs < X" by (simp add: X_def)
  then have "of_char b + 256 * le_get bs < 256 * X" using b by arith
  then show ?case by (simp add: X_def)
qed

lemma le_put_le_get: "le_put (length bs) (le_get bs) = bs"
proof (induction bs)
  case Nil
  show ?case by simp
next
  case (Cons b bs)
  have b: "of_char b < (256 :: nat)" by simp
  have "char_of (of_char b + 256 * le_get bs) = (char_of (of_char b :: nat) :: char)"
    by (simp add: char_of_eq_iff take_bit_eq_mod b)
  moreover have "(of_char b + 256 * le_get bs) div 256 = le_get bs"
    using b by simp
  ultimately show ?case using Cons.IH by simp
qed

text \<open>The same on integers, for evaluation.\<close>

primrec le_put_int :: "nat \<Rightarrow> int \<Rightarrow> bytes" where
  "le_put_int 0 n = []"
| "le_put_int (Suc k) n = char_of n # le_put_int k (n div 256)"

primrec le_get_int :: "bytes \<Rightarrow> int" where
  "le_get_int [] = 0"
| "le_get_int (b # bs) = of_char b + 256 * le_get_int bs"

lemma le_put_int: "le_put_int k (int n) = le_put k n"
proof (induction k arbitrary: n)
  case (Suc k)
  have "int n div 256 = int (n div 256)" by (simp add: zdiv_int)
  with Suc show ?case by simp
qed simp

lemma le_get_int: "le_get_int bs = int (le_get bs)"
  by (induction bs) (simp_all add: of_char_def horner_sum_eq_sum of_nat_of_bool)

definition PutUint32 :: "int \<Rightarrow> bytes" where
  "PutUint32 x = le_put 4 (nat (to_u32 x))"

definition Uint32 :: "bytes \<Rightarrow> int" where
  "Uint32 bs = int (le_get (take 4 bs))"

lemma length_PutUint32 [simp]: "length (PutUint32 x) = 4"
  by (simp add: PutUint32_def)

lemma PutUint32_code [code]: "PutUint32 x = le_put_int 4 (to_u32 x)"
  using le_put_int[of 4 "nat (to_u32 x)"] by (simp add: PutUint32_def to_u32_def)

lemma Uint32_code [code]: "Uint32 bs = le_get_int (take 4 bs)"
  by (simp add: Uint32_def le_get_int)

lemma Uint32_PutUint32: "0 \<le> x \<Longrightarrow> x < 2 ^ 32 \<Longrightarrow> Uint32 (PutUint32 x @ bs) = x"
  by (simp add: Uint32_def PutUint32_def le_get_le_put to_u32_def)

definition PutInt64 :: "int \<Rightarrow> bytes" where
  "PutInt64 x = le_put 8 (nat (x mod 2 ^ 64))"

definition Int64 :: "bytes \<Rightarrow> int" where
  "Int64 bs = to_i64 (int (le_get (take 8 bs)))"

lemma length_PutInt64 [simp]: "length (PutInt64 x) = 8"
  by (simp add: PutInt64_def)

lemma PutInt64_code [code]: "PutInt64 x = le_put_int 8 (x mod 2 ^ 64)"
  using le_put_int[of 8 "nat (x mod 2 ^ 64)"] by (simp add: PutInt64_def)

lemma Int64_code [code]: "Int64 bs = to_i64 (le_get_int (take 8 bs))"
  by (simp add: Int64_def le_get_int)

lemma Int64_PutInt64:
  assumes "- (2 ^ 63) \<le> x" "x < 2 ^ 63"
  shows "Int64 (PutInt64 x @ bs) = x"
proof -
  have "nat (x mod 2 ^ 64) < 256 ^ 8"
    by (simp add: nat_less_iff)
  then have "le_get (le_put 8 (nat (x mod 2 ^ 64))) = nat (x mod 2 ^ 64)"
    by (simp add: le_get_le_put)
  then have "Int64 (PutInt64 x @ bs) = to_i64 (x mod 2 ^ 64)"
    by (simp add: Int64_def PutInt64_def)
  also have "\<dots> = to_i64 x"
    by (simp add: to_i64_def mod_simps)
  finally show ?thesis using assms by (simp add: to_i64_id)
qed

subsection \<open>Decimal text (fmt and strconv)\<close>

definition digit :: "nat \<Rightarrow> char" where
  "digit d = char_of (48 + d)"

definition is_digit :: "char \<Rightarrow> bool" where
  "is_digit c \<longleftrightarrow> 48 \<le> (of_char c :: nat) \<and> (of_char c :: nat) \<le> 57"

definition digit_val :: "char \<Rightarrow> nat" where
  "digit_val c = of_char c - 48"

fun dec_digits :: "nat \<Rightarrow> string" where
  "dec_digits n = (if n < 10 then [digit n] else dec_digits (n div 10) @ [digit (n mod 10)])"

declare dec_digits.simps [simp del]

definition dec_val :: "string \<Rightarrow> nat" where
  "dec_val s = foldl (\<lambda>n c. 10 * n + digit_val c) 0 s"

definition fmt_d :: "int \<Rightarrow> string" where
  "fmt_d x = (if x < 0 then ''-'' @ dec_digits (nat (- x)) else dec_digits (nat x))"

definition zero_pad :: "nat \<Rightarrow> string \<Rightarrow> string" where
  "zero_pad w s = replicate (w - length s) (CHR ''0'') @ s"

text \<open>\<open>%0wd\<close>: zero padding goes between the sign and the digits, and the sign counts.\<close>

definition fmt_0d :: "nat \<Rightarrow> int \<Rightarrow> string" where
  "fmt_0d w x =
     (if x < 0 then ''-'' @ zero_pad (w - 1) (dec_digits (nat (- x)))
      else zero_pad w (dec_digits (nat x)))"

text \<open>\<open>strconv.ParseInt(s, 10, bits)\<close>: an optional sign, then digits only, then the range check.\<close>

definition parse_uint :: "string \<Rightarrow> nat option" where
  "parse_uint s = (if s \<noteq> [] \<and> list_all is_digit s then Some (dec_val s) else None)"

definition in_range :: "nat \<Rightarrow> int \<Rightarrow> bool" where
  "in_range bits x \<longleftrightarrow> - (2 ^ (bits - 1)) \<le> x \<and> x < 2 ^ (bits - 1)"

definition ParseInt :: "nat \<Rightarrow> string \<Rightarrow> int option" where
  "ParseInt bits s =
     (let neg = (s \<noteq> [] \<and> hd s = CHR ''-'');
          body = (if s \<noteq> [] \<and> (hd s = CHR ''-'' \<or> hd s = CHR ''+'') then tl s else s)
      in case parse_uint body of
           None \<Rightarrow> None
         | Some n \<Rightarrow>
             (let x = (if neg then - int n else int n)
              in if in_range bits x then Some x else None))"

lemma of_char_digit [simp]: "d < 10 \<Longrightarrow> (of_char (digit d) :: nat) = 48 + d"
  by (simp add: digit_def)

lemma is_digit_digit [simp]: "d < 10 \<Longrightarrow> is_digit (digit d)"
  by (simp add: is_digit_def)

lemma digit_val_digit [simp]: "d < 10 \<Longrightarrow> digit_val (digit d) = d"
  by (simp add: digit_val_def)

lemma zero_is_digit [simp]: "is_digit (CHR ''0'')" "digit_val (CHR ''0'') = 0"
  by (simp_all add: is_digit_def digit_val_def)

lemma dec_digits_nonempty [simp]: "dec_digits n \<noteq> []"
  by (subst dec_digits.simps) simp

lemma dec_digits_digits: "list_all is_digit (dec_digits n)"
  by (induction n rule: dec_digits.induct) (subst dec_digits.simps, simp)

lemma dec_val_append: "dec_val (xs @ [c]) = 10 * dec_val xs + digit_val c"
  by (simp add: dec_val_def)

lemma dec_val_dec_digits: "dec_val (dec_digits n) = n"
proof (induction n rule: dec_digits.induct)
  case (1 n)
  show ?case
  proof (cases "n < 10")
    case True
    then show ?thesis by (subst dec_digits.simps) (simp add: dec_val_def)
  next
    case False
    with 1 show ?thesis by (subst dec_digits.simps) (simp add: dec_val_append)
  qed
qed

lemma dec_val_zeros: "dec_val (replicate k (CHR ''0'') @ s) = dec_val s"
  by (induction k) (simp_all add: dec_val_def)

lemma dec_val_zero_pad [simp]: "dec_val (zero_pad w (dec_digits n)) = n"
  by (simp add: zero_pad_def dec_val_zeros dec_val_dec_digits)

lemma zero_pad_digits: "list_all is_digit (zero_pad w (dec_digits n))"
  using dec_digits_digits [of n] by (auto simp: zero_pad_def list_all_iff)

lemma zero_pad_nonempty [simp]: "zero_pad w (dec_digits n) \<noteq> []"
  by (simp add: zero_pad_def)

lemma length_dec_digits_le: "0 < k \<Longrightarrow> n < 10 ^ k \<Longrightarrow> length (dec_digits n) \<le> k"
proof (induction n arbitrary: k rule: dec_digits.induct)
  case (1 n)
  show ?case
  proof (cases "n < 10")
    case True
    with \<open>0 < k\<close> show ?thesis by (subst dec_digits.simps) simp
  next
    case False
    with 1(3) have k: "1 < k" by (cases k; cases "k - 1") auto
    then obtain j where j: "k = Suc j" "0 < j" by (cases k) auto
    have "n div 10 < 10 ^ j" using 1(3) j by (simp add: less_mult_imp_div_less mult.commute)
    with 1(1) False j have "length (dec_digits (n div 10)) \<le> j" by blast
    with False j show ?thesis by (subst dec_digits.simps) simp
  qed
qed

lemma length_zero_pad [simp]: "length s \<le> w \<Longrightarrow> length (zero_pad w s) = w"
  by (simp add: zero_pad_def)

end
