(* ===== verification/Go_Os.thy ===== *)
theory Go_Os
  imports Go_Base
begin

section \<open>Paths: strings.Split, filepath.Clean, filepath.Join, filepath.Base\<close>

text \<open>
  The path functions of Go's standard library the sources call, on slash-separated paths, and
  what the disk cache needs of them: joining a plain name to any directory puts the directory's
  cleaned prefix before the name, and \<open>Base\<close> gets the name back.
\<close>

fun split_on :: "char \<Rightarrow> string \<Rightarrow> string list" where
  "split_on c [] = [[]]"
| "split_on c (x # xs) =
     (if x = c then [] # split_on c xs
      else (case split_on c xs of [] \<Rightarrow> [[x]] | y # ys \<Rightarrow> (x # y) # ys))"

fun join_str :: "string \<Rightarrow> string list \<Rightarrow> string" where
  "join_str sep [] = []"
| "join_str sep [x] = x"
| "join_str sep (x # y # xs) = x @ sep @ join_str sep (y # xs)"

definition clean_step :: "bool \<Rightarrow> string list \<Rightarrow> string \<Rightarrow> string list" where
  "clean_step rooted stack seg =
     (if seg = [] \<or> seg = ''.'' then stack
      else if seg = ''..''
      then (if stack \<noteq> [] \<and> last stack \<noteq> ''..'' then butlast stack
            else if rooted then stack else stack @ [''..''])
      else stack @ [seg])"

definition rooted :: "string \<Rightarrow> bool" where
  "rooted p \<longleftrightarrow> p \<noteq> [] \<and> hd p = CHR ''/''"

definition clean_segs :: "string \<Rightarrow> string list" where
  "clean_segs p = foldl (clean_step (rooted p)) [] (split_on (CHR ''/'') p)"

definition Clean :: "string \<Rightarrow> string" where
  "Clean p =
     (let s = (if rooted p then ''/'' else []) @ join_str ''/'' (clean_segs p)
      in if s = [] then ''.'' else s)"

definition Join :: "string \<Rightarrow> string \<Rightarrow> string" where
  "Join a b =
     (if a \<noteq> [] then Clean (a @ ''/'' @ b) else if b \<noteq> [] then Clean b else [])"

definition Base :: "string \<Rightarrow> string" where
  "Base p =
     (if p = [] then ''.''
      else (let q = rev (dropWhile (\<lambda>c. c = CHR ''/'') (rev p))
            in if q = [] then ''/''
               else rev (takeWhile (\<lambda>c. c \<noteq> CHR ''/'') (rev q))))"

subsection \<open>Splitting\<close>

lemma split_on_nonempty [simp]: "split_on c s \<noteq> []"
  by (induction s) (auto split: list.splits)

lemma split_on_plain: "c \<notin> set s \<Longrightarrow> split_on c s = [s]"
  by (induction s) auto

lemma split_on_sep: "c \<notin> set s \<Longrightarrow> split_on c (s @ c # t) = s # split_on c t"
  by (induction s) auto

lemma split_on_append_sep: "split_on c (s @ c # t) = split_on c s @ split_on c t"
  by (induction s) (auto split: list.splits)

subsection \<open>Joining a plain name\<close>

definition plain_name :: "string \<Rightarrow> bool" where
  "plain_name n \<longleftrightarrow> n \<noteq> [] \<and> n \<noteq> ''.'' \<and> n \<noteq> ''..'' \<and> CHR ''/'' \<notin> set n"

definition dir_prefix :: "string \<Rightarrow> string" where
  "dir_prefix p =
     (if p = [] then []
      else (if rooted p then ''/'' else []) @ concat (map (\<lambda>s. s @ ''/'') (clean_segs p)))"

lemma join_str_snoc: "join_str sep (xs @ [n]) = concat (map (\<lambda>s. s @ sep) xs) @ n"
  by (induction sep xs rule: join_str.induct) auto

lemma rooted_append [simp]: "p \<noteq> [] \<Longrightarrow> rooted (p @ q) = rooted p"
  by (simp add: rooted_def)

lemma clean_segs_plain:
  assumes "p \<noteq> []" "plain_name n"
  shows "clean_segs (p @ ''/'' @ n) = clean_segs p @ [n]"
  using assms
  by (simp add: clean_segs_def split_on_append_sep split_on_plain plain_name_def clean_step_def)

lemma Join_plain:
  assumes "plain_name n"
  shows "Join p n = dir_prefix p @ n"
proof (cases "p = []")
  case True
  have "rooted n = False" using assms by (cases n) (auto simp: plain_name_def rooted_def)
  moreover have "clean_segs n = [n]"
    using assms by (simp add: clean_segs_def split_on_plain plain_name_def clean_step_def)
  ultimately show ?thesis
    using assms True by (auto simp: Join_def Clean_def dir_prefix_def plain_name_def)
next
  case False
  with assms show ?thesis
    using clean_segs_plain[OF False assms]
    by (simp add: Join_def Clean_def dir_prefix_def join_str_snoc plain_name_def Let_def)
qed

lemma Join_plain_inject: "plain_name m \<Longrightarrow> plain_name n \<Longrightarrow> Join p m = Join p n \<longleftrightarrow> m = n"
  by (simp add: Join_plain)

lemma dir_prefix_ends: "dir_prefix p = [] \<or> (\<exists>q. dir_prefix p = q @ ''/'')"
proof (cases "p = [] \<or> clean_segs p = []")
  case True
  then show ?thesis by (auto simp: dir_prefix_def)
next
  case False
  then obtain xs x where "clean_segs p = xs @ [x]" by (metis rev_exhaust)
  with False show ?thesis by (auto simp: dir_prefix_def)
qed

lemma dropWhile_rev_plain:
  "plain_name n \<Longrightarrow> dropWhile (\<lambda>c. c = CHR ''/'') (rev n @ xs) = rev n @ xs"
  by (cases n rule: rev_cases) (auto simp: plain_name_def)

lemma Base_Join_plain:
  assumes n: "plain_name n"
  shows "Base (Join p n) = n"
proof -
  have tw: "takeWhile (\<lambda>c. c \<noteq> CHR ''/'') (rev n) = rev n"
    using n by (intro takeWhile_eq_all_conv[THEN iffD2]) (auto simp: plain_name_def)
  have tw2: "takeWhile (\<lambda>c. c \<noteq> CHR ''/'') (rev n @ CHR ''/'' # xs) = rev n" for xs
    using n by (subst takeWhile_append2) (auto simp: plain_name_def)
  have ne: "n \<noteq> []" using n by (simp add: plain_name_def)
  from dir_prefix_ends[of p] show ?thesis
  proof
    assume "dir_prefix p = []"
    then show ?thesis
      using ne dropWhile_rev_plain[OF n, of "[]"] by (simp add: Join_plain[OF n] Base_def tw)
  next
    assume "\<exists>q. dir_prefix p = q @ ''/''"
    then obtain q where "dir_prefix p = q @ ''/''" ..
    then show ?thesis
      using ne tw2 dropWhile_rev_plain[OF n, of "CHR ''/'' # rev q"]
      by (simp add: Join_plain[OF n] Base_def)
  qed
qed

subsection \<open>Cleaning a clean path changes nothing\<close>

text \<open>
  The segments \<open>Clean\<close> keeps: ordinary names, after a run of parent references when the path is
  relative.
\<close>

definition seg_ok :: "string \<Rightarrow> bool" where
  "seg_ok s \<longleftrightarrow> s \<noteq> [] \<and> s \<noteq> ''.'' \<and> CHR ''/'' \<notin> set s"

definition nf :: "bool \<Rightarrow> string list \<Rightarrow> bool" where
  "nf r segs \<longleftrightarrow> list_all seg_ok segs \<and>
     (\<exists>k rest. segs = replicate k ''..'' @ rest \<and> ''..'' \<notin> set rest \<and> (r \<longrightarrow> k = 0))"

lemma split_on_no_sep: "s \<in> set (split_on c p) \<Longrightarrow> c \<notin> set s"
  by (induction p arbitrary: s) (auto split: if_splits list.splits)

lemma nfE:
  assumes "nf r segs"
  obtains k rest where "segs = replicate k ''..'' @ rest" "''..'' \<notin> set rest" "r \<longrightarrow> k = 0"
    "list_all seg_ok segs" "list_all seg_ok rest"
proof -
  from assms obtain k rest where "segs = replicate k ''..'' @ rest" "''..'' \<notin> set rest" "r \<longrightarrow> k = 0"
    "list_all seg_ok segs"
    unfolding nf_def by blast
  then show thesis by (intro that) auto
qed

lemma nf_butlast:
  assumes "nf r segs" "segs \<noteq> []" "last segs \<noteq> ''..''"
  shows "nf r (butlast segs)"
proof -
  obtain k rest where k: "segs = replicate k ''..'' @ rest" "''..'' \<notin> set rest" "r \<longrightarrow> k = 0"
    using assms(1) by (rule nfE)
  have "rest \<noteq> []"
  proof
    assume "rest = []"
    with k(1) assms(2) have "last segs = ''..''" by (cases k) (simp_all del: replicate_Suc add: last_replicate)
    with assms(3) show False by simp
  qed
  then have "butlast segs = replicate k ''..'' @ butlast rest" "''..'' \<notin> set (butlast rest)"
    using k by (auto simp: butlast_append dest: in_set_butlastD)
  moreover have "list_all seg_ok (butlast segs)"
    using assms(1) by (auto simp: nf_def list_all_iff dest: in_set_butlastD)
  ultimately show ?thesis using k(3) by (auto simp: nf_def)
qed

lemma nf_step:
  assumes "nf r segs" "CHR ''/'' \<notin> set s"
  shows "nf r (clean_step r segs s)"
proof -
  obtain k rest where k: "segs = replicate k ''..'' @ rest" "''..'' \<notin> set rest" "r \<longrightarrow> k = 0"
    and ok: "list_all seg_ok segs"
    using assms(1) by (rule nfE)
  consider "s = [] \<or> s = ''.''" | "s = ''..''" "segs \<noteq> [] \<and> last segs \<noteq> ''..''"
    | "s = ''..''" "segs = [] \<or> last segs = ''..''" | "seg_ok s" "s \<noteq> ''..''"
    using assms(2) by (auto simp: seg_ok_def)
  then show ?thesis
  proof cases
    case 1
    then show ?thesis using assms(1) by (simp add: clean_step_def)
  next
    case 2
    then show ?thesis using nf_butlast[OF assms(1)] by (simp add: clean_step_def)
  next
    case 3
    have "rest = []"
    proof (rule ccontr)
      assume "rest \<noteq> []"
      then have "last segs \<in> set rest" "segs \<noteq> []" using k(1) by auto
      with 3 k(2) show False by auto
    qed
    then have "nf r (segs @ [''..''])" if "\<not> r"
      using that k ok by (auto simp: nf_def seg_ok_def intro!: exI[of _ "Suc k"] exI[of _ "[]"]
          simp flip: replicate_append_same)
    with 3 assms(1) show ?thesis by (auto simp: clean_step_def)
  next
    case 4
    then have "clean_step r segs s = segs @ [s]" by (auto simp: clean_step_def seg_ok_def)
    moreover have "nf r (segs @ [s])"
      using 4 k ok by (auto simp: nf_def intro!: exI[of _ k] exI[of _ "rest @ [s]"])
    ultimately show ?thesis by simp
  qed
qed

lemma nf_foldl: "nf r st \<Longrightarrow> (\<And>s. s \<in> set xs \<Longrightarrow> CHR ''/'' \<notin> set s) \<Longrightarrow> nf r (foldl (clean_step r) st xs)"
  by (induction xs arbitrary: st) (auto intro: nf_step)

lemma nf_clean_segs: "nf (rooted p) (clean_segs p)"
  unfolding clean_segs_def
  by (rule nf_foldl) (auto simp: nf_def dest: split_on_no_sep)

lemma foldl_push:
  "list_all seg_ok xs \<Longrightarrow> ''..'' \<notin> set xs \<Longrightarrow> foldl (clean_step r) st xs = st @ xs"
  by (induction xs arbitrary: st) (auto simp: clean_step_def seg_ok_def)

lemma foldl_dots: "foldl (clean_step False) (replicate j ''..'') (replicate k ''..'') = replicate (j + k) ''..''"
proof (induction k arbitrary: j)
  case 0
  show ?case by simp
next
  case (Suc k)
  have "clean_step False (replicate j ''..'') ''..'' = replicate (Suc j) ''..''"
    by (cases j) (auto simp: clean_step_def replicate_append_same)
  with Suc[of "Suc j"] show ?case by simp
qed

lemma foldl_nf:
  assumes "nf r segs"
  shows "foldl (clean_step r) [] segs = segs"
proof -
  obtain k rest where k: "segs = replicate k ''..'' @ rest" "''..'' \<notin> set rest" "r \<longrightarrow> k = 0"
    "list_all seg_ok rest"
    using assms by (rule nfE)
  have "foldl (clean_step r) [] (replicate k ''..'') = replicate k ''..''"
    using k(3) foldl_dots[of 0 k] by (cases r) auto
  then show ?thesis using k by (simp add: foldl_push)
qed

lemma split_join:
  assumes "xs \<noteq> []" "\<And>s. s \<in> set xs \<Longrightarrow> c \<notin> set s"
  shows "split_on c (join_str [c] xs) = xs"
  using assms by (induction "[c]" xs rule: join_str.induct) (auto simp: split_on_plain split_on_sep)

lemma clean_segs_render:
  assumes "nf r segs" "segs \<noteq> []"
  shows "clean_segs ((if r then ''/'' else []) @ join_str ''/'' segs) = segs"
    "rooted ((if r then ''/'' else []) @ join_str ''/'' segs) = r"
proof -
  have ok: "\<And>s. s \<in> set segs \<Longrightarrow> seg_ok s" using assms(1) by (auto simp: nf_def list_all_iff)
  have sp: "split_on (CHR ''/'') (join_str ''/'' segs) = segs"
    using split_join[OF assms(2), of "CHR ''/''"] ok by (auto simp: seg_ok_def)
  obtain x xs where segs: "segs = x # xs" using assms(2) by (cases segs) auto
  then have hd: "seg_ok x" using ok by simp
  then obtain a y where x: "x = a # y" "a \<noteq> CHR ''/''" by (cases x) (auto simp: seg_ok_def)
  have "\<not> rooted (join_str ''/'' segs)" using segs x by (cases xs) (auto simp: rooted_def)
  then show rt: "rooted ((if r then ''/'' else []) @ join_str ''/'' segs) = r"
    by (auto simp: rooted_def)
  show "clean_segs ((if r then ''/'' else []) @ join_str ''/'' segs) = segs"
    unfolding clean_segs_def rt using foldl_nf[OF assms(1)] sp
    by (cases r) (simp_all add: clean_step_def[of _ "[]" "[]"])
qed

lemma Clean_Join_plain:
  assumes n: "plain_name n"
  shows "Clean (Join p n) = Join p n"
proof -
  let ?q = "if p = [] then n else p @ ''/'' @ n"
  let ?s = "clean_segs ?q" and ?r = "rooted ?q"
  have last: "?s \<noteq> []"
    using n clean_segs_plain[OF _ n, of p]
    by (auto simp: clean_segs_def split_on_plain plain_name_def clean_step_def)
  have ne: "join_str ''/'' ?s \<noteq> []"
    using last nf_clean_segs[of ?q] by (cases ?s; cases "tl ?s") (auto simp: nf_def seg_ok_def)
  have J: "Join p n = (if ?r then ''/'' else []) @ join_str ''/'' ?s"
  proof -
    have "Join p n = Clean ?q" using n by (auto simp: Join_def plain_name_def)
    then show ?thesis using ne by (simp add: Clean_def Let_def del: split_paired_All)
  qed
  have "Clean (Join p n) = Join p n"
    using clean_segs_render[OF nf_clean_segs[of ?q] last] ne
    unfolding J by (simp add: Clean_def Let_def)
  then show ?thesis .
qed

section \<open>The operating system as the sources see it\<close>

text \<open>
  The part of package \<open>os\<close> the disk cache calls, as functions on a record of the file system
  and the clock.

  \<^item> \<open>files\<close> maps the full name of a regular file to its bytes (an association list, so that a
    directory can be walked); \<open>dirs\<close> lists directories; \<open>flocks\<close> lists the files somebody (this
    process or another) holds an exclusive lock on; \<open>now\<close> is the clock.
  \<^item> \<open>faults\<close> is the schedule of system-call failures: each call takes the next entry, \<open>None\<close>
    lets it succeed (when the file system allows it) and \<open>Some n\<close> makes it fail with \<open>EIO\<close>; a
    write that fails has transferred \<open>n\<close> bytes.  An exhausted schedule means no more failures, so
    \<open>faults = []\<close> is the fault-free world and an arbitrary list is an arbitrary one.
  \<^item> An open file is known by its name.  The sources close a descriptor before they rename or
    remove its file, so a descriptor never outlives its name.
\<close>

datatype os_err = ENOENT | EISDIR | ENOTDIR | EIO | EINVAL | EWOULDBLOCK | EEOF

record os =
  files :: "(string \<times> bytes) list"
  dirs :: "string list"
  flocks :: "string list"
  faults :: "nat option list"
  now :: int

abbreviation fget :: "string \<Rightarrow> 'a os_scheme \<Rightarrow> bytes option" where
  "fget f w \<equiv> map_of (files w) f"

abbreviation fput :: "string \<Rightarrow> bytes \<Rightarrow> 'a os_scheme \<Rightarrow> 'a os_scheme" where
  "fput f bs w \<equiv> w\<lparr>files := AList.update f bs (files w)\<rparr>"

abbreviation fdel :: "string \<Rightarrow> 'a os_scheme \<Rightarrow> 'a os_scheme" where
  "fdel f w \<equiv> w\<lparr>files := AList.delete f (files w)\<rparr>"

definition pop_fault :: "'a os_scheme \<Rightarrow> nat option \<times> 'a os_scheme" where
  "pop_fault w = (case faults w of [] \<Rightarrow> (None, w) | f # fs \<Rightarrow> (f, w\<lparr>faults := fs\<rparr>))"

subsection \<open>Calls on names\<close>

definition os_stat :: "string \<Rightarrow> 'a os_scheme \<Rightarrow> (os_err + (int \<times> bool)) \<times> 'a os_scheme" where
  "os_stat f w =
     (case pop_fault w of
        (Some n, w1) \<Rightarrow> (Inl EIO, w1)
      | (None, w1) \<Rightarrow>
          (if f \<in> set (dirs w1) then (Inr (0, True), w1)
           else case fget f w1 of
                  None \<Rightarrow> (Inl ENOENT, w1)
                | Some bs \<Rightarrow> (Inr (int (length bs), False), w1)))"

text \<open>\<open>O_WRONLY|O_APPEND|O_CREATE\<close>, \<open>O_WRONLY|O_CREATE|O_TRUNC\<close> and \<open>O_RDONLY\<close>.\<close>

definition os_open_append :: "string \<Rightarrow> 'a os_scheme \<Rightarrow> os_err option \<times> 'a os_scheme" where
  "os_open_append f w =
     (case pop_fault w of
        (Some n, w1) \<Rightarrow> (Some EIO, w1)
      | (None, w1) \<Rightarrow>
          (if f \<in> set (dirs w1) then (Some EISDIR, w1)
           else case fget f w1 of None \<Rightarrow> (None, fput f [] w1) | Some bs \<Rightarrow> (None, w1)))"

definition os_open_trunc :: "string \<Rightarrow> 'a os_scheme \<Rightarrow> os_err option \<times> 'a os_scheme" where
  "os_open_trunc f w =
     (case pop_fault w of
        (Some n, w1) \<Rightarrow> (Some EIO, w1)
      | (None, w1) \<Rightarrow>
          (if f \<in> set (dirs w1) then (Some EISDIR, w1) else (None, fput f [] w1)))"

definition os_open_read :: "string \<Rightarrow> 'a os_scheme \<Rightarrow> os_err option \<times> 'a os_scheme" where
  "os_open_read f w =
     (case pop_fault w of
        (Some n, w1) \<Rightarrow> (Some EIO, w1)
      | (None, w1) \<Rightarrow>
          (if f \<in> set (dirs w1) \<or> fget f w1 \<noteq> None then (None, w1) else (Some ENOENT, w1)))"

definition os_rename :: "string \<Rightarrow> string \<Rightarrow> 'a os_scheme \<Rightarrow> os_err option \<times> 'a os_scheme" where
  "os_rename f g w =
     (case pop_fault w of
        (Some n, w1) \<Rightarrow> (Some EIO, w1)
      | (None, w1) \<Rightarrow>
          (if g \<in> set (dirs w1) then (Some EISDIR, w1)
           else case fget f w1 of
                  None \<Rightarrow> (Some ENOENT, w1)
                | Some bs \<Rightarrow> (None, fput g bs (fdel f w1))))"

definition os_remove :: "string \<Rightarrow> 'a os_scheme \<Rightarrow> os_err option \<times> 'a os_scheme" where
  "os_remove f w =
     (case pop_fault w of
        (Some n, w1) \<Rightarrow> (Some EIO, w1)
      | (None, w1) \<Rightarrow>
          (case fget f w1 of None \<Rightarrow> (Some ENOENT, w1) | Some bs \<Rightarrow> (None, fdel f w1)))"

definition resize :: "nat \<Rightarrow> bytes \<Rightarrow> bytes" where
  "resize n bs = take n bs @ replicate (n - length bs) (char_of (0 :: nat))"

definition os_truncate :: "string \<Rightarrow> int \<Rightarrow> 'a os_scheme \<Rightarrow> os_err option \<times> 'a os_scheme" where
  "os_truncate f n w =
     (case pop_fault w of
        (Some k, w1) \<Rightarrow> (Some EIO, w1)
      | (None, w1) \<Rightarrow>
          (case fget f w1 of
             None \<Rightarrow> (Some ENOENT, w1)
           | Some bs \<Rightarrow>
               (if n < 0 then (Some EINVAL, w1) else (None, fput f (resize (nat n) bs) w1))))"

definition os_read_file :: "string \<Rightarrow> 'a os_scheme \<Rightarrow> (os_err + bytes) \<times> 'a os_scheme" where
  "os_read_file f w =
     (case pop_fault w of
        (Some n, w1) \<Rightarrow> (Inl EIO, w1)
      | (None, w1) \<Rightarrow> (case fget f w1 of None \<Rightarrow> (Inl ENOENT, w1) | Some bs \<Rightarrow> (Inr bs, w1)))"

definition os_mkdir_all :: "string \<Rightarrow> 'a os_scheme \<Rightarrow> os_err option \<times> 'a os_scheme" where
  "os_mkdir_all p w =
     (case pop_fault w of
        (Some n, w1) \<Rightarrow> (Some EIO, w1)
      | (None, w1) \<Rightarrow>
          (if p = [] then (Some ENOENT, w1)
           else if p \<in> set (dirs w1) then (None, w1)
           else if fget p w1 \<noteq> None then (Some ENOTDIR, w1)
           else (None, w1\<lparr>dirs := List.insert p (dirs w1)\<rparr>)))"

text \<open>A non-blocking exclusive \<open>flock\<close>, and giving the lock up.\<close>

definition sys_flock :: "string \<Rightarrow> 'a os_scheme \<Rightarrow> os_err option \<times> 'a os_scheme" where
  "sys_flock f w =
     (case pop_fault w of
        (Some n, w1) \<Rightarrow> (Some EIO, w1)
      | (None, w1) \<Rightarrow>
          (if f \<in> set (flocks w1) then (Some EWOULDBLOCK, w1)
           else (None, w1\<lparr>flocks := f # flocks w1\<rparr>)))"

definition sys_funlock :: "string \<Rightarrow> 'a os_scheme \<Rightarrow> os_err option \<times> 'a os_scheme" where
  "sys_funlock f w =
     (case pop_fault w of
        (Some n, w1) \<Rightarrow> (Some EIO, w1)
      | (None, w1) \<Rightarrow> (None, w1\<lparr>flocks := removeAll f (flocks w1)\<rparr>))"

subsection \<open>Calls on open files\<close>

text \<open>
  A write through an appending descriptor goes to the end of the file whatever was sought before.
  A read of no bytes returns at once; a read at the end of the file is \<open>EOF\<close>.
\<close>

definition fd_append :: "string \<Rightarrow> bytes \<Rightarrow> 'a os_scheme \<Rightarrow> os_err option \<times> 'a os_scheme" where
  "fd_append f bs w =
     (let (flt, w1) = pop_fault w;
          sent = (case flt of None \<Rightarrow> bs | Some n \<Rightarrow> take n bs);
          w2 = (case fget f w1 of None \<Rightarrow> w1 | Some old \<Rightarrow> fput f (old @ sent) w1)
      in (case flt of None \<Rightarrow> None | Some n \<Rightarrow> Some EIO, w2))"

definition fd_write_start :: "string \<Rightarrow> bytes \<Rightarrow> 'a os_scheme \<Rightarrow> os_err option \<times> 'a os_scheme" where
  "fd_write_start f bs w =
     (let (flt, w1) = pop_fault w;
          sent = (case flt of None \<Rightarrow> bs | Some n \<Rightarrow> take n bs);
          w2 = (case fget f w1 of
                  None \<Rightarrow> w1 | Some old \<Rightarrow> fput f (sent @ drop (length sent) old) w1)
      in (case flt of None \<Rightarrow> None | Some n \<Rightarrow> Some EIO, w2))"

definition fd_read ::
  "string \<Rightarrow> nat \<Rightarrow> nat \<Rightarrow> 'a os_scheme \<Rightarrow> (os_err + bytes) \<times> 'a os_scheme" where
  "fd_read f off n w =
     (case pop_fault w of
        (Some k, w1) \<Rightarrow> (Inl EIO, w1)
      | (None, w1) \<Rightarrow>
          (if n = 0 then (Inr [], w1)
           else case fget f w1 of
                  None \<Rightarrow> (Inl EISDIR, w1)
                | Some bs \<Rightarrow>
                    (if drop off bs = [] then (Inl EEOF, w1)
                     else (Inr (take n (drop off bs)), w1))))"

text \<open>Sync, Close, Seek and other calls that only succeed or fail.\<close>

definition fd_call :: "'a os_scheme \<Rightarrow> os_err option \<times> 'a os_scheme" where
  "fd_call w = (case pop_fault w of (Some n, w1) \<Rightarrow> (Some EIO, w1) | (None, w1) \<Rightarrow> (None, w1))"

definition fd_truncate0 :: "string \<Rightarrow> 'a os_scheme \<Rightarrow> os_err option \<times> 'a os_scheme" where
  "fd_truncate0 f w =
     (case pop_fault w of
        (Some n, w1) \<Rightarrow> (Some EIO, w1)
      | (None, w1) \<Rightarrow>
          (case fget f w1 of None \<Rightarrow> (None, w1) | Some bs \<Rightarrow> (None, fput f [] w1)))"

text \<open>Seek to an absolute position: a negative one is refused.\<close>

definition fd_seek :: "int \<Rightarrow> 'a os_scheme \<Rightarrow> os_err option \<times> 'a os_scheme" where
  "fd_seek target w =
     (case pop_fault w of
        (Some n, w1) \<Rightarrow> (Some EIO, w1)
      | (None, w1) \<Rightarrow> (if target < 0 then (Some EINVAL, w1) else (None, w1)))"

text \<open>
  \<open>filepath.Walk\<close> over a directory: the regular files below it, in name order.  A file is below a
  directory when the directory's cleaned prefix starts its name; below the current directory are
  the relative names that do not climb out of it.
\<close>

definition in_dir :: "string \<Rightarrow> string \<Rightarrow> bool" where
  "in_dir p f \<longleftrightarrow> take (length (dir_prefix p)) f = dir_prefix p \<and>
     (dir_prefix p = [] \<longrightarrow> f \<noteq> [] \<and> \<not> rooted f \<and> take 3 f \<noteq> ''../'')"

definition walk_files :: "string \<Rightarrow> 'a os_scheme \<Rightarrow> string list" where
  "walk_files p w =
     sort (remdups (filter (in_dir p) (map fst (files w))))"

subsection \<open>The fault-free world\<close>

lemma pop_fault_Nil [simp]: "faults w = [] \<Longrightarrow> pop_fault w = (None, w)"
  by (simp add: pop_fault_def)

lemma map_of_AList_update [simp]: "map_of (AList.update k v al) = (map_of al)(k \<mapsto> v)"
  by (simp add: update_conv')

lemma map_of_AList_delete [simp]: "map_of (AList.delete k al) = (map_of al)(k := None)"
  by (simp add: delete_conv')

lemmas os_defs [go_sem] =
  os_stat_def os_open_append_def os_open_trunc_def os_open_read_def os_rename_def os_remove_def
  os_truncate_def os_read_file_def fd_append_def fd_write_start_def fd_read_def fd_call_def
  fd_truncate0_def fd_seek_def os_mkdir_all_def sys_flock_def sys_funlock_def

lemma fst_set_AList_update [simp]: "fst ` set (AList.update k v al) = insert k (fst ` set al)"
  by (simp add: dom_map_of_conv_image_fst[symmetric])

lemma fst_set_AList_delete [simp]: "fst ` set (AList.delete k al) = fst ` set al - {k}"
  by (auto simp: dom_map_of_conv_image_fst[symmetric])

lemma fget_None_iff: "fget f w = None \<longleftrightarrow> f \<notin> fst ` set (files w)"
  by (simp add: map_of_eq_None_iff)

lemma walk_files_props:
  "set (walk_files p w) = {f. in_dir p f \<and> fget f w \<noteq> None}" "sorted (walk_files p w)" "distinct (walk_files p w)"
  by (auto simp: walk_files_def fget_None_iff simp del: not_None_eq)

lemma in_dir_not_Nil: "\<not> in_dir p []"
  by (auto simp: in_dir_def)

lemma in_dir_Join:
  assumes "plain_name n"
  shows "in_dir p (Join p n)"
proof -
  have "take 3 n \<noteq> ''../''" using assms in_set_takeD[of "CHR ''/''" 3 n] by (auto simp: plain_name_def)
  with assms show ?thesis by (cases n) (auto simp: in_dir_def Join_plain rooted_def plain_name_def)
qed

end
