(* ===== verification/Diskcache_Types.thy ===== *)
theory Diskcache_Types
  imports Go_Os
begin

section \<open>Disk cache: errors, state, options (errors.go, diskcache.go, options.go, envs.go, meta.go)\<close>

text \<open>
  The data of package \<open>diskcache\<close>: its error values with the chain of contexts they are wrapped
  in, the \<open>DiskCache\<close> and \<open>pos\<close> structs, the option and environment setters and the read-only
  accessors.  An error keeps its operation, path, file and cause; the free-text details and the
  caller's source line, which only decorate the message, are left out, as are the Prometheus
  metrics, the mutexes and the four-byte scratch buffer \<open>batchHeader\<close>.
\<close>

subsection \<open>errors.go\<close>

datatype Operation =
    OpOpen | OpClose | OpPut | OpStreamPut | OpGet | OpRotate | OpSwitch | OpDrop | OpLock
  | OpUnlock | OpPos | OpSeek | OpWrite | OpRead | OpSync | OpCreate | OpRemove | OpRename | OpStat

datatype go_err =
    ErrUnexpectedReadSize
  | ErrTooSmallReadBuf
  | ErrTooLargeData
  | ErrNoData
  | ErrCacheFull
  | ErrClosed
  | ErrInvalidStreamSize
  | ErrInvalidDataFileName
  | ErrInvalidDataFileNameSuffix
  | ErrBadHeader
  | ErrDataFileIsDir
  | ErrOsInvalid
  | ErrLocked
  | SysErr os_err
  | UserErr string
  | JoinErr "go_err list"
  | CacheError Operation string string go_err

fun Unwrap :: "go_err \<Rightarrow> go_err option" where
  "Unwrap (CacheError op p f e) = Some e"
| "Unwrap e = None"

definition NewCacheError :: "Operation \<Rightarrow> go_err \<Rightarrow> go_err" where
  "NewCacheError op e = CacheError op [] [] e"

fun WithPath :: "string \<Rightarrow> go_err \<Rightarrow> go_err" where
  "WithPath p (CacheError op p0 f e) = CacheError op p f e"
| "WithPath p e = e"

fun WithFile :: "string \<Rightarrow> go_err \<Rightarrow> go_err" where
  "WithFile f (CacheError op p f0 e) = CacheError op p f e"
| "WithFile f e = e"

definition WrapPutError :: "string \<Rightarrow> go_err \<Rightarrow> go_err" where
  "WrapPutError p e = WithPath p (NewCacheError OpPut e)"

definition WrapGetError :: "string \<Rightarrow> string \<Rightarrow> go_err \<Rightarrow> go_err" where
  "WrapGetError p f e = WithFile f (WithPath p (NewCacheError OpGet e))"

definition WrapRotateError :: "string \<Rightarrow> go_err \<Rightarrow> go_err" where
  "WrapRotateError p e = WithPath p (NewCacheError OpRotate e)"

definition WrapOpenError :: "string \<Rightarrow> go_err \<Rightarrow> go_err" where
  "WrapOpenError p e = WithPath p (NewCacheError OpOpen e)"

definition WrapCloseError :: "string \<Rightarrow> go_err \<Rightarrow> go_err" where
  "WrapCloseError p e = WithPath p (NewCacheError OpClose e)"

definition WrapLockError :: "string \<Rightarrow> go_err \<Rightarrow> go_err" where
  "WrapLockError p e = WithPath p (NewCacheError OpLock e)"

definition WrapPosError :: "string \<Rightarrow> go_err \<Rightarrow> go_err" where
  "WrapPosError p e = WithPath p (NewCacheError OpPos e)"

definition WrapFileOperationError :: "Operation \<Rightarrow> string \<Rightarrow> string \<Rightarrow> go_err \<Rightarrow> go_err" where
  "WrapFileOperationError op p f e = WithFile f (WithPath p (NewCacheError op e))"

text \<open>\<open>errors.Is\<close> on the chain of causes.\<close>

fun errors_Is :: "go_err \<Rightarrow> go_err \<Rightarrow> bool" where
  "errors_Is (CacheError op p f e) t \<longleftrightarrow> CacheError op p f e = t \<or> errors_Is e t"
| "errors_Is (JoinErr es) t \<longleftrightarrow> JoinErr es = t \<or> (\<exists>e \<in> set es. errors_Is e t)"
| "errors_Is e t \<longleftrightarrow> e = t"

lemmas err_defs [go_sem] =
  NewCacheError_def WrapPutError_def WrapGetError_def WrapRotateError_def WrapOpenError_def
  WrapCloseError_def WrapLockError_def WrapPosError_def WrapFileOperationError_def

subsection \<open>The structs\<close>

record pos =
  Seek :: int
  Name :: "bytes option"
  cnt :: int
  dumpCount :: int
  dumpInterval :: int
  lastDump :: "int option"
  posfd :: bool
  posfname :: string

record diskcache = os +
  path :: string
  dataFiles :: "string list"
  closed :: bool
  closeErr :: "go_err option"
  curWriteFile :: string
  curReadfile :: string
  wfd :: "string option"
  rfd :: "(string \<times> nat) option"
  wfdLastWrite :: int
  wakeup :: int
  cflock :: "string option"
  cpos :: pos
  csize :: int
  curBatchSize :: int
  curReadSize :: int
  batchSize :: int
  capacity :: int
  maxDataSize :: int
  dirPerms :: int
  filePerms :: int
  noSync :: bool
  noFallbackOnError :: bool
  noPos :: bool
  filoDrop :: bool
  noDrop :: bool
  noLock :: bool
  LastErr :: "go_err option"

definition dataHeaderLen :: nat where
  "dataHeaderLen = 4"

definition EOFHint :: int where
  "EOFHint = 0xdeadbeef"

type_synonym dc_step = "(go_err, diskcache) step"

subsection \<open>options.go\<close>

type_synonym CacheOption = "diskcache \<Rightarrow> diskcache"

definition WithNoFallbackOnError :: "bool \<Rightarrow> CacheOption" where
  "WithNoFallbackOnError on c = c\<lparr>noFallbackOnError := on\<rparr>"

definition WithFILODrop :: "bool \<Rightarrow> CacheOption" where
  "WithFILODrop on c = c\<lparr>filoDrop := on\<rparr>"

definition WithNoDrop :: "bool \<Rightarrow> CacheOption" where
  "WithNoDrop on c = c\<lparr>noDrop := on\<rparr>"

definition WithNoLock :: "bool \<Rightarrow> CacheOption" where
  "WithNoLock on c = c\<lparr>noLock := on\<rparr>"

definition WithNoPos :: "bool \<Rightarrow> CacheOption" where
  "WithNoPos on c = c\<lparr>noPos := on\<rparr>"

definition WithPosUpdate :: "int \<Rightarrow> int \<Rightarrow> CacheOption" where
  "WithPosUpdate n du c =
     (let c1 = (if n \<ge> 0 then c\<lparr>cpos := (cpos c)\<lparr>dumpCount := n\<rparr>\<rparr> else c)
      in if du \<ge> 0 then c1\<lparr>cpos := (cpos c1)\<lparr>dumpInterval := du\<rparr>\<rparr> else c1)"

definition WithWakeup :: "int \<Rightarrow> CacheOption" where
  "WithWakeup du c = (if du > 0 then c\<lparr>wakeup := du\<rparr> else c)"

definition WithBatchSize :: "int \<Rightarrow> CacheOption" where
  "WithBatchSize n c = (if n > 0 then c\<lparr>batchSize := n\<rparr> else c)"

definition WithMaxDataSize :: "int \<Rightarrow> CacheOption" where
  "WithMaxDataSize n c = (if n > 0 then c\<lparr>maxDataSize := n\<rparr> else c)"

definition WithCapacity :: "int \<Rightarrow> CacheOption" where
  "WithCapacity n c = (if n > 0 then c\<lparr>capacity := n\<rparr> else c)"

definition WithExtraCapacity :: "int \<Rightarrow> CacheOption" where
  "WithExtraCapacity n c =
     (if to_i64 (capacity c + n) > 0 then c\<lparr>capacity := to_i64 (capacity c + n)\<rparr> else c)"

definition WithNoSync :: "bool \<Rightarrow> CacheOption" where
  "WithNoSync on c = c\<lparr>noSync := on\<rparr>"

definition WithDirPermission :: "int \<Rightarrow> CacheOption" where
  "WithDirPermission perms c = c\<lparr>dirPerms := perms\<rparr>"

definition WithFilePermission :: "int \<Rightarrow> CacheOption" where
  "WithFilePermission perms c = c\<lparr>filePerms := perms\<rparr>"

definition WithPathOption :: "string \<Rightarrow> CacheOption" where
  "WithPathOption x c = c\<lparr>path := Clean x\<rparr>"

lemmas option_defs [go_sem] =
  WithNoFallbackOnError_def WithFILODrop_def WithNoDrop_def WithNoLock_def WithNoPos_def
  WithPosUpdate_def WithWakeup_def WithBatchSize_def WithMaxDataSize_def WithCapacity_def
  WithExtraCapacity_def WithNoSync_def WithDirPermission_def WithFilePermission_def
  WithPathOption_def

subsection \<open>envs.go\<close>

text \<open>
  \<open>env\<close> is \<open>os.LookupEnv\<close>; \<open>parseDuration\<close> is \<open>time.ParseDuration\<close> in nanoseconds.  A variable
  that is unset, empty or does not parse changes nothing.
\<close>

definition env_set :: "(string \<Rightarrow> string option) \<Rightarrow> string \<Rightarrow> string option" where
  "env_set env k = (case env k of None \<Rightarrow> None | Some v \<Rightarrow> if v = [] then None else Some v)"

definition env_int :: "nat \<Rightarrow> (string \<Rightarrow> string option) \<Rightarrow> string \<Rightarrow> int option" where
  "env_int bits env k = Option.bind (env_set env k) (ParseInt bits)"

definition syncEnv ::
  "(string \<Rightarrow> int option) \<Rightarrow> (string \<Rightarrow> string option) \<Rightarrow> diskcache \<Rightarrow> diskcache" where
  "syncEnv parseDuration env c0 =
     (let c1 = (case env_int 64 env ''ENV_DISKCACHE_BATCH_SIZE'' of
                  Some i \<Rightarrow> c0\<lparr>batchSize := i\<rparr> | None \<Rightarrow> c0);
          c2 = (case env_int 32 env ''ENV_DISKCACHE_MAX_DATA_SIZE'' of
                  Some i \<Rightarrow> c1\<lparr>maxDataSize := i\<rparr> | None \<Rightarrow> c1);
          c3 = (case env_int 64 env ''ENV_DISKCACHE_CAPACITY'' of
                  Some i \<Rightarrow> c2\<lparr>capacity := i\<rparr> | None \<Rightarrow> c2);
          c4 = (case env_set env ''ENV_DISKCACHE_NO_SYNC'' of
                  Some v \<Rightarrow> c3\<lparr>noSync := True\<rparr> | None \<Rightarrow> c3);
          c5 = (case env_set env ''ENV_DISKCACHE_NO_POS'' of
                  Some v \<Rightarrow> c4\<lparr>noPos := True\<rparr> | None \<Rightarrow> c4);
          c6 = (case Option.bind (env_set env ''ENV_DISKCACHE_POS_DUMP_INTERVAL'') parseDuration of
                  Some du \<Rightarrow>
                    (if du > 0 then c5\<lparr>cpos := (cpos c5)\<lparr>dumpInterval := du\<rparr>\<rparr> else c5)
                | None \<Rightarrow> c5);
          c7 = (case env_int 64 env ''ENV_DISKCACHE_POS_DUMP_AT'' of
                  Some n \<Rightarrow> (if n > 0 then c6\<lparr>cpos := (cpos c6)\<lparr>dumpCount := n\<rparr>\<rparr> else c6)
                | None \<Rightarrow> c6);
          c8 = (case env_set env ''ENV_DISKCACHE_NO_LOCK'' of
                  Some v \<Rightarrow> c7\<lparr>noLock := True\<rparr> | None \<Rightarrow> c7)
      in (case env_set env ''ENV_DISKCACHE_NO_FALLBACK_ON_ERROR'' of
            Some v \<Rightarrow> c8\<lparr>noFallbackOnError := True\<rparr> | None \<Rightarrow> c8))"

subsection \<open>meta.go and the file names of write\_file.go\<close>

definition Size :: "diskcache \<Rightarrow> int" where
  "Size c = (if length (dataFiles c) > 0 then csize c else 0)"

definition RawSize :: "diskcache \<Rightarrow> int" where
  "RawSize c = csize c"

definition writeFileName :: "diskcache \<Rightarrow> string" where
  "writeFileName c = (case wfd c of Some f \<Rightarrow> f | None \<Rightarrow> curWriteFile c)"

definition readFileName :: "diskcache \<Rightarrow> string" where
  "readFileName c = (case rfd c of Some (f, off) \<Rightarrow> f | None \<Rightarrow> curReadfile c)"

section \<open>Disk cache: the read position file (pos.go)\<close>

text \<open>
  \<open>pos\<close> remembers which file is being read and how far, in memory and in the file \<open>.pos\<close>.  Its
  methods take the struct and the system and return both, with the error.  The reused buffer is
  not modelled: every use of it starts with a reset.
\<close>

type_synonym 'a pos_step = "(go_err, pos \<times> 'a os_scheme) step"

definition with_pos :: "pos \<Rightarrow> (os_err option \<times> 'a os_scheme) \<Rightarrow> (os_err, pos \<times> 'a os_scheme) step" where
  "with_pos p r = (fst r, (p, snd r))"

lemma with_pos_simp [simp]: "with_pos p (e, w) = (e, (p, w))"
  by (simp add: with_pos_def)

definition pos_close :: "pos \<times> 'a os_scheme \<Rightarrow> 'a pos_step" where
  "pos_close s =
     (case s of (p, w) \<Rightarrow>
        if posfd p
        then wrapE (\<lambda>e. WrapFileOperationError OpClose [] (posfname p) (SysErr e))
               (with_pos (p\<lparr>posfd := False\<rparr>) (fd_call w))
        else okE (p, w))"

definition MarshalBinary :: "pos \<Rightarrow> bytes" where
  "MarshalBinary p = PutInt64 (Seek p) @ (case Name p of None \<Rightarrow> [] | Some n \<Rightarrow> n)"

definition UnmarshalBinary :: "bytes \<Rightarrow> pos \<Rightarrow> go_err + pos" where
  "UnmarshalBinary bin p =
     (if length bin < 8 then Inl (SysErr EEOF)
      else Inr (p\<lparr>Seek := Int64 bin, Name := Some (drop 8 bin)\<rparr>))"

definition zero_pos :: pos where
  "zero_pos = \<lparr>Seek = 0, Name = None, cnt = 0, dumpCount = 0, dumpInterval = 0, lastDump = None,
               posfd = False, posfname = []\<rparr>"

definition posFromFile :: "string \<Rightarrow> 'a os_scheme \<Rightarrow> (go_err + pos option) \<times> 'a os_scheme" where
  "posFromFile fname w =
     (case os_read_file (Clean fname) w of
        (Inl e, w1) \<Rightarrow> (Inl (WrapFileOperationError OpRead [] fname (SysErr e)), w1)
      | (Inr bin, w1) \<Rightarrow>
          (if length bin \<le> 8 then (Inr None, w1)
           else case UnmarshalBinary bin zero_pos of
                  Inl e \<Rightarrow> (Inl (WithFile fname (NewCacheError OpPos e)), w1)
                | Inr p \<Rightarrow> (Inr (Some p), w1)))"

definition pos_open_fd :: "pos \<times> 'a os_scheme \<Rightarrow> 'a pos_step" where
  "pos_open_fd s =
     (case s of (p, w) \<Rightarrow>
        if posfd p then okE (p, w)
        else bindE (wrapE (\<lambda>e. WrapFileOperationError OpCreate [] (posfname p) (SysErr e))
                     (with_pos p (os_open_trunc (posfname p) w)))
               (\<lambda>(p, w). okE (p\<lparr>posfd := True\<rparr>, w)))"

definition doDumpFile :: "pos \<times> 'a os_scheme \<Rightarrow> 'a pos_step" where
  "doDumpFile s =
     bindE (pos_open_fd s) (\<lambda>(p, w).
     let data = MarshalBinary p in
     bindE (wrapE (\<lambda>e. WrapFileOperationError OpWrite [] (posfname p) (SysErr e))
              (with_pos p (fd_truncate0 (posfname p) w))) (\<lambda>(p, w).
     bindE (wrapE (\<lambda>e. WrapFileOperationError OpSeek [] (posfname p) (SysErr e))
              (with_pos p (fd_seek 0 w))) (\<lambda>(p, w).
     wrapE (\<lambda>e. WrapFileOperationError OpWrite [] (posfname p) (SysErr e))
       (with_pos p (fd_write_start (posfname p) data w)))))"

definition pos_reset :: "pos \<times> 'a os_scheme \<Rightarrow> 'a pos_step" where
  "pos_reset s =
     bindE (pos_open_fd s) (\<lambda>(p, w).
       if Name p = None \<and> Seek p = -1 then okE (p, w)
       else doDumpFile (p\<lparr>Seek := -1, Name := None\<rparr>, w))"

text \<open>\<open>dumpFile\<close> returns whether it dumped, beside the error.\<close>

definition dumpFile :: "pos \<times> 'a os_scheme \<Rightarrow> bool \<times> 'a pos_step" where
  "dumpFile s =
     (case s of (p, w) \<Rightarrow>
        if dumpCount p = 0 then (True, doDumpFile (p, w))
        else let p1 = p\<lparr>cnt := cnt p + 1\<rparr> in
             if cnt p1 mod dumpCount p1 = 0
             then (True, doDumpFile (p1\<lparr>lastDump := Some (now w)\<rparr>, w))
             else if dumpInterval p1 > 0
                     \<and> (case lastDump p1 of None \<Rightarrow> True | Some t \<Rightarrow> now w - t \<ge> dumpInterval p1)
             then (True, doDumpFile (p1\<lparr>lastDump := Some (now w)\<rparr>, w))
             else (False, okE (p1, w)))"

text \<open>Running a method of \<open>c.pos\<close> on the cache that owns it.\<close>

definition on_pos :: "(pos \<times> diskcache \<Rightarrow> (go_err, pos \<times> diskcache) step) \<Rightarrow> diskcache \<Rightarrow> dc_step" where
  "on_pos m c = (case m (cpos c, c) of (e, (p, c1)) \<Rightarrow> (e, c1\<lparr>cpos := p\<rparr>))"

lemmas pos_defs [go_sem] =
  pos_open_fd_def doDumpFile_def pos_reset_def dumpFile_def on_pos_def pos_close_def

subsection \<open>The file holds what was dumped, and reads back\<close>

text \<open>
  What a position that can be dumped looks like: a 64-bit offset and, when a file is being read,
  a non-empty name.
\<close>

definition pos_ok :: "pos \<Rightarrow> bool" where
  "pos_ok p \<longleftrightarrow> - (2 ^ 63) \<le> Seek p \<and> Seek p < 2 ^ 63 \<and> Name p \<noteq> Some []"

lemma UnmarshalBinary_MarshalBinary:
  assumes "pos_ok p"
  shows "UnmarshalBinary (MarshalBinary p) q =
           Inr (q\<lparr>Seek := Seek p, Name := Some (case Name p of None \<Rightarrow> [] | Some n \<Rightarrow> n)\<rparr>)"
  using assms by (simp add: UnmarshalBinary_def MarshalBinary_def pos_ok_def Int64_PutInt64)

lemma doDumpFile_ok:
  assumes "faults w = []" "posfname p \<notin> set (dirs w)" "posfd p \<Longrightarrow> fget (posfname p) w \<noteq> None"
  shows "\<exists>fs. doDumpFile (p, w) = (None, (p\<lparr>posfd := True\<rparr>, w\<lparr>files := fs\<rparr>)) \<and>
              map_of fs = (map_of (files w))(posfname p \<mapsto> MarshalBinary p)"
  using assms
  by (cases "posfd p") (auto simp: doDumpFile_def pos_open_fd_def os_defs MarshalBinary_def Let_def)

lemma posFromFile_dumped:
  assumes "faults w = []" "fget (Clean f) w = Some (MarshalBinary p)" "pos_ok p"
  shows "posFromFile f w =
           (Inr (case Name p of
                   None \<Rightarrow> None
                 | Some n \<Rightarrow> Some (zero_pos\<lparr>Seek := Seek p, Name := Some n\<rparr>)), w)"
proof -
  have len: "length (MarshalBinary p) \<le> 8 \<longleftrightarrow> Name p = None"
    using assms(3) by (auto simp: MarshalBinary_def pos_ok_def split: option.splits)
  from assms show ?thesis
    by (auto simp: posFromFile_def os_defs len UnmarshalBinary_MarshalBinary split: option.splits)
qed

end
