(* ===== verification/Diskcache_Write.thy ===== *)
theory Diskcache_Write
  imports Diskcache_Types
begin

section \<open>Disk cache: the write side (put.go, rotate.go, drop.go, write\_file.go, switch.go)\<close>

text \<open>
  \<open>Put\<close> frames a record (a four-byte little-endian length, then the bytes) onto the file \<open>data\<close>;
  \<open>rotate\<close> closes that file with an end mark and renames it to the next numbered batch, which the
  read side then sees; \<open>dropBatch\<close> gives the oldest batch up when the cache is full.  Each
  definition is one critical section of the source: the locks only make these sections exclusive.
\<close>

subsection \<open>The write file\<close>

definition openWriteFile :: "diskcache \<Rightarrow> dc_step" where
  "openWriteFile c0 =
     (let reopen = (\<lambda>c. bindE (wrapE (\<lambda>e. WrapFileOperationError OpCreate (path c) (curWriteFile c) (SysErr e))
                              (os_open_append (curWriteFile c) c))
                         (\<lambda>c. okE (c\<lparr>wfdLastWrite := now c, wfd := Some (curWriteFile c)\<rparr>)))
      in case os_stat (curWriteFile c0) c0 of
           (Inr (sz, isdir), c) \<Rightarrow>
             (if isdir
              then failE (WithFile (curWriteFile c) (WithPath (path c)
                           (NewCacheError OpCreate ErrDataFileIsDir))) c
              else reopen (c\<lparr>curBatchSize := sz\<rparr>))
         | (Inl e, c) \<Rightarrow> reopen (c\<lparr>curBatchSize := 0\<rparr>))"

definition ensureWriteFile :: "diskcache \<Rightarrow> dc_step" where
  "ensureWriteFile c =
     (if closed c then failE ErrClosed c
      else if wfd c \<noteq> None then okE c
      else if curWriteFile c = []
      then failE (WrapFileOperationError OpCreate (path c) (writeFileName c) ErrOsInvalid) c
      else openWriteFile c)"

subsection \<open>Rotation\<close>

definition datafile_name :: "int \<Rightarrow> string" where
  "datafile_name x = ''data.'' @ fmt_0d 32 x"

definition next_datafile :: "diskcache \<Rightarrow> go_err + string" where
  "next_datafile c =
     (if length (dataFiles c) = 0 then Inr (Join (path c) (datafile_name 0))
      else let lst = last (dataFiles c);
               arr = split_on (CHR ''.'') (Base lst)
           in if length arr \<noteq> 2
              then Inl (WithFile lst (WithPath (path c) (NewCacheError OpRotate ErrInvalidDataFileName)))
              else case ParseInt 64 (arr ! 1) of
                     None \<Rightarrow> Inl (WithFile lst (WithPath (path c)
                                   (NewCacheError OpRotate ErrInvalidDataFileNameSuffix)))
                   | Some x \<Rightarrow> Inr (Join (path c) (datafile_name (to_i64 (x + 1)))))"

text \<open>
  Rename \<open>data\<close> to the new batch.  When the rename fails and the write file is still there, the end
  mark is cut off again.  The result says whether it was renamed and what error to report.
\<close>

definition rotate_rename :: "string \<Rightarrow> int \<Rightarrow> diskcache \<Rightarrow> dc_step" where
  "rotate_rename newfile sizeBeforeEOF c0 =
     (case os_rename (curWriteFile c0) newfile c0 of
        (None, c) \<Rightarrow> (None, c)
      | (Some e, c) \<Rightarrow>
          (let err = WrapRotateError (path c) (SysErr e) in
           case os_stat (curWriteFile c) c of
             (Inr (sz, False), c1) \<Rightarrow>
               (case os_truncate (curWriteFile c1) sizeBeforeEOF c1 of
                  (None, c2) \<Rightarrow> (Some err, c2)
                | (Some e2, c2) \<Rightarrow> (Some (WithPath (path c2) (NewCacheError OpRotate err)), c2))
           | (_, c1) \<Rightarrow> (Some err, c1)))"

text \<open>Count the new batch in the cache's size and put it on the reading list.\<close>

definition rotate_account :: "string \<Rightarrow> diskcache \<Rightarrow> diskcache" where
  "rotate_account newfile c0 =
     (let c2 = (case os_stat newfile c0 of
                  (Inr (sz, isdir), c1) \<Rightarrow>
                    (if sz > int dataHeaderLen then c1\<lparr>csize := csize c1 + sz\<rparr> else c1)
                | (Inl e, c1) \<Rightarrow> c1)
      in c2\<lparr>dataFiles := sort (dataFiles c2 @ [newfile])\<rparr>)"

definition rotate_file :: "diskcache \<Rightarrow> dc_step" where
  "rotate_file c0 =
     bindE (wrapE (\<lambda>e. WithPath (path c0) (NewCacheError OpRotate e)) (ensureWriteFile c0)) (\<lambda>c.
     let batchSizeBeforeEOF = curBatchSize c in
     bindE (wrapE (\<lambda>e. WrapFileOperationError OpWrite (path c) (writeFileName c) (SysErr e))
              (fd_append (writeFileName c) (PutUint32 EOFHint) c)) (\<lambda>c.
     case next_datafile c of
       Inl e \<Rightarrow> failE e c
     | Inr newfile \<Rightarrow>
         bindE (wrapE (\<lambda>e. WrapFileOperationError OpClose (path c) (writeFileName c) (SysErr e))
                  (fd_call c)) (\<lambda>c.
         case rotate_rename newfile batchSizeBeforeEOF (c\<lparr>wfd := None\<rparr>) of
           (rotateErr, c) \<Rightarrow>
             (let c = (if rotateErr = None then rotate_account newfile c else c) in
              case openWriteFile c of
                (Some e, c) \<Rightarrow>
                  failE (WithPath (path c) (NewCacheError OpRotate
                           (case rotateErr of Some re \<Rightarrow> re | None \<Rightarrow> e))) c
              | (None, c) \<Rightarrow> (rotateErr, c)))))"

definition Rotate :: "diskcache \<Rightarrow> dc_step" where
  "Rotate c =
     (if closed c then failE (WithPath (path c) (NewCacheError OpRotate ErrClosed)) c
      else rotate_file c)"

subsection \<open>Dropping the oldest batch\<close>

definition dropBatch :: "diskcache \<Rightarrow> dc_step" where
  "dropBatch c0 =
     (if length (dataFiles c0) = 0 then okE c0
      else let fname = hd (dataFiles c0) in
        bindE (if rfd c0 \<noteq> None \<and> curReadfile c0 = fname
               then bindE (wrapE (\<lambda>e. WrapFileOperationError OpClose (path c0) fname (SysErr e))
                             (fd_call c0))
                      (\<lambda>c. okE (c\<lparr>rfd := None\<rparr>))
               else okE c0) (\<lambda>c.
        case os_stat fname c of
          (Inr (sz, isdir), c) \<Rightarrow>
            bindE (wrapE (\<lambda>e. WrapFileOperationError OpRemove (path c) fname (SysErr e))
                     (os_remove fname c))
              (\<lambda>c. okE (c\<lparr>csize := csize c - sz, dataFiles := tl (dataFiles c)\<rparr>))
        | (Inl e, c) \<Rightarrow> failE (WrapFileOperationError OpStat (path c) fname (SysErr e)) c))"

subsection \<open>Put and StreamPut\<close>

definition IsFull :: "bytes \<Rightarrow> diskcache \<Rightarrow> bool" where
  "IsFull newData c \<longleftrightarrow> capacity c > 0 \<and> csize c + int (length newData) > capacity c"

definition put_make_room :: "bytes \<Rightarrow> diskcache \<Rightarrow> dc_step" where
  "put_make_room data c =
     (if IsFull data c
      then if noDrop c then failE (WrapPutError (path c) ErrCacheFull) c
           else if filoDrop c then failE (WrapPutError (path c) ErrCacheFull) c
           else wrapE (WrapPutError (path c)) (dropBatch c)
      else okE c)"

definition put_write :: "bytes \<Rightarrow> diskcache \<Rightarrow> dc_step" where
  "put_write data c =
     bindE (wrapE (\<lambda>e. WrapFileOperationError OpWrite (path c) (writeFileName c) (SysErr e))
              (fd_append (writeFileName c) (PutUint32 (int (length data))) c)) (\<lambda>c.
     bindE (wrapE (\<lambda>e. WrapFileOperationError OpWrite (path c) (writeFileName c) (SysErr e))
              (fd_append (writeFileName c) data c)) (\<lambda>c.
     bindE (if noSync c then okE c
            else wrapE (\<lambda>e. WrapFileOperationError OpSync (path c) (writeFileName c) (SysErr e))
                   (fd_call c)) (\<lambda>c.
     okE (c\<lparr>curBatchSize := curBatchSize c + int (length data + dataHeaderLen),
            wfdLastWrite := now c\<rparr>))))"

definition put_append :: "bytes \<Rightarrow> diskcache \<Rightarrow> dc_step" where
  "put_append data c =
     (if maxDataSize c > 0 \<and> to_i32 (int (length data)) > maxDataSize c
      then failE (WrapPutError (path c) ErrTooLargeData) c
      else bindE (wrapE (WrapPutError (path c)) (ensureWriteFile c)) (\<lambda>c.
           bindE (put_write data c) (\<lambda>c.
           if curBatchSize c \<ge> batchSize c
           then wrapE (WrapPutError (path c)) (rotate_file c)
           else okE c)))"

definition Put :: "bytes \<Rightarrow> diskcache \<Rightarrow> dc_step" where
  "Put data c0 =
     (if closed c0 then failE (WrapPutError (path c0) ErrClosed) c0
      else bindE (put_make_room data c0) (put_append data))"

text \<open>
  A reader hands out its bytes and then either ends or fails.  \<open>io.CopyN\<close> copies at most \<open>sz\<close>
  bytes, and reports end-of-file or the reader's error when there were fewer.
\<close>

record reader =
  avail :: bytes
  readErr :: "go_err option"

definition CopyN :: "string \<Rightarrow> reader \<Rightarrow> nat \<Rightarrow> diskcache \<Rightarrow> (nat \<times> go_err option) \<times> diskcache" where
  "CopyN f r sz c0 =
     (let chunk = take sz (avail r) in
      case fst (pop_fault c0) of
        Some k \<Rightarrow> ((min k (length chunk), Some (SysErr EIO)), snd (fd_append f chunk c0))
      | None \<Rightarrow>
          ((length chunk,
            if length chunk = sz then None
            else (case readErr r of None \<Rightarrow> Some (SysErr EEOF) | Some e \<Rightarrow> Some e)),
           snd (fd_append f chunk c0)))"

text \<open>
  The deferred seek back to the start offset, which records its own failure in \<open>LastErr\<close>.  The
  offset is one the descriptor had, so it is never negative, and because the file was opened for
  appending it moves no later write: only whether the call succeeds matters.
\<close>

definition stream_fallback :: "nat \<Rightarrow> go_err option \<Rightarrow> diskcache \<Rightarrow> diskcache" where
  "stream_fallback ntotal err c =
     (if ntotal > 0 \<and> err \<noteq> None
      then case wfd c of
             None \<Rightarrow> c\<lparr>LastErr := Some (WrapFileOperationError OpSeek (path c) (writeFileName c) ErrOsInvalid)\<rparr>
           | Some f \<Rightarrow>
               (case fd_call c of
                  (None, c1) \<Rightarrow> c1
                | (Some e, c1) \<Rightarrow>
                    c1\<lparr>LastErr := Some (WrapFileOperationError OpSeek (path c1) (writeFileName c1) (SysErr e))\<rparr>)
      else c)"

definition stream_write :: "reader \<Rightarrow> int \<Rightarrow> diskcache \<Rightarrow> dc_step" where
  "stream_write r sz c =
     bindE (wrapE (\<lambda>e. WrapFileOperationError OpSeek (path c) (writeFileName c) (SysErr e))
              (fd_call c)) (\<lambda>c.
     bindE (wrapE (\<lambda>e. WrapFileOperationError OpWrite (path c) (writeFileName c) (SysErr e))
              (fd_append (writeFileName c) (PutUint32 sz) c)) (\<lambda>c.
     case CopyN (writeFileName c) r (nat sz) c of
       ((ntotal, err), c) \<Rightarrow>
         (let res =
            (if err \<noteq> None \<and> \<not> errors_Is (the err) (SysErr EEOF)
             then failE (WithPath (path c) (NewCacheError OpStreamPut (the err))) c
             else let c = c\<lparr>curBatchSize := curBatchSize c + int (ntotal + dataHeaderLen)\<rparr> in
                  if curBatchSize c \<ge> batchSize c
                  then wrapE (\<lambda>e. WithPath (path c) (NewCacheError OpStreamPut e)) (rotate_file c)
                  else okE c)
          in (fst res, stream_fallback ntotal err (snd res)))))"

definition StreamPut :: "reader \<Rightarrow> int \<Rightarrow> diskcache \<Rightarrow> dc_step" where
  "StreamPut r sz c =
     (if closed c then failE (WithPath (path c) (NewCacheError OpStreamPut ErrClosed)) c
      else if sz \<le> 0
      then failE (WithPath (path c) (NewCacheError OpStreamPut ErrInvalidStreamSize)) c
      else if capacity c > 0 \<and> csize c + sz > capacity c
      then failE (WithPath (path c) (NewCacheError OpStreamPut ErrCacheFull)) c
      else if maxDataSize c > 0 \<and> sz > maxDataSize c
      then failE (WithPath (path c) (NewCacheError OpStreamPut ErrTooLargeData)) c
      else bindE (wrapE (\<lambda>e. WithPath (path c) (NewCacheError OpStreamPut e)) (ensureWriteFile c))
             (stream_write r sz))"

end
