(* ===== verification/Diskcache_Read.thy ===== *)
theory Diskcache_Read
  imports Diskcache_Write
begin

section \<open>Disk cache: the read side (get.go, rotate.go, switch.go)\<close>

text \<open>
  \<open>doGet\<close> reads the next record of the oldest batch and hands it to a callback.  At the end of a
  batch (or on a batch it cannot read) it removes the file and goes on with the next one; that
  \<open>goto retry\<close> is a loop with fuel here, and \<open>None\<close> means the fuel ran out.
\<close>

definition removeCurrentReadingFile :: "diskcache \<Rightarrow> dc_step" where
  "removeCurrentReadingFile c0 =
     bindE (if rfd c0 \<noteq> None
            then bindE (wrapE (\<lambda>e. WrapFileOperationError OpClose (path c0) (readFileName c0) (SysErr e))
                          (fd_call c0))
                   (\<lambda>c. okE (c\<lparr>rfd := None\<rparr>))
            else okE c0) (\<lambda>c.
     bindE (case os_stat (curReadfile c) c of
              (Inr (sz, isdir), c) \<Rightarrow>
                (let c = (if sz > int dataHeaderLen then c\<lparr>csize := csize c - sz\<rparr> else c) in
                 wrapE (\<lambda>e. WrapFileOperationError OpRemove (path c) (curReadfile c) (SysErr e))
                   (os_remove (curReadfile c) c))
            | (Inl e, c) \<Rightarrow> okE c) (\<lambda>c.
     let c = c\<lparr>curReadfile := []\<rparr> in
     okE (if length (dataFiles c) > 0 then c\<lparr>dataFiles := tl (dataFiles c)\<rparr> else c)))"

definition doSwitchNextFile :: "diskcache \<Rightarrow> dc_step" where
  "doSwitchNextFile c0 =
     bindE (if noPos c0 then okE c0
            else wrapE (\<lambda>e. WithPath (path c0) (NewCacheError OpSwitch e)) (on_pos pos_reset c0)) (\<lambda>c.
     if length (dataFiles c) = 0 then okE c
     else let c = c\<lparr>curReadfile := hd (dataFiles c)\<rparr> in
       bindE (wrapE (\<lambda>e. WrapFileOperationError OpOpen (path c) (curReadfile c) (SysErr e))
                (os_open_read (curReadfile c) c)) (\<lambda>c.
       let c = c\<lparr>rfd := Some (curReadfile c, 0)\<rparr> in
       case os_stat (curReadfile c) c of
         (Inl e, c) \<Rightarrow> failE (WrapFileOperationError OpStat (path c) (curReadfile c) (SysErr e)) c
       | (Inr (sz, isdir), c) \<Rightarrow>
           (let c = c\<lparr>curReadSize := sz\<rparr> in
            if noPos c then okE c
            else let c = c\<lparr>cpos := (cpos c)\<lparr>Name := Some (curReadfile c), Seek := 0\<rparr>\<rparr> in
                 wrapE (\<lambda>e. WithFile (curReadfile c) (WithPath (path c) (NewCacheError OpSwitch e)))
                   (on_pos doDumpFile c))))"

definition switchNextFile :: "diskcache \<Rightarrow> dc_step" where
  "switchNextFile c0 =
     bindE (if curReadfile c0 \<noteq> []
            then wrapE (\<lambda>e. WithFile (curReadfile c0) (WithPath (path c0) (NewCacheError OpSwitch e)))
                   (removeCurrentReadingFile c0)
            else okE c0)
       doSwitchNextFile"

definition skipBadFile :: "diskcache \<Rightarrow> dc_step" where
  "skipBadFile c0 =
     (case switchNextFile c0 of
        (None, c) \<Rightarrow> okE c
      | (Some e, c) \<Rightarrow>
          failE (WithFile (curReadfile c) (WithPath (path c) (NewCacheError OpGet e))) c)"

text \<open>
  What a call hands back: the error (\<open>None\<close> is nil), the data the callback was given, if it was
  called, and the new state.
\<close>

type_synonym get_result = "go_err option \<times> bytes option \<times> diskcache"

definition get_fail :: "go_err \<Rightarrow> diskcache \<Rightarrow> get_result" where
  "get_fail e c = (Some e, None, c)"

text \<open>
  Where the caller's buffer comes from: none (\<open>Get\<close>), a function asked when data is there
  (\<open>BufCallbackGet\<close>) or the caller (\<open>BufGet\<close>); only the length of the buffer matters.
\<close>

record get_args =
  bufLen :: "nat option"
  bfnLen :: "nat option"
  fnArg :: "(bytes \<Rightarrow> go_err option) option"

definition readbuf_len :: "get_args \<Rightarrow> nat \<Rightarrow> nat" where
  "readbuf_len a nbytes =
     (case bufLen a of
        Some n \<Rightarrow> n
      | None \<Rightarrow> (case bfnLen a of None \<Rightarrow> nbytes | Some n \<Rightarrow> n))"

text \<open>The read offset moves by a relative seek or by a read.\<close>

definition set_off :: "nat \<Rightarrow> diskcache \<Rightarrow> diskcache" where
  "set_off n c = (case rfd c of None \<Rightarrow> c | Some (f, off) \<Rightarrow> c\<lparr>rfd := Some (f, n)\<rparr>)"

definition get_updatePos :: "nat \<Rightarrow> go_err option \<Rightarrow> bytes option \<Rightarrow> diskcache \<Rightarrow> get_result" where
  "get_updatePos nbytes err delivered c =
     (if \<not> noPos c \<and> nbytes > 0
      then let c = c\<lparr>cpos := (cpos c)\<lparr>Seek := Seek (cpos c) + int (dataHeaderLen + nbytes)\<rparr>\<rparr> in
           (case on_pos (\<lambda>s. snd (dumpFile s)) c of
              (Some e, c) \<Rightarrow> (Some (WrapPosError (path c) e), delivered, c)
            | (None, c) \<Rightarrow> (err, delivered, c))
      else (err, delivered, c))"

text \<open>The part of \<open>doGet\<close> after the header of a record was read; \<open>off\<close> is the offset behind it.\<close>

definition get_record :: "get_args \<Rightarrow> string \<Rightarrow> nat \<Rightarrow> nat \<Rightarrow> diskcache \<Rightarrow> get_result" where
  "get_record a f off nbytes c =
     (if readbuf_len a nbytes < nbytes
      then case fd_call c of
             (Some e, c) \<Rightarrow> get_fail (WrapFileOperationError OpSeek (path c) (readFileName c) (SysErr e)) c
           | (None, c) \<Rightarrow>
               (let c = set_off (off + nbytes) c in
                get_fail (WrapGetError (path c) (readFileName c) ErrTooSmallReadBuf) c)
      else case fd_read f off nbytes c of
             (Inl e, c) \<Rightarrow> get_fail (WrapFileOperationError OpRead (path c) (readFileName c) (SysErr e)) c
           | (Inr d, c) \<Rightarrow>
               (let c = set_off (off + length d) c in
                if length d \<noteq> nbytes
                then get_fail (WrapGetError (path c) (readFileName c) ErrUnexpectedReadSize) c
                else case fnArg a of
                       None \<Rightarrow> get_updatePos nbytes None None c
                     | Some fn \<Rightarrow>
                         (case fn d of
                            None \<Rightarrow> get_updatePos nbytes None (Some d) c
                          | Some e \<Rightarrow>
                              (if noFallbackOnError c then get_updatePos nbytes (Some e) (Some d) c
                               else case fd_seek (int (off + nbytes) - int (dataHeaderLen + nbytes)) c of
                                      (Some se, c) \<Rightarrow>
                                        (Some (WrapFileOperationError OpSeek (path c) (readFileName c) (SysErr se)),
                                         Some d, c)
                                    | (None, c) \<Rightarrow>
                                        (Some e, Some d, set_off (off - dataHeaderLen) c)))))"

fun get_retry :: "nat \<Rightarrow> get_args \<Rightarrow> diskcache \<Rightarrow> get_result option" where
  "get_retry 0 a c = None"
| "get_retry (Suc fuel) a c =
     (case rfd c of
        None \<Rightarrow> Some (get_fail ErrNoData c)
      | Some (f, off) \<Rightarrow>
          (case fd_read f off dataHeaderLen c of
             (Inl e, c) \<Rightarrow>
               (case skipBadFile c of
                  (Some e, c) \<Rightarrow> Some (get_fail e c)
                | (None, c) \<Rightarrow> get_retry fuel a c)
           | (Inr h, c) \<Rightarrow>
               (let c = set_off (off + length h) c in
                if length h \<noteq> dataHeaderLen
                then (case skipBadFile c of
                        (Some e, c) \<Rightarrow> Some (get_fail e c)
                      | (None, c) \<Rightarrow> get_retry fuel a c)
                else if Uint32 h = EOFHint
                then (case switchNextFile c of
                        (Some e, c) \<Rightarrow> Some (get_fail (WrapGetError (path c) (readFileName c) e) c)
                      | (None, c) \<Rightarrow> get_retry fuel a c)
                else Some (get_record a f (off + dataHeaderLen) (nat (Uint32 h)) c))))"

text \<open>
  The write lock is only tried: \<open>wlockFree\<close> says whether the attempt succeeds, that is, whether no
  \<open>Put\<close> is under way.
\<close>

definition get_wakeup :: "bool \<Rightarrow> diskcache \<Rightarrow> dc_step" where
  "get_wakeup wlockFree c =
     (if wlockFree \<and> now c - wfdLastWrite c > wakeup c \<and> curBatchSize c > 0
      then wrapE (\<lambda>e. WithPath (path c) (NewCacheError OpGet e)) (rotate_file c)
      else okE c)"

definition doGet :: "bool \<Rightarrow> get_args \<Rightarrow> diskcache \<Rightarrow> get_result option" where
  "doGet wlockFree a c0 =
     (if closed c0 then Some (get_fail (WrapGetError (path c0) [] ErrClosed) c0)
      else case get_wakeup wlockFree c0 of
             (Some e, c) \<Rightarrow> Some (get_fail e c)
           | (None, c) \<Rightarrow>
               (case (if rfd c = None
                      then wrapE (WrapGetError (path c) []) (switchNextFile c) else okE c) of
                  (Some e, c) \<Rightarrow> Some (get_fail e c)
                | (None, c) \<Rightarrow> get_retry (length (dataFiles c) + 2) a c))"

definition Get :: "bool \<Rightarrow> (bytes \<Rightarrow> go_err option) option \<Rightarrow> diskcache \<Rightarrow> get_result option" where
  "Get wlockFree fn = doGet wlockFree \<lparr>bufLen = None, bfnLen = None, fnArg = fn\<rparr>"

definition BufCallbackGet ::
  "bool \<Rightarrow> nat option \<Rightarrow> (bytes \<Rightarrow> go_err option) option \<Rightarrow> diskcache \<Rightarrow> get_result option" where
  "BufCallbackGet wlockFree bfn fn = doGet wlockFree \<lparr>bufLen = None, bfnLen = bfn, fnArg = fn\<rparr>"

definition BufGet ::
  "bool \<Rightarrow> nat option \<Rightarrow> (bytes \<Rightarrow> go_err option) option \<Rightarrow> diskcache \<Rightarrow> get_result option" where
  "BufGet wlockFree buf fn = doGet wlockFree \<lparr>bufLen = buf, bfnLen = None, fnArg = fn\<rparr>"

end
