(* ===== verification/Diskcache_Open.thy ===== *)
theory Diskcache_Open
  imports Diskcache_Read
begin

section \<open>Disk cache: opening and closing (open.go, switch.go, flock.go, flock\_unix.go)\<close>

text \<open>
  \<open>Open\<close> builds the default instance, applies the options, locks the directory, opens the write
  file, lists the batches already there and goes on reading where \<open>.pos\<close> says the last reader
  stopped.  \<open>Close\<close> gives every descriptor and the lock back and makes the cache refuse every
  later call.  The permission bits are octal 750 (488), 755 (493) and 640 (416).
\<close>

subsection \<open>The directory lock\<close>

definition newFlock :: "string \<Rightarrow> string" where
  "newFlock p = Clean (Join p ''.lock'')"

definition tryLock :: "string \<Rightarrow> diskcache \<Rightarrow> dc_step" where
  "tryLock lf c =
     bindE (wrapE SysErr (os_open_append lf c)) (\<lambda>c.
     case sys_flock lf c of
       (None, c) \<Rightarrow> okE c
     | (Some e, c) \<Rightarrow>
         failE (if e = EWOULDBLOCK then ErrLocked else SysErr e) (snd (fd_call c)))"

text \<open>The lock is released by the unlock or, when that fails, by closing the file.\<close>

definition unlock :: "string \<Rightarrow> diskcache \<Rightarrow> go_err list \<times> diskcache" where
  "unlock lf c0 =
     (case sys_funlock lf c0 of
        (e1, c1) \<Rightarrow>
          (case sys_funlock lf c1 of
             (e2, c2) \<Rightarrow>
               ((case e1 of None \<Rightarrow> [] | Some e \<Rightarrow> [SysErr e]) @
                (case e2 of None \<Rightarrow> [] | Some e \<Rightarrow> [SysErr e]), c2)))"

subsection \<open>Open\<close>

definition defaultInstance :: "os \<Rightarrow> diskcache" where
  "defaultInstance w =
     \<lparr>files = files w, dirs = dirs w, flocks = flocks w, faults = faults w, now = now w,
      path = [], dataFiles = [], closed = False, closeErr = None, curWriteFile = [],
      curReadfile = [], wfd = None, rfd = None, wfdLastWrite = 0, wakeup = 3 * 10 ^ 9,
      cflock = None, cpos = zero_pos\<lparr>dumpInterval := 100 * 10 ^ 6, dumpCount := 100\<rparr>,
      csize = 0, curBatchSize = 0, curReadSize = 0, batchSize = 20 * 1024 * 1024, capacity = 0,
      maxDataSize = 0, dirPerms = 488, filePerms = 416, noSync = False,
      noFallbackOnError = False, noPos = False, filoDrop = False, noDrop = False, noLock = False,
      LastErr = None\<rparr>"

definition open_defaults :: "diskcache \<Rightarrow> diskcache" where
  "open_defaults c0 =
     (let c1 = (if dirPerms c0 = 0 then c0\<lparr>dirPerms := 493\<rparr> else c0);
          c2 = (if filePerms c1 = 0 then c1\<lparr>filePerms := 416\<rparr> else c1);
          c3 = (if batchSize c2 = 0 then c2\<lparr>batchSize := 20 * 1024 * 1024\<rparr> else c2)
      in if maxDataSize c3 > batchSize c3
         then c3\<lparr>maxDataSize := to_i32 (sgn (batchSize c3) * (\<bar>batchSize c3\<bar> div 2))\<rparr> else c3)"

definition open_lock :: "diskcache \<Rightarrow> dc_step" where
  "open_lock c =
     (if noLock c then okE c
      else let lf = newFlock (path c) in
           bindE (wrapE (WrapLockError (path c)) (tryLock lf c)) (\<lambda>c. okE (c\<lparr>cflock := Some lf\<rparr>)))"

definition is_datafile :: "string \<Rightarrow> bool" where
  "is_datafile f \<longleftrightarrow> Base f \<noteq> ''.lock'' \<and> Base f \<noteq> ''.pos'' \<and> Base f \<noteq> ''data''"

definition open_walk :: "diskcache \<Rightarrow> dc_step" where
  "open_walk c0 =
     (case fd_call c0 of
        (Some e, c) \<Rightarrow> failE (WithFile (path c) (WithPath (path c) (NewCacheError OpOpen (SysErr e)))) c
      | (None, c) \<Rightarrow>
          (let found = filter is_datafile (walk_files (path c) c) in
           okE (c\<lparr>csize := csize c + (\<Sum>f \<leftarrow> found. int (length (the (fget f c)))),
                  dataFiles := sort (dataFiles c @ found)\<rparr>)))"

definition loadUnfinishedFile :: "diskcache \<Rightarrow> dc_step" where
  "loadUnfinishedFile c0 =
     (case os_stat (posfname (cpos c0)) c0 of
        (Inl e, c) \<Rightarrow> okE c
      | (Inr si, c) \<Rightarrow>
          (case posFromFile (posfname (cpos c)) c of
             (Inl e, c) \<Rightarrow>
               failE (WithFile (posfname (cpos c)) (WithPath (path c) (NewCacheError OpPos e))) c
           | (Inr None, c) \<Rightarrow> okE c
           | (Inr (Some p), c) \<Rightarrow>
               (let nm = (case Name p of None \<Rightarrow> [] | Some n \<Rightarrow> n) in
                case os_stat nm c of
                  (Inl e, c) \<Rightarrow>
                    wrapE (\<lambda>e. WithFile (posfname (cpos c)) (WithPath (path c) (NewCacheError OpPos e)))
                      (on_pos pos_reset c)
                | (Inr si, c) \<Rightarrow>
                    (if Seek p \<le> 0 \<and> Name p = None then okE c
                     else bindE (wrapE (\<lambda>e. WrapFileOperationError OpOpen (path c) nm (SysErr e))
                                   (os_open_read nm c)) (\<lambda>c.
                          bindE (wrapE (\<lambda>e. WrapFileOperationError OpSeek (path c) nm (SysErr e))
                                   (fd_seek (Seek p) c)) (\<lambda>c.
                          okE (c\<lparr>rfd := Some (nm, nat (Seek p)), curReadfile := nm,
                                 cpos := (cpos c)\<lparr>Name := Name p, Seek := Seek p\<rparr>\<rparr>)))))))"

definition doOpen ::
  "(string \<Rightarrow> int option) \<Rightarrow> (string \<Rightarrow> string option) \<Rightarrow> diskcache \<Rightarrow> dc_step" where
  "doOpen parseDuration env c0 =
     (let c = open_defaults c0 in
      bindE (wrapE (\<lambda>e. WithPath (path c) (NewCacheError OpCreate (SysErr e)))
               (os_mkdir_all (path c) c)) (\<lambda>c.
      bindE (open_lock c) (\<lambda>c.
      let c = (if noPos c then c else c\<lparr>cpos := (cpos c)\<lparr>posfname := Join (path c) ''.pos''\<rparr>\<rparr>);
          c = c\<lparr>curWriteFile := Join (path c) ''data''\<rparr>;
          c = syncEnv parseDuration env c
      in
      bindE (wrapE (\<lambda>e. WithFile (curWriteFile c) (WithPath (path c) (NewCacheError OpOpen e)))
               (openWriteFile c)) (\<lambda>c.
      bindE (open_walk c) (\<lambda>c.
      if noPos c then okE c
      else wrapE (\<lambda>e. WithPath (path c) (NewCacheError OpOpen e)) (loadUnfinishedFile c))))))"

definition Open ::
  "(string \<Rightarrow> int option) \<Rightarrow> (string \<Rightarrow> string option) \<Rightarrow> CacheOption list \<Rightarrow> os \<Rightarrow> dc_step" where
  "Open parseDuration env opts w =
     (let c = fold (\<lambda>x c. x c) opts (defaultInstance w)
      in wrapE (WrapOpenError (path c)) (doOpen parseDuration env c))"

subsection \<open>Close\<close>

definition close_errs :: "go_err list \<Rightarrow> go_err option" where
  "close_errs es = (if es = [] then None else Some (JoinErr es))"

definition close_fd :: "diskcache \<Rightarrow> go_err list \<times> diskcache" where
  "close_fd c = (case fd_call c of (None, c1) \<Rightarrow> ([], c1)
                 | (Some e, c1) \<Rightarrow> ([WrapCloseError (path c1) (SysErr e)], c1))"

definition Close :: "diskcache \<Rightarrow> dc_step" where
  "Close c =
     (if closed c then (closeErr c, c)
      else
        let c = c\<lparr>closed := True\<rparr>;
            (e1, c) = (if rfd c \<noteq> None then close_fd (c\<lparr>rfd := None\<rparr>) else ([], c));
            (e2, c) = (if wfd c \<noteq> None then close_fd (c\<lparr>wfd := None\<rparr>) else ([], c));
            (e3, c) = (case on_pos pos_close c of
                         (None, c) \<Rightarrow> ([], c)
                       | (Some e, c) \<Rightarrow> ([WrapPosError (path c) e], c));
            (e4, c) = (case (noLock c, cflock c) of
                         (False, Some lf) \<Rightarrow>
                           (case unlock lf (c\<lparr>cflock := None\<rparr>) of
                              ([], c) \<Rightarrow> ([], c)
                            | (es, c) \<Rightarrow> ([WithPath (path c) (NewCacheError OpUnlock (JoinErr es))], c))
                       | _ \<Rightarrow> ([], c));
            err = close_errs (e1 @ e2 @ e3 @ e4)
        in (err, c\<lparr>closeErr := err\<rparr>))"

end
