(* ===== verification/Diskcache_Inv.thy ===== *)
theory Diskcache_Inv
  imports Diskcache_Open
begin

section \<open>Disk cache: the format of a batch and the order of batch names\<close>

text \<open>
  The format shared by the write and the read side, stated once: a record is framed by its length,
  a rotated batch is the frames of its records and an end mark, and the write file is the frames
  alone.  \<open>unframe\<close> is the reference decoder.  The second part shows that sorting the numbered names
  as strings sorts them by number, which is what makes the list of batches a queue.
\<close>

subsection \<open>Frames\<close>

definition frame :: "bytes \<Rightarrow> bytes" where
  "frame d = PutUint32 (int (length d)) @ d"

definition eof_mark :: bytes where
  "eof_mark = PutUint32 EOFHint"

definition frames :: "bytes list \<Rightarrow> bytes" where
  "frames rs = concat (map frame rs)"

definition rec_ok :: "bytes \<Rightarrow> bool" where
  "rec_ok d \<longleftrightarrow> int (length d) < EOFHint"

function unframe :: "bytes \<Rightarrow> bytes list" where
  "unframe bs =
     (if length bs < dataHeaderLen \<or> Uint32 bs = EOFHint then []
      else let n = nat (Uint32 bs); rest = drop dataHeaderLen bs in
           if length rest < n then [] else take n rest # unframe (drop n rest))"
  by pat_completeness auto
termination
  by (relation "measure length") (auto simp: dataHeaderLen_def)

declare unframe.simps [simp del]

lemma frames_simps [simp]:
  "frames [] = []" "frames (r # rs) = frame r @ frames rs" "frames (rs @ ss) = frames rs @ frames ss"
  by (simp_all add: frames_def)

lemma length_frame [simp]: "length (frame d) = length d + 4"
  by (simp add: frame_def)

lemma length_eof_mark [simp]: "length eof_mark = 4"
  by (simp add: eof_mark_def)

lemma Uint32_frame: "rec_ok d \<Longrightarrow> Uint32 (frame d @ t) = int (length d)"
  by (simp add: frame_def rec_ok_def EOFHint_def Uint32_PutUint32)

lemma Uint32_eof_mark: "Uint32 (eof_mark @ t) = EOFHint"
  by (simp add: eof_mark_def EOFHint_def Uint32_PutUint32)

lemma drop_frame [simp]: "drop 4 (frame d) = d" "drop 4 (frame d @ t) = d @ t"
  by (simp_all add: frame_def)

lemma unframe_frame: "rec_ok d \<Longrightarrow> unframe (frame d @ t) = d # unframe t"
  by (subst unframe.simps) (simp add: Uint32_frame dataHeaderLen_def, simp add: rec_ok_def)

lemma unframe_frames: "list_all rec_ok rs \<Longrightarrow> unframe (frames rs @ t) = rs @ unframe t"
  by (induction rs) (simp_all add: unframe_frame)

lemma unframe_eof: "unframe (eof_mark @ t) = []"
  by (subst unframe.simps) (simp add: Uint32_eof_mark)

lemma unframe_Nil [simp]: "unframe [] = []"
  by (subst unframe.simps) (simp add: dataHeaderLen_def)

text \<open>A file in the shape the cache writes.\<close>

definition is_open_batch :: "bytes \<Rightarrow> bool" where
  "is_open_batch bs \<longleftrightarrow> bs = frames (unframe bs) \<and> list_all rec_ok (unframe bs)"

definition is_batch :: "bytes \<Rightarrow> bool" where
  "is_batch bs \<longleftrightarrow> bs = frames (unframe bs) @ eof_mark \<and> list_all rec_ok (unframe bs)"

lemma is_batch_frames: "list_all rec_ok rs \<Longrightarrow> is_batch (frames rs @ eof_mark)"
  using unframe_eof[of "[]"] by (simp add: is_batch_def unframe_frames)

lemma is_open_batch_frames: "list_all rec_ok rs \<Longrightarrow> is_open_batch (frames rs)"
  using unframe_frames[of rs "[]"] by (simp add: is_open_batch_def)

lemma unframe_batch: "list_all rec_ok rs \<Longrightarrow> unframe (frames rs @ eof_mark) = rs"
  using unframe_eof[of "[]"] by (simp add: unframe_frames)

lemma unframe_open: "list_all rec_ok rs \<Longrightarrow> unframe (frames rs) = rs"
  using unframe_frames[of rs "[]"] by simp

lemma is_batchE:
  assumes "is_batch bs"
  obtains rs where "list_all rec_ok rs" "bs = frames rs @ eof_mark" "unframe bs = rs"
  using assms by (auto simp: is_batch_def)

lemma is_open_batchE:
  assumes "is_open_batch bs"
  obtains rs where "list_all rec_ok rs" "bs = frames rs" "unframe bs = rs"
  using assms by (auto simp: is_open_batch_def)

lemma is_open_batch_put: "is_open_batch bs \<Longrightarrow> rec_ok d \<Longrightarrow> is_open_batch (bs @ frame d)"
  by (elim is_open_batchE) (use is_open_batch_frames[of "_ @ [d]"] in simp)

lemma unframe_put: "is_open_batch bs \<Longrightarrow> rec_ok d \<Longrightarrow> unframe (bs @ frame d) = unframe bs @ [d]"
  by (elim is_open_batchE) (use unframe_open[of "_ @ [d]"] in simp)

lemma is_open_batch_close: "is_open_batch bs \<Longrightarrow> is_batch (bs @ eof_mark)"
  by (elim is_open_batchE) (simp add: is_batch_frames)

lemma unframe_close: "is_open_batch bs \<Longrightarrow> unframe (bs @ eof_mark) = unframe bs"
  by (elim is_open_batchE) (simp add: unframe_batch unframe_open)

text \<open>The two ways a batch can go on at a read offset: the end mark, or one more record.\<close>

lemma is_batch_cases:
  assumes "is_batch bs"
  obtains (ended) "unframe bs = []" "bs = eof_mark"
  | (more) d t where "bs = frame d @ t" "rec_ok d" "is_batch t" "unframe bs = d # unframe t"
proof -
  from assms obtain rs where rs: "list_all rec_ok rs" "bs = frames rs @ eof_mark" "unframe bs = rs"
    by (rule is_batchE)
  show thesis
  proof (cases rs)
    case Nil
    with rs show ?thesis by (intro ended) auto
  next
    case (Cons d ds)
    with rs show ?thesis
      by (intro more[of d "frames ds @ eof_mark"]) (auto simp: is_batch_frames unframe_batch)
  qed
qed

subsection \<open>Names\<close>

lemma digit_order:
  "is_digit a \<Longrightarrow> is_digit b \<Longrightarrow> a < b \<longleftrightarrow> digit_val a < digit_val b"
  by (auto simp: is_digit_def digit_val_def less_char_def)

lemma digit_val_inj: "is_digit a \<Longrightarrow> is_digit b \<Longrightarrow> digit_val a = digit_val b \<Longrightarrow> a = b"
  by (metis digit_order linorder_neqE order_less_irrefl)

lemma digit_val_less: "is_digit a \<Longrightarrow> digit_val a < 10"
  by (auto simp: is_digit_def digit_val_def)

lemma dec_val_Cons: "dec_val (c # s) = digit_val c * 10 ^ length s + dec_val s"
proof (induction s rule: rev_induct)
  case Nil
  show ?case by (simp add: dec_val_def)
next
  case (snoc x s)
  have "dec_val (c # s @ [x]) = 10 * dec_val (c # s) + digit_val x"
    using dec_val_append[of "c # s" x] by simp
  with snoc show ?case by (simp add: dec_val_append algebra_simps)
qed

lemma dec_val_bound: "list_all is_digit s \<Longrightarrow> dec_val s < 10 ^ length s"
proof (induction s)
  case Nil
  show ?case by (simp add: dec_val_def)
next
  case (Cons c s)
  then have "digit_val c \<le> 9" "dec_val s < 10 ^ length s" using digit_val_less[of c] by auto
  then have "digit_val c * 10 ^ length s + dec_val s < 10 * 10 ^ length s"
    using mult_le_mono1[of "digit_val c" 9 "10 ^ length s"] by linarith
  then show ?case by (simp add: dec_val_Cons)
qed

lemma digits_order:
  assumes "length s = length t" "list_all is_digit s" "list_all is_digit t"
  shows "s < t \<longleftrightarrow> dec_val s < dec_val t"
  using assms
proof (induction s t rule: list_induct2)
  case Nil
  show ?case by simp
next
  case (Cons x s y t)
  have b: "dec_val s < 10 ^ length t" "dec_val t < 10 ^ length t"
    using Cons dec_val_bound[of s] dec_val_bound[of t] by auto
  have lt: "digit_val u < digit_val v \<Longrightarrow> a < X \<Longrightarrow> digit_val u * X + a < digit_val v * X + b"
    for u v :: char and a b X :: nat
    using mult_le_mono1[of "Suc (digit_val u)" "digit_val v" X] by simp
  consider "digit_val x < digit_val y" | "x = y" | "digit_val y < digit_val x"
    using Cons.prems digit_val_inj[of x y] by fastforce
  then show ?case
  proof cases
    case 1
    then show ?thesis using Cons lt[OF 1, of "dec_val s" "10 ^ length t"] b
      by (simp add: dec_val_Cons digit_order)
  next
    case 2
    then show ?thesis using Cons by (simp add: dec_val_Cons)
  next
    case 3
    then have "\<not> digit_val x * 10 ^ length t + dec_val s < digit_val y * 10 ^ length t + dec_val t"
      using lt[OF 3 b(2), of "dec_val s"] by linarith
    moreover have "\<not> x < y" "x \<noteq> y" using 3 Cons.prems by (auto simp: digit_order)
    ultimately show ?thesis using Cons.hyps by (simp add: dec_val_Cons)
  qed
qed

definition id_ok :: "int \<Rightarrow> bool" where
  "id_ok x \<longleftrightarrow> 0 \<le> x \<and> x < 2 ^ 63"

definition file_id :: "string \<Rightarrow> int" where
  "file_id f = the (ParseInt 64 (split_on (CHR ''.'') (Base f) ! 1))"

definition batch_name :: "string \<Rightarrow> int \<Rightarrow> string" where
  "batch_name p x = Join p (datafile_name x)"

lemma fmt_0d_id:
  assumes "id_ok x"
  shows "fmt_0d 32 x = zero_pad 32 (dec_digits (nat x))" "length (fmt_0d 32 x) = 32"
    "list_all is_digit (fmt_0d 32 x)" "dec_val (fmt_0d 32 x) = nat x"
proof -
  have "nat x < 10 ^ 32" using assms by (simp add: id_ok_def nat_less_iff)
  then have "length (dec_digits (nat x)) \<le> 32" by (intro length_dec_digits_le) auto
  with assms show "fmt_0d 32 x = zero_pad 32 (dec_digits (nat x))" "length (fmt_0d 32 x) = 32"
    "list_all is_digit (fmt_0d 32 x)" "dec_val (fmt_0d 32 x) = nat x"
    by (auto simp: id_ok_def fmt_0d_def zero_pad_digits)
qed

lemma not_digit_chars: "is_digit c \<Longrightarrow> c \<noteq> CHR ''.'' \<and> c \<noteq> CHR ''/'' \<and> c \<noteq> CHR ''-'' \<and> c \<noteq> CHR ''+''"
  by (auto simp: is_digit_def)

lemma fmt_0d_chars:
  "id_ok x \<Longrightarrow> CHR ''.'' \<notin> set (fmt_0d 32 x) \<and> CHR ''/'' \<notin> set (fmt_0d 32 x)"
  using fmt_0d_id(3)[of x] not_digit_chars by (auto simp: list_all_iff)

lemma plain_datafile_name: "id_ok x \<Longrightarrow> plain_name (datafile_name x)"
  using fmt_0d_chars by (simp add: plain_name_def datafile_name_def)

lemma plain_names [simp]: "plain_name ''data''" "plain_name ''.pos''" "plain_name ''.lock''"
  by (simp_all add: plain_name_def)

lemma ParseInt_fmt: "id_ok x \<Longrightarrow> ParseInt 64 (fmt_0d 32 x) = Some x"
proof -
  assume x: "id_ok x"
  then obtain c s where cs: "fmt_0d 32 x = c # s" "is_digit c"
    using fmt_0d_id(2,3)[OF x] by (cases "fmt_0d 32 x") auto
  with x fmt_0d_id(3,4)[OF x] not_digit_chars[OF cs(2)] show ?thesis
    by (auto simp: ParseInt_def parse_uint_def in_range_def id_ok_def)
qed

lemma Base_batch_name: "id_ok x \<Longrightarrow> Base (batch_name p x) = datafile_name x"
  by (simp add: batch_name_def Base_Join_plain plain_datafile_name)

lemma split_datafile_name: "id_ok x \<Longrightarrow> split_on (CHR ''.'') (datafile_name x) = [''data'', fmt_0d 32 x]"
  using fmt_0d_chars[of x] split_on_sep[of "CHR ''.''" "''data''" "fmt_0d 32 x"]
  by (simp add: datafile_name_def split_on_plain)

lemma file_id_batch_name: "id_ok x \<Longrightarrow> file_id (batch_name p x) = x"
  by (simp add: file_id_def Base_batch_name split_datafile_name ParseInt_fmt)

lemma list_less_append: "(xs @ ys < xs @ zs) \<longleftrightarrow> (ys < (zs :: string))"
  by (induction xs) auto

lemma batch_name_order:
  assumes "id_ok x" "id_ok y"
  shows "batch_name p x < batch_name p y \<longleftrightarrow> x < y"
proof -
  have "fmt_0d 32 x < fmt_0d 32 y \<longleftrightarrow> nat x < nat y"
    using digits_order[of "fmt_0d 32 x" "fmt_0d 32 y"] fmt_0d_id[OF assms(1)] fmt_0d_id[OF assms(2)]
    by simp
  then have "datafile_name x < datafile_name y \<longleftrightarrow> x < y"
    using assms by (auto simp: datafile_name_def id_ok_def)
  then show ?thesis
    using assms by (simp add: batch_name_def Join_plain plain_datafile_name list_less_append)
qed

lemma batch_name_inject: "id_ok x \<Longrightarrow> id_ok y \<Longrightarrow> batch_name p x = batch_name p y \<longleftrightarrow> x = y"
  by (metis file_id_batch_name)

lemma batch_name_neq:
  "id_ok x \<Longrightarrow> batch_name p x \<noteq> Join p ''data''" "id_ok x \<Longrightarrow> batch_name p x \<noteq> Join p ''.pos''"
  using Join_plain_inject[OF plain_datafile_name, of x "''data''" p]
    Join_plain_inject[OF plain_datafile_name, of x "''.pos''" p]
  by (simp_all add: batch_name_def datafile_name_def)

lemma data_neq_pos: "Join p ''data'' \<noteq> Join p ''.pos''"
  by (simp add: Join_plain_inject)

section \<open>Disk cache: the queue a state stands for, and its invariant\<close>

text \<open>
  \<open>pending\<close> is what the reader can still get (the rest of the batch being read, then the other
  batches, oldest first), \<open>writing\<close> what is in the write file, and \<open>queue\<close> both.  \<open>dc_inv\<close> is the
  invariant of an open cache in a world without faults.  The lemmas say what each internal step
  does to a state that satisfies it, with every field of the new state written out.
\<close>

definition content :: "string \<Rightarrow> 'a os_scheme \<Rightarrow> bytes" where
  "content f c = (case fget f c of None \<Rightarrow> [] | Some bs \<Rightarrow> bs)"

definition batch :: "'a os_scheme \<Rightarrow> string \<Rightarrow> bytes list" where
  "batch c f = unframe (content f c)"

definition pending :: "diskcache \<Rightarrow> bytes list" where
  "pending c =
     (case rfd c of
        None \<Rightarrow> concat (map (batch c) (dataFiles c))
      | Some (f, off) \<Rightarrow>
          unframe (drop off (content f c)) @ concat (map (batch c) (tl (dataFiles c))))"

definition writing :: "diskcache \<Rightarrow> bytes list" where
  "writing c = batch c (curWriteFile c)"

definition queue :: "diskcache \<Rightarrow> bytes list" where
  "queue c = pending c @ writing c"

definition names_inv :: "diskcache \<Rightarrow> bool" where
  "names_inv c \<longleftrightarrow> sorted_wrt (<) (dataFiles c) \<and>
     (\<forall>f \<in> set (dataFiles c). id_ok (file_id f) \<and> f = batch_name (path c) (file_id f))"

definition files_inv :: "diskcache \<Rightarrow> bool" where
  "files_inv c \<longleftrightarrow> (\<forall>f \<in> set (dataFiles c). fget f c \<noteq> None \<and> is_batch (content f c))"

definition write_inv :: "diskcache \<Rightarrow> bool" where
  "write_inv c \<longleftrightarrow> Join (path c) ''data'' = curWriteFile c \<and> wfd c = Some (curWriteFile c) \<and>
     fget (curWriteFile c) c \<noteq> None \<and> is_open_batch (content (curWriteFile c) c) \<and>
     curBatchSize c = int (length (content (curWriteFile c) c))"

definition read_inv :: "diskcache \<Rightarrow> bool" where
  "read_inv c \<longleftrightarrow>
     (case rfd c of
        None \<Rightarrow> curReadfile c = []
      | Some (f, off) \<Rightarrow> curReadfile c = f \<and> dataFiles c \<noteq> [] \<and> hd (dataFiles c) = f \<and>
                          is_batch (drop off (content f c)))"

definition sys_inv :: "diskcache \<Rightarrow> bool" where
  "sys_inv c \<longleftrightarrow> faults c = [] \<and> (\<forall>d \<in> set (dirs c). \<forall>n. plain_name n \<longrightarrow> d \<noteq> Join (path c) n)"

definition pos_inv :: "diskcache \<Rightarrow> bool" where
  "pos_inv c \<longleftrightarrow> noPos c \<or>
     Join (path c) ''.pos'' = posfname (cpos c) \<and>
     (posfd (cpos c) \<longrightarrow> fget (posfname (cpos c)) c \<noteq> None)"

definition dc_inv :: "diskcache \<Rightarrow> bool" where
  "dc_inv c \<longleftrightarrow> \<not> closed c \<and> sys_inv c \<and> names_inv c \<and> files_inv c \<and> write_inv c \<and> read_inv c \<and> pos_inv c"

lemmas dc_inv_defs =
  dc_inv_def sys_inv_def names_inv_def files_inv_def write_inv_def read_inv_def pos_inv_def

definition next_id :: "diskcache \<Rightarrow> int" where
  "next_id c = (if dataFiles c = [] then 0 else file_id (last (dataFiles c)) + 1)"

definition next_batch :: "diskcache \<Rightarrow> string" where
  "next_batch c = batch_name (path c) (next_id c)"

subsection \<open>Facts about invariant states\<close>

lemma content_Some: "fget f c = Some bs \<Longrightarrow> content f c = bs"
  by (simp add: content_def)

lemma content_cong: "fget f c = fget f c' \<Longrightarrow> content f c = content f c'"
  by (simp add: content_def)

lemma batch_cong: "fget f c = fget f c' \<Longrightarrow> batch c f = batch c' f"
  by (simp add: batch_def content_def)

lemma fget_content: "fget f c \<noteq> None \<Longrightarrow> fget f c = Some (content f c)"
  by (auto simp: content_def)

lemma batch_name_nonempty [simp]: "id_ok x \<Longrightarrow> batch_name p x \<noteq> []"
  by (simp add: batch_name_def Join_plain plain_datafile_name) (simp add: datafile_name_def)

lemma inv_no_dir:
  "sys_inv c \<Longrightarrow> Join (path c) ''data'' \<notin> set (dirs c)"
  "sys_inv c \<Longrightarrow> Join (path c) ''.pos'' \<notin> set (dirs c)"
  "sys_inv c \<Longrightarrow> id_ok x \<Longrightarrow> batch_name (path c) x \<notin> set (dirs c)"
  unfolding sys_inv_def batch_name_def using plain_names plain_datafile_name by blast+

lemma dataFiles_facts:
  assumes "dc_inv c" "f \<in> set (dataFiles c)"
  shows "f \<noteq> curWriteFile c" "f \<noteq> []" "f \<notin> set (dirs c)" "fget f c \<noteq> None" "is_batch (content f c)"
    "\<not> noPos c \<Longrightarrow> f \<noteq> posfname (cpos c)"
proof -
  from assms have f: "id_ok (file_id f)" "f = batch_name (path c) (file_id f)"
    by (auto simp: dc_inv_defs)
  from f assms(1) batch_name_neq[OF f(1), of "path c"] inv_no_dir(3)[of c, OF _ f(1)]
  show "f \<noteq> curWriteFile c" "f \<noteq> []" "f \<notin> set (dirs c)" "\<not> noPos c \<Longrightarrow> f \<noteq> posfname (cpos c)"
    by (metis dc_inv_def write_inv_def, metis batch_name_nonempty, metis dc_inv_def,
        metis dc_inv_def pos_inv_def)
  from assms show "fget f c \<noteq> None" "is_batch (content f c)" by (auto simp: dc_inv_defs)
qed

lemma write_pos_neq: "dc_inv c \<Longrightarrow> \<not> noPos c \<Longrightarrow> curWriteFile c \<noteq> posfname (cpos c)"
  using data_neq_pos[of "path c"] by (auto simp: dc_inv_defs)

lemma last_lt_next:
  assumes "names_inv c" "id_ok (next_id c)" "f \<in> set (dataFiles c)"
  shows "f < next_batch c"
proof -
  from assms(3) have ne: "dataFiles c \<noteq> []" by auto
  then have lst: "last (dataFiles c) \<in> set (dataFiles c)" by simp
  have "file_id (last (dataFiles c)) < next_id c" using ne by (simp add: next_id_def)
  with assms lst have l: "last (dataFiles c) < next_batch c"
    using batch_name_order[of "file_id (last (dataFiles c))" "next_id c" "path c"]
    by (metis names_inv_def next_batch_def)
  have "f \<le> last (dataFiles c)"
    using assms(1,3) ne by (cases "dataFiles c" rule: rev_cases) (auto simp: names_inv_def sorted_wrt_append)
  with l show ?thesis by simp
qed

lemma sort_next:
  assumes "names_inv c" "id_ok (next_id c)"
  shows "sort (dataFiles c @ [next_batch c]) = dataFiles c @ [next_batch c]"
    "sorted_wrt (<) (dataFiles c @ [next_batch c])"
proof -
  show s: "sorted_wrt (<) (dataFiles c @ [next_batch c])"
    using assms last_lt_next[OF assms] by (auto simp: names_inv_def sorted_wrt_append)
  show "sort (dataFiles c @ [next_batch c]) = dataFiles c @ [next_batch c]"
    using strict_sorted_imp_sorted[OF s] by (rule sorted_sort_id)
qed

lemma next_datafile_cong:
  "path c = path c' \<Longrightarrow> dataFiles c = dataFiles c' \<Longrightarrow> next_datafile c = next_datafile c'"
  by (simp add: next_datafile_def Let_def split: option.split)

lemma next_datafile_ok:
  assumes "names_inv c" "id_ok (next_id c)"
  shows "next_datafile c = Inr (next_batch c)"
proof (cases "dataFiles c = []")
  case True
  then show ?thesis by (simp add: next_datafile_def next_batch_def next_id_def batch_name_def)
next
  case False
  then have lst: "id_ok (file_id (last (dataFiles c)))"
    "last (dataFiles c) = batch_name (path c) (file_id (last (dataFiles c)))"
    using assms(1) last_in_set by (auto simp: names_inv_def)
  have arr: "split_on (CHR ''.'') (Base (last (dataFiles c)))
             = [''data'', fmt_0d 32 (file_id (last (dataFiles c)))]"
    by (subst lst(2)) (simp add: Base_batch_name split_datafile_name lst(1))
  have "to_i64 (file_id (last (dataFiles c)) + 1) = next_id c"
    using assms(2) False by (simp add: next_id_def id_ok_def to_i64_id)
  with False show ?thesis
    by (simp add: next_datafile_def arr ParseInt_fmt lst(1) next_batch_def batch_name_def Let_def)
qed

end
