(* ===== verification/Diskcache_Steps.thy ===== *)
theory Diskcache_Steps
  imports Diskcache_Inv
begin

section \<open>Disk cache: what the internal steps do in a world without faults\<close>

subsection \<open>Write side\<close>

lemma openWriteFile_ok:
  assumes "faults c = []" "curWriteFile c \<notin> set (dirs c)"
  shows "\<exists>fs. openWriteFile c =
           (None, c\<lparr>files := fs, curBatchSize := int (length (content (curWriteFile c) c)),
                    wfdLastWrite := now c, wfd := Some (curWriteFile c)\<rparr>) \<and>
         map_of fs = (map_of (files c))(curWriteFile c \<mapsto> content (curWriteFile c) c)"
proof (cases "fget (curWriteFile c) c")
  case None
  with assms show ?thesis
    by (intro exI[of _ "AList.update (curWriteFile c) [] (files c)"])
      (simp add: openWriteFile_def os_defs content_def)
next
  case (Some bs)
  with assms show ?thesis
    by (intro exI[of _ "files c"]) (simp add: openWriteFile_def os_defs fun_upd_idem content_Some)
qed

lemma ensureWriteFile_ok: "\<not> closed c \<Longrightarrow> wfd c = Some f \<Longrightarrow> ensureWriteFile c = (None, c)"
  by (simp add: ensureWriteFile_def)

text \<open>
  What rotation leaves: the write file, closed with the end mark, under the next batch name, and an
  empty write file.
\<close>

definition rotated_files :: "diskcache \<Rightarrow> string \<rightharpoonup> bytes" where
  "rotated_files c =
     (map_of (files c))(next_batch c \<mapsto> content (curWriteFile c) c @ eof_mark, curWriteFile c \<mapsto> [])"

definition batch_weight :: "nat \<Rightarrow> int" where
  "batch_weight n = (if n > dataHeaderLen then int n else 0)"

definition after_rotate :: "(string \<times> bytes) list \<Rightarrow> diskcache \<Rightarrow> diskcache" where
  "after_rotate fs c =
     c\<lparr>files := fs, csize := csize c + batch_weight (length (content (curWriteFile c) c) + 4),
       dataFiles := dataFiles c @ [next_batch c], curBatchSize := 0, wfdLastWrite := now c\<rparr>"

lemma rotate_ok:
  assumes inv: "dc_inv c" and nid: "id_ok (next_id c)"
  shows "\<exists>fs. rotate_file c = (None, after_rotate fs c) \<and> map_of fs = rotated_files c"
proof -
  let ?d = "curWriteFile c" and ?n = "next_batch c"
  let ?bs = "content ?d c"
  define c1 where "c1 = fput ?d (?bs @ eof_mark) c"
  define c2 where "c2 = c1\<lparr>wfd := None, files := AList.update ?n (?bs @ eof_mark) (AList.delete ?d (files c1))\<rparr>"
  define c3 where "c3 = c2\<lparr>csize := csize c + batch_weight (length ?bs + 4), dataFiles := dataFiles c @ [?n]\<rparr>"
  have flt: "faults c = []" and ncl: "\<not> closed c" and nm: "names_inv c" and sys: "sys_inv c"
    and w: "?d = Join (path c) ''data''" "wfd c = Some ?d" "fget ?d c = Some ?bs"
    using inv fget_content[where f = ?d and c = c] by (auto simp: dc_inv_defs)
  have dirs: "?d \<notin> set (dirs c)" "?n \<notin> set (dirs c)"
    using inv_no_dir[OF sys] nid w(1) by (auto simp: next_batch_def)
  have nd: "?n \<noteq> ?d" using batch_name_neq(1)[OF nid, of "path c"] w(1) by (simp add: next_batch_def)
  have nf: "next_datafile c1 = Inr ?n"
    using next_datafile_ok[OF nm nid] next_datafile_cong[of c1 c] by (simp add: c1_def)
  have ren: "rotate_rename ?n b (c1\<lparr>wfd := None\<rparr>) = (None, c2)" for b
    using flt dirs by (simp add: rotate_rename_def os_defs c1_def c2_def)
  have acc: "rotate_account ?n c2 = c3"
    using flt dirs nd sort_next(1)[OF nm nid]
    by (simp add: rotate_account_def os_defs c1_def c2_def c3_def batch_weight_def dataHeaderLen_def)
  have "\<exists>fs. openWriteFile c3 = (None, c3\<lparr>files := fs, curBatchSize := int (length (content ?d c3)),
             wfdLastWrite := now c, wfd := Some ?d\<rparr>) \<and> map_of fs = (map_of (files c3))(?d \<mapsto> content ?d c3)"
    using openWriteFile_ok[of c3] flt dirs by (simp add: c1_def c2_def c3_def)
  moreover have "content ?d c3 = []" using nd by (simp add: c1_def c2_def c3_def content_def)
  ultimately obtain fs where op: "openWriteFile c3 = (None, c3\<lparr>files := fs, curBatchSize := 0,
      wfdLastWrite := now c, wfd := Some ?d\<rparr>)" and fs: "map_of fs = (map_of (files c3))(?d \<mapsto> [])"
    by auto
  have app: "fd_append (writeFileName c) (PutUint32 EOFHint) c = (None, c1)"
    using flt w by (simp add: writeFileName_def fd_append_def c1_def eof_mark_def)
  have cls: "fd_call c1 = (None, c1)" using flt by (simp add: fd_call_def c1_def)
  have "rotate_file c = (None, c3\<lparr>files := fs, curBatchSize := 0, wfdLastWrite := now c, wfd := Some ?d\<rparr>)"
    by (simp add: rotate_file_def ensureWriteFile_ok[OF ncl w(2)] app nf cls ren acc op Let_def)
  moreover have "c3\<lparr>files := fs, curBatchSize := 0, wfdLastWrite := now c, wfd := Some ?d\<rparr> =
      after_rotate fs c"
    using w(2) by (simp add: c1_def c2_def c3_def after_rotate_def)
  moreover have "map_of fs = rotated_files c"
    using fs nd by (auto simp: rotated_files_def c1_def c2_def c3_def fun_eq_iff)
  ultimately show ?thesis by auto
qed

lemma rotated_old: 
  assumes "dc_inv c" "id_ok (next_id c)" "f \<in> set (dataFiles c)"
  shows "rotated_files c f = fget f c"
proof -
  have "f \<noteq> next_batch c"
    using last_lt_next[of c f] assms by (auto simp: dc_inv_def)
  then show ?thesis using dataFiles_facts(1)[OF assms(1,3)] by (simp add: rotated_files_def)
qed

lemma read_inv_mem: "read_inv c \<Longrightarrow> rfd c = Some (f, off) \<Longrightarrow> f \<in> set (dataFiles c)"
  using list.set_sel(1)[of "dataFiles c"] by (auto simp: read_inv_def)

lemma pending_cong:
  assumes "rfd c = rfd c'" "dataFiles c = dataFiles c'"
    "\<And>f off. rfd c = Some (f, off) \<Longrightarrow> f \<in> set (dataFiles c)"
    "\<And>f. f \<in> set (dataFiles c) \<Longrightarrow> fget f c = fget f c'"
  shows "pending c = pending c'"
proof -
  have b: "map (batch c) xs = map (batch c') xs" if "set xs \<subseteq> set (dataFiles c)" for xs
    using that assms(4) by (auto intro: batch_cong)
  show ?thesis
  proof (cases "rfd c")
    case None
    with assms(1,2) b[of "dataFiles c"] show ?thesis by (simp add: pending_def cong: map_cong)
  next
    case (Some r)
    obtain f off where r: "r = (f, off)" by force
    with Some assms(3) have f: "f \<in> set (dataFiles c)" by simp
    have "set (tl (dataFiles c)) \<subseteq> set (dataFiles c)" by (cases "dataFiles c") auto
    with Some r assms(1,2) b content_cong[OF assms(4)[OF f]] show ?thesis
      by (simp add: pending_def cong: map_cong)
  qed
qed

lemma read_inv_cong:
  assumes "read_inv c" "rfd c' = rfd c" "curReadfile c' = curReadfile c"
    "dataFiles c' = dataFiles c @ ns" "\<And>f. f \<in> set (dataFiles c) \<Longrightarrow> fget f c' = fget f c"
  shows "read_inv c'"
proof (cases "rfd c")
  case None
  with assms show ?thesis by (simp add: read_inv_def)
next
  case (Some r)
  obtain f off where r: "r = (f, off)" by force
  with Some assms(1) have f: "dataFiles c \<noteq> []" "f = hd (dataFiles c)" "f \<in> set (dataFiles c)"
    using list.set_sel(1)[of "dataFiles c"] by (auto simp: read_inv_def)
  with Some r assms content_cong[OF assms(5)[OF f(3)]] show ?thesis by (simp add: read_inv_def)
qed

lemma pending_snoc:
  assumes "rfd c' = rfd c" "dataFiles c' = dataFiles c @ [n]" "read_inv c"
    "\<And>f. f \<in> set (dataFiles c) \<Longrightarrow> fget f c' = fget f c"
  shows "pending c' = pending c @ batch c' n"
proof -
  have "pending c = pending (c'\<lparr>dataFiles := dataFiles c\<rparr>)"
    using assms read_inv_mem by (intro pending_cong) auto
  moreover have "batch (c'\<lparr>dataFiles := dataFiles c\<rparr>) = batch c'"
    "content f (c'\<lparr>dataFiles := dataFiles c\<rparr>) = content f c'" for f
    by (auto simp: batch_def content_def)
  moreover have "dataFiles c \<noteq> []" if "rfd c \<noteq> None"
    using that assms(3) by (auto simp: read_inv_def)
  ultimately show ?thesis using assms(1,2) by (simp add: pending_def split: option.splits)
qed

lemma after_rotate_inv:
  assumes inv: "dc_inv c" and nid: "id_ok (next_id c)" and fs: "map_of fs = rotated_files c"
  shows "dc_inv (after_rotate fs c)"
    and "pending (after_rotate fs c) = pending c @ writing c"
    and "writing (after_rotate fs c) = []"
proof -
  let ?c = "after_rotate fs c" and ?n = "next_batch c" and ?d = "curWriteFile c"
  have flds: "dataFiles ?c = dataFiles c @ [?n]" "rfd ?c = rfd c" "fget f ?c = rotated_files c f"
    "path ?c = path c" "curWriteFile ?c = ?d" "curReadfile ?c = curReadfile c" "cpos ?c = cpos c"
    "noPos ?c = noPos c" "closed ?c = closed c" "wfd ?c = wfd c" "faults ?c = faults c"
    "dirs ?c = dirs c" "curBatchSize ?c = 0" for f
    using fs by (simp_all add: after_rotate_def)
  have old: "fget f ?c = fget f c" if "f \<in> set (dataFiles c)" for f
    using rotated_old[OF inv nid that] flds(3) by simp
  have nd: "?n \<noteq> ?d" using batch_name_neq(1)[OF nid, of "path c"] inv
    by (auto simp: next_batch_def dc_inv_defs)
  have new: "fget ?n ?c = Some (content ?d c @ eof_mark)" "content ?n ?c = content ?d c @ eof_mark"
    using nd flds(3) by (simp_all add: rotated_files_def content_def)
  have d: "fget ?d ?c = Some []" "content ?d ?c = []"
    using flds(3) by (simp_all add: rotated_files_def content_def)
  have op: "is_open_batch (content ?d c)" using inv unfolding dc_inv_def write_inv_def by blast
  have ri: "read_inv c" and nm: "names_inv c" using inv by (simp_all add: dc_inv_def)
  have "names_inv ?c"
    using nm sort_next(2)[OF nm nid] nid flds
    by (auto simp: names_inv_def next_batch_def file_id_batch_name)
  moreover have "files_inv ?c"
    using dataFiles_facts(4,5)[OF inv] old content_cong[OF old] new is_open_batch_close[OF op] flds(1)
    by (auto simp: files_inv_def)
  moreover have "write_inv ?c" using inv flds d is_open_batch_frames[of "[]"] by (simp add: dc_inv_defs)
  moreover have "read_inv ?c"
    using read_inv_cong[OF ri flds(2,6,1) old] .
  moreover have "pos_inv ?c" using inv flds nd by (auto simp: dc_inv_defs rotated_files_def)
  ultimately show "dc_inv ?c" using inv flds by (simp add: dc_inv_def sys_inv_def)
  show "pending ?c = pending c @ writing c"
    using pending_snoc[OF flds(2,1) ri old] new(2) unframe_close[OF op] by (simp add: batch_def writing_def)
  show "writing ?c = []" using flds(5) d by (simp add: writing_def batch_def)
qed

definition after_put :: "(string \<times> bytes) list \<Rightarrow> bytes \<Rightarrow> diskcache \<Rightarrow> diskcache" where
  "after_put fs data c =
     c\<lparr>files := fs, curBatchSize := curBatchSize c + int (length data + dataHeaderLen),
       wfdLastWrite := now c\<rparr>"

definition put_files :: "bytes \<Rightarrow> diskcache \<Rightarrow> string \<rightharpoonup> bytes" where
  "put_files data c =
     (map_of (files c))(curWriteFile c \<mapsto> content (curWriteFile c) c @ frame data)"

lemma put_write_ok:
  assumes "dc_inv c"
  shows "\<exists>fs. put_write data c = (None, after_put fs data c) \<and> map_of fs = put_files data c"
proof -
  let ?d = "curWriteFile c"
  have w: "faults c = []" "wfd c = Some ?d" "fget ?d c = Some (content ?d c)"
    using assms fget_content[where f = ?d and c = c] by (auto simp: dc_inv_defs)
  then show ?thesis
    by (intro exI[of _ "AList.update ?d (content ?d c @ frame data) (files c)"])
      (simp add: put_write_def after_put_def writeFileName_def os_defs put_files_def frame_def)
qed

lemma after_put_inv:
  assumes inv: "dc_inv c" and d: "rec_ok data" and fs: "map_of fs = put_files data c"
  shows "dc_inv (after_put fs data c)"
    and "pending (after_put fs data c) = pending c"
    and "writing (after_put fs data c) = writing c @ [data]"
proof -
  let ?c = "after_put fs data c" and ?d = "curWriteFile c"
  have flds: "dataFiles ?c = dataFiles c" "rfd ?c = rfd c" "fget f ?c = put_files data c f"
    "path ?c = path c" "curWriteFile ?c = ?d" "curReadfile ?c = curReadfile c" "cpos ?c = cpos c"
    "noPos ?c = noPos c" "closed ?c = closed c" "wfd ?c = wfd c" "faults ?c = faults c"
    "dirs ?c = dirs c" for f
    using fs by (simp_all add: after_put_def)
  have old: "fget f ?c = fget f c" if "f \<in> set (dataFiles c)" for f
    using dataFiles_facts(1)[OF inv that] flds(3) by (simp add: put_files_def)
  have dc: "fget ?d ?c = Some (content ?d c @ frame data)" "content ?d ?c = content ?d c @ frame data"
    using flds(3) by (simp_all add: put_files_def content_def)
  have op: "is_open_batch (content ?d c)" and ri: "read_inv c"
    using inv unfolding dc_inv_def write_inv_def by blast+
  have "names_inv ?c" using inv flds by (simp add: dc_inv_def names_inv_def)
  moreover have "files_inv ?c"
    using dataFiles_facts(4,5)[OF inv] old content_cong[OF old] flds(1) by (auto simp: files_inv_def)
  moreover have "write_inv ?c"
  proof -
    have "wfd c = Some ?d" "Join (path c) ''data'' = ?d" "curBatchSize c = int (length (content ?d c))"
      using inv unfolding dc_inv_def write_inv_def by blast+
    then show ?thesis using flds dc is_open_batch_put[OF op d]
      by (simp add: write_inv_def) (simp add: after_put_def dataHeaderLen_def)
  qed
  moreover have "read_inv ?c" using read_inv_cong[OF ri flds(2,6), of "[]"] flds(1) old by simp
  moreover have "pos_inv ?c" using inv flds by (auto simp: dc_inv_def pos_inv_def put_files_def)
  ultimately show "dc_inv ?c" using inv flds by (simp add: dc_inv_def sys_inv_def)
  show "pending ?c = pending c"
    by (rule sym, rule pending_cong) (use flds read_inv_mem[OF ri] old in auto)
  show "writing ?c = writing c @ [data]"
    using flds(5) dc(2) unframe_put[OF op d] by (simp add: writing_def batch_def)
qed

text \<open>\<open>Put\<close> on a cache that is not full: the record joins the queue at its end.\<close>

definition fits :: "bytes \<Rightarrow> diskcache \<Rightarrow> bool" where
  "fits data c \<longleftrightarrow> \<not> (maxDataSize c > 0 \<and> to_i32 (int (length data)) > maxDataSize c)"

subsection \<open>Dropping\<close>

text \<open>
  Dropping while no batch is open for reading gives up exactly the oldest batch.  What happens when
  that batch is open is shown with the properties.
\<close>

lemma dropBatch_ok:
  assumes inv: "dc_inv c" and r: "rfd c = None" and ne: "dataFiles c = f # fs"
  shows "dropBatch c = (None, c\<lparr>files := AList.delete f (files c),
           csize := csize c - int (length (content f c)), dataFiles := fs\<rparr>)"
proof -
  have f: "f \<notin> set (dirs c)" "fget f c = Some (content f c)" "faults c = []"
    using dataFiles_facts(3,4)[OF inv, of f] ne fget_content[where f = f and c = c] inv
    by (auto simp: dc_inv_def sys_inv_def)
  then show ?thesis using r ne by (simp add: dropBatch_def os_defs)
qed

end
