(* ===== verification/Diskcache_Reading.thy ===== *)
theory Diskcache_Reading
  imports Diskcache_Steps
begin

section \<open>Disk cache: what reading does in a world without faults\<close>

subsection \<open>Position updates touch only the position\<close>

text \<open>
  A step of the position file leaves every other file alone and keeps the name of its own file.
\<close>

definition pos_frame :: "diskcache \<Rightarrow> (string \<times> bytes) list \<Rightarrow> pos \<Rightarrow> bool" where
  "pos_frame c fs p \<longleftrightarrow>
     (\<forall>f. f \<noteq> posfname (cpos c) \<longrightarrow> map_of fs f = fget f c) \<and>
     posfname p = posfname (cpos c) \<and>
     (posfd p \<longrightarrow> map_of fs (posfname p) \<noteq> None)"

definition pos_ready :: "diskcache \<Rightarrow> bool" where
  "pos_ready c \<longleftrightarrow> faults c = [] \<and> posfname (cpos c) \<notin> set (dirs c) \<and>
     (posfd (cpos c) \<longrightarrow> fget (posfname (cpos c)) c \<noteq> None)"

text \<open>A position that says nothing is on disk as at most the eight bytes of an offset.\<close>

definition pos_quiet :: "diskcache \<Rightarrow> bool" where
  "pos_quiet c \<longleftrightarrow> (Name (cpos c) = None \<and> Seek (cpos c) = -1 \<longrightarrow>
     (case fget (posfname (cpos c)) c of None \<Rightarrow> True | Some bs \<Rightarrow> length bs \<le> 8))"

lemma on_pos_doDumpFile:
  assumes "pos_ready c"
  shows "\<exists>fs. on_pos doDumpFile c = (None, c\<lparr>files := fs, cpos := (cpos c)\<lparr>posfd := True\<rparr>\<rparr>) \<and>
           map_of fs = (map_of (files c))(posfname (cpos c) \<mapsto> MarshalBinary (cpos c))"
  using doDumpFile_ok[of c "cpos c"] assms by (auto simp: on_pos_def pos_ready_def)

lemma on_pos_reset:
  assumes "pos_ready c"
  shows "\<exists>fs. on_pos pos_reset c =
             (None, c\<lparr>files := fs, cpos := (cpos c)\<lparr>posfd := True, Seek := -1, Name := None\<rparr>\<rparr>) \<and>
           pos_frame c fs ((cpos c)\<lparr>posfd := True, Seek := -1, Name := None\<rparr>) \<and>
           (\<exists>bs. map_of fs (posfname (cpos c)) = Some bs \<and> (pos_quiet c \<longrightarrow> length bs \<le> 8))"
proof -
  let ?p = "cpos c"
  have op: "\<exists>fs. pos_open_fd (?p, c) = (None, (?p\<lparr>posfd := True\<rparr>, c\<lparr>files := fs\<rparr>)) \<and>
       (\<forall>f. f \<noteq> posfname ?p \<longrightarrow> map_of fs f = fget f c) \<and> map_of fs (posfname ?p) \<noteq> None \<and>
       (map_of fs (posfname ?p) = fget (posfname ?p) c \<or> map_of fs (posfname ?p) = Some [])"
  proof (cases "posfd ?p")
    case True
    with assms show ?thesis by (intro exI[of _ "files c"]) (simp add: pos_open_fd_def pos_ready_def)
  next
    case False
    with assms show ?thesis
      by (intro exI[of _ "AList.update (posfname ?p) [] (files c)"])
        (simp add: pos_open_fd_def pos_ready_def os_defs)
  qed
  then obtain fs where fs: "pos_open_fd (?p, c) = (None, (?p\<lparr>posfd := True\<rparr>, c\<lparr>files := fs\<rparr>))"
    "\<forall>f. f \<noteq> posfname ?p \<longrightarrow> map_of fs f = fget f c" "map_of fs (posfname ?p) \<noteq> None"
    "map_of fs (posfname ?p) = fget (posfname ?p) c \<or> map_of fs (posfname ?p) = Some []"
    by blast
  show ?thesis
  proof (cases "Name ?p = None \<and> Seek ?p = -1")
    case True
    with fs show ?thesis
      by (intro exI[of _ fs]) (auto simp: on_pos_def pos_reset_def pos_frame_def pos_quiet_def)
  next
    case False
    let ?q = "?p\<lparr>posfd := True, Seek := -1, Name := None\<rparr>"
    from assms fs(3) obtain gs where gs:
      "doDumpFile (?q, c\<lparr>files := fs\<rparr>) = (None, (?q, c\<lparr>files := gs\<rparr>))"
      "map_of gs = (map_of fs)(posfname ?p \<mapsto> MarshalBinary ?q)"
      using doDumpFile_ok[of "c\<lparr>files := fs\<rparr>" ?q] by (auto simp: pos_ready_def)
    with False fs show ?thesis
      by (intro exI[of _ gs]) (auto simp: on_pos_def pos_reset_def pos_frame_def MarshalBinary_def)
  qed
qed

lemma on_pos_dumpFile:
  assumes "pos_ready c"
  shows "\<exists>fs p. on_pos (\<lambda>s. snd (dumpFile s)) c = (None, c\<lparr>files := fs, cpos := p\<rparr>) \<and>
           pos_frame c fs p \<and> Seek p = Seek (cpos c) \<and> Name p = Name (cpos c) \<and>
           dumpCount p = dumpCount (cpos c) \<and>
           (dumpCount p = 0 \<longrightarrow> map_of fs (posfname p) = Some (MarshalBinary p))"
proof -
  let ?p = "cpos c"
  have dump: "\<exists>fs. doDumpFile (q, c) = (None, (q\<lparr>posfd := True\<rparr>, c\<lparr>files := fs\<rparr>)) \<and>
      map_of fs = (map_of (files c))(posfname q \<mapsto> MarshalBinary q)"
    if "posfname q = posfname ?p" "posfd q = posfd ?p" for q
    using doDumpFile_ok[of c q] assms that by (auto simp: pos_ready_def)
  show ?thesis
  proof (cases "dumpCount ?p = 0")
    case True
    from dump[of ?p] obtain fs where fs:
      "doDumpFile (?p, c) = (None, (?p\<lparr>posfd := True\<rparr>, c\<lparr>files := fs\<rparr>))"
      "map_of fs = (map_of (files c))(posfname ?p \<mapsto> MarshalBinary ?p)"
      by auto
    with True show ?thesis
      by (intro exI[of _ fs] exI[of _ "?p\<lparr>posfd := True\<rparr>"])
        (simp add: on_pos_def dumpFile_def pos_frame_def MarshalBinary_def)
  next
    case False
    let ?q = "?p\<lparr>cnt := cnt ?p + 1\<rparr>" and ?r = "?p\<lparr>cnt := cnt ?p + 1, lastDump := Some (now c)\<rparr>"
    consider (no) "dumpFile (?p, c) = (False, okE (?q, c))"
      | (yes) "dumpFile (?p, c) = (True, doDumpFile (?r, c))"
      using False by (cases "cnt ?q mod dumpCount ?q = 0 \<or> dumpInterval ?q > 0 \<and>
          (case lastDump ?q of None \<Rightarrow> True | Some t \<Rightarrow> now c - t \<ge> dumpInterval ?q)")
        (auto simp: dumpFile_def Let_def)
    then show ?thesis
    proof cases
      case no
      with assms False show ?thesis
        by (intro exI[of _ "files c"] exI[of _ ?q]) (simp add: on_pos_def pos_frame_def pos_ready_def)
    next
      case yes
      from dump[of ?r] obtain fs where
        "doDumpFile (?r, c) = (None, (?r\<lparr>posfd := True\<rparr>, c\<lparr>files := fs\<rparr>))"
        "map_of fs = (map_of (files c))(posfname ?p \<mapsto> MarshalBinary ?r)"
        by auto
      with False yes show ?thesis
        by (intro exI[of _ fs] exI[of _ "?r\<lparr>posfd := True\<rparr>"]) (simp add: on_pos_def pos_frame_def)
    qed
  qed
qed

subsection \<open>The configuration never changes\<close>

definition settings where
  "settings c = (path c, batchSize c, capacity c, maxDataSize c, wakeup c,
            noSync c, noFallbackOnError c, noPos c, filoDrop c, noDrop c, noLock c,
            dirs c, flocks c, cflock c)"

subsection \<open>Switching to the next batch\<close>

text \<open>What the steps of the read side may change, and what they keep.\<close>

lemma inv_pos_ready: "dc_inv c \<Longrightarrow> \<not> noPos c \<Longrightarrow> pos_ready c"
  using inv_no_dir(2)[of c] by (auto simp: dc_inv_def pos_inv_def sys_inv_def pos_ready_def)

lemma inv_pos_neq:
  assumes "dc_inv c" "\<not> noPos c"
  shows "f \<in> set (dataFiles c) \<Longrightarrow> f \<noteq> posfname (cpos c)" "curWriteFile c \<noteq> posfname (cpos c)"
  using dataFiles_facts(6)[OF assms(1)] write_pos_neq[OF assms] assms(2) by auto

text \<open>Changing the position and its file, and where the reader stands, keeps the rest in order.\<close>

lemma reposition_inv:
  assumes inv: "dc_inv c"
    and pf: "if noPos c then fs = files c \<and> p = cpos c else pos_frame c fs p"
    and ri: "read_inv (c\<lparr>rfd := r, curReadfile := cr\<rparr>)"
  shows "dc_inv (c\<lparr>files := fs, cpos := p, rfd := r, curReadfile := cr, curReadSize := rs\<rparr>)"
    and "writing (c\<lparr>files := fs, cpos := p, rfd := r, curReadfile := cr, curReadSize := rs\<rparr>) = writing c"
    and "pending (c\<lparr>files := fs, cpos := p, rfd := r, curReadfile := cr, curReadSize := rs\<rparr>)
         = pending (c\<lparr>rfd := r\<rparr>)"
proof -
  let ?c = "c\<lparr>files := fs, cpos := p, rfd := r, curReadfile := cr, curReadSize := rs\<rparr>"
  have same: "map_of fs f = fget f c" if "f \<in> set (dataFiles c) \<or> f = curWriteFile c" for f
    using that pf inv_pos_neq[OF inv] by (auto simp: pos_frame_def split: if_splits)
  have cont: "content f ?c = content f c" if "f \<in> set (dataFiles c) \<or> f = curWriteFile c" for f
    using same[OF that] by (simp add: content_def)
  have "files_inv ?c" using inv same cont by (auto simp: dc_inv_def files_inv_def)
  moreover have "write_inv ?c" using inv same cont by (simp add: dc_inv_def write_inv_def)
  moreover have "read_inv ?c"
    using read_inv_cong[OF ri, of ?c "[]"] same by simp
  moreover have "pos_inv ?c" using inv pf by (auto simp: dc_inv_def pos_inv_def pos_frame_def split: if_splits)
  ultimately show "dc_inv ?c" using inv by (simp add: dc_inv_def sys_inv_def names_inv_def)
  show "writing ?c = writing c" using cont by (simp add: writing_def batch_def)
  show "pending ?c = pending (c\<lparr>rfd := r\<rparr>)"
    by (rule sym, rule pending_cong) (use same read_inv_mem[OF ri] in auto)
qed

definition pos_step_ok :: "diskcache \<Rightarrow> (string \<times> bytes) list \<Rightarrow> pos \<Rightarrow> bool" where
  "pos_step_ok c fs p \<longleftrightarrow> (if noPos c then fs = files c \<and> p = cpos c else pos_frame c fs p)"

definition at_next :: "diskcache \<Rightarrow> (string \<times> nat) option" where
  "at_next c = (case dataFiles c of [] \<Rightarrow> rfd c | f # fs \<Rightarrow> Some (f, 0))"

definition next_name :: "diskcache \<Rightarrow> string" where
  "next_name c = (case dataFiles c of [] \<Rightarrow> curReadfile c | f # fs \<Rightarrow> f)"

lemma doSwitchNextFile_ok:
  assumes inv: "dc_inv c"
  shows "\<exists>fs p rs. doSwitchNextFile c =
           (None, c\<lparr>files := fs, cpos := p, rfd := at_next c, curReadfile := next_name c, curReadSize := rs\<rparr>) \<and>
         pos_step_ok c fs p \<and>
         dumpCount p = dumpCount (cpos c) \<and>
         (\<not> noPos c \<longrightarrow>
            (if dataFiles c = []
             then \<exists>bs. map_of fs (posfname p) = Some bs \<and> (pos_quiet c \<longrightarrow> length bs \<le> 8)
             else Name p = Some (hd (dataFiles c)) \<and> Seek p = 0 \<and>
                  map_of fs (posfname p) = Some (MarshalBinary p)))"
proof -
  have flt: "faults c = []" using inv by (simp add: dc_inv_def sys_inv_def)
  show ?thesis
  proof (cases "dataFiles c")
    case Nil
    then show ?thesis
    proof (cases "noPos c")
      case True
      with Nil show ?thesis
        by (intro exI[of _ "files c"] exI[of _ "cpos c"] exI[of _ "curReadSize c"])
          (simp add: doSwitchNextFile_def pos_step_ok_def at_next_def next_name_def)
    next
      case False
      let ?p = "(cpos c)\<lparr>posfd := True, Seek := -1, Name := None\<rparr>"
      obtain fs where "on_pos pos_reset c = (None, c\<lparr>files := fs, cpos := ?p\<rparr>)" "pos_frame c fs ?p"
        "\<exists>bs. map_of fs (posfname (cpos c)) = Some bs \<and> (pos_quiet c \<longrightarrow> length bs \<le> 8)"
        using on_pos_reset[OF inv_pos_ready[OF inv False]] by blast
      with Nil False show ?thesis
        by (intro exI[of _ fs] exI[of _ ?p] exI[of _ "curReadSize c"])
          (simp add: doSwitchNextFile_def pos_step_ok_def at_next_def next_name_def)
    qed
  next
    case (Cons f gs)
    have f: "f \<notin> set (dirs c)" "fget f c \<noteq> None" using dataFiles_facts(3,4)[OF inv, of f] Cons by auto
    then obtain bs where bs: "fget f c = Some bs" by blast
    show ?thesis
    proof (cases "noPos c")
      case True
      with Cons f bs flt show ?thesis
        by (intro exI[of _ "files c"] exI[of _ "cpos c"] exI[of _ "int (length bs)"])
          (simp add: doSwitchNextFile_def pos_step_ok_def at_next_def next_name_def os_defs)
    next
      case False
      let ?p = "(cpos c)\<lparr>posfd := True, Seek := -1, Name := None\<rparr>"
      obtain fs1 where r: "on_pos pos_reset c = (None, c\<lparr>files := fs1, cpos := ?p\<rparr>)" "pos_frame c fs1 ?p"
        using on_pos_reset[OF inv_pos_ready[OF inv False]] by blast
      let ?q = "(cpos c)\<lparr>posfd := True, Name := Some f, Seek := 0\<rparr>"
      let ?c = "c\<lparr>files := fs1, curReadfile := f, rfd := Some (f, 0), curReadSize := int (length bs), cpos := ?q\<rparr>"
      have fp: "f \<noteq> posfname (cpos c)" using dataFiles_facts(6)[OF inv, of f] Cons False by simp
      have "pos_ready ?c"
        using r(2) inv_pos_ready[OF inv False] by (auto simp: pos_ready_def pos_frame_def)
      then obtain fs2 where d0: "on_pos doDumpFile ?c = (None, ?c\<lparr>files := fs2, cpos := (cpos ?c)\<lparr>posfd := True\<rparr>\<rparr>)"
        "map_of fs2 = (map_of (files ?c))(posfname (cpos ?c) \<mapsto> MarshalBinary (cpos ?c))"
        using on_pos_doDumpFile[of ?c] by blast
      then have d: "on_pos doDumpFile ?c = (None, ?c\<lparr>files := fs2, cpos := ?q\<rparr>)"
        "map_of fs2 = (map_of fs1)(posfname (cpos c) \<mapsto> MarshalBinary ?q)"
        by simp_all
      have "map_of fs1 f = Some bs" using r(2) fp bs by (auto simp: pos_frame_def)
      with False Cons f flt r(1) d(1) have
        "doSwitchNextFile c = (None, ?c\<lparr>files := fs2, cpos := ?q\<rparr>)"
        by (simp add: doSwitchNextFile_def os_defs Let_def)
      moreover have "pos_frame c fs2 ?q" using r(2) d(2) by (auto simp: pos_frame_def)
      ultimately show ?thesis using Cons False d(2)
        by (intro exI[of _ fs2] exI[of _ ?q] exI[of _ "int (length bs)"])
          (simp add: pos_step_ok_def at_next_def next_name_def)
    qed
  qed
qed

lemma removeCurrentReadingFile_ok:
  assumes inv: "dc_inv c" and r: "rfd c = Some (f, off)"
  shows "removeCurrentReadingFile c =
           (None, c\<lparr>files := AList.delete f (files c), rfd := None,
                    csize := csize c - batch_weight (length (content f c)),
                    curReadfile := [], dataFiles := tl (dataFiles c)\<rparr>)"
proof -
  have ri: "read_inv c" and flt: "faults c = []" using inv by (auto simp: dc_inv_def sys_inv_def)
  then have cr: "curReadfile c = f" "dataFiles c \<noteq> []" and f: "f \<in> set (dataFiles c)"
    using r read_inv_mem[OF ri r] by (auto simp: read_inv_def)
  have "f \<notin> set (dirs c)" "fget f c = Some (content f c)"
    using dataFiles_facts(3,4)[OF inv f] fget_content[where f = f and c = c] by auto
  with r cr flt show ?thesis
    by (auto simp: removeCurrentReadingFile_def os_defs batch_weight_def Let_def)
qed

lemma removed_inv:
  assumes inv: "dc_inv c" and r: "rfd c = Some (f, off)"
  defines "c' \<equiv> c\<lparr>files := AList.delete f (files c), rfd := None,
                  csize := csize c - batch_weight (length (content f c)),
                  curReadfile := [], dataFiles := tl (dataFiles c)\<rparr>"
  shows "dc_inv c'" "writing c' = writing c" "pending c = unframe (drop off (content f c)) @ pending c'"
proof -
  have ri: "read_inv c" using inv by (simp add: dc_inv_def)
  obtain gs where df: "dataFiles c = f # gs" using ri r by (cases "dataFiles c") (auto simp: read_inv_def)
  have srt: "sorted_wrt (<) (f # gs)" using inv df by (simp add: dc_inv_def names_inv_def)
  then have fg: "f \<notin> set gs" by auto
  have fd: "f \<noteq> curWriteFile c" using dataFiles_facts(1)[OF inv, of f] df by simp
  have same: "fget h c' = fget h c" if "h \<noteq> f" for h using that by (simp add: c'_def)
  have cont: "content h c' = content h c" if "h \<noteq> f" for h using same[OF that] by (simp add: content_def)
  have "names_inv c'" using inv df srt by (auto simp: dc_inv_def names_inv_def c'_def)
  moreover have "files_inv c'"
    using inv df fg same cont by (auto simp: dc_inv_def files_inv_def c'_def content_def)
  moreover have "write_inv c'"
    using inv fd same[of "curWriteFile c"] cont[of "curWriteFile c"]
    by (auto simp: dc_inv_def write_inv_def c'_def)
  moreover have "read_inv c'" by (simp add: read_inv_def c'_def)
  moreover have "pos_inv c'"
    using inv df dataFiles_facts(6)[OF inv, of f] by (auto simp: dc_inv_def pos_inv_def c'_def)
  ultimately show "dc_inv c'" using inv by (simp add: dc_inv_def sys_inv_def c'_def)
  show "writing c' = writing c" using cont[of "curWriteFile c"] fd by (simp add: writing_def batch_def c'_def)
  have "map (batch c') gs = map (batch c) gs" using fg cont by (fastforce simp: batch_def)
  moreover have "dataFiles c' = gs" "rfd c' = None" by (simp_all add: c'_def df)
  ultimately show "pending c = unframe (drop off (content f c)) @ pending c'"
    using r df by (simp add: pending_def cong: map_cong)
qed

end
