(* ===== verification/Diskcache_Get.thy ===== *)
theory Diskcache_Get
  imports Diskcache_Reading
begin

section \<open>Disk cache: Get in a world without faults\<close>

subsection \<open>What a call keeps\<close>

text \<open>The size counter is the weight of the batches: a batch with no record weighs nothing.\<close>

definition size_inv :: "diskcache \<Rightarrow> bool" where
  "size_inv c \<longleftrightarrow> csize c = (\<Sum>f \<leftarrow> dataFiles c. batch_weight (length (content f c)))"

text \<open>The reading list is exactly the data files of the directory.\<close>

definition dir_inv :: "diskcache \<Rightarrow> bool" where
  "dir_inv c \<longleftrightarrow> (\<forall>f. f \<in> set (dataFiles c) \<longleftrightarrow> fget f c \<noteq> None \<and> in_dir (path c) f \<and> is_datafile f)"

text \<open>
  The position on disk is the reader's position: the file name and offset while a batch is open,
  nothing to go on with otherwise.
\<close>

definition pos_disk :: "diskcache \<Rightarrow> bool" where
  "pos_disk c \<longleftrightarrow> noPos c \<or>
     (case rfd c of
        Some (f, off) \<Rightarrow> Name (cpos c) = Some f \<and> Seek (cpos c) = int off \<and>
                          fget (posfname (cpos c)) c = Some (MarshalBinary (cpos c))
      | None \<Rightarrow> (case fget (posfname (cpos c)) c of None \<Rightarrow> True | Some bs \<Rightarrow> length bs \<le> 8))"

definition keeps :: "diskcache \<Rightarrow> diskcache \<Rightarrow> bool" where
  "keeps c c' \<longleftrightarrow> dc_inv c' \<and> settings c' = settings c \<and> dumpCount (cpos c') = dumpCount (cpos c) \<and>
     next_id c' \<le> next_id c \<and> (size_inv c \<longrightarrow> size_inv c') \<and> (dir_inv c \<longrightarrow> dir_inv c')"

lemma keeps_trans: "keeps a b \<Longrightarrow> keeps b c \<Longrightarrow> keeps a c"
  by (auto simp: keeps_def)

lemma settings_fields:
  "settings c' = settings c \<Longrightarrow> noPos c' = noPos c" "settings c' = settings c \<Longrightarrow> noFallbackOnError c' = noFallbackOnError c"
  by (simp_all add: settings_def)

lemma pos_disk_quiet: "pos_disk c \<Longrightarrow> \<not> noPos c \<Longrightarrow> pos_quiet c"
  by (auto simp: pos_disk_def pos_quiet_def split: option.splits)

lemma next_id_nonneg: "dc_inv c \<Longrightarrow> 0 \<le> next_id c"
  using last_in_set[of "dataFiles c"] by (force simp: next_id_def dc_inv_def names_inv_def id_ok_def)

lemma batch_weight_cong:
  "(\<And>f. f \<in> set fs \<Longrightarrow> fget f c = fget f c') \<Longrightarrow>
   (\<Sum>f \<leftarrow> fs. batch_weight (length (content f c))) = (\<Sum>f \<leftarrow> fs. batch_weight (length (content f c')))"
  by (intro arg_cong[of _ _ sum_list] map_cong) (auto simp: content_def)

lemma not_datafile:
  "dc_inv c \<Longrightarrow> \<not> is_datafile (curWriteFile c)"
  "dc_inv c \<Longrightarrow> \<not> noPos c \<Longrightarrow> \<not> is_datafile (posfname (cpos c))"
  using Base_Join_plain[of "''data''" "path c"] Base_Join_plain[of "''.pos''" "path c"]
  by (auto simp: dc_inv_def write_inv_def pos_inv_def is_datafile_def)

lemma is_datafile_batch_name: "id_ok x \<Longrightarrow> is_datafile (batch_name p x)" "id_ok x \<Longrightarrow> in_dir p (batch_name p x)"
  by (simp_all add: is_datafile_def Base_batch_name datafile_name_def)
    (simp add: batch_name_def in_dir_Join plain_datafile_name)

lemma dir_inv_cong:
  assumes "path c' = path c" "dataFiles c' = dataFiles c" "\<And>f. is_datafile f \<Longrightarrow> fget f c' = fget f c"
  shows "dir_inv c' = dir_inv c"
  using assms by (auto simp: dir_inv_def)

lemma pos_step_dir_inv:
  assumes "dc_inv c" "pos_step_ok c fs p" "path c' = path c" "dataFiles c' = dataFiles c" "files c' = fs"
  shows "dir_inv c' = dir_inv c"
proof (rule dir_inv_cong)
  fix f assume "is_datafile f"
  then have "\<not> noPos c \<Longrightarrow> f \<noteq> posfname (cpos c)" using not_datafile(2)[OF assms(1)] by auto
  then show "fget f c' = fget f c"
    using assms(2,5) by (auto simp: pos_step_ok_def pos_frame_def split: if_splits)
qed (use assms in auto)

subsection \<open>Moving on to the next batch\<close>

lemma switch_open_ok:
  assumes inv: "dc_inv c" and r: "rfd c = None"
  shows "\<exists>c'. doSwitchNextFile c = (None, c') \<and> keeps c c' \<and> writing c' = writing c \<and>
           pending c' = pending c \<and> dataFiles c' = dataFiles c \<and>
           (rfd c' = None \<longrightarrow> dataFiles c' = []) \<and> (\<not> noPos c \<longrightarrow> pos_quiet c \<longrightarrow> pos_disk c')"
proof -
  obtain fs p rs where sw: "doSwitchNextFile c =
       (None, c\<lparr>files := fs, cpos := p, rfd := at_next c, curReadfile := next_name c, curReadSize := rs\<rparr>)"
    and pf: "pos_step_ok c fs p" and dc: "dumpCount p = dumpCount (cpos c)"
    and pd: "\<not> noPos c \<longrightarrow>
            (if dataFiles c = []
             then \<exists>bs. map_of fs (posfname p) = Some bs \<and> (pos_quiet c \<longrightarrow> length bs \<le> 8)
             else Name p = Some (hd (dataFiles c)) \<and> Seek p = 0 \<and>
                  map_of fs (posfname p) = Some (MarshalBinary p))"
    using doSwitchNextFile_ok[OF inv] by blast
  let ?c = "c\<lparr>files := fs, cpos := p, rfd := at_next c, curReadfile := next_name c, curReadSize := rs\<rparr>"
  have ri: "read_inv (c\<lparr>rfd := at_next c, curReadfile := next_name c\<rparr>)"
    using inv r by (cases "dataFiles c")
      (auto simp: dc_inv_def read_inv_def files_inv_def at_next_def next_name_def content_def)
  note rp = reposition_inv[OF inv pf[unfolded pos_step_ok_def] ri, of rs]
  have "pending (c\<lparr>rfd := at_next c\<rparr>) = pending c"
    using r by (cases "dataFiles c") (auto simp: pending_def at_next_def batch_def content_def cong: map_cong)
  moreover have "size_inv c \<longrightarrow> size_inv ?c"
    using pf inv_pos_neq(1)[OF inv]
      batch_weight_cong[of "dataFiles c" c ?c] by (auto simp: size_inv_def pos_step_ok_def pos_frame_def split: if_splits)
  moreover have "dir_inv ?c = dir_inv c" by (rule pos_step_dir_inv[OF inv pf]) simp_all
  ultimately have "keeps c ?c" "pending ?c = pending c"
    using rp dc by (auto simp: keeps_def settings_def next_id_def)
  moreover have "\<not> noPos c \<longrightarrow> pos_quiet c \<longrightarrow> pos_disk ?c"
    using pd r by (cases "dataFiles c") (auto simp: pos_disk_def at_next_def)
  moreover have "rfd ?c = None \<longrightarrow> dataFiles ?c = []"
    by (simp add: at_next_def split: list.splits)
  ultimately show ?thesis using sw rp(2) by (intro exI[of _ ?c]) auto
qed

lemma switchNextFile_start:
  "dc_inv c \<Longrightarrow> rfd c = None \<Longrightarrow> switchNextFile c = doSwitchNextFile c"
  by (simp add: switchNextFile_def dc_inv_def read_inv_def)

lemma switchNextFile_next:
  assumes inv: "dc_inv c" and r: "rfd c = Some (f, off)"
  shows "\<exists>c'. switchNextFile c = (None, c') \<and> keeps c c' \<and> writing c' = writing c \<and>
           pending c = unframe (drop off (content f c)) @ pending c' \<and>
           length (dataFiles c') < length (dataFiles c) \<and> (rfd c' = None \<longrightarrow> dataFiles c' = []) \<and>
           (pos_disk c \<longrightarrow> pos_disk c')"
proof -
  define c1 where "c1 = c\<lparr>files := AList.delete f (files c), rfd := None,
              csize := csize c - batch_weight (length (content f c)),
              curReadfile := [], dataFiles := tl (dataFiles c)\<rparr>"
  note rm = removed_inv[OF inv r, folded c1_def]
  have ri: "read_inv c" using inv by (simp add: dc_inv_def)
  obtain gs where df: "dataFiles c = f # gs" using ri r by (cases "dataFiles c") (auto simp: read_inv_def)
  have fg: "f \<notin> set gs" using inv df by (auto simp: dc_inv_def names_inv_def)
  have f1: "rfd c1 = None" "dataFiles c1 = gs" "noPos c1 = noPos c" by (simp_all add: c1_def df)
  obtain c' where c': "doSwitchNextFile c1 = (None, c')" "keeps c1 c'" "writing c' = writing c1"
    "pending c' = pending c1" "dataFiles c' = dataFiles c1" "rfd c' = None \<longrightarrow> dataFiles c' = []"
    "\<not> noPos c1 \<longrightarrow> pos_quiet c1 \<longrightarrow> pos_disk c'"
    using switch_open_ok[OF rm(1) f1(1)] by (elim exE conjE) (rule that)
  have "f \<noteq> []" using dataFiles_facts(2)[OF inv, of f] df by simp
  then have sw: "switchNextFile c = (None, c')"
    using c'(1) ri r removeCurrentReadingFile_ok[OF inv r, folded c1_def]
    by (simp add: switchNextFile_def read_inv_def)
  have "fget g c = fget g c1" if "g \<in> set gs" for g using that fg by (auto simp: c1_def)
  then have "(\<Sum>g \<leftarrow> gs. batch_weight (length (content g c))) =
      (\<Sum>g \<leftarrow> gs. batch_weight (length (content g c1)))"
    by (rule batch_weight_cong)
  moreover have "csize c1 = csize c - batch_weight (length (content f c))" by (simp add: c1_def)
  ultimately have "size_inv c \<longrightarrow> size_inv c1" using df f1 by (simp add: size_inv_def)
  moreover have "dir_inv c \<longrightarrow> dir_inv c1"
    using df fg by (auto simp: dir_inv_def c1_def)
  moreover have "next_id c1 \<le> next_id c"
    using df next_id_nonneg[OF inv] by (auto simp: next_id_def f1)
  ultimately have "keeps c c1" using rm(1) by (simp add: keeps_def settings_def c1_def)
  then have k: "keeps c c'" using c'(2) by (rule keeps_trans)
  have "pos_disk c \<longrightarrow> pos_disk c'"
  proof (cases "noPos c")
    case True
    with k show ?thesis using settings_fields(1)[of c' c] by (simp add: keeps_def pos_disk_def)
  next
    case False
    have "f \<noteq> posfname (cpos c)" using inv_pos_neq(1)[OF inv False] df by simp
    then have "pos_quiet c1 = pos_quiet c" by (simp add: pos_quiet_def c1_def)
    with False c'(7) f1 pos_disk_quiet[of c] show ?thesis by simp
  qed
  with sw k c' rm f1 df show ?thesis by (intro exI[of _ c']) simp
qed

subsection \<open>Reading one record\<close>

text \<open>
  \<open>at_record c f off d\<close>: the reader of \<open>c\<close> stands at offset \<open>off\<close> of \<open>f\<close>, in front of the
  frame of \<open>d\<close>.
\<close>

definition at_record :: "diskcache \<Rightarrow> string \<Rightarrow> nat \<Rightarrow> bytes \<Rightarrow> bool" where
  "at_record c f off d \<longleftrightarrow> dc_inv c \<and> rfd c = Some (f, off) \<and> rec_ok d \<and>
     (\<exists>t. drop off (content f c) = frame d @ t \<and> is_batch t)"

lemma advance_inv:
  assumes a: "at_record c f off d" and pf: "pos_step_ok c fs p" and dc: "dumpCount p = dumpCount (cpos c)"
  defines "c' \<equiv> c\<lparr>files := fs, cpos := p, rfd := Some (f, off + (dataHeaderLen + length d))\<rparr>"
  shows "keeps c c'" "writing c' = writing c" "pending c = d # pending c'"
proof -
  let ?r = "Some (f, off + (dataHeaderLen + length d))"
  have inv: "dc_inv c" and r: "rfd c = Some (f, off)" and rec: "rec_ok d" using a by (auto simp: at_record_def)
  obtain t where t: "drop off (content f c) = frame d @ t" "is_batch t" using a by (auto simp: at_record_def)
  have dt: "drop (off + (dataHeaderLen + length d)) (content f c) = t"
    using t(1) drop_drop[of "dataHeaderLen + length d" off "content f c"]
    by (simp add: dataHeaderLen_def add.commute)
  have ri: "read_inv c" using inv by (simp add: dc_inv_def)
  have ri': "read_inv (c\<lparr>rfd := ?r, curReadfile := curReadfile c\<rparr>)"
    using ri r dt t(2) by (simp add: read_inv_def content_def)
  have eq: "c' = c\<lparr>files := fs, cpos := p, rfd := ?r, curReadfile := curReadfile c, curReadSize := curReadSize c\<rparr>"
    by (simp add: c'_def)
  note rp = reposition_inv[OF inv pf[unfolded pos_step_ok_def] ri', of "curReadSize c", folded eq]
  have same: "fget g c = fget g c'" if "g \<in> set (dataFiles c)" for g
    using that pf inv_pos_neq(1)[OF inv] by (auto simp: c'_def pos_step_ok_def pos_frame_def split: if_splits)
  have "size_inv c \<longrightarrow> size_inv c'"
    using batch_weight_cong[OF same] by (simp add: size_inv_def c'_def)
  moreover have "dir_inv c' = dir_inv c" by (rule pos_step_dir_inv[OF inv pf]) (simp_all add: c'_def)
  ultimately show "keeps c c'" using rp(1) dc by (simp add: keeps_def settings_def next_id_def c'_def)
  show "writing c' = writing c" by (rule rp(2))
  have "batch (c\<lparr>rfd := ?r\<rparr>) = batch c" "content f (c\<lparr>rfd := ?r\<rparr>) = content f c"
    by (auto simp: batch_def content_def)
  then have "pending (c\<lparr>rfd := ?r\<rparr>) = unframe t @ concat (map (batch c) (tl (dataFiles c)))"
    using dt by (simp add: pending_def)
  moreover have "pending c = d # unframe t @ concat (map (batch c) (tl (dataFiles c)))"
    using r t(1) unframe_frame[OF rec] by (simp add: pending_def)
  ultimately show "pending c = d # pending c'" using rp(3) by simp
qed

text \<open>
  After a record was consumed: the reader is behind it, and a position that is dumped on every call
  is on disk again, provided the record was not empty.
\<close>

definition consumed :: "diskcache \<Rightarrow> bytes \<Rightarrow> diskcache \<Rightarrow> bool" where
  "consumed c d c' \<longleftrightarrow> keeps c c' \<and> writing c' = writing c \<and> pending c = d # pending c' \<and>
     (pos_disk c \<longrightarrow> dumpCount (cpos c) = 0 \<longrightarrow> d \<noteq> [] \<longrightarrow> pos_disk c')"

lemma get_updatePos_ok:
  assumes a: "at_record c f off d"
  shows "\<exists>c'. get_updatePos (length d) err dl (c\<lparr>rfd := Some (f, off + (dataHeaderLen + length d))\<rparr>)
           = (err, dl, c') \<and> consumed c d c'"
proof -
  let ?n = "dataHeaderLen + length d"
  let ?c1 = "c\<lparr>rfd := Some (f, off + ?n)\<rparr>"
  have inv: "dc_inv c" and r: "rfd c = Some (f, off)" using a by (auto simp: at_record_def)
  show ?thesis
  proof (cases "noPos c \<or> d = []")
    case True
    have "pos_step_ok c (files c) (cpos c)"
      using inv by (auto simp: pos_step_ok_def pos_frame_def dc_inv_def pos_inv_def)
    from advance_inv[OF a this refl] True show ?thesis
      by (intro exI[of _ ?c1]) (auto simp: get_updatePos_def consumed_def pos_disk_def)
  next
    case False
    then have np: "\<not> noPos c" "d \<noteq> []" by auto
    define c2 where "c2 = ?c1\<lparr>cpos := (cpos c)\<lparr>Seek := Seek (cpos c) + int ?n\<rparr>\<rparr>"
    have rdy: "pos_ready c2" using inv_pos_ready[OF inv np(1)] by (simp add: pos_ready_def c2_def)
    obtain fs p where dp: "on_pos (\<lambda>s. snd (dumpFile s)) c2 = (None, c2\<lparr>files := fs, cpos := p\<rparr>)"
      and pf: "pos_frame c2 fs p" and pp: "Seek p = Seek (cpos c2)" "Name p = Name (cpos c2)"
      "dumpCount p = dumpCount (cpos c2)" "dumpCount p = 0 \<longrightarrow> map_of fs (posfname p) = Some (MarshalBinary p)"
      using on_pos_dumpFile[OF rdy] by blast
    let ?c = "c\<lparr>files := fs, cpos := p, rfd := Some (f, off + ?n)\<rparr>"
    have "pos_step_ok c fs p" using pf np by (auto simp: pos_step_ok_def pos_frame_def c2_def)
    moreover have "dumpCount p = dumpCount (cpos c)" using pp(3) by (simp add: c2_def)
    ultimately have adv: "keeps c ?c" "writing ?c = writing c" "pending c = d # pending ?c"
      using advance_inv[OF a] by blast+
    have "pos_disk c \<longrightarrow> dumpCount (cpos c) = 0 \<longrightarrow> pos_disk ?c"
      using pp np r by (auto simp: pos_disk_def c2_def)
    moreover have "c2\<lparr>files := fs, cpos := p\<rparr> = ?c" by (simp add: c2_def)
    ultimately show ?thesis using dp np adv
      by (intro exI[of _ ?c]) (simp add: get_updatePos_def consumed_def c2_def)
  qed
qed

text \<open>Same queue, same configuration: what the reader's own bookkeeping may do.\<close>

definition same_queue :: "diskcache \<Rightarrow> diskcache \<Rightarrow> bool" where
  "same_queue c c' \<longleftrightarrow> keeps c c' \<and> pending c' = pending c \<and> writing c' = writing c \<and>
     (pos_disk c \<longrightarrow> pos_disk c')"

lemma same_queue_trans: "same_queue a b \<Longrightarrow> same_queue b c \<Longrightarrow> same_queue a c"
  by (auto simp: same_queue_def intro: keeps_trans)

lemma same_queue_refl: "dc_inv c \<Longrightarrow> same_queue c c"
  by (simp add: same_queue_def keeps_def)

lemma consumed_trans: "same_queue a b \<Longrightarrow> consumed b d c \<Longrightarrow> consumed a d c"
  by (auto simp: same_queue_def consumed_def keeps_def)

text \<open>
  What a call that finds the record \<open>d\<close> does: the callback gets \<open>d\<close>; the record is consumed,
  unless the callback failed and the cache falls back.
\<close>

definition handled :: "get_args \<Rightarrow> diskcache \<Rightarrow> bytes \<Rightarrow> get_result \<Rightarrow> bool" where
  "handled a c d r \<longleftrightarrow>
     (case r of (err, dl, c') \<Rightarrow>
        (case fnArg a of
           None \<Rightarrow> err = None \<and> dl = None \<and> consumed c d c'
         | Some g \<Rightarrow> err = g d \<and> dl = Some d \<and>
             (if g d \<noteq> None \<and> \<not> noFallbackOnError c then same_queue c c' else consumed c d c')))"

lemma handled_trans: "same_queue a b \<Longrightarrow> handled g b d r \<Longrightarrow> handled g a d r"
  using settings_fields(2)[of b a]
  by (auto simp: handled_def same_queue_def keeps_def split: prod.splits option.splits if_splits
      intro: same_queue_trans consumed_trans)

lemma get_record_ok:
  assumes a: "at_record c f off d" and room: "length d \<le> readbuf_len g (length d)"
  shows "handled g c d (get_record g f (off + dataHeaderLen) (length d) (c\<lparr>rfd := Some (f, off + dataHeaderLen)\<rparr>))"
proof -
  let ?n = "dataHeaderLen + length d"
  let ?c0 = "c\<lparr>rfd := Some (f, off + dataHeaderLen)\<rparr>" and ?c1 = "c\<lparr>rfd := Some (f, off + ?n)\<rparr>"
  have inv: "dc_inv c" and r: "rfd c = Some (f, off)" using a by (auto simp: at_record_def)
  have flt: "faults c = []" using inv by (simp add: dc_inv_def sys_inv_def)
  have ri: "read_inv c" using inv by (simp add: dc_inv_def)
  have fc: "fget f c = Some (content f c)"
    using dataFiles_facts(4)[OF inv read_inv_mem[OF ri r]] fget_content[where f = f and c = c] by blast
  obtain t where t: "drop off (content f c) = frame d @ t" using a by (auto simp: at_record_def)
  have "drop (off + dataHeaderLen) (content f c) = d @ t"
    using t drop_drop[of dataHeaderLen off "content f c"] by (simp add: dataHeaderLen_def add.commute)
  then have rd: "fd_read f (off + dataHeaderLen) (length d) ?c0 = (Inr d, ?c0)"
    using flt fc by (simp add: fd_read_def)
  have off1: "set_off (off + dataHeaderLen + length d) ?c0 = ?c1"
    by (simp add: set_off_def add.assoc)
  have bk: "set_off off ?c1 = c" using r by (simp add: set_off_def)
  have sk: "fd_seek (int off) ?c1 = (None, ?c1)" using flt by (simp add: fd_seek_def)
  have pos: "\<exists>c'. get_updatePos (length d) err dl ?c1 = (err, dl, c') \<and> consumed c d c'" for err dl
    by (rule get_updatePos_ok[OF a])
  show ?thesis
  proof (cases "fnArg g")
    case None
    with room rd off1 pos[of None None] show ?thesis
      by (auto simp: get_record_def handled_def Let_def)
  next
    case (Some fn)
    show ?thesis
    proof (cases "fn d \<noteq> None \<and> \<not> noFallbackOnError c")
      case True
      then show ?thesis using Some room rd off1 sk bk same_queue_refl[OF inv]
        by (auto simp: get_record_def handled_def Let_def)
    next
      case False
      then show ?thesis using Some room rd off1 pos[of "fn d" "Some d"]
        by (auto simp: get_record_def handled_def Let_def split: option.splits)
    qed
  qed
qed

subsection \<open>The retry loop\<close>

lemma switchNextFile_off:
  assumes "faults c = []" "rfd c = Some (f, off)" "curReadfile c \<noteq> []"
  shows "switchNextFile (c\<lparr>rfd := Some (f, n)\<rparr>) = switchNextFile c"
proof -
  have "removeCurrentReadingFile (c\<lparr>rfd := Some (f, n)\<rparr>) = removeCurrentReadingFile c"
    using assms by (simp add: removeCurrentReadingFile_def fd_call_def)
  with assms(3) show ?thesis by (simp add: switchNextFile_def)
qed

lemma get_retry_ok:
  assumes "dc_inv c" "rfd c = None \<longrightarrow> dataFiles c = []" "length (dataFiles c) < fuel"
  shows "case pending c of
           [] \<Rightarrow> \<exists>c'. get_retry fuel g c = Some (Some ErrNoData, None, c') \<and> same_queue c c'
         | d # ds \<Rightarrow> length d \<le> readbuf_len g (length d) \<longrightarrow>
                      (\<exists>r. get_retry fuel g c = Some r \<and> handled g c d r)"
  using assms
proof (induction fuel arbitrary: c)
  case 0
  then show ?case by simp
next
  case (Suc fuel)
  note inv = Suc.prems(1)
  have flt: "faults c = []" using inv by (simp add: dc_inv_def sys_inv_def)
  show ?case
  proof (cases "rfd c")
    case None
    with Suc.prems(2) have "pending c = []" by (simp add: pending_def)
    with None same_queue_refl[OF inv] show ?thesis by (simp add: get_fail_def)
  next
    case (Some q)
    obtain f off where r: "rfd c = Some (f, off)" using Some by (cases q) auto
    have ri: "read_inv c" using inv by (simp add: dc_inv_def)
    have fc: "fget f c = Some (content f c)"
      using dataFiles_facts(4)[OF inv read_inv_mem[OF ri r]] fget_content[where f = f and c = c] by blast
    have b: "is_batch (drop off (content f c))" using ri r by (simp add: read_inv_def)
    let ?c0 = "c\<lparr>rfd := Some (f, off + dataHeaderLen)\<rparr>"
    from b show ?thesis
    proof (cases rule: is_batch_cases)
      case ended
      have h: "fd_read f off dataHeaderLen c = (Inr eof_mark, c)"
        using flt fc ended(2) length_eof_mark by (auto simp: fd_read_def dataHeaderLen_def simp del: length_eof_mark)
      have cr: "curReadfile c \<noteq> []"
        using ri r dataFiles_facts(2)[OF inv read_inv_mem[OF ri r]] by (simp add: read_inv_def)
      obtain c' where c': "switchNextFile c = (None, c')" "keeps c c'" "writing c' = writing c"
        "pending c = unframe (drop off (content f c)) @ pending c'"
        "length (dataFiles c') < length (dataFiles c)" "rfd c' = None \<longrightarrow> dataFiles c' = []"
        "pos_disk c \<longrightarrow> pos_disk c'"
        using switchNextFile_next[OF inv r] by (elim exE conjE) (rule that)
      have sq: "same_queue c c'" using c' ended(1) by (simp add: same_queue_def)
      have eq: "get_retry (Suc fuel) g c = get_retry fuel g c'"
        using r h c'(1) switchNextFile_off[OF flt r cr] Uint32_eof_mark[of "[]"]
        by (simp add: set_off_def dataHeaderLen_def)
      have inv': "dc_inv c'" and pq: "pending c' = pending c" using sq by (auto simp: same_queue_def keeps_def)
      from Suc.IH[OF inv' c'(6)] c'(5) Suc.prems(3) show ?thesis
        unfolding eq pq using handled_trans[OF sq] same_queue_trans[OF sq]
        by (auto split: list.splits)
    next
      case (more d t)
      have at: "at_record c f off d" using inv r more by (auto simp: at_record_def)
      have "length (frame d @ t) \<noteq> 0" by simp
      then have ne: "drop off (content f c) \<noteq> []" using more(1) by force
      have tk: "take dataHeaderLen (drop off (content f c)) = PutUint32 (int (length d))"
        using more(1) by (simp add: frame_def dataHeaderLen_def)
      have u: "Uint32 (PutUint32 (int (length d))) = int (length d)" "int (length d) \<noteq> EOFHint"
        using more(2) Uint32_PutUint32[of "int (length d)" "[]"] by (auto simp: rec_ok_def EOFHint_def)
      have eq: "get_retry (Suc fuel) g c = Some (get_record g f (off + dataHeaderLen) (length d) ?c0)"
        using r flt fc ne tk u by (simp add: fd_read_def set_off_def dataHeaderLen_def)
      obtain ds where "pending c = d # ds" using r more(4) by (simp add: pending_def)
      then show ?thesis using eq get_record_ok[OF at] by simp
    qed
  qed
qed

subsection \<open>Get as a whole\<close>

text \<open>
  A call first wakes a write file that has been idle too long: then everything in the cache can be
  read, otherwise only the rotated batches can.
\<close>

definition wakes :: "bool \<Rightarrow> diskcache \<Rightarrow> bool" where
  "wakes wlockFree c \<longleftrightarrow> wlockFree \<and> now c - wfdLastWrite c > wakeup c \<and> curBatchSize c > 0"

definition readable :: "bool \<Rightarrow> diskcache \<Rightarrow> bytes list" where
  "readable wlockFree c = (if wakes wlockFree c then queue c else pending c)"

text \<open>Like \<open>keeps\<close>, but one batch may have been added.\<close>

definition keeps1 :: "diskcache \<Rightarrow> diskcache \<Rightarrow> bool" where
  "keeps1 c c' \<longleftrightarrow> dc_inv c' \<and> settings c' = settings c \<and> dumpCount (cpos c') = dumpCount (cpos c) \<and>
     next_id c' \<le> next_id c + 1 \<and> (size_inv c \<longrightarrow> size_inv c') \<and> (dir_inv c \<longrightarrow> dir_inv c')"

lemma keeps1_keeps: "keeps1 a b \<Longrightarrow> keeps b c \<Longrightarrow> keeps1 a c" and keeps_keeps1: "keeps a b \<Longrightarrow> keeps1 a b"
  by (auto simp: keeps_def keeps1_def)

lemma after_rotate_keeps1:
  assumes inv: "dc_inv c" and nid: "id_ok (next_id c)" and fs: "map_of fs = rotated_files c"
  shows "keeps1 c (after_rotate fs c)" "pos_disk c \<longrightarrow> pos_disk (after_rotate fs c)"
proof -
  let ?c = "after_rotate fs c" and ?n = "next_batch c" and ?d = "curWriteFile c"
  have nd: "?n \<noteq> ?d" using batch_name_neq(1)[OF nid, of "path c"] inv
    by (auto simp: next_batch_def dc_inv_defs)
  have "fget f c = fget f ?c" if "f \<in> set (dataFiles c)" for f
    using rotated_old[OF inv nid that] fs by (simp add: after_rotate_def)
  note bw = batch_weight_cong[OF this]
  have cn: "content ?n ?c = content ?d c @ eof_mark"
    using fs nd by (simp add: after_rotate_def rotated_files_def content_def)
  have "csize ?c = csize c + batch_weight (length (content ?n ?c))"
    unfolding cn by (simp add: after_rotate_def)
  then have sz: "size_inv c \<longrightarrow> size_inv ?c"
    using bw by (simp add: size_inv_def) (simp add: after_rotate_def)
  have ni: "next_id ?c = next_id c + 1"
  proof -
    have "dataFiles ?c = dataFiles c @ [?n]" by (simp add: after_rotate_def)
    then show ?thesis
      using file_id_batch_name[OF nid, of "path c"] by (simp add: next_id_def[of ?c] next_batch_def)
  qed
  have di: "dir_inv c \<longrightarrow> dir_inv ?c"
    using fs nd is_datafile_batch_name[OF nid, of "path c"] not_datafile(1)[OF inv]
    by (auto simp: dir_inv_def after_rotate_def rotated_files_def next_batch_def split: if_splits)
  show "keeps1 c ?c"
    using after_rotate_inv(1)[OF inv nid fs] sz ni di by (simp add: keeps1_def settings_def) (simp add: after_rotate_def)
  have "\<not> noPos c \<Longrightarrow> fget (posfname (cpos c)) ?c = fget (posfname (cpos c)) c"
    using fs write_pos_neq[OF inv] batch_name_neq(2)[OF nid, of "path c"] inv
    by (auto simp: after_rotate_def rotated_files_def dc_inv_def pos_inv_def next_batch_def)
  moreover have "noPos ?c = noPos c" "rfd ?c = rfd c" "cpos ?c = cpos c" by (simp_all add: after_rotate_def)
  ultimately show "pos_disk c \<longrightarrow> pos_disk ?c" by (auto simp: pos_disk_def split: option.splits)
qed

lemma get_wakeup_ok:
  assumes inv: "dc_inv c" and nid: "id_ok (next_id c)"
  shows "\<exists>c1. get_wakeup wl c = (None, c1) \<and> keeps1 c c1 \<and> queue c1 = queue c \<and>
           pending c1 = readable wl c \<and> (pos_disk c \<longrightarrow> pos_disk c1)"
proof (cases "wakes wl c")
  case True
  obtain fs where fs: "rotate_file c = (None, after_rotate fs c)" "map_of fs = rotated_files c"
    using rotate_ok[OF inv nid] by blast
  note ar = after_rotate_inv[OF inv nid fs(2)] after_rotate_keeps1[OF inv nid fs(2)]
  with True fs show ?thesis
    by (intro exI[of _ "after_rotate fs c"]) (simp add: get_wakeup_def wakes_def readable_def queue_def)
next
  case False
  then have "get_wakeup wl c = (None, c)" by (auto simp: get_wakeup_def wakes_def)
  with False inv show ?thesis by (simp add: keeps1_def readable_def)
qed

lemma doGet_ok:
  assumes inv: "dc_inv c" and nid: "id_ok (next_id c)"
  shows "\<exists>c1. keeps1 c c1 \<and> queue c1 = queue c \<and> pending c1 = readable wl c \<and> (pos_disk c \<longrightarrow> pos_disk c1) \<and>
     (case readable wl c of
        [] \<Rightarrow> \<exists>c'. doGet wl g c = Some (Some ErrNoData, None, c') \<and> same_queue c1 c'
      | d # ds \<Rightarrow> length d \<le> readbuf_len g (length d) \<longrightarrow>
                   (\<exists>r. doGet wl g c = Some r \<and> handled g c1 d r))"
proof -
  obtain c1 where c1: "get_wakeup wl c = (None, c1)" "keeps1 c c1" "queue c1 = queue c"
    "pending c1 = readable wl c" "pos_disk c \<longrightarrow> pos_disk c1"
    using get_wakeup_ok[OF assms, of wl] by (elim exE conjE) (rule that)
  have inv1: "dc_inv c1" using c1(2) by (simp add: keeps1_def)
  have ncl: "\<not> closed c" using inv by (simp add: dc_inv_def)
  have "\<exists>c2. (if rfd c1 = None then wrapE (WrapGetError (path c1) []) (switchNextFile c1) else okE c1) = (None, c2) \<and>
          same_queue c1 c2 \<and> (rfd c2 = None \<longrightarrow> dataFiles c2 = [])"
  proof (cases "rfd c1")
    case None
    obtain c2 where c2: "doSwitchNextFile c1 = (None, c2)" "keeps c1 c2" "writing c2 = writing c1"
      "pending c2 = pending c1" "dataFiles c2 = dataFiles c1" "rfd c2 = None \<longrightarrow> dataFiles c2 = []"
      "\<not> noPos c1 \<longrightarrow> pos_quiet c1 \<longrightarrow> pos_disk c2"
      using switch_open_ok[OF inv1 None] by (elim exE conjE) (rule that)
    have "pos_disk c1 \<longrightarrow> pos_disk c2"
      using c2(2,7) pos_disk_quiet[of c1] settings_fields(1)[of c2 c1]
      by (cases "noPos c1") (simp_all add: keeps_def pos_disk_def[of c2])
    with None c2 switchNextFile_start[OF inv1 None] show ?thesis
      by (intro exI[of _ c2]) (simp add: same_queue_def)
  next
    case (Some q)
    with same_queue_refl[OF inv1] show ?thesis by simp
  qed
  then obtain c2 where c2: "(if rfd c1 = None then wrapE (WrapGetError (path c1) []) (switchNextFile c1)
      else okE c1) = (None, c2)" "same_queue c1 c2" "rfd c2 = None \<longrightarrow> dataFiles c2 = []"
    by (elim exE conjE) (rule that)
  have eq: "doGet wl g c = get_retry (length (dataFiles c2) + 2) g c2"
    using ncl c1(1) c2(1) by (simp add: doGet_def)
  have inv2: "dc_inv c2" and pq: "pending c2 = readable wl c"
    using c2(2) c1(4) by (auto simp: same_queue_def keeps_def)
  have gr: "case readable wl c of
           [] \<Rightarrow> \<exists>c'. doGet wl g c = Some (Some ErrNoData, None, c') \<and> same_queue c2 c'
         | d # ds \<Rightarrow> length d \<le> readbuf_len g (length d) \<longrightarrow>
                      (\<exists>r. doGet wl g c = Some r \<and> handled g c2 d r)"
    unfolding eq pq[symmetric] by (rule get_retry_ok[OF inv2 c2(3)]) simp
  then have "case readable wl c of
        [] \<Rightarrow> \<exists>c'. doGet wl g c = Some (Some ErrNoData, None, c') \<and> same_queue c1 c'
      | d # ds \<Rightarrow> length d \<le> readbuf_len g (length d) \<longrightarrow>
                   (\<exists>r. doGet wl g c = Some r \<and> handled g c1 d r)"
    using handled_trans[OF c2(2)] same_queue_trans[OF c2(2)] by (auto split: list.splits)
  with c1 show ?thesis by blast
qed

end
