(* ===== verification/Diskcache_Queue.thy ===== *)
theory Diskcache_Queue
  imports Diskcache_Get
begin

section \<open>Disk cache: a first-in first-out queue\<close>

text \<open>
  The contract of the cache as a locale: a state has items, \<open>put\<close> adds one at the end, \<open>get\<close> takes
  the first one or finds nothing yet, time may pass.  From the contract alone, any sequence of
  operations hands out exactly what was there and what was put, in order.  The disk cache is an
  instance: its items are the decoded records of its files.

  \<open>spare\<close> bounds how many more batches can be numbered (batch numbers are 64-bit); an operation
  uses up at most one.
\<close>

datatype 'a qop = QPut 'a | QGet | QIdle nat

fun run_queue ::
  "('a \<Rightarrow> 's \<Rightarrow> 's option) \<Rightarrow> ('s \<Rightarrow> ('a option \<times> 's) option) \<Rightarrow> (nat \<Rightarrow> 's \<Rightarrow> 's) \<Rightarrow>
   'a qop list \<Rightarrow> 's \<Rightarrow> ('a list \<times> 's) option" where
  "run_queue put get idle [] s = Some ([], s)"
| "run_queue put get idle (QPut x # ops) s =
     (case put x s of None \<Rightarrow> None | Some s1 \<Rightarrow> run_queue put get idle ops s1)"
| "run_queue put get idle (QIdle n # ops) s = run_queue put get idle ops (idle n s)"
| "run_queue put get idle (QGet # ops) s =
     (case get s of
        None \<Rightarrow> None
      | Some (out, s1) \<Rightarrow>
          map_option (\<lambda>(outs, t). (case out of None \<Rightarrow> outs | Some x \<Rightarrow> x # outs, t))
            (run_queue put get idle ops s1))"

fun puts :: "'a qop list \<Rightarrow> 'a list" where
  "puts [] = []"
| "puts (QPut x # ops) = x # puts ops"
| "puts (_ # ops) = puts ops"

locale fifo_queue =
  fixes inv :: "'s \<Rightarrow> bool"
    and items :: "'s \<Rightarrow> 'a list"
    and ok :: "'a \<Rightarrow> 's \<Rightarrow> bool"
    and spare :: "'s \<Rightarrow> int"
    and put :: "'a \<Rightarrow> 's \<Rightarrow> 's option"
    and get :: "'s \<Rightarrow> ('a option \<times> 's) option"
    and idle :: "nat \<Rightarrow> 's \<Rightarrow> 's"
  assumes put_law: "\<lbrakk>inv s; ok x s; 0 < spare s\<rbrakk> \<Longrightarrow>
      \<exists>s'. put x s = Some s' \<and> inv s' \<and> items s' = items s @ [x] \<and> spare s - 1 \<le> spare s' \<and>
           (\<forall>y. ok y s' = ok y s)"
    and get_law: "\<lbrakk>inv s; 0 < spare s\<rbrakk> \<Longrightarrow>
      \<exists>out s'. get s = Some (out, s') \<and> inv s' \<and> spare s - 1 \<le> spare s' \<and> (\<forall>y. ok y s' = ok y s) \<and>
           items s = (case out of None \<Rightarrow> [] | Some x \<Rightarrow> [x]) @ items s'"
    and idle_law: "inv s \<Longrightarrow> inv (idle n s) \<and> items (idle n s) = items s \<and> spare (idle n s) = spare s \<and>
           (\<forall>y. ok y (idle n s) = ok y s)"
begin

lemma run_fifo:
  assumes "inv s" "\<And>x. x \<in> set (puts ops) \<Longrightarrow> ok x s" "int (length ops) \<le> spare s"
  shows "\<exists>outs s'. run_queue put get idle ops s = Some (outs, s') \<and> inv s' \<and>
           outs @ items s' = items s @ puts ops"
  using assms
proof (induction ops arbitrary: s)
  case Nil
  then show ?case by simp
next
  case (Cons op ops)
  then have sp: "0 < spare s" by simp
  show ?case
  proof (cases op)
    case (QPut x)
    have "ok x s" using Cons.prems(2) QPut by simp
    then obtain s1 where s1: "put x s = Some s1" "inv s1" "items s1 = items s @ [x]"
      "spare s - 1 \<le> spare s1" "\<forall>y. ok y s1 = ok y s"
      using put_law[OF Cons.prems(1) _ sp] by blast
    with Cons.prems QPut have "\<exists>outs s'. run_queue put get idle ops s1 = Some (outs, s') \<and> inv s' \<and>
        outs @ items s' = items s1 @ puts ops"
      by (intro Cons.IH) auto
    with s1 QPut show ?thesis by auto
  next
    case QGet
    obtain out s1 where s1: "get s = Some (out, s1)" "inv s1" "spare s - 1 \<le> spare s1"
      "\<forall>y. ok y s1 = ok y s" "items s = (case out of None \<Rightarrow> [] | Some x \<Rightarrow> [x]) @ items s1"
      using get_law[OF Cons.prems(1) sp] by blast
    with Cons.prems QGet have "\<exists>outs s'. run_queue put get idle ops s1 = Some (outs, s') \<and> inv s' \<and>
        outs @ items s' = items s1 @ puts ops"
      by (intro Cons.IH) auto
    with s1 QGet show ?thesis by (auto split: option.splits)
  next
    case (QIdle n)
    with Cons.prems idle_law[of s n] have "\<exists>outs s'. run_queue put get idle ops (idle n s) = Some (outs, s') \<and>
        inv s' \<and> outs @ items s' = items (idle n s) @ puts ops"
      by (intro Cons.IH) auto
    with QIdle idle_law[OF Cons.prems(1)] show ?thesis by simp
  qed
qed

text \<open>Nothing is handed out twice, reordered or made up: the outputs are a prefix of the inputs.\<close>

lemma run_prefix:
  assumes "inv s" "\<And>x. x \<in> set (puts ops) \<Longrightarrow> ok x s" "int (length ops) \<le> spare s"
    "run_queue put get idle ops s = Some (outs, s')"
  shows "take (length outs) (items s @ puts ops) = outs"
  using run_fifo[OF assms(1-3)] assms(4) by (metis append_eq_conv_conj option.inject prod.inject)

end

text \<open>
  A queue whose \<open>get\<close> may find nothing although items are there (they are in the write file) still
  drains once it is ready.
\<close>

locale draining_queue = fifo_queue +
  fixes ready
  assumes ready_get: "\<lbrakk>inv s; ready s; 0 < spare s\<rbrakk> \<Longrightarrow>
      \<exists>s'. get s = Some (case items s of [] \<Rightarrow> None | x # xs \<Rightarrow> Some x, s') \<and> inv s' \<and> ready s' \<and>
           spare s - 1 \<le> spare s' \<and> items s' = tl (items s)"
begin

lemma drain:
  assumes "inv s" "ready s" "length (items s) \<le> n" "int n \<le> spare s"
  shows "\<exists>s'. run_queue put get idle (replicate n QGet) s = Some (items s, s') \<and> inv s' \<and> items s' = []"
  using assms
proof (induction n arbitrary: s)
  case 0
  then show ?case by simp
next
  case (Suc n)
  obtain s1 where s1: "get s = Some (case items s of [] \<Rightarrow> None | x # xs \<Rightarrow> Some x, s1)" "inv s1" "ready s1"
    "spare s - 1 \<le> spare s1" "items s1 = tl (items s)"
    using ready_get[OF Suc.prems(1,2)] Suc.prems(4) by auto
  have "\<exists>s'. run_queue put get idle (replicate n QGet) s1 = Some (items s1, s') \<and> inv s' \<and> items s' = []"
    using s1 Suc.prems by (intro Suc.IH) auto
  with s1 show ?case by (cases "items s") auto
qed

end

subsection \<open>The cache is such a queue\<close>

definition dc_put :: "bytes \<Rightarrow> diskcache \<Rightarrow> diskcache option" where
  "dc_put d c = (case Put d c of (None, c') \<Rightarrow> Some c' | (Some e, c') \<Rightarrow> None)"

definition dc_get :: "diskcache \<Rightarrow> (bytes option \<times> diskcache) option" where
  "dc_get c =
     (case Get True (Some (\<lambda>d. None)) c of
        None \<Rightarrow> None
      | Some (None, out, c') \<Rightarrow> Some (out, c')
      | Some (Some e, out, c') \<Rightarrow> (if e = ErrNoData then Some (None, c') else None))"

definition dc_idle :: "nat \<Rightarrow> diskcache \<Rightarrow> diskcache" where
  "dc_idle n c = c\<lparr>now := now c + int n\<rparr>"

definition dc_ok :: "bytes \<Rightarrow> diskcache \<Rightarrow> bool" where
  "dc_ok d c \<longleftrightarrow> capacity c \<le> 0 \<and> rec_ok d \<and> fits d c"

definition dc_spare :: "diskcache \<Rightarrow> int" where
  "dc_spare c = 2 ^ 63 - 1 - next_id c"

lemma spare_id_ok: "dc_inv c \<Longrightarrow> 0 \<le> dc_spare c \<Longrightarrow> id_ok (next_id c)"
  using next_id_nonneg[of c] by (simp add: dc_spare_def id_ok_def)

lemma dc_ok_cfg: "settings c' = settings c \<Longrightarrow> dc_ok d c' = dc_ok d c"
  by (simp add: dc_ok_def settings_def fits_def)

lemma after_put_cfg [simp]: "settings (after_put fs d c) = settings c" "next_id (after_put fs d c) = next_id c"
  by (simp_all add: settings_def next_id_def after_put_def)

lemma after_rotate_cfg [simp]: "settings (after_rotate fs c) = settings c"
  by (simp add: settings_def after_rotate_def)

lemma after_put_keeps:
  assumes inv: "dc_inv c" and d: "rec_ok data" and fs: "map_of fs = put_files data c"
  shows "keeps c (after_put fs data c)" "pos_disk c \<longrightarrow> pos_disk (after_put fs data c)"
proof -
  let ?c = "after_put fs data c"
  have "fget f c = fget f ?c" if "f \<in> set (dataFiles c)" for f
    using dataFiles_facts(1)[OF inv that] fs by (simp add: after_put_def put_files_def)
  note bw = batch_weight_cong[OF this]
  have "size_inv c \<longrightarrow> size_inv ?c" using bw by (simp add: size_inv_def) (simp add: after_put_def)
  moreover have "dumpCount (cpos ?c) = dumpCount (cpos c)" by (simp add: after_put_def)
  moreover have "dir_inv ?c = dir_inv c"
    using fs not_datafile(1)[OF inv] by (intro dir_inv_cong) (auto simp: after_put_def put_files_def)
  ultimately show "keeps c ?c" using after_put_inv(1)[OF inv d fs] by (simp add: keeps_def)
  have "\<not> noPos c \<Longrightarrow> fget (posfname (cpos c)) ?c = fget (posfname (cpos c)) c"
    using write_pos_neq[OF inv] fs by (auto simp: after_put_def put_files_def)
  moreover have "noPos ?c = noPos c" "rfd ?c = rfd c" "cpos ?c = cpos c" by (simp_all add: after_put_def)
  ultimately show "pos_disk c \<longrightarrow> pos_disk ?c" by (auto simp: pos_disk_def split: option.splits)
qed

lemma put_append_keeps:
  assumes inv: "dc_inv c" and d: "rec_ok data" and fit: "fits data c" and nid: "id_ok (next_id c)"
  shows "\<exists>c'. put_append data c = (None, c') \<and> keeps1 c c' \<and> queue c' = queue c @ [data] \<and>
           (pending c' = pending c \<or> writing c' = []) \<and> (pos_disk c \<longrightarrow> pos_disk c')"
proof -
  have ncl: "\<not> closed c" and w: "wfd c = Some (curWriteFile c)"
    using inv unfolding dc_inv_def write_inv_def by blast+
  obtain fs where pw: "put_write data c = (None, after_put fs data c)" "map_of fs = put_files data c"
    using put_write_ok[OF inv, of data] by blast
  let ?c = "after_put fs data c"
  note ap = after_put_inv[OF inv d pw(2)] after_put_keeps[OF inv d pw(2)]
  have eq: "put_append data c = (if curBatchSize ?c \<ge> batchSize ?c then wrapE (WrapPutError (path ?c)) (rotate_file ?c)
            else (None, ?c))"
    using fit by (auto simp: put_append_def ensureWriteFile_ok[OF ncl w] pw fits_def)
  have nid': "id_ok (next_id ?c)" using nid by simp
  show ?thesis
  proof (cases "curBatchSize ?c \<ge> batchSize ?c")
    case True
    obtain gs where r: "rotate_file ?c = (None, after_rotate gs ?c)" "map_of gs = rotated_files ?c"
      using rotate_ok[OF ap(1) nid'] by blast
    note ar = after_rotate_inv[OF ap(1) nid' r(2)] after_rotate_keeps1[OF ap(1) nid' r(2)]
    have "keeps1 c (after_rotate gs ?c)" using ap(4) ar(4) by (auto simp: keeps_def keeps1_def)
    with True eq r ar ap show ?thesis by (simp add: queue_def)
  next
    case False
    with eq ap keeps_keeps1[OF ap(4)] show ?thesis by (simp add: queue_def)
  qed
qed

lemma Put_keeps:
  assumes inv: "dc_inv c" and d: "rec_ok data" and full: "\<not> IsFull data c" and fit: "fits data c"
    and nid: "id_ok (next_id c)"
  shows "\<exists>c'. Put data c = (None, c') \<and> keeps1 c c' \<and> queue c' = queue c @ [data] \<and>
           (pending c' = pending c \<or> writing c' = []) \<and> (pos_disk c \<longrightarrow> pos_disk c')"
proof -
  have "\<not> closed c" using inv by (simp add: dc_inv_def)
  then have "Put data c = put_append data c" using full by (simp add: Put_def put_make_room_def)
  then show ?thesis using put_append_keeps[OF inv d fit nid] by simp
qed

lemma dc_idle_inv:
  assumes "dc_inv c"
  shows "dc_inv (dc_idle n c)" "queue (dc_idle n c) = queue c" "next_id (dc_idle n c) = next_id c"
    "settings (dc_idle n c) = settings c" "pending (dc_idle n c) = pending c" "writing (dc_idle n c) = writing c"
proof -
  have b: "batch (dc_idle n c) = batch c" and ct: "content f (dc_idle n c) = content f c" for f
    by (auto simp: batch_def content_def dc_idle_def)
  have "dataFiles (dc_idle n c) = dataFiles c" "rfd (dc_idle n c) = rfd c" "curWriteFile (dc_idle n c) = curWriteFile c"
    by (simp_all add: dc_idle_def)
  then show "pending (dc_idle n c) = pending c" "writing (dc_idle n c) = writing c"
    by (simp_all add: pending_def writing_def b ct split: option.split)
  then show "queue (dc_idle n c) = queue c" by (simp add: queue_def)
  have "read_inv (dc_idle n c) = read_inv c"
    by (simp add: read_inv_def ct split: option.split prod.split) (simp add: dc_idle_def)
  then show "dc_inv (dc_idle n c)" using assms
    by (simp add: dc_inv_def sys_inv_def names_inv_def files_inv_def write_inv_def pos_inv_def ct)
      (simp add: dc_idle_def)
  show "next_id (dc_idle n c) = next_id c" "settings (dc_idle n c) = settings c"
    by (simp_all add: next_id_def settings_def dc_idle_def)
qed

text \<open>A \<open>Get\<close> that succeeds on whatever it is given, by what there is to read.\<close>

lemma dc_get_ok:
  assumes inv: "dc_inv c" and nid: "id_ok (next_id c)"
  shows "\<exists>c'. dc_get c = Some (case readable True c of [] \<Rightarrow> None | d # ds \<Rightarrow> Some d, c') \<and> keeps1 c c' \<and>
           queue c = (case readable True c of [] \<Rightarrow> [] | d # ds \<Rightarrow> [d]) @ queue c' \<and>
           (readable True c = queue c \<longrightarrow> writing c' = []) \<and>
           (pos_disk c \<longrightarrow> dumpCount (cpos c) = 0 \<longrightarrow> [] \<notin> set (queue c) \<longrightarrow> pos_disk c')"
proof -
  let ?g = "\<lparr>bufLen = None, bfnLen = None, fnArg = Some (\<lambda>d. None)\<rparr> :: get_args"
  obtain c1 where c1: "keeps1 c c1" "queue c1 = queue c" "pending c1 = readable True c"
    "pos_disk c \<longrightarrow> pos_disk c1"
    and g: "case readable True c of
        [] \<Rightarrow> \<exists>c'. doGet True ?g c = Some (Some ErrNoData, None, c') \<and> same_queue c1 c'
      | d # ds \<Rightarrow> length d \<le> readbuf_len ?g (length d) \<longrightarrow>
                   (\<exists>r. doGet True ?g c = Some r \<and> handled ?g c1 d r)"
    using doGet_ok[OF inv nid, of True ?g] by (elim exE conjE) (rule that)
  have w1: "readable True c = queue c \<longrightarrow> writing c1 = []"
    using c1(2,3) by (auto simp: queue_def[of c1])
  show ?thesis
  proof (cases "readable True c")
    case Nil
    then obtain c' where c': "doGet True ?g c = Some (Some ErrNoData, None, c')" "same_queue c1 c'"
      using g by auto
    have "queue c = queue c'" using c'(2) c1(2) by (simp add: same_queue_def queue_def)
    with Nil c' c1 w1 keeps1_keeps[OF c1(1)] show ?thesis
      by (intro exI[of _ c']) (auto simp: dc_get_def Get_def same_queue_def)
  next
    case (Cons d ds)
    then obtain r where r: "doGet True ?g c = Some r" "handled ?g c1 d r"
      using g by (auto simp: readbuf_len_def)
    obtain e dl c' where rr: "r = (e, dl, c')" by (cases r) auto
    with r(2) have h: "e = None" "dl = Some d" "consumed c1 d c'" by (auto simp: handled_def)
    have q: "queue c = d # queue c'" using h(3) c1(2) by (simp add: consumed_def queue_def)
    have "dumpCount (cpos c1) = dumpCount (cpos c)" using c1(1) by (simp add: keeps1_def)
    then have "pos_disk c \<longrightarrow> dumpCount (cpos c) = 0 \<longrightarrow> [] \<notin> set (queue c) \<longrightarrow> pos_disk c'"
      using h(3) c1(4) q by (auto simp: consumed_def)
    with Cons r rr h q c1 w1 keeps1_keeps[OF c1(1)] show ?thesis
      by (intro exI[of _ c']) (auto simp: dc_get_def Get_def consumed_def)
  qed
qed

interpretation dcq: fifo_queue dc_inv queue dc_ok dc_spare dc_put dc_get dc_idle
proof (unfold_locales, goal_cases)
  case (1 c d)
  have nid: "id_ok (next_id c)" using 1 by (intro spare_id_ok) simp_all
  have "\<not> IsFull d c" "rec_ok d" "fits d c" using 1(2) by (simp_all add: dc_ok_def IsFull_def)
  then obtain c' where c': "Put d c = (None, c')" "keeps1 c c'" "queue c' = queue c @ [d]"
    using Put_keeps[OF 1(1) _ _ _ nid] by blast
  then show ?case
    using dc_ok_cfg[of c' c] by (intro exI[of _ c']) (simp add: dc_put_def keeps1_def dc_spare_def)
next
  case (2 c)
  have nid: "id_ok (next_id c)" using 2 by (intro spare_id_ok) simp_all
  obtain c' where c': "dc_get c = Some (case readable True c of [] \<Rightarrow> None | d # ds \<Rightarrow> Some d, c')"
    "keeps1 c c'" "queue c = (case readable True c of [] \<Rightarrow> [] | d # ds \<Rightarrow> [d]) @ queue c'"
    using dc_get_ok[OF 2(1) nid] by blast
  then show ?case
    using dc_ok_cfg[of c' c]
    by (intro exI[of _ "case readable True c of [] \<Rightarrow> None | d # ds \<Rightarrow> Some d"] exI[of _ c'])
      (auto simp: keeps1_def dc_spare_def split: list.splits)
next
  case (3 c n)
  then show ?case using dc_ok_cfg[OF dc_idle_inv(4)[OF 3]] dc_idle_inv[OF 3] by (simp add: dc_spare_def)
qed

text \<open>The cache is ready when its write file is empty or old enough to be woken.\<close>

definition dc_ready :: "diskcache \<Rightarrow> bool" where
  "dc_ready c \<longleftrightarrow> readable True c = queue c"

interpretation dcr: draining_queue dc_inv queue dc_ok dc_spare dc_put dc_get dc_idle dc_ready
proof (unfold_locales, goal_cases)
  case (1 c)
  have nid: "id_ok (next_id c)" using 1 by (intro spare_id_ok) simp_all
  have rd: "readable True c = queue c" using 1(2) by (simp add: dc_ready_def)
  obtain c' where c': "dc_get c = Some (case queue c of [] \<Rightarrow> None | d # ds \<Rightarrow> Some d, c')"
    "keeps1 c c'" "queue c = (case queue c of [] \<Rightarrow> [] | d # ds \<Rightarrow> [d]) @ queue c'" "writing c' = []"
    using dc_get_ok[OF 1(1) nid] unfolding rd by blast
  have "dc_ready c'" using c'(4) by (simp add: dc_ready_def readable_def queue_def)
  with c' show ?case
    by (intro exI[of _ c']) (auto simp: keeps1_def dc_spare_def split: list.splits)
qed

lemma ready_after_idle:
  assumes inv: "dc_inv c" and n: "wakeup c < now c + int n - wfdLastWrite c"
  shows "dc_ready (dc_idle n c)"
proof -
  have f: "curBatchSize (dc_idle n c) = curBatchSize c" "now (dc_idle n c) = now c + int n"
    "wfdLastWrite (dc_idle n c) = wfdLastWrite c" "wakeup (dc_idle n c) = wakeup c"
    by (simp_all add: dc_idle_def)
  have "writing c = []" if "\<not> curBatchSize c > 0"
    using inv that by (simp add: dc_inv_def write_inv_def writing_def batch_def)
  then show ?thesis
    using n dc_idle_inv[OF inv, of n] by (auto simp: dc_ready_def readable_def wakes_def queue_def f)
qed

end
