(* ===== verification/Diskcache_Restart.thy ===== *)
theory Diskcache_Restart
  imports Diskcache_Queue
begin

section \<open>Disk cache: opening a directory recovers its queue\<close>

text \<open>
  \<open>disk_queue p w\<close> is the queue a directory holds before any cache is open on it: the rest of the
  batch \<open>.pos\<close> points into, the other batches by number, the unrotated write file.  Opening the
  directory gives a cache with this queue.
\<close>

definition disk_batches :: "string \<Rightarrow> 'a os_scheme \<Rightarrow> string list" where
  "disk_batches p w = filter is_datafile (walk_files p w)"

definition disk_reader :: "string \<Rightarrow> 'a os_scheme \<Rightarrow> (string \<times> nat) option" where
  "disk_reader p w =
     (case fget (Join p ''.pos'') w of
        None \<Rightarrow> None
      | Some bs \<Rightarrow> if length bs \<le> 8 then None else Some (drop 8 bs, nat (Int64 bs)))"

definition disk_queue :: "string \<Rightarrow> 'a os_scheme \<Rightarrow> bytes list" where
  "disk_queue p w =
     (case disk_reader p w of
        None \<Rightarrow> concat (map (batch w) (disk_batches p w))
      | Some (f, off) \<Rightarrow> unframe (drop off (content f w)) @ concat (map (batch w) (tl (disk_batches p w))))
     @ batch w (Join p ''data'')"

definition disk_ok :: "string \<Rightarrow> 'a os_scheme \<Rightarrow> bool" where
  "disk_ok p w \<longleftrightarrow> faults w = [] \<and> p \<noteq> [] \<and> (p \<in> set (dirs w) \<or> fget p w = None) \<and>
     (\<forall>d \<in> set (p # dirs w). \<forall>n. plain_name n \<longrightarrow> d \<noteq> Join p n) \<and>
     newFlock p \<notin> set (flocks w) \<and>
     (\<forall>f \<in> set (disk_batches p w). id_ok (file_id f) \<and> f = batch_name p (file_id f) \<and> is_batch (content f w)) \<and>
     is_open_batch (content (Join p ''data'') w) \<and>
     (case disk_reader p w of
        None \<Rightarrow> True
      | Some (f, off) \<Rightarrow> disk_batches p w \<noteq> [] \<and> hd (disk_batches p w) = f \<and>
          is_batch (drop off (content f w)) \<and> 0 \<le> Int64 (content (Join p ''.pos'') w))"

lemma disk_batches_props:
  "set (disk_batches p w) = {f. in_dir p f \<and> fget f w \<noteq> None \<and> is_datafile f}"
  "sorted_wrt (<) (disk_batches p w)"
  using walk_files_props[of p w]
  by (auto simp: disk_batches_def strict_sorted_iff sorted_wrt_filter simp del: not_None_eq)

lemma strict_sorted_unique:
  "sorted_wrt (<) (xs :: string list) \<Longrightarrow> sorted_wrt (<) ys \<Longrightarrow> set xs = set ys \<Longrightarrow> xs = ys"
  by (simp add: strict_sorted_iff sorted_distinct_set_unique)

lemma disk_batches_cong:
  assumes "\<And>f. is_datafile f \<Longrightarrow> fget f w = fget f w'"
  shows "disk_batches p w = disk_batches p w'"
  by (rule strict_sorted_unique[OF disk_batches_props(2) disk_batches_props(2)])
    (use assms in \<open>auto simp: disk_batches_props(1)\<close>)

lemma newFlock_Join: "newFlock p = Join p ''.lock''"
  by (simp add: newFlock_def Clean_Join_plain)

lemma not_datafile_special:
  "\<not> is_datafile (Join p ''data'')" "\<not> is_datafile (Join p ''.pos'')" "\<not> is_datafile (Join p ''.lock'')"
  by (simp_all add: is_datafile_def Base_Join_plain)

lemma special_distinct:
  "Join p ''.lock'' \<noteq> Join p ''data''" "Join p ''.lock'' \<noteq> Join p ''.pos''"
  by (simp_all add: Join_plain_inject)

subsection \<open>The steps of doOpen\<close>

lemma syncEnv_unset [simp]: "syncEnv pd (\<lambda>k. None) c = c"
  by (simp add: syncEnv_def env_int_def env_set_def)

lemma open_lock_ok:
  assumes "faults c = []" "newFlock (path c) \<notin> set (dirs c)" "newFlock (path c) \<notin> set (flocks c)"
  shows "\<exists>fs fl cf. open_lock c = (None, c\<lparr>files := fs, flocks := fl, cflock := cf\<rparr>) \<and>
           (\<forall>f. f \<noteq> newFlock (path c) \<longrightarrow> map_of fs f = fget f c)"
proof (cases "noLock c")
  case True
  then show ?thesis
    by (intro exI[of _ "files c"] exI[of _ "flocks c"] exI[of _ "cflock c"]) (simp add: open_lock_def)
next
  case False
  let ?lf = "newFlock (path c)"
  define gs where "gs = (if fget ?lf c = None then AList.update ?lf [] (files c) else files c)"
  have "os_open_append ?lf c = (None, c\<lparr>files := gs\<rparr>)"
    using assms by (simp add: os_open_append_def gs_def split: option.splits)
  with False assms have "open_lock c = (None, c\<lparr>files := gs, flocks := ?lf # flocks c, cflock := Some ?lf\<rparr>)"
    by (simp add: open_lock_def tryLock_def sys_flock_def Let_def)
  moreover have "\<forall>f. f \<noteq> ?lf \<longrightarrow> map_of gs f = fget f c" by (simp add: gs_def)
  ultimately show ?thesis by blast
qed

lemma open_walk_ok:
  assumes "faults c = []" "dataFiles c = []"
  shows "open_walk c = (None, c\<lparr>csize := csize c + (\<Sum>f \<leftarrow> disk_batches (path c) c. int (length (content f c))),
           dataFiles := disk_batches (path c) c\<rparr>)"
proof -
  have "the (fget f c) = content f c" if "f \<in> set (disk_batches (path c) c)" for f
    using that by (auto simp: disk_batches_props(1) content_def)
  then have "map (\<lambda>f. int (length (the (fget f c)))) (disk_batches (path c) c) =
      map (\<lambda>f. int (length (content f c))) (disk_batches (path c) c)" by simp
  moreover have "sort (disk_batches (path c) c) = disk_batches (path c) c"
    using disk_batches_props(2) strict_sorted_imp_sorted sorted_sort_id by blast
  ultimately show ?thesis
    using assms by (simp add: open_walk_def fd_call_def disk_batches_def[symmetric] Let_def cong: map_cong)
qed

lemma loadUnfinishedFile_ok:
  assumes flt: "faults c = []" and pf: "Clean (posfname (cpos c)) = posfname (cpos c)"
    and nd: "posfname (cpos c) \<notin> set (dirs c)"
    and rd: "rdr = (case fget (posfname (cpos c)) c of None \<Rightarrow> None
               | Some bs \<Rightarrow> if length bs \<le> 8 then None else Some (drop 8 bs, nat (Int64 bs)))"
    and ok: "\<And>f off. rdr = Some (f, off) \<Longrightarrow> fget f c \<noteq> None \<and> f \<notin> set (dirs c) \<and>
               0 \<le> Int64 (content (posfname (cpos c)) c)"
  shows "loadUnfinishedFile c =
           (None, case rdr of
              None \<Rightarrow> c
            | Some (f, off) \<Rightarrow> c\<lparr>rfd := Some (f, off), curReadfile := f,
                  cpos := (cpos c)\<lparr>Name := Some f, Seek := int off\<rparr>\<rparr>)"
proof (cases "fget (posfname (cpos c)) c")
  case None
  with assms show ?thesis by (simp add: loadUnfinishedFile_def os_defs)
next
  case (Some bs)
  show ?thesis
  proof (cases "length bs \<le> 8")
    case True
    with Some assms show ?thesis by (simp add: loadUnfinishedFile_def os_defs posFromFile_def)
  next
    case False
    then have r: "rdr = Some (drop 8 bs, nat (Int64 bs))" using rd Some by simp
    then have f: "fget (drop 8 bs) c \<noteq> None" "drop 8 bs \<notin> set (dirs c)" "0 \<le> Int64 bs"
      using ok Some by (auto simp: content_def)
    then obtain x where "fget (drop 8 bs) c = Some x" by blast
    with f False Some r flt nd pf show ?thesis
      by (simp add: loadUnfinishedFile_def os_defs posFromFile_def UnmarshalBinary_def Let_def)
  qed
qed

lemma PutInt64_Int64: 
  assumes "8 \<le> length bs"
  shows "PutInt64 (Int64 bs) = take 8 bs"
proof -
  let ?n = "le_get (take 8 bs)"
  have l: "length (take 8 bs) = 8" using assms by simp
  have "?n < 256 ^ 8" using le_get_bound[of "take 8 bs"] l by simp
  then have "int ?n < 2 ^ 64" by simp
  then have "Int64 bs mod 2 ^ 64 = int ?n"
    by (simp add: Int64_def to_i64_def mod_simps)
  then have "PutInt64 (Int64 bs) = le_put 8 ?n" by (simp add: PutInt64_def)
  also have "\<dots> = take 8 bs" using le_put_le_get[of "take 8 bs"] l by simp
  finally show ?thesis .
qed

subsection \<open>Open recovers\<close>

text \<open>An instance as \<open>Open\<close> hands it to \<open>doOpen\<close>: nothing opened yet.\<close>

definition fresh :: "diskcache \<Rightarrow> bool" where
  "fresh c \<longleftrightarrow> dataFiles c = [] \<and> \<not> closed c \<and> wfd c = None \<and> rfd c = None \<and> curReadfile c = [] \<and>
     csize c = 0 \<and> \<not> posfd (cpos c) \<and> \<not> noPos c"

text \<open>The state after the write file was opened, and after the directory was listed.\<close>

definition opened :: "diskcache \<Rightarrow> diskcache \<Rightarrow> bool" where
  "opened c0 c \<longleftrightarrow>
     path c = path c0 \<and> faults c = [] \<and> dirs c = List.insert (path c0) (dirs c0) \<and>
     rfd c = None \<and> curReadfile c = [] \<and>
     \<not> closed c \<and> \<not> noPos c \<and> curWriteFile c = Join (path c0) ''data'' \<and>
     wfd c = Some (curWriteFile c) \<and> \<not> posfd (cpos c) \<and> posfname (cpos c) = Join (path c0) ''.pos'' \<and>
     curBatchSize c = int (length (content (curWriteFile c) c)) \<and>
     fget (curWriteFile c) c = Some (content (Join (path c0) ''data'') c0) \<and>
     dumpCount (cpos c) = dumpCount (cpos c0) \<and>
     (\<forall>f. f \<noteq> Join (path c0) ''.lock'' \<longrightarrow> f \<noteq> Join (path c0) ''data'' \<longrightarrow> fget f c = fget f c0)"

definition listed :: "diskcache \<Rightarrow> diskcache \<Rightarrow> bool" where
  "listed c0 c \<longleftrightarrow> opened c0 c \<and> dataFiles c = disk_batches (path c0) c0 \<and>
     csize c = (\<Sum>f \<leftarrow> disk_batches (path c0) c0. int (length (content f c0)))"

lemmas listed_defs = listed_def opened_def

lemma doOpen_opened:
  assumes ok: "disk_ok (path c0) c0" and fr: "fresh c0"
  shows "\<exists>c. doOpen pd (\<lambda>k. None) c0 =
             bindE (open_walk c) (\<lambda>c. if noPos c then okE c
               else wrapE (\<lambda>e. WithPath (path c) (NewCacheError OpOpen e)) (loadUnfinishedFile c)) \<and>
           opened c0 c \<and> dataFiles c = [] \<and> csize c = 0"
proof -
  let ?p = "path c0"
  let ?data = "Join ?p ''data''" and ?lf = "Join ?p ''.lock''"
  define c1 where "c1 = open_defaults c0"
  have c1: "path c1 = ?p" "files c1 = files c0" "dirs c1 = dirs c0" "flocks c1 = flocks c0" "faults c1 = []"
    "fresh c1" "cpos c1 = cpos c0"
    using ok fr by (auto simp: c1_def open_defaults_def disk_ok_def fresh_def Let_def)
  define c2 where "c2 = c1\<lparr>dirs := List.insert ?p (dirs c0)\<rparr>"
  have mk: "os_mkdir_all ?p c1 = (None, c2)"
    using ok c1 by (auto simp: os_mkdir_all_def disk_ok_def c2_def)
  have nod: "Join ?p n \<notin> set (dirs c2)" if "plain_name n" for n
    using ok that by (auto simp: c2_def disk_ok_def)
  obtain fs fl cf where lk: "open_lock c2 = (None, c2\<lparr>files := fs, flocks := fl, cflock := cf\<rparr>)"
    "\<forall>f. f \<noteq> ?lf \<longrightarrow> map_of fs f = fget f c2"
    using open_lock_ok[of c2] ok c1 nod[of "''.lock''"] by (auto simp: c2_def newFlock_Join disk_ok_def)
  define c3 where "c3 = c2\<lparr>files := fs, flocks := fl, cflock := cf,
     cpos := (cpos c2)\<lparr>posfname := Join ?p ''.pos''\<rparr>, curWriteFile := ?data\<rparr>"
  have f3: "faults c3 = []" "curWriteFile c3 = ?data" "dirs c3 = dirs c2" "files c3 = fs" "path c3 = ?p"
    "fresh c3" "content ?data c3 = content ?data c0" "now c3 = now c1"
    using c1 lk(2) special_distinct(1)[of ?p]
    by (auto simp: c3_def c2_def fresh_def content_def)
  obtain gs where ow: "openWriteFile c3 = (None, c3\<lparr>files := gs, curBatchSize := int (length (content ?data c3)),
       wfdLastWrite := now c3, wfd := Some ?data\<rparr>)"
    "map_of gs = (map_of fs)(?data \<mapsto> content ?data c3)"
    using openWriteFile_ok[of c3] f3 nod[of "''data''"] by auto
  define c4 where "c4 = c3\<lparr>files := gs, curBatchSize := int (length (content ?data c3)),
       wfdLastWrite := now c3, wfd := Some ?data\<rparr>"
  have np: "\<not> noPos c2" "\<not> noPos c4" using f3(6) by (auto simp: c4_def c3_def fresh_def)
  have c3': "c1\<lparr>dirs := List.insert ?p (dirs c0), files := fs, flocks := fl, cflock := cf,
      cpos := (cpos c0)\<lparr>posfname := Join ?p ''.pos''\<rparr>, curWriteFile := ?data\<rparr> = c3"
    using c1(7) by (simp add: c3_def c2_def)
  have "doOpen pd (\<lambda>k. None) c0 = bindE (open_walk c4)
      (\<lambda>c. if noPos c then okE c else wrapE (\<lambda>e. WithPath (path c) (NewCacheError OpOpen e)) (loadUnfinishedFile c))"
    using mk lk(1) ow(1) np c1(1)
    by (simp add: doOpen_def Let_def c1_def[symmetric] c3_def[symmetric] c4_def[symmetric])
       (simp add: c2_def c1 c3')
  moreover have "opened c0 c4"
    unfolding opened_def using f3 np ow(2) lk(2) c1(1,2,7)
    by (simp add: c4_def content_def fresh_def) (simp add: c3_def c2_def)
  ultimately show ?thesis using f3(6) by (intro exI[of _ c4]) (simp add: c4_def fresh_def)
qed

lemma doOpen_prefix:
  assumes ok: "disk_ok (path c0) c0" and fr: "fresh c0"
  shows "\<exists>c. doOpen pd (\<lambda>k. None) c0 =
             wrapE (\<lambda>e. WithPath (path c) (NewCacheError OpOpen e)) (loadUnfinishedFile c) \<and> listed c0 c"
proof -
  let ?p = "path c0"
  obtain c4 where c4: "doOpen pd (\<lambda>k. None) c0 = bindE (open_walk c4)
      (\<lambda>c. if noPos c then okE c
             else wrapE (\<lambda>e. WithPath (path c) (NewCacheError OpOpen e)) (loadUnfinishedFile c))"
    "opened c0 c4" "dataFiles c4 = []" "csize c4 = 0"
    using doOpen_opened[OF ok fr] by blast
  have same: "fget f c4 = fget f c0" if "is_datafile f" for f
    using c4(2) that not_datafile_special unfolding opened_def by metis
  have b4: "disk_batches ?p c4 = disk_batches ?p c0" by (rule disk_batches_cong) (rule same)
  have "content f c4 = content f c0" if "f \<in> set (disk_batches ?p c0)" for f
    using that by (intro content_cong same) (simp add: disk_batches_props(1))
  then have sum: "(\<Sum>f \<leftarrow> disk_batches ?p c0. int (length (content f c4))) =
      (\<Sum>f \<leftarrow> disk_batches ?p c0. int (length (content f c0)))"
    by (simp cong: map_cong)
  define c5 where "c5 = c4\<lparr>csize := (\<Sum>f \<leftarrow> disk_batches ?p c0. int (length (content f c0))),
           dataFiles := disk_batches ?p c0\<rparr>"
  have "open_walk c4 = (None, c5)"
    using open_walk_ok[of c4] c4 b4 sum by (simp add: c5_def opened_def)
  moreover have "opened c0 c5"
  proof -
    have "content f c5 = content f c4" for f by (rule content_cong) (simp add: c5_def)
    then show ?thesis using c4(2) by (simp add: opened_def) (auto simp: c5_def)
  qed
  moreover have "\<not> noPos c5" "dataFiles c5 = disk_batches ?p c0"
    "csize c5 = (\<Sum>f \<leftarrow> disk_batches ?p c0. int (length (content f c0)))"
    using c4(2) by (simp_all add: opened_def c5_def)
  ultimately show ?thesis using c4(1) by (intro exI[of _ c5]) (simp add: listed_def)
qed

lemma listed_same:
  assumes "listed c0 c"
  shows "is_datafile f \<Longrightarrow> fget f c = fget f c0" "fget (Join (path c0) ''.pos'') c = fget (Join (path c0) ''.pos'') c0"
    "content (Join (path c0) ''data'') c = content (Join (path c0) ''data'') c0"
proof -
  have same: "fget g c = fget g c0" if "g \<noteq> Join (path c0) ''.lock''" "g \<noteq> Join (path c0) ''data''" for g
    using assms that unfolding listed_defs by blast
  show "is_datafile f \<Longrightarrow> fget f c = fget f c0" by (metis same not_datafile_special)
  show "fget (Join (path c0) ''.pos'') c = fget (Join (path c0) ''.pos'') c0"
    by (rule same) (metis special_distinct(2), metis data_neq_pos)
  show "content (Join (path c0) ''data'') c = content (Join (path c0) ''data'') c0"
    using assms unfolding listed_defs by (metis content_Some)
qed

lemma listed_inv:
  assumes ok: "disk_ok (path c0) c0" and l: "listed c0 c"
  shows "dc_inv c" "dir_inv c"
    "pending c = concat (map (batch c0) (disk_batches (path c0) c0))" "writing c = batch c0 (Join (path c0) ''data'')"
proof -
  let ?p = "path c0"
  have df: "f \<in> set (dataFiles c) \<Longrightarrow> is_datafile f \<and> fget f c = fget f c0 \<and> fget f c0 \<noteq> None \<and> content f c = content f c0" for f
    using l listed_same(1)[OF l, of f] by (auto simp: listed_defs disk_batches_props(1) content_def)
  have "sys_inv c" using l ok by (auto simp: listed_defs sys_inv_def disk_ok_def)
  moreover have "names_inv c"
    using l ok disk_batches_props(2)[of ?p c0] by (simp add: listed_defs names_inv_def disk_ok_def)
  moreover have "files_inv c"
    using df l ok by (auto simp: files_inv_def listed_defs disk_ok_def)
  moreover have "write_inv c"
    using l ok listed_same(3)[OF l] by (auto simp: listed_defs write_inv_def disk_ok_def)
  moreover have "read_inv c" "pos_inv c" using l by (simp_all add: listed_defs read_inv_def pos_inv_def)
  ultimately show "dc_inv c" using l by (simp add: dc_inv_def listed_defs)
  show "dir_inv c"
    using l listed_same(1)[OF l] by (auto simp: dir_inv_def listed_defs disk_batches_props(1))
  have "map (batch c) (dataFiles c) = map (batch c0) (dataFiles c)"
    using df by (simp add: batch_def)
  then show "pending c = concat (map (batch c0) (disk_batches ?p c0))"
    using l by (simp add: pending_def listed_defs cong: map_cong)
  show "writing c = batch c0 (Join ?p ''data'')"
    using l listed_same(3)[OF l] by (simp add: writing_def batch_def listed_defs)
qed

lemma doOpen_recovers:
  assumes ok: "disk_ok (path c0) c0" and fr: "fresh c0"
  shows "\<exists>c. doOpen pd (\<lambda>k. None) c0 = (None, c) \<and> dc_inv c \<and> path c = path c0 \<and>
           queue c = disk_queue (path c0) c0 \<and> dir_inv c \<and> pos_disk c"
proof -
  let ?p = "path c0" and ?r = "disk_reader (path c0) c0"
  obtain c where c: "doOpen pd (\<lambda>k. None) c0 =
      wrapE (\<lambda>e. WithPath (path c) (NewCacheError OpOpen e)) (loadUnfinishedFile c)" "listed c0 c"
    using doOpen_prefix[OF ok fr, of pd] by blast
  note li = listed_inv[OF ok c(2)] and ls = listed_same[OF c(2)]
  have pn: "posfname (cpos c) = Join ?p ''.pos''" "\<not> noPos c" "\<not> posfd (cpos c)" "rfd c = None" "path c = ?p"
    and fl: "faults c = []" and dfs: "dataFiles c = disk_batches ?p c0"
    using c(2) by (auto simp: listed_defs)
  have rd: "?r = (case fget (posfname (cpos c)) c of None \<Rightarrow> None
      | Some bs \<Rightarrow> if length bs \<le> 8 then None else Some (drop 8 bs, nat (Int64 bs)))"
    using pn(1) ls(2) by (simp add: disk_reader_def)
  have load: "loadUnfinishedFile c = (None, case ?r of None \<Rightarrow> c
      | Some (f, off) \<Rightarrow> c\<lparr>rfd := Some (f, off), curReadfile := f, cpos := (cpos c)\<lparr>Name := Some f, Seek := int off\<rparr>\<rparr>)"
  proof (rule loadUnfinishedFile_ok[OF fl _ _ rd])
    show "Clean (posfname (cpos c)) = posfname (cpos c)" using pn by (simp add: Clean_Join_plain)
    show "posfname (cpos c) \<notin> set (dirs c)"
      using li(1) pn inv_no_dir(2)[of c] by (simp add: dc_inv_def)
    fix f off assume r: "?r = Some (f, off)"
    then have "f \<in> set (dataFiles c)" "0 \<le> Int64 (content (Join ?p ''.pos'') c0)"
      using ok dfs by (auto simp: disk_ok_def dest!: hd_in_set)
    then show "fget f c \<noteq> None \<and> f \<notin> set (dirs c) \<and> 0 \<le> Int64 (content (posfname (cpos c)) c)"
      using dataFiles_facts(3,4)[OF li(1)] content_cong[OF ls(2)] pn(1) by auto
  qed
  show ?thesis
  proof (cases ?r)
    case None
    have "pos_disk c" using rd None pn by (auto simp: pos_disk_def split: option.splits if_splits)
    with None c(1) load li pn show ?thesis by (simp add: queue_def disk_queue_def)
  next
    case (Some q)
    then obtain f off where r: "?r = Some (f, off)" by (cases q) auto
    let ?q = "(cpos c)\<lparr>Name := Some f, Seek := int off\<rparr>"
    let ?c = "c\<lparr>files := files c, cpos := ?q, rfd := Some (f, off), curReadfile := f, curReadSize := curReadSize c\<rparr>"
    have f: "dataFiles c \<noteq> []" "hd (dataFiles c) = f" "is_batch (drop off (content f c0))"
      "0 \<le> Int64 (content (Join ?p ''.pos'') c0)"
      using ok r dfs by (auto simp: disk_ok_def)
    have fm: "f \<in> set (dataFiles c)" using f(1,2) list.set_sel(1) by blast
    have cf: "content f c = content f c0"
      using fm ls(1)[of f] dfs by (intro content_cong) (simp add: disk_batches_props(1))
    have ri: "read_inv (c\<lparr>rfd := Some (f, off), curReadfile := f\<rparr>)"
      using f cf by (simp add: read_inv_def content_def)
    have pf: "if noPos c then files c = files c \<and> ?q = cpos c else pos_frame c (files c) ?q"
      using pn by (simp add: pos_frame_def)
    note rp = reposition_inv[OF li(1) pf ri, of "curReadSize c"]
    have "dir_inv ?c = dir_inv c" by (rule dir_inv_cong) simp_all
    moreover have "pending (c\<lparr>rfd := Some (f, off)\<rparr>) = unframe (drop off (content f c0)) @
        concat (map (batch c0) (tl (disk_batches ?p c0)))"
    proof -
      have "batch c g = batch c0 g" if "g \<in> set (tl (dataFiles c))" for g
        using that ls(1)[of g] list.set_sel(2)[OF f(1) that] dfs
        by (intro batch_cong) (simp add: disk_batches_props(1))
      moreover have "batch (c\<lparr>rfd := Some (f, off)\<rparr>) = batch c" "content f (c\<lparr>rfd := Some (f, off)\<rparr>) = content f c"
        by (auto simp: batch_def content_def)
      ultimately show ?thesis using dfs cf by (simp add: pending_def cong: map_cong)
    qed
    moreover have "pos_disk ?c"
    proof -
      obtain bs where bs: "fget (posfname (cpos c)) c = Some bs" "8 < length bs" "f = drop 8 bs" "off = nat (Int64 bs)"
        using rd r by (auto split: option.splits if_splits)
      have "0 \<le> Int64 bs" using f(4) ls(2) pn(1) bs(1) by (simp add: content_def)
      then have "MarshalBinary ?q = bs" using bs PutInt64_Int64[of bs] by (simp add: MarshalBinary_def)
      then show ?thesis using bs(1) by (simp add: pos_disk_def)
    qed
    ultimately show ?thesis using r c(1) load li rp pn
      by (intro exI[of _ ?c]) (simp add: queue_def disk_queue_def)
  qed
qed

end
