(* ===== verification/Diskcache_Crash.thy ===== *)
theory Diskcache_Crash
  imports Diskcache_Restart
begin

section \<open>Disk cache: what a process that dies leaves behind\<close>

text \<open>
  When the process of an open cache ends, by \<open>Close\<close> or by a crash, its files stay and the kernel
  gives its lock back.  With the position dumped on every call, the directory then holds exactly the
  queue of the cache, so that the next \<open>Open\<close> goes on with it.
\<close>

definition process_exit :: "diskcache \<Rightarrow> os" where
  "process_exit c =
     \<lparr>files = files c, dirs = dirs c,
      flocks = (case cflock c of None \<Rightarrow> flocks c | Some lf \<Rightarrow> removeAll lf (flocks c)),
      faults = faults c, now = now c\<rparr>"

lemma process_exit_files [simp]:
  "files (process_exit c) = files c" "dirs (process_exit c) = dirs c" "faults (process_exit c) = faults c"
  "content f (process_exit c) = content f c" "batch (process_exit c) f = batch c f"
  by (simp_all add: process_exit_def content_def batch_def)

definition homed :: "diskcache \<Rightarrow> bool" where
  "homed c \<longleftrightarrow> path c \<in> set (dirs c) \<and> path c \<noteq> [] \<and> \<not> noPos c \<and>
     newFlock (path c) \<notin> set (flocks (process_exit c))"

definition small :: "diskcache \<Rightarrow> bool" where
  "small c \<longleftrightarrow> (\<forall>f \<in> set (dataFiles c). int (length (content f c)) < 2 ^ 63)"

lemma homed_cong: "settings c' = settings c \<Longrightarrow> homed c' = homed c"
  by (simp add: homed_def settings_def process_exit_def split: option.split)

lemma exit_batches:
  assumes "dc_inv c" "dir_inv c"
  shows "disk_batches (path c) (process_exit c) = dataFiles c"
proof (rule strict_sorted_unique[OF disk_batches_props(2)])
  show "sorted_wrt (<) (dataFiles c)" using assms by (simp add: dc_inv_def names_inv_def)
  show "set (disk_batches (path c) (process_exit c)) = set (dataFiles c)"
    using assms by (auto simp: disk_batches_props(1) dir_inv_def simp del: not_None_eq)
qed

lemma is_batch_not_Nil: "\<not> is_batch []"
  by (metis append_is_Nil_conv is_batch_def length_eof_mark list.size(3) zero_neq_numeral)

lemma exit_reader:
  assumes inv: "dc_inv c" and pd: "pos_disk c" and np: "\<not> noPos c" and sm: "small c"
  shows "disk_reader (path c) (process_exit c) = rfd c"
    "rfd c = Some (f, off) \<Longrightarrow> 0 \<le> Int64 (content (Join (path c) ''.pos'') (process_exit c))"
proof -
  have pn: "Join (path c) ''.pos'' = posfname (cpos c)" using inv np by (simp add: dc_inv_def pos_inv_def)
  have rd: "disk_reader (path c) (process_exit c) = Some (g, n) \<and> 0 \<le> Int64 (content (posfname (cpos c)) c)"
    if r: "rfd c = Some (g, n)" for g n
  proof -
    have ri: "read_inv c" using inv by (simp add: dc_inv_def)
    have g: "g \<in> set (dataFiles c)" "is_batch (drop n (content g c))"
      using read_inv_mem[OF ri r] ri r by (auto simp: read_inv_def)
    then have "drop n (content g c) \<noteq> []" using is_batch_not_Nil by metis
    then have n: "int n < 2 ^ 63" using sm g(1) by (force simp: small_def)
    have g0: "g \<noteq> []" using dataFiles_facts(2)[OF inv g(1)] .
    have "fget (posfname (cpos c)) c = Some (PutInt64 (int n) @ g)"
      using pd np r by (simp add: pos_disk_def MarshalBinary_def)
    with g0 n pn show ?thesis by (simp add: disk_reader_def content_def Int64_PutInt64)
  qed
  show "disk_reader (path c) (process_exit c) = rfd c"
  proof (cases "rfd c")
    case None
    with pd np pn show ?thesis by (auto simp: pos_disk_def disk_reader_def split: option.splits)
  next
    case (Some q)
    with rd[of "fst q" "snd q"] show ?thesis by simp
  qed
  show "rfd c = Some (f, off) \<Longrightarrow> 0 \<le> Int64 (content (Join (path c) ''.pos'') (process_exit c))"
    using rd pn by simp
qed

lemma exit_disk:
  assumes inv: "dc_inv c" and di: "dir_inv c" and pd: "pos_disk c" and h: "homed c" and sm: "small c"
  shows "disk_ok (path c) (process_exit c)" "disk_queue (path c) (process_exit c) = queue c"
proof -
  have np: "\<not> noPos c" using h by (simp add: homed_def)
  note rd = exit_reader[OF inv pd np sm]
  have w: "curWriteFile c = Join (path c) ''data''" using inv by (simp add: dc_inv_def write_inv_def)
  show "disk_queue (path c) (process_exit c) = queue c"
    by (simp add: disk_queue_def rd(1) exit_batches[OF inv di] queue_def pending_def writing_def w
        split: option.split cong: map_cong)
  have "names_inv c" "files_inv c" "sys_inv c" "write_inv c" "read_inv c" using inv by (simp_all add: dc_inv_def)
  then show "disk_ok (path c) (process_exit c)"
    using h rd by (auto simp: disk_ok_def exit_batches[OF inv di] homed_def names_inv_def files_inv_def sys_inv_def
        write_inv_def read_inv_def w split: option.splits)
qed

subsection \<open>The durable queue\<close>

text \<open>
  The invariant of a cache whose position on disk is never behind, as it is when every call dumps
  it and no record is empty (an empty record does not move the position).
\<close>

definition durable :: "diskcache \<Rightarrow> bool" where
  "durable c \<longleftrightarrow> dc_inv c \<and> dir_inv c \<and> pos_disk c \<and> homed c \<and> dumpCount (cpos c) = 0 \<and> [] \<notin> set (queue c)"

definition dc_ok_rec :: "bytes \<Rightarrow> diskcache \<Rightarrow> bool" where
  "dc_ok_rec d c \<longleftrightarrow> dc_ok d c \<and> d \<noteq> []"

lemma durable_idle: "durable c \<Longrightarrow> durable (dc_idle n c)"
proof -
  assume d: "durable c"
  then have inv: "dc_inv c" by (simp add: durable_def)
  note id = dc_idle_inv[OF inv, of n]
  have "dir_inv (dc_idle n c) = dir_inv c" by (rule dir_inv_cong) (simp_all add: dc_idle_def)
  moreover have "pos_disk (dc_idle n c) = pos_disk c"
    by (cases "rfd c"; cases "fget (posfname (cpos c)) c") (auto simp: pos_disk_def dc_idle_def)
  moreover have "dumpCount (cpos (dc_idle n c)) = dumpCount (cpos c)" by (simp add: dc_idle_def)
  ultimately show "durable (dc_idle n c)" using d id(1,2) homed_cong[OF id(4)] by (simp add: durable_def)
qed

interpretation dcd: fifo_queue durable queue dc_ok_rec dc_spare dc_put dc_get dc_idle
proof (unfold_locales, goal_cases)
  case (1 c d)
  have inv: "dc_inv c" using 1(1) by (simp add: durable_def)
  have nid: "id_ok (next_id c)" using 1 inv by (intro spare_id_ok) simp_all
  have d: "\<not> IsFull d c" "rec_ok d" "fits d c" "d \<noteq> []" using 1(2) by (simp_all add: dc_ok_rec_def dc_ok_def IsFull_def)
  obtain c' where c': "Put d c = (None, c')" "keeps1 c c'" "queue c' = queue c @ [d]" "pos_disk c \<longrightarrow> pos_disk c'"
    using Put_keeps[OF inv d(2,1,3) nid] by blast
  then have "settings c' = settings c" "durable c'"
    using 1(1) d(4) homed_cong[of c' c] by (auto simp: durable_def keeps1_def)
  with c' show ?case
    using dc_ok_cfg[of c' c] by (intro exI[of _ c']) (simp add: dc_put_def keeps1_def dc_spare_def dc_ok_rec_def)
next
  case (2 c)
  have inv: "dc_inv c" using 2(1) by (simp add: durable_def)
  have nid: "id_ok (next_id c)" using 2 inv by (intro spare_id_ok) simp_all
  obtain c' where c': "dc_get c = Some (case readable True c of [] \<Rightarrow> None | d # ds \<Rightarrow> Some d, c')"
    "keeps1 c c'" "queue c = (case readable True c of [] \<Rightarrow> [] | d # ds \<Rightarrow> [d]) @ queue c'"
    "pos_disk c \<longrightarrow> dumpCount (cpos c) = 0 \<longrightarrow> [] \<notin> set (queue c) \<longrightarrow> pos_disk c'"
    using dc_get_ok[OF inv nid] by blast
  have "set (queue c') \<subseteq> set (queue c)" using c'(3) by (metis Un_upper2 set_append)
  then have "settings c' = settings c" "durable c'"
    using 2(1) c'(2,4) homed_cong[of c' c] by (auto simp: durable_def keeps1_def)
  with c'(1-3) show ?case
    using dc_ok_cfg[of c' c]
    by (intro exI[of _ "case readable True c of [] \<Rightarrow> None | d # ds \<Rightarrow> Some d"] exI[of _ c'])
      (auto simp: keeps1_def dc_spare_def dc_ok_rec_def split: list.splits)
next
  case (3 c n)
  then have inv: "dc_inv c" by (simp add: durable_def)
  from 3 show ?case
    using dc_ok_cfg[OF dc_idle_inv(4)[OF inv]] dc_idle_inv[OF inv] durable_idle[OF 3]
    by (simp add: dc_spare_def dc_ok_rec_def)
qed

end
