(* ===== verification/Diskcache_Faults.thy ===== *)
theory Diskcache_Faults
  imports Diskcache_Crash
begin

section \<open>Disk cache: under any schedule of faults\<close>

text \<open>
  The lemmas so far are about a world without faults.  Here every system call may fail at any time:
  a small invariant of the reading side survives every operation, error paths included, and it is
  enough for the retry loop of \<open>Get\<close> to come to an end.
\<close>

definition live :: "diskcache \<Rightarrow> bool" where
  "live c \<longleftrightarrow> [] \<notin> set (dataFiles c) \<and> (rfd c \<noteq> None \<longrightarrow> curReadfile c \<noteq> [])"

definition core :: "diskcache \<Rightarrow> string list \<times> (string \<times> nat) option \<times> string" where
  "core c = (dataFiles c, rfd c, curReadfile c)"

lemma core_live: "core c' = core c \<Longrightarrow> live c' = live c"
  by (simp add: core_def live_def)

lemma core_pop [simp]: "core (snd (pop_fault c)) = core c"
  by (simp add: pop_fault_def core_def split: list.split)

lemma core_popE: "pop_fault c = (x, c1) \<Longrightarrow> core c1 = core c"
  using core_pop[of c] by simp

lemma core_files [simp]: "core (c\<lparr>files := fs\<rparr>) = core c" "core (c\<lparr>flocks := fl\<rparr>) = core c"
  "core (c\<lparr>dirs := ds\<rparr>) = core c" "core (c\<lparr>cpos := p\<rparr>) = core c" "core (c\<lparr>csize := n\<rparr>) = core c"
  "core (c\<lparr>curBatchSize := n\<rparr>) = core c" "core (c\<lparr>wfd := w\<rparr>) = core c" "core (c\<lparr>wfdLastWrite := t\<rparr>) = core c"
  "core (c\<lparr>curReadSize := n\<rparr>) = core c" "core (c\<lparr>LastErr := le\<rparr>) = core c"
  by (simp_all add: core_def)

lemma core_os [simp]:
  "core (snd (os_stat f c)) = core c" "core (snd (os_open_append f c)) = core c"
  "core (snd (os_open_trunc f c)) = core c" "core (snd (os_open_read f c)) = core c"
  "core (snd (os_rename f g c)) = core c" "core (snd (os_remove f c)) = core c"
  "core (snd (os_truncate f n c)) = core c" "core (snd (os_read_file f c)) = core c"
  "core (snd (fd_append f bs c)) = core c" "core (snd (fd_write_start f bs c)) = core c"
  "core (snd (fd_read f off k c)) = core c" "core (snd (fd_call c)) = core c"
  "core (snd (fd_truncate0 f c)) = core c" "core (snd (fd_seek n c)) = core c"
  "core (snd (sys_flock f c)) = core c" "core (snd (sys_funlock f c)) = core c"
  by (auto simp: os_defs Let_def split: prod.split option.split dest: core_popE)

lemma core_osE:
  "os_stat f c = (r, c1) \<Longrightarrow> core c1 = core c" "os_rename f g c = (e, c1) \<Longrightarrow> core c1 = core c"
  "os_truncate f n c = (e, c1) \<Longrightarrow> core c1 = core c" "fd_call c = (e, c1) \<Longrightarrow> core c1 = core c"
  "fd_read f off k c = (rd, c1) \<Longrightarrow> core c1 = core c" "fd_seek n c = (e, c1) \<Longrightarrow> core c1 = core c"
  "os_read_file f c = (rd, c1) \<Longrightarrow> core c1 = core c" "os_open_read f c = (e, c1) \<Longrightarrow> core c1 = core c"
  "os_remove f c = (e, c1) \<Longrightarrow> core c1 = core c" "sys_flock f c = (e, c1) \<Longrightarrow> core c1 = core c"
  "sys_funlock f c = (e, c1) \<Longrightarrow> core c1 = core c"
  by (metis core_os snd_conv)+

lemma core_bindE:
  "core (snd r) = k \<Longrightarrow> (\<And>c. core c = k \<Longrightarrow> core (snd (f c)) = k) \<Longrightarrow> core (snd (bindE r f)) = k"
  by (rule bindE_snd_inv[where I = "\<lambda>c. core c = k"])

lemma live_bindE: "live (snd r) \<Longrightarrow> (\<And>c. live c \<Longrightarrow> live (snd (f c))) \<Longrightarrow> live (snd (bindE r f))"
  by (rule bindE_snd_inv[where I = live])

subsection \<open>The write side\<close>

lemma core_openWriteFile [simp]: "core (snd (openWriteFile c)) = core c"
  by (auto simp: openWriteFile_def Let_def okE_def failE_def intro!: core_bindE
      split: prod.split sum.split dest: core_osE)

lemma core_ensureWriteFile [simp]: "core (snd (ensureWriteFile c)) = core c"
  by (simp add: ensureWriteFile_def okE_def failE_def)

lemma core_rotate_rename [simp]: "core (snd (rotate_rename f n c)) = core c"
  by (auto simp: rotate_rename_def Let_def split: prod.split sum.split option.split bool.split dest!: core_osE)

lemma Join_not_Nil: "n \<noteq> [] \<Longrightarrow> Join p n \<noteq> []"
  by (simp add: Join_def Clean_def Let_def)

lemma next_datafile_not_Nil: "next_datafile c = Inr f \<Longrightarrow> f \<noteq> []"
  by (auto simp: next_datafile_def Let_def datafile_name_def Join_not_Nil split: if_splits option.splits)

lemma live_rotate_account: "live c \<Longrightarrow> f \<noteq> [] \<Longrightarrow> live (rotate_account f c)"
proof -
  assume "live c" and f: "f \<noteq> []"
  define c2 where "c2 = (case os_stat f c of
                  (Inr (sz, isdir), c1) \<Rightarrow> (if sz > int dataHeaderLen then c1\<lparr>csize := csize c1 + sz\<rparr> else c1)
                | (Inl e, c1) \<Rightarrow> c1)"
  have "core c2 = core c" by (auto simp: c2_def split: prod.split sum.split dest: core_osE)
  then have "live c2" using \<open>live c\<close> core_live by blast
  then show "live (rotate_account f c)"
    using f by (simp add: rotate_account_def c2_def[symmetric] Let_def live_def)
qed

lemma live_rotate_file:
  assumes "live c"
  shows "live (snd (rotate_file c))"
  unfolding rotate_file_def Let_def
proof (rule live_bindE, goal_cases)
  case 1
  show ?case using assms core_live[of "snd (ensureWriteFile c)" c] by simp
next
  case (2 c)
  show ?case
  proof (rule live_bindE, goal_cases)
    case 1
    show ?case using 2 core_live[of "snd (fd_append (writeFileName c) (PutUint32 EOFHint) c)" c] by simp
  next
    case c1: (2 c1)
    show ?case
    proof (cases "next_datafile c1")
      case (Inl e)
      with c1 show ?thesis by (simp add: failE_def)
    next
      case (Inr f)
      note f = next_datafile_not_Nil[OF Inr]
      have "live (snd (case rotate_rename f n (d\<lparr>wfd := None\<rparr>) of (re, d) \<Rightarrow>
               (case openWriteFile (if re = None then rotate_account f d else d) of
                  (Some e, d) \<Rightarrow> failE (g re e d) d | (None, d) \<Rightarrow> (re, d))))" if "live d" for d n g
      proof -
        obtain re d1 where d1: "rotate_rename f n (d\<lparr>wfd := None\<rparr>) = (re, d1)" by fastforce
        then have "core d1 = core d" using core_rotate_rename[of f n "d\<lparr>wfd := None\<rparr>"] by simp
        then have "live d1" using that core_live by blast
        define d2 where "d2 = (if re = None then rotate_account f d1 else d1)"
        have "live d2" using \<open>live d1\<close> live_rotate_account[OF _ f] by (simp add: d2_def)
        then have "live (snd (openWriteFile d2))" using core_live[of "snd (openWriteFile d2)" d2] by simp
        then show ?thesis unfolding d1 by (auto simp: d2_def[symmetric] failE_def split: prod.split option.split)
      qed
      note step = this
      show ?thesis unfolding Inr sum.case
        by (rule live_bindE, use c1 core_live[of "snd (fd_call c1)" c1] in simp, rule step)
    qed
  qed
qed

lemma live_Rotate: "live c \<Longrightarrow> live (snd (Rotate c))"
  by (simp add: Rotate_def failE_def live_rotate_file)

lemma in_tl: "x \<in> set (tl xs) \<Longrightarrow> x \<in> set xs"
  by (cases xs) auto

lemma live_less:
  "live c \<Longrightarrow> live (c\<lparr>rfd := None\<rparr>)" "live c \<Longrightarrow> live (c\<lparr>dataFiles := tl (dataFiles c)\<rparr>)"
  "live c \<Longrightarrow> live (c\<lparr>csize := n, dataFiles := tl (dataFiles c)\<rparr>)"
  by (auto simp: live_def dest: in_tl)

lemma live_os:
  "live c \<Longrightarrow> live (snd (fd_call c))" "live c \<Longrightarrow> live (snd (os_remove f c))"
  "live c \<Longrightarrow> live (snd (os_open_read f c))" "live c \<Longrightarrow> live (snd (fd_append f bs c))"
  "live c \<Longrightarrow> live (snd (ensureWriteFile c))" "live c \<Longrightarrow> live (snd (os_open_append f c))"
  "os_stat f c = (r, c1) \<Longrightarrow> live c \<Longrightarrow> live c1"
  using core_live core_os core_ensureWriteFile core_osE(1) by metis+

lemma live_upd [simp]:
  "live (c\<lparr>csize := n\<rparr>) = live c" "live (c\<lparr>curBatchSize := n\<rparr>) = live c" "live (c\<lparr>wfdLastWrite := t\<rparr>) = live c"
  "live (c\<lparr>LastErr := e\<rparr>) = live c" "live (c\<lparr>cpos := p\<rparr>) = live c" "live (c\<lparr>curReadSize := n\<rparr>) = live c"
  by (simp_all add: live_def)

lemma live_dropBatch: "live c \<Longrightarrow> live (snd (dropBatch c))"
  unfolding dropBatch_def Let_def
  by (auto intro!: live_bindE live_less live_os(1-6) simp: okE_def failE_def split: prod.split sum.split
      dest: live_os(7)) (metis live_os(7))+

lemma live_put_write: "live c \<Longrightarrow> live (snd (put_write d c))"
  unfolding put_write_def by (auto intro!: live_bindE live_os(1-6) simp: okE_def)

lemma live_Put: "live c \<Longrightarrow> live (snd (Put d c))"
  unfolding Put_def put_append_def put_make_room_def
  by (auto intro!: live_bindE live_os(1-6) live_put_write live_rotate_file live_dropBatch simp: okE_def failE_def)

lemma live_CopyN: "CopyN f r n c = (q, c1) \<Longrightarrow> live c \<Longrightarrow> live c1"
  using live_os(4)[of c f "take n (avail r)"]
  by (auto simp: CopyN_def Let_def split: option.splits)

lemma live_stream_fallback: "live c \<Longrightarrow> live (stream_fallback n e c)"
  using live_os(1)[of c] by (auto simp: stream_fallback_def split: option.split prod.split)

lemma live_stream_write: "live c \<Longrightarrow> live (snd (stream_write r n c))"
  unfolding stream_write_def
proof (intro live_bindE, goal_cases)
  case (3 c1 c2)
  obtain k e c3 where cp: "CopyN (writeFileName c2) r (nat n) c2 = ((k, e), c3)" by (metis prod.exhaust)
  have l3: "live c3" using live_CopyN[OF cp 3(3)] .
  show ?case unfolding cp Let_def
    by (auto intro!: live_stream_fallback live_rotate_file simp: l3 okE_def failE_def)
qed (simp_all add: live_os)

lemma live_StreamPut: "live c \<Longrightarrow> live (snd (StreamPut r n c))"
  unfolding StreamPut_def
  by (auto intro!: live_bindE live_os(1-6) live_stream_write simp: failE_def)

subsection \<open>The read side\<close>

text \<open>The position file is somebody else's state.\<close>

lemma core_pos_methods:
  assumes "\<And>s. core (snd (snd (m s))) = core (snd s)"
  shows "core (snd (on_pos m c)) = core c"
  using assms[of "(cpos c, c)"] by (auto simp: on_pos_def split: prod.split)

lemma core_pos_open_fd: "core (snd (snd (pos_open_fd s))) = core (snd s)"
  by (auto simp: pos_open_fd_def with_pos_def okE_def bindE_def wrapE_def split: prod.split option.split)

lemma core_doDumpFile: "core (snd (snd (doDumpFile s))) = core (snd s)"
proof -
  let ?I = "\<lambda>t. core (snd t) = core (snd s)"
  have I: "?I (snd (bindE r f))" if "?I (snd r)" "\<And>t. ?I t \<Longrightarrow> ?I (snd (f t))" for r f
    by (rule bindE_snd_inv[where I = ?I]) (use that in auto)
  show ?thesis unfolding doDumpFile_def Let_def
    by (intro I) (auto intro!: I simp: core_pos_open_fd with_pos_def)
qed

lemma core_pos_reset: "core (snd (snd (pos_reset s))) = core (snd s)"
proof -
  let ?I = "\<lambda>t. core (snd t) = core (snd s)"
  show ?thesis unfolding pos_reset_def
    by (rule bindE_snd_inv[where I = ?I]) (auto simp: core_pos_open_fd core_doDumpFile okE_def)
qed

lemma core_dumpFile: "core (snd (snd (snd (dumpFile s)))) = core (snd s)"
  by (auto simp: dumpFile_def core_doDumpFile okE_def Let_def split: prod.split option.split)

lemma core_on_pos [simp]:
  "core (snd (on_pos pos_reset c)) = core c" "core (snd (on_pos doDumpFile c)) = core c"
  "core (snd (on_pos (\<lambda>s. snd (dumpFile s)) c)) = core c"
  by (rule core_pos_methods, simp add: core_pos_reset core_doDumpFile core_dumpFile)+

lemma core_on_posE:
  "on_pos pos_reset c = (e, c1) \<Longrightarrow> core c1 = core c" "on_pos doDumpFile c = (e, c1) \<Longrightarrow> core c1 = core c"
  "on_pos (\<lambda>s. snd (dumpFile s)) c = (e, c1) \<Longrightarrow> core c1 = core c"
  by (metis core_on_pos snd_conv)+

lemma live_on_pos:
  "live c \<Longrightarrow> live (snd (on_pos pos_reset c))" "live c \<Longrightarrow> live (snd (on_pos doDumpFile c))"
  using core_live core_on_pos by metis+

lemma core_eq: "core c' = (ds, r, f) \<longleftrightarrow> dataFiles c' = ds \<and> rfd c' = r \<and> curReadfile c' = f"
  by (simp add: core_def)

definition close_reading :: "diskcache \<Rightarrow> dc_step" where
  "close_reading c0 =
     (if rfd c0 \<noteq> None
      then bindE (wrapE (\<lambda>e. WrapFileOperationError OpClose (path c0) (readFileName c0) (SysErr e)) (fd_call c0))
             (\<lambda>c. okE (c\<lparr>rfd := None\<rparr>))
      else okE c0)"

definition unlink_reading :: "diskcache \<Rightarrow> dc_step" where
  "unlink_reading c =
     (case os_stat (curReadfile c) c of
        (Inr (sz, isdir), c) \<Rightarrow>
          (let c = (if sz > int dataHeaderLen then c\<lparr>csize := csize c - sz\<rparr> else c) in
           wrapE (\<lambda>e. WrapFileOperationError OpRemove (path c) (curReadfile c) (SysErr e))
             (os_remove (curReadfile c) c))
      | (Inl e, c) \<Rightarrow> okE c)"

lemma removeCurrentReadingFile_split:
  "removeCurrentReadingFile c0 =
     bindE (close_reading c0) (\<lambda>c. bindE (unlink_reading c) (\<lambda>c.
       let c = c\<lparr>curReadfile := []\<rparr> in
       okE (if length (dataFiles c) > 0 then c\<lparr>dataFiles := tl (dataFiles c)\<rparr> else c)))"
  by (simp only: removeCurrentReadingFile_def close_reading_def unlink_reading_def)

lemma close_reading_core:
  "close_reading c = (None, c1) \<Longrightarrow> core c1 = (dataFiles c, None, curReadfile c)"
  "live c \<Longrightarrow> live (snd (close_reading c))"
proof -
  assume "close_reading c = (None, c1)"
  then show "core c1 = (dataFiles c, None, curReadfile c)"
    by (cases "rfd c") (auto simp: close_reading_def bindE_None wrapE_None okE_def core_def dest!: core_osE)
qed (auto simp: close_reading_def okE_def intro!: live_bindE live_less live_os(1-6))

lemma unlink_reading_core: "core (snd (unlink_reading c)) = core c"
  by (auto simp: unlink_reading_def okE_def Let_def split: prod.split sum.split dest: core_osE)

lemma removeCurrentReadingFile_core:
  assumes "removeCurrentReadingFile c = (None, c')"
  shows "core c' = (tl (dataFiles c), None, [])"
proof -
  from assms obtain c1 c2 where c1: "close_reading c = (None, c1)" and c2: "unlink_reading c1 = (None, c2)"
    and c': "c' = (if length (dataFiles c2) > 0 then c2\<lparr>curReadfile := [], dataFiles := tl (dataFiles c2)\<rparr>
                   else c2\<lparr>curReadfile := []\<rparr>)"
    unfolding removeCurrentReadingFile_split bindE_None by (auto simp: okE_def Let_def)
  have "core c2 = (dataFiles c, None, curReadfile c)"
    using close_reading_core(1)[OF c1] unlink_reading_core[of c1] c2 by simp
  then show ?thesis by (auto simp: c' core_def)
qed

lemma removeCurrentReadingFile_live:
  assumes "live c"
  shows "live (snd (removeCurrentReadingFile c))"
proof (cases "removeCurrentReadingFile c")
  case (Pair e c')
  show ?thesis
  proof (cases e)
    case None
    then have "core c' = (tl (dataFiles c), None, [])"
      using Pair removeCurrentReadingFile_core by simp
    then show ?thesis using assms Pair by (auto simp: core_def live_def dest: in_tl)
  next
    case (Some x)
    then have "(\<exists>e1. close_reading c = (e1, c')) \<or> (\<exists>c1 e1. close_reading c = (None, c1) \<and> unlink_reading c1 = (e1, c'))"
      using Pair unfolding removeCurrentReadingFile_split
      by (auto simp: bindE_def okE_def Let_def split: prod.splits option.splits)
    then show ?thesis
      using close_reading_core(2)[OF assms] Pair unlink_reading_core core_live by (metis snd_conv)
  qed
qed

lemma doSwitchNextFile_core:
  assumes "doSwitchNextFile c = (None, c')"
  shows "core c' = (if dataFiles c = [] then core c else (dataFiles c, Some (hd (dataFiles c), 0), hd (dataFiles c)))"
proof -
  define T where "T = (\<lambda>c. case os_stat (curReadfile c) c of
         (Inl e, c) \<Rightarrow> failE (WrapFileOperationError OpStat (path c) (curReadfile c) (SysErr e)) c
       | (Inr (sz, isdir), c) \<Rightarrow>
           (let c = c\<lparr>curReadSize := sz\<rparr> in
            if noPos c then okE c
            else let c = c\<lparr>cpos := (cpos c)\<lparr>Name := Some (curReadfile c), Seek := 0\<rparr>\<rparr> in
                 wrapE (\<lambda>e. WithFile (curReadfile c) (WithPath (path c) (NewCacheError OpSwitch e)))
                   (on_pos doDumpFile c)))"
  have T: "core d' = core d" if "T d = (None, d')" for d d'
  proof (cases "os_stat (curReadfile d) d")
    case (Pair st d1)
    with that core_osE(1)[OF Pair] show ?thesis unfolding T_def
      by (cases st) (auto simp: Let_def failE_def okE_def wrapE_None split: if_splits dest!: core_on_posE)
  qed
  obtain c1 where c1: "core c1 = core c" and
    r: "(if length (dataFiles c1) = 0 then okE c1
     else let c = c1\<lparr>curReadfile := hd (dataFiles c1)\<rparr> in
       bindE (wrapE (\<lambda>e. WrapFileOperationError OpOpen (path c) (curReadfile c) (SysErr e))
                (os_open_read (curReadfile c) c)) (\<lambda>c. let c = c\<lparr>rfd := Some (curReadfile c, 0)\<rparr> in T c)) = (None, c')"
    using assms unfolding doSwitchNextFile_def bindE_None T_def[symmetric]
    by (auto simp: okE_def wrapE_None split: if_splits dest: core_on_posE)
  show ?thesis
  proof (cases "dataFiles c = []")
    case True
    with c1 r show ?thesis by (simp add: okE_def core_def)
  next
    case False
    then have "dataFiles c1 \<noteq> []" using c1 by (simp add: core_def)
    with r obtain c2 where c2: "os_open_read (hd (dataFiles c1)) (c1\<lparr>curReadfile := hd (dataFiles c1)\<rparr>) = (None, c2)"
      and r2: "T (c2\<lparr>rfd := Some (curReadfile c2, 0)\<rparr>) = (None, c')"
      by (auto simp: Let_def bindE_None wrapE_None)
    have "core c2 = core (c1\<lparr>curReadfile := hd (dataFiles c1)\<rparr>)" using core_osE(8)[OF c2] .
    then show ?thesis using False T[OF r2] c1 by (simp add: core_def)
  qed
qed

lemma doSwitchNextFile_live: "live c \<Longrightarrow> live (snd (doSwitchNextFile c))"
  unfolding doSwitchNextFile_def Let_def
proof (rule live_bindE, goal_cases)
  case 1
  then show ?case by (auto simp: okE_def live_on_pos)
next
  case (2 c)
  show ?case
  proof (cases "dataFiles c")
    case Nil
    with 2 show ?thesis by (simp add: okE_def)
  next
    case (Cons f fs)
    have f: "f \<noteq> []" using 2(2) Cons by (auto simp: live_def)
    have l1: "live (c\<lparr>curReadfile := f\<rparr>)" using 2(2) f by (simp add: live_def)
    have l2: "live (snd (os_open_read f (c\<lparr>curReadfile := f\<rparr>)))" using live_os(3)[OF l1] .
    obtain e c1 where c1: "os_open_read f (c\<lparr>curReadfile := f\<rparr>) = (e, c1)" by fastforce
    have "core c1 = core (c\<lparr>curReadfile := f\<rparr>)" using core_osE(8)[OF c1] .
    then have l3: "live (c1\<lparr>rfd := Some (curReadfile c1, 0)\<rparr>)" using l1 f by (simp add: core_def live_def)
    obtain st c2 where c2: "os_stat (curReadfile c1) (c1\<lparr>rfd := Some (curReadfile c1, 0)\<rparr>) = (st, c2)" by fastforce
    have l4: "live c2" using live_os(7)[OF c2 l3] .
    show ?thesis using Cons l2 l4 c1 c2
      by (cases e; cases st) (auto simp: failE_def okE_def live_on_pos)
  qed
qed

lemma switchNextFile_live: "live c \<Longrightarrow> live (snd (switchNextFile c))"
  unfolding switchNextFile_def
  by (auto intro!: live_bindE removeCurrentReadingFile_live doSwitchNextFile_live simp: okE_def)

lemma skipBadFile_snd: "snd (skipBadFile c) = snd (switchNextFile c)"
  "fst (skipBadFile c) = None \<longleftrightarrow> fst (switchNextFile c) = None"
  by (auto simp: skipBadFile_def okE_def failE_def split: prod.split option.split)

text \<open>A switch that succeeds leaves fewer batches, or nothing open.\<close>

definition read_measure :: "diskcache \<Rightarrow> nat" where
  "read_measure c = length (dataFiles c) + (if rfd c = None then 0 else 1)"

lemma switchNextFile_decreases:
  assumes "live c" "rfd c \<noteq> None" "switchNextFile c = (None, c')"
  shows "read_measure c' < read_measure c"
proof -
  have "curReadfile c \<noteq> []" using assms by (simp add: live_def)
  then obtain c1 where c1: "removeCurrentReadingFile c = (None, c1)" "doSwitchNextFile c1 = (None, c')"
    using assms(3) by (auto simp: switchNextFile_def bindE_None wrapE_None)
  have "dataFiles c1 = tl (dataFiles c)" "rfd c1 = None"
    using removeCurrentReadingFile_core[OF c1(1)] by (simp_all add: core_def)
  with doSwitchNextFile_core[OF c1(2)] assms(2) show ?thesis
    by (cases "dataFiles c") (auto simp: read_measure_def core_def split: if_splits)
qed

lemma set_off_core:
  "live (set_off n c) = live c" "rfd (set_off n c) = None \<longleftrightarrow> rfd c = None"
  "read_measure (set_off n c) = read_measure c"
  by (auto simp: set_off_def live_def read_measure_def split: option.split)

lemma core_read_measure: "core c' = core c \<Longrightarrow> read_measure c' = read_measure c"
  by (simp add: core_def read_measure_def)

lemma core_rfd: "core c' = core c \<Longrightarrow> rfd c' = rfd c"
  by (simp add: core_def)

lemma get_retry_returns:
  assumes "live c" "read_measure c < fuel"
  shows "get_retry fuel a c \<noteq> None"
  using assms
proof (induction fuel arbitrary: c)
  case 0
  then show ?case by simp
next
  case (Suc fuel)
  have again: "get_retry fuel a d' \<noteq> None"
    if "core d = core c \<or> (\<exists>n. d = set_off n c')" "core c' = core c" "rfd c \<noteq> None" "switchNextFile d = (None, d')" for d c' d'
  proof -
    have d: "live d" "rfd d \<noteq> None" "read_measure d = read_measure c"
      using that(1-3) Suc.prems(1) set_off_core core_live core_read_measure core_rfd by metis+
    show ?thesis
      using switchNextFile_decreases[OF d(1,2) that(4)] switchNextFile_live[OF d(1)] that(4) d(3) Suc.prems(2)
      by (intro Suc.IH) auto
  qed
  show ?case
  proof (cases "rfd c")
    case None
    then show ?thesis by simp
  next
    case (Some q)
    obtain f off where q: "q = (f, off)" by fastforce
    obtain r c1 where rd: "fd_read f off dataHeaderLen c = (r, c1)" by fastforce
    have cr: "core c1 = core c" using core_osE(5)[OF rd] .
    show ?thesis
      using Some q rd again[OF _ cr] cr skipBadFile_snd
      by (auto simp: Let_def split: prod.split sum.split option.split) (metis fst_conv snd_conv prod.collapse)+
  qed
qed

lemma doGet_start:
  assumes "live c" "get_wakeup wl c = (e, c1)"
  shows "live c1" "switchNextFile c1 = (e', c2) \<Longrightarrow> live c2"
proof -
  have "live (snd (get_wakeup wl c))"
    using assms(1) by (simp add: get_wakeup_def okE_def live_rotate_file)
  then show "live c1" using assms(2) by simp
  then show "switchNextFile c1 = (e', c2) \<Longrightarrow> live c2" using switchNextFile_live by (metis snd_conv)
qed

lemma doGet_returns_live:
  assumes "live c"
  shows "doGet wl a c \<noteq> None"
proof -
  obtain e c1 where c1: "get_wakeup wl c = (e, c1)" by fastforce
  obtain e2 c2 where c2: "(if rfd c1 = None then wrapE (WrapGetError (path c1) []) (switchNextFile c1) else okE c1) = (e2, c2)"
    by fastforce
  have "live c2"
    using doGet_start[OF assms c1] c2 by (cases "switchNextFile c1") (auto simp: okE_def wrapE_def split: if_splits)
  moreover have "read_measure c2 < length (dataFiles c2) + 2" by (simp add: read_measure_def)
  ultimately have "get_retry (length (dataFiles c2) + 2) a c2 \<noteq> None" by (rule get_retry_returns)
  then show ?thesis using c1 c2 by (auto simp: doGet_def get_fail_def simp del: get_retry.simps split: option.split)
qed

subsection \<open>Every operation keeps the invariant\<close>

lemma live_get_updatePos: "live c \<Longrightarrow> live (snd (snd (get_updatePos n e d c)))"
proof -
  assume l: "live c"
  obtain r c1 where c1: "on_pos (\<lambda>s. snd (dumpFile s)) (c\<lparr>cpos := (cpos c)\<lparr>Seek := Seek (cpos c) + int (dataHeaderLen + n)\<rparr>\<rparr>) = (r, c1)"
    by fastforce
  have "live c1" using core_live[OF core_on_posE(3)[OF c1]] l by simp
  then show ?thesis using l c1 by (auto simp: get_updatePos_def Let_def split: option.split)
qed

lemma live_get_record:
  assumes l: "live c"
  shows "live (snd (snd (get_record a f off n c)))"
proof (cases "readbuf_len a n < n")
  case True
  have "live c1" if "fd_call c = (e, c1)" for e c1 using that l core_osE(4) core_live by metis
  with True show ?thesis
    by (auto simp: get_record_def get_fail_def set_off_core Let_def split: prod.split option.split)
next
  case False
  obtain r c1 where rd: "fd_read f off n c = (r, c1)" by fastforce
  have l1: "live c1" using core_live[OF core_osE(5)[OF rd]] l by simp
  have l2: "live (set_off k c1)" for k using l1 set_off_core by simp
  have sk: "live d1" if "fd_seek m (set_off k c1) = (e, d1)" for e d1 m k
    using that l2 core_osE(6) core_live by metis
  from False rd l1 l2 sk live_get_updatePos show ?thesis
    by (auto simp: get_record_def get_fail_def set_off_core Let_def split: prod.split option.split sum.split)
qed

lemma live_get_retry: "get_retry fuel a c = Some (e, d, c') \<Longrightarrow> live c \<Longrightarrow> live c'"
proof (induction fuel arbitrary: c)
  case 0
  then show ?case by simp
next
  case (Suc fuel)
  have sw: "live d'" if "switchNextFile d = (x, d')" "live d" for d x d'
    using switchNextFile_live[OF that(2)] that(1) by simp
  have sb: "live d'" if "skipBadFile d = (x, d')" "live d" for d x d'
    using switchNextFile_live[OF that(2)] that(1) skipBadFile_snd(1)[of d] by simp
  show ?case
  proof (cases "rfd c")
    case None
    with Suc.prems show ?thesis by (simp add: get_fail_def)
  next
    case (Some q)
    obtain f off where q: "q = (f, off)" by fastforce
    obtain r c1 where rd: "fd_read f off dataHeaderLen c = (r, c1)" by fastforce
    have l1: "live c1" using core_live[OF core_osE(5)[OF rd]] Suc.prems(2) by simp
    have l2: "live (set_off n c1)" for n using l1 set_off_core by simp
    show ?thesis using Suc.prems(1) Some q rd sw[OF _ l2] sb[OF _ l2] sb[OF _ l1] Suc.IH live_get_record[OF l2]
      by (auto simp: get_fail_def Let_def split: prod.splits sum.splits option.splits if_splits) (metis snd_conv)+
  qed
qed

lemma live_doGet: "doGet wl a c = Some (e, d, c') \<Longrightarrow> live c \<Longrightarrow> live c'"
proof -
  assume g: "doGet wl a c = Some (e, d, c')" and l: "live c"
  obtain e1 c1 where c1: "get_wakeup wl c = (e1, c1)" by fastforce
  obtain e2 c2 where c2: "(if rfd c1 = None then wrapE (WrapGetError (path c1) []) (switchNextFile c1) else okE c1) = (e2, c2)"
    by fastforce
  have l1: "live c1" and l2: "live c2"
    using doGet_start[OF l c1] c2 by (cases "switchNextFile c1"; auto simp: okE_def wrapE_def split: if_splits)+
  show ?thesis
    using g c1 c2 l l1 l2 live_get_retry by (auto simp: doGet_def get_fail_def simp del: get_retry.simps split: if_splits option.splits)
qed

lemma core_pos_close: "core (snd (on_pos pos_close c)) = core c"
  by (rule core_pos_methods)
    (auto simp: pos_close_def with_pos_def okE_def split: prod.split)

lemma core_unlock: "core (snd (unlock lf c)) = core c"
  by (auto simp: unlock_def split: prod.split dest!: core_osE)

lemma live_close_fd: "close_fd c = (es, c1) \<Longrightarrow> live c \<Longrightarrow> live c1"
  using live_os(1)[of c] by (auto simp: close_fd_def split: prod.splits option.splits)

text \<open>The four things \<open>Close\<close> gives back, one after the other.\<close>

definition close_pos :: "diskcache \<Rightarrow> go_err list \<times> diskcache" where
  "close_pos c0 = (case on_pos pos_close c0 of (None, c) \<Rightarrow> ([], c)
      | (Some e, c) \<Rightarrow> ([WrapPosError (path c) e], c))"

definition close_lock :: "diskcache \<Rightarrow> go_err list \<times> diskcache" where
  "close_lock c0 = (case (noLock c0, cflock c0) of
                         (False, Some lf) \<Rightarrow>
                           (case unlock lf (c0\<lparr>cflock := None\<rparr>) of
                              ([], c) \<Rightarrow> ([], c)
                            | (es, c) \<Rightarrow> ([WithPath (path c) (NewCacheError OpUnlock (JoinErr es))], c))
                       | _ \<Rightarrow> ([], c0))"

lemma Close_steps:
  assumes "\<not> closed c"
  obtains e1 c1 e2 c2 e3 c3 e4 c4 where
    "(if rfd c \<noteq> None then close_fd (c\<lparr>closed := True, rfd := None\<rparr>) else ([], c\<lparr>closed := True\<rparr>)) = (e1, c1)"
    "(if wfd c1 \<noteq> None then close_fd (c1\<lparr>wfd := None\<rparr>) else ([], c1)) = (e2, c2)"
    "close_pos c2 = (e3, c3)" "close_lock c3 = (e4, c4)"
    "Close c = (close_errs (e1 @ e2 @ e3 @ e4), c4\<lparr>closeErr := close_errs (e1 @ e2 @ e3 @ e4)\<rparr>)"
proof -
  define c0 where "c0 = c\<lparr>closed := True\<rparr>"
  obtain e1 c1 where c1: "(if rfd c0 \<noteq> None then close_fd (c0\<lparr>rfd := None\<rparr>) else ([], c0)) = (e1, c1)" by fastforce
  obtain e2 c2 where c2: "(if wfd c1 \<noteq> None then close_fd (c1\<lparr>wfd := None\<rparr>) else ([], c1)) = (e2, c2)" by fastforce
  obtain e3 c3 where c3: "close_pos c2 = (e3, c3)" by fastforce
  obtain e4 c4 where c4: "close_lock c3 = (e4, c4)" by fastforce
  have "Close c = (close_errs (e1 @ e2 @ e3 @ e4), c4\<lparr>closeErr := close_errs (e1 @ e2 @ e3 @ e4)\<rparr>)"
    unfolding Close_def Let_def c0_def[symmetric] c1 using assms
    by (simp only: c2 prod.case c3[unfolded close_pos_def] c4[unfolded close_lock_def prod.case] if_False)
  with c1 c2 c3 c4 show thesis by (intro that) (auto simp: c0_def)
qed

lemma live_Close:
  assumes l: "live c"
  shows "live (snd (Close c))"
proof (cases "closed c")
  case True
  then show ?thesis using l by (simp add: Close_def)
next
  case False
  then obtain e1 c1 e2 c2 e3 c3 e4 c4 where
    c1: "(if rfd c \<noteq> None then close_fd (c\<lparr>closed := True, rfd := None\<rparr>) else ([], c\<lparr>closed := True\<rparr>)) = (e1, c1)"
    and c2: "(if wfd c1 \<noteq> None then close_fd (c1\<lparr>wfd := None\<rparr>) else ([], c1)) = (e2, c2)"
    and c3: "close_pos c2 = (e3, c3)" and c4: "close_lock c3 = (e4, c4)"
    and cl: "Close c = (close_errs (e1 @ e2 @ e3 @ e4), c4\<lparr>closeErr := close_errs (e1 @ e2 @ e3 @ e4)\<rparr>)"
    by (rule Close_steps)
  have "live (c\<lparr>closed := True\<rparr>)" "live (c\<lparr>closed := True, rfd := None\<rparr>)" using l by (simp_all add: live_def)
  then have l1: "live c1" using c1 live_close_fd by (metis Pair_inject)
  have "live (c1\<lparr>wfd := None\<rparr>)" using l1 by (simp add: live_def)
  then have l2: "live c2" using c2 l1 live_close_fd by (auto split: if_splits)
  have "core c3 = core c2" using core_pos_close[of c2] c3 by (auto simp: close_pos_def split: prod.splits option.splits)
  then have l3: "live c3" using l2 core_live by blast
  have "live d" if "unlock lf (c3\<lparr>cflock := None\<rparr>) = (es, d)" for lf es d
    using core_live[of d c3] core_unlock[of lf "c3\<lparr>cflock := None\<rparr>"] that l3 by (simp add: core_def)
  then have "live c4" using c4 l3
    by (auto simp: close_lock_def split: bool.splits option.splits prod.splits list.splits)
  then show ?thesis using cl by (simp add: live_def)
qed

text \<open>What \<open>Open\<close> starts with.\<close>

lemma live_loadUnfinishedFile: "live c \<Longrightarrow> live (snd (loadUnfinishedFile c))"
proof -
  assume l: "live c"
  obtain st c1 where c1: "os_stat (posfname (cpos c)) c = (st, c1)" by fastforce
  have l1: "live c1" using live_os(7)[OF c1 l] .
  obtain r c2 where c2: "posFromFile (posfname (cpos c1)) c1 = (r, c2)" by fastforce
  have "c2 = snd (os_read_file (Clean (posfname (cpos c1))) c1)"
    using c2 by (auto simp: posFromFile_def split: prod.splits sum.splits if_splits)
  then have l2: "live c2" using core_live[of c2 c1] l1 by simp
  have nm: "Name p \<noteq> None \<and> Name p \<noteq> Some []" if "r = Inr (Some p)" for p
    using c2 that by (auto simp: posFromFile_def UnmarshalBinary_def split: prod.splits sum.splits if_splits)
  have opn: "live (snd (bindE (wrapE g (os_open_read f d)) (\<lambda>c. bindE (wrapE (h c) (fd_seek n c)) (\<lambda>c.
      okE (c\<lparr>rfd := Some (f, k), curReadfile := f, cpos := q c\<rparr>)))))" if "live d" "f \<noteq> []" for d g h f n k q
  proof (rule live_bindE, goal_cases)
    case 1
    show ?case using live_os(3) that by simp
  next
    case (2 c)
    then show ?case using core_live[of "snd (fd_seek n c)" c] that
      by (intro live_bindE) (auto simp: okE_def live_def)
  qed
  show ?thesis
  proof (cases st)
    case (Inl e)
    with c1 l1 show ?thesis by (simp add: loadUnfinishedFile_def okE_def)
  next
    case st: (Inr si)
    show ?thesis
    proof (cases "\<exists>p. r = Inr (Some p)")
      case False
      with st c1 c2 l2 show ?thesis
        by (cases r) (auto simp: loadUnfinishedFile_def okE_def failE_def split: option.split)
    next
      case True
      then obtain p where p: "r = Inr (Some p)" by blast
      then obtain f where f: "Name p = Some f" "f \<noteq> []" using nm by blast
      obtain s3 c3 where c3: "os_stat f c2 = (s3, c3)" by fastforce
      have l3: "live c3" using live_os(7)[OF c3 l2] .
      show ?thesis using st c1 c2 p f c3 l3 live_on_pos(1)[OF l3] opn[OF l3 f(2)]
        by (cases s3) (simp_all add: loadUnfinishedFile_def Let_def)
    qed
  qed
qed

lemma core_open_lock: "core (snd (open_lock c)) = core c"
proof -
  have t: "core (snd (tryLock f d)) = core d" for f d
    unfolding tryLock_def
    by (rule core_bindE) (auto simp: okE_def failE_def split: prod.split option.split dest: core_osE)
  show ?thesis unfolding open_lock_def Let_def
    by (auto simp: okE_def t intro!: core_bindE) (simp add: core_def)
qed

lemma core_let: "core e = k \<Longrightarrow> (\<And>d. core d = k \<Longrightarrow> core (b d) = k) \<Longrightarrow> core (let d = e in b d) = k"
  by simp

lemma core_case: "core d = k \<Longrightarrow> (\<And>i. core (f i) = k) \<Longrightarrow> core (case x of None \<Rightarrow> d | Some i \<Rightarrow> f i) = k"
  by (cases x) auto

lemma core_syncEnv: "core (syncEnv pd env c) = core c"
  unfolding syncEnv_def by (intro core_let core_case) (auto simp: core_def)

lemma live_open_walk: "live c \<Longrightarrow> live (snd (open_walk c))"
proof -
  assume l: "live c"
  obtain e c1 where c1: "fd_call c = (e, c1)" by fastforce
  have "live c1" using core_live[OF core_osE(4)[OF c1]] l by simp
  with c1 show ?thesis
    by (cases e) (auto simp: open_walk_def failE_def okE_def Let_def live_def walk_files_props(1) in_dir_not_Nil)
qed

lemma live_doOpen: "live c \<Longrightarrow> live (snd (doOpen pd env c))"
proof -
  assume "live c"
  then have l0: "live (open_defaults c)" by (simp add: open_defaults_def Let_def live_def)
  have mk: "core (snd (os_mkdir_all p d)) = core d" for p d
    by (auto simp: os_mkdir_all_def split: prod.split option.split dest: core_popE)
  have cw: "core (d\<lparr>curWriteFile := f\<rparr>) = core d" for d f by (simp add: core_def)
  have se: "live (syncEnv pd env ((if noPos d then d else d\<lparr>cpos := q\<rparr>)\<lparr>curWriteFile := f\<rparr>)) = live d" for d f q
    by (rule core_live) (simp add: core_syncEnv cw)
  have l: "live (snd (open_lock d)) = live d" "live (snd (openWriteFile d)) = live d"
    "live (snd (os_mkdir_all p d)) = live d" for p d
    by (rule core_live, simp add: core_open_lock mk)+
  show ?thesis
    unfolding doOpen_def Let_def
    by (intro live_bindE) (auto intro!: live_open_walk live_loadUnfinishedFile live_bindE simp: l0 l se okE_def)
qed

lemma live_Open: "(\<And>x d. x \<in> set opts \<Longrightarrow> core (x d) = core d) \<Longrightarrow> live (snd (Open pd env opts w))"
proof -
  assume o: "\<And>x d. x \<in> set opts \<Longrightarrow> core (x d) = core d"
  have "core (fold (\<lambda>x c. x c) opts d) = core d" for d
    using o by (induction opts arbitrary: d) auto
  then have "live (fold (\<lambda>x c. x c) opts (defaultInstance w))"
    using core_live[of _ "defaultInstance w"] by (simp add: defaultInstance_def live_def)
  then show ?thesis by (simp add: Open_def Let_def live_doOpen)
qed

subsection \<open>Reachable states\<close>

text \<open>
  Everything that can happen to a cache: it is opened with any options of options.go, its methods
  are called in any order with any arguments, whether they succeed or fail, and between two calls
  the clock moves and the future faults and the files of the system are anything at all.
\<close>

inductive_set cache_option :: "CacheOption set" where
  "WithNoFallbackOnError b \<in> cache_option" | "WithFILODrop b \<in> cache_option" | "WithNoDrop b \<in> cache_option"
| "WithNoLock b \<in> cache_option" | "WithNoPos b \<in> cache_option" | "WithPosUpdate n m \<in> cache_option"
| "WithWakeup n \<in> cache_option" | "WithBatchSize n \<in> cache_option" | "WithMaxDataSize n \<in> cache_option"
| "WithCapacity n \<in> cache_option" | "WithExtraCapacity n \<in> cache_option" | "WithNoSync b \<in> cache_option"
| "WithDirPermission n \<in> cache_option" | "WithFilePermission n \<in> cache_option" | "WithPathOption p \<in> cache_option"

inductive cache_reach :: "diskcache \<Rightarrow> bool" where
  reach_Open: "set opts \<subseteq> cache_option \<Longrightarrow> Open pd env opts w = (None, c) \<Longrightarrow> cache_reach c"
| reach_Put: "cache_reach c \<Longrightarrow> Put d c = (e, c') \<Longrightarrow> cache_reach c'"
| reach_StreamPut: "cache_reach c \<Longrightarrow> StreamPut r n c = (e, c') \<Longrightarrow> cache_reach c'"
| reach_Get: "cache_reach c \<Longrightarrow> doGet wl a c = Some (e, d, c') \<Longrightarrow> cache_reach c'"
| reach_Rotate: "cache_reach c \<Longrightarrow> Rotate c = (e, c') \<Longrightarrow> cache_reach c'"
| reach_Close: "cache_reach c \<Longrightarrow> Close c = (e, c') \<Longrightarrow> cache_reach c'"
| reach_world: "cache_reach c \<Longrightarrow> cache_reach (c\<lparr>files := fs, dirs := ds, flocks := fl, faults := fa, now := t\<rparr>)"

lemma cache_option_core: "x \<in> cache_option \<Longrightarrow> core (x d) = core d"
  by (cases rule: cache_option.cases) (auto simp: option_defs core_def Let_def)

lemma reach_live: "cache_reach c \<Longrightarrow> live c"
proof (induction rule: cache_reach.induct)
  case (reach_Open opts pd env w c)
  then have "live (snd (Open pd env opts w))" by (intro live_Open cache_option_core) auto
  then show ?case using reach_Open by simp
next
  case (reach_world c fs ds fl fa t)
  then show ?case by (simp add: live_def)
qed (metis live_Put snd_conv, metis live_StreamPut snd_conv, metis live_doGet,
     metis live_Rotate snd_conv, metis live_Close snd_conv)

end
