(* ===== verification/Diskcache_Drop.thy ===== *)
theory Diskcache_Drop
  imports Diskcache_Faults
begin

section \<open>Disk cache: giving batches up, streams, locks, closing\<close>

text \<open>
  The operations beside the queue: what dropping the oldest batch does to the queue, when no batch
  is open for reading and when the dropped one is; \<open>StreamPut\<close>; who holds the directory; what is
  left of a cache that was closed.
\<close>

subsection \<open>Dropping\<close>

text \<open>Forgetting the first batches of the reading list, with or without their files.\<close>

lemma forget_inv:
  fixes n :: int
  assumes inv: "dc_inv c" and df: "dataFiles c = pre @ fs" and gs: "\<And>h. h \<notin> set pre \<Longrightarrow> map_of gs h = fget h c"
  defines "c' \<equiv> c\<lparr>files := gs, rfd := None, csize := n, curReadfile := [], dataFiles := fs\<rparr>"
  shows "dc_inv c'" "writing c' = writing c" "pending c' = concat (map (batch c) fs)"
proof -
  have "sorted_wrt (<) (pre @ fs)" using inv df by (simp add: dc_inv_def names_inv_def)
  then have dj: "h \<notin> set pre" if "h \<in> set fs" for h using that by (auto simp: sorted_wrt_append)
  have same: "fget h c' = fget h c" if "h \<notin> set pre" for h using that gs by (simp add: c'_def)
  have wp: "curWriteFile c \<notin> set pre" "\<not> noPos c \<Longrightarrow> posfname (cpos c) \<notin> set pre"
    using dataFiles_facts(1,6)[OF inv] df by auto
  have ct: "content h c' = content h c" if "h \<notin> set pre" for h using same[OF that] by (rule content_cong)
  have f: "dataFiles c' = fs" "curWriteFile c' = curWriteFile c" "path c' = path c" "rfd c' = None"
    "curReadfile c' = []" "wfd c' = wfd c" "curBatchSize c' = curBatchSize c" "closed c' = closed c"
    "faults c' = faults c" "dirs c' = dirs c" "noPos c' = noPos c" "cpos c' = cpos c"
    by (simp_all add: c'_def)
  show "dc_inv c'"
    using inv df same ct wp dj
    by (auto simp: dc_inv_def sys_inv_def names_inv_def files_inv_def write_inv_def pos_inv_def read_inv_def
        sorted_wrt_append f)
  show "writing c' = writing c" using ct[OF wp(1)] by (simp add: writing_def batch_def f)
  have "map (batch c') fs = map (batch c) fs" using dj ct by (simp add: batch_def)
  then show "pending c' = concat (map (batch c) fs)" by (simp only: pending_def f option.case)
qed

text \<open>Dropping the batch that is being read closes it but leaves \<open>curReadfile\<close> naming it.\<close>

lemma dropBatch_reading:
  assumes inv: "dc_inv c" and r: "rfd c = Some (f, off)" and df: "dataFiles c = f # fs"
  shows "dropBatch c = (None, c\<lparr>files := AList.delete f (files c), rfd := None,
           csize := csize c - int (length (content f c)), dataFiles := fs\<rparr>)"
proof -
  have f: "f \<notin> set (dirs c)" "fget f c = Some (content f c)" "faults c = []" "curReadfile c = f"
    using dataFiles_facts(3,4)[OF inv, of f] df fget_content[where f = f and c = c] inv r
    by (auto simp: dc_inv_def sys_inv_def read_inv_def)
  then show ?thesis using r df by (simp add: dropBatch_def os_defs)
qed

lemma dropBatch_reading_next:
  assumes inv: "dc_inv c" and r: "rfd c = Some (f, off)" and df: "dataFiles c = f # g # fs"
  defines "c1 \<equiv> snd (dropBatch c)"
  shows "switchNextFile c1 = doSwitchNextFile (c\<lparr>files := AList.delete f (files c), rfd := None,
           csize := csize c - int (length (content f c)), curReadfile := [], dataFiles := fs\<rparr>)"
proof -
  have "f \<notin> set (dirs c)" "faults c = []" "curReadfile c = f" "f \<noteq> []"
    using dataFiles_facts(2,3)[OF inv, of f] df inv r by (auto simp: dc_inv_def sys_inv_def read_inv_def)
  then show ?thesis
    using dropBatch_reading[OF inv r df]
    by (simp add: c1_def switchNextFile_def removeCurrentReadingFile_def os_defs)
qed

text \<open>\<open>Put\<close> on a full cache with a batch to give up, while nothing is open for reading.\<close>

lemma Put_drops:
  assumes inv: "dc_inv c" and r: "rfd c = None" and df: "dataFiles c = f # fs"
    and full: "IsFull d c" "\<not> noDrop c" "\<not> filoDrop c" and d: "rec_ok d" and fit: "fits d c"
    and nid: "id_ok (next_id c)"
  shows "\<exists>c'. Put d c = (None, c') \<and> dc_inv c' \<and> queue c' = concat (map (batch c) fs) @ writing c @ [d]"
proof -
  let ?n = "csize c - int (length (content f c))"
  define c1 where "c1 = c\<lparr>files := AList.delete f (files c), rfd := None, csize := ?n, curReadfile := [], dataFiles := fs\<rparr>"
  have "curReadfile c = []" using inv r by (simp add: dc_inv_def read_inv_def)
  then have eq: "dropBatch c = (None, c1)" using dropBatch_ok[OF inv r df] r by (simp add: c1_def)
  note fi = forget_inv[of c "[f]" fs "AList.delete f (files c)" ?n, OF inv, folded c1_def]
  have i1: "dc_inv c1" "queue c1 = concat (map (batch c) fs) @ writing c" using fi df by (auto simp: queue_def)
  have "next_id c1 \<le> next_id c" "settings c1 = settings c"
    using df next_id_nonneg[OF inv] by (auto simp: c1_def next_id_def settings_def)
  then have n1: "id_ok (next_id c1)" and f1: "fits d c1"
    using nid next_id_nonneg[OF i1(1)] fit by (auto simp: id_ok_def fits_def settings_def)
  obtain c' where c': "put_append d c1 = (None, c')" "keeps1 c1 c'" "queue c' = queue c1 @ [d]"
    using put_append_keeps[OF i1(1) d f1 n1] by blast
  have "\<not> closed c" using inv by (simp add: dc_inv_def)
  then have "Put d c = (None, c')" using full eq c'(1) by (simp add: Put_def put_make_room_def)
  with c' i1 show ?thesis by (simp add: keeps1_def)
qed

subsection \<open>Streams\<close>

lemma last_write_inv [simp]:
  "dc_inv (c\<lparr>wfdLastWrite := t\<rparr>) = dc_inv c" "pending (c\<lparr>wfdLastWrite := t\<rparr>) = pending c"
  "writing (c\<lparr>wfdLastWrite := t\<rparr>) = writing c" "next_id (c\<lparr>wfdLastWrite := t\<rparr>) = next_id c"
proof -
  have b: "batch (c\<lparr>wfdLastWrite := t\<rparr>) = batch c" and ct: "content f (c\<lparr>wfdLastWrite := t\<rparr>) = content f c" for f
    by (auto simp: batch_def content_def)
  show "pending (c\<lparr>wfdLastWrite := t\<rparr>) = pending c" "writing (c\<lparr>wfdLastWrite := t\<rparr>) = writing c"
    by (simp_all add: pending_def writing_def b ct split: option.split)
  show "dc_inv (c\<lparr>wfdLastWrite := t\<rparr>) = dc_inv c"
    by (simp add: dc_inv_def sys_inv_def names_inv_def files_inv_def write_inv_def pos_inv_def read_inv_def ct
        split: option.split)
  show "next_id (c\<lparr>wfdLastWrite := t\<rparr>) = next_id c" by (simp add: next_id_def)
qed

lemma stream_write_ok:
  assumes inv: "dc_inv c" and n: "0 \<le> n" "nat n \<le> length (avail r)"
  shows "\<exists>fs. map_of fs = put_files (take (nat n) (avail r)) c \<and>
     stream_write r n c =
       (let c1 = (after_put fs (take (nat n) (avail r)) c)\<lparr>wfdLastWrite := wfdLastWrite c\<rparr> in
        if curBatchSize c1 \<ge> batchSize c1
        then wrapE (\<lambda>e. WithPath (path c1) (NewCacheError OpStreamPut e)) (rotate_file c1) else okE c1)"
proof -
  let ?d = "curWriteFile c" and ?x = "take (nat n) (avail r)"
  have w: "faults c = []" "wfd c = Some ?d" "fget ?d c = Some (content ?d c)"
    using inv fget_content[where f = ?d and c = c] by (auto simp: dc_inv_defs)
  have lx: "length ?x = nat n" using n by simp
  then have fr: "PutUint32 n @ ?x = frame ?x" using n by (simp add: frame_def)
  let ?fs = "AList.update ?d (content ?d c @ frame ?x) (files c)"
  show ?thesis
    by (intro exI[of _ ?fs])
      (use w lx fr[symmetric] n in \<open>simp add: stream_write_def CopyN_def os_defs writeFileName_def after_put_def put_files_def
        stream_fallback_def Let_def min_absorb2\<close>)
qed

lemma StreamPut_ok:
  assumes inv: "dc_inv c" and n: "0 < n" "nat n \<le> length (avail r)" "n < EOFHint"
    and room: "\<not> (capacity c > 0 \<and> csize c + n > capacity c)" "\<not> (maxDataSize c > 0 \<and> n > maxDataSize c)"
    and nid: "id_ok (next_id c)"
  shows "\<exists>c'. StreamPut r n c = (None, c') \<and> dc_inv c' \<and> queue c' = queue c @ [take (nat n) (avail r)]"
proof -
  let ?x = "take (nat n) (avail r)"
  have ncl: "\<not> closed c" and w: "wfd c = Some (curWriteFile c)"
    using inv unfolding dc_inv_def write_inv_def by blast+
  obtain fs where fs: "map_of fs = put_files ?x c" and sw: "stream_write r n c =
       (let c1 = (after_put fs ?x c)\<lparr>wfdLastWrite := wfdLastWrite c\<rparr> in
        if curBatchSize c1 \<ge> batchSize c1
        then wrapE (\<lambda>e. WithPath (path c1) (NewCacheError OpStreamPut e)) (rotate_file c1) else okE c1)"
    using stream_write_ok[OF inv, of n r] n by auto
  define c1 where "c1 = (after_put fs ?x c)\<lparr>wfdLastWrite := wfdLastWrite c\<rparr>"
  have "rec_ok ?x" using n by (simp add: rec_ok_def)
  note ap = after_put_inv[OF inv this fs]
  have i1: "dc_inv c1" "queue c1 = queue c @ [?x]" "id_ok (next_id c1)"
    using ap nid by (simp_all add: c1_def queue_def)
  have "StreamPut r n c = stream_write r n c"
    using n room ncl w by (auto simp: StreamPut_def ensureWriteFile_ok[OF ncl w])
  then have eq: "StreamPut r n c = (if curBatchSize c1 \<ge> batchSize c1
        then wrapE (\<lambda>e. WithPath (path c1) (NewCacheError OpStreamPut e)) (rotate_file c1) else okE c1)"
    by (simp add: sw Let_def c1_def)
  show ?thesis
  proof (cases "curBatchSize c1 \<ge> batchSize c1")
    case True
    obtain gs where gr: "rotate_file c1 = (None, after_rotate gs c1)" "map_of gs = rotated_files c1"
      using rotate_ok[OF i1(1,3)] by blast
    with True eq i1 after_rotate_inv[OF i1(1,3) gr(2)] show ?thesis by (simp add: queue_def)
  next
    case False
    with eq i1 show ?thesis by (simp add: okE_def)
  qed
qed

subsection \<open>The directory lock\<close>

text \<open>Who holds which lock is changed by the lock calls only, whatever fails.\<close>

definition held :: "diskcache \<Rightarrow> string \<times> string list" where
  "held c = (path c, flocks c)"

lemma held_popE: "pop_fault c = (x, c1) \<Longrightarrow> held c1 = held c"
  by (auto simp: pop_fault_def held_def split: list.splits)

lemma held_upd [simp]:
  "held (c\<lparr>files := fs\<rparr>) = held c" "held (c\<lparr>dirs := ds\<rparr>) = held c" "held (c\<lparr>cpos := p\<rparr>) = held c"
  "held (c\<lparr>curBatchSize := n\<rparr>) = held c" "held (c\<lparr>wfd := w\<rparr>) = held c" "held (c\<lparr>wfdLastWrite := n\<rparr>) = held c"
  "held (c\<lparr>csize := n\<rparr>) = held c" "held (c\<lparr>dataFiles := fs'\<rparr>) = held c" "held (c\<lparr>rfd := r\<rparr>) = held c"
  "held (c\<lparr>curReadfile := f\<rparr>) = held c" "held (c\<lparr>curWriteFile := f\<rparr>) = held c" "held (c\<lparr>cflock := cf\<rparr>) = held c"
  by (simp_all add: held_def)

lemma held_os [simp]:
  "held (snd (os_stat f c)) = held c" "held (snd (os_open_append f c)) = held c"
  "held (snd (os_open_trunc f c)) = held c" "held (snd (os_open_read f c)) = held c"
  "held (snd (os_read_file f c)) = held c" "held (snd (fd_write_start f bs c)) = held c"
  "held (snd (fd_call c)) = held c" "held (snd (fd_truncate0 f c)) = held c"
  "held (snd (fd_seek n c)) = held c" "held (snd (os_mkdir_all f c)) = held c"
  by (auto simp: os_defs Let_def split: prod.split option.split dest: held_popE)

lemma held_osE:
  "os_stat f c = (st, c1) \<Longrightarrow> held c1 = held c" "os_read_file f c = (rd, c1) \<Longrightarrow> held c1 = held c"
  "fd_call c = (e, c1) \<Longrightarrow> held c1 = held c" "os_mkdir_all f c = (e, c1) \<Longrightarrow> held c1 = held c"
  "os_open_append f c = (e, c1) \<Longrightarrow> held c1 = held c"
  by (metis held_os snd_conv)+

lemma held_bindE:
  "held (snd r) = k \<Longrightarrow> (\<And>c. held c = k \<Longrightarrow> held (snd (f c)) = k) \<Longrightarrow> held (snd (bindE r f)) = k"
  by (rule bindE_snd_inv[where I = "\<lambda>c. held c = k"])

lemma held_openWriteFile: "held (snd (openWriteFile c)) = held c"
  by (auto simp: openWriteFile_def Let_def okE_def failE_def intro!: held_bindE
      split: prod.split sum.split dest: held_osE)

lemma held_open_walk: "held (snd (open_walk c)) = held c"
  by (auto simp: open_walk_def failE_def okE_def Let_def split: prod.split option.split dest!: held_osE)

lemma held_pos_reset: "held (snd (on_pos pos_reset c)) = held c"
proof -
  have o: "held (snd (snd (pos_open_fd s))) = held (snd s)" for s
    by (auto simp: pos_open_fd_def with_pos_def okE_def bindE_def wrapE_def split: prod.split option.split)
  have d: "held (snd (snd (doDumpFile s))) = held (snd s)" for s
  proof -
    let ?I = "\<lambda>t. held (snd t) = held (snd s)"
    have I: "?I (snd (bindE r f))" if "?I (snd r)" "\<And>t. ?I t \<Longrightarrow> ?I (snd (f t))" for r f
      by (rule bindE_snd_inv[where I = ?I]) (use that in auto)
    show ?thesis unfolding doDumpFile_def Let_def by (intro I) (auto intro!: I simp: o with_pos_def)
  qed
  have r: "held (snd (snd (pos_reset s))) = held (snd s)" for s
    unfolding pos_reset_def
    by (rule bindE_snd_inv[where I = "\<lambda>t. held (snd t) = held (snd s)"]) (auto simp: o d okE_def)
  show ?thesis using r[of "(cpos c, c)"] by (auto simp: on_pos_def split: prod.split)
qed

lemma held_posFromFile: "posFromFile f c = (r, c1) \<Longrightarrow> held c1 = held c"
  by (auto simp: posFromFile_def split: prod.splits sum.splits if_splits dest!: held_osE)

lemma held_loadUnfinishedFile: "held (snd (loadUnfinishedFile c)) = held c"
proof -
  obtain st c1 where c1: "os_stat (posfname (cpos c)) c = (st, c1)" by fastforce
  obtain r c2 where c2: "posFromFile (posfname (cpos c1)) c1 = (r, c2)" by fastforce
  have h: "held c1 = held c" "held c2 = held c" using held_osE(1)[OF c1] held_posFromFile[OF c2] by auto
  have opn: "held (snd (bindE (wrapE g (os_open_read f d)) (\<lambda>c. bindE (wrapE (h c) (fd_seek n c)) (\<lambda>c.
      okE (c\<lparr>rfd := Some (f, k), curReadfile := f, cpos := q c\<rparr>))))) = held d" for d g h f n k q
    by (intro held_bindE) (auto simp: okE_def)
  show ?thesis
  proof (cases "\<exists>si p. st = Inr si \<and> r = Inr (Some p)")
    case False
    with c1 c2 h show ?thesis
      by (cases st; cases r) (auto simp: loadUnfinishedFile_def okE_def failE_def split: option.split)
  next
    case True
    then obtain si p where p: "st = Inr si" "r = Inr (Some p)" by blast
    let ?nm = "case Name p of None \<Rightarrow> [] | Some n \<Rightarrow> n"
    obtain s3 c3 where c3: "os_stat ?nm c2 = (s3, c3)" by fastforce
    show ?thesis using p c1 c2 c3 h held_osE(1)[OF c3] held_pos_reset[of c3] opn[of _ ?nm c3]
      by (cases s3) (auto simp: loadUnfinishedFile_def Let_def okE_def)
  qed
qed

lemma held_open_defaults: "held (open_defaults c) = held c" "noLock (open_defaults c) = noLock c"
  by (simp_all add: open_defaults_def held_def Let_def)

lemma held_syncEnv: "held (syncEnv pd env c) = held c"
proof -
  have l: "held (let d = e in b d) = k" if "held e = k" "\<And>d. held d = k \<Longrightarrow> held (b d) = k" for e b k
    using that by simp
  have o: "held (case x of None \<Rightarrow> d | Some i \<Rightarrow> f i) = k" if "held d = k" "\<And>i. held (f i) = k" for x :: "'x option" and d f k
    using that by (cases x) auto
  show ?thesis unfolding syncEnv_def by (intro l o) (auto simp: held_def)
qed

lemma open_lock_any:
  assumes "\<not> noLock c"
  shows "newFlock (path c) \<in> set (flocks c) \<Longrightarrow> fst (open_lock c) \<noteq> None"
    "open_lock c = (None, c') \<Longrightarrow> held c' = (path c, newFlock (path c) # flocks c)"
proof -
  let ?f = "newFlock (path c)"
  obtain e c1 where c1: "os_open_append ?f c = (e, c1)" by fastforce
  have h: "path c1 = path c" "flocks c1 = flocks c" using held_osE(5)[OF c1] by (simp_all add: held_def)
  obtain x c2 where c2: "pop_fault c1 = (x, c2)" by fastforce
  have h2: "path c2 = path c1" "flocks c2 = flocks c1" using held_popE[OF c2] by (simp_all add: held_def)
  show "?f \<in> set (flocks c) \<Longrightarrow> fst (open_lock c) \<noteq> None"
    using assms c1 c2 h h2 by (cases e; cases x) (auto simp: open_lock_def tryLock_def sys_flock_def failE_def)
  show "open_lock c = (None, c') \<Longrightarrow> held c' = (path c, ?f # flocks c)"
    using assms c1 c2 h h2
    by (cases e; cases x) (auto simp: open_lock_def tryLock_def sys_flock_def failE_def okE_def held_def Let_def split: if_splits)
qed

lemma doOpen_lock:
  assumes nl: "\<not> noLock c"
  shows "newFlock (path c) \<in> set (flocks c) \<Longrightarrow> fst (doOpen pd env c) \<noteq> None"
    "doOpen pd env c = (None, c') \<Longrightarrow> held c' = (path c, newFlock (path c) # flocks c)"
proof -
  let ?d = "open_defaults c"
  obtain e c1 where c1: "os_mkdir_all (path ?d) ?d = (e, c1)" by fastforce
  have h: "path c1 = path c" "flocks c1 = flocks c" "noLock c1 = noLock c"
    using held_osE(4)[OF c1] held_open_defaults[of c] c1
    by (auto simp: held_def os_mkdir_all_def pop_fault_def split: prod.splits option.splits list.splits if_splits)
  obtain e2 c2 where c2: "open_lock c1 = (e2, c2)" by fastforce
  show "newFlock (path c) \<in> set (flocks c) \<Longrightarrow> fst (doOpen pd env c) \<noteq> None"
    using open_lock_any(1)[of c1] nl h c1 c2 by (cases e; cases e2) (auto simp: doOpen_def Let_def)
  assume ok: "doOpen pd env c = (None, c')"
  then have "e = None" "e2 = None" using c1 c2 by (cases e; cases e2; simp add: doOpen_def Let_def)+
  have h2: "held c2 = (path c, newFlock (path c) # flocks c)"
    using open_lock_any(2)[of c1 c2] nl h c2 \<open>e2 = None\<close> by simp
  have "held (snd (doOpen pd env c)) = held c2"
    using c1 c2 \<open>e = None\<close> \<open>e2 = None\<close>
    by (auto simp: doOpen_def Let_def held_openWriteFile held_syncEnv held_open_walk held_loadUnfinishedFile okE_def intro!: held_bindE)
  then show "held c' = (path c, newFlock (path c) # flocks c)" using ok h2 by simp
qed

subsection \<open>Closing\<close>

lemma pop_fault_more: "pop_fault c = (x, c1) \<Longrightarrow> c1 = c\<lparr>faults := tl (faults c)\<rparr> \<and> (faults c = [] \<longrightarrow> x = None)"
  by (cases "faults c") (auto simp: pop_fault_def)

lemma fd_call_more: "fd_call c = (e, c1) \<Longrightarrow> c1 = c\<lparr>faults := tl (faults c)\<rparr>"
  by (auto simp: fd_call_def split: prod.splits option.splits dest!: pop_fault_more)

lemma close_fd_more: "close_fd c = (es, c1) \<Longrightarrow> c1 = c\<lparr>faults := tl (faults c)\<rparr>"
  by (auto simp: close_fd_def split: prod.splits option.splits dest: fd_call_more)

lemma close_pos_more: "close_pos c = (es, c1) \<Longrightarrow>
    \<exists>fa. c1 = c\<lparr>faults := fa, cpos := (cpos c)\<lparr>posfd := False\<rparr>\<rparr> \<and> (faults c = [] \<longrightarrow> fa = [])"
proof -
  assume h: "close_pos c = (es, c1)"
  obtain e d where d: "fd_call c = (e, d)" by fastforce
  show ?thesis
  proof (cases "posfd (cpos c)")
    case True
    then have "c1 = c\<lparr>faults := tl (faults c), cpos := (cpos c)\<lparr>posfd := False\<rparr>\<rparr>"
      using h d fd_call_more[OF d] by (cases e) (auto simp: close_pos_def on_pos_def pos_close_def)
    then show ?thesis by auto
  next
    case False
    then have "c1 = c" using h by (simp add: close_pos_def on_pos_def pos_close_def okE_def)
    then show ?thesis using False by (intro exI[of _ "faults c"]) simp
  qed
qed

text \<open>
  The system's lock list after an attempt to release the lock on a file: the lock is gone, unless every releasing call failed, and then there is an error to
  report.
\<close>

definition released :: "string \<Rightarrow> bool \<Rightarrow> 'a os_scheme \<Rightarrow> string list \<Rightarrow> bool" where
  "released lf reported w fl \<longleftrightarrow>
     (fl = removeAll lf (flocks w) \<or> (fl = flocks w \<and> reported)) \<and> (faults w = [] \<longrightarrow> fl = removeAll lf (flocks w))"

lemma sys_funlock_more: "sys_funlock f c = (e, c1) \<Longrightarrow>
    \<exists>fl. c1 = c\<lparr>faults := tl (faults c), flocks := fl\<rparr> \<and> released f (e \<noteq> None) c fl"
  by (cases "faults c"; intro exI[of _ "flocks c1"]) (auto simp: sys_funlock_def pop_fault_def released_def split: option.splits)

lemma unlock_more: "unlock f c = (es, c1) \<Longrightarrow> \<exists>fa fl. c1 = c\<lparr>faults := fa, flocks := fl\<rparr> \<and> released f (es \<noteq> []) c fl"
proof -
  assume h: "unlock f c = (es, c1)"
  obtain x d where d: "sys_funlock f c = (x, d)" by fastforce
  obtain y d' where d': "sys_funlock f d = (y, d')" by fastforce
  from sys_funlock_more[OF d] sys_funlock_more[OF d'] obtain l l' where
    l: "d = c\<lparr>faults := tl (faults c), flocks := l\<rparr>" "released f (x \<noteq> None) c l"
    "d' = d\<lparr>faults := tl (faults d), flocks := l'\<rparr>" "released f (y \<noteq> None) d l'" by blast
  then have "c1 = c\<lparr>faults := tl (tl (faults c)), flocks := l'\<rparr>" using h d d' by (auto simp: unlock_def)
  moreover have "released f (es \<noteq> []) c l'" using l h d d' by (auto simp: unlock_def released_def)
  ultimately show ?thesis by blast
qed

definition lock_after :: "bool \<Rightarrow> diskcache \<Rightarrow> string list \<Rightarrow> bool" where
  "lock_after reported c fl \<longleftrightarrow> (if noLock c then fl = flocks c
     else case cflock c of None \<Rightarrow> fl = flocks c | Some lf \<Rightarrow> released lf reported c fl)"

lemma close_lock_more:
  "close_lock c = (es, c1) \<Longrightarrow>
   \<exists>fa fl. c1 = c\<lparr>faults := fa, flocks := fl, cflock := (if noLock c then cflock c else None)\<rparr> \<and> lock_after (es \<noteq> []) c fl"
proof -
  assume h: "close_lock c = (es, c1)"
  show ?thesis
  proof (cases "noLock c \<or> cflock c = None")
    case True
    then have "c1 = c" using h by (auto simp: close_lock_def split: bool.splits option.splits)
    then show ?thesis using True by (intro exI[of _ "faults c"] exI[of _ "flocks c"]) (auto simp: lock_after_def)
  next
    case False
    then obtain lf where lf: "cflock c = Some lf" "\<not> noLock c" by auto
    obtain es' d where d: "unlock lf (c\<lparr>cflock := None\<rparr>) = (es', d)" by fastforce
    then obtain fa fl where fl: "d = c\<lparr>cflock := None, faults := fa, flocks := fl\<rparr>" "released lf (es' \<noteq> []) (c\<lparr>cflock := None\<rparr>) fl"
      using unlock_more by blast
    moreover have "c1 = d" "es = [] \<longleftrightarrow> es' = []" using h lf d by (cases es'; auto simp: close_lock_def)+
    ultimately have "c1 = c\<lparr>faults := fa, flocks := fl, cflock := (if noLock c then cflock c else None)\<rparr>" "lock_after (es \<noteq> []) c fl"
      using lf by (simp_all add: lock_after_def released_def)
    then show ?thesis by blast
  qed
qed

lemma Close_result:
  assumes "\<not> closed c" "Close c = (e, c')"
  shows "closed c'" "closeErr c' = e" "rfd c' = None" "wfd c' = None" "\<not> posfd (cpos c')"
    "\<not> noLock c \<Longrightarrow> cflock c' = None" "files c' = files c" "dataFiles c' = dataFiles c" "path c' = path c"
    "lock_after (e \<noteq> None) c (flocks c')"
proof -
  obtain e1 c1 e2 c2 e3 c3 e4 c4 where
    c1: "(if rfd c \<noteq> None then close_fd (c\<lparr>closed := True, rfd := None\<rparr>) else ([], c\<lparr>closed := True\<rparr>)) = (e1, c1)"
    and c2: "(if wfd c1 \<noteq> None then close_fd (c1\<lparr>wfd := None\<rparr>) else ([], c1)) = (e2, c2)"
    and c3: "close_pos c2 = (e3, c3)" and c4: "close_lock c3 = (e4, c4)"
    and cl: "Close c = (close_errs (e1 @ e2 @ e3 @ e4), c4\<lparr>closeErr := close_errs (e1 @ e2 @ e3 @ e4)\<rparr>)"
    by (rule Close_steps[OF assms(1)])
  obtain a1 where x1: "c1 = c\<lparr>closed := True, rfd := None, faults := a1\<rparr>" and f1: "faults c = [] \<longrightarrow> a1 = []"
  proof (cases "rfd c")
    case None
    then have "c1 = c\<lparr>closed := True, rfd := None, faults := faults c\<rparr>" using c1 by auto
    then show thesis using that by blast
  next
    case (Some q)
    then show thesis using c1 close_fd_more[of "c\<lparr>closed := True, rfd := None\<rparr>" e1 c1] that by auto
  qed
  obtain a2 where x2: "c2 = c1\<lparr>wfd := None, faults := a2\<rparr>" and f2: "faults c1 = [] \<longrightarrow> a2 = []"
  proof (cases "wfd c1")
    case None
    then have "c2 = c1\<lparr>wfd := None, faults := faults c1\<rparr>" using c2 by simp
    then show thesis using that by blast
  next
    case (Some q)
    then show thesis using c2 close_fd_more[of "c1\<lparr>wfd := None\<rparr>" e2 c2] that by auto
  qed
  obtain a3 where x3: "c3 = c2\<lparr>faults := a3, cpos := (cpos c2)\<lparr>posfd := False\<rparr>\<rparr>" and f3: "faults c2 = [] \<longrightarrow> a3 = []"
    using close_pos_more[OF c3] by blast
  obtain a4 l4 where x4: "c4 = c3\<lparr>faults := a4, flocks := l4, cflock := (if noLock c3 then cflock c3 else None)\<rparr>"
    and l4: "lock_after (e4 \<noteq> []) c3 l4"
    using close_lock_more[OF c4] by blast
  have c': "c' = c4\<lparr>closeErr := e\<rparr>" and e: "e = close_errs (e1 @ e2 @ e3 @ e4)" using assms(2) cl by auto
  show "closed c'" "closeErr c' = e" "rfd c' = None" "wfd c' = None" "\<not> posfd (cpos c')"
    "\<not> noLock c \<Longrightarrow> cflock c' = None" "files c' = files c" "dataFiles c' = dataFiles c" "path c' = path c"
    by (simp_all add: c' x4 x3 x2 x1)
  have "faults c = [] \<longrightarrow> faults c3 = []" using f1 f2 f3 by (simp add: x3 x2 x1)
  then show "lock_after (e \<noteq> None) c (flocks c')"
    using l4 by (auto simp: c' x4 x3 x2 x1 e close_errs_def lock_after_def released_def split: if_splits option.splits)
qed

subsection \<open>Open with options\<close>

text \<open>What a directory holds depends on the system only, not on the cache around it.\<close>

lemma disk_cong:
  fixes w :: "'a os_scheme" and w' :: "'b os_scheme"
  assumes "files w = files w'" "dirs w = dirs w'" "flocks w = flocks w'" "faults w = faults w'"
  shows "disk_ok p w = disk_ok p w'" "disk_queue p w = disk_queue p w'"
proof -
  have c: "content f w = content f w'" and b: "batch w f = batch w' f" for f
    by (simp_all add: content_def batch_def assms)
  have d: "disk_batches p w = disk_batches p w'" "disk_reader p w = disk_reader p w'"
    by (simp_all add: disk_batches_def walk_files_def disk_reader_def assms)
  have "batch w = batch w'" using b by blast
  then show "disk_queue p w = disk_queue p w'"
    by (simp add: disk_queue_def d c split: option.split)
  show "disk_ok p w = disk_ok p w'"
    by (simp add: disk_ok_def d c assms split: option.split)
qed

lemma cache_option_os:
  "x \<in> cache_option \<Longrightarrow> files (x d) = files d \<and> dirs (x d) = dirs d \<and> flocks (x d) = flocks d \<and>
     faults (x d) = faults d \<and> closed (x d) = closed d \<and> wfd (x d) = wfd d \<and> csize (x d) = csize d \<and>
     posfd (cpos (x d)) = posfd (cpos d)"
  by (cases rule: cache_option.cases) (auto simp: option_defs Let_def split: if_splits)

lemma options_os:
  fixes w :: os
  assumes "set opts \<subseteq> cache_option"
  defines "c \<equiv> fold (\<lambda>x c. x c) opts (defaultInstance w)"
  shows "files c = files w" "dirs c = dirs w" "flocks c = flocks w" "faults c = faults w" "\<not> noPos c \<Longrightarrow> fresh c"
proof -
  have "files (fold (\<lambda>x c. x c) opts d) = files d \<and> dirs (fold (\<lambda>x c. x c) opts d) = dirs d \<and>
      flocks (fold (\<lambda>x c. x c) opts d) = flocks d \<and> faults (fold (\<lambda>x c. x c) opts d) = faults d \<and>
      closed (fold (\<lambda>x c. x c) opts d) = closed d \<and> wfd (fold (\<lambda>x c. x c) opts d) = wfd d \<and>
      csize (fold (\<lambda>x c. x c) opts d) = csize d \<and> posfd (cpos (fold (\<lambda>x c. x c) opts d)) = posfd (cpos d) \<and>
      core (fold (\<lambda>x c. x c) opts d) = core d" for d
    using assms(1)
  proof (induction opts arbitrary: d)
    case (Cons x xs)
    then show ?case using cache_option_os[of x d] cache_option_core[of x d] by simp
  qed simp
  from this[of "defaultInstance w"] show "files c = files w" "dirs c = dirs w" "flocks c = flocks w"
    "faults c = faults w" "\<not> noPos c \<Longrightarrow> fresh c"
    by (simp_all add: c_def fresh_def core_def) (simp_all add: defaultInstance_def zero_pos_def)
qed

lemma Open_recovers:
  assumes opts: "set opts \<subseteq> cache_option" and c0: "c0 = fold (\<lambda>x c. x c) opts (defaultInstance w)"
    and np: "\<not> noPos c0" and ok: "disk_ok (path c0) w"
  shows "\<exists>c. Open pd (\<lambda>k. None) opts w = (None, c) \<and> dc_inv c \<and> path c = path c0 \<and>
           queue c = disk_queue (path c0) w \<and> dir_inv c \<and> pos_disk c"
proof -
  note os = options_os[OF opts, of w, folded c0]
  have "disk_ok (path c0) c0" using ok disk_cong(1)[OF os(1-4)] by simp
  from doOpen_recovers[OF this os(5)[OF np], of pd] obtain c where
    c: "doOpen pd (\<lambda>k. None) c0 = (None, c)" "dc_inv c" "path c = path c0" "queue c = disk_queue (path c0) c0"
      "dir_inv c" "pos_disk c"
    by blast
  with disk_cong(2)[OF os(1-4), of "path c0"] show ?thesis
    by (intro exI[of _ c]) (simp add: Open_def Let_def c0[symmetric])
qed

end
