(* ===== verification/Diskcache_Props.thy ===== *)
theory Diskcache_Props
  imports Diskcache_Drop
begin

section \<open>Disk cache: properties\<close>

text \<open>
  The claims about package \<open>diskcache\<close>, each with a concrete cache to which it applies: \<open>ex_cache\<close>
  is a cache opened on an empty system with batches of twelve bytes and the position dumped on
  every call.
\<close>

definition ex_world :: os where
  "ex_world = \<lparr>files = [], dirs = [], flocks = [], faults = [], now = 0\<rparr>"

definition ex_opts :: "CacheOption list" where
  "ex_opts = [WithPathOption ''/c'', WithBatchSize 12, WithPosUpdate 0 0]"

definition ex_cache :: diskcache where
  "ex_cache = snd (Open (\<lambda>s. None) (\<lambda>s. None) ex_opts ex_world)"

text \<open>The same cache with a rotated batch of one record and one record in the write file.\<close>

definition ex_two :: diskcache where
  "ex_two = snd (Put ''x'' (snd (Put ''abcdefgh'' ex_cache)))"

text \<open>A cache with room for twenty bytes only.\<close>

definition ex_small :: diskcache where
  "ex_small = ex_two\<lparr>capacity := 20\<rparr>"

lemma ex_cache_eq [code]:
  "ex_cache = \<lparr>files = [(''/c/.lock'', []), (''/c/data'', [])], dirs = [''/c''], flocks = [''/c/.lock''],
     faults = [], now = 0, path = ''/c'', dataFiles = [], closed = False, closeErr = None,
     curWriteFile = ''/c/data'', curReadfile = [], wfd = Some ''/c/data'', rfd = None, wfdLastWrite = 0,
     wakeup = 3 * 10 ^ 9, cflock = Some ''/c/.lock'',
     cpos = zero_pos\<lparr>dumpInterval := 0, dumpCount := 0, posfname := ''/c/.pos''\<rparr>,
     csize = 0, curBatchSize = 0, curReadSize = 0, batchSize = 12, capacity = 0,
     maxDataSize = 0, dirPerms = 488, filePerms = 416, noSync = False,
     noFallbackOnError = False, noPos = False, filoDrop = False, noDrop = False, noLock = False,
     LastErr = None\<rparr>"
  by code_simp

lemma ex_two_eq [code]:
  "ex_two = ex_cache\<lparr>files :=
     [(''/c/.lock'', []),
      (''/c/data.00000000000000000000000000000000'',
       [CHR 0x08, CHR 0x00, CHR 0x00, CHR 0x00, CHR ''a'', CHR ''b'', CHR ''c'', CHR ''d'', CHR ''e'', CHR ''f'',
        CHR ''g'', CHR ''h'', CHR 0xEF, CHR 0xBE, CHR 0xAD, CHR 0xDE]),
      (''/c/data'', [CHR 0x01, CHR 0x00, CHR 0x00, CHR 0x00, CHR ''x''])],
     dataFiles := [''/c/data.00000000000000000000000000000000''], csize := 16, curBatchSize := 5\<rparr>"
  by code_simp

lemma not_own_dir: "plain_name n \<Longrightarrow> ''/c'' \<noteq> Join ''/c'' n"
proof -
  assume n: "plain_name n"
  have "dir_prefix ''/c'' = ''/c/''" by code_simp
  then have "length (Join ''/c'' n) > length ''/c''" using n by (simp add: Join_plain plain_name_def)
  then show ?thesis by auto
qed

lemma ex_open_ok: "disk_ok ''/c'' ex_world"
proof -
  have "disk_batches ''/c'' ex_world = []" "disk_reader ''/c'' ex_world = None"
    "content (Join ''/c'' ''data'') ex_world = []" "newFlock ''/c'' \<notin> set (flocks ex_world)"
    by code_simp+
  then show ?thesis using not_own_dir is_open_batch_frames[of "[]"]
    by (simp add: disk_ok_def ex_world_def)
qed

lemma ex_opts_ok: "set ex_opts \<subseteq> cache_option"
  by (auto simp: ex_opts_def intro: cache_option.intros)

lemma ex_inv:
  "dc_inv ex_cache" "queue ex_cache = []" "dir_inv ex_cache" "pos_disk ex_cache" "next_id ex_cache = 0"
proof -
  let ?c = "fold (\<lambda>x c. x c) ex_opts (defaultInstance ex_world)"
  have p: "path ?c = ''/c''" "\<not> noPos ?c" "disk_queue ''/c'' ex_world = []" by code_simp+
  from Open_recovers[OF ex_opts_ok refl p(2), of "\<lambda>s. None"] ex_open_ok
  show "dc_inv ex_cache" "queue ex_cache = []" "dir_inv ex_cache" "pos_disk ex_cache"
    by (auto simp: p ex_cache_def)
  show "next_id ex_cache = 0" by code_simp
qed

subsection \<open>The queue\<close>

text \<open>
  C1.  On a cache without a capacity limit, where no call fails, any sequence of puts of records that fit, gets and pauses runs to its end, and what the gets
  handed out followed by what the cache still holds is what it held followed by what was put: no
  record is lost, repeated, reordered or altered by rotation, switching and waking.
\<close>

theorem diskcache_fifo:
  assumes "dc_inv c" "\<And>d. d \<in> set (puts ops) \<Longrightarrow> dc_ok d c" "int (length ops) \<le> dc_spare c"
  shows "\<exists>outs c'. run_queue dc_put dc_get dc_idle ops c = Some (outs, c') \<and> dc_inv c' \<and>
           outs @ queue c' = queue c @ puts ops"
  using assms by (rule dcq.run_fifo)

theorem diskcache_fifo_witness:
  "\<exists>outs c'. run_queue dc_put dc_get dc_idle [QPut ''abcdefgh'', QPut ''x'', QGet] ex_cache = Some (outs, c') \<and>
     dc_inv c' \<and> outs @ queue c' = [''abcdefgh'', ''x'']"
proof -
  have "dc_ok d ex_cache" if "d \<in> set (puts [QPut ''abcdefgh'', QPut ''x'', QGet])" for d
    using that by (auto simp: dc_ok_def fits_def rec_ok_def EOFHint_def ex_cache_eq)
  moreover have "int (length [QPut ''abcdefgh'', QPut ''x'', QGet]) \<le> dc_spare ex_cache"
    by (simp add: dc_spare_def ex_inv(5))
  ultimately show ?thesis
    using diskcache_fifo[OF ex_inv(1), of "[QPut ''abcdefgh'', QPut ''x'', QGet]"] ex_inv(2) by simp
qed

text \<open>
  C2.  Durability.  On a cache without a capacity limit that dumps its position on every call, after any sequence of puts of non-empty
  records that fit, gets and pauses, the process may die; opening the directory again, with the position enabled, gives a cache whose queue is exactly what
  had not been handed out.  No call fails, and no batch has \<open>2^63\<close> bytes.  The position is not advanced for an empty record, which is why those are left out: a
  restart would hand out again what was read.
\<close>

theorem diskcache_survives_crash:
  assumes "durable c" "\<And>d. d \<in> set (puts ops) \<Longrightarrow> dc_ok_rec d c" "int (length ops) \<le> dc_spare c"
    and run: "run_queue dc_put dc_get dc_idle ops c = Some (outs, c')" and sm: "small c'"
    and opts: "set opts \<subseteq> cache_option"
    and c0: "c0 = fold (\<lambda>x c. x c) opts (defaultInstance (process_exit c'))" "path c0 = path c'" "\<not> noPos c0"
  shows "\<exists>c''. Open pd (\<lambda>k. None) opts (process_exit c') = (None, c'') \<and> dc_inv c'' \<and>
           outs @ queue c'' = queue c @ puts ops"
proof -
  have d: "durable c'" "outs @ queue c' = queue c @ puts ops"
    using dcd.run_fifo[of c ops] assms(1-4) by auto
  then have "disk_ok (path c') (process_exit c')" "disk_queue (path c') (process_exit c') = queue c'"
    using exit_disk[of c'] sm by (auto simp: durable_def)
  with Open_recovers[OF opts c0(1,3), of pd] c0(2) d(2) show ?thesis by auto
qed

lemma ex_durable: "durable ex_cache"
proof -
  have "homed ex_cache" by (simp add: homed_def, code_simp)
  then show ?thesis using ex_inv by (simp add: durable_def) (simp add: ex_cache_eq)
qed

theorem diskcache_survives_crash_witness:
  "\<exists>outs c' c''. run_queue dc_put dc_get dc_idle [QPut ''abcdefgh'', QPut ''x'', QGet] ex_cache = Some (outs, c') \<and>
     Open (\<lambda>s. None) (\<lambda>k. None) [WithPathOption ''/c''] (process_exit c') = (None, c'') \<and>
     outs @ queue c'' = [''abcdefgh'', ''x'']"
proof -
  let ?ops = "[QPut ''abcdefgh'', QPut ''x'', QGet]" and ?opts = "[WithPathOption ''/c'']"
  define r where "r = run_queue dc_put dc_get dc_idle ?ops ex_cache"
  have ok: "dc_ok_rec d ex_cache" if "d \<in> set (puts ?ops)" for d
    using that by (auto simp: dc_ok_rec_def dc_ok_def fits_def rec_ok_def EOFHint_def ex_cache_eq)
  have sp: "int (length ?ops) \<le> dc_spare ex_cache" by (simp add: dc_spare_def ex_inv(5))
  have "r \<noteq> None \<and> small (snd (the r)) \<and> path (snd (the r)) = ''/c''"
    unfolding r_def small_def by code_simp
  then obtain outs c' where r: "r = Some (outs, c')" "small c'" "path c' = ''/c''" by (cases "the r") auto
  have o: "set ?opts \<subseteq> cache_option" by (auto intro: cache_option.intros)
  have c0: "path (fold (\<lambda>x c. x c) ?opts (defaultInstance (process_exit c'))) = path c'"
    "\<not> noPos (fold (\<lambda>x c. x c) ?opts (defaultInstance (process_exit c')))"
    using r(3) by (simp_all add: WithPathOption_def defaultInstance_def) code_simp
  show ?thesis
    using diskcache_survives_crash[OF ex_durable ok sp r(1)[unfolded r_def] r(2) o refl c0, of "\<lambda>s. None"]
      r(1) ex_inv(2) by (auto simp: r_def)
qed

text \<open>
  C3.  Nothing stays behind: once the write file has been idle for longer than the wakeup time, one
  \<open>Get\<close> per record empties the cache, in order.
\<close>

theorem diskcache_drains:
  assumes "dc_inv c" "wakeup c < now c + int n - wfdLastWrite c" "length (queue c) \<le> m" "int m \<le> dc_spare c"
  shows "\<exists>c'. run_queue dc_put dc_get dc_idle (QIdle n # replicate m QGet) c = Some (queue c, c') \<and>
           dc_inv c' \<and> queue c' = []"
  using dcr.drain[OF dc_idle_inv(1)[OF assms(1)] ready_after_idle[OF assms(1,2)], of m]
    dc_idle_inv(2,3)[OF assms(1)] assms(3,4)
  by (simp add: dc_spare_def)

lemma ex_two_inv: "dc_inv ex_two" "queue ex_two = [''abcdefgh'', ''x'']" "next_id ex_two = 1"
proof -
  have ok: "\<not> IsFull d ex_cache" "rec_ok d" "fits d ex_cache" if "length d < 10" for d
    using that by (simp_all add: IsFull_def rec_ok_def fits_def EOFHint_def ex_cache_eq)
  have "id_ok (next_id ex_cache)" by (simp add: ex_inv id_ok_def)
  then obtain c1 where c1: "Put ''abcdefgh'' ex_cache = (None, c1)" "keeps1 ex_cache c1" "queue c1 = [''abcdefgh'']"
    using Put_keeps[OF ex_inv(1) ok(2,1,3), of "''abcdefgh''"] ex_inv(2) by auto
  have i1: "dc_inv c1" "settings c1 = settings ex_cache" "next_id c1 \<le> 1" using c1(2) by (simp_all add: keeps1_def ex_inv)
  have n1: "id_ok (next_id c1)" using i1 next_id_nonneg[OF i1(1)] by (simp add: id_ok_def)
  have "\<not> IsFull ''x'' c1" "fits ''x'' c1" "rec_ok ''x''"
    using i1(2) by (simp_all add: IsFull_def fits_def rec_ok_def EOFHint_def settings_def ex_cache_eq)
  then obtain c2 where "Put ''x'' c1 = (None, c2)" "keeps1 c1 c2" "queue c2 = queue c1 @ [''x'']"
    using Put_keeps[OF i1(1) _ _ _ n1, of "''x''"] by blast
  then show "dc_inv ex_two" "queue ex_two = [''abcdefgh'', ''x'']"
    using c1 by (simp_all add: ex_two_def keeps1_def)
  show "next_id ex_two = 1" by code_simp
qed

theorem diskcache_drains_witness:
  "\<exists>c'. run_queue dc_put dc_get dc_idle (QIdle (4 * 10 ^ 9) # replicate 3 QGet) ex_two =
       Some ([''abcdefgh'', ''x''], c') \<and> dc_inv c' \<and> queue c' = []"
proof -
  have "wakeup ex_two = 3 * 10 ^ 9" "now ex_two = 0" "wfdLastWrite ex_two = 0" by code_simp+
  then show ?thesis
    using diskcache_drains[OF ex_two_inv(1), of "4 * 10 ^ 9" 3] ex_two_inv by (simp add: dc_spare_def)
qed

subsection \<open>Reading\<close>

text \<open>
  C4.  \<open>Get\<close> hands the first readable record to the callback and returns the callback's error.  If
  the callback failed and falling back was not switched off, the record stays in the queue and is
  read again; otherwise it is gone.
\<close>

theorem Get_callback:
  assumes "dc_inv c" "id_ok (next_id c)" "readable wl c = d # ds"
  shows "\<exists>c'. Get wl (Some fn) c = Some (fn d, Some d, c') \<and> dc_inv c' \<and>
           (if fn d \<noteq> None \<and> \<not> noFallbackOnError c then queue c' = queue c \<and> pending c' = readable wl c
            else queue c = d # queue c')"
proof -
  let ?g = "\<lparr>bufLen = None, bfnLen = None, fnArg = Some fn\<rparr> :: get_args"
  obtain c1 where c1: "keeps1 c c1" "queue c1 = queue c" "pending c1 = readable wl c"
    and g: "case readable wl c of
        [] \<Rightarrow> \<exists>c'. doGet wl ?g c = Some (Some ErrNoData, None, c') \<and> same_queue c1 c'
      | d # ds \<Rightarrow> length d \<le> readbuf_len ?g (length d) \<longrightarrow>
                   (\<exists>r. doGet wl ?g c = Some r \<and> handled ?g c1 d r)"
    using doGet_ok[OF assms(1,2), of wl ?g] by (elim exE conjE) (rule that)
  then obtain e dl c' where r: "doGet wl ?g c = Some (e, dl, c')" "handled ?g c1 d (e, dl, c')"
    using assms(3) by (auto simp: readbuf_len_def)
  have "noFallbackOnError c1 = noFallbackOnError c" using c1(1) settings_fields(2)[of c1 c] by (simp add: keeps1_def)
  with r(2) c1 have h: "e = fn d" "dl = Some d" "dc_inv c'"
    "if fn d \<noteq> None \<and> \<not> noFallbackOnError c then same_queue c1 c' else consumed c1 d c'"
    by (auto simp: handled_def same_queue_def consumed_def keeps_def split: if_splits)
  with r(1) c1 show ?thesis
    by (intro exI[of _ c'])
      (auto simp: Get_def queue_def[of c1] queue_def[of c'] same_queue_def consumed_def simp flip: c1(2) split: if_splits)
qed

theorem Get_callback_witness:
  "\<exists>c'. Get False (Some (\<lambda>d. Some (UserErr ''no''))) ex_two = Some (Some (UserErr ''no''), Some ''abcdefgh'', c') \<and>
        dc_inv c' \<and> queue c' = [''abcdefgh'', ''x'']"
proof -
  have r: "readable False ex_two = [''abcdefgh'']" "\<not> noFallbackOnError ex_two" by code_simp+
  have "id_ok (next_id ex_two)" by (simp add: ex_two_inv(3) id_ok_def)
  from Get_callback[OF ex_two_inv(1) this r(1), of "\<lambda>d. Some (UserErr ''no'')"] r(2) ex_two_inv(2)
  show ?thesis by auto
qed

text \<open>
  C5.  \<open>Get\<close> always returns: from every state a cache can get into, under any schedule of system
  call failures and with any content of its directory, the retry loop over damaged and finished
  batches ends within one pass over the batches.
\<close>

theorem Get_always_returns:
  assumes "cache_reach c"
  shows "\<exists>err delivered c'. doGet wl a c = Some (err, delivered, c')"
  using doGet_returns_live[OF reach_live[OF assms], of wl a] by auto

theorem Get_always_returns_witness:
  "\<exists>err delivered c'. Get True None (ex_two\<lparr>faults := [Some 0, None, Some 3]\<rparr>) = Some (err, delivered, c')"
proof -
  have "Open (\<lambda>s. None) (\<lambda>s. None) ex_opts ex_world = (None, ex_cache)" unfolding ex_cache_def by code_simp
  then have "cache_reach ex_cache" using ex_opts_ok by (rule reach_Open[rotated])
  then have "cache_reach ex_two" unfolding ex_two_def by (metis reach_Put prod.exhaust_sel)
  from reach_world[OF this, where fs = "files ex_two" and ds = "dirs ex_two" and fl = "flocks ex_two"
      and fa = "[Some 0, None, Some 3]" and t = "now ex_two"]
  have "cache_reach (ex_two\<lparr>faults := [Some 0, None, Some 3]\<rparr>)" by simp
  from Get_always_returns[OF this] show ?thesis by (simp add: Get_def)
qed

subsection \<open>Capacity\<close>

text \<open>
  C6.  \<open>Put\<close> on a full cache gives up the oldest batch, and only it, when nothing is open for
  reading, and then takes the new record.
\<close>

theorem Put_full_drops_oldest:
  assumes "dc_inv c" "rfd c = None" "dataFiles c = f # fs"
    "IsFull d c" "\<not> noDrop c" "\<not> filoDrop c" "rec_ok d" "fits d c" "id_ok (next_id c)"
  shows "\<exists>c'. Put d c = (None, c') \<and> dc_inv c' \<and> queue c = batch c f @ concat (map (batch c) fs) @ writing c \<and>
           queue c' = concat (map (batch c) fs) @ writing c @ [d]"
  using Put_drops[OF assms] assms(2,3) by (auto simp: queue_def pending_def)

lemma capacity_inv: "dc_inv (c\<lparr>capacity := n\<rparr>) = dc_inv c" "queue (c\<lparr>capacity := n\<rparr>) = queue c"
proof -
  have b: "batch (c\<lparr>capacity := n\<rparr>) = batch c" and ct: "content f (c\<lparr>capacity := n\<rparr>) = content f c" for f
    by (auto simp: batch_def content_def)
  show "queue (c\<lparr>capacity := n\<rparr>) = queue c"
    by (simp add: queue_def pending_def writing_def b ct split: option.split)
  show "dc_inv (c\<lparr>capacity := n\<rparr>) = dc_inv c"
    by (simp add: dc_inv_def sys_inv_def names_inv_def files_inv_def write_inv_def pos_inv_def read_inv_def ct
        split: option.split)
qed

lemma ex_small_inv: "dc_inv ex_small" "queue ex_small = [''abcdefgh'', ''x'']"
  using ex_two_inv by (simp_all add: ex_small_def capacity_inv)

theorem Put_full_drops_oldest_witness:
  "\<exists>c'. Put ''efghij'' ex_small = (None, c') \<and> dc_inv c' \<and> queue c' = [''x'', ''efghij'']"
proof -
  have "rfd ex_small = None" "dataFiles ex_small = [batch_name ''/c'' 0]" "IsFull ''efghij'' ex_small"
    "\<not> noDrop ex_small" "\<not> filoDrop ex_small" "rec_ok ''efghij''" "fits ''efghij'' ex_small" "id_ok (next_id ex_small)"
    "writing ex_small = [''x'']"
    by code_simp+
  from Put_full_drops_oldest[OF ex_small_inv(1) this(1-8)] this(9) show ?thesis by auto
qed

text \<open>
  When the dropped batch is the one being read, a second batch goes with it: \<open>dropBatch\<close>
  closes the reader but leaves \<open>curReadfile\<close> set, so the next switch takes the batch behind it off
  the reading list without reading it.  Its file stays in the directory and its records are gone
  from the queue.
\<close>

theorem drop_while_reading_skips_a_batch:
  assumes "dc_inv c" "rfd c = Some (f, off)" "dataFiles c = f # g # fs"
  shows "\<exists>c1 c2. dropBatch c = (None, c1) \<and> switchNextFile c1 = (None, c2) \<and> dc_inv c2 \<and>
           dataFiles c2 = fs \<and> queue c2 = concat (map (batch c) fs) @ writing c \<and> fget g c2 = fget g c"
proof -
  let ?n = "csize c - int (length (content f c))"
  define c0 where "c0 = c\<lparr>files := AList.delete f (files c), rfd := None, csize := ?n, curReadfile := [], dataFiles := fs\<rparr>"
  have gf: "g \<noteq> f" using assms(1,3) by (auto simp: dc_inv_def names_inv_def)
  have fi: "dc_inv c0" "writing c0 = writing c" "pending c0 = concat (map (batch c) fs)"
    using forget_inv[of c "[f, g]" fs "AList.delete f (files c)" ?n, OF assms(1), folded c0_def] assms(3) by auto
  have r0: "rfd c0 = None" by (simp add: c0_def)
  obtain c2 where c2: "doSwitchNextFile c0 = (None, c2)" "keeps c0 c2" "writing c2 = writing c0"
      "pending c2 = pending c0" "dataFiles c2 = dataFiles c0"
    using switch_open_ok[OF fi(1) r0] by (elim exE conjE) (rule that)
  obtain hs p rs where sw: "doSwitchNextFile c0 =
       (None, c0\<lparr>files := hs, cpos := p, rfd := at_next c0, curReadfile := next_name c0, curReadSize := rs\<rparr>)"
    "pos_step_ok c0 hs p"
    using doSwitchNextFile_ok[OF fi(1)] by blast
  have "fget g c2 = map_of hs g" using c2(1) sw(1) by auto
  also have "\<dots> = fget g c0"
    using sw(2) inv_pos_neq(1)[OF assms(1), of g] assms(3)
    by (auto simp: pos_step_ok_def pos_frame_def c0_def split: if_splits)
  also have "\<dots> = fget g c" using gf by (simp add: c0_def)
  finally have g: "fget g c2 = fget g c" .
  have "snd (dropBatch c) = snd (dropBatch c)" "fst (dropBatch c) = None"
    using dropBatch_reading[OF assms] by simp_all
  moreover have "switchNextFile (snd (dropBatch c)) = (None, c2)"
    using dropBatch_reading_next[OF assms] c2(1) by (simp add: c0_def)
  ultimately show ?thesis
    using c2 fi g by (intro exI[of _ "snd (dropBatch c)"] exI[of _ c2])
      (simp add: prod_eq_iff keeps_def queue_def c0_def)
qed

text \<open>A cache with two rotated batches, the first one open.\<close>

definition ex_reading :: diskcache where
  "ex_reading = (case dc_get (snd (Put ''12345678'' ex_two)) of Some (d, c) \<Rightarrow> c | None \<Rightarrow> ex_two)"

lemma ex_reading_inv: "dc_inv ex_reading"
proof -
  have "\<not> IsFull ''12345678'' ex_two" "fits ''12345678'' ex_two" "rec_ok ''12345678''" by code_simp+
  then obtain c1 where c1: "Put ''12345678'' ex_two = (None, c1)" "keeps1 ex_two c1"
    using Put_keeps[OF ex_two_inv(1), of "''12345678''"] ex_two_inv(3) by (auto simp: id_ok_def)
  have i1: "dc_inv c1" "next_id c1 \<le> 2" using c1(2) ex_two_inv(3) by (simp_all add: keeps1_def)
  then have "id_ok (next_id c1)" using next_id_nonneg[OF i1(1)] by (simp add: id_ok_def)
  from dc_get_ok[OF i1(1) this] show ?thesis by (auto simp: ex_reading_def c1(1) keeps1_def)
qed

theorem drop_while_reading_skips_a_batch_witness:
  "\<exists>c1 c2. dropBatch ex_reading = (None, c1) \<and> switchNextFile c1 = (None, c2) \<and> dc_inv c2 \<and>
     dataFiles c2 = [] \<and> queue c2 = [] \<and>
     batch ex_reading (batch_name ''/c'' 1) = [''x'', ''12345678'']"
proof -
  have "rfd ex_reading = Some (batch_name ''/c'' 0, 12)"
    "dataFiles ex_reading = [batch_name ''/c'' 0, batch_name ''/c'' 1]" "writing ex_reading = []"
    "batch ex_reading (batch_name ''/c'' 1) = [''x'', ''12345678'']"
    by code_simp+
  from drop_while_reading_skips_a_batch[OF ex_reading_inv this(1,2)] this(3,4) show ?thesis by auto
qed

end
