(* ===== verification/Diskcache_Props2.thy ===== *)
theory Diskcache_Props2
  imports Diskcache_Props
begin

section \<open>Disk cache: more properties\<close>

text \<open>The claims about sizes, restarts, the directory lock, closing, streams and refusals.\<close>

text \<open>
  The size counter stays the sum of the sizes of the batches that hold records, over \<open>Put\<close> and
  \<open>Get\<close>, whatever they rotate, wake or finish.
\<close>

theorem size_counter_exact:
  assumes "dc_inv c" "size_inv c" "dc_ok d c" "0 < dc_spare c"
  shows "\<exists>c1 c2 out. dc_put d c = Some c1 \<and> size_inv c1 \<and> dc_get c = Some (out, c2) \<and> size_inv c2"
proof -
  have nid: "id_ok (next_id c)" using assms by (intro spare_id_ok) simp_all
  have ok: "\<not> IsFull d c" "rec_ok d" "fits d c" using assms(3) by (simp_all add: dc_ok_def IsFull_def)
  obtain c1 where "Put d c = (None, c1)" "keeps1 c c1" using Put_keeps[OF assms(1) ok(2,1,3) nid] by blast
  moreover obtain out c2 where "dc_get c = Some (out, c2)" "keeps1 c c2" using dc_get_ok[OF assms(1) nid] by blast
  ultimately show ?thesis using assms(2) by (auto simp: keeps1_def dc_put_def)
qed

theorem size_counter_exact_witness:
  "\<exists>c1 c2 out. dc_put ''12345678'' ex_two = Some c1 \<and> size_inv c1 \<and> dc_get ex_two = Some (out, c2) \<and> size_inv c2"
proof (rule size_counter_exact[OF ex_two_inv(1)])
  show "size_inv ex_two" unfolding size_inv_def by code_simp
  show "dc_ok ''12345678'' ex_two" by code_simp
  show "0 < dc_spare ex_two" by (simp add: dc_spare_def ex_two_inv(3))
qed

text \<open>
  C7.  Opening a directory that holds batches, an unrotated write file and a position gives a cache
  whose queue is the records behind the position, the other batches by number and the write file.
\<close>

theorem Open_restores_queue:
  assumes "set opts \<subseteq> cache_option" "c0 = fold (\<lambda>x c. x c) opts (defaultInstance w)" "\<not> noPos c0"
    "disk_ok (path c0) w"
  shows "\<exists>c. Open pd (\<lambda>k. None) opts w = (None, c) \<and> dc_inv c \<and> path c = path c0 \<and>
           queue c = disk_queue (path c0) w"
  using Open_recovers[OF assms, of pd] by blast

theorem Open_restores_queue_witness:
  "\<exists>c. Open (\<lambda>s. None) (\<lambda>k. None) ex_opts (process_exit ex_two) = (None, c) \<and> dc_inv c \<and>
     queue c = [''abcdefgh'', ''x'']"
proof -
  let ?c0 = "fold (\<lambda>x c. x c) ex_opts (defaultInstance (process_exit ex_two))"
  have p: "path ?c0 = ''/c''" "\<not> noPos ?c0" "path ex_two = ''/c''" by code_simp+
  have "dir_inv ex_two" "pos_disk ex_two"
  proof -
    show "pos_disk ex_two" by code_simp
    have "dataFiles ex_two = disk_batches ''/c'' ex_two" by code_simp
    then show "dir_inv ex_two" using p(3) by (auto simp: dir_inv_def disk_batches_props(1))
  qed
  moreover have "homed ex_two" "small ex_two" unfolding homed_def small_def by code_simp+
  ultimately have d: "disk_ok ''/c'' (process_exit ex_two)" "disk_queue ''/c'' (process_exit ex_two) = queue ex_two"
    using exit_disk[OF ex_two_inv(1)] p(3) by auto
  from Open_restores_queue[OF ex_opts_ok refl p(2), of "\<lambda>s. None"] d ex_two_inv(2) p(1) show ?thesis by auto
qed

text \<open>
  C8.  One cache per directory: while a cache opened with the lock has not given it back, no \<open>Open\<close>
  that locks the same directory succeeds, whatever its other options, its environment, the files it
  finds and the calls that fail.
\<close>

theorem Open_excludes:
  assumes "Open pd1 env1 opts1 w1 = (None, c)" "\<not> noLock (fold (\<lambda>x c. x c) opts1 (defaultInstance w1))"
    and "set opts2 \<subseteq> cache_option" "set (flocks c) \<subseteq> set (flocks w2)"
    "\<not> noLock (fold (\<lambda>x c. x c) opts2 (defaultInstance w2))"
    "path (fold (\<lambda>x c. x c) opts2 (defaultInstance w2)) = path c"
  shows "\<exists>e c'. Open pd2 env2 opts2 w2 = (Some e, c')"
proof -
  let ?c1 = "fold (\<lambda>x c. x c) opts1 (defaultInstance w1)" and ?c2 = "fold (\<lambda>x c. x c) opts2 (defaultInstance w2)"
  have "doOpen pd1 env1 ?c1 = (None, c)" using assms(1) by (simp add: Open_def Let_def wrapE_None)
  from doOpen_lock(2)[OF assms(2) this] have "newFlock (path c) \<in> set (flocks c)" by (auto simp: held_def)
  then have "newFlock (path ?c2) \<in> set (flocks ?c2)"
    using assms(4,6) options_os(3)[OF assms(3), of w2] by auto
  from doOpen_lock(1)[OF assms(5) this, of pd2 env2] show ?thesis
    by (cases "doOpen pd2 env2 ?c2") (auto simp: Open_def Let_def)
qed

theorem Open_excludes_witness:
  "\<exists>e c'. Open (\<lambda>s. None) (\<lambda>s. None) [WithPathOption ''/c/./''] (os.truncate ex_cache) = (Some e, c')"
proof (rule Open_excludes)
  show "Open (\<lambda>s. None) (\<lambda>s. None) ex_opts ex_world = (None, ex_cache)" unfolding ex_cache_def by code_simp
  show "set [WithPathOption ''/c/./''] \<subseteq> cache_option" by (auto intro: cache_option.intros)
  show "set (flocks ex_cache) \<subseteq> set (flocks (os.truncate ex_cache))" by (simp add: os.truncate_def)
  show "\<not> noLock (fold (\<lambda>x c. x c) ex_opts (defaultInstance ex_world))"
    "\<not> noLock (fold (\<lambda>x c. x c) [WithPathOption ''/c/./''] (defaultInstance (os.truncate ex_cache)))"
    "path (fold (\<lambda>x c. x c) [WithPathOption ''/c/./''] (defaultInstance (os.truncate ex_cache))) = path ex_cache"
    by code_simp+
qed



text \<open>
  \<open>StreamPut\<close> of a reader that has the bytes adds one record, the first \<open>n\<close> bytes of the
  reader, at the end of the queue.
\<close>

theorem StreamPut_appends:
  assumes "dc_inv c" "0 < n" "nat n \<le> length (avail r)" "n < EOFHint"
    "\<not> (capacity c > 0 \<and> csize c + n > capacity c)" "\<not> (maxDataSize c > 0 \<and> n > maxDataSize c)"
    "id_ok (next_id c)"
  shows "\<exists>c'. StreamPut r n c = (None, c') \<and> dc_inv c' \<and> queue c' = queue c @ [take (nat n) (avail r)]"
  using assms by (rule StreamPut_ok)

theorem StreamPut_appends_witness:
  "\<exists>c'. StreamPut \<lparr>avail = ''hello world'', readErr = None\<rparr> 5 ex_two = (None, c') \<and> dc_inv c' \<and>
     queue c' = [''abcdefgh'', ''x'', ''hello'']"
proof -
  have "\<not> (capacity ex_two > 0 \<and> csize ex_two + 5 > capacity ex_two)" "\<not> (maxDataSize ex_two > 0 \<and> 5 > maxDataSize ex_two)"
    by code_simp+
  then show ?thesis
    using StreamPut_appends[OF ex_two_inv(1), of 5 "\<lparr>avail = ''hello world'', readErr = None\<rparr>"] ex_two_inv
    by (simp add: EOFHint_def id_ok_def)
qed

text \<open>
  \<open>StreamPut\<close> of a reader that ends early reports success all the same, and the record header
  it leaves claims more bytes than were written.
\<close>

theorem StreamPut_short_reader:
  assumes "dc_inv c" "nat n > length (avail r)" "readErr r = None"
    "\<not> (capacity c > 0 \<and> csize c + n > capacity c)" "\<not> (maxDataSize c > 0 \<and> n > maxDataSize c)"
    "curBatchSize c + int (length (avail r) + dataHeaderLen) < batchSize c"
  shows "\<exists>c'. StreamPut r n c = (None, c') \<and>
           content (curWriteFile c') c' = content (curWriteFile c) c @ PutUint32 n @ avail r"
proof -
  have n: "0 < n" "length (avail r) \<noteq> nat n" using assms(2) by auto
  have ncl: "\<not> closed c" and w: "wfd c = Some (curWriteFile c)" and flt: "faults c = []"
    using assms(1) by (auto simp: dc_inv_defs)
  obtain old where f: "fget (curWriteFile c) c = Some old" using assms(1) by (auto simp: dc_inv_defs)
  have "StreamPut r n c = stream_write r n c"
    using n assms ncl w by (auto simp: StreamPut_def ensureWriteFile_ok[OF ncl w])
  then show ?thesis
    using n assms(2,3,6) w flt f
    by (simp add: stream_write_def CopyN_def os_defs writeFileName_def stream_fallback_def Let_def content_def okE_def)
qed

theorem StreamPut_short_reader_witness:
  "\<exists>c'. StreamPut \<lparr>avail = ''ab'', readErr = None\<rparr> 9 ex_two = (None, c') \<and>
     content (curWriteFile c') c' = content (curWriteFile ex_two) ex_two @ PutUint32 9 @ ''ab''"
proof -
  have "\<not> (capacity ex_two > 0 \<and> csize ex_two + 9 > capacity ex_two)" "\<not> (maxDataSize ex_two > 0 \<and> 9 > maxDataSize ex_two)"
    "curBatchSize ex_two + int (length ''ab'' + dataHeaderLen) < batchSize ex_two"
    by code_simp+
  then show ?thesis
    using StreamPut_short_reader[OF ex_two_inv(1), of "\<lparr>avail = ''ab'', readErr = None\<rparr>" 9] by simp
qed

text \<open>
  A refused \<open>Put\<close> changes nothing: on a full cache that may not drop (or drops the newest)
  the call reports \<open>ErrCacheFull\<close>, and a record over the limit reports \<open>ErrTooLargeData\<close>, each
  leaving files, sizes and batches as they were.
\<close>

theorem Put_refused_unchanged:
  assumes "\<not> closed c"
  shows "(IsFull d c \<and> (noDrop c \<or> filoDrop c) \<longrightarrow>
            (\<exists>e. Put d c = (Some e, c) \<and> errors_Is e ErrCacheFull)) \<and>
         (\<not> IsFull d c \<and> \<not> fits d c \<longrightarrow> (\<exists>e. Put d c = (Some e, c) \<and> errors_Is e ErrTooLargeData))"
  using assms by (auto simp: Put_def put_make_room_def put_append_def fits_def failE_def okE_def err_defs)

theorem Put_refused_unchanged_witness:
  "\<exists>e. Put ''efghij'' (ex_small\<lparr>noDrop := True\<rparr>) = (Some e, ex_small\<lparr>noDrop := True\<rparr>) \<and> errors_Is e ErrCacheFull"
proof -
  have "\<not> closed (ex_small\<lparr>noDrop := True\<rparr>)" "IsFull ''efghij'' (ex_small\<lparr>noDrop := True\<rparr>)" by code_simp+
  with Put_refused_unchanged[of "ex_small\<lparr>noDrop := True\<rparr>" "''efghij''"] show ?thesis by simp
qed

subsection \<open>Formats\<close>

text \<open>
  The names of batches sort by their number, so the sorted reading list is the order of
  writing, and the name a rotation chooses is behind every batch on the list.
\<close>

theorem batch_names_ordered:
  assumes "names_inv c" "id_ok (next_id c)"
  shows "\<exists>f. next_datafile c = Inr f \<and> (\<forall>g. g \<in> set (dataFiles c) \<longrightarrow> g < f) \<and>
           sort (dataFiles c @ [f]) = dataFiles c @ [f]"
  using next_datafile_ok[OF assms] last_lt_next[OF assms] sort_next(1)[OF assms] by blast

theorem batch_names_ordered_witness:
  "\<exists>f. next_datafile ex_two = Inr f \<and> (\<forall>g. g \<in> set (dataFiles ex_two) \<longrightarrow> g < f) \<and>
     sort (dataFiles ex_two @ [f]) = dataFiles ex_two @ [f]"
  by (rule batch_names_ordered) (use ex_two_inv(1,3) in \<open>simp_all add: dc_inv_def id_ok_def\<close>)

text \<open>
  What is dumped to \<open>.pos\<close> is what a restart reads: the offset and the file name come back for
  every 64-bit offset, and a reset position comes back as no position.
\<close>

theorem pos_dump_load:
  assumes "faults w = []" "posfname p \<notin> set (dirs w)" "posfd p \<longrightarrow> fget (posfname p) w \<noteq> None"
    "Clean (posfname p) = posfname p" "pos_ok p"
  shows "\<exists>p' w'. doDumpFile (p, w) = (None, (p', w')) \<and>
           posFromFile (posfname p) w' =
             (Inr (case Name p of None \<Rightarrow> None
                   | Some n \<Rightarrow> Some (zero_pos\<lparr>Seek := Seek p, Name := Some n\<rparr>)), w')"
proof -
  obtain fs where fs: "doDumpFile (p, w) = (None, (p\<lparr>posfd := True\<rparr>, w\<lparr>files := fs\<rparr>))"
    "map_of fs = (map_of (files w))(posfname p \<mapsto> MarshalBinary p)"
    using doDumpFile_ok[of w p] assms(1-3) by blast
  have "posFromFile (posfname p) (w\<lparr>files := fs\<rparr>) =
      (Inr (case Name p of None \<Rightarrow> None | Some n \<Rightarrow> Some (zero_pos\<lparr>Seek := Seek p, Name := Some n\<rparr>)), w\<lparr>files := fs\<rparr>)"
    by (rule posFromFile_dumped) (use assms fs(2) in auto)
  with fs(1) show ?thesis by blast
qed

theorem pos_dump_load_witness:
  "\<exists>p' w'. doDumpFile (zero_pos\<lparr>Seek := 77, Name := Some ''/c/data.7'', posfname := ''/c/.pos''\<rparr>, ex_world) = (None, (p', w')) \<and>
     posFromFile ''/c/.pos'' w' = (Inr (Some (zero_pos\<lparr>Seek := 77, Name := Some ''/c/data.7''\<rparr>)), w')"
proof -
  let ?p = "zero_pos\<lparr>Seek := 77, Name := Some ''/c/data.7'', posfname := ''/c/.pos''\<rparr>"
  have "Clean ''/c/.pos'' = ''/c/.pos''" by code_simp
  then show ?thesis
    using pos_dump_load[of ex_world ?p] by (simp add: ex_world_def pos_ok_def zero_pos_def)
qed

end
