(* ===== verification/Go_Float.thy ===== *)
theory Go_Float
  imports Complex_Main "HOL-Library.Log_Nat"
begin

section \<open>Go's float64\<close>

text \<open>
  A \<open>float64\<close> is a number that is not a number, an infinity (\<open>True\<close> is the positive one) or the
  rational value of a finite float; the two zeros, which no comparison tells apart, are one value.
  Comparisons are exact; a difference is rounded to the nearest float, ties to even, as IEEE 754
  prescribes for binary64.
\<close>

datatype f64 = FNaN | FInf bool | FFin rat

definition pow2 :: "int \<Rightarrow> rat" where
  "pow2 e = (if e \<ge> 0 then 2 ^ nat e else 1 / 2 ^ nat (- e))"

text \<open>The exponent of a positive rational: \<open>2^e \<le> q < 2^(e+1)\<close>.\<close>

definition exponent :: "rat \<Rightarrow> int" where
  "exponent q =
     (case quotient_of q of (n, d) \<Rightarrow>
        let e = bitlen n - bitlen d in if pow2 e \<le> q then e else e - 1)"

definition round_even :: "rat \<Rightarrow> int" where
  "round_even x =
     (let k = \<lfloor>x\<rfloor>; r = x - of_int k
      in if r < 1 / 2 then k else if r > 1 / 2 then k + 1 else if even k then k else k + 1)"

definition f64_of_rat :: "rat \<Rightarrow> f64" where
  "f64_of_rat q =
     (if q = 0 then FFin 0
      else let u = pow2 (max (exponent \<bar>q\<bar> - 52) (- 1074));
               v = of_int (round_even (\<bar>q\<bar> / u)) * u
           in if v \<ge> pow2 1024 then FInf (q > 0) else FFin (sgn q * v))"

fun f64_neg :: "f64 \<Rightarrow> f64" where
  "f64_neg FNaN = FNaN"
| "f64_neg (FInf s) = FInf (\<not> s)"
| "f64_neg (FFin q) = FFin (- q)"

fun f64_sub :: "f64 \<Rightarrow> f64 \<Rightarrow> f64" where
  "f64_sub FNaN b = FNaN"
| "f64_sub a FNaN = FNaN"
| "f64_sub (FInf s) (FInf t) = (if s = t then FNaN else FInf s)"
| "f64_sub (FInf s) (FFin q) = FInf s"
| "f64_sub (FFin q) (FInf t) = FInf (\<not> t)"
| "f64_sub (FFin p) (FFin q) = f64_of_rat (p - q)"

fun f64_abs :: "f64 \<Rightarrow> f64" where
  "f64_abs FNaN = FNaN"
| "f64_abs (FInf s) = FInf True"
| "f64_abs (FFin q) = FFin \<bar>q\<bar>"

fun f64_lt :: "f64 \<Rightarrow> f64 \<Rightarrow> bool" where
  "f64_lt FNaN b = False"
| "f64_lt a FNaN = False"
| "f64_lt (FInf s) (FInf t) = (\<not> s \<and> t)"
| "f64_lt (FInf s) (FFin q) = (\<not> s)"
| "f64_lt (FFin q) (FInf t) = t"
| "f64_lt (FFin p) (FFin q) = (p < q)"

fun f64_eq :: "f64 \<Rightarrow> f64 \<Rightarrow> bool" where
  "f64_eq FNaN b = False"
| "f64_eq a FNaN = False"
| "f64_eq a b = (a = b)"

definition f64_le :: "f64 \<Rightarrow> f64 \<Rightarrow> bool" where
  "f64_le a b \<longleftrightarrow> f64_lt a b \<or> f64_eq a b"

subsection \<open>Laws\<close>

lemma f64_eq_iff: "f64_eq a b \<longleftrightarrow> a = b \<and> a \<noteq> FNaN"
  by (cases a; cases b) auto

lemma f64_order:
  assumes "a \<noteq> FNaN" "b \<noteq> FNaN"
  shows "f64_lt a b \<or> a = b \<or> f64_lt b a" "f64_lt a b \<Longrightarrow> \<not> f64_lt b a" "\<not> f64_lt a a"
    "f64_le a b \<longleftrightarrow> \<not> f64_lt b a"
  using assms by (cases a; cases b; auto simp: f64_le_def)+

lemma f64_nan: "\<not> f64_lt FNaN b" "\<not> f64_lt a FNaN" "\<not> f64_le FNaN b" "\<not> f64_le a FNaN"
  by (cases a; simp add: f64_le_def)+

lemma f64_of_rat_minus: "f64_of_rat (- q) = f64_neg (f64_of_rat q)"
proof (cases "q = 0")
  case False
  then show ?thesis by (auto simp: f64_of_rat_def Let_def)
qed (simp add: f64_of_rat_def)

lemma f64_sub_swap: "f64_sub b a = f64_neg (f64_sub a b)"
proof (cases a; cases b)
  fix p q assume "a = FFin p" "b = FFin q"
  then show ?thesis using f64_of_rat_minus[of "p - q"] by simp
qed auto

lemma f64_abs_neg [simp]: "f64_abs (f64_neg a) = f64_abs a"
  by (cases a) auto

lemma f64_sub_self: "f64_sub (FFin q) (FFin q) = FFin 0"
  by (simp add: f64_of_rat_def)

end
