(* ===== verification/Filter_Ast.thy ===== *)
theory Filter_Ast
  imports Go_Base Go_Float
begin

section \<open>Filter: items, nodes and their text (filter/lex.go, filter/ast.go, filter/parse.go)\<close>

text \<open>
  The tokens and the syntax tree of the condition language.  An item type is the source's integer constant;
  the tree has the node types the grammar of conditions builds.  A \<open>nil\<close> interface is \<open>NNone\<close>, and
  a regular expression that did not compile is the \<open>nil\<close> pointer \<open>NRegex None\<close>, which is what the
  parser puts into the tree.  Regular expressions themselves are Go's \<open>regexp\<close>, a parameter:
  \<open>rx re s\<close> is \<open>None\<close> when \<open>re\<close> does not compile and otherwise whether it matches \<open>s\<close>.
\<close>

type_synonym ItemType = int

abbreviation EQ :: int where "EQ \<equiv> 57346"
abbreviation COLON :: int where "COLON \<equiv> 57347"
abbreviation SEMICOLON :: int where "SEMICOLON \<equiv> 57348"
abbreviation COMMA :: int where "COMMA \<equiv> 57349"
abbreviation COMMENT :: int where "COMMENT \<equiv> 57350"
abbreviation DURATION :: int where "DURATION \<equiv> 57351"
abbreviation EOF :: int where "EOF \<equiv> 57352"
abbreviation ERROR :: int where "ERROR \<equiv> 57353"
abbreviation ID :: int where "ID \<equiv> 57354"
abbreviation LEFT_BRACE :: int where "LEFT_BRACE \<equiv> 57355"
abbreviation LEFT_BRACKET :: int where "LEFT_BRACKET \<equiv> 57356"
abbreviation LEFT_PAREN :: int where "LEFT_PAREN \<equiv> 57357"
abbreviation NUMBER :: int where "NUMBER \<equiv> 57358"
abbreviation RIGHT_BRACE :: int where "RIGHT_BRACE \<equiv> 57359"
abbreviation RIGHT_BRACKET :: int where "RIGHT_BRACKET \<equiv> 57360"
abbreviation RIGHT_PAREN :: int where "RIGHT_PAREN \<equiv> 57361"
abbreviation SPACE :: int where "SPACE \<equiv> 57362"
abbreviation STRING :: int where "STRING \<equiv> 57363"
abbreviation QUOTED_STRING :: int where "QUOTED_STRING \<equiv> 57364"
abbreviation NAMESPACE :: int where "NAMESPACE \<equiv> 57365"
abbreviation DOT :: int where "DOT \<equiv> 57366"
abbreviation operatorsStart :: int where "operatorsStart \<equiv> 57367"
abbreviation ADD :: int where "ADD \<equiv> 57368"
abbreviation DIV :: int where "DIV \<equiv> 57369"
abbreviation GTE :: int where "GTE \<equiv> 57370"
abbreviation GT :: int where "GT \<equiv> 57371"
abbreviation LT :: int where "LT \<equiv> 57372"
abbreviation LTE :: int where "LTE \<equiv> 57373"
abbreviation MOD :: int where "MOD \<equiv> 57374"
abbreviation MUL :: int where "MUL \<equiv> 57375"
abbreviation NEQ :: int where "NEQ \<equiv> 57376"
abbreviation POW :: int where "POW \<equiv> 57377"
abbreviation SUB :: int where "SUB \<equiv> 57378"
abbreviation operatorsEnd :: int where "operatorsEnd \<equiv> 57379"
abbreviation keywordsStart :: int where "keywordsStart \<equiv> 57380"
abbreviation AS :: int where "AS \<equiv> 57381"
abbreviation ASC :: int where "ASC \<equiv> 57382"
abbreviation AUTO :: int where "AUTO \<equiv> 57383"
abbreviation BY :: int where "BY \<equiv> 57384"
abbreviation MATCH :: int where "MATCH \<equiv> 57385"
abbreviation NOT_MATCH :: int where "NOT_MATCH \<equiv> 57386"
abbreviation DESC :: int where "DESC \<equiv> 57387"
abbreviation TRUE :: int where "TRUE \<equiv> 57388"
abbreviation FALSE :: int where "FALSE \<equiv> 57389"
abbreviation FILTER :: int where "FILTER \<equiv> 57390"
abbreviation IDENTIFIER :: int where "IDENTIFIER \<equiv> 57391"
abbreviation IN :: int where "IN \<equiv> 57392"
abbreviation NOT_IN :: int where "NOT_IN \<equiv> 57393"
abbreviation AND :: int where "AND \<equiv> 57394"
abbreviation LINK :: int where "LINK \<equiv> 57395"
abbreviation LIMIT :: int where "LIMIT \<equiv> 57396"
abbreviation SLIMIT :: int where "SLIMIT \<equiv> 57397"
abbreviation OR :: int where "OR \<equiv> 57398"
abbreviation NIL :: int where "NIL \<equiv> 57399"
abbreviation NULL :: int where "NULL \<equiv> 57400"
abbreviation OFFSET :: int where "OFFSET \<equiv> 57401"
abbreviation SOFFSET :: int where "SOFFSET \<equiv> 57402"
abbreviation ORDER :: int where "ORDER \<equiv> 57403"
abbreviation RE :: int where "RE \<equiv> 57404"
abbreviation INT_KW :: int where "INT_KW \<equiv> 57405"
abbreviation FLOAT :: int where "FLOAT \<equiv> 57406"
abbreviation POINT :: int where "POINT \<equiv> 57407"
abbreviation TIMEZONE :: int where "TIMEZONE \<equiv> 57408"
abbreviation WITH :: int where "WITH \<equiv> 57409"
abbreviation keywordsEnd :: int where "keywordsEnd \<equiv> 57410"
abbreviation startSymbolsStart :: int where "startSymbolsStart \<equiv> 57411"
abbreviation START_STMTS :: int where "START_STMTS \<equiv> 57412"
abbreviation START_BINARY_EXPRESSION :: int where "START_BINARY_EXPRESSION \<equiv> 57413"
abbreviation START_FUNC_EXPRESSION :: int where "START_FUNC_EXPRESSION \<equiv> 57414"
abbreviation START_WHERE_CONDITION :: int where "START_WHERE_CONDITION \<equiv> 57415"
abbreviation startSymbolsEnd :: int where "startSymbolsEnd \<equiv> 57416"
abbreviation yyPrivate :: int where "yyPrivate \<equiv> 57344"

definition IsOperator :: "ItemType \<Rightarrow> bool" where
  "IsOperator i \<longleftrightarrow> i > operatorsStart \<and> i < operatorsEnd"

definition IsKeyword :: "ItemType \<Rightarrow> bool" where
  "IsKeyword i \<longleftrightarrow> i > keywordsStart \<and> i < keywordsEnd"

text \<open>The keywords as they are declared; \<open>init\<close> adds \<open>inf\<close> and \<open>nan\<close>.\<close>

definition declared_keywords :: "(string \<times> ItemType) list" where
  "declared_keywords =
     [(''and'', AND), (''as'', AS), (''asc'', ASC), (''auto'', AUTO), (''by'', BY), (''desc'', DESC),
      (''match'', MATCH), (''notmatch'', NOT_MATCH), (''false'', FALSE), (''filter'', FILTER),
      (''identifier'', IDENTIFIER), (''in'', IN), (''notin'', NOT_IN), (''not_in'', NOT_IN),
      (''limit'', LIMIT), (''link'', LINK), (''nil'', NIL), (''null'', NULL), (''offset'', OFFSET),
      (''with'', WITH), (''or'', OR), (''order'', ORDER), (''re'', RE), (''int'', INT_KW),
      (''float'', FLOAT), (''slimit'', SLIMIT), (''soffset'', SOFFSET), (''true'', TRUE),
      (''tz'', TIMEZONE)]"

definition keyword_table :: "(string \<times> ItemType) list" where
  "keyword_table = declared_keywords @ [(''inf'', NUMBER), (''nan'', NUMBER)]"

subsection \<open>Nodes\<close>

datatype Node =
    NNone
  | Star
  | BoolLiteral bool
  | NilLiteral
  | StringLiteral string
  | NumberLiteral bool f64 int
  | Identifier string
  | AttrExpr Node Node
  | NRegex "string option"
  | NodeList "Node list"
  | FuncArgList "Node list"
  | FuncArg string Node
  | FuncExpr string "Node list"
  | CascadeFunctions "Node list"
  | ParenExpr Node
  | BinaryExpr ItemType Node Node bool

text \<open>\<open>WhereConditions\<close> is a list whose entries may be \<open>nil\<close>.\<close>

type_synonym WhereCondition = "Node list"
type_synonym WhereConditions = "WhereCondition option list"

definition IsPositiveInteger :: "Node \<Rightarrow> bool" where
  "IsPositiveInteger n = (case n of NumberLiteral isInt f i \<Rightarrow> isInt \<and> i > 0 | _ \<Rightarrow> False)"

definition Reverse :: "Node \<Rightarrow> Node" where
  "Reverse n =
     (case n of
        NumberLiteral isInt f i \<Rightarrow>
          (if isInt then NumberLiteral isInt f (to_i64 (- i)) else NumberLiteral isInt (f64_neg f) i)
      | _ \<Rightarrow> n)"

fun getFuncArgList :: "Node \<Rightarrow> Node" where
  "getFuncArgList (NodeList nl) = FuncArgList nl"
| "getFuncArgList n = n"

subsection \<open>Building nodes (parse.go)\<close>

text \<open>
  What the grammar's actions call.  The parser collects errors (a condition with errors is not
  used) and warnings; \<open>parse_log\<close> counts them.
\<close>

record parse_log =
  errs :: nat
  warns :: nat

definition addParseErr :: "parse_log \<Rightarrow> parse_log" where
  "addParseErr l = l\<lparr>errs := errs l + 1\<rparr>"

definition addParseWarn :: "parse_log \<Rightarrow> parse_log" where
  "addParseWarn l = l\<lparr>warns := warns l + 1\<rparr>"

type_synonym regexp = "string \<Rightarrow> string \<Rightarrow> bool option"

definition compiles :: "regexp \<Rightarrow> string \<Rightarrow> bool" where
  "compiles rx re \<longleftrightarrow> rx re [] \<noteq> None"

definition doNewRegex :: "regexp \<Rightarrow> string \<Rightarrow> string option" where
  "doNewRegex rx s = (if compiles rx s then Some s else None)"

definition newRegex :: "regexp \<Rightarrow> string \<Rightarrow> parse_log \<Rightarrow> string option \<times> parse_log" where
  "newRegex rx s l =
     (case doNewRegex rx s of None \<Rightarrow> (None, addParseWarn l) | Some x \<Rightarrow> (Some x, l))"

fun regex_list :: "regexp \<Rightarrow> Node list \<Rightarrow> parse_log \<Rightarrow> Node list \<times> parse_log" where
  "regex_list rx [] l = ([], l)"
| "regex_list rx (e # es) l =
     (case e of
        StringLiteral s \<Rightarrow>
          (case newRegex rx s l of
             (None, l1) \<Rightarrow> regex_list rx es l1
           | (Some x, l1) \<Rightarrow> (case regex_list rx es l1 of (rs, l2) \<Rightarrow> (NRegex (Some x) # rs, l2)))
      | _ \<Rightarrow> regex_list rx es (addParseErr l))"

definition zero_number :: "Node \<Rightarrow> bool" where
  "zero_number n = (case n of
     NumberLiteral isInt f i \<Rightarrow> isInt \<and> i = 0 \<or> \<not> isInt \<and> f64_eq f (FFin 0) | _ \<Rightarrow> False)"

text \<open>The result is \<open>None\<close> for the \<open>nil\<close> expression of a division by zero.\<close>

definition newBinExpr :: "regexp \<Rightarrow> Node \<Rightarrow> Node \<Rightarrow> ItemType \<Rightarrow> parse_log \<Rightarrow> Node option \<times> parse_log" where
  "newBinExpr rx lhs rhs op l =
     (if (op = DIV \<or> op = MOD) \<and> zero_number rhs then (None, addParseErr l)
      else if op = MATCH \<or> op = NOT_MATCH
      then (case rhs of
              NodeList nl \<Rightarrow>
                (case regex_list rx nl l of (rs, l1) \<Rightarrow> (Some (BinaryExpr op lhs (NodeList rs) False), l1))
            | _ \<Rightarrow> (Some (BinaryExpr op lhs rhs False), addParseErr l))
      else (Some (BinaryExpr op lhs rhs False), l))"

text \<open>\<open>strings.ToLower\<close> on the ASCII letters, which is all a keyword can have.\<close>

definition to_lower :: "char \<Rightarrow> char" where
  "to_lower c = (if CHR ''A'' \<le> c \<and> c \<le> CHR ''Z'' then char_of (of_char c + 32 :: nat) else c)"

definition ToLower :: "string \<Rightarrow> string" where
  "ToLower s = map to_lower s"

end
