(* ===== verification/Filter_Eval.thy ===== *)
theory Filter_Eval
  imports Filter_Ast
begin

section \<open>Filter: evaluating conditions (filter/eval.go, filter/ast.go)\<close>

text \<open>
  A condition is evaluated against key-value data.  \<open>go_any\<close> is an \<open>interface{}\<close> with its dynamic
  type: the integer kinds, floats, strings, booleans, the two pointer types the evaluator passes
  around (\<open>*NilLiteral\<close>, \<open>*Regex\<close>, whose pointer may be \<open>nil\<close>), the empty interface and values of
  any other type.  A result \<open>None\<close> is a run-time panic.
\<close>

datatype ikind = KInt | KInt8 | KInt16 | KInt32 | KInt64 | KUint | KUint8 | KUint16 | KUint32 | KUint64

datatype go_any =
    VInt ikind int
  | VFloat32 f64
  | VFloat64 f64
  | VString string
  | VBool bool
  | VNilLit
  | VRegex "string option"
  | VNil
  | VOther string

text \<open>The data a condition is evaluated against: tags first, then fields.\<close>

type_synonym KVs = "string \<Rightarrow> go_any option"

record tfData =
  tf_tags :: "string \<rightharpoonup> string"
  tf_fields :: "string \<rightharpoonup> go_any"

definition tf_Get :: "tfData \<Rightarrow> KVs" where
  "tf_Get d name =
     (case tf_tags d name of
        Some v \<Rightarrow> Some (VString v)
      | None \<Rightarrow> (case tf_fields d name of Some v \<Rightarrow> Some v | None \<Rightarrow> None))"

subsection \<open>Comparing values\<close>

text \<open>\<open>reflect.TypeOf(x).String()\<close>; on the empty interface the call panics.\<close>

definition ikind_name :: "ikind \<Rightarrow> string" where
  "ikind_name k =
     (case k of KInt \<Rightarrow> ''int'' | KInt8 \<Rightarrow> ''int8'' | KInt16 \<Rightarrow> ''int16'' | KInt32 \<Rightarrow> ''int32'' | KInt64 \<Rightarrow> ''int64''
      | KUint \<Rightarrow> ''uint'' | KUint8 \<Rightarrow> ''uint8'' | KUint16 \<Rightarrow> ''uint16'' | KUint32 \<Rightarrow> ''uint32'' | KUint64 \<Rightarrow> ''uint64'')"

definition typeName :: "go_any \<Rightarrow> string option" where
  "typeName v =
     (case v of
        VInt k i \<Rightarrow> Some (ikind_name k)
      | VFloat32 f \<Rightarrow> Some ''float32'' | VFloat64 f \<Rightarrow> Some ''float64''
      | VString s \<Rightarrow> Some ''string'' | VBool b \<Rightarrow> Some ''bool''
      | VNilLit \<Rightarrow> Some ''*filter.NilLiteral'' | VRegex r \<Rightarrow> Some ''*filter.Regex''
      | VNil \<Rightarrow> None
      | VOther t \<Rightarrow> Some t)"

text \<open>
  \<open>==\<close> on interfaces: the dynamic types and the values agree.  It is only reached with a literal of
  the source on one side, so pointers and values of other types never meet their own kind.
\<close>

fun iface_eq :: "go_any \<Rightarrow> go_any \<Rightarrow> bool" where
  "iface_eq (VInt k i) (VInt k' j) = (k = k' \<and> i = j)"
| "iface_eq (VFloat32 a) (VFloat32 b) = f64_eq a b"
| "iface_eq (VFloat64 a) (VFloat64 b) = f64_eq a b"
| "iface_eq (VString s) (VString t) = (s = t)"
| "iface_eq (VBool a) (VBool b) = (a = b)"
| "iface_eq a b = False"

definition float64EqualityThreshold :: f64 where
  "float64EqualityThreshold = f64_of_rat (1 / 1000000000)"

definition almostEqual :: "f64 \<Rightarrow> f64 \<Rightarrow> bool" where
  "almostEqual a b = f64_le (f64_abs (f64_sub a b)) float64EqualityThreshold"

fun toFloat64 :: "go_any \<Rightarrow> f64" where
  "toFloat64 (VFloat32 v) = v"
| "toFloat64 (VFloat64 v) = v"
| "toFloat64 v = FFin 0"

fun toInt64 :: "go_any \<Rightarrow> int" where
  "toInt64 (VInt k v) = (if k = KUint64 then 0 else to_i64 v)"
| "toInt64 v = 0"

definition cmpstr :: "ItemType \<Rightarrow> string \<Rightarrow> string \<Rightarrow> bool" where
  "cmpstr op l r =
     (if op = GTE then l \<ge> r else if op = LTE then l \<le> r else if op = LT then l < r
      else if op = GT then l > r else False)"

definition cmpint :: "ItemType \<Rightarrow> int \<Rightarrow> int \<Rightarrow> bool" where
  "cmpint op l r =
     (if op = GTE then l \<ge> r else if op = LTE then l \<le> r else if op = LT then l < r
      else if op = GT then l > r else False)"

definition cmpfloat :: "ItemType \<Rightarrow> f64 \<Rightarrow> f64 \<Rightarrow> bool" where
  "cmpfloat op l r =
     (if op = GTE then f64_le r l else if op = LTE then f64_le l r else if op = LT then f64_lt l r
      else if op = GT then f64_lt r l else False)"

text \<open>The groups of operators the source's \<open>case\<close> labels list.\<close>

definition is_order :: "ItemType \<Rightarrow> bool" where
  "is_order op \<longleftrightarrow> op = GTE \<or> op = GT \<or> op = LT \<or> op = LTE"

definition is_cmp :: "ItemType \<Rightarrow> bool" where
  "is_cmp op \<longleftrightarrow> is_order op \<or> op = EQ \<or> op = NEQ"

definition is_match :: "ItemType \<Rightarrow> bool" where
  "is_match op \<longleftrightarrow> op = MATCH \<or> op = NOT_MATCH"

definition is_in :: "ItemType \<Rightarrow> bool" where
  "is_in op \<longleftrightarrow> op = IN \<or> op = NOT_IN"

text \<open>The first part of \<open>binEval\<close>: \<open>Some (Some b)\<close> returns early, \<open>Some None\<close> goes on.\<close>

definition binEval_check :: "ItemType \<Rightarrow> go_any \<Rightarrow> go_any \<Rightarrow> bool option option" where
  "binEval_check op lhs rhs =
     (case rhs of
        VRegex r \<Rightarrow> (case lhs of VString s \<Rightarrow> Some None | _ \<Rightarrow> Some (Some False))
      | _ \<Rightarrow>
          (case (typeName lhs, typeName rhs) of
             (Some lt, Some rt) \<Rightarrow>
               (if is_cmp op
                then if rhs \<noteq> VNilLit \<and> lt \<noteq> rt then Some (Some False) else Some None
                else Some (Some False))
           | _ \<Rightarrow> None))"

definition eq_eval :: "regexp \<Rightarrow> go_any \<Rightarrow> go_any \<Rightarrow> bool option" where
  "eq_eval rx lhs rhs =
     (case lhs of
        VFloat64 lv \<Rightarrow> (case rhs of VFloat64 f \<Rightarrow> Some (almostEqual lv f) | _ \<Rightarrow> Some False)
      | VNilLit \<Rightarrow> Some (rhs = VNilLit)
      | _ \<Rightarrow>
          (case rhs of
             VRegex r \<Rightarrow>
               (case (r, lhs) of
                  (Some re, VString s) \<Rightarrow> Some (rx re s = Some True)
                | _ \<Rightarrow> None)
           | _ \<Rightarrow> Some (iface_eq lhs rhs)))"

definition match_eval :: "regexp \<Rightarrow> go_any \<Rightarrow> go_any \<Rightarrow> bool option" where
  "match_eval rx lhs rhs =
     (case (rhs, lhs) of (VRegex (Some re), VString s) \<Rightarrow> rx re s | _ \<Rightarrow> None)"

definition order_eval :: "ItemType \<Rightarrow> go_any \<Rightarrow> go_any \<Rightarrow> bool" where
  "order_eval op lhs rhs =
     (case lhs of
        VInt k lv \<Rightarrow>
          (if k = KUint64 then False
           else case rhs of VInt KInt64 i \<Rightarrow> cmpint op (toInt64 lhs) i | _ \<Rightarrow> False)
      | VString lv \<Rightarrow> (case rhs of VString s \<Rightarrow> cmpstr op lv s | _ \<Rightarrow> False)
      | VFloat32 lv \<Rightarrow> (case rhs of VFloat64 f \<Rightarrow> cmpfloat op (toFloat64 lhs) f | _ \<Rightarrow> False)
      | VFloat64 lv \<Rightarrow> (case rhs of VFloat64 f \<Rightarrow> cmpfloat op (toFloat64 lhs) f | _ \<Rightarrow> False)
      | _ \<Rightarrow> False)"

definition binEval :: "regexp \<Rightarrow> ItemType \<Rightarrow> go_any \<Rightarrow> go_any \<Rightarrow> bool option" where
  "binEval rx op lhs rhs =
     (case binEval_check op lhs rhs of
        None \<Rightarrow> None
      | Some (Some b) \<Rightarrow> Some b
      | Some None \<Rightarrow>
          (if op = EQ then eq_eval rx lhs rhs
           else if op = MATCH then match_eval rx lhs rhs
           else if op = NOT_MATCH then map_option Not (match_eval rx lhs rhs)
           else if op = NEQ then Some (\<not> (lhs = VNilLit \<and> rhs = VNilLit) \<and> \<not> iface_eq lhs rhs)
           else if is_order op then Some (order_eval op lhs rhs)
           else Some False))"

subsection \<open>One comparison\<close>

text \<open>The value of a literal on the right; \<open>None\<close> for a node that is not one.\<close>

definition literal :: "Node \<Rightarrow> go_any option" where
  "literal n =
     (case n of
        StringLiteral s \<Rightarrow> Some (VString s)
      | NumberLiteral isInt f i \<Rightarrow> Some (if isInt then VInt KInt64 i else VFloat64 f)
      | NRegex r \<Rightarrow> Some (VRegex r)
      | NilLiteral \<Rightarrow> Some VNilLit
      | BoolLiteral b \<Rightarrow> Some (VBool b)
      | _ \<Rightarrow> None)"

text \<open>The right side: a literal (a list leaves it \<open>nil\<close>) and the elements of a list.\<close>

definition rhs_value :: "Node \<Rightarrow> (go_any \<times> go_any list) option" where
  "rhs_value n =
     (case n of
        NodeList es \<Rightarrow> Some (VNil, List.map_filter literal es)
      | _ \<Rightarrow> (case literal n of Some v \<Rightarrow> Some (v, []) | None \<Rightarrow> None))"

text \<open>The loops of \<open>MATCH\<close>, \<open>IN\<close> and \<open>NOT_IN\<close>; an element of a match list is a node.\<close>

fun match_loop :: "regexp \<Rightarrow> ItemType \<Rightarrow> go_any option \<Rightarrow> Node list \<Rightarrow> bool option" where
  "match_loop rx op v [] = Some False"
| "match_loop rx op v (item # items) =
     (case v of
        Some (VString x) \<Rightarrow>
          (case item of
             NRegex r \<Rightarrow>
               (case binEval rx op (VString x) (VRegex r) of
                  None \<Rightarrow> None | Some True \<Rightarrow> Some True | Some False \<Rightarrow> match_loop rx op v items)
           | NNone \<Rightarrow> None
           | _ \<Rightarrow> match_loop rx op v items)
      | _ \<Rightarrow> match_loop rx op v items)"

fun in_loop :: "regexp \<Rightarrow> go_any option \<Rightarrow> go_any list \<Rightarrow> bool option" where
  "in_loop rx v [] = Some False"
| "in_loop rx v (item # items) =
     (case v of
        Some x \<Rightarrow>
          (case binEval rx EQ x item of
             None \<Rightarrow> None | Some True \<Rightarrow> Some True | Some False \<Rightarrow> in_loop rx v items)
      | None \<Rightarrow> binEval rx EQ item VNilLit)"

fun not_in_loop :: "regexp \<Rightarrow> go_any option \<Rightarrow> go_any list \<Rightarrow> bool option" where
  "not_in_loop rx v [] = Some True"
| "not_in_loop rx v (item # items) =
     (case (case v of Some x \<Rightarrow> binEval rx EQ x item | None \<Rightarrow> binEval rx EQ item VNilLit) of
        None \<Rightarrow> None | Some True \<Rightarrow> Some False | Some False \<Rightarrow> not_in_loop rx v items)"

definition ident_eval :: "regexp \<Rightarrow> ItemType \<Rightarrow> go_any option \<Rightarrow> Node \<Rightarrow> go_any \<Rightarrow> go_any list \<Rightarrow> bool option" where
  "ident_eval rx op v rhs lit arr =
     (if is_match op
      then (case rhs of NodeList es \<Rightarrow> match_loop rx op v es | _ \<Rightarrow> None)
      else if op = IN then in_loop rx v arr
      else if op = NOT_IN then not_in_loop rx v arr
      else if is_cmp op
      then (case v of Some x \<Rightarrow> binEval rx op x lit | None \<Rightarrow> binEval rx op lit VNilLit)
      else Some False)"

definition singleEval :: "regexp \<Rightarrow> KVs \<Rightarrow> ItemType \<Rightarrow> Node \<Rightarrow> Node \<Rightarrow> bool option" where
  "singleEval rx data op lhs rhs =
     (if lhs = NNone \<or> rhs = NNone then Some False
      else case rhs_value rhs of
             None \<Rightarrow> Some False
           | Some (lit, arr) \<Rightarrow>
               (case lhs of
                  NilLiteral \<Rightarrow> binEval rx op VNilLit lit
                | NumberLiteral isInt f i \<Rightarrow> binEval rx op (if isInt then VInt KInt64 i else VFloat64 f) lit
                | BoolLiteral b \<Rightarrow> binEval rx op (VBool b) lit
                | StringLiteral s \<Rightarrow> binEval rx op (VString s) lit
                | Identifier name \<Rightarrow> ident_eval rx op (data name) rhs lit arr
                | _ \<Rightarrow> Some False))"

definition doEval :: "regexp \<Rightarrow> KVs \<Rightarrow> ItemType \<Rightarrow> Node \<Rightarrow> Node \<Rightarrow> bool option" where
  "doEval rx data op lhs rhs =
     (if is_cmp op \<or> is_in op \<or> is_match op
      then singleEval rx data op lhs rhs else Some False)"

subsection \<open>Expressions and conditions\<close>

fun Evaluable :: "Node \<Rightarrow> bool" where
  "Evaluable (ParenExpr n) = True"
| "Evaluable (BinaryExpr op l r b) = True"
| "Evaluable n = False"

fun Eval :: "regexp \<Rightarrow> KVs \<Rightarrow> Node \<Rightarrow> bool option" where
  "Eval rx data (ParenExpr n) = (if Evaluable n then Eval rx data n else Some False)"
| "Eval rx data (BinaryExpr op l r b) =
     (if op = AND
      then if Evaluable l \<and> Evaluable r
           then (case Eval rx data l of None \<Rightarrow> None | Some False \<Rightarrow> Some False | Some True \<Rightarrow> Eval rx data r)
           else Some False
      else if op = OR
      then if Evaluable l \<and> Evaluable r
           then (case Eval rx data l of None \<Rightarrow> None | Some True \<Rightarrow> Some True | Some False \<Rightarrow> Eval rx data r)
           else Some False
      else doEval rx data op l r)"
| "Eval rx data n = Some False"

fun where_Eval :: "regexp \<Rightarrow> KVs \<Rightarrow> WhereCondition \<Rightarrow> bool option" where
  "where_Eval rx data [] = Some True"
| "where_Eval rx data (c # cs) =
     (case c of
        BinaryExpr op l r b \<Rightarrow>
          (case Eval rx data c of
             None \<Rightarrow> None | Some False \<Rightarrow> Some False | Some True \<Rightarrow> where_Eval rx data cs)
      | _ \<Rightarrow> Some False)"

text \<open>The index of the first condition that holds, or -1.\<close>

fun conds_Eval :: "regexp \<Rightarrow> KVs \<Rightarrow> int \<Rightarrow> WhereConditions \<Rightarrow> int option" where
  "conds_Eval rx data idx [] = Some (- 1)"
| "conds_Eval rx data idx (None # cs) = Some (- 1)"
| "conds_Eval rx data idx (Some c # cs) =
     (case where_Eval rx data c of
        None \<Rightarrow> None | Some True \<Rightarrow> Some idx | Some False \<Rightarrow> conds_Eval rx data (idx + 1) cs)"

subsection \<open>What the grammar builds\<close>

text \<open>
  \<open>wf_expr rx e\<close>: the tree \<open>e\<close> as the grammar can build it, with every regular expression
  compiled.  Lists stand on the right of the list operators only.
\<close>

definition regexp_ok :: "regexp \<Rightarrow> bool" where
  "regexp_ok rx \<longleftrightarrow> (\<forall>re s. rx re s = None \<longleftrightarrow> rx re [] = None)"

definition wf_regex :: "regexp \<Rightarrow> Node \<Rightarrow> bool" where
  "wf_regex rx n = (case n of NRegex r \<Rightarrow> (case r of None \<Rightarrow> False | Some re \<Rightarrow> compiles rx re) | _ \<Rightarrow> False)"

definition wf_operand :: "regexp \<Rightarrow> Node \<Rightarrow> bool" where
  "wf_operand rx n = (case n of NodeList es \<Rightarrow> False | NRegex r \<Rightarrow> wf_regex rx n | _ \<Rightarrow> True)"

fun wf_expr :: "regexp \<Rightarrow> Node \<Rightarrow> bool" where
  "wf_expr rx (ParenExpr n) = wf_expr rx n"
| "wf_expr rx (BinaryExpr op l r b) =
     (if is_match op
      then (case r of NodeList es \<Rightarrow> list_all (wf_regex rx) es | _ \<Rightarrow> False) \<and> (case l of Identifier x \<Rightarrow> True | _ \<Rightarrow> False)
      else if is_in op
      then (case r of NodeList es \<Rightarrow> list_all (\<lambda>e. \<not> (case e of NRegex x \<Rightarrow> True | _ \<Rightarrow> False)) es | _ \<Rightarrow> False) \<and>
           (case l of Identifier x \<Rightarrow> True | _ \<Rightarrow> False)
      else if op = AND \<or> op = OR then wf_expr rx l \<and> wf_expr rx r
      else wf_operand rx r)"
| "wf_expr rx n = True"

definition data_ok :: "KVs \<Rightarrow> bool" where
  "data_ok data \<longleftrightarrow> (\<forall>k. data k \<noteq> Some VNil)"

lemma typeName_None: "typeName v = None \<longleftrightarrow> v = VNil"
  by (cases v) (auto simp: typeName_def)

definition good_regex :: "regexp \<Rightarrow> go_any \<Rightarrow> bool" where
  "good_regex rx v = (case v of VRegex r \<Rightarrow> (case r of None \<Rightarrow> False | Some re \<Rightarrow> compiles rx re) | _ \<Rightarrow> True)"

lemma eq_eval_total: "\<forall>x. r \<noteq> VRegex x \<Longrightarrow> eq_eval rx l r \<noteq> None"
  by (cases r; cases l) (simp_all add: eq_eval_def)

lemma binEval_check_cases:
  assumes "l \<noteq> VNil" "r \<noteq> VNil" "\<forall>x. r \<noteq> VRegex x"
  shows "(\<exists>b. binEval_check op l r = Some (Some b)) \<or> binEval_check op l r = Some None \<and> is_cmp op"
proof -
  obtain lt rt where t: "typeName l = Some lt" "typeName r = Some rt"
    using assms(1,2) typeName_None by fastforce
  show ?thesis using assms(2,3) t by (cases r) (auto simp: binEval_check_def)
qed

lemma binEval_total:
  assumes "regexp_ok rx" "l \<noteq> VNil" "r \<noteq> VNil" "good_regex rx r"
  shows "binEval rx op l r \<noteq> None"
proof (cases "\<exists>x. r = VRegex x")
  case True
  with assms(4) obtain re where re: "r = VRegex (Some re)" "compiles rx re"
    by (auto simp: good_regex_def split: option.splits)
  have "rx re s \<noteq> None" for s using assms(1) re(2) unfolding regexp_ok_def compiles_def by metis
  with re show ?thesis
    by (cases l) (auto simp: binEval_def binEval_check_def eq_eval_def match_eval_def)
next
  case False
  then have nr: "r \<noteq> VRegex x" for x by blast
  have m: "\<not> is_cmp MATCH" "\<not> is_cmp NOT_MATCH" by (auto simp: is_cmp_def is_order_def)
  from binEval_check_cases[OF assms(2,3), of op] nr eq_eval_total[of r rx l] show ?thesis
    by (auto simp: binEval_def m)
qed

lemma literal_ok:
  "literal n = Some v \<Longrightarrow> v \<noteq> VNil"
  "literal n = Some v \<Longrightarrow> wf_operand rx n \<Longrightarrow> good_regex rx v"
  "literal n = Some v \<Longrightarrow> \<not> (case n of NRegex x \<Rightarrow> True | _ \<Rightarrow> False) \<Longrightarrow> good_regex rx v"
  by (cases n; auto simp: literal_def good_regex_def wf_operand_def wf_regex_def split: option.splits if_splits)+

lemma in_loops_total:
  assumes "regexp_ok rx" "v \<noteq> Some VNil" "\<forall>x \<in> set arr. x \<noteq> VNil \<and> good_regex rx x"
  shows "in_loop rx v arr \<noteq> None" "not_in_loop rx v arr \<noteq> None"
proof -
  have e: "binEval rx EQ x i \<noteq> None" if "v = Some x" "i \<in> set arr" for x i
    using assms that by (intro binEval_total) auto
  have n: "binEval rx EQ i VNilLit \<noteq> None" if "i \<in> set arr" for i
    using assms that by (intro binEval_total) (auto simp: good_regex_def)
  show "in_loop rx v arr \<noteq> None" using e n
    by (induction arr) (auto split: option.splits bool.splits, metis option.distinct(1))
  show "not_in_loop rx v arr \<noteq> None" using e n
    by (induction arr) (auto split: option.splits bool.splits)
qed

lemma match_loop_total:
  assumes "regexp_ok rx" "list_all (wf_regex rx) es"
  shows "match_loop rx op v es \<noteq> None"
  using assms(2)
proof (induction es)
  case (Cons e es)
  then obtain re where e: "e = NRegex (Some re)" "compiles rx re"
    by (cases e) (auto simp: wf_regex_def split: option.splits)
  have "binEval rx op (VString x) (VRegex (Some re)) \<noteq> None" for x
    using assms(1) e(2) by (intro binEval_total) (auto simp: good_regex_def)
  with Cons e(1) show ?case by (auto split: option.splits go_any.splits bool.splits) (metis option.distinct(1))
qed simp

lemma rhs_value_operand:
  assumes "wf_operand rx r" "rhs_value r = Some (lit, arr)"
  shows "lit \<noteq> VNil" "good_regex rx lit" "arr = []" "literal r = Some lit"
  using assms literal_ok(1)[of r lit] literal_ok(2)[of r lit rx]
  by (cases r; auto simp: rhs_value_def wf_operand_def literal_def split: option.splits)+

lemma doEval_cmp_total:
  assumes "regexp_ok rx" "data_ok data" "wf_operand rx r" "\<not> is_match op" "\<not> is_in op"
  shows "doEval rx data op l r \<noteq> None"
proof (cases "rhs_value r")
  case None
  then have "singleEval rx data op l r = Some False" by (simp add: singleEval_def)
  then show ?thesis unfolding doEval_def by (metis option.distinct(1))
next
  case (Some q)
  obtain lit arr where q: "q = (lit, arr)" by fastforce
  note rv = rhs_value_operand[OF assms(3) Some[unfolded q]]
  have b: "binEval rx op x lit \<noteq> None" if "x \<noteq> VNil" for x
    using assms(1) that rv by (intro binEval_total)
  have n: "binEval rx op lit VNilLit \<noteq> None"
    using assms(1) rv by (intro binEval_total) (auto simp: good_regex_def)
  have "ident_eval rx op v r lit arr \<noteq> None" if "v \<noteq> Some VNil" for v
    using assms(4,5) b n that by (auto simp: ident_eval_def is_in_def split: option.splits)
  with assms(2) b Some q have "singleEval rx data op l r \<noteq> None"
    by (cases l) (simp_all add: singleEval_def data_ok_def del: not_None_eq)
  then show ?thesis unfolding doEval_def by (metis option.distinct(1))
qed

lemma Eval_total:
  assumes "regexp_ok rx" "data_ok data"
  shows "wf_expr rx e \<Longrightarrow> Eval rx data e \<noteq> None"
proof (induction e)
  case (BinaryExpr op l r b)
  have v: "data k \<noteq> Some VNil" for k using assms(2) by (simp add: data_ok_def)
  consider (m) "is_match op" | (i) "is_in op" "\<not> is_match op" | (c) "op = AND \<or> op = OR"
    | (o) "\<not> is_match op" "\<not> is_in op" "op \<noteq> AND" "op \<noteq> OR" by blast
  then show ?case
  proof cases
    case m
    with BinaryExpr.prems obtain es x where r: "r = NodeList es" "list_all (wf_regex rx) es" "l = Identifier x"
      by (auto split: Node.splits)
    have "op \<noteq> AND" "op \<noteq> OR" using m by (auto simp: is_match_def)
    then show ?thesis using m r match_loop_total[OF assms(1) r(2)]
      by (simp add: doEval_def singleEval_def rhs_value_def ident_eval_def del: not_None_eq)
  next
    case i
    with BinaryExpr.prems obtain es x where r: "r = NodeList es" "l = Identifier x"
      "list_all (\<lambda>e. \<not> (case e of NRegex x \<Rightarrow> True | _ \<Rightarrow> False)) es"
      by (auto split: Node.splits)
    have "\<forall>x \<in> set (List.map_filter literal es). x \<noteq> VNil \<and> good_regex rx x"
      using r(3) literal_ok by (fastforce simp: List.map_filter_def list_all_iff)
    moreover have "op \<noteq> AND" "op \<noteq> OR" "op \<noteq> IN \<Longrightarrow> op = NOT_IN" using i by (auto simp: is_in_def)
    ultimately show ?thesis using r i in_loops_total[OF assms(1) v]
      by (simp add: doEval_def singleEval_def rhs_value_def ident_eval_def del: not_None_eq)
  next
    case c
    then have "\<not> is_match op" "\<not> is_in op" by (auto simp: is_match_def is_in_def)
    with c BinaryExpr show ?thesis by (auto split: option.splits bool.splits)
  next
    case o
    with BinaryExpr.prems doEval_cmp_total[OF assms, of r op l] show ?thesis by simp
  qed
next
  case (ParenExpr n)
  then show ?case by auto
qed simp_all

end
