(* ===== verification/Filter_Props.thy ===== *)
theory Filter_Props
  imports Filter_Eval
begin

section \<open>Filter: properties of evaluation\<close>

text \<open>The meaning of an expression in plain logic, over the outcome of its comparisons.\<close>

fun holds :: "regexp \<Rightarrow> KVs \<Rightarrow> Node \<Rightarrow> bool" where
  "holds rx data (ParenExpr n) \<longleftrightarrow> holds rx data n"
| "holds rx data (BinaryExpr op l r b) \<longleftrightarrow>
     (if op = AND then holds rx data l \<and> holds rx data r
      else if op = OR then Evaluable l \<and> Evaluable r \<and> (holds rx data l \<or> holds rx data r)
      else doEval rx data op l r = Some True)"
| "holds rx data n \<longleftrightarrow> False"

lemma holds_Evaluable: "holds rx data n \<Longrightarrow> Evaluable n"
  by (cases n) auto

lemma Eval_holds:
  assumes "regexp_ok rx" "data_ok data"
  shows "wf_expr rx e \<Longrightarrow> Eval rx data e = Some (holds rx data e)"
proof (induction e)
  case (ParenExpr n)
  then show ?case using holds_Evaluable[of rx data n] by auto
next
  case (BinaryExpr op l r b)
  show ?case
  proof (cases "op = AND \<or> op = OR")
    case True
    then have "\<not> is_match op" "\<not> is_in op" by (auto simp: is_match_def is_in_def)
    with True BinaryExpr show ?thesis using holds_Evaluable[of rx data l] holds_Evaluable[of rx data r]
      by (auto split: bool.splits)
  next
    case False
    with Eval_total[OF assms BinaryExpr.prems] show ?thesis
      by (cases "doEval rx data op l r") auto
  qed
qed simp_all

definition ex_rx :: regexp where
  "ex_rx re s = (if re = ''['' then None else Some (re = s))"

lemma ex_rx_ok: "regexp_ok ex_rx"
  by (simp add: regexp_ok_def ex_rx_def)

definition ex_data :: KVs where
  "ex_data k = (if k = ''host'' then Some (VString ''web'') else if k = ''cpu'' then Some (VInt KInt64 90) else None)"

lemma ex_data_ok: "data_ok ex_data"
  by (simp add: data_ok_def ex_data_def)

text \<open>
  C10.  A condition whose regular expressions compiled, and whose matches and memberships are of an
  identifier in a list, evaluates to its
  logical meaning and does not panic on data without nil values: conjunctions and disjunctions
  agree with logic despite the short circuit, and nil lookups, type conflicts and missing keys are
  all answered.
\<close>

theorem Eval_logical:
  assumes "regexp_ok rx" "data_ok data" "wf_expr rx e"
  shows "Eval rx data e = Some (holds rx data e)"
  using Eval_holds assms by blast

theorem Eval_logical_witness:
  "Eval ex_rx ex_data (BinaryExpr OR
      (ParenExpr (BinaryExpr MATCH (Identifier ''host'') (NodeList [NRegex (Some ''web'')]) True))
      (BinaryExpr GT (Identifier ''cpu'') (StringLiteral ''x'') True) True) = Some True"
proof -
  let ?e = "BinaryExpr OR (ParenExpr (BinaryExpr MATCH (Identifier ''host'') (NodeList [NRegex (Some ''web'')]) True))
      (BinaryExpr GT (Identifier ''cpu'') (StringLiteral ''x'') True) True"
  have "wf_expr ex_rx ?e" by code_simp
  from Eval_logical[OF ex_rx_ok ex_data_ok this] show ?thesis by (simp only:) code_simp
qed

text \<open>
  For a key that is present, \<open>NOT_IN\<close> is the negation of \<open>IN\<close>, and \<open>IN\<close> is membership up to
  the evaluator's equality.  For a missing key \<open>NOT_IN\<close> looks for nil in the whole list, but \<open>IN\<close>
  at its first element only.
\<close>

theorem in_not_in:
  assumes "regexp_ok rx" "\<forall>x \<in> set arr. x \<noteq> VNil \<and> good_regex rx x" "v \<noteq> VNil"
  shows "not_in_loop rx (Some v) arr = map_option Not (in_loop rx (Some v) arr) \<and>
         in_loop rx (Some v) arr = Some (\<exists>x \<in> set arr. binEval rx EQ v x = Some True) \<and>
         not_in_loop rx None arr = Some (VNilLit \<notin> set arr) \<and>
         in_loop rx None arr = Some (arr \<noteq> [] \<and> hd arr = VNilLit)"
proof -
  have b: "binEval rx EQ v x \<noteq> None" if "x \<in> set arr" for x using assms that by (intro binEval_total) auto
  have n: "binEval rx EQ x VNilLit = Some (x = VNilLit)" if "x \<in> set arr" for x
  proof -
    have "typeName x \<noteq> None" using assms(2) that typeName_None by auto
    then show ?thesis
      by (cases x) (auto simp: binEval_def binEval_check_def eq_eval_def is_cmp_def typeName_def)
  qed
  have "not_in_loop rx (Some v) arr = map_option Not (in_loop rx (Some v) arr)"
    using b by (induction arr) (auto split: option.splits bool.splits)
  moreover have "in_loop rx (Some v) arr = Some (\<exists>x \<in> set arr. binEval rx EQ v x = Some True)"
    using b by (induction arr) (auto split: option.splits bool.splits)
  moreover have "not_in_loop rx None arr = Some (VNilLit \<notin> set arr)"
    using n by (induction arr) (auto split: option.splits bool.splits)
  moreover have "in_loop rx None arr = Some (arr \<noteq> [] \<and> hd arr = VNilLit)"
    using n by (cases arr) auto
  ultimately show ?thesis by blast
qed

theorem in_not_in_witness:
  "in_loop ex_rx None [VString ''a'', VNilLit] = Some False \<and> not_in_loop ex_rx None [VString ''a'', VNilLit] = Some False"
proof -
  have "\<forall>x \<in> set [VString ''a'', VNilLit]. x \<noteq> VNil \<and> good_regex ex_rx x" by (simp add: good_regex_def)
  from in_not_in[OF ex_rx_ok this, of "VBool True"] show ?thesis
    by (simp del: in_loop.simps not_in_loop.simps)
qed

text \<open>
  The comparisons are coherent on integers and on strings: exactly one of less, equal and
  greater holds, the weak orders are the disjunctions, and not-equal is the negation of equal.
\<close>

theorem comparisons_coherent:
  assumes "(\<exists>i j. l = VInt KInt64 i \<and> r = VInt KInt64 j \<and> in_range 64 i) \<or> (\<exists>s t. l = VString s \<and> r = VString t)"
  shows "\<exists>lt eq gt. binEval rx LT l r = Some lt \<and> binEval rx EQ l r = Some eq \<and> binEval rx GT l r = Some gt \<and>
     binEval rx LTE l r = Some (lt \<or> eq) \<and> binEval rx GTE l r = Some (gt \<or> eq) \<and>
     binEval rx NEQ l r = Some (\<not> eq) \<and> (lt \<or> eq \<or> gt) \<and> \<not> (lt \<and> eq) \<and> \<not> (lt \<and> gt) \<and> \<not> (eq \<and> gt)"
  using assms
proof
  assume "\<exists>i j. l = VInt KInt64 i \<and> r = VInt KInt64 j \<and> in_range 64 i"
  then obtain i j where v: "l = VInt KInt64 i" "r = VInt KInt64 j" "in_range 64 i" by blast
  then have "to_i64 i = i" by (simp add: in_range_def to_i64_id)
  with v show ?thesis
    by (intro exI[of _ "i < j"] exI[of _ "i = j"] exI[of _ "i > j"])
      (auto simp: binEval_def binEval_check_def typeName_def ikind_name_def is_cmp_def is_order_def eq_eval_def
        order_eval_def cmpint_def)
next
  assume "\<exists>s t. l = VString s \<and> r = VString t"
  then obtain s t where v: "l = VString s" "r = VString t" by blast
  then show ?thesis
    by (intro exI[of _ "s < t"] exI[of _ "s = t"] exI[of _ "s > t"])
      (auto simp: binEval_def binEval_check_def typeName_def is_cmp_def is_order_def eq_eval_def
        order_eval_def cmpstr_def)
qed

theorem comparisons_coherent_witness:
  "\<exists>lt eq gt. binEval ex_rx LT (VString ''a'') (VString ''b'') = Some lt \<and>
     binEval ex_rx EQ (VString ''a'') (VString ''b'') = Some eq \<and> binEval ex_rx GT (VString ''a'') (VString ''b'') = Some gt \<and>
     (lt \<or> eq \<or> gt)"
  using comparisons_coherent[of "VString ''a''" "VString ''b''" ex_rx] by blast

text \<open>
  \<open>WhereConditions.Eval\<close> returns the index of the first condition whose expressions all hold,
  and -1 when there is none.
\<close>

lemma conds_Eval_first:
  assumes "\<forall>c \<in> set cs. where_Eval rx data c \<noteq> None"
  shows "\<exists>i. conds_Eval rx data idx (map Some cs) = Some i \<and>
     (if \<exists>c \<in> set cs. where_Eval rx data c = Some True
      then \<exists>k < length cs. i = idx + int k \<and> where_Eval rx data (cs ! k) = Some True \<and>
             (\<forall>m < k. where_Eval rx data (cs ! m) = Some False)
      else i = - 1)"
  using assms
proof (induction cs arbitrary: idx)
  case (Cons c cs)
  then obtain b where b: "where_Eval rx data c = Some b" by auto
  show ?case
  proof (cases b)
    case True
    with b show ?thesis by (intro exI[of _ idx]) (auto intro!: exI[of _ 0])
  next
    case False
    obtain i where i: "conds_Eval rx data (idx + 1) (map Some cs) = Some i"
      "if \<exists>c \<in> set cs. where_Eval rx data c = Some True
      then \<exists>k < length cs. i = idx + 1 + int k \<and> where_Eval rx data (cs ! k) = Some True \<and>
             (\<forall>m < k. where_Eval rx data (cs ! m) = Some False)
      else i = - 1"
      using Cons.IH[of "idx + 1"] Cons.prems by auto
    show ?thesis
    proof (cases "\<exists>c \<in> set cs. where_Eval rx data c = Some True")
      case True
      with i(2) obtain k where "k < length cs" "i = idx + 1 + int k" "where_Eval rx data (cs ! k) = Some True"
        "\<forall>m < k. where_Eval rx data (cs ! m) = Some False" by auto
      then have "\<exists>k < length (c # cs). i = idx + int k \<and> where_Eval rx data ((c # cs) ! k) = Some True \<and>
          (\<forall>m < k. where_Eval rx data ((c # cs) ! m) = Some False)"
        using b False by (intro exI[of _ "Suc k"]) (auto simp: less_Suc_eq_0_disj)
      moreover have "\<exists>d \<in> set (c # cs). where_Eval rx data d = Some True" using True by auto
      ultimately show ?thesis using i(1) b False by (intro exI[of _ i]) (auto simp only: if_True simp_thms
          conds_Eval.simps list.map option.case bool.case)
    next
      case no: False
      with i b False show ?thesis by auto
    qed
  qed
qed simp

theorem conds_first_match:
  assumes "\<forall>c \<in> set cs. where_Eval rx data c \<noteq> None"
  shows "\<exists>i. conds_Eval rx data 0 (map Some cs) = Some i \<and>
     (if \<exists>c \<in> set cs. where_Eval rx data c = Some True
      then \<exists>k < length cs. i = int k \<and> where_Eval rx data (cs ! k) = Some True \<and>
             (\<forall>m < k. where_Eval rx data (cs ! m) = Some False)
      else i = - 1)"
  using conds_Eval_first[OF assms, of 0] by (simp only: add_0_left)

theorem conds_first_match_witness:
  "\<exists>i. conds_Eval ex_rx ex_data 0 (map Some [[BinaryExpr EQ (Identifier ''cpu'') (NumberLiteral True (FFin 0) 5) True], []]) = Some i \<and>
     i = 1"
proof -
  have "where_Eval ex_rx ex_data [BinaryExpr EQ (Identifier ''cpu'') (NumberLiteral True (FFin 0) 5) True] = Some False"
    by code_simp
  then obtain c where c: "c = [BinaryExpr EQ (Identifier ''cpu'') (NumberLiteral True (FFin 0) 5) True]"
    "where_Eval ex_rx ex_data c = Some False" by blast
  from c(2) have "\<forall>d \<in> set [c, []]. where_Eval ex_rx ex_data d \<noteq> None" by (simp del: not_None_eq)
  from conds_first_match[OF this] c(2) have "\<exists>i. conds_Eval ex_rx ex_data 0 (map Some [c, []]) = Some i \<and> i = 1"
    by (auto simp: less_Suc_eq_0_disj)
  then show ?thesis by (simp only: c(1))
qed

text \<open>
  A regular expression that does not compile is only warned about, but its nil pointer stays
  in the tree: comparing a string field with it panics, while every other data is answered.
\<close>

theorem bad_regex_panics:
  assumes "data k = Some (VString s)" "rx re [] = None"
  shows "fst (newRegex rx re l) = None \<and> errs (snd (newRegex rx re l)) = errs l \<and>
     Eval rx data (BinaryExpr EQ (Identifier k) (NRegex (fst (newRegex rx re l))) True) = None"
  using assms
  by (simp add: newRegex_def doNewRegex_def compiles_def addParseWarn_def doEval_def is_cmp_def singleEval_def rhs_value_def
      literal_def ident_eval_def is_match_def binEval_def binEval_check_def eq_eval_def)

theorem bad_regex_panics_witness:
  "Eval ex_rx ex_data (BinaryExpr EQ (Identifier ''host'') (NRegex (fst (newRegex ex_rx ''['' \<lparr>errs = 0, warns = 0\<rparr>))) True) = None"
proof -
  have "ex_data ''host'' = Some (VString ''web'')" "ex_rx ''['' [] = None"
    by (simp_all add: ex_data_def ex_rx_def)
  from bad_regex_panics[of ex_data "''host''" "''web''" ex_rx "''[''", OF this] show ?thesis by blast
qed

text \<open>
  A condition written in parentheses, which the grammar accepts, never holds when it stands
  directly in a condition list, although the same expression holds without the parentheses.
\<close>

theorem paren_condition_never_holds:
  assumes "regexp_ok rx" "data_ok data" "wf_expr rx (BinaryExpr op l r b)" "holds rx data (BinaryExpr op l r b)"
  shows "where_Eval rx data [BinaryExpr op l r b] = Some True \<and>
         Eval rx data (ParenExpr (BinaryExpr op l r b)) = Some True \<and>
         where_Eval rx data [ParenExpr (BinaryExpr op l r b)] = Some False"
proof -
  have "Eval rx data (BinaryExpr op l r b) = Some True" using Eval_holds[OF assms(1-3)] assms(4) by simp
  then show ?thesis by (simp del: Eval.simps(2))
qed

theorem paren_condition_never_holds_witness:
  "where_Eval ex_rx ex_data [ParenExpr (BinaryExpr EQ (Identifier ''cpu'') (NumberLiteral True (FFin 0) 90) True)] = Some False"
proof -
  have "wf_expr ex_rx (BinaryExpr EQ (Identifier ''cpu'') (NumberLiteral True (FFin 0) 90) True)"
    "holds ex_rx ex_data (BinaryExpr EQ (Identifier ''cpu'') (NumberLiteral True (FFin 0) 90) True)"
    by code_simp+
  from paren_condition_never_holds[OF ex_rx_ok ex_data_ok this] show ?thesis by blast
qed

end
