(* ===== verification/Go_Utf8.thy ===== *)
theory Go_Utf8
  imports Go_Base
begin

section \<open>Runes: \<open>utf8.DecodeRuneInString\<close>\<close>

text \<open>
  A rune is an integer code point.  \<open>DecodeRune s\<close> is the first rune of \<open>s\<close> and its width: the
  shortest-form encodings of the Unicode code points without the surrogates, and \<open>(RuneError, 1)\<close> for
  every other byte sequence, \<open>(RuneError, 0)\<close> for the empty string.
\<close>

type_synonym rune = int

definition RuneError :: rune where
  "RuneError = 65533"

definition byte :: "char \<Rightarrow> int" where
  "byte c = of_char c"

definition in_bytes :: "int \<Rightarrow> int \<Rightarrow> int \<Rightarrow> bool" where
  "in_bytes lo hi b \<longleftrightarrow> lo \<le> b \<and> b \<le> hi"

text \<open>The bounds of the second byte depend on the first (the tables \<open>first\<close> and \<open>acceptRanges\<close>).\<close>

definition second_ok :: "int \<Rightarrow> int \<Rightarrow> bool" where
  "second_ok b0 b1 \<longleftrightarrow>
     (if b0 = 224 then in_bytes 160 191 b1
      else if b0 = 237 then in_bytes 128 159 b1
      else if b0 = 240 then in_bytes 144 191 b1
      else if b0 = 244 then in_bytes 128 143 b1
      else in_bytes 128 191 b1)"

fun DecodeRune :: "string \<Rightarrow> rune \<times> nat" where
  "DecodeRune [] = (RuneError, 0)"
| "DecodeRune (c0 # s) =
     (let b0 = byte c0 in
      if b0 < 128 then (b0, 1)
      else if in_bytes 194 223 b0 then
        (case s of
           c1 # _ \<Rightarrow>
             if second_ok b0 (byte c1) then ((b0 - 192) * 64 + (byte c1 - 128), 2) else (RuneError, 1)
         | _ \<Rightarrow> (RuneError, 1))
      else if in_bytes 224 239 b0 then
        (case s of
           c1 # c2 # _ \<Rightarrow>
             if second_ok b0 (byte c1) \<and> in_bytes 128 191 (byte c2)
             then ((b0 - 224) * 4096 + (byte c1 - 128) * 64 + (byte c2 - 128), 3) else (RuneError, 1)
         | _ \<Rightarrow> (RuneError, 1))
      else if in_bytes 240 244 b0 then
        (case s of
           c1 # c2 # c3 # _ \<Rightarrow>
             if second_ok b0 (byte c1) \<and> in_bytes 128 191 (byte c2) \<and> in_bytes 128 191 (byte c3)
             then ((b0 - 240) * 262144 + (byte c1 - 128) * 4096 + (byte c2 - 128) * 64 + (byte c3 - 128), 4)
             else (RuneError, 1)
         | _ \<Rightarrow> (RuneError, 1))
      else (RuneError, 1))"

lemma byte_bounds [simp]: "0 \<le> byte c" "byte c < 256"
  by (simp_all add: byte_def of_char_def take_bit_int_less_eq_self_iff)

lemma DecodeRune_width:
  assumes "s \<noteq> []"
  shows "0 < snd (DecodeRune s) \<and> snd (DecodeRune s) \<le> length s"
  using assms
  by (cases s) (auto simp: Let_def split: list.split)

lemma DecodeRune_nonneg: "0 \<le> fst (DecodeRune s)"
  by (cases s) (auto simp: Let_def RuneError_def in_bytes_def second_ok_def split: list.split if_splits)

text \<open>A rune below 128 is the byte itself; every byte of a longer encoding is at least 128.\<close>

lemma DecodeRune_ascii:
  assumes "s \<noteq> []" "fst (DecodeRune s) < 128"
  shows "snd (DecodeRune s) = 1 \<and> fst (DecodeRune s) = byte (hd s)"
  using assms
  by (cases s) (auto simp: Let_def RuneError_def in_bytes_def second_ok_def split: list.splits if_splits)

lemma DecodeRune_byte [simp]: "byte c < 128 \<Longrightarrow> DecodeRune (c # s) = (byte c, 1)"
  by simp

lemma byte_inj: "byte c = byte d \<longleftrightarrow> c = d"
  by (simp add: byte_def)

end
