(* ===== verification/Filter_Lex.thy ===== *)
theory Filter_Lex
  imports Filter_Ast Go_Utf8
begin

section \<open>Filter: the lexer (filter/lex.go)\<close>

text \<open>
  The scanner of the condition language.  Its state functions are the constructors of \<open>stateFn\<close>; \<open>None\<close> is
  the \<open>nil\<close> state.  The item the parser passes by pointer is the field \<open>lx_item\<close>.  An error item
  holds the format of its message: the characters and positions it quotes are left out.  A loop that reads runes
  while they satisfy a predicate and then backs up one rune is \<open>next_while\<close>.
\<close>

datatype stateFn = LexStatements | LexKeywordOrIdentifier | LexSpace | LexNumberOrDuration
  | LexRawString | LexLineComment | LexEscape | LexString

record Item =
  Typ :: ItemType
  IPos :: nat
  IVal :: string

record Lexer =
  lx_input :: string
  lx_state :: "stateFn option"
  lx_pos :: nat
  lx_start :: nat
  lx_width :: nat
  lx_lastPos :: nat
  lx_item :: Item
  lx_scanned :: bool
  lx_parenDepth :: int
  lx_braceDepth :: int
  lx_bracketDepth :: int
  lx_stringOpen :: rune
  lx_backquoteOpen :: rune

definition zero_item :: Item where
  "zero_item = \<lparr>Typ = 0, IPos = 0, IVal = []\<rparr>"

definition Lex :: "string \<Rightarrow> Lexer" where
  "Lex input =
     \<lparr>lx_input = input, lx_state = Some LexStatements, lx_pos = 0, lx_start = 0, lx_width = 0, lx_lastPos = 0,
      lx_item = zero_item, lx_scanned = False, lx_parenDepth = 0, lx_braceDepth = 0, lx_bracketDepth = 0,
      lx_stringOpen = 0, lx_backquoteOpen = 0\<rparr>"

definition eof :: rune where
  "eof = - 1"

text \<open>\<open>ch c\<close> is the rune literal of the ASCII character \<open>c\<close>.\<close>

abbreviation ch :: "char \<Rightarrow> rune" where
  "ch c \<equiv> byte c"

definition isAlpha :: "rune \<Rightarrow> bool" where
  "isAlpha r \<longleftrightarrow> r = 95 \<or> (97 \<le> r \<and> r \<le> 122) \<or> (65 \<le> r \<and> r \<le> 90)"

definition isDigit :: "rune \<Rightarrow> bool" where
  "isDigit r \<longleftrightarrow> 48 \<le> r \<and> r \<le> 57"

definition isAlphaNumeric :: "rune \<Rightarrow> bool" where
  "isAlphaNumeric r \<longleftrightarrow> isAlpha r \<or> isDigit r"

definition isSpace :: "rune \<Rightarrow> bool" where
  "isSpace r \<longleftrightarrow> r = 32 \<or> r = 9 \<or> r = 10 \<or> r = 13"

definition isEOL :: "rune \<Rightarrow> bool" where
  "isEOL r \<longleftrightarrow> r = 13 \<or> r = 10"

definition digitVal :: "rune \<Rightarrow> int" where
  "digitVal r =
     (if 48 \<le> r \<and> r \<le> 57 then r - 48
      else if 97 \<le> r \<and> r \<le> 102 then r - 97 + 10
      else if 65 \<le> r \<and> r \<le> 70 then r - 65 + 10
      else 16)"

subsection \<open>Reading runes, emitting items\<close>

definition next_rune :: "Lexer \<Rightarrow> rune \<times> Lexer" where
  "next_rune l =
     (if lx_pos l \<ge> length (lx_input l) then (eof, l\<lparr>lx_width := 0\<rparr>)
      else case DecodeRune (drop (lx_pos l) (lx_input l)) of
        (r, w) \<Rightarrow> (r, l\<lparr>lx_width := w, lx_pos := lx_pos l + w\<rparr>))"

definition backup :: "Lexer \<Rightarrow> Lexer" where
  "backup l = l\<lparr>lx_pos := lx_pos l - lx_width l\<rparr>"

definition peek :: "Lexer \<Rightarrow> rune \<times> Lexer" where
  "peek l = (case next_rune l of (r, l1) \<Rightarrow> (r, backup l1))"

definition cur :: "Lexer \<Rightarrow> string" where
  "cur l = take (lx_pos l - lx_start l) (drop (lx_start l) (lx_input l))"

definition emit :: "ItemType \<Rightarrow> Lexer \<Rightarrow> Lexer" where
  "emit t l = l\<lparr>lx_item := \<lparr>Typ = t, IPos = lx_start l, IVal = cur l\<rparr>, lx_start := lx_pos l, lx_scanned := True\<rparr>"

definition errorf :: "string \<Rightarrow> Lexer \<Rightarrow> Lexer" where
  "errorf fmt l = l\<lparr>lx_item := \<lparr>Typ = ERROR, IPos = lx_start l, IVal = fmt\<rparr>, lx_scanned := True\<rparr>"

definition ignore :: "Lexer \<Rightarrow> Lexer" where
  "ignore l = l\<lparr>lx_start := lx_pos l\<rparr>"

text \<open>\<open>strings.ContainsRune\<close> on the ASCII strings the lexer passes.\<close>

definition ContainsRune :: "string \<Rightarrow> rune \<Rightarrow> bool" where
  "ContainsRune s r \<longleftrightarrow> r \<in> byte ` set s"

definition accept :: "string \<Rightarrow> Lexer \<Rightarrow> bool \<times> Lexer" where
  "accept valid l =
     (case next_rune l of (r, l1) \<Rightarrow> if ContainsRune valid r then (True, l1) else (False, backup l1))"

lemma next_rune_pos:
  assumes "fst (next_rune l) \<noteq> eof"
  shows "lx_pos l < length (lx_input l)" "lx_pos l < lx_pos (snd (next_rune l))"
    "lx_pos (snd (next_rune l)) \<le> length (lx_input l)" "lx_input (snd (next_rune l)) = lx_input l"
proof -
  show lt: "lx_pos l < length (lx_input l)" using assms by (auto simp: next_rune_def split: if_splits)
  show "lx_pos l < lx_pos (snd (next_rune l))" "lx_pos (snd (next_rune l)) \<le> length (lx_input l)"
    "lx_input (snd (next_rune l)) = lx_input l"
    using lt DecodeRune_width[of "drop (lx_pos l) (lx_input l)"]
    by (auto simp: next_rune_def split: prod.split)
qed

lemma next_rune_less:
  assumes "(r, l1) = next_rune l" "r \<noteq> eof"
  shows "(l1, l) \<in> measure (\<lambda>l. length (lx_input l) - lx_pos l)"
  using next_rune_pos[of l] assms
  by (metis (no_types, lifting) diff_less_mono2 fst_conv in_measure order_less_le_trans snd_conv)

function next_while :: "(rune \<Rightarrow> bool) \<Rightarrow> Lexer \<Rightarrow> Lexer" where
  "next_while P l =
     (case next_rune l of (r, l1) \<Rightarrow> if r \<noteq> eof \<and> P r then next_while P l1 else backup l1)"
  by pat_completeness auto
termination
proof (relation "measure (\<lambda>(P, l). length (lx_input l) - lx_pos l)")
  fix P l r and l1 :: Lexer
  assume "(r, l1) = next_rune l" "r \<noteq> eof \<and> P r"
  then show "((P, l1), P, l) \<in> measure (\<lambda>(P, l). length (lx_input l) - lx_pos l)"
    using next_rune_less[of r l1 l] by simp
qed simp

definition acceptRun :: "string \<Rightarrow> Lexer \<Rightarrow> Lexer" where
  "acceptRun valid l = next_while (ContainsRune valid) l"

definition Digits :: string where
  "Digits = ''0123456789''"

definition HexDigits :: string where
  "HexDigits = ''0123456789abcdefABCDEF''"

text \<open>\<open>scanNumber\<close>, behind the digits of the integer part and from its start.\<close>

definition scanFraction :: "string \<Rightarrow> Lexer \<Rightarrow> bool \<times> Lexer" where
  "scanFraction digs l3 =
     (let (dot, l4) = accept ''.'' l3;
          l5 = (if dot then acceptRun digs l4 else l4);
          (e, l6) = accept ''eE'' l5;
          l7 = (if e then acceptRun Digits (snd (accept ''+-'' l6)) else l6);
          (r, l8) = peek l7
      in (\<not> isAlphaNumeric r, l8))"

definition scanNumber :: "Lexer \<Rightarrow> bool \<times> Lexer" where
  "scanNumber l =
     (let (zero, l1) = accept ''0'' l;
          (hex, l2) = (if zero then accept ''xX'' l1 else (False, l1));
          digs = (if hex then HexDigits else Digits)
      in scanFraction digs (acceptRun digs l2))"

text \<open>
  The outer loop of \<open>acceptRemainDuration\<close>: \<open>None\<close> when a run of digits is not followed by a unit.
  The inner loop backs up at its last rune, as \<open>acceptRun\<close> does.
\<close>

lemma accept_simps:
  "fst (accept valid l) = ContainsRune valid (fst (next_rune l))"
  "snd (accept valid l) = (if ContainsRune valid (fst (next_rune l)) then snd (next_rune l) else backup (snd (next_rune l)))"
  by (simp_all add: accept_def split: prod.split)

lemma ContainsRune_eof [simp]: "\<not> ContainsRune s eof"
  by (auto simp: ContainsRune_def eof_def) (metis byte_bounds(1) neg_0_le_iff_le not_one_le_zero)

lemma next_rune_input [simp]: "lx_input (snd (next_rune l)) = lx_input l"
  by (auto simp: next_rune_def split: prod.split)

lemma next_backup [simp]:
  "lx_pos (backup (snd (next_rune l))) = lx_pos l"
  "lx_input (backup l) = lx_input l"
  by (auto simp: next_rune_def backup_def split: prod.split)

lemma accept_pos:
  "lx_input (snd (accept valid l)) = lx_input l"
  "lx_pos l \<le> lx_pos (snd (accept valid l))"
  "fst (accept valid l) \<Longrightarrow> lx_pos l < lx_pos (snd (accept valid l)) \<and> lx_pos l < length (lx_input l)"
proof -
  have "fst (next_rune l) \<noteq> eof" if "ContainsRune valid (fst (next_rune l))" using that by (metis ContainsRune_eof)
  then show "lx_input (snd (accept valid l)) = lx_input l" "lx_pos l \<le> lx_pos (snd (accept valid l))"
    "fst (accept valid l) \<Longrightarrow> lx_pos l < lx_pos (snd (accept valid l)) \<and> lx_pos l < length (lx_input l)"
    using next_rune_pos[of l] by (auto simp: accept_simps)
qed

lemma next_while_pos:
  "lx_input (next_while P l) = lx_input l \<and> lx_pos l \<le> lx_pos (next_while P l)"
proof (induction P l rule: next_while.induct)
  case (1 P l)
  obtain r l1 where n: "next_rune l = (r, l1)" by fastforce
  show ?case
  proof (cases "r \<noteq> eof \<and> P r")
    case True
    with "1.IH"[OF n[symmetric] _ ] next_rune_pos[of l] n show ?thesis
      by (subst (1 2) next_while.simps) (auto simp del: next_while.simps)
  next
    case False
    then show ?thesis using n next_backup[of l] next_rune_input[of l] by (subst (1 2) next_while.simps) (auto simp del: next_while.simps)
  qed
qed

declare next_while.simps [simp del]

lemma duration_step:
  assumes "fst (accept Digits l)" "l1 = acceptRun Digits (snd (accept Digits l))"
  shows "length (lx_input (snd (accept ''s'' (snd (accept u l1))))) - lx_pos (snd (accept ''s'' (snd (accept u l1))))
     < length (lx_input l) - lx_pos l"
proof -
  have "lx_pos l < length (lx_input l)" "lx_pos l < lx_pos (snd (accept ''s'' (snd (accept u l1))))"
    using accept_pos(2)[of "snd (accept u l1)" "''s''"] accept_pos(2)[of l1 u] accept_pos(3)[of Digits l] assms
      next_while_pos[of "ContainsRune Digits" "snd (accept Digits l)"]
    by (auto simp: acceptRun_def)
  then show ?thesis using assms by (auto simp: accept_pos(1) acceptRun_def next_while_pos)
qed

function duration_loop :: "Lexer \<Rightarrow> bool \<times> Lexer" where
  "duration_loop l =
     (let a = accept Digits l in
      if \<not> fst a then (True, snd a)
      else let b = accept ''nusmhdw'' (acceptRun Digits (snd a)) in
        if \<not> fst b then (False, snd b) else duration_loop (snd (accept ''s'' (snd b))))"
  by pat_completeness auto
termination
  by (relation "measure (\<lambda>l. length (lx_input l) - lx_pos l)") (auto simp: duration_step)

definition acceptRemainDuration :: "Lexer \<Rightarrow> bool \<times> Lexer" where
  "acceptRemainDuration l =
     (case accept ''nusmhdwy'' l of
        (False, l1) \<Rightarrow> (False, l1)
      | (True, l1) \<Rightarrow>
          (case duration_loop (snd (accept ''s'' l1)) of
             (False, l2) \<Rightarrow> (False, l2)
           | (True, l2) \<Rightarrow> (case next_rune l2 of (r, l3) \<Rightarrow> (\<not> isAlphaNumeric r, l3))))"

subsection \<open>The state functions\<close>

type_synonym lex_result = "stateFn option \<times> Lexer"

definition lexKeywordOrIdentifier :: "Lexer \<Rightarrow> lex_result" where
  "lexKeywordOrIdentifier l =
     (let l1 = next_while isAlphaNumeric l in
      case map_of keyword_table (ToLower (cur l1)) of
        Some kw \<Rightarrow> (Some LexStatements, emit kw l1)
      | None \<Rightarrow> (Some LexStatements, emit ID l1))"

definition lexSpace :: "Lexer \<Rightarrow> lex_result" where
  "lexSpace l = (Some LexStatements, ignore (next_while isSpace l))"

definition lexNumberOrDuration :: "Lexer \<Rightarrow> lex_result" where
  "lexNumberOrDuration l =
     (case scanNumber l of
        (True, l1) \<Rightarrow> (Some LexStatements, emit NUMBER l1)
      | (False, l1) \<Rightarrow>
          (case acceptRemainDuration l1 of
             (True, l2) \<Rightarrow> (Some LexStatements, emit DURATION (backup l2))
           | (False, l2) \<Rightarrow> (None, errorf ''bad duration: %q'' l2)))"

function lexRawString :: "Lexer \<Rightarrow> lex_result" where
  "lexRawString l =
     (case next_rune l of (r, l1) \<Rightarrow>
        if r = RuneError then (Some LexRawString, errorf ''invalid UTF-8 rune'' l1)
        else if r = eof then (Some LexRawString, errorf ''unterminated raw string'' l1)
        else if r = lx_backquoteOpen l1 then (Some LexStatements, emit QUOTED_STRING l1)
        else lexRawString l1)"
  by pat_completeness auto
termination
proof (relation "measure (\<lambda>l. length (lx_input l) - lx_pos l)")
  fix l r and l1 :: Lexer
  assume "(r, l1) = next_rune l" "r \<noteq> eof"
  then show "(l1, l) \<in> measure (\<lambda>l. length (lx_input l) - lx_pos l)" by (rule next_rune_less)
qed simp

definition lexLineComment :: "Lexer \<Rightarrow> lex_result" where
  "lexLineComment l =
     (Some LexStatements, emit COMMENT (next_while (\<lambda>r. \<not> isEOL r) (l\<lparr>lx_pos := lx_pos l + 1\<rparr>)))"

text \<open>The digits of a numeric escape: \<open>n\<close> are still expected and \<open>c\<close> is the rune at hand.\<close>

primrec escape_digits :: "nat \<Rightarrow> int \<Rightarrow> int \<Rightarrow> rune \<Rightarrow> int \<Rightarrow> Lexer \<Rightarrow> Lexer" where
  "escape_digits 0 base mx c x l =
     (if x > mx \<or> (55296 \<le> x \<and> x < 57344)
      then errorf ''escape sequence is an invalid Unicode code point'' l else l)"
| "escape_digits (Suc n) base mx c x l =
     (if digitVal c \<ge> base
      then errorf ''illegal character %#U in escape sequence''
             (if c = eof then errorf ''escape sequence not terminated'' l else l)
      else case next_rune l of
        (c1, l1) \<Rightarrow> escape_digits n base mx c1 (to_u32 (x * base + digitVal c)) l1)"

definition MaxRune :: int where
  "MaxRune = 1114111"

definition lexEscape :: "Lexer \<Rightarrow> lex_result" where
  "lexEscape l =
     (case next_rune l of (c, l1) \<Rightarrow>
        if c \<in> {ch CHR ''a'', ch CHR ''b'', ch CHR ''f'', ch CHR ''n'', ch CHR ''r'', ch CHR ''t'', ch CHR ''v'', 92,
              lx_stringOpen l1, lx_backquoteOpen l1}
        then (Some LexString, l1)
        else if 48 \<le> c \<and> c \<le> 55 then (Some LexString, escape_digits 3 8 255 c 0 l1)
        else if c = ch CHR ''x'' \<or> c = ch CHR ''X'' then
          (case next_rune l1 of (d, l2) \<Rightarrow> (Some LexString, escape_digits 2 16 255 d 0 l2))
        else if c = ch CHR ''u'' then
          (case next_rune l1 of (d, l2) \<Rightarrow> (Some LexString, escape_digits 4 16 MaxRune d 0 l2))
        else if c = ch CHR ''U'' then
          (case next_rune l1 of (d, l2) \<Rightarrow> (Some LexString, escape_digits 8 16 MaxRune d 0 l2))
        else if c = eof then (Some LexString, errorf ''escape squence not terminated'' l1)
        else (Some LexString, errorf ''unknown escape sequence %#U'' l1))"

function lexString :: "Lexer \<Rightarrow> lex_result" where
  "lexString l =
     (case next_rune l of (r, l1) \<Rightarrow>
        if r = 92 then (Some LexEscape, l1)
        else if r = RuneError then lexString (errorf ''invalid UTF-8 rune'' l1)
        else if r = eof \<or> r = 10 then (None, errorf ''unterminated quoted string'' l1)
        else if r = lx_stringOpen l1 then (Some LexStatements, emit STRING l1)
        else lexString l1)"
  by pat_completeness auto
termination
proof (relation "measure (\<lambda>l. length (lx_input l) - lx_pos l)")
  fix l r and l1 :: Lexer
  assume n: "(r, l1) = next_rune l"
  show "(errorf ''invalid UTF-8 rune'' l1, l) \<in> measure (\<lambda>l. length (lx_input l) - lx_pos l)" if "r = RuneError"
    using next_rune_less[OF n] that by (simp add: errorf_def RuneError_def eof_def)
  show "(l1, l) \<in> measure (\<lambda>l. length (lx_input l) - lx_pos l)" if "\<not> (r = eof \<or> r = 10)"
    using next_rune_less[OF n] that by simp
qed simp

declare lexString.simps [simp del] lexRawString.simps [simp del] duration_loop.simps [simp del]

text \<open>A token of one rune, and a token of two when the next rune is \<open>d\<close>.\<close>

definition one :: "ItemType \<Rightarrow> Lexer \<Rightarrow> lex_result" where
  "one t l = (Some LexStatements, emit t l)"

definition two :: "rune \<Rightarrow> ItemType \<Rightarrow> (Lexer \<Rightarrow> lex_result) \<Rightarrow> Lexer \<Rightarrow> lex_result" where
  "two d t other l =
     (case peek l of (c, l1) \<Rightarrow> if c = d then one t (snd (next_rune l1)) else other l1)"

definition unexpected_after :: "Lexer \<Rightarrow> lex_result" where
  "unexpected_after l = (None, errorf ''unexpected character %q after !'' l)"

definition lexStatements :: "Lexer \<Rightarrow> lex_result" where
  "lexStatements l =
     (if take 1 (drop (lx_pos l) (lx_input l)) = ''#'' then (Some LexLineComment, l)
      else case next_rune l of (r, l1) \<Rightarrow>
        if r = ch CHR ''.'' then one DOT l1
        else if r = ch CHR '','' then one COMMA l1
        else if isSpace r then (Some LexSpace, l1)
        else if r = ch CHR ''*'' then one MUL l1
        else if r = ch CHR ''/'' then one DIV l1
        else if r = ch CHR ''%'' then one MOD l1
        else if r = ch CHR ''+'' then one ADD l1
        else if r = ch CHR ''-'' then one SUB l1
        else if r = ch CHR ''^'' then one POW l1
        else if r = ch CHR ''='' then one EQ l1
        else if r = ch CHR '';'' then one SEMICOLON l1
        else if r = ch CHR ''|'' then two (ch CHR ''|'') OR unexpected_after l1
        else if r = ch CHR ''&'' then two (ch CHR ''&'') AND unexpected_after l1
        else if r = ch CHR '':'' then
          (case peek l1 of (c, l2) \<Rightarrow>
             if c = ch CHR '':'' \<and> lx_bracketDepth l2 = 0 then one NAMESPACE (snd (next_rune l2)) else one COLON l2)
        else if r = ch CHR ''!'' then
          (case next_rune l1 of (c, l2) \<Rightarrow> if c = ch CHR ''='' then one NEQ l2 else unexpected_after l2)
        else if r = ch CHR ''<'' then two (ch CHR ''='') LTE (one LT) l1
        else if r = ch CHR ''>'' then two (ch CHR ''='') GTE (one GT) l1
        else if isDigit r then (Some LexNumberOrDuration, backup l1)
        else if r = 34 \<or> r = 39 then (Some LexString, l1\<lparr>lx_stringOpen := r\<rparr>)
        else if r = 96 then (Some LexRawString, l1\<lparr>lx_backquoteOpen := r\<rparr>)
        else if isAlpha r then (Some LexKeywordOrIdentifier, backup l1)
        else if r = ch CHR ''('' then
          (Some LexStatements, (emit LEFT_PAREN l1)\<lparr>lx_parenDepth := lx_parenDepth l1 + 1\<rparr>)
        else if r = ch CHR '')'' then
          (let l2 = (emit RIGHT_PAREN l1)\<lparr>lx_parenDepth := lx_parenDepth l1 - 1\<rparr> in
           if lx_parenDepth l2 < 0 then (None, errorf ''unexpected right parenthesis %q'' l2) else (Some LexStatements, l2))
        else if r = ch CHR ''{'' then
          (Some LexStatements, (emit LEFT_BRACE l1)\<lparr>lx_braceDepth := lx_braceDepth l1 + 1\<rparr>)
        else if r = ch CHR ''}'' then one RIGHT_BRACE (l1\<lparr>lx_braceDepth := lx_braceDepth l1 - 1\<rparr>)
        else if r = ch CHR ''['' then one LEFT_BRACKET (l1\<lparr>lx_bracketDepth := lx_bracketDepth l1 + 1\<rparr>)
        else if r = ch CHR '']'' then one RIGHT_BRACKET (l1\<lparr>lx_bracketDepth := lx_bracketDepth l1 - 1\<rparr>)
        else if r = eof then
          (if lx_parenDepth l1 \<noteq> 0 then (None, errorf ''unclosed left parenthesis'' l1)
           else if lx_bracketDepth l1 \<noteq> 0 then (None, errorf ''unclosed left bracket'' l1)
           else if lx_braceDepth l1 \<noteq> 0 then (None, errorf ''unclosed left brace'' l1)
           else (None, emit EOF l1))
        else (None, errorf ''unexpected character: %q'' l1))"

text \<open>
  The branch for a number that starts with a dot is unreachable in the source (a dot is caught by the first
  case) and has no branch here.
\<close>

fun run_state :: "stateFn \<Rightarrow> Lexer \<Rightarrow> lex_result" where
  "run_state LexStatements l = lexStatements l"
| "run_state LexKeywordOrIdentifier l = lexKeywordOrIdentifier l"
| "run_state LexSpace l = lexSpace l"
| "run_state LexNumberOrDuration l = lexNumberOrDuration l"
| "run_state LexRawString l = lexRawString l"
| "run_state LexLineComment l = lexLineComment l"
| "run_state LexEscape l = lexEscape l"
| "run_state LexString l = lexString l"

end
