(* ===== verification/Filter_Lexing.thy ===== *)
theory Filter_Lexing
  imports Filter_Lex
begin

section \<open>Filter: running the lexer (\<open>NextItem\<close>)\<close>

text \<open>
  What one state function does to the lexer, that \<open>NextItem\<close> always ends, and that the items it delivers
  are the slices of the input, in order, with nothing but white space between them.
\<close>

subsection \<open>Moving forward\<close>

text \<open>\<open>adv l m\<close>: \<open>m\<close> is \<open>l\<close> with its position moved forward inside the input.\<close>

definition adv :: "Lexer \<Rightarrow> Lexer \<Rightarrow> bool" where
  "adv l m \<longleftrightarrow> (\<exists>p w. lx_pos l \<le> p \<and> (lx_pos l \<le> length (lx_input l) \<longrightarrow> p \<le> length (lx_input l)) \<and>
      m = l\<lparr>lx_pos := p, lx_width := w\<rparr>)"

named_theorems adv_rules \<open>operations that move the position forward\<close>

lemma advI: "m = l\<lparr>lx_pos := p, lx_width := w\<rparr> \<Longrightarrow> lx_pos l \<le> p \<Longrightarrow>
    (lx_pos l \<le> length (lx_input l) \<Longrightarrow> p \<le> length (lx_input l)) \<Longrightarrow> adv l m"
  by (auto simp: adv_def)

lemma adv_refl [simp]: "adv l l"
  by (rule advI[where p = "lx_pos l" and w = "lx_width l"]) simp_all

lemma adv_trans:
  assumes "adv l m" "adv m n"
  shows "adv l n"
proof -
  from assms obtain p w where "n = l\<lparr>lx_pos := p, lx_width := w\<rparr>" "lx_pos l \<le> p"
    "lx_pos l \<le> length (lx_input l) \<Longrightarrow> p \<le> length (lx_input l)"
    by (auto simp: adv_def)
  then show ?thesis by (rule advI)
qed

lemma adv_frame:
  assumes "adv l m"
  shows "lx_input m = lx_input l" "lx_state m = lx_state l" "lx_start m = lx_start l" "lx_item m = lx_item l"
    "lx_scanned m = lx_scanned l" "lx_parenDepth m = lx_parenDepth l" "lx_braceDepth m = lx_braceDepth l"
    "lx_bracketDepth m = lx_bracketDepth l" "lx_stringOpen m = lx_stringOpen l"
    "lx_backquoteOpen m = lx_backquoteOpen l" "lx_lastPos m = lx_lastPos l" "lx_pos l \<le> lx_pos m"
    "lx_pos l \<le> length (lx_input l) \<Longrightarrow> lx_pos m \<le> length (lx_input l)"
  using assms by (auto simp: adv_def)

lemma adv_next: "adv l (snd (next_rune l))"
proof (cases "lx_pos l < length (lx_input l)")
  case True
  obtain r w where d: "DecodeRune (drop (lx_pos l) (lx_input l)) = (r, w)" by fastforce
  with True DecodeRune_width[of "drop (lx_pos l) (lx_input l)"] show ?thesis
    by (intro advI[where p = "lx_pos l + w" and w = w]) (auto simp: next_rune_def)
next
  case False
  then show ?thesis by (intro advI[where p = "lx_pos l" and w = 0]) (simp_all add: next_rune_def)
qed

lemma adv_backup_next: "adv l (backup (snd (next_rune l)))"
  by (rule advI[where p = "lx_pos l" and w = "lx_width (snd (next_rune l))"])
    (simp_all add: next_rune_def backup_def split: prod.split)

lemma adv_peek: "adv l (snd (peek l))"
  using adv_backup_next[of l] by (simp add: peek_def split_def)

lemma peek_pos [simp]: "lx_pos (snd (peek l)) = lx_pos l"
  using next_backup(1)[of l] by (simp add: peek_def split_def del: next_backup)

lemma adv_accept: "adv l (snd (accept valid l))"
  by (simp add: accept_simps adv_next adv_backup_next)

lemma adv_next_while: "adv l (next_while P l)"
proof (induction P l rule: next_while.induct)
  case (1 P l)
  show ?case
  proof (cases "fst (next_rune l) \<noteq> eof \<and> P (fst (next_rune l))")
    case True
    with "1.IH"[of "fst (next_rune l)" "snd (next_rune l)"] adv_trans[OF adv_next] show ?thesis
      by (subst next_while.simps) (auto simp: split_def)
  next
    case False
    then show ?thesis using adv_backup_next[of l] by (subst next_while.simps) (auto simp: split_def)
  qed
qed

lemma adv_acceptRun: "adv l (acceptRun valid l)"
  by (simp add: acceptRun_def adv_next_while)

text \<open>The same as rules that follow a composition of calls from the outside in.\<close>

lemmas adv_calls = adv_trans[OF _ adv_next] adv_trans[OF _ adv_backup_next] adv_trans[OF _ adv_peek]
  adv_trans[OF _ adv_accept] adv_trans[OF _ adv_next_while] adv_trans[OF _ adv_acceptRun]

lemma adv_scanFraction: "adv l (snd (scanFraction digs l))"
  by (auto simp: scanFraction_def split_def Let_def intro!: adv_calls)

lemma adv_scanNumber: "adv l (snd (scanNumber l))"
  by (auto simp: scanNumber_def split_def Let_def intro!: adv_calls adv_trans[OF _ adv_scanFraction])

lemma adv_duration_loop: "adv l (snd (duration_loop l))"
proof (induction l rule: duration_loop.induct)
  case (1 l)
  show ?case
  proof (cases "fst (accept Digits l) \<and> fst (accept ''nusmhdw'' (acceptRun Digits (snd (accept Digits l))))")
    case True
    let ?m = "snd (accept ''s'' (snd (accept ''nusmhdw'' (acceptRun Digits (snd (accept Digits l))))))"
    have "adv l ?m" by (auto intro!: adv_calls)
    moreover have "adv ?m (snd (duration_loop ?m))" using "1.IH" True by simp
    ultimately show ?thesis using True by (subst duration_loop.simps) (auto simp: Let_def intro: adv_trans)
  next
    case False
    then show ?thesis by (subst duration_loop.simps) (auto simp: Let_def intro!: adv_calls)
  qed
qed

lemma adv_acceptRemainDuration:
  "adv l (snd (acceptRemainDuration l))"
  "fst (acceptRemainDuration l) \<Longrightarrow> adv l (backup (snd (acceptRemainDuration l)))"
  by (auto simp: acceptRemainDuration_def split_def split: bool.split
      intro!: adv_calls adv_trans[OF _ adv_duration_loop])

subsection \<open>One state function\<close>

lemma next_rune_progress:
  "fst (next_rune l) \<noteq> eof \<Longrightarrow> lx_pos l < lx_pos (snd (next_rune l)) \<and> lx_pos l < length (lx_input l)"
  using next_rune_pos[of l] by blast

fun rank :: "stateFn \<Rightarrow> nat" where
  "rank LexSpace = 2"
| "rank LexStatements = 1"
| "rank LexEscape = 1"
| "rank _ = 0"

text \<open>
  \<open>progress s l s' m\<close>: the state function \<open>s\<close> took \<open>l\<close> to \<open>m\<close> without scanning an item, so that there is a
  next state, and either runes were consumed or the next state ranks lower.
\<close>

definition progress :: "stateFn \<Rightarrow> Lexer \<Rightarrow> stateFn option \<Rightarrow> Lexer \<Rightarrow> bool" where
  "progress s l s' m \<longleftrightarrow> lx_scanned m \<or>
     (s' \<noteq> None \<and> lx_input m = lx_input l \<and> lx_pos l \<le> lx_pos m \<and>
      (lx_pos l < lx_pos m \<and> lx_pos l < length (lx_input l) \<or> rank (the s') < rank s))"

lemma scanned_simps [simp]:
  "lx_scanned (emit t l)" "lx_scanned (errorf f l)"
  "lx_input (emit t l) = lx_input l" "lx_input (errorf f l) = lx_input l"
  "lx_pos (emit t l) = lx_pos l" "lx_pos (errorf f l) = lx_pos l"
  "lx_start (emit t l) = lx_pos l" "lx_start (errorf f l) = lx_start l"
  "lx_item (errorf f l) = \<lparr>Typ = ERROR, IPos = lx_start l, IVal = f\<rparr>"
  "lx_item (emit t l) = \<lparr>Typ = t, IPos = lx_start l, IVal = cur l\<rparr>"
  by (simp_all add: emit_def errorf_def)

lemma one_two_simps:
  "one t l = (Some LexStatements, emit t l)"
  "two d t other l = (if fst (peek l) = d then (Some LexStatements, emit t (snd (next_rune (snd (peek l))))) else other (snd (peek l)))"
  "unexpected_after l = (None, errorf ''unexpected character %q after !'' l)"
  by (simp_all add: one_def two_def unexpected_after_def split_def)

text \<open>A property of the result of a chain of branches is proved branch by branch.\<close>

definition res_ok :: "(stateFn option \<Rightarrow> Lexer \<Rightarrow> bool) \<Rightarrow> lex_result \<Rightarrow> bool" where
  "res_ok Q res \<longleftrightarrow> Q (fst res) (snd res)"

lemma res_ok_if: "(c \<Longrightarrow> res_ok Q a) \<Longrightarrow> (\<not> c \<Longrightarrow> res_ok Q b) \<Longrightarrow> res_ok Q (if c then a else b)"
  by simp

lemma res_ok_pair: "Q s m \<Longrightarrow> res_ok Q (s, m)"
  by (simp add: res_ok_def)

lemma progress_scanned: "lx_scanned m \<Longrightarrow> progress s l s' m"
  by (simp add: progress_def)

lemma progress_trans:
  assumes "progress s m s' n" "lx_input m = lx_input l" "lx_pos l < lx_pos m \<and> lx_pos l < length (lx_input l)"
  shows "progress t l s' n"
  using assms by (auto simp: progress_def)

lemma rune_not_eof: "0 \<le> r \<Longrightarrow> r \<noteq> eof"
  by (simp add: eof_def)

lemma lexStatements_progress: "res_ok (progress LexStatements l) (lexStatements l)"
proof -
  have b: "lx_pos (backup (snd (next_rune l))) = lx_pos l" by simp
  have n: "0 \<le> fst (next_rune l) \<Longrightarrow> lx_pos l < lx_pos (snd (next_rune l)) \<and> lx_pos l < length (lx_input l)"
    using next_rune_progress[of l] by (simp add: rune_not_eof)
  show ?thesis
    unfolding lexStatements_def split_def one_two_simps Let_def
    by (intro res_ok_if res_ok_pair; (rule progress_scanned, simp; fail)?)
      (use b n in \<open>auto simp: progress_def isSpace_def\<close>)
qed

lemma lexSpace_progress: "progress LexSpace l (fst (lexSpace l)) (snd (lexSpace l))"
  using adv_frame(1,12)[OF adv_next_while[of l isSpace]] by (simp add: progress_def lexSpace_def ignore_def)

lemma escape_digits_pos:
  "lx_input (escape_digits n base mx c x l) = lx_input l \<and> lx_pos l \<le> lx_pos (escape_digits n base mx c x l)"
proof (induction n arbitrary: c x l)
  case (Suc n)
  show ?case using Suc.IH[of "fst (next_rune l)" _ "snd (next_rune l)"] adv_frame(1,12)[OF adv_next, of l]
    by (auto simp: split_def intro: order_trans)
qed simp

lemma lexEscape_progress: "progress LexEscape l (fst (lexEscape l)) (snd (lexEscape l))"
proof (cases "fst (next_rune l) = eof")
  case True
  have "digitVal eof = 16" by (simp add: digitVal_def eof_def)
  with True show ?thesis
    using adv_frame(1,12)[OF adv_next, of l]
    by (simp add: progress_def lexEscape_def split_def eof_def byte_def)
next
  case False
  let ?l1 = "snd (next_rune l)"
  let ?l2 = "snd (next_rune ?l1)"
  have "lx_input ?l1 = lx_input l" "lx_input ?l2 = lx_input l" "lx_pos ?l1 \<le> lx_pos ?l2"
    using adv_frame(1,12)[OF adv_next, of l] adv_frame(1,12)[OF adv_next, of ?l1] by simp_all
  with next_rune_progress[OF False] show ?thesis
    unfolding progress_def lexEscape_def split_def
    using escape_digits_pos by (simp split: if_split) (meson less_le_trans less_imp_le)
qed

lemma lexString_progress: "progress LexString l (fst (lexString l)) (snd (lexString l))"
proof (induction l rule: lexString.induct)
  case (1 l)
  let ?r = "fst (next_rune l)" and ?l1 = "snd (next_rune l)"
  have n: "?r \<noteq> eof \<Longrightarrow> lx_pos l < lx_pos ?l1 \<and> lx_pos l < length (lx_input l)"
    by (rule next_rune_progress)
  have i: "lx_input ?l1 = lx_input l" by simp
  have r: "92 \<noteq> eof" "RuneError \<noteq> eof" "92 \<noteq> RuneError" by (simp_all add: eof_def RuneError_def)
  consider "?r = 92" | "?r = RuneError" | "?r \<noteq> 92" "?r \<noteq> RuneError" "?r = eof \<or> ?r = 10"
    | "?r \<noteq> 92" "?r \<noteq> RuneError" "?r \<noteq> eof \<and> ?r \<noteq> 10" by blast
  then show ?case
  proof cases
    case 2
    then have "lexString l = lexString (errorf ''invalid UTF-8 rune'' ?l1)"
      using r by (subst lexString.simps) (simp add: split_def)
    moreover have "progress LexString (errorf ''invalid UTF-8 rune'' ?l1) (fst (lexString (errorf ''invalid UTF-8 rune'' ?l1)))
      (snd (lexString (errorf ''invalid UTF-8 rune'' ?l1)))" using "1.IH"(1)[OF prod.collapse] 2 r by simp
    ultimately show ?thesis using 2 n i r by (auto intro: progress_trans)
  next
    case 4
    show ?thesis
    proof (cases "?r = lx_stringOpen ?l1")
      case False
      with 4 have "lexString l = lexString ?l1" by (subst lexString.simps) (simp add: split_def)
      with 4 False "1.IH"(2)[of ?r ?l1] n i show ?thesis by (auto intro: progress_trans)
    qed (use 4 in \<open>subst (1 2) lexString.simps, simp add: split_def progress_def\<close>)
  qed (use n i r in \<open>subst (1 2) lexString.simps, simp add: split_def progress_def\<close>)+
qed

lemma lexRawString_progress: "progress LexRawString l (fst (lexRawString l)) (snd (lexRawString l))"
proof (induction l rule: lexRawString.induct)
  case (1 l)
  let ?r = "fst (next_rune l)" and ?l1 = "snd (next_rune l)"
  show ?case
  proof (cases "?r = RuneError \<or> ?r = eof \<or> ?r = lx_backquoteOpen ?l1")
    case True
    then show ?thesis by (subst (1 2) lexRawString.simps) (auto simp: split_def progress_def)
  next
    case False
    then have "lexRawString l = lexRawString ?l1" by (subst lexRawString.simps) (simp add: split_def)
    with False "1.IH"[of ?r ?l1] next_rune_progress[of l] show ?thesis
      by (auto intro: progress_trans)
  qed
qed

lemma emitting_progress:
  "progress LexKeywordOrIdentifier l (fst (lexKeywordOrIdentifier l)) (snd (lexKeywordOrIdentifier l))"
  "progress LexNumberOrDuration l (fst (lexNumberOrDuration l)) (snd (lexNumberOrDuration l))"
  "progress LexLineComment l (fst (lexLineComment l)) (snd (lexLineComment l))"
  by (auto simp: lexKeywordOrIdentifier_def lexNumberOrDuration_def lexLineComment_def split_def Let_def
      intro!: progress_scanned split: option.split bool.split)

lemma run_state_progress: "progress s l (fst (run_state s l)) (snd (run_state s l))"
  using lexStatements_progress[of l] lexSpace_progress[of l] lexEscape_progress[of l] lexString_progress[of l]
    lexRawString_progress[of l] emitting_progress[of l]
  by (cases s) (simp_all add: res_ok_def)

subsection \<open>\<open>NextItem\<close>\<close>

text \<open>\<open>None\<close> is the panic of a call of the \<open>nil\<close> state, which never happens.\<close>

function lex_loop :: "Lexer \<Rightarrow> Lexer option" where
  "lex_loop l =
     (if lx_scanned l then Some l
      else case lx_state l of
        None \<Rightarrow> None
      | Some s \<Rightarrow> (case run_state s l of (s', m) \<Rightarrow> lex_loop (m\<lparr>lx_state := s'\<rparr>)))"
  by pat_completeness auto
termination
proof (relation "measures [\<lambda>l. if lx_scanned l then 0 else 1, \<lambda>l. length (lx_input l) - lx_pos l,
    \<lambda>l. case lx_state l of None \<Rightarrow> 0 | Some s \<Rightarrow> rank s]")
  fix l s s' m
  assume "\<not> lx_scanned l" "lx_state l = Some s" "(s', m) = run_state s l"
  then show "(m\<lparr>lx_state := s'\<rparr>, l) \<in> measures [\<lambda>l. if lx_scanned l then 0 else 1,
      \<lambda>l. length (lx_input l) - lx_pos l, \<lambda>l. case lx_state l of None \<Rightarrow> 0 | Some s \<Rightarrow> rank s]"
    using run_state_progress[of s l] by (auto simp: progress_def simp flip: \<open>(s', m) = run_state s l\<close>)
qed simp

declare lex_loop.simps [simp del]

definition NextItem :: "Lexer \<Rightarrow> Lexer option" where
  "NextItem l =
     (let l0 = l\<lparr>lx_scanned := False\<rparr> in
      map_option (\<lambda>m. m\<lparr>lx_lastPos := IPos (lx_item m)\<rparr>)
        (if lx_state l0 \<noteq> None then lex_loop l0 else Some (emit EOF l0)))"

end
