(* ===== verification/Filter_Tokens.thy ===== *)
theory Filter_Tokens
  imports Filter_Lexing
begin

section \<open>Filter: the items a run of the lexer delivers\<close>

text \<open>
  \<open>linv\<close> is what holds between two state functions of one \<open>NextItem\<close>, \<open>lout\<close> what holds when an item was
  scanned: its text is the slice of the input at its position, only white space was skipped before
  it, and the nesting depths count the brackets.
\<close>

definition slice :: "string \<Rightarrow> nat \<Rightarrow> nat \<Rightarrow> string" where
  "slice inp p q = take (q - p) (drop p inp)"

definition gap :: "string \<Rightarrow> nat \<Rightarrow> nat \<Rightarrow> bool" where
  "gap inp p q \<longleftrightarrow> p \<le> q \<and> q \<le> length inp \<and> list_all (\<lambda>c. isSpace (byte c)) (slice inp p q)"

lemma slice_append: "p \<le> q \<Longrightarrow> q \<le> r \<Longrightarrow> slice inp p r = slice inp p q @ slice inp q r"
  using take_add[of "q - p" "r - q" "drop p inp"] by (simp add: slice_def)

lemma gap_refl [simp]: "gap inp p p \<longleftrightarrow> p \<le> length inp"
  by (simp add: gap_def slice_def)

lemma gap_trans: "gap inp p q \<Longrightarrow> gap inp q r \<Longrightarrow> gap inp p r"
  using slice_append[of p q r inp] by (auto simp: gap_def)

lemma slice_step: "p < length inp \<Longrightarrow> slice inp p (Suc p) = [inp ! p]"
  by (simp add: slice_def take_Suc_conv_app_nth)

lemma cur_slice: "cur l = slice (lx_input l) (lx_start l) (lx_pos l)"
  by (simp add: cur_def slice_def)

type_synonym depths = "int \<times> int \<times> int"

definition depths :: "Lexer \<Rightarrow> depths" where
  "depths l = (lx_parenDepth l, lx_bracketDepth l, lx_braceDepth l)"

lemma depths_other [simp]:
  "depths (l\<lparr>lx_state := s\<rparr>) = depths l" "depths (l\<lparr>lx_lastPos := p\<rparr>) = depths l" "depths (l\<lparr>lx_scanned := b\<rparr>) = depths l"
  by (simp_all add: depths_def)

definition nest :: "ItemType \<Rightarrow> ItemType \<Rightarrow> ItemType \<Rightarrow> int" where
  "nest op cl t = (if t = op then 1 else if t = cl then - 1 else 0)"

fun nested :: "ItemType \<Rightarrow> depths \<Rightarrow> depths" where
  "nested t (a, b, c) = (a + nest LEFT_PAREN RIGHT_PAREN t, b + nest LEFT_BRACKET RIGHT_BRACKET t, c + nest LEFT_BRACE RIGHT_BRACE t)"

definition linv :: "Lexer \<Rightarrow> stateFn \<Rightarrow> Lexer \<Rightarrow> bool" where
  "linv l0 s l \<longleftrightarrow>
     lx_input l = lx_input l0 \<and> depths l = depths l0 \<and> \<not> lx_scanned l \<and>
     gap (lx_input l0) (lx_pos l0) (lx_start l) \<and> lx_pos l \<le> length (lx_input l0) \<and>
     (case s of
        LexStatements \<Rightarrow> lx_start l = lx_pos l
      | LexSpace \<Rightarrow> gap (lx_input l0) (lx_start l) (lx_pos l)
      | LexKeywordOrIdentifier \<Rightarrow> lx_start l = lx_pos l \<and> isAlpha (fst (next_rune l))
      | LexNumberOrDuration \<Rightarrow> lx_start l = lx_pos l \<and> isDigit (fst (next_rune l))
      | LexLineComment \<Rightarrow> lx_start l = lx_pos l \<and> lx_pos l < length (lx_input l)
      | _ \<Rightarrow> lx_start l < lx_pos l)"

definition lout :: "Lexer \<Rightarrow> stateFn option \<Rightarrow> Lexer \<Rightarrow> bool" where
  "lout l0 s m \<longleftrightarrow>
     lx_scanned m \<and> lx_input m = lx_input l0 \<and> Typ (lx_item m) \<noteq> 0 \<and>
     (Typ (lx_item m) \<noteq> ERROR \<longrightarrow>
        gap (lx_input l0) (lx_pos l0) (IPos (lx_item m)) \<and>
        IVal (lx_item m) = slice (lx_input l0) (IPos (lx_item m)) (lx_pos m) \<and>
        lx_start m = lx_pos m \<and> lx_pos m \<le> length (lx_input l0) \<and>
        depths m = nested (Typ (lx_item m)) (depths l0) \<and>
        (if Typ (lx_item m) = EOF
         then s = None \<and> IPos (lx_item m) = length (lx_input l0) \<and> lx_pos m = length (lx_input l0) \<and> depths m = (0, 0, 0)
         else s = Some LexStatements \<and> IPos (lx_item m) < lx_pos m))"

lemma lout_other [simp]:
  "lout l0 s (k\<lparr>lx_state := s'\<rparr>) = lout l0 s k" "lout l0 s (k\<lparr>lx_lastPos := p\<rparr>) = lout l0 s k"
  by (simp_all add: lout_def)

definition lnext :: "Lexer \<Rightarrow> stateFn option \<Rightarrow> Lexer \<Rightarrow> bool" where
  "lnext l0 s m \<longleftrightarrow> lout l0 s m \<or> (\<exists>t. s = Some t \<and> linv l0 t m)"

lemma lnext_error: "lx_scanned m \<Longrightarrow> lx_input m = lx_input l0 \<Longrightarrow> Typ (lx_item m) = ERROR \<Longrightarrow> lnext l0 s m"
  by (simp add: lnext_def lout_def)

lemma lnext_emit:
  assumes "linv l0 s l" "adv l m" "lx_start l < lx_pos m" "t \<notin> {0, ERROR, EOF}" "m' = emit t m"
    "depths m'' = nested t (depths l0)"
    "m'' = m'\<lparr>lx_parenDepth := a, lx_bracketDepth := b, lx_braceDepth := c\<rparr>"
  shows "lnext l0 (Some LexStatements) m''"
proof -
  have "lx_pos m \<le> length (lx_input l0)" "lx_input m = lx_input l0" "lx_start m = lx_start l"
    using assms(1) adv_frame[OF assms(2)] by (auto simp: linv_def)
  then show ?thesis using assms by (auto simp: lnext_def lout_def linv_def cur_slice)
qed

text \<open>Runes of ASCII predicates are single bytes.\<close>

lemma next_rune_cong: "lx_pos l = lx_pos m \<Longrightarrow> lx_input l = lx_input m \<Longrightarrow> fst (next_rune l) = fst (next_rune m)"
  by (simp add: next_rune_def split_def)

lemma next_rune_ascii:
  assumes "fst (next_rune l) < 128" "fst (next_rune l) \<noteq> eof"
  shows "lx_pos (snd (next_rune l)) = Suc (lx_pos l)" "byte (lx_input l ! lx_pos l) = fst (next_rune l)"
    "lx_pos l < length (lx_input l)"
proof -
  show lt: "lx_pos l < length (lx_input l)" by (rule next_rune_pos(1)[OF assms(2)])
  with assms(1) DecodeRune_ascii[of "drop (lx_pos l) (lx_input l)"]
  show "lx_pos (snd (next_rune l)) = Suc (lx_pos l)" "byte (lx_input l ! lx_pos l) = fst (next_rune l)"
    by (auto simp: next_rune_def split_def hd_drop_conv_nth)
qed

lemma next_rune_gap:
  assumes "isSpace (fst (next_rune l))"
  shows "gap (lx_input l) (lx_pos l) (lx_pos (snd (next_rune l)))"
proof -
  have "fst (next_rune l) < 128" "fst (next_rune l) \<noteq> eof" using assms by (auto simp: isSpace_def eof_def)
  from next_rune_ascii[OF this] assms show ?thesis by (simp add: gap_def slice_step)
qed

lemma next_while_gap:
  "lx_pos l \<le> length (lx_input l) \<Longrightarrow> gap (lx_input l) (lx_pos l) (lx_pos (next_while isSpace l))"
proof (induction isSpace l rule: next_while.induct)
  case (1 l)
  let ?r = "fst (next_rune l)" and ?l1 = "snd (next_rune l)"
  show ?case
  proof (cases "?r \<noteq> eof \<and> isSpace ?r")
    case True
    then have "next_while isSpace l = next_while isSpace ?l1" by (subst next_while.simps) (simp add: split_def)
    moreover have "gap (lx_input ?l1) (lx_pos ?l1) (lx_pos (next_while isSpace ?l1))"
      using "1.hyps"[OF prod.collapse True] next_rune_pos(3)[of l] True by simp
    ultimately show ?thesis using gap_trans[OF next_rune_gap] True by simp
  next
    case False
    then have "next_while isSpace l = backup ?l1" by (subst next_while.simps) (auto simp: split_def)
    then show ?thesis using "1.prems" by simp
  qed
qed

lemma next_while_less:
  assumes "P (fst (next_rune l))" "fst (next_rune l) \<noteq> eof"
  shows "lx_pos l < lx_pos (next_while P l)"
proof -
  have "next_while P l = next_while P (snd (next_rune l))" using assms by (subst next_while.simps) (simp add: split_def)
  then show ?thesis using next_rune_pos(2)[OF assms(2)] adv_frame(12)[OF adv_next_while] by (metis order_less_le_trans)
qed

lemma scanNumber_less:
  assumes "isDigit (fst (next_rune l))"
  shows "lx_pos l < lx_pos (snd (scanNumber l))"
proof -
  have d: "ContainsRune Digits r" if "isDigit r" for r
    using that by (simp add: ContainsRune_def Digits_def isDigit_def byte_def) presburger
  let ?a = "accept ''0'' l"
  define l2 where "l2 = snd (if fst ?a then accept ''xX'' (snd ?a) else (False, snd ?a))"
  define digs where "digs = (if fst (if fst ?a then accept ''xX'' (snd ?a) else (False, snd ?a)) then HexDigits else Digits)"
  define l3 where "l3 = acceptRun digs l2"
  have r: "adv l3 (snd (scanNumber l))"
    using adv_scanFraction[of l3 digs] by (simp add: scanNumber_def split_def Let_def l3_def l2_def digs_def)
  have "lx_pos l < lx_pos l3"
  proof (cases "fst ?a")
    case True
    then have "lx_pos l < lx_pos (snd ?a)" by (simp add: accept_pos(3))
    moreover have "adv (snd ?a) l3" using True adv_trans[OF adv_accept adv_acceptRun] by (simp add: l3_def l2_def)
    ultimately show ?thesis using adv_frame(12) by (meson order_less_le_trans)
  next
    case False
    then have l2: "lx_pos l2 = lx_pos l" "lx_input l2 = lx_input l" "digs = Digits"
      by (auto simp: l2_def digs_def accept_simps)
    then have "isDigit (fst (next_rune l2))" using assms next_rune_cong[of l2 l] by simp
    then show ?thesis using next_while_less[of "ContainsRune Digits" l2] d l2
      by (simp add: l3_def acceptRun_def rune_not_eof isDigit_def)
  qed
  then show ?thesis using adv_frame(12)[OF r] by simp
qed

subsection \<open>Each state function keeps the invariant\<close>

lemma depths_frame: "adv l m \<Longrightarrow> depths m = depths l"
  by (simp add: depths_def adv_frame)

lemma nested_plain:
  "t \<notin> {LEFT_PAREN, RIGHT_PAREN, LEFT_BRACKET, RIGHT_BRACKET, LEFT_BRACE, RIGHT_BRACE} \<Longrightarrow> nested t d = d"
  by (cases d) (simp add: nest_def)

lemma depths_emit: "depths (emit t l) = depths l" "depths (errorf f l) = depths l"
  by (simp_all add: depths_def emit_def errorf_def)

text \<open>An item of a type that is no bracket.\<close>

definition plain :: "ItemType \<Rightarrow> bool" where
  "plain t \<longleftrightarrow> t \<notin> {0, ERROR, EOF, LEFT_PAREN, RIGHT_PAREN, LEFT_BRACKET, RIGHT_BRACKET, LEFT_BRACE, RIGHT_BRACE}"

lemma lnext_plain:
  assumes "linv l0 s l" "adv l m" "lx_start l < lx_pos m" "plain t"
  shows "lnext l0 (Some LexStatements) (emit t m)"
proof (rule lnext_emit[OF assms(1,2,3) _ refl, of t])
  show "t \<notin> {0, ERROR, EOF}" "depths (emit t m) = nested t (depths l0)"
    using assms by (auto simp: plain_def depths_emit depths_frame nested_plain linv_def)
  show "emit t m = (emit t m)\<lparr>lx_parenDepth := lx_parenDepth (emit t m), lx_bracketDepth := lx_bracketDepth (emit t m),
      lx_braceDepth := lx_braceDepth (emit t m)\<rparr>" by simp
qed

lemma keyword_plain: "map_of keyword_table w = Some t \<Longrightarrow> plain t"
proof -
  have "list_all (\<lambda>(w, t). plain t) keyword_table"
    by (simp add: keyword_table_def declared_keywords_def plain_def)
  then show "map_of keyword_table w = Some t \<Longrightarrow> plain t" by (auto simp: list_all_iff dest: map_of_SomeD)
qed

lemma lnext_keyword:
  assumes "linv l0 LexKeywordOrIdentifier l"
  shows "res_ok (lnext l0) (lexKeywordOrIdentifier l)"
proof -
  have "lx_start l < lx_pos (next_while isAlphaNumeric l)"
    using assms next_while_less[of isAlphaNumeric l]
    by (auto simp: linv_def isAlphaNumeric_def isAlpha_def eof_def)
  then show ?thesis
    by (auto simp: lexKeywordOrIdentifier_def Let_def plain_def split: option.split
        intro!: res_ok_pair lnext_plain[OF assms] adv_next_while intro: keyword_plain)
qed

lemma lnext_number:
  assumes "linv l0 LexNumberOrDuration l"
  shows "res_ok (lnext l0) (lexNumberOrDuration l)"
proof -
  let ?a = "scanNumber l"
  let ?b = "acceptRemainDuration (snd ?a)"
  have a: "adv l (snd ?a)" "lx_start l < lx_pos (snd ?a)"
    using assms scanNumber_less[of l] adv_scanNumber[of l] by (auto simp: linv_def)
  have e: "lx_input (snd ?b) = lx_input l0"
    using adv_frame(1)[OF adv_acceptRemainDuration(1), of "snd ?a"] adv_frame(1)[OF a(1)] assms by (simp add: linv_def)
  consider "fst ?a" | "\<not> fst ?a" "fst ?b" | "\<not> fst ?a" "\<not> fst ?b" by blast
  then show ?thesis
  proof cases
    case 1
    then show ?thesis using a
      by (auto simp: lexNumberOrDuration_def split_def plain_def intro!: res_ok_pair lnext_plain[OF assms])
  next
    case 2
    then have b: "adv (snd ?a) (backup (snd ?b))" by (simp add: adv_acceptRemainDuration(2))
    then have "adv l (backup (snd ?b))" "lx_start l < lx_pos (backup (snd ?b))"
      using a adv_trans adv_frame(12)[OF b] by auto
    then show ?thesis using 2
      by (auto simp: lexNumberOrDuration_def split_def plain_def intro!: res_ok_pair lnext_plain[OF assms])
  next
    case 3
    then show ?thesis using e by (auto simp: lexNumberOrDuration_def split_def intro!: res_ok_pair lnext_error)
  qed
qed

lemma lnext_comment:
  assumes "linv l0 LexLineComment l"
  shows "res_ok (lnext l0) (lexLineComment l)"
proof -
  let ?l1 = "l\<lparr>lx_pos := lx_pos l + 1\<rparr>"
  have "adv l ?l1" using assms by (intro advI[where p = "lx_pos l + 1" and w = "lx_width l"]) (auto simp: linv_def)
  moreover have w: "adv ?l1 (next_while (\<lambda>r. \<not> isEOL r) ?l1)" by (rule adv_next_while)
  ultimately have "adv l (next_while (\<lambda>r. \<not> isEOL r) ?l1)" by (rule adv_trans)
  then show ?thesis using adv_frame(12)[OF w] assms
    by (auto simp: lexLineComment_def plain_def linv_def intro!: res_ok_pair lnext_plain[OF assms])
qed

lemma lnext_space:
  assumes "linv l0 LexSpace l"
  shows "res_ok (lnext l0) (lexSpace l)"
proof -
  let ?m = "next_while isSpace l"
  have a: "adv l ?m" by (rule adv_next_while)
  have "gap (lx_input l0) (lx_pos l0) (lx_start l)" "gap (lx_input l0) (lx_start l) (lx_pos l)"
    "gap (lx_input l0) (lx_pos l) (lx_pos ?m)"
    using assms next_while_gap[of l] by (auto simp: linv_def)
  then have "gap (lx_input l0) (lx_pos l0) (lx_pos ?m)" by (meson gap_trans)
  then have "linv l0 LexStatements (ignore ?m)"
    using assms adv_frame[OF a] by (auto simp: linv_def ignore_def depths_def gap_def)
  then show ?thesis by (simp add: lexSpace_def res_ok_pair lnext_def)
qed
text \<open>Inside a string only the position moves, or an error is on record.\<close>

lemma linv_moved:
  assumes "linv l0 s l" "adv l m" "lx_start l < lx_pos m" "t \<in> {LexString, LexEscape, LexRawString}"
  shows "linv l0 t m"
  using assms adv_frame[OF assms(2)] by (auto simp: linv_def depths_def)

definition failed :: "Lexer \<Rightarrow> Lexer \<Rightarrow> bool" where
  "failed l0 m \<longleftrightarrow> lx_scanned m \<and> lx_input m = lx_input l0 \<and> Typ (lx_item m) = ERROR"

lemma lnext_failed: "failed l0 m \<Longrightarrow> lnext l0 s m"
  by (simp add: failed_def lnext_error)

lemma failed_errorf: "lx_input m = lx_input l0 \<Longrightarrow> failed l0 (errorf f m)"
  by (simp add: failed_def)

lemma failed_adv: "failed l0 l \<Longrightarrow> adv l m \<Longrightarrow> failed l0 m"
  by (simp add: failed_def adv_frame)

lemma escape_digits_outcome:
  assumes "lx_input l = lx_input l0"
  shows "adv l (escape_digits n base mx c x l) \<or> failed l0 (escape_digits n base mx c x l)"
  using assms
proof (induction n arbitrary: c x l)
  case 0
  then show ?case by (auto intro!: failed_errorf)
next
  case (Suc n)
  have a: "adv l (snd (next_rune l))" by (rule adv_next)
  with Suc.IH[of "snd (next_rune l)"] Suc.prems show ?case
    by (auto simp: split_def intro!: failed_errorf intro: adv_trans)
qed

lemma lnext_escape:
  assumes "linv l0 LexEscape l"
  shows "res_ok (lnext l0) (lexEscape l)"
proof -
  have i: "lx_input (snd (next_rune l)) = lx_input l0" "lx_input (snd (next_rune (snd (next_rune l)))) = lx_input l0"
    using assms by (auto simp: linv_def)
  have s: "lx_start l < lx_pos m" if "adv l m" for m
    using assms adv_frame(12)[OF that] by (simp add: linv_def)
  have g: "lnext l0 (Some LexString) m" if "adv l m \<or> failed l0 m" for m
    using that
  proof
    assume "adv l m"
    then show ?thesis using linv_moved[OF assms _ s, of m LexString] by (simp add: lnext_def)
  qed (rule lnext_failed)
  have d: "lnext l0 (Some LexString) (escape_digits n base mx c x m)"
    if "adv l m" "lx_input m = lx_input l0" for n base mx c x m
    using escape_digits_outcome[OF that(2)] adv_trans[OF that(1)] g by blast
  have e: "lnext l0 (Some LexString) (errorf f (snd (next_rune l)))" for f using failed_errorf[OF i(1)] g by blast
  have n: "adv l (snd (next_rune l))" "adv l (snd (next_rune (snd (next_rune l))))" by (auto intro!: adv_calls)
  show ?thesis unfolding lexEscape_def split_def
    by (intro res_ok_if res_ok_pair) (use g[OF disjI1, OF n(1)] d[OF n(1) i(1)] d[OF n(2) i(2)] e in simp_all)
qed

text \<open>Inside a string, an error may be on record already.\<close>

definition instr :: "Lexer \<Rightarrow> Lexer \<Rightarrow> bool" where
  "instr l0 l \<longleftrightarrow> lx_input l = lx_input l0 \<and> depths l = depths l0 \<and> gap (lx_input l0) (lx_pos l0) (lx_start l) \<and>
     lx_pos l \<le> length (lx_input l0) \<and> lx_start l < lx_pos l \<and> (lx_scanned l \<longrightarrow> failed l0 l)"

lemma instr_linv: "t \<in> {LexString, LexEscape, LexRawString} \<Longrightarrow> linv l0 t l \<longleftrightarrow> instr l0 l \<and> \<not> lx_scanned l"
  by (auto simp: linv_def instr_def)

lemma instr_adv: "instr l0 l \<Longrightarrow> adv l m \<Longrightarrow> instr l0 m"
  using adv_frame[of l m] by (auto simp: instr_def depths_frame failed_adv)

lemma instr_errorf: "instr l0 l \<Longrightarrow> instr l0 (errorf f l)"
  by (auto simp: instr_def depths_emit failed_errorf)

lemma lnext_instr:
  assumes "instr l0 m" "t \<in> {LexString, LexEscape, LexRawString}"
  shows "lnext l0 (Some t) m"
proof (cases "lx_scanned m")
  case True
  with assms(1) show ?thesis by (simp add: instr_def lnext_failed)
next
  case False
  with assms show ?thesis by (simp add: lnext_def instr_linv)
qed

lemma lnext_emit_string: "instr l0 l \<Longrightarrow> plain t \<Longrightarrow> lnext l0 (Some LexStatements) (emit t l)"
  by (auto simp: lnext_def lout_def instr_def depths_emit plain_def nested_plain cur_slice)

lemma lnext_string: "instr l0 l \<Longrightarrow> res_ok (lnext l0) (lexString l)"
proof (induction l rule: lexString.induct)
  case (1 l)
  let ?r = "fst (next_rune l)" and ?l1 = "snd (next_rune l)"
  have i: "instr l0 ?l1" using "1.prems" adv_next by (rule instr_adv)
  then have input: "lx_input l = lx_input l0" by (simp add: instr_def)
  note IH = "1.IH"[OF prod.collapse]
  show ?case
    by (subst lexString.simps, unfold split_def, intro res_ok_if res_ok_pair IH)
      (use i in \<open>auto intro!: lnext_instr lnext_failed[OF failed_errorf] lnext_emit_string instr_errorf
        simp: plain_def input\<close>)
qed

lemma lnext_rawstring: "instr l0 l \<Longrightarrow> res_ok (lnext l0) (lexRawString l)"
proof (induction l rule: lexRawString.induct)
  case (1 l)
  let ?r = "fst (next_rune l)" and ?l1 = "snd (next_rune l)"
  have i: "instr l0 ?l1" using "1.prems" adv_next by (rule instr_adv)
  then have input: "lx_input l = lx_input l0" by (simp add: instr_def)
  note IH = "1.IH"[OF prod.collapse]
  show ?case
    by (subst lexRawString.simps, unfold split_def, intro res_ok_if res_ok_pair IH)
      (use i in \<open>auto intro!: lnext_failed[OF failed_errorf] lnext_emit_string simp: plain_def input\<close>)
qed

lemma byte_not_eof [simp]: "byte c \<noteq> eof" "eof \<noteq> byte c"
  using byte_bounds(1)[of c] unfolding eof_def by linarith+

text \<open>The main state: brackets change the depths, everything else is a plain item or another state.\<close>

lemma lnext_statements:
  assumes "linv l0 LexStatements l"
  shows "res_ok (lnext l0) (lexStatements l)"
proof -
  let ?r = "fst (next_rune l)" and ?l1 = "snd (next_rune l)"
  have n: "adv l ?l1" by (rule adv_next)
  have i: "lx_input l = lx_input l0" "depths l = depths l0" "\<not> lx_scanned l" "lx_start l = lx_pos l"
    "gap (lx_input l0) (lx_pos l0) (lx_pos l)" "lx_pos l \<le> length (lx_input l0)"
    using assms by (auto simp: linv_def)
  have less: "lx_start l < lx_pos m" if "?r \<noteq> eof" "adv ?l1 m" for m
    using next_rune_pos(2)[OF that(1)] adv_frame(12)[OF that(2)] i by simp
  have tok: "lnext l0 (Some LexStatements) (emit t m)" if "?r \<noteq> eof" "adv ?l1 m" "plain t" for t m
    using lnext_plain[OF assms adv_trans[OF n that(2)] less] that by blast
  have err: "lnext l0 s (errorf f m)" if "adv ?l1 m" for s f m
    using lnext_failed[OF failed_errorf] adv_frame(1)[OF that] i(1) by simp
  have str: "lnext l0 (Some t) (?l1\<lparr>lx_stringOpen := q\<rparr>)" "lnext l0 (Some t) (?l1\<lparr>lx_backquoteOpen := q\<rparr>)"
    if "?r \<noteq> eof" "t \<in> {LexString, LexRawString}" for t q
    using that less[OF that(1) adv_refl] i adv_frame[OF n]
    by (auto intro!: lnext_instr simp: instr_def depths_def)
  have d: "depths l0 = (lx_parenDepth ?l1, lx_bracketDepth ?l1, lx_braceDepth ?l1)" "lx_start ?l1 = lx_start l"
    using i(2) adv_frame[OF n] by (simp_all add: depths_def)
  have brk: "lnext l0 (Some LexStatements) m"
    if "lx_item m = \<lparr>Typ = t, IPos = lx_start l, IVal = slice (lx_input l0) (lx_start l) (lx_pos ?l1)\<rparr>"
      "?r \<noteq> eof" "t \<notin> {0, ERROR, EOF}" "lx_scanned m" "lx_input m = lx_input l0" "lx_pos m = lx_pos ?l1" "lx_start m = lx_pos ?l1"
      "depths m = nested t (lx_parenDepth ?l1, lx_bracketDepth ?l1, lx_braceDepth ?l1)" for t m
    using that d(1) less[OF that(2) adv_refl] i adv_frame(13)[OF n] by (simp add: lnext_def lout_def)
  have fin: "lnext l0 None (emit EOF ?l1)"
    if "?r = eof" "lx_parenDepth ?l1 = 0" "lx_bracketDepth ?l1 = 0" "lx_braceDepth ?l1 = 0"
  proof -
    have "lx_pos l = length (lx_input l0)"
    proof (rule ccontr)
      assume "lx_pos l \<noteq> length (lx_input l0)"
      with i have "lx_pos l < length (lx_input l)" by simp
      then have "?r = fst (DecodeRune (drop (lx_pos l) (lx_input l)))" by (simp add: next_rune_def split_def)
      with that(1) DecodeRune_nonneg[of "drop (lx_pos l) (lx_input l)"] show False by (simp add: eof_def)
    qed
    moreover from this have "?l1 = l\<lparr>lx_width := 0\<rparr>" using i(1) by (simp add: next_rune_def)
    ultimately show ?thesis using that i d
      by (simp add: lnext_def lout_def depths_emit nest_def cur_slice) (simp add: depths_def)
  qed
  have num: "linv l0 LexNumberOrDuration (backup ?l1)" if "isDigit ?r"
    using that i adv_frame[OF adv_backup_next, of l] next_rune_cong[of "backup ?l1" l]
    by (simp add: linv_def depths_def)
  have kw: "linv l0 LexKeywordOrIdentifier (backup ?l1)" if "isAlpha ?r"
    using that i adv_frame[OF adv_backup_next, of l] next_rune_cong[of "backup ?l1" l]
    by (simp add: linv_def depths_def)
  have sp: "linv l0 LexSpace ?l1" if "isSpace ?r"
    using that i adv_frame[OF n] next_rune_gap[OF that] by (simp add: linv_def depths_def)
  have cm: "linv l0 LexLineComment l" if "take 1 (drop (lx_pos l) (lx_input l)) = ''#''"
  proof -
    have "lx_pos l < length (lx_input l)" by (rule ccontr) (use that in simp)
    then show ?thesis using assms by (auto simp: linv_def)
  qed
  have moved: "adv ?l1 ?l1" "adv ?l1 (snd (peek ?l1))" "adv ?l1 (snd (next_rune ?l1))"
    "adv ?l1 (snd (next_rune (snd (peek ?l1))))"
    by (auto intro: adv_peek adv_next adv_trans[OF adv_peek adv_next])
  have c: "?r \<noteq> eof" if "0 \<le> ?r" using that by (rule rune_not_eof)
  have nx: "lnext l0 (Some t) m" if "linv l0 t m" for t m using that by (simp add: lnext_def)
  show ?thesis unfolding lexStatements_def split_def one_two_simps Let_def
    by (intro res_ok_if res_ok_pair;
        ((rule nx, erule cm sp num kw)
         | (rule tok, (simp add: c; fail), rule moved, (simp add: plain_def; fail))
         | (rule err, rule moved)
         | (rule str, (auto simp: eof_def; fail), simp)
         | (rule fin, (simp_all)[4])
         | (rule lnext_failed[OF failed_errorf], simp add: i)
         | (rule brk, (simp add: emit_def d(2) i cur_slice; fail), simp_all add: emit_def i depths_def nest_def)))
qed

lemma lnext_run_state: "linv l0 s l \<Longrightarrow> res_ok (lnext l0) (run_state s l)"
  by (cases s) (simp_all add: lnext_statements lnext_keyword lnext_space lnext_number lnext_rawstring lnext_comment
      lnext_escape lnext_string instr_linv)

subsection \<open>\<open>NextItem\<close>, and all items\<close>

lemma lex_loop_scanned: "lx_state l \<noteq> None \<or> lx_scanned l \<Longrightarrow> \<exists>m. lex_loop l = Some m \<and> lx_scanned m"
proof (induction l rule: lex_loop.induct)
  case (1 l)
  show ?case
  proof (cases "lx_scanned l")
    case False
    with "1.prems" obtain s where s: "lx_state l = Some s" by blast
    obtain s' m where r: "run_state s l = (s', m)" by fastforce
    have "s' \<noteq> None \<or> lx_scanned m" using run_state_progress[of s l] r by (auto simp: progress_def)
    with "1.IH"[OF False s r[symmetric]] False s r show ?thesis by (subst lex_loop.simps) simp
  qed (simp add: lex_loop.simps)
qed

lemma lex_loop_out:
  assumes "lx_state l = Some s" "linv l0 s l" "lex_loop l = Some m"
  shows "lout l0 (lx_state m) m"
  using assms
proof (induction l arbitrary: s rule: lex_loop.induct)
  case (1 l)
  obtain s' k where r: "run_state s l = (s', k)" by fastforce
  have ns: "\<not> lx_scanned l" using "1.prems"(2) by (simp add: linv_def)
  have loop: "lex_loop (k\<lparr>lx_state := s'\<rparr>) = Some m"
    using "1.prems"(1,3) ns r by (subst (asm) lex_loop.simps) simp
  from lnext_run_state[OF "1.prems"(2)] r consider "lout l0 s' k" | t where "s' = Some t" "linv l0 t k"
    by (auto simp: res_ok_def lnext_def)
  then show ?case
  proof cases
    case 1
    then have "m = k\<lparr>lx_state := s'\<rparr>" using loop by (simp add: lex_loop.simps lout_def)
    with 1 show ?thesis by simp
  next
    case 2
    have "linv l0 t (k\<lparr>lx_state := s'\<rparr>)"
      using 2(2) next_rune_cong[of "k\<lparr>lx_state := s'\<rparr>" k] by (cases t) (auto simp: linv_def)
    with "1.IH"[OF ns "1.prems"(1) r[symmetric], of t] 2 loop show ?thesis by simp
  qed
qed

text \<open>\<open>ready l\<close>: between two items, at the start of the next one.\<close>

definition ready :: "Lexer \<Rightarrow> bool" where
  "ready l \<longleftrightarrow> lx_state l = Some LexStatements \<and> lx_start l = lx_pos l \<and> lx_pos l \<le> length (lx_input l)"

lemma Lex_fields [simp]: "lx_input (Lex input) = input" "lx_pos (Lex input) = 0" "depths (Lex input) = (0, 0, 0)"
  by (simp_all add: Lex_def depths_def)

lemma Lex_ready [simp]: "ready (Lex input)"
  by (simp add: ready_def Lex_def)

lemma NextItem_returns: "\<exists>m. NextItem l = Some m \<and> lx_scanned m"
proof (cases "lx_state l = None")
  case True
  then show ?thesis by (simp add: NextItem_def)
next
  case False
  then obtain m where "lex_loop (l\<lparr>lx_scanned := False\<rparr>) = Some m" "lx_scanned m"
    using lex_loop_scanned[of "l\<lparr>lx_scanned := False\<rparr>"] by auto
  with False show ?thesis by (simp add: NextItem_def Let_def)
qed

lemma NextItem_out:
  assumes "ready l" "NextItem l = Some m"
  shows "lout l (lx_state m) m"
proof -
  let ?l = "l\<lparr>lx_scanned := False\<rparr>"
  from assms obtain k where k: "lex_loop ?l = Some k" "m = k\<lparr>lx_lastPos := IPos (lx_item k)\<rparr>"
    by (auto simp: NextItem_def ready_def Let_def)
  have "linv l LexStatements ?l" using assms(1) by (simp add: linv_def ready_def depths_def)
  with lex_loop_out[OF _ _ k(1)] assms(1) have "lout l (lx_state k) k" by (simp add: ready_def)
  then show ?thesis using k(2) by simp
qed

text \<open>
  The items of an input: \<open>NextItem\<close> until the end of the input or an error, which is how the parser uses the
  lexer.  \<open>None\<close> when \<open>n\<close> calls were not enough.
\<close>

primrec items :: "nat \<Rightarrow> Lexer \<Rightarrow> Item list option" where
  "items 0 l = None"
| "items (Suc n) l =
     (case NextItem l of
        None \<Rightarrow> None
      | Some m \<Rightarrow>
          if Typ (lx_item m) = EOF \<or> Typ (lx_item m) = ERROR then Some [lx_item m]
          else map_option ((#) (lx_item m)) (items n m))"

text \<open>\<open>covers inp p its\<close>: from position \<open>p\<close> on the items are the input, up to white space between them.\<close>

fun covers :: "string \<Rightarrow> nat \<Rightarrow> Item list \<Rightarrow> bool" where
  "covers inp p [] = False"
| "covers inp p (it # its) =
     (if Typ it = ERROR then its = []
      else gap inp p (IPos it) \<and> IVal it = slice inp (IPos it) (IPos it + length (IVal it)) \<and>
        (if Typ it = EOF then its = [] \<and> IPos it = length inp \<and> IVal it = []
         else IVal it \<noteq> [] \<and> covers inp (IPos it + length (IVal it)) its))"

lemma items_cover:
  assumes "ready l" "length (lx_input l) - lx_pos l < n"
  shows "\<exists>its. items n l = Some its \<and> covers (lx_input l) (lx_pos l) its"
  using assms
proof (induction n arbitrary: l)
  case (Suc n)
  obtain m where m: "NextItem l = Some m" using NextItem_returns by blast
  note o = NextItem_out[OF Suc.prems(1) m, unfolded lout_def]
  let ?it = "lx_item m"
  show ?case
  proof (cases "Typ ?it = ERROR")
    case True
    with m show ?thesis by simp
  next
    case ok: False
    have len: "IPos ?it + length (IVal ?it) = lx_pos m" if "IPos ?it \<le> lx_pos m"
      using o ok that by (auto simp: slice_def)
    show ?thesis
    proof (cases "Typ ?it = EOF")
      case True
      with m o len show ?thesis by (auto simp: slice_def)
    next
      case False
      with o ok have "ready m" "length (lx_input m) - lx_pos m < n" "lx_input m = lx_input l" "IPos ?it < lx_pos m"
        using Suc.prems by (auto simp: ready_def gap_def)
      with Suc.IH[of m] m o ok False len show ?thesis by auto
    qed
  qed
qed simp

end
