(* ===== verification/Filter_Parse.thy ===== *)
theory Filter_Parse
  imports Filter_Tokens
begin

section \<open>Filter: feeding the parser (filter/parse.go)\<close>

text \<open>
  The \<open>parser\<close> object between the lexer and the generated table-driven parser: \<open>newParser\<close>, \<open>InjectItem\<close> and
  the method \<open>Lex\<close> that the generated parser calls for its next token.  A parse error keeps its position range.
  The generated tables (gram\_y.go) are not modelled; what their actions call is in the theory of nodes.
\<close>

record parser =
  p_lex :: Lexer
  p_lval :: Item
  p_lastClosing :: nat
  p_errs :: "(nat \<times> nat) list"
  p_inject :: ItemType
  p_injecting :: bool

text \<open>Every field but \<open>inject\<close> and \<open>lastClosing\<close>, which a pooled parser keeps, is reset.\<close>

definition newParser :: "parser \<Rightarrow> string \<Rightarrow> parser" where
  "newParser pooled input = pooled\<lparr>p_injecting := False, p_errs := [], p_lex := Lex input\<rparr>"

definition addParseErrAt :: "nat \<times> nat \<Rightarrow> parser \<Rightarrow> parser" where
  "addParseErrAt pr p = p\<lparr>p_errs := p_errs p @ [pr]\<rparr>"

text \<open>\<open>None\<close> is a panic.\<close>

definition InjectItem :: "ItemType \<Rightarrow> parser \<Rightarrow> parser option" where
  "InjectItem typ p =
     (if p_injecting p then None
      else if typ \<noteq> 0 \<and> (typ \<le> startSymbolsStart \<or> typ \<ge> startSymbolsEnd) then None
      else Some (p\<lparr>p_inject := typ, p_injecting := True\<rparr>))"

text \<open>The loop over comments; every comment takes at least one byte, so fuel for every byte is enough.\<close>

primrec skip_comments :: "nat \<Rightarrow> Lexer \<Rightarrow> Lexer option" where
  "skip_comments 0 l = None"
| "skip_comments (Suc n) l =
     (case NextItem l of
        None \<Rightarrow> None
      | Some m \<Rightarrow> if Typ (lx_item m) \<noteq> COMMENT then Some m else skip_comments n m)"

definition parser_Lex :: "parser \<Rightarrow> (ItemType \<times> parser) option" where
  "parser_Lex p =
     (if p_injecting p then Some (p_inject p, p\<lparr>p_injecting := False\<rparr>)
      else case skip_comments (length (lx_input (p_lex p)) + 1) (p_lex p) of
        None \<Rightarrow> None
      | Some l \<Rightarrow>
          let it = lx_item l; q = p\<lparr>p_lex := l, p_lval := it\<rparr> in
          if Typ it = ERROR then Some (0, addParseErrAt (lx_start l, length (lx_input l)) q)
          else if Typ it = EOF then map_option (Pair EOF) (InjectItem 0 q)
          else if Typ it \<in> {RIGHT_BRACE, RIGHT_PAREN, RIGHT_BRACKET, DURATION}
          then Some (Typ it, q\<lparr>p_lastClosing := IPos it + length (IVal it)\<rparr>)
          else Some (Typ it, q))"

text \<open>The tokens the generated parser reads until it sees its end mark 0, which is also what an error gives.\<close>

primrec fed :: "nat \<Rightarrow> parser \<Rightarrow> (ItemType list \<times> parser) option" where
  "fed 0 p = None"
| "fed (Suc n) p =
     (case parser_Lex p of
        None \<Rightarrow> None
      | Some (t, q) \<Rightarrow> if t = 0 then Some ([0], q) else map_option (\<lambda>(ts, r). (t # ts, r)) (fed n q))"

definition feed :: "parser \<Rightarrow> string \<Rightarrow> (ItemType list \<times> parser) option" where
  "feed pooled input =
     Option.bind (InjectItem START_WHERE_CONDITION (newParser pooled input)) (fed (length input + 4))"

lemma NextItem_ready:
  assumes "ready l" "NextItem l = Some m" "Typ (lx_item m) \<notin> {EOF, ERROR}"
  shows "ready m \<and> lx_pos l < lx_pos m \<and> lx_input m = lx_input l \<and> lx_pos m \<le> length (lx_input l)"
  using NextItem_out[OF assms(1,2)] assms(3) by (auto simp: lout_def ready_def gap_def)

lemma skip_comments_items:
  assumes "ready l" "items k l = Some its" "length (lx_input l) - lx_pos l < n"
  shows "\<exists>m it rest. skip_comments n l = Some m \<and> lx_item m = it \<and> Typ it \<noteq> COMMENT \<and>
     filter (\<lambda>i. Typ i \<noteq> COMMENT) its = it # rest \<and> lx_input m = lx_input l \<and>
     (if Typ it = EOF \<or> Typ it = ERROR then rest = []
      else ready m \<and> lx_pos l < lx_pos m \<and> (\<exists>j its'. items j m = Some its' \<and> filter (\<lambda>i. Typ i \<noteq> COMMENT) its' = rest))"
  using assms
proof (induction n arbitrary: l k its)
  case (Suc n)
  obtain m where m: "NextItem l = Some m" using NextItem_returns by blast
  have inp: "lx_input m = lx_input l" using NextItem_out[OF Suc.prems(1) m] by (simp add: lout_def)
  obtain j where k: "k = Suc j" using Suc.prems(2) by (cases k) auto
  consider "Typ (lx_item m) \<in> {EOF, ERROR}" | "Typ (lx_item m) = COMMENT" | "Typ (lx_item m) \<notin> {EOF, ERROR, COMMENT}"
    by blast
  then show ?case
  proof cases
    case 1
    with Suc.prems(2) m inp k show ?thesis by auto
  next
    case 2
    with Suc.prems(2) m k obtain its' where its': "items j m = Some its'" "its = lx_item m # its'" by auto
    have r: "ready m" "lx_pos l < lx_pos m" using NextItem_ready[OF Suc.prems(1) m] 2 by auto
    have "length (lx_input m) - lx_pos m < n" using r Suc.prems(3) inp by (auto simp: ready_def)
    from Suc.IH[OF r(1) its'(1) this] obtain k it rest where h: "skip_comments n m = Some k" "lx_item k = it"
      "Typ it \<noteq> COMMENT" "filter (\<lambda>i. Typ i \<noteq> COMMENT) its' = it # rest" "lx_input k = lx_input m"
      "if Typ it = EOF \<or> Typ it = ERROR then rest = [] else ready k \<and> lx_pos m < lx_pos k \<and>
        (\<exists>j its'. items j k = Some its' \<and> filter (\<lambda>i. Typ i \<noteq> COMMENT) its' = rest)" by blast
    then have "if Typ it = EOF \<or> Typ it = ERROR then rest = [] else ready k \<and> lx_pos l < lx_pos k \<and>
        (\<exists>j its'. items j k = Some its' \<and> filter (\<lambda>i. Typ i \<noteq> COMMENT) its' = rest)"
      using r(2) by (auto split: if_split_asm)
    moreover have "skip_comments (Suc n) l = Some k" "filter (\<lambda>i. Typ i \<noteq> COMMENT) its = it # rest" "lx_input k = lx_input l"
      using 2 m h its'(2) inp by simp_all
    ultimately show ?thesis using h(2,3) by blast
  next
    case 3
    with Suc.prems(2) m k obtain its' where its': "items j m = Some its'" "its = lx_item m # its'" by auto
    with 3 m NextItem_ready[OF Suc.prems(1) m] show ?thesis by auto
  qed
qed simp

lemma NextItem_typ: "ready l \<Longrightarrow> NextItem l = Some m \<Longrightarrow> Typ (lx_item m) \<noteq> 0"
  using NextItem_out[of l m] by (simp add: lout_def)

lemma items_typ: "ready l \<Longrightarrow> items k l = Some its \<Longrightarrow> \<forall>i \<in> set its. Typ i \<noteq> 0"
proof (induction k arbitrary: l its)
  case (Suc k)
  obtain m where m: "NextItem l = Some m" using NextItem_returns by blast
  show ?case
  proof (cases "Typ (lx_item m) \<in> {EOF, ERROR}")
    case False
    then have "ready m" using NextItem_ready[OF Suc.prems(1) m] by simp
    with False Suc m NextItem_typ[OF Suc.prems(1) m] show ?thesis by fastforce
  qed (use Suc.prems m NextItem_typ[OF Suc.prems(1) m] in auto)
qed simp

lemma fed_items:
  assumes "ready (p_lex p)" "\<not> p_injecting p" "items k (p_lex p) = Some its"
    "length (lx_input (p_lex p)) - lx_pos (p_lex p) + 2 < n"
  shows "\<exists>q. fed n p =
     Some (map Typ (takeWhile (\<lambda>i. Typ i \<noteq> ERROR) (filter (\<lambda>i. Typ i \<noteq> COMMENT) its)) @ [0], q)"
  using assms
proof (induction n arbitrary: p k its)
  case (Suc n)
  have "length (lx_input (p_lex p)) - lx_pos (p_lex p) < length (lx_input (p_lex p)) + 1" by simp
  from skip_comments_items[OF Suc.prems(1,3) this] obtain m it rest where
    m: "skip_comments (length (lx_input (p_lex p)) + 1) (p_lex p) = Some m" "lx_item m = it" "Typ it \<noteq> COMMENT"
      "filter (\<lambda>i. Typ i \<noteq> COMMENT) its = it # rest" "lx_input m = lx_input (p_lex p)"
    and c: "if Typ it = EOF \<or> Typ it = ERROR then rest = []
      else ready m \<and> lx_pos (p_lex p) < lx_pos m \<and>
        (\<exists>j its'. items j m = Some its' \<and> filter (\<lambda>i. Typ i \<noteq> COMMENT) its' = rest)" by blast
  have nz: "Typ it \<noteq> 0" using items_typ[OF Suc.prems(1,3)] m(4) by (metis filter_is_subset list.set_intros(1) subsetD)
  consider "Typ it = ERROR" | "Typ it = EOF" | "Typ it \<notin> {EOF, ERROR}" by blast
  then show ?case
  proof cases
    case 1
    then show ?thesis using m c Suc.prems(2) by (simp add: parser_Lex_def Let_def)
  next
    case 2
    obtain n' where "n = Suc n'" using Suc.prems(4) by (cases n) auto
    then show ?thesis using 2 m c Suc.prems(2) by (auto simp: parser_Lex_def Let_def InjectItem_def)
  next
    case 3
    define q where "q = (if Typ it \<in> {RIGHT_BRACE, RIGHT_PAREN, RIGHT_BRACKET, DURATION}
      then p\<lparr>p_lex := m, p_lval := it, p_lastClosing := IPos it + length (IVal it)\<rparr> else p\<lparr>p_lex := m, p_lval := it\<rparr>)"
    have q: "parser_Lex p = Some (Typ it, q)" "p_lex q = m" "\<not> p_injecting q"
      using 3 m Suc.prems(2) by (simp_all add: parser_Lex_def Let_def q_def)
    from c 3 obtain j its' where h: "ready m" "lx_pos (p_lex p) < lx_pos m" "items j m = Some its'"
      "filter (\<lambda>i. Typ i \<noteq> COMMENT) its' = rest" by auto
    have "length (lx_input m) - lx_pos m + 2 < n" using h(1,2) m(5) Suc.prems(4) by (auto simp: ready_def)
    with Suc.IH[of q j its'] q h obtain r where
      "fed n q = Some (map Typ (takeWhile (\<lambda>i. Typ i \<noteq> ERROR) rest) @ [0], r)" by auto
    then show ?thesis using q(1) nz 3 m(4) by simp
  qed
qed simp

end
