(* ===== verification/Filter_Props2.thy ===== *)
theory Filter_Props2
  imports Filter_Parse
begin

section \<open>Properties of the filter's lexer\<close>

text \<open>What lexing promises for every input: it ends, it loses nothing, it counts brackets, it feeds the parser.\<close>

lemma lexing_covers_inputs:
  "\<exists>its. items (length input + 1) (Lex input) = Some its \<and> covers input 0 its"
  using items_cover[of "Lex input" "length input + 1"] by (simp del: items.simps)

text \<open>
  C11.  Lexing any input ends after at most one call of \<open>NextItem\<close> per byte and one more, and the
  items it delivered cover the input: each is the slice at its position, only white space lies
  between them, and the last is the end of the input or an error.
\<close>

theorem lexing_covers_input:
  "\<exists>its. items (length input + 1) (Lex input) = Some its \<and> covers input 0 its"
  by (rule lexing_covers_inputs)

text \<open>
  An input that is lexed to its end has as many closing as opening brackets of each kind.
\<close>

lemma items_depths:
  assumes "ready l" "items n l = Some its" "Typ (last its) = EOF"
  shows "fold nested (map Typ its) (depths l) = (0, 0, 0)"
  using assms
proof (induction n arbitrary: l its)
  case (Suc n)
  obtain m where m: "NextItem l = Some m" using NextItem_returns by blast
  have o: "Typ (lx_item m) \<noteq> ERROR \<Longrightarrow> depths m = nested (Typ (lx_item m)) (depths l)"
    "Typ (lx_item m) = EOF \<Longrightarrow> depths m = (0, 0, 0)"
    using NextItem_out[OF Suc.prems(1) m] by (auto simp: lout_def)
  show ?case
  proof (cases "Typ (lx_item m) \<in> {EOF, ERROR}")
    case True
    with Suc.prems m o show ?thesis by (auto split: if_splits)
  next
    case False
    with Suc.prems m obtain its' where its': "items n m = Some its'" "its = lx_item m # its'" by auto
    have "its' \<noteq> []" using its'(1) by (cases n) (auto split: option.splits if_splits)
    with Suc.IH[OF _ its'(1)] NextItem_ready[OF Suc.prems(1) m] False its'(2) Suc.prems(3) o(1) show ?thesis by simp
  qed
qed simp

lemma fold_nested:
  "fold nested ts (a, b, c) =
     (a + sum_list (map (nest LEFT_PAREN RIGHT_PAREN) ts), b + sum_list (map (nest LEFT_BRACKET RIGHT_BRACKET) ts),
      c + sum_list (map (nest LEFT_BRACE RIGHT_BRACE) ts))"
  by (induction ts arbitrary: a b c) simp_all

lemma nest_count:
  "a \<noteq> b \<Longrightarrow> sum_list (map (nest a b) ts) = int (count_list ts a) - int (count_list ts b)"
  by (induction ts) (auto simp: nest_def)

theorem lexed_brackets_balance:
  assumes "items n (Lex input) = Some its" "Typ (last its) = EOF"
  shows "count_list (map Typ its) LEFT_PAREN = count_list (map Typ its) RIGHT_PAREN \<and>
     count_list (map Typ its) LEFT_BRACKET = count_list (map Typ its) RIGHT_BRACKET \<and>
     count_list (map Typ its) LEFT_BRACE = count_list (map Typ its) RIGHT_BRACE"
proof -
  have "fold nested (map Typ its) (0, 0, 0) = (0, 0, 0)"
    using items_depths[OF Lex_ready assms] by simp
  then show ?thesis by (simp add: fold_nested nest_count del: map_map)
qed

definition ex_input :: string where
  "ex_input = ''{ host in [re] }''"

theorem lexed_brackets_balance_witness:
  "\<exists>its. items 10 (Lex ex_input) = Some its \<and> count_list (map Typ its) LEFT_BRACE = count_list (map Typ its) RIGHT_BRACE"
proof -
  have "items 10 (Lex ex_input) \<noteq> None \<and> Typ (last (the (items 10 (Lex ex_input)))) = EOF" by code_simp
  then obtain its where "items 10 (Lex ex_input) = Some its" "Typ (last its) = EOF" by auto
  with lexed_brackets_balance[OF this] show ?thesis by blast
qed

text \<open>
  C12.  The tokens handed to the generated parser are its start symbol, the types of the items in
  order without the comments, and its end mark 0: behind the end of the input, or in the place of
  the error item, for which a parse error is recorded.  Nothing panics.
\<close>

theorem parser_is_fed:
  "\<exists>its q. items (length input + 1) (Lex input) = Some its \<and>
     feed pooled input = Some (START_WHERE_CONDITION #
       map Typ (takeWhile (\<lambda>i. Typ i \<noteq> ERROR) (filter (\<lambda>i. Typ i \<noteq> COMMENT) its)) @ [0], q)"
proof -
  obtain its where its: "items (length input + 1) (Lex input) = Some its" using lexing_covers_inputs[of input] by blast
  let ?p = "(newParser pooled input)\<lparr>p_inject := START_WHERE_CONDITION, p_injecting := False\<rparr>"
  have "ready (p_lex ?p)" "\<not> p_injecting ?p" "items (length input + 1) (p_lex ?p) = Some its"
    "length (lx_input (p_lex ?p)) - lx_pos (p_lex ?p) + 2 < length input + 3"
    using its by (simp_all add: newParser_def del: items.simps)
  from fed_items[OF this] obtain q where "fed (length input + 3) ?p =
      Some (map Typ (takeWhile (\<lambda>i. Typ i \<noteq> ERROR) (filter (\<lambda>i. Typ i \<noteq> COMMENT) its)) @ [0], q)" by blast
  with its show ?thesis
    by (auto simp: feed_def InjectItem_def newParser_def parser_Lex_def numeral_eq_Suc)
qed

text \<open>
  A word, a letter or underscore followed by letters, digits and underscores, is one item: a
  keyword when its lower-case form is in the table, an identifier otherwise.
\<close>

lemma next_while_word:
  "\<forall>c \<in> set (drop (lx_pos l) (lx_input l)). P (byte c) \<and> byte c < 128 \<Longrightarrow> lx_pos l \<le> length (lx_input l) \<Longrightarrow>
     lx_pos (next_while P l) = length (lx_input l)"
proof (induction P l rule: next_while.induct)
  case (1 P l)
  show ?case
  proof (cases "lx_pos l < length (lx_input l)")
    case True
    let ?c = "lx_input l ! lx_pos l" and ?l1 = "snd (next_rune l)"
    have d: "drop (lx_pos l) (lx_input l) = ?c # drop (Suc (lx_pos l)) (lx_input l)" using True by (simp add: Cons_nth_drop_Suc)
    with "1.prems"(1) have c: "P (byte ?c)" "byte ?c < 128" by auto
    then have n: "next_rune l = (byte ?c, l\<lparr>lx_width := 1, lx_pos := lx_pos l + 1\<rparr>)"
      using True d by (simp add: next_rune_def)
    then have "next_while P l = next_while P ?l1" using c by (subst next_while.simps) simp
    moreover have "lx_pos (next_while P ?l1) = length (lx_input ?l1)"
      by (rule "1.IH"[OF prod.collapse]) (use n c d "1.prems" True in auto)
    ultimately show ?thesis by simp
  next
    case False
    then have "next_while P l = backup (snd (next_rune l))" by (subst next_while.simps) (simp add: next_rune_def)
    then show ?thesis using False "1.prems"(2) by simp
  qed
qed

lemma lexStatements_alpha:
  assumes "isAlpha (fst (next_rune l))"
  shows "lexStatements l = (Some LexKeywordOrIdentifier, backup (snd (next_rune l)))"
proof -
  let ?r = "fst (next_rune l)"
  have r: "?r < 128" "?r \<noteq> eof" "\<not> isSpace ?r" "\<not> isDigit ?r" "?r \<noteq> 34" "?r \<noteq> 39" "?r \<noteq> 96"
    using assms by (auto simp: isAlpha_def isSpace_def isDigit_def eof_def)
  have b: "(?r = numeral k) = False" if "\<not> isAlpha (numeral k)" for k using that assms by auto
  have "take 1 (drop (lx_pos l) (lx_input l)) = [lx_input l ! lx_pos l]"
    using next_rune_ascii(3)[OF r(1,2)] by (simp add: take_Suc_conv_app_nth)
  moreover have "lx_input l ! lx_pos l \<noteq> CHR ''#''"
    using next_rune_ascii(2)[OF r(1,2)] assms by (auto simp: isAlpha_def byte_def)
  ultimately show ?thesis using r assms unfolding lexStatements_def split_def
    by (simp add: b isAlpha_def[of "numeral _"] byte_def)
qed

lemma lexStatements_end:
  assumes "lx_pos l = length (lx_input l)" "depths l = (0, 0, 0)"
  shows "lexStatements l = (None, emit EOF (l\<lparr>lx_width := 0\<rparr>))"
proof -
  have "next_rune l = (eof, l\<lparr>lx_width := 0\<rparr>)" using assms by (simp add: next_rune_def)
  then show ?thesis using assms
    by (simp add: lexStatements_def depths_def isSpace_def isDigit_def isAlpha_def eof_def byte_def)
qed

theorem word_is_one_item:
  assumes "w \<noteq> []" "isAlpha (byte (hd w))" "\<forall>c \<in> set w. isAlphaNumeric (byte c)"
  shows "items 2 (Lex w) =
     Some [\<lparr>Typ = (case map_of keyword_table (ToLower w) of Some kw \<Rightarrow> kw | None \<Rightarrow> ID), IPos = 0, IVal = w\<rparr>,
           \<lparr>Typ = EOF, IPos = length w, IVal = []\<rparr>]"
proof -
  let ?l = "Lex w"
  let ?t = "case map_of keyword_table (ToLower w) of Some kw \<Rightarrow> kw | None \<Rightarrow> ID"
  have ascii: "\<forall>c \<in> set w. isAlphaNumeric (byte c) \<and> byte c < 128"
    using assms(3) by (auto simp: isAlphaNumeric_def isAlpha_def isDigit_def)
  have sc: "(Lex w)\<lparr>lx_scanned := False\<rparr> = Lex w" "lx_state (Lex w) = Some LexStatements" "\<not> lx_scanned (Lex w)"
    by (simp_all add: Lex_def)
  obtain c v where w: "w = c # v" using assms(1) by (cases w) auto
  have n: "fst (next_rune ?l) = byte c" using ascii w by (simp add: next_rune_def)
  let ?k = "(backup (snd (next_rune ?l)))\<lparr>lx_state := Some LexKeywordOrIdentifier\<rparr>"
  let ?m = "next_while isAlphaNumeric ?k"
  have a: "adv ?k ?m" by (rule adv_next_while)
  have k: "lx_pos ?k = 0" "lx_input ?k = w" "lx_start ?k = 0" "depths ?k = (0, 0, 0)" "\<not> lx_scanned ?k"
    using adv_frame[OF adv_backup_next, of ?l] by (simp_all add: Lex_def depths_def)
  have m: "lx_pos ?m = length w" "cur ?m = w" "lx_start ?m = 0" "lx_input ?m = w"
    using next_while_word[of ?k isAlphaNumeric] ascii k adv_frame[OF a] by (simp_all add: cur_def)
  have t: "?t \<noteq> EOF" "?t \<noteq> ERROR" using keyword_plain by (auto simp: plain_def split: option.split)
  let ?e = "(emit ?t ?m)\<lparr>lx_state := Some LexStatements\<rparr>"
  have L: "lex_loop ?l = Some ?e"
    using lexStatements_alpha[of ?l] n assms(2) w sc(2,3) k(5) m(2)
    by (subst lex_loop.simps, simp, subst lex_loop.simps, simp)
      (simp add: lexKeywordOrIdentifier_def Let_def lex_loop.simps split: option.split)
  have 1: "NextItem ?l = Some (?e\<lparr>lx_lastPos := 0\<rparr>)"
    unfolding NextItem_def Let_def sc(1) L using sc(2) m(3) by simp
  let ?f = "?e\<lparr>lx_lastPos := 0, lx_scanned := False\<rparr>"
  have "lexStatements ?f = (None, emit EOF (?f\<lparr>lx_width := 0\<rparr>))"
    using m k adv_frame[OF a] by (intro lexStatements_end) (simp_all add: depths_def emit_def)
  then have "lex_loop ?f = Some ((emit EOF (?f\<lparr>lx_width := 0\<rparr>))\<lparr>lx_state := None\<rparr>)"
    by (subst lex_loop.simps) (simp add: lex_loop.simps)
  then have 2: "NextItem (?e\<lparr>lx_lastPos := 0\<rparr>) = Some ((emit EOF (?f\<lparr>lx_width := 0\<rparr>))\<lparr>lx_state := None, lx_lastPos := length w\<rparr>)"
    using m by (simp add: NextItem_def)
  have "cur ((?f\<lparr>lx_width := 0\<rparr>)) = []" by (simp add: cur_def emit_def)
  then show ?thesis using 1 2 t m by (simp add: numeral_2_eq_2)
qed

theorem word_is_one_item_witness:
  "items 2 (Lex ''Host_1'') = Some [\<lparr>Typ = ID, IPos = 0, IVal = ''Host_1''\<rparr>, \<lparr>Typ = EOF, IPos = 6, IVal = []\<rparr>]"
proof -
  have "''Host_1'' \<noteq> [] \<and> isAlpha (byte (hd ''Host_1'')) \<and> (\<forall>c \<in> set ''Host_1''. isAlphaNumeric (byte c))" by code_simp
  moreover have "map_of keyword_table (ToLower ''Host_1'') = None" by code_simp
  ultimately show ?thesis using word_is_one_item[of "''Host_1''"] by simp
qed

text \<open>
  A string that ends in a hexadecimal escape is rejected: behind the last digit \<open>lexEscape\<close> reads one
  more rune, which swallows the closing quote.
\<close>

definition hex_string :: "char \<Rightarrow> char \<Rightarrow> string" where
  "hex_string a b = [CHR 0x22, CHR 0x5C, CHR ''x'', a, b, CHR 0x22]"

lemma hex_strings_rejected:
  "list_all (\<lambda>a. list_all (\<lambda>b. items 9 (Lex (hex_string a b)) =
      Some [\<lparr>Typ = ERROR, IPos = 0, IVal = ''unterminated quoted string''\<rparr>]) HexDigits) HexDigits"
  by code_simp

theorem hex_escape_rejected:
  assumes "a \<in> set HexDigits" "b \<in> set HexDigits"
  shows "items 9 (Lex (hex_string a b)) = Some [\<lparr>Typ = ERROR, IPos = 0, IVal = ''unterminated quoted string''\<rparr>]"
  using hex_strings_rejected assms unfolding list_all_iff by blast

theorem hex_escape_rejected_witness:
  "items 9 (Lex (hex_string CHR ''4'' CHR ''1'')) = Some [\<lparr>Typ = ERROR, IPos = 0, IVal = ''unterminated quoted string''\<rparr>]"
  by (rule hex_escape_rejected) (simp_all add: HexDigits_def)

end
