(* ===== verification/Point_Kvs.thy ===== *)
theory Point_Kvs
  imports Go_Base Go_Float "HOL-Library.Multiset"
begin

section \<open>Point: key-values (point/kvs.go, point/val.go, point/key.go)\<close>

text \<open>
  A point is a measurement name with a list of key-values, tags and fields.  A \<open>*Field\<close> is a record, its value the \<open>oneof\<close> of the
  protobuf message, \<open>None\<close> for \<open>nil\<close>; lists hold distinct, non-nil fields.  The point pool is off,
  which is its default, so every branch on \<open>defaultPTPool != nil\<close> is absent.

  An \<open>any\<close> argument is a \<open>raw\<close> value; its integer kinds and float kinds differ in width only, and every one of them is
  converted to 64 bits by the code.  Array values become protobuf messages, which \<open>mk\<close>, the marshaller, makes or refuses.
\<close>

type_synonym pb_any = "string \<times> bytes"

datatype field_val =
    Field_I int | Field_U int | Field_F f64 | Field_B bool | Field_D bytes | Field_S string | Field_A pb_any

record Field =
  fKey :: string
  fIsTag :: bool
  fType :: int
  fUnit :: string
  fDesc :: string
  fVal :: "field_val option"

type_synonym KVs = "Field list"

datatype raw =
    RawInt int | RawUint int | RawFloat f64 | RawString string | RawBytes bytes | RawBool bool
  | RawArray nat | RawAny pb_any | RawNil | RawOther

type_synonym marshal = "nat \<Rightarrow> pb_any option"

definition newVal :: "marshal \<Rightarrow> raw \<Rightarrow> field_val option" where
  "newVal mk v =
     (case v of
        RawInt i \<Rightarrow> Some (Field_I i)
      | RawUint u \<Rightarrow> Some (Field_U u)
      | RawFloat f \<Rightarrow> Some (Field_F f)
      | RawString s \<Rightarrow> Some (Field_S s)
      | RawBytes b \<Rightarrow> Some (Field_D b)
      | RawBool b \<Rightarrow> Some (Field_B b)
      | RawArray n \<Rightarrow> map_option Field_A (mk n)
      | RawAny a \<Rightarrow> Some (Field_A a)
      | RawNil \<Rightarrow> None
      | RawOther \<Rightarrow> None)"

subsection \<open>Options, building one key-value\<close>

datatype KVOption = WithKVUnit string | WithKVDesc string | WithKVType int | WithKVTagSet bool

fun apply_option :: "KVOption \<Rightarrow> Field \<Rightarrow> Field" where
  "apply_option (WithKVUnit u) kv = kv\<lparr>fUnit := u\<rparr>"
| "apply_option (WithKVDesc d) kv = kv\<lparr>fDesc := d\<rparr>"
| "apply_option (WithKVType t) kv = kv\<lparr>fType := t\<rparr>"
| "apply_option (WithKVTagSet on) kv = (case fVal kv of Some (Field_S s) \<Rightarrow> kv\<lparr>fIsTag := on\<rparr> | _ \<Rightarrow> kv)"

definition doNewKV :: "marshal \<Rightarrow> string \<Rightarrow> raw \<Rightarrow> Field" where
  "doNewKV mk k v = \<lparr>fKey = k, fIsTag = False, fType = 0, fUnit = [], fDesc = [], fVal = newVal mk v\<rparr>"

definition NewKV :: "marshal \<Rightarrow> string \<Rightarrow> raw \<Rightarrow> KVOption list \<Rightarrow> Field" where
  "NewKV mk k v opts = fold apply_option opts (doNewKV mk k v)"

text \<open>Building lists from maps, in the order of iteration.\<close>

definition NewKVs :: "marshal \<Rightarrow> (string \<times> raw) list \<Rightarrow> KVs" where
  "NewKVs mk kvs = map (\<lambda>(k, v). NewKV mk k v []) kvs"

definition NewTags :: "marshal \<Rightarrow> (string \<times> string) list \<Rightarrow> KVs" where
  "NewTags mk tags = map (\<lambda>(k, v). NewKV mk k (RawString v) [WithKVTagSet True]) tags"

subsection \<open>Reading\<close>

fun Has :: "string \<Rightarrow> KVs \<Rightarrow> bool" where
  "Has k [] = False"
| "Has k (f # x) = (if fKey f = k then True else Has k x)"

fun GetKV :: "string \<Rightarrow> KVs \<Rightarrow> Field option" where
  "GetKV k [] = None"
| "GetKV k (f # x) = (if fKey f = k then Some f else GetKV k x)"

text \<open>\<open>GetS\<close> of the protobuf message: the string, or the empty one for another kind of value.\<close>

definition GetS :: "Field \<Rightarrow> string" where
  "GetS f = (case fVal f of Some (Field_S s) \<Rightarrow> s | _ \<Rightarrow> [])"

fun GetTag :: "string \<Rightarrow> KVs \<Rightarrow> string" where
  "GetTag k [] = []"
| "GetTag k (f # x) = (if \<not> fIsTag f then GetTag k x else if fKey f = k then GetS f else GetTag k x)"

fun Tags :: "KVs \<Rightarrow> KVs" where
  "Tags [] = []"
| "Tags (kv # x) = (if \<not> fIsTag kv then Tags x else kv # Tags x)"

fun Fields :: "KVs \<Rightarrow> KVs" where
  "Fields [] = []"
| "Fields (kv # x) = (if fIsTag kv then Fields x else kv # Fields x)"

fun TagCount :: "KVs \<Rightarrow> nat" where
  "TagCount [] = 0"
| "TagCount (kv # x) = (if fIsTag kv then 1 else 0) + TagCount x"

fun FieldCount :: "KVs \<Rightarrow> nat" where
  "FieldCount [] = 0"
| "FieldCount (kv # x) = (if \<not> fIsTag kv then 1 else 0) + FieldCount x"

subsection \<open>Changing\<close>

fun trim_fields :: "nat \<Rightarrow> nat \<Rightarrow> KVs \<Rightarrow> KVs" where
  "trim_fields n cnt [] = []"
| "trim_fields n cnt (kv # x) =
     (if fIsTag kv then kv # trim_fields n cnt x
      else if cnt < n then kv # trim_fields n (cnt + 1) x else trim_fields n cnt x)"

definition TrimFields :: "nat \<Rightarrow> KVs \<Rightarrow> KVs" where
  "TrimFields n x = (if length x \<le> n then x else trim_fields n 0 x)"

fun trim_tags :: "nat \<Rightarrow> nat \<Rightarrow> KVs \<Rightarrow> KVs" where
  "trim_tags n cnt [] = []"
| "trim_tags n cnt (kv # x) =
     (if \<not> fIsTag kv then kv # trim_tags n cnt x
      else if cnt < n then kv # trim_tags n (cnt + 1) x else trim_tags n cnt x)"

definition TrimTags :: "nat \<Rightarrow> KVs \<Rightarrow> KVs" where
  "TrimTags n x = trim_tags n 0 x"

fun SetKV :: "Field \<Rightarrow> KVs \<Rightarrow> KVs" where
  "SetKV kv [] = [kv]"
| "SetKV kv (f # x) = (if fKey f = fKey kv then kv # x else f # SetKV kv x)"

definition AddKV :: "Field \<Rightarrow> KVs \<Rightarrow> KVs" where
  "AddKV kv x = (if Has (fKey kv) x then x else x @ [kv])"

definition SetVal :: "marshal \<Rightarrow> string \<Rightarrow> raw \<Rightarrow> KVOption list \<Rightarrow> KVs \<Rightarrow> KVs" where
  "SetVal mk k v opts x = SetKV (NewKV mk k v opts) x"

definition AddVal :: "marshal \<Rightarrow> string \<Rightarrow> raw \<Rightarrow> KVOption list \<Rightarrow> KVs \<Rightarrow> KVs" where
  "AddVal mk k v opts x = AddKV (NewKV mk k v opts) x"

definition AddTag :: "marshal \<Rightarrow> string \<Rightarrow> string \<Rightarrow> KVs \<Rightarrow> KVs" where
  "AddTag mk k v x = AddVal mk k (RawString v) [WithKVTagSet True] x"

definition SetTag :: "marshal \<Rightarrow> string \<Rightarrow> string \<Rightarrow> KVs \<Rightarrow> KVs" where
  "SetTag mk k v x = SetVal mk k (RawString v) [WithKVTagSet True] x"

text \<open>
  The loop of \<open>Del\<close>: the last of the \<open>n\<close> elements moves into the hole, and the hole is looked at again.
  What lies behind \<open>n\<close> (set to \<open>nil\<close> in the source) is never read and cut off at the end.
\<close>

function del_loop :: "string \<Rightarrow> nat \<Rightarrow> nat \<Rightarrow> KVs \<Rightarrow> KVs" where
  "del_loop k i n x =
     (if i \<ge> n then take n x
      else if fKey (x ! i) = k then del_loop k i (n - 1) (x[i := x ! (n - 1)])
      else del_loop k (i + 1) n x)"
  by pat_completeness auto
termination by (relation "measure (\<lambda>(k, i, n, x). n - i)") auto

declare del_loop.simps [simp del]

definition Del :: "string \<Rightarrow> KVs \<Rightarrow> KVs" where
  "Del k x = del_loop k 0 (length x) x"

definition clearKV :: "Field \<Rightarrow> Field" where
  "clearKV kv = kv\<lparr>fKey := [], fIsTag := False, fType := 0, fUnit := [], fDesc := []\<rparr>"

fun resetVal :: "field_val \<Rightarrow> field_val" where
  "resetVal (Field_I i) = Field_I 0"
| "resetVal (Field_U u) = Field_U 0"
| "resetVal (Field_F f) = Field_F (FFin 0)"
| "resetVal (Field_D d) = Field_D []"
| "resetVal (Field_B b) = Field_B False"
| "resetVal (Field_S s) = Field_S []"
| "resetVal (Field_A a) = Field_A ([], [])"

definition resetKV :: "Field \<Rightarrow> Field" where
  "resetKV kv = kv\<lparr>fVal := map_option resetVal (fVal kv)\<rparr>"

definition ResetFull :: "KVs \<Rightarrow> KVs" where
  "ResetFull x = map (\<lambda>kv. resetKV (clearKV kv)) x"

definition ResetKVs :: "KVs \<Rightarrow> KVs" where
  "ResetKVs x = map (\<lambda>kv. (clearKV kv)\<lparr>fVal := None\<rparr>) x"

subsection \<open>Keys\<close>

record Key =
  kKey :: string
  kType :: string
  kDef :: raw

definition PBType :: "field_val option \<Rightarrow> string" where
  "PBType v =
     (case v of
        Some (Field_I i) \<Rightarrow> ''I'' | Some (Field_U u) \<Rightarrow> ''U'' | Some (Field_F f) \<Rightarrow> ''F'' | Some (Field_B b) \<Rightarrow> ''B''
      | Some (Field_D d) \<Rightarrow> ''D'' | Some (Field_S s) \<Rightarrow> ''S'' | Some (Field_A a) \<Rightarrow> ''A'' | None \<Rightarrow> ''X'')"

definition NewKey :: "string \<Rightarrow> string \<Rightarrow> raw list \<Rightarrow> Key" where
  "NewKey k t defs = \<lparr>kKey = k, kType = t, kDef = (case defs of d # _ \<Rightarrow> d | [] \<Rightarrow> RawNil)\<rparr>"

fun kvs_keys :: "KVs \<Rightarrow> Key list" where
  "kvs_keys [] = []"
| "kvs_keys (f # x) = (let t = PBType (fVal f) in if t = ''X'' then kvs_keys x else NewKey (fKey f) t [] # kvs_keys x)"

definition Keys :: "KVs \<Rightarrow> Key list" where
  "Keys x = [NewKey ''measurement'' ''S'' [], NewKey ''time'' ''I'' []] @ kvs_keys x"

definition Keys_Has :: "Key \<Rightarrow> Key list \<Rightarrow> bool" where
  "Keys_Has k arr = list_ex (\<lambda>item. kKey k = kKey item) arr"

definition Keys_Add :: "Key \<Rightarrow> Key list \<Rightarrow> Key list" where
  "Keys_Add k arr = (if Keys_Has k arr then arr else arr @ [k])"

definition Keys_Del :: "Key \<Rightarrow> Key list \<Rightarrow> Key list" where
  "Keys_Del k arr = filter (\<lambda>key. kKey key \<noteq> kKey k) arr"

end
