(* ===== verification/Point_Store.thy ===== *)
theory Point_Store
  imports Point_Kvs
begin

section \<open>Point: key-values as a finite map\<close>

text \<open>
  What the rest of the package relies on: a list of key-values behaves as a map from keys to fields.
  The laws are the assumptions of the locale \<open>keyed_store\<close>; a client of it sees a sequence of
  updates as the same sequence on the map.  The interpretation \<open>kvm\<close> discharges the laws for \<open>KVs\<close>.
\<close>

text \<open>An update: set, add unless present, delete.\<close>

datatype ('k, 'v) upd = SetU 'k 'v | AddU 'k 'v | DelU 'k

fun map_upd :: "('k, 'v) upd \<Rightarrow> ('k \<rightharpoonup> 'v) \<Rightarrow> ('k \<rightharpoonup> 'v)" where
  "map_upd (SetU k v) m = m(k \<mapsto> v)"
| "map_upd (AddU k v) m = (if m k = None then m(k \<mapsto> v) else m)"
| "map_upd (DelU k) m = m(k := None)"

locale keyed_store =
  fixes key :: "'v \<Rightarrow> 'k"
    and lookup :: "'k \<Rightarrow> 's \<Rightarrow> 'v option"
    and has :: "'k \<Rightarrow> 's \<Rightarrow> bool"
    and set_item :: "'v \<Rightarrow> 's \<Rightarrow> 's"
    and add_item :: "'v \<Rightarrow> 's \<Rightarrow> 's"
    and delete :: "'k \<Rightarrow> 's \<Rightarrow> 's"
    and ok :: "'s \<Rightarrow> bool"
  assumes has_lookup: "has k s \<longleftrightarrow> lookup k s \<noteq> None"
    and lookup_key: "lookup k s = Some v \<Longrightarrow> key v = k"
    and lookup_set: "lookup k (set_item v s) = (if k = key v then Some v else lookup k s)"
    and lookup_add: "lookup k (add_item v s) = (if k = key v \<and> \<not> has k s then Some v else lookup k s)"
    and lookup_delete: "ok s \<Longrightarrow> lookup k (delete j s) = (if k = j then None else lookup k s)"
    and ok_set: "ok s \<Longrightarrow> ok (set_item v s)"
    and ok_add: "ok s \<Longrightarrow> ok (add_item v s)"
    and ok_delete: "ok s \<Longrightarrow> ok (delete k s)"
begin

definition as_map :: "'s \<Rightarrow> 'k \<rightharpoonup> 'v" where
  "as_map s = (\<lambda>k. lookup k s)"

fun run :: "('k, 'v) upd \<Rightarrow> 's \<Rightarrow> 's" where
  "run (SetU k v) s = set_item v s"
| "run (AddU k v) s = add_item v s"
| "run (DelU k) s = delete k s"

fun keyed :: "('k, 'v) upd \<Rightarrow> bool" where
  "keyed (SetU k v) \<longleftrightarrow> key v = k"
| "keyed (AddU k v) \<longleftrightarrow> key v = k"
| "keyed (DelU k) \<longleftrightarrow> True"

lemma run_ok: "ok s \<Longrightarrow> ok (run u s)"
  by (cases u) (simp_all add: ok_set ok_add ok_delete)

lemma run_map:
  assumes "ok s" "keyed u"
  shows "as_map (run u s) = map_upd u (as_map s)"
  using assms by (cases u) (auto simp: as_map_def lookup_set lookup_add lookup_delete has_lookup fun_eq_iff)

lemma updates_map:
  "ok s \<Longrightarrow> list_all keyed us \<Longrightarrow>
     ok (fold run us s) \<and> as_map (fold run us s) = fold map_upd us (as_map s)"
proof (induction us arbitrary: s)
  case (Cons u us)
  then have "ok (run u s)" "as_map (run u s) = map_upd u (as_map s)" "list_all keyed us"
    by (simp_all add: run_ok run_map)
  with Cons.IH[of "run u s"] show ?case by simp
qed simp

end

subsection \<open>The laws for \<open>KVs\<close>\<close>

abbreviation keys_of :: "KVs \<Rightarrow> string list" where
  "keys_of x \<equiv> map fKey x"

definition unique_keys :: "KVs \<Rightarrow> bool" where
  "unique_keys x \<longleftrightarrow> distinct (keys_of x)"

lemma Has_iff: "Has k x \<longleftrightarrow> k \<in> set (keys_of x)"
  by (induction x) auto

lemma GetKV_map_of: "GetKV k x = map_of (map (\<lambda>f. (fKey f, f)) x) k"
  by (induction x) auto

lemma GetKV_key: "GetKV k x = Some f \<Longrightarrow> fKey f = k \<and> f \<in> set x"
  by (induction x) (auto split: if_splits)

lemma GetKV_None: "GetKV k x = None \<longleftrightarrow> \<not> Has k x"
  by (induction x) auto

lemma Has_GetKV: "Has k x \<longleftrightarrow> GetKV k x \<noteq> None"
  by (simp add: GetKV_None)

lemma GetKV_SetKV: "GetKV k (SetKV kv x) = (if k = fKey kv then Some kv else GetKV k x)"
  by (induction x) auto

lemma keys_SetKV: "keys_of (SetKV kv x) = (if Has (fKey kv) x then keys_of x else keys_of x @ [fKey kv])"
  by (induction x) auto

lemma GetKV_AddKV: "GetKV k (AddKV kv x) = (if k = fKey kv \<and> \<not> Has k x then Some kv else GetKV k x)"
  by (induction x) (auto simp: AddKV_def)

lemma GetKV_unique:
  assumes "unique_keys x"
  shows "GetKV k x = Some f \<longleftrightarrow> f \<in> set x \<and> fKey f = k"
  using assms by (induction x) (auto simp: unique_keys_def)

text \<open>\<open>Del\<close> keeps the other key-values, whatever their order.\<close>

lemma del_loop_mset:
  assumes "i \<le> n" "n \<le> length x"
  shows "mset (del_loop k i n x) = mset (take i x) + filter_mset (\<lambda>f. fKey f \<noteq> k) (mset (drop i (take n x)))"
  using assms
proof (induction k i n x rule: del_loop.induct)
  case (1 k i n x)
  show ?case
  proof (cases "i \<ge> n")
    case True
    then show ?thesis using "1.prems" by (simp add: del_loop.simps)
  next
    case lt: False
    have d: "drop i (take n x) = x ! i # drop (Suc i) (take n x)"
      using lt "1.prems" by (metis Cons_nth_drop_Suc length_take min.absorb2 not_le nth_take)
    show ?thesis
    proof (cases "fKey (x ! i) = k")
      case True
      let ?y = "x[i := x ! (n - 1)]"
      have "mset (del_loop k i n x) = mset (take i ?y) + filter_mset (\<lambda>f. fKey f \<noteq> k) (mset (drop i (take (n - 1) ?y)))"
        using "1.IH"(1)[OF lt True] lt True "1.prems" by (subst del_loop.simps) simp
      moreover have "mset (drop i (take (n - 1) ?y)) = mset (drop (Suc i) (take n x))"
      proof (cases "i = n - 1")
        case False
        then have i: "i < n - 1" using lt by simp
        have n: "take n x = take (n - 1) x @ [x ! (n - 1)]"
          using take_Suc_conv_app_nth[of "n - 1" x] lt "1.prems" by simp
        have "take (n - 1) ?y = (take (n - 1) x)[i := x ! (n - 1)]" by (simp add: take_update_swap)
        then have "drop i (take (n - 1) ?y) = x ! (n - 1) # drop (Suc i) (take (n - 1) x)"
          using i "1.prems" by (simp add: drop_update_swap Cons_nth_drop_Suc[symmetric])
        then show ?thesis using n i "1.prems"(2) by simp
      qed (use lt "1.prems" in simp)
      ultimately show ?thesis using d True by simp
    next
      case False
      then have "mset (del_loop k i n x) =
          mset (take (i + 1) x) + filter_mset (\<lambda>f. fKey f \<noteq> k) (mset (drop (i + 1) (take n x)))"
        using "1.IH"(2)[OF lt False] lt "1.prems" by (subst del_loop.simps) simp
      then show ?thesis using d False lt "1.prems" by (simp add: take_Suc_conv_app_nth)
    qed
  qed
qed

lemma mset_Del: "mset (Del k x) = filter_mset (\<lambda>f. fKey f \<noteq> k) (mset x)"
  using del_loop_mset[of 0 "length x" x k] by (simp add: Del_def)

lemma set_Del: "set (Del k x) = {f \<in> set x. fKey f \<noteq> k}"
  using arg_cong[OF mset_Del[of k x], of set_mset] by simp

lemma unique_keys_Del:
  assumes "unique_keys x"
  shows "unique_keys (Del k x)"
proof -
  have "mset (keys_of (Del k x)) = mset (keys_of (filter (\<lambda>f. fKey f \<noteq> k) x))"
    by (simp add: mset_Del)
  moreover have "distinct (keys_of (filter (\<lambda>f. fKey f \<noteq> k) x))"
    using assms by (simp add: unique_keys_def distinct_map_filter)
  ultimately show ?thesis unfolding unique_keys_def using mset_eq_imp_distinct_iff by blast
qed

lemma GetKV_Del:
  assumes "unique_keys x"
  shows "GetKV k (Del j x) = (if k = j then None else GetKV k x)"
proof (cases "GetKV k (Del j x)")
  case None
  then have "\<forall>f \<in> set x. fKey f \<noteq> j \<longrightarrow> fKey f \<noteq> k" by (auto simp: GetKV_None Has_iff set_Del)
  then have "k \<noteq> j \<Longrightarrow> \<not> Has k x" by (auto simp: Has_iff)
  with None show ?thesis by (metis GetKV_None)
next
  case (Some f)
  then have "f \<in> set x" "fKey f \<noteq> j" "fKey f = k" using GetKV_key[OF Some] by (auto simp: set_Del)
  moreover from this have "GetKV k x = Some f" by (simp add: GetKV_unique[OF assms])
  ultimately show ?thesis using Some by auto
qed

interpretation kvm: keyed_store fKey GetKV Has SetKV AddKV Del unique_keys
proof unfold_locales
  show "Has k s \<longleftrightarrow> GetKV k s \<noteq> None" for k s by (rule Has_GetKV)
  show "unique_keys s \<Longrightarrow> unique_keys (SetKV v s)" for s v
    by (auto simp: unique_keys_def keys_SetKV Has_iff)
  show "unique_keys s \<Longrightarrow> unique_keys (AddKV v s)" for s v
    by (auto simp: unique_keys_def AddKV_def Has_iff)
qed (auto simp: GetKV_SetKV GetKV_AddKV GetKV_Del unique_keys_Del dest: GetKV_key)

end
