(* ===== verification/Point_Check.thy ===== *)
theory Point_Check
  imports Point_Store
begin

section \<open>Point: configuration and checking (point/option.go, point/check.go)\<close>

text \<open>
  The checker of a point: it truncates, renames or drops key-values and records a warning for each
  change.  A warning is its type; the message text is left out.

  The source compacts the list in place while it walks over it, and looks up conflicts in the list as it
  stands then: the kept key-values in front, behind them what they overwrote or left behind, and the
  key-values not checked yet.  The model therefore passes the whole list, with the index \<open>i\<close> of the
  key-value at hand, whose key may change in place.  \<open>Panic\<close> is the failed assertion that a tag has
  a string value.
\<close>

record cfg =
  c_timestamp :: int
  c_extraTags :: KVs
  c_precheck :: bool
  c_keySorted :: bool
  c_enableDotInKey :: bool
  c_enableStrField :: bool
  c_enableU64Field :: bool
  c_maxTags :: int
  c_maxFields :: int
  c_maxTagKeyLen :: int
  c_maxFieldKeyLen :: int
  c_maxTagValLen :: int
  c_maxFieldValLen :: int
  c_maxMeasurementLen :: int
  c_maxTagKeyValComposeLen :: int
  c_disabledKeys :: "Key list"
  c_requiredKeys :: "Key list"

text \<open>\<open>reset\<close> leaves \<open>keySorted\<close> as it is.\<close>

definition reset_cfg :: "cfg \<Rightarrow> cfg" where
  "reset_cfg c = c\<lparr>c_disabledKeys := [], c_extraTags := [], c_requiredKeys := [], c_timestamp := - 1,
     c_maxFieldKeyLen := 256, c_maxFieldValLen := 32 * 1024 * 1024, c_maxFields := 1024, c_maxMeasurementLen := 1024,
     c_maxTagKeyLen := 256, c_maxTagKeyValComposeLen := 64 * 1024, c_maxTagValLen := 1024, c_maxTags := 256,
     c_precheck := True, c_enableDotInKey := True, c_enableStrField := True, c_enableU64Field := True\<rparr>"

definition newCfg :: cfg where
  "newCfg = reset_cfg \<lparr>c_timestamp = 0, c_extraTags = [], c_precheck = False, c_keySorted = False, c_enableDotInKey = False,
     c_enableStrField = False, c_enableU64Field = False, c_maxTags = 0, c_maxFields = 0, c_maxTagKeyLen = 0,
     c_maxFieldKeyLen = 0, c_maxTagValLen = 0, c_maxFieldValLen = 0, c_maxMeasurementLen = 0,
     c_maxTagKeyValComposeLen = 0, c_disabledKeys = [], c_requiredKeys = []\<rparr>"

type_synonym Option = "cfg \<Rightarrow> cfg"

definition WithMaxKVComposeLen :: "int \<Rightarrow> Option" where "WithMaxKVComposeLen n c = c\<lparr>c_maxTagKeyValComposeLen := n\<rparr>"
definition WithMaxMeasurementLen :: "int \<Rightarrow> Option" where "WithMaxMeasurementLen n c = c\<lparr>c_maxMeasurementLen := n\<rparr>"
definition WithU64Field :: "bool \<Rightarrow> Option" where "WithU64Field on c = c\<lparr>c_enableU64Field := on\<rparr>"
definition WithStrField :: "bool \<Rightarrow> Option" where "WithStrField on c = c\<lparr>c_enableStrField := on\<rparr>"
definition WithDotInKey :: "bool \<Rightarrow> Option" where "WithDotInKey on c = c\<lparr>c_enableDotInKey := on\<rparr>"
definition WithPrecheck :: "bool \<Rightarrow> Option" where "WithPrecheck on c = c\<lparr>c_precheck := on\<rparr>"
definition WithKeySorted :: "bool \<Rightarrow> Option" where "WithKeySorted on c = c\<lparr>c_keySorted := on\<rparr>"
definition WithTimestamp :: "int \<Rightarrow> Option" where "WithTimestamp ts c = c\<lparr>c_timestamp := ts\<rparr>"
definition WithExtraTags :: "marshal \<Rightarrow> (string \<times> string) list \<Rightarrow> Option" where
  "WithExtraTags mk tags c = c\<lparr>c_extraTags := NewTags mk tags\<rparr>"
definition WithMaxFieldKeyLen :: "int \<Rightarrow> Option" where "WithMaxFieldKeyLen n c = c\<lparr>c_maxFieldKeyLen := n\<rparr>"
definition WithMaxFieldValLen :: "int \<Rightarrow> Option" where "WithMaxFieldValLen n c = c\<lparr>c_maxFieldValLen := n\<rparr>"
definition WithMaxTagKeyLen :: "int \<Rightarrow> Option" where "WithMaxTagKeyLen n c = c\<lparr>c_maxTagKeyLen := n\<rparr>"
definition WithMaxTagValLen :: "int \<Rightarrow> Option" where "WithMaxTagValLen n c = c\<lparr>c_maxTagValLen := n\<rparr>"
definition WithMaxTags :: "int \<Rightarrow> Option" where "WithMaxTags n c = c\<lparr>c_maxTags := n\<rparr>"
definition WithMaxFields :: "int \<Rightarrow> Option" where "WithMaxFields n c = c\<lparr>c_maxFields := n\<rparr>"
definition WithDisabledKeys :: "Key list \<Rightarrow> Option" where
  "WithDisabledKeys ks c = c\<lparr>c_disabledKeys := c_disabledKeys c @ ks\<rparr>"
definition WithRequiredKeys :: "Key list \<Rightarrow> Option" where
  "WithRequiredKeys ks c = c\<lparr>c_requiredKeys := c_requiredKeys c @ ks\<rparr>"

text \<open>\<open>GetCfg\<close> takes a pooled configuration, which \<open>PutCfg\<close> has reset, or a new one.\<close>

definition GetCfg :: "cfg option \<Rightarrow> Option list \<Rightarrow> cfg" where
  "GetCfg pooled opts = fold (\<lambda>opt c. opt c) opts (case pooled of None \<Rightarrow> newCfg | Some c \<Rightarrow> c)"

definition KeyStatus :: Key where "KeyStatus = NewKey ''status'' ''S'' [RawString ''info'']"
definition KeyName :: Key where "KeyName = NewKey ''name'' ''S'' [RawString ''default'']"
definition KeySource :: Key where "KeySource = NewKey ''source'' ''S'' []"
definition KeyClass :: Key where "KeyClass = NewKey ''class'' ''S'' []"
definition KeyDate :: Key where "KeyDate = NewKey ''date'' ''I'' []"

definition DefaultObjectOptions :: "Option list" where
  "DefaultObjectOptions =
     [WithDisabledKeys [KeyClass, KeyDate], WithMaxFieldValLen (32 * 1024 * 1024), WithDotInKey False, WithRequiredKeys [KeyName]]"

definition CommonLoggingOptions :: "Option list" where
  "CommonLoggingOptions = [WithDotInKey False]"

definition DefaultLoggingOptions :: "Option list" where
  "DefaultLoggingOptions = CommonLoggingOptions @
     [WithDisabledKeys [KeySource, KeyDate], WithMaxFieldValLen (32 * 1024 * 1024), WithRequiredKeys [KeyStatus]]"

definition DefaultMetricOptions :: "Option list" where
  "DefaultMetricOptions = [WithStrField False, WithDotInKey True]"

definition DefaultMetricOptionsForInflux1X :: "Option list" where
  "DefaultMetricOptionsForInflux1X = [WithU64Field False]"

subsection \<open>Text\<close>

definition TrimSuffix :: "string \<Rightarrow> string \<Rightarrow> string" where
  "TrimSuffix s sfx =
     (if length sfx \<le> length s \<and> drop (length s - length sfx) s = sfx then take (length s - length sfx) s else s)"

function trimSuffixAll :: "string \<Rightarrow> string \<Rightarrow> string" where
  "trimSuffixAll s sfx = (let x = TrimSuffix s sfx in if x = s then x else trimSuffixAll x sfx)"
  by pat_completeness auto
termination
proof (relation "measure (\<lambda>(s, sfx). length s)")
  fix s sfx x
  assume "x = TrimSuffix s sfx" "x \<noteq> s"
  then show "((x, sfx), s, sfx) \<in> measure (\<lambda>(s, sfx). length s)"
    by (cases "sfx = []") (auto simp: TrimSuffix_def split: if_splits)
qed simp

declare trimSuffixAll.simps [simp del]

definition adjustKV :: "string \<Rightarrow> string" where
  "adjustKV x =
     (let y = (if x \<noteq> [] \<and> last x = CHR 0x5C then trimSuffixAll x [CHR 0x5C] else x) in
      if CHR 0x0A \<in> set y then map (\<lambda>c. if c = CHR 0x0A then CHR '' '' else c) y else y)"

definition dots_to_underscores :: "string \<Rightarrow> string" where
  "dots_to_underscores k = map (\<lambda>c. if c = CHR ''.'' then CHR ''_'' else c) k"

subsection \<open>One key-value\<close>

datatype verdict = Keep | Drop | Panic

type_synonym warns = "string list"
type_synonym check_result = "verdict \<times> KVs \<times> warns"

definition and_then :: "check_result \<Rightarrow> (KVs \<Rightarrow> warns \<Rightarrow> check_result) \<Rightarrow> check_result" where
  "and_then r f = (case r of (Keep, xs, ws) \<Rightarrow> f xs ws | (v, xs, ws) \<Rightarrow> (v, xs, ws))"

text \<open>Renaming the key-value at hand, unless the new key is in use.\<close>

definition rename :: "string \<Rightarrow> KVs \<Rightarrow> nat \<Rightarrow> warns \<Rightarrow> check_result" where
  "rename k xs i ws =
     (if Has k xs then (Drop, xs, ws @ [''invalid_tag_key'']) else (Keep, xs[i := (xs ! i)\<lparr>fKey := k\<rparr>], ws))"

definition set_val :: "field_val \<Rightarrow> KVs \<Rightarrow> nat \<Rightarrow> KVs" where
  "set_val v xs i = xs[i := (xs ! i)\<lparr>fVal := Some v\<rparr>]"

definition too_long :: "int \<Rightarrow> string \<Rightarrow> bool" where
  "too_long mx s \<longleftrightarrow> mx > 0 \<and> int (length s) > mx"

definition limit_key :: "int \<Rightarrow> string \<Rightarrow> KVs \<Rightarrow> nat \<Rightarrow> warns \<Rightarrow> check_result" where
  "limit_key mx w xs i ws =
     (let k = fKey (xs ! i) in if too_long mx k then rename (take (nat mx) k) xs i (ws @ [w]) else (Keep, xs, ws))"

definition adjust_key :: "string \<Rightarrow> KVs \<Rightarrow> nat \<Rightarrow> warns \<Rightarrow> check_result" where
  "adjust_key w xs i ws =
     (let k = fKey (xs ! i) in if adjustKV k \<noteq> k then rename (adjustKV k) xs i (ws @ [w]) else (Keep, xs, ws))"

definition undot_key :: "cfg \<Rightarrow> string \<Rightarrow> KVs \<Rightarrow> nat \<Rightarrow> warns \<Rightarrow> check_result" where
  "undot_key c w xs i ws =
     (let k = fKey (xs ! i) in
      if \<not> c_enableDotInKey c \<and> CHR ''.'' \<in> set k then rename (dots_to_underscores k) xs i (ws @ [w]) else (Keep, xs, ws))"

definition keyDisabled :: "cfg \<Rightarrow> string \<Rightarrow> warns \<Rightarrow> bool \<times> warns" where
  "keyDisabled c k ws =
     (if k = [] then (True, ws @ [''tag_disabled''])
      else if list_ex (\<lambda>item. k = kKey item) (c_disabledKeys c) then (True, ws @ [''tag_disabled''])
      else (False, ws))"

definition keyConflict :: "string \<Rightarrow> KVs \<Rightarrow> bool \<Rightarrow> warns \<Rightarrow> bool \<times> warns" where
  "keyConflict key xs skip ws =
     (if skip then (False, ws)
      else if count_list (keys_of xs) key > 1 then (True, ws @ [''key_name_conflict'']) else (False, ws))"

text \<open>The two checks on the final key.\<close>

definition key_usable :: "cfg \<Rightarrow> bool \<Rightarrow> KVs \<Rightarrow> nat \<Rightarrow> warns \<Rightarrow> check_result" where
  "key_usable c skip xs i ws =
     (case keyDisabled c (fKey (xs ! i)) ws of
        (True, ws1) \<Rightarrow> (Drop, xs, ws1)
      | (False, ws1) \<Rightarrow>
          (case keyConflict (fKey (xs ! i)) xs skip ws1 of
             (True, ws2) \<Rightarrow> (Drop, xs, ws2)
           | (False, ws2) \<Rightarrow> (Keep, xs, ws2)))"

definition check_tag_val :: "cfg \<Rightarrow> KVs \<Rightarrow> nat \<Rightarrow> warns \<Rightarrow> check_result" where
  "check_tag_val c xs i ws =
     (case fVal (xs ! i) of
        Some (Field_S s) \<Rightarrow>
          (let (s1, ws1) = (if s \<noteq> [] \<and> adjustKV s \<noteq> s then (adjustKV s, ws @ [''found_new_line_or_tail_espace'']) else (s, ws));
               (s2, ws2) = (if too_long (c_maxTagValLen c) s1
                            then (take (nat (c_maxTagValLen c)) s1, ws1 @ [''exceed_max_tag_value_len'']) else (s1, ws1))
           in (Keep, set_val (Field_S s2) xs i, ws2))
      | _ \<Rightarrow> (Panic, xs, ws))"

definition checkTag :: "cfg \<Rightarrow> bool \<Rightarrow> KVs \<Rightarrow> nat \<Rightarrow> warns \<Rightarrow> check_result" where
  "checkTag c skip xs i ws =
     and_then (limit_key (c_maxTagKeyLen c) ''exceed_max_tag_key_len'' xs i ws) (\<lambda>xs ws.
     and_then (adjust_key ''invalid_tag_key'' xs i ws) (\<lambda>xs ws.
     and_then (undot_key c ''invalid_tag_key'' xs i ws) (\<lambda>xs ws.
     and_then (key_usable c skip xs i ws) (\<lambda>xs ws.
     check_tag_val c xs i ws))))"

text \<open>A string or byte value of a field: allowed at all, and of what length.\<close>

definition check_text :: "cfg \<Rightarrow> (string \<Rightarrow> field_val) \<Rightarrow> string \<Rightarrow> KVs \<Rightarrow> nat \<Rightarrow> warns \<Rightarrow> check_result" where
  "check_text c con s xs i ws =
     (if \<not> c_enableStrField c then (Drop, xs, ws @ [''invalid_field_value_type''])
      else if too_long (c_maxFieldValLen c) s
      then (Keep, set_val (con (take (nat (c_maxFieldValLen c)) s)) xs i, ws @ [''exceed_max_field_value_len''])
      else (Keep, xs, ws))"

definition check_field_val :: "cfg \<Rightarrow> KVs \<Rightarrow> nat \<Rightarrow> warns \<Rightarrow> check_result" where
  "check_field_val c xs i ws =
     (case fVal (xs ! i) of
        Some (Field_U u) \<Rightarrow>
          (if \<not> c_enableU64Field c
           then if u > 2 ^ 63 - 1 then (Drop, xs, ws @ [''exceed_max_field_value_int''])
                else (Keep, set_val (Field_I u) xs i, ws)
           else (Keep, xs, ws))
      | Some (Field_F f) \<Rightarrow>
          (if f = FInf True then (Keep, set_val (Field_F (FFin (2 ^ 64))) xs i, ws @ [''convert_inf_to_max_value''])
           else if f = FInf False then (Keep, set_val (Field_F (FFin (- (2 ^ 63)))) xs i, ws @ [''convert_inf_to_min_value''])
           else (Keep, xs, ws))
      | Some (Field_B b) \<Rightarrow> (Keep, xs, ws)
      | Some (Field_I n) \<Rightarrow> (Keep, xs, ws)
      | Some (Field_A a) \<Rightarrow> (Keep, xs, ws)
      | None \<Rightarrow> (Keep, xs, ws @ [''nil_field''])
      | Some (Field_D d) \<Rightarrow> check_text c Field_D d xs i ws
      | Some (Field_S s) \<Rightarrow> check_text c Field_S s xs i ws)"

definition checkField :: "cfg \<Rightarrow> bool \<Rightarrow> KVs \<Rightarrow> nat \<Rightarrow> warns \<Rightarrow> check_result" where
  "checkField c skip xs i ws =
     and_then (limit_key (c_maxFieldKeyLen c) ''exceed_max_field_key_len'' xs i ws) (\<lambda>xs ws.
     and_then (undot_key c ''dot_in_key'' xs i ws) (\<lambda>xs ws.
     and_then (adjust_key ''found_new_line_or_tail_espace'' xs i ws) (\<lambda>xs ws.
     and_then (key_usable c skip xs i ws) (\<lambda>xs ws.
     check_field_val c xs i ws))))"

definition checkKV :: "cfg \<Rightarrow> bool \<Rightarrow> KVs \<Rightarrow> nat \<Rightarrow> warns \<Rightarrow> check_result" where
  "checkKV c skip xs i ws = (if fIsTag (xs ! i) then checkTag c skip xs i ws else checkField c skip xs i ws)"

subsection \<open>All key-values\<close>

text \<open>\<open>canSkipKeyConflicts\<close>: the scratch map is used from 16 key-values on, and tells whether the keys are unique.\<close>

definition canSkipKeyConflicts :: "KVs \<Rightarrow> bool" where
  "canSkipKeyConflicts xs \<longleftrightarrow> length xs \<ge> 16 \<and> distinct (keys_of xs)"

lemma and_then_frame:
  "P (fst (snd r)) \<Longrightarrow> (\<And>ys ws. P ys \<Longrightarrow> P (fst (snd (f ys ws)))) \<Longrightarrow> P (fst (snd (and_then r f)))"
  by (auto simp: and_then_def split: prod.split verdict.split)

lemma check_lengths:
  "length (fst (snd (limit_key mx w xs i ws))) = length xs"
  "length (fst (snd (adjust_key w xs i ws))) = length xs"
  "length (fst (snd (undot_key c w xs i ws))) = length xs"
  "length (fst (snd (key_usable c skip xs i ws))) = length xs"
  "length (fst (snd (check_tag_val c xs i ws))) = length xs"
  "length (fst (snd (check_field_val c xs i ws))) = length xs"
  by (auto simp: limit_key_def adjust_key_def undot_key_def key_usable_def check_tag_val_def check_field_val_def
      check_text_def rename_def set_val_def Let_def split: prod.split bool.split option.split field_val.split)

lemma checkKV_length: "length (fst (snd (checkKV c skip xs i ws))) = length xs"
  unfolding checkKV_def checkTag_def checkField_def
  by (auto intro!: and_then_frame[where P = "\<lambda>ys. length ys = length xs"] simp: check_lengths)

text \<open>The loop over the list: \<open>i\<close> is the key-value at hand and \<open>idx\<close> the number of those kept.\<close>

function check_loop :: "cfg \<Rightarrow> bool \<Rightarrow> nat \<Rightarrow> nat \<Rightarrow> KVs \<Rightarrow> warns \<Rightarrow> (nat \<times> KVs \<times> warns) option" where
  "check_loop c skip i idx xs ws =
     (if i \<ge> length xs then Some (idx, xs, ws)
      else case checkKV c skip xs i ws of
        (Panic, ys, ws1) \<Rightarrow> None
      | (Drop, ys, ws1) \<Rightarrow> check_loop c skip (i + 1) idx ys ws1
      | (Keep, ys, ws1) \<Rightarrow> check_loop c skip (i + 1) (idx + 1) (ys[idx := ys ! i]) ws1)"
  by pat_completeness auto
termination
proof (relation "measure (\<lambda>(c, skip, i, idx, xs, ws). length xs - i)")
  fix c skip i idx xs ws v p ys ws1
  assume "\<not> length xs \<le> i" "(v, p) = checkKV c skip xs i ws" "(ys, ws1) = p"
  then have "length ys = length xs" using checkKV_length[of c skip xs i ws] by (metis fst_conv snd_conv)
  with \<open>\<not> length xs \<le> i\<close>
  show "((c, skip, i + 1, idx, ys, ws1), c, skip, i, idx, xs, ws) \<in> measure (\<lambda>(c, skip, i, idx, xs, ws). length xs - i)"
    "((c, skip, i + 1, idx + 1, ys[idx := ys ! i], ws1), c, skip, i, idx, xs, ws)
      \<in> measure (\<lambda>(c, skip, i, idx, xs, ws). length xs - i)" by simp_all
qed simp

declare check_loop.simps [simp del]

fun keyMiss :: "marshal \<Rightarrow> Key list \<Rightarrow> KVs \<Rightarrow> warns \<Rightarrow> KVs \<times> warns" where
  "keyMiss mk [] kvs ws = (kvs, ws)"
| "keyMiss mk (rk # rks) kvs ws =
     (if \<not> Has (kKey rk) kvs \<and> kDef rk \<noteq> RawNil
      then keyMiss mk rks (SetKV (NewKV mk (kKey rk) (kDef rk) []) kvs) (ws @ [''add_required_kv''])
      else keyMiss mk rks kvs ws)"

text \<open>The list after the two trims, and the checks on it with the conflict scan skipped or not.\<close>

definition trim_kvs :: "cfg \<Rightarrow> KVs \<Rightarrow> warns \<Rightarrow> KVs \<times> warns" where
  "trim_kvs c kvs ws =
     (let (kvs1, ws1) = (if c_maxFields c > 0 \<and> int (FieldCount kvs) > c_maxFields c
                         then (TrimFields (nat (c_maxFields c)) kvs, ws @ [''exceed_max_fields'']) else (kvs, ws))
      in if c_maxTags c > 0 \<and> int (TagCount kvs) > c_maxTags c
         then (TrimTags (nat (c_maxTags c)) kvs1, ws1 @ [''exceed_max_fields'']) else (kvs1, ws1))"

definition check_all :: "marshal \<Rightarrow> cfg \<Rightarrow> bool \<Rightarrow> KVs \<Rightarrow> warns \<Rightarrow> (KVs \<times> warns) option" where
  "check_all mk c skip kvs ws =
     (case check_loop c skip 0 0 kvs ws of
        None \<Rightarrow> None
      | Some (idx, xs, ws1) \<Rightarrow> Some (keyMiss mk (c_requiredKeys c) (take idx xs) ws1))"

definition checkKVs :: "marshal \<Rightarrow> cfg \<Rightarrow> KVs \<Rightarrow> warns \<Rightarrow> (KVs \<times> warns) option" where
  "checkKVs mk c kvs ws =
     (case trim_kvs c kvs ws of (kvs1, ws1) \<Rightarrow> check_all mk c (canSkipKeyConflicts kvs1) kvs1 ws1)"

definition checkMeasurement :: "cfg \<Rightarrow> string \<Rightarrow> warns \<Rightarrow> string \<times> warns" where
  "checkMeasurement c m ws =
     (let (m1, ws1) = (if m = [] then (''__default'', ws @ [''invalid_measurement'']) else (m, ws))
      in if too_long (c_maxMeasurementLen c) m1
         then (take (nat (c_maxMeasurementLen c)) m1, ws1 @ [''invalid_measurement'']) else (m1, ws1))"

end
