(* ===== verification/Point_Checked.thy ===== *)
theory Point_Checked
  imports Point_Check
begin

section \<open>Point: what a checked list of key-values is\<close>

text \<open>
  Two facts about the check of a list: the scan for conflicting keys, which the code skips for wide points with unique
  keys, would have found nothing there; and what is kept is valid and has unique keys.
\<close>

subsection \<open>Other positions stay as they are\<close>

definition elsewhere :: "nat \<Rightarrow> KVs \<Rightarrow> KVs \<Rightarrow> bool" where
  "elsewhere i xs ys \<longleftrightarrow> length ys = length xs \<and> (\<forall>j. j \<noteq> i \<longrightarrow> ys ! j = xs ! j)"

lemma elsewhere_steps:
  "elsewhere i xs (fst (snd (limit_key mx w xs i ws)))"
  "elsewhere i xs (fst (snd (adjust_key w xs i ws)))"
  "elsewhere i xs (fst (snd (undot_key c w xs i ws)))"
  "elsewhere i xs (fst (snd (key_usable c skip xs i ws)))"
  "elsewhere i xs (fst (snd (check_tag_val c xs i ws)))"
  "elsewhere i xs (fst (snd (check_field_val c xs i ws)))"
  by (auto simp: elsewhere_def limit_key_def adjust_key_def undot_key_def key_usable_def check_tag_val_def check_field_val_def
      check_text_def rename_def set_val_def Let_def split: prod.split bool.split option.split field_val.split)

lemma elsewhere_trans: "elsewhere i xs ys \<Longrightarrow> elsewhere i ys zs \<Longrightarrow> elsewhere i xs zs"
  by (simp add: elsewhere_def)

lemma elsewhere_and_then:
  "elsewhere i xs (fst (snd r)) \<Longrightarrow> (\<And>ys ws. elsewhere i ys (fst (snd (f ys ws)))) \<Longrightarrow>
     elsewhere i xs (fst (snd (and_then r f)))"
  by (auto intro: and_then_frame elsewhere_trans)

lemma elsewhere_checkKV: "elsewhere i xs (fst (snd (checkKV c skip xs i ws)))"
  unfolding checkKV_def checkTag_def checkField_def
  by (auto intro!: elsewhere_and_then elsewhere_steps)

subsection \<open>Unchecked keys are unique\<close>

text \<open>\<open>sole xs j\<close>: no other position has the key at \<open>j\<close>.\<close>

definition sole :: "KVs \<Rightarrow> nat \<Rightarrow> bool" where
  "sole xs j \<longleftrightarrow> (\<forall>m < length xs. m \<noteq> j \<longrightarrow> fKey (xs ! m) \<noteq> fKey (xs ! j))"

lemma sole_count:
  assumes "j < length xs"
  shows "sole xs j \<longleftrightarrow> count_list (keys_of xs) (fKey (xs ! j)) \<le> 1"
proof -
  let ?S = "{m. m < length xs \<and> fKey (xs ! m) = fKey (xs ! j)}"
  have "length (filter (\<lambda>x. fKey (xs ! j) = x) (keys_of xs)) =
      card {m. m < length (keys_of xs) \<and> fKey (xs ! j) = keys_of xs ! m}"
    by (rule length_filter_conv_card)
  also have "{m. m < length (keys_of xs) \<and> fKey (xs ! j) = keys_of xs ! m} = ?S" by (auto simp: eq_commute)
  finally have c: "count_list (keys_of xs) (fKey (xs ! j)) = card ?S" by (simp add: count_list_eq_length_filter)
  have "card ?S \<le> 1 \<longleftrightarrow> (\<forall>x \<in> ?S. \<forall>y \<in> ?S. x = y)" using card_le_Suc0_iff_eq[of ?S] by simp
  also have "\<dots> \<longleftrightarrow> sole xs j" using assms by (auto simp: sole_def)
  finally show ?thesis using c by simp
qed

lemma distinct_sole: "distinct (keys_of xs) \<Longrightarrow> j < length xs \<Longrightarrow> sole xs j"
  by (auto simp: sole_def distinct_conv_nth)

text \<open>\<open>sole_from i xs\<close>: the keys from position \<open>i\<close> on are each in use only there.\<close>

definition sole_from :: "nat \<Rightarrow> KVs \<Rightarrow> bool" where
  "sole_from i xs \<longleftrightarrow> (\<forall>j. i \<le> j \<and> j < length xs \<longrightarrow> sole xs j)"

lemma sole_from_rename:
  assumes "sole_from i xs" "i < length xs"
  shows "sole_from i (fst (snd (rename k xs i ws)))"
proof (cases "Has k xs")
  case True
  with assms show ?thesis by (simp add: rename_def)
next
  case False
  then have "fKey (xs ! m) \<noteq> k" if "m < length xs" for m using that by (auto simp: Has_iff)
  then show ?thesis using assms False
    by (auto simp: rename_def sole_from_def sole_def nth_list_update)
qed

lemma sole_from_same_keys: "sole_from i xs \<Longrightarrow> keys_of ys = keys_of xs \<Longrightarrow> sole_from i ys"
  unfolding sole_from_def sole_def by (metis length_map nth_map)

lemma keys_set_val: "keys_of (set_val v xs i) = keys_of xs"
  by (cases "i < length xs") (simp_all add: set_val_def map_update list_update_beyond list_update_same_conv)

lemma sole_from_steps:
  assumes "sole_from i xs" "i < length xs"
  shows "sole_from i (fst (snd (limit_key mx w xs i ws)))"
    "sole_from i (fst (snd (adjust_key w xs i ws)))"
    "sole_from i (fst (snd (undot_key c w xs i ws)))"
    "sole_from i (fst (snd (key_usable c skip xs i ws)))"
    "sole_from i (fst (snd (check_tag_val c xs i ws)))"
    "sole_from i (fst (snd (check_field_val c xs i ws)))"
  using assms sole_from_rename[OF assms] sole_from_same_keys[OF assms(1) keys_set_val]
  by (auto simp: limit_key_def adjust_key_def undot_key_def key_usable_def check_tag_val_def check_field_val_def
      check_text_def Let_def split: prod.split bool.split option.split field_val.split)

subsection \<open>Skipping the scan changes nothing\<close>

lemma and_then_cong:
  "P (fst (snd r)) \<Longrightarrow> (\<And>ys ws. P ys \<Longrightarrow> f ys ws = g ys ws) \<Longrightarrow> and_then r f = and_then r g"
  by (auto simp: and_then_def split: prod.split verdict.split)

lemma key_usable_skip:
  assumes "sole_from i xs" "i < length xs"
  shows "key_usable c True xs i ws = key_usable c False xs i ws"
proof -
  have "count_list (keys_of xs) (fKey (xs ! i)) \<le> 1" using assms sole_count[OF assms(2)] by (simp add: sole_from_def)
  then have "keyConflict (fKey (xs ! i)) xs True w = keyConflict (fKey (xs ! i)) xs False w" for w
    by (simp add: keyConflict_def)
  then show ?thesis by (simp add: key_usable_def split: prod.split bool.split)
qed

lemma checkKV_skip:
  assumes "sole_from i xs" "i < length xs"
  shows "checkKV c True xs i ws = checkKV c False xs i ws"
proof -
  let ?P = "\<lambda>ys. sole_from i ys \<and> i < length ys"
  have p: "?P xs" using assms by simp
  have u: "?P ys \<Longrightarrow> and_then (key_usable c True ys i ws) g = and_then (key_usable c False ys i ws) g" for ys ws g
    by (simp add: key_usable_skip)
  show ?thesis
    unfolding checkKV_def checkTag_def checkField_def
    by (intro if_cong refl and_then_cong[where P = ?P]) (use p in \<open>simp_all add: sole_from_steps check_lengths u\<close>)
qed

lemma sole_from_checkKV:
  assumes "sole_from i xs" "i < length xs"
  shows "sole_from i (fst (snd (checkKV c skip xs i ws)))"
proof -
  let ?P = "\<lambda>ys. sole_from i ys \<and> i < length ys"
  have "?P (fst (snd (checkKV c skip xs i ws)))"
    unfolding checkKV_def checkTag_def checkField_def
    using assms by (auto intro!: and_then_frame[where P = ?P] simp: sole_from_steps check_lengths)
  then show ?thesis by simp
qed

lemma sole_from_Suc: "sole_from i xs \<Longrightarrow> sole_from (Suc i) xs"
  by (simp add: sole_from_def)

lemma sole_from_compact:
  assumes "sole_from i ys" "idx \<le> i" "i < length ys"
  shows "sole_from (Suc i) (ys[idx := ys ! i])"
  using assms by (fastforce simp: sole_from_def sole_def nth_list_update)

lemma check_loop_skip:
  assumes "sole_from i xs" "idx \<le> i"
  shows "check_loop c True i idx xs ws = check_loop c False i idx xs ws"
  using assms
proof (induction "length xs - i" arbitrary: i idx xs ws)
  case 0
  then show ?case by (simp add: check_loop.simps)
next
  case (Suc n)
  then have lt: "i < length xs" by simp
  obtain v ys ws1 where r: "checkKV c False xs i ws = (v, ys, ws1)" by (metis prod_cases3)
  have f: "sole_from i ys" "length ys = length xs"
    using sole_from_checkKV[OF Suc.prems(1) lt, of c False ws] checkKV_length[of c False xs i ws] r by simp_all
  have "check_loop c True (i + 1) (idx + 1) (ys[idx := ys ! i]) ws1 = check_loop c False (i + 1) (idx + 1) (ys[idx := ys ! i]) ws1"
    "check_loop c True (i + 1) idx ys ws1 = check_loop c False (i + 1) idx ys ws1"
    using Suc.hyps(1)[of "ys[idx := ys ! i]" "i + 1" "idx + 1"] Suc.hyps(1)[of ys "i + 1" idx] Suc.hyps(2) Suc.prems(2)
      sole_from_compact[OF f(1) Suc.prems(2)] sole_from_Suc[OF f(1)] f(2) lt by simp_all
  then show ?case using checkKV_skip[OF Suc.prems(1) lt, of c ws] r
    by (subst (1 2) check_loop.simps) (simp split: verdict.split)
qed

lemma checkKVs_scan: "checkKVs mk c kvs ws = (case trim_kvs c kvs ws of (kvs1, ws1) \<Rightarrow> check_all mk c False kvs1 ws1)"
proof -
  have "check_all mk c True xs ws = check_all mk c False xs ws" if "distinct (keys_of xs)" for xs ws
    using check_loop_skip[of 0 xs 0 c ws] that by (simp add: check_all_def sole_from_def distinct_sole)
  then have "check_all mk c (canSkipKeyConflicts xs) xs ws = check_all mk c False xs ws" for xs ws
    by (metis (full_types) canSkipKeyConflicts_def)
  then show ?thesis by (simp add: checkKVs_def)
qed

subsection \<open>What is kept is valid\<close>

lemma trimSuffixAll_backslash:
  "\<exists>t. s = trimSuffixAll s [CHR 0x5C] @ t \<and> (trimSuffixAll s [CHR 0x5C] = [] \<or> last (trimSuffixAll s [CHR 0x5C]) \<noteq> CHR 0x5C)"
proof (induction "length s" arbitrary: s rule: less_induct)
  case less
  show ?case
  proof (cases "s \<noteq> [] \<and> last s = CHR 0x5C")
    case True
    then obtain u where u: "s = u @ [CHR 0x5C]" by (metis append_butlast_last_id)
    then have "trimSuffixAll s [CHR 0x5C] = trimSuffixAll u [CHR 0x5C]"
      by (subst trimSuffixAll.simps) (simp add: TrimSuffix_def)
    moreover obtain t where "u = trimSuffixAll u [CHR 0x5C] @ t"
      "trimSuffixAll u [CHR 0x5C] = [] \<or> last (trimSuffixAll u [CHR 0x5C]) \<noteq> CHR 0x5C" using less[of u] u by auto
    ultimately show ?thesis using u by (metis append_assoc)
  next
    case False
    have "TrimSuffix s [CHR 0x5C] = s"
    proof (cases s rule: rev_cases)
      case (snoc u a)
      with False show ?thesis by (simp add: TrimSuffix_def)
    qed (simp add: TrimSuffix_def)
    then have "trimSuffixAll s [CHR 0x5C] = s" by (subst trimSuffixAll.simps) simp
    with False show ?thesis by auto
  qed
qed

text \<open>A clean text has no line break and no backslash at its end.\<close>

definition clean :: "string \<Rightarrow> bool" where
  "clean s \<longleftrightarrow> CHR 0x0A \<notin> set s \<and> (s \<noteq> [] \<longrightarrow> last s \<noteq> CHR 0x5C)"

lemma adjustKV_clean: "clean (adjustKV x)" "length (adjustKV x) \<le> length x" "set (adjustKV x) \<subseteq> insert CHR '' '' (set x)"
proof -
  define y where "y = (if x \<noteq> [] \<and> last x = CHR 0x5C then trimSuffixAll x [CHR 0x5C] else x)"
  have "\<exists>t. x = y @ t \<and> (y = [] \<or> last y \<noteq> CHR 0x5C)"
    using trimSuffixAll_backslash[of x] by (simp add: y_def)
  then obtain t where y: "x = y @ t" "y = [] \<or> last y \<noteq> CHR 0x5C" by blast
  have a: "adjustKV x = (if CHR 0x0A \<in> set y then map (\<lambda>c. if c = CHR 0x0A then CHR '' '' else c) y else y)"
    by (simp add: adjustKV_def y_def Let_def)
  show "clean (adjustKV x)" using y(2) a by (auto simp: clean_def last_map)
  show "length (adjustKV x) \<le> length x" using y(1) a by simp
  show "set (adjustKV x) \<subseteq> insert CHR '' '' (set x)" using y(1) a by auto
qed

lemma clean_dots: "clean k \<Longrightarrow> clean (dots_to_underscores k)"
  by (cases "k = []") (auto simp: clean_def dots_to_underscores_def last_map)

definition limited :: "int \<Rightarrow> string \<Rightarrow> bool" where
  "limited mx s \<longleftrightarrow> (mx > 0 \<longrightarrow> int (length s) \<le> mx)"

definition valid_key :: "cfg \<Rightarrow> int \<Rightarrow> string \<Rightarrow> bool" where
  "valid_key c mx k \<longleftrightarrow> k \<noteq> [] \<and> limited mx k \<and> clean k \<and> (c_enableDotInKey c \<or> CHR ''.'' \<notin> set k) \<and>
     (\<forall>d \<in> set (c_disabledKeys c). kKey d \<noteq> k)"

fun valid_field_val :: "cfg \<Rightarrow> field_val \<Rightarrow> bool" where
  "valid_field_val c (Field_U u) \<longleftrightarrow> c_enableU64Field c"
| "valid_field_val c (Field_F f) \<longleftrightarrow> f \<noteq> FInf True \<and> f \<noteq> FInf False"
| "valid_field_val c (Field_D d) \<longleftrightarrow> c_enableStrField c \<and> limited (c_maxFieldValLen c) d"
| "valid_field_val c (Field_S s) \<longleftrightarrow> c_enableStrField c \<and> limited (c_maxFieldValLen c) s"
| "valid_field_val c v \<longleftrightarrow> True"

definition valid_kv :: "cfg \<Rightarrow> Field \<Rightarrow> bool" where
  "valid_kv c f \<longleftrightarrow>
     (if fIsTag f
      then valid_key c (c_maxTagKeyLen c) (fKey f) \<and>
        (\<exists>s. fVal f = Some (Field_S s) \<and> CHR 0x0A \<notin> set s \<and> limited (c_maxTagValLen c) s)
      else valid_key c (c_maxFieldKeyLen c) (fKey f) \<and> (\<forall>v. fVal f = Some v \<longrightarrow> valid_field_val c v))"

lemma and_then_Keep:
  "and_then r f = (Keep, ys, w) \<longleftrightarrow> (\<exists>zs w1. r = (Keep, zs, w1) \<and> f zs w1 = (Keep, ys, w))"
  by (auto simp: and_then_def split: prod.splits verdict.splits)

text \<open>What each step leaves at position \<open>i\<close> when it keeps the key-value: only the key changes.\<close>

lemma rename_Keep: "i < length xs \<Longrightarrow> rename k xs i ws = (Keep, ys, w) \<Longrightarrow> ys ! i = (xs ! i)\<lparr>fKey := k\<rparr>"
  by (auto simp: rename_def split: if_splits)

lemma limit_key_Keep:
  assumes "i < length xs" "limit_key mx wt xs i ws = (Keep, ys, w)"
  shows "ys ! i = (xs ! i)\<lparr>fKey := fKey (ys ! i)\<rparr>" "limited mx (fKey (ys ! i))"
  using assms rename_Keep[OF assms(1)]
  by (auto simp: limit_key_def too_long_def limited_def Let_def split: if_splits)

lemma adjust_key_Keep:
  assumes "i < length xs" "adjust_key wt xs i ws = (Keep, ys, w)"
  shows "ys ! i = (xs ! i)\<lparr>fKey := adjustKV (fKey (xs ! i))\<rparr>" 
  using assms rename_Keep[OF assms(1)] by (auto simp: adjust_key_def Let_def split: if_splits)

lemma undot_key_Keep:
  assumes "i < length xs" "undot_key c wt xs i ws = (Keep, ys, w)"
  shows "ys ! i = (xs ! i)\<lparr>fKey := (if c_enableDotInKey c then fKey (xs ! i) else dots_to_underscores (fKey (xs ! i)))\<rparr>"
proof -
  have "dots_to_underscores k = k" if "CHR ''.'' \<notin> set k" for k
    using that by (induction k) (auto simp: dots_to_underscores_def)
  then show ?thesis
    using assms rename_Keep[OF assms(1)] by (auto simp: undot_key_def Let_def split: if_splits)
qed

lemma key_usable_Keep:
  assumes "key_usable c False xs i ws = (Keep, ys, w)"
  shows "ys = xs" "fKey (xs ! i) \<noteq> []" "\<forall>d \<in> set (c_disabledKeys c). kKey d \<noteq> fKey (xs ! i)"
    "count_list (keys_of xs) (fKey (xs ! i)) \<le> 1"
  using assms by (auto simp: key_usable_def keyDisabled_def keyConflict_def list_ex_iff split: if_splits)

lemma dots_gone: "CHR ''.'' \<notin> set (dots_to_underscores k)" "length (dots_to_underscores k) = length k"
  by (auto simp: dots_to_underscores_def)

lemma valid_key_tag:
  assumes "limited mx k0" "k1 = adjustKV k0" "k2 = (if c_enableDotInKey c then k1 else dots_to_underscores k1)"
    "k2 \<noteq> []" "\<forall>d \<in> set (c_disabledKeys c). kKey d \<noteq> k2"
  shows "valid_key c mx k2"
  using assms adjustKV_clean[of k0] clean_dots[of k1] dots_gone[of k1]
  by (auto simp: valid_key_def limited_def)

lemma valid_key_field:
  assumes "limited mx k0" "k1 = (if c_enableDotInKey c then k0 else dots_to_underscores k0)" "k2 = adjustKV k1"
    "k2 \<noteq> []" "\<forall>d \<in> set (c_disabledKeys c). kKey d \<noteq> k2"
  shows "valid_key c mx k2"
  using assms adjustKV_clean[of k1] dots_gone[of k0] by (auto simp: valid_key_def limited_def)

lemma keys_nth: "i < length xs \<Longrightarrow> keys_of (xs[i := (xs ! i)\<lparr>fVal := v\<rparr>]) = keys_of xs"
  by (simp add: map_update list_update_same_conv)

lemma check_tag_val_Keep:
  assumes "i < length xs" "check_tag_val c xs i ws = (Keep, ys, w)"
  shows "keys_of ys = keys_of xs" "fIsTag (ys ! i) = fIsTag (xs ! i)" "fKey (ys ! i) = fKey (xs ! i)"
    "\<exists>s. fVal (ys ! i) = Some (Field_S s) \<and> CHR 0x0A \<notin> set s \<and> limited (c_maxTagValLen c) s"
proof -
  obtain s where s: "fVal (xs ! i) = Some (Field_S s)"
    using assms(2) by (auto simp: check_tag_val_def split: option.splits field_val.splits)
  define s1 where "s1 = (if s \<noteq> [] \<and> adjustKV s \<noteq> s then adjustKV s else s)"
  define s2 where "s2 = (if too_long (c_maxTagValLen c) s1 then take (nat (c_maxTagValLen c)) s1 else s1)"
  have ys: "ys = set_val (Field_S s2) xs i"
    using assms(2) s by (auto simp: check_tag_val_def s1_def s2_def Let_def split: if_splits)
  have "clean s1"
  proof (cases "s = []")
    case False
    then have "s1 = adjustKV s" by (simp add: s1_def)
    then show ?thesis by (simp add: adjustKV_clean)
  qed (simp add: s1_def clean_def)
  then have "CHR 0x0A \<notin> set s2" "limited (c_maxTagValLen c) s2"
    by (auto simp: s2_def clean_def limited_def too_long_def dest: in_set_takeD)
  with ys assms(1) show "keys_of ys = keys_of xs" "fIsTag (ys ! i) = fIsTag (xs ! i)" "fKey (ys ! i) = fKey (xs ! i)"
    "\<exists>s. fVal (ys ! i) = Some (Field_S s) \<and> CHR 0x0A \<notin> set s \<and> limited (c_maxTagValLen c) s"
    by (simp_all add: keys_set_val) (simp_all add: set_val_def)
qed

lemma check_field_val_Keep:
  assumes "i < length xs" "check_field_val c xs i ws = (Keep, ys, w)"
  shows "keys_of ys = keys_of xs" "fIsTag (ys ! i) = fIsTag (xs ! i)" "fKey (ys ! i) = fKey (xs ! i)"
    "\<forall>v. fVal (ys ! i) = Some v \<longrightarrow> valid_field_val c v"
proof -
  have "ys = xs \<or> (\<exists>v. ys = set_val v xs i)"
    using assms(2) by (auto simp: check_field_val_def check_text_def split: option.splits field_val.splits if_splits)
  then show "keys_of ys = keys_of xs" "fIsTag (ys ! i) = fIsTag (xs ! i)" "fKey (ys ! i) = fKey (xs ! i)"
    using assms(1) by (auto simp: keys_set_val) (simp_all add: set_val_def)
  show "\<forall>v. fVal (ys ! i) = Some v \<longrightarrow> valid_field_val c v"
    using assms by (auto simp: check_field_val_def check_text_def set_val_def limited_def too_long_def
        split: option.splits field_val.splits if_splits)
qed

lemma checkKV_Keep:
  assumes "i < length xs" "checkKV c False xs i ws = (Keep, ys, w)"
  shows "valid_kv c (ys ! i) \<and> sole ys i"
proof (cases "fIsTag (xs ! i)")
  case True
  with assms(2) obtain x1 x2 x3 x4 w1 w2 w3 w4 where s0:
    "limit_key (c_maxTagKeyLen c) ''exceed_max_tag_key_len'' xs i ws = (Keep, x1, w1)"
    "adjust_key ''invalid_tag_key'' x1 i w1 = (Keep, x2, w2)" "undot_key c ''invalid_tag_key'' x2 i w2 = (Keep, x3, w3)"
    "key_usable c False x3 i w3 = (Keep, x4, w4)" "check_tag_val c x4 i w4 = (Keep, ys, w)"
    by (auto simp: checkKV_def checkTag_def and_then_Keep)
  note st = s0[unfolded key_usable_Keep(1)[OF s0(4)]]
  have len: "i < length x1" "i < length x2" "i < length x3" "length ys = length x3"
    using check_lengths(1)[of "c_maxTagKeyLen c" "''exceed_max_tag_key_len''" xs i ws]
      check_lengths(2)[of "''invalid_tag_key''" x1 i w1] check_lengths(3)[of c "''invalid_tag_key''" x2 i w2]
      check_lengths(5)[of c x3 i w4] st assms(1) by simp_all
  note k = limit_key_Keep[OF assms(1) st(1)] adjust_key_Keep[OF len(1) st(2)] undot_key_Keep[OF len(2) st(3)]
  note v = check_tag_val_Keep[OF len(3) st(5)]
  have "valid_key c (c_maxTagKeyLen c) (fKey (x3 ! i))"
    using key_usable_Keep[OF st(4)] k by (intro valid_key_tag) auto
  moreover have "fIsTag (ys ! i)" using True v(2) k by (metis Field.select_convs(2) Field.surjective Field.update_convs(1))
  moreover have "sole ys i" using sole_count[of i ys] key_usable_Keep(4)[OF st(4)] v(1,3) len by simp
  ultimately show ?thesis using v by (simp add: valid_kv_def)
next
  case False
  with assms(2) obtain x1 x2 x3 x4 w1 w2 w3 w4 where s0:
    "limit_key (c_maxFieldKeyLen c) ''exceed_max_field_key_len'' xs i ws = (Keep, x1, w1)"
    "undot_key c ''dot_in_key'' x1 i w1 = (Keep, x2, w2)" "adjust_key ''found_new_line_or_tail_espace'' x2 i w2 = (Keep, x3, w3)"
    "key_usable c False x3 i w3 = (Keep, x4, w4)" "check_field_val c x4 i w4 = (Keep, ys, w)"
    by (auto simp: checkKV_def checkField_def and_then_Keep)
  note st = s0[unfolded key_usable_Keep(1)[OF s0(4)]]
  have len: "i < length x1" "i < length x2" "i < length x3" "length ys = length x3"
    using check_lengths(1)[of "c_maxFieldKeyLen c" "''exceed_max_field_key_len''" xs i ws]
      check_lengths(3)[of c "''dot_in_key''" x1 i w1] check_lengths(2)[of "''found_new_line_or_tail_espace''" x2 i w2]
      check_lengths(6)[of c x3 i w4] st assms(1) by simp_all
  note k = limit_key_Keep[OF assms(1) st(1)] undot_key_Keep[OF len(1) st(2)] adjust_key_Keep[OF len(2) st(3)]
  note v = check_field_val_Keep[OF len(3) st(5)]
  have "valid_key c (c_maxFieldKeyLen c) (fKey (x3 ! i))"
    using key_usable_Keep[OF st(4)] k by (intro valid_key_field) auto
  moreover have "\<not> fIsTag (ys ! i)" using False v(2) k by (metis Field.select_convs(2) Field.surjective Field.update_convs(1))
  moreover have "sole ys i" using sole_count[of i ys] key_usable_Keep(4)[OF st(4)] v(1,3) len by simp
  ultimately show ?thesis using v by (simp add: valid_kv_def)
qed

lemma check_loop_valid:
  assumes "check_loop c False i idx xs ws = Some (n, zs, w)" "idx \<le> i" "i \<le> length xs"
    "\<forall>f \<in> set (take idx xs). valid_kv c f" "distinct (keys_of (take idx xs))"
  shows "(\<forall>f \<in> set (take n zs). valid_kv c f) \<and> distinct (keys_of (take n zs))"
  using assms
proof (induction "length xs - i" arbitrary: i idx xs ws)
  case 0
  then show ?case by (simp add: check_loop.simps)
next
  case (Suc m)
  then have lt: "i < length xs" by simp
  obtain v ys ws1 where r: "checkKV c False xs i ws = (v, ys, ws1)" by (metis prod_cases3)
  have e: "elsewhere i xs ys" using elsewhere_checkKV[of i xs c False ws] r by simp
  then have len: "length ys = length xs" by (simp add: elsewhere_def)
  have front: "take idx ys = take idx xs"
    using e Suc.prems(2) lt by (intro nth_take_lemma) (auto simp: elsewhere_def)
  show ?case
  proof (cases v)
    case Keep
    have g: "valid_kv c (ys ! i)" "sole ys i" using checkKV_Keep[OF lt] r Keep by auto
    let ?y = "ys[idx := ys ! i]"
    have t: "take (idx + 1) ?y = take idx ys @ [ys ! i]"
      using Suc.prems(2) lt len by (simp add: take_Suc_conv_app_nth)
    have "fKey (ys ! i) \<notin> set (keys_of (take idx ys))"
      using g(2) Suc.prems(2) lt len by (auto simp: sole_def in_set_conv_nth) (metis less_irrefl less_le_trans less_trans)
    then have "distinct (keys_of (take (idx + 1) ?y))" "\<forall>f \<in> set (take (idx + 1) ?y). valid_kv c f"
      using t front Suc.prems(4,5) g(1) by auto
    moreover have "check_loop c False (i + 1) (idx + 1) ?y ws1 = Some (n, zs, w)"
      using Suc.prems(1) r Keep lt by (subst (asm) check_loop.simps) simp
    ultimately show ?thesis using Suc.hyps(1)[of ?y "i + 1" "idx + 1" ws1] Suc.hyps(2) Suc.prems(2) lt len by simp
  next
    case Drop
    then have "check_loop c False (i + 1) idx ys ws1 = Some (n, zs, w)"
      using Suc.prems(1) r lt by (subst (asm) check_loop.simps) simp
    then show ?thesis using Suc.hyps(1)[of ys "i + 1" idx ws1] Suc.hyps(2) Suc.prems lt len front by simp
  next
    case Panic
    then show ?thesis using Suc.prems(1) r lt by (subst (asm) check_loop.simps) simp
  qed
qed

lemma keyMiss_unique: "unique_keys kvs \<Longrightarrow> unique_keys (fst (keyMiss mk rks kvs ws))"
  by (induction mk rks kvs ws rule: keyMiss.induct) (auto simp: kvm.ok_set)

lemma keyMiss_required:
  assumes "rk \<in> set rks" "kDef rk \<noteq> RawNil"
  shows "Has (kKey rk) (fst (keyMiss mk rks kvs ws))"
proof -
  have keep: "Has k kvs \<Longrightarrow> Has k (fst (keyMiss mk rks kvs ws))" for k mk rks kvs ws
    by (induction mk rks kvs ws rule: keyMiss.induct) (auto simp: Has_GetKV GetKV_SetKV)
  have new: "fKey (NewKV mk k v []) = k" for k v by (simp add: NewKV_def doNewKV_def)
  show ?thesis using assms
  proof (induction mk rks kvs ws rule: keyMiss.induct)
    case (2 mk rk' rks kvs ws)
    show ?case
    proof (cases "rk = rk'")
      case True
      have "Has (kKey rk) (SetKV (NewKV mk (kKey rk) (kDef rk) []) kvs)" by (simp add: Has_GetKV GetKV_SetKV NewKV_def doNewKV_def)
      with True 2 show ?thesis by (auto intro: keep)
    next
      case False
      with 2 show ?thesis by auto
    qed
  qed simp
qed

subsection \<open>How many are kept\<close>

text \<open>\<open>counted t x\<close> is the number of tags (\<open>t\<close>) or fields of \<open>x\<close>.\<close>

definition counted :: "bool \<Rightarrow> KVs \<Rightarrow> nat" where
  "counted t x = length (filter (\<lambda>f. fIsTag f = t) x)"

lemma counts: "TagCount x = counted True x" "FieldCount x = counted False x"
  by (induction x) (auto simp: counted_def)

lemma counted_simps: "counted t [] = 0" "counted t (f # x) = (if fIsTag f = t then 1 else 0) + counted t x"
  "counted t (x @ y) = counted t x + counted t y"
  by (simp_all add: counted_def)

lemma tag_steps:
  assumes "fIsTag (xs ! i) = t \<and> i < length xs"
  shows "fIsTag (fst (snd (limit_key mx w xs i ws)) ! i) = t"
    "fIsTag (fst (snd (adjust_key w xs i ws)) ! i) = t"
    "fIsTag (fst (snd (undot_key c w xs i ws)) ! i) = t"
    "fIsTag (fst (snd (key_usable c skip xs i ws)) ! i) = t"
    "fIsTag (fst (snd (check_tag_val c xs i ws)) ! i) = t"
    "fIsTag (fst (snd (check_field_val c xs i ws)) ! i) = t"
  using assms
  by (auto simp: limit_key_def adjust_key_def undot_key_def key_usable_def check_tag_val_def check_field_val_def
      check_text_def rename_def set_val_def Let_def split: prod.split bool.split option.split field_val.split)

lemma checkKV_tag:
  assumes "i < length xs"
  shows "fIsTag (fst (snd (checkKV c skip xs i ws)) ! i) = fIsTag (xs ! i)"
proof -
  define P where "P ys \<longleftrightarrow> fIsTag (ys ! i) = fIsTag (xs ! i) \<and> i < length ys" for ys :: KVs
  have st: "P ys \<Longrightarrow> P (fst (snd (limit_key mx w ys i ws)))" "P ys \<Longrightarrow> P (fst (snd (adjust_key w ys i ws)))"
    "P ys \<Longrightarrow> P (fst (snd (undot_key c w ys i ws)))" "P ys \<Longrightarrow> P (fst (snd (key_usable c skip ys i ws)))"
    "P ys \<Longrightarrow> P (fst (snd (check_tag_val c ys i ws)))" "P ys \<Longrightarrow> P (fst (snd (check_field_val c ys i ws)))"
    for ys mx w ws using tag_steps[of ys i "fIsTag (xs ! i)"] by (simp_all add: P_def check_lengths)
  have "P xs" using assms by (simp add: P_def)
  then have "P (fst (snd (checkKV c skip xs i ws)))"
    unfolding checkKV_def checkTag_def checkField_def by (auto intro!: and_then_frame[where P = P] st)
  then show ?thesis by (simp add: P_def)
qed

lemma check_loop_counted:
  assumes "check_loop c skip i idx xs ws = Some (n, zs, w)" "idx \<le> i" "i \<le> length xs"
  shows "counted t (take n zs) \<le> counted t (take idx xs) + counted t (drop i xs)"
  using assms
proof (induction "length xs - i" arbitrary: i idx xs ws)
  case 0
  then show ?case by (simp add: check_loop.simps)
next
  case (Suc m)
  then have lt: "i < length xs" by simp
  obtain v ys ws1 where r: "checkKV c skip xs i ws = (v, ys, ws1)" by (metis prod_cases3)
  have e: "elsewhere i xs ys" "fIsTag (ys ! i) = fIsTag (xs ! i)"
    using elsewhere_checkKV[of i xs c skip ws] checkKV_tag[OF lt, of c skip ws] r by simp_all
  then have len: "length ys = length xs" by (simp add: elsewhere_def)
  have front: "take idx ys = take idx xs"
    using e Suc.prems(2) lt by (intro nth_take_lemma) (auto simp: elsewhere_def)
  have behind: "drop (Suc i) ys = drop (Suc i) xs" using e(1) by (intro nth_equalityI) (auto simp: elsewhere_def)
  have d: "counted t (drop i xs) = (if fIsTag (xs ! i) = t then 1 else 0) + counted t (drop (Suc i) xs)"
    using lt by (simp add: Cons_nth_drop_Suc[symmetric] counted_simps)
  show ?case
  proof (cases v)
    case Keep
    let ?y = "ys[idx := ys ! i]"
    have "take (idx + 1) ?y = take idx xs @ [ys ! i]" "drop (i + 1) ?y = drop (Suc i) xs"
      using Suc.prems(2) lt len front behind by (simp_all add: take_Suc_conv_app_nth)
    moreover have "check_loop c skip (i + 1) (idx + 1) ?y ws1 = Some (n, zs, w)"
      using Suc.prems(1) r Keep lt by (subst (asm) check_loop.simps) simp
    ultimately show ?thesis using Suc.hyps(1)[of ?y "i + 1" "idx + 1" ws1] Suc.hyps(2) Suc.prems(2) lt len d e(2)
      by (auto simp: counted_simps split: if_splits)
  next
    case Drop
    then have "check_loop c skip (i + 1) idx ys ws1 = Some (n, zs, w)"
      using Suc.prems(1) r lt by (subst (asm) check_loop.simps) simp
    moreover have "m = length ys - (i + 1)" using Suc.hyps(2) len by simp
    ultimately have "counted t (take n zs) \<le> counted t (take idx ys) + counted t (drop (i + 1) ys)"
      using Suc.hyps(1) Suc.prems(2) lt len by simp
    then show ?thesis using front behind d by simp
  next
    case Panic
    then show ?thesis using Suc.prems(1) r lt by (subst (asm) check_loop.simps) simp
  qed
qed

lemma trim_fields_counted:
  "cnt \<le> n \<Longrightarrow> counted False (trim_fields n cnt x) \<le> n - cnt" "counted True (trim_fields n cnt x) = counted True x"
  by (induction n cnt x rule: trim_fields.induct) (auto simp: counted_simps)

lemma trim_tags_counted:
  "cnt \<le> n \<Longrightarrow> counted True (trim_tags n cnt x) \<le> n - cnt" "counted False (trim_tags n cnt x) = counted False x"
  by (induction n cnt x rule: trim_tags.induct) (auto simp: counted_simps)

lemma counted_le: "counted t x \<le> length x"
  by (simp add: counted_def)

lemma trim_kvs_counted:
  assumes "trim_kvs c kvs ws = (kvs1, ws1)"
  shows "c_maxFields c > 0 \<Longrightarrow> int (counted False kvs1) \<le> c_maxFields c"
    "c_maxTags c > 0 \<Longrightarrow> int (counted True kvs1) \<le> c_maxTags c"
proof -
  define k1 where "k1 = (if c_maxFields c > 0 \<and> int (FieldCount kvs) > c_maxFields c
      then TrimFields (nat (c_maxFields c)) kvs else kvs)"
  have k: "kvs1 = (if c_maxTags c > 0 \<and> int (TagCount kvs) > c_maxTags c then TrimTags (nat (c_maxTags c)) k1 else k1)"
    using assms by (auto simp: trim_kvs_def k1_def Let_def split: if_splits)
  have t: "counted True k1 = counted True kvs" by (simp add: k1_def TrimFields_def trim_fields_counted)
  have f: "int (counted False k1) \<le> c_maxFields c" if "c_maxFields c > 0"
    using that trim_fields_counted(1)[of 0 "nat (c_maxFields c)" kvs] counted_le[of False kvs]
    by (auto simp: k1_def TrimFields_def counts)
  show "int (counted False kvs1) \<le> c_maxFields c" if "c_maxFields c > 0"
    using f[OF that] by (auto simp: k TrimTags_def trim_tags_counted(2))
  show "int (counted True kvs1) \<le> c_maxTags c" if "c_maxTags c > 0"
    using that t trim_tags_counted(1)[of 0 "nat (c_maxTags c)" k1] by (auto simp: k TrimTags_def counts)
qed

subsection \<open>What is left alone\<close>

text \<open>
  A key-value that is valid and, if it is a tag, whose value does not end in a backslash, is kept as it is, and so is a list of them with unique keys within the
  limits.
\<close>

definition settled :: "cfg \<Rightarrow> Field \<Rightarrow> bool" where
  "settled c f \<longleftrightarrow> valid_kv c f \<and> (fIsTag f \<longrightarrow> (\<forall>s. fVal f = Some (Field_S s) \<longrightarrow> clean s))"

lemma adjustKV_id: "clean s \<Longrightarrow> adjustKV s = s"
  by (auto simp: adjustKV_def clean_def Let_def)

lemma key_steps_id:
  assumes "valid_key c mx (fKey (xs ! i))"
  shows "limit_key mx w xs i ws = (Keep, xs, ws)" "adjust_key w xs i ws = (Keep, xs, ws)" "undot_key c w xs i ws = (Keep, xs, ws)"
  using assms
  by (auto simp: valid_key_def limit_key_def adjust_key_def undot_key_def too_long_def limited_def adjustKV_id Let_def)

lemma key_usable_id:
  assumes "valid_key c mx (fKey (xs ! i))" "sole xs i" "i < length xs"
  shows "key_usable c False xs i ws = (Keep, xs, ws)"
proof -
  have "list_ex (\<lambda>item. fKey (xs ! i) = kKey item) (c_disabledKeys c) = False" using assms(1) by (auto simp: valid_key_def list_ex_iff)
  then show ?thesis using assms sole_count[OF assms(3)] by (simp add: key_usable_def keyDisabled_def keyConflict_def valid_key_def)
qed

lemma check_tag_val_id:
  assumes "fVal (xs ! i) = Some (Field_S s)" "clean s" "limited (c_maxTagValLen c) s"
  shows "check_tag_val c xs i ws = (Keep, xs, ws)"
proof -
  have "(xs ! i)\<lparr>fVal := Some (Field_S s)\<rparr> = xs ! i" using assms(1) by simp
  then have "set_val (Field_S s) xs i = xs" by (simp add: set_val_def del: Field.update_convs)
  then show ?thesis using assms by (auto simp: check_tag_val_def adjustKV_id too_long_def limited_def)
qed

lemma check_field_val_id:
  assumes "\<forall>v. fVal (xs ! i) = Some v \<longrightarrow> valid_field_val c v"
  shows "\<exists>w. check_field_val c xs i ws = (Keep, xs, w)"
  using assms by (cases "fVal (xs ! i)"; cases "the (fVal (xs ! i))")
    (auto simp: check_field_val_def check_text_def too_long_def limited_def)

lemma checkKV_settled:
  assumes "settled c (xs ! i)" "sole xs i" "i < length xs"
  shows "\<exists>w. checkKV c False xs i ws = (Keep, xs, w)"
proof (cases "fIsTag (xs ! i)")
  case True
  with assms(1) obtain s where s: "fVal (xs ! i) = Some (Field_S s)" "clean s" "limited (c_maxTagValLen c) s"
    and k: "valid_key c (c_maxTagKeyLen c) (fKey (xs ! i))" by (auto simp: settled_def valid_kv_def)
  show ?thesis using True
    by (simp add: checkKV_def checkTag_def and_then_def key_steps_id[OF k] key_usable_id[OF k assms(2,3)] check_tag_val_id[OF s])
next
  case False
  with assms(1) have k: "valid_key c (c_maxFieldKeyLen c) (fKey (xs ! i))" and v: "\<forall>v. fVal (xs ! i) = Some v \<longrightarrow> valid_field_val c v"
    by (auto simp: settled_def valid_kv_def)
  show ?thesis using False check_field_val_id[OF v]
    by (simp add: checkKV_def checkField_def and_then_def key_steps_id[OF k] key_usable_id[OF k assms(2,3)])
qed

lemma check_loop_settled:
  assumes "\<forall>f \<in> set xs. settled c f" "unique_keys xs" "i \<le> length xs"
  shows "\<exists>w. check_loop c False i i xs ws = Some (length xs, xs, w)"
  using assms
proof (induction "length xs - i" arbitrary: i ws)
  case 0
  then show ?case by (simp add: check_loop.simps)
next
  case (Suc m)
  then have lt: "i < length xs" by simp
  obtain w where w: "checkKV c False xs i ws = (Keep, xs, w)"
    using checkKV_settled[of c xs i ws] Suc.prems(1,2) lt distinct_sole[of xs i] by (auto simp: unique_keys_def)
  have "\<exists>w'. check_loop c False (i + 1) (i + 1) xs w = Some (length xs, xs, w')"
    using Suc.hyps(1)[of "i + 1" w] Suc.hyps(2) Suc.prems lt by simp
  then show ?case using w lt by (subst check_loop.simps) simp
qed

definition within_limits :: "cfg \<Rightarrow> KVs \<Rightarrow> bool" where
  "within_limits c x \<longleftrightarrow> (c_maxFields c > 0 \<longrightarrow> int (FieldCount x) \<le> c_maxFields c) \<and> (c_maxTags c > 0 \<longrightarrow> int (TagCount x) \<le> c_maxTags c)"

lemma trim_kvs_id: "within_limits c x \<Longrightarrow> trim_kvs c x ws = (x, ws)"
  by (auto simp: within_limits_def trim_kvs_def Let_def)

subsection \<open>The required keys\<close>

lemma SetKV_absent: "\<not> Has (fKey kv) x \<Longrightarrow> SetKV kv x = x @ [kv]"
  by (induction x) (auto simp: Has_iff)

lemma keyMiss_adds:
  "\<exists>added. fst (keyMiss mk rks kvs ws) = kvs @ map (\<lambda>rk. NewKV mk (kKey rk) (kDef rk) []) added \<and>
     (\<forall>rk \<in> set added. rk \<in> set rks \<and> kDef rk \<noteq> RawNil \<and> \<not> Has (kKey rk) kvs)"
proof (induction mk rks kvs ws rule: keyMiss.induct)
  case (2 mk rk rks kvs ws)
  show ?case
  proof (cases "\<not> Has (kKey rk) kvs \<and> kDef rk \<noteq> RawNil")
    case True
    have k: "fKey (NewKV mk (kKey rk) (kDef rk) []) = kKey rk" by (simp add: NewKV_def doNewKV_def)
    have s: "SetKV (NewKV mk (kKey rk) (kDef rk) []) kvs = kvs @ [NewKV mk (kKey rk) (kDef rk) []]" using True k by (intro SetKV_absent) simp
    from 2(1)[OF True] obtain added where a: "fst (keyMiss mk rks (kvs @ [NewKV mk (kKey rk) (kDef rk) []]) (ws @ [''add_required_kv''])) =
        kvs @ NewKV mk (kKey rk) (kDef rk) [] # map (\<lambda>rk. NewKV mk (kKey rk) (kDef rk) []) added"
      "\<forall>r \<in> set added. r \<in> set rks \<and> kDef r \<noteq> RawNil \<and> \<not> Has (kKey r) kvs"
      unfolding s by (auto simp: Has_iff)
    show ?thesis using True a by (intro exI[of _ "rk # added"]) (simp add: s)
  next
    case False
    with 2(2)[OF False] show ?thesis by auto
  qed
qed auto

lemma checkKVs_settled:
  assumes "\<forall>f \<in> set kvs. settled c f" "unique_keys kvs" "within_limits c kvs" "c_requiredKeys c = []"
  shows "\<exists>w. checkKVs mk c kvs ws = Some (kvs, w)"
  using check_loop_settled[OF assms(1,2), of 0 ws] assms(3,4) by (auto simp: checkKVs_scan trim_kvs_id check_all_def)

end
