(* ===== verification/Point_Category.thy ===== *)
theory Point_Category
  imports Go_Base "HOL-Library.Multiset"
begin

section \<open>Point: categories (point/category.go)\<close>

text \<open>
  A category is the integer of the source's \<open>iota\<close>.  The three tables are Go maps; a lookup finds the entry of a key, and a search for a value
  walks over the table in an order the language leaves open, which is the parameter \<open>order\<close>: some permutation of the table.
\<close>

type_synonym Category = nat

definition UnknownCategory :: Category where "UnknownCategory = 0"
definition DynamicDWCategory :: Category where "DynamicDWCategory = 1"
definition MetricDeprecated :: Category where "MetricDeprecated = 2"
definition Metric :: Category where "Metric = 3"
definition Network :: Category where "Network = 4"
definition KeyEvent :: Category where "KeyEvent = 5"
definition Object :: Category where "Object = 6"
definition ObjectChange :: Category where "ObjectChange = 7"
definition CustomObject :: Category where "CustomObject = 8"
definition Logging :: Category where "Logging = 9"
definition Tracing :: Category where "Tracing = 10"
definition RUM :: Category where "RUM = 11"
definition Security :: Category where "Security = 12"
definition Profiling :: Category where "Profiling = 13"
definition DialTesting :: Category where "DialTesting = 14"
definition ExecutionLog :: Category where "ExecutionLog = 15"
definition LLM :: Category where "LLM = 16"
definition AgentLLM :: Category where "AgentLLM = 17"

lemmas category_defs = UnknownCategory_def DynamicDWCategory_def MetricDeprecated_def Metric_def Network_def KeyEvent_def
  Object_def ObjectChange_def CustomObject_def Logging_def Tracing_def RUM_def Security_def Profiling_def DialTesting_def
  ExecutionLog_def LLM_def AgentLLM_def

definition categoryURL :: "(Category \<times> string) list" where
  "categoryURL =
     [(Metric, ''/v1/write/metric''), (MetricDeprecated, ''/v1/write/metrics''), (Network, ''/v1/write/network''),
      (KeyEvent, ''/v1/write/keyevent''), (Object, ''/v1/write/object''), (ObjectChange, ''/v1/write/object_change''),
      (CustomObject, ''/v1/write/custom_object''), (Logging, ''/v1/write/logging''), (Tracing, ''/v1/write/tracing''),
      (RUM, ''/v1/write/rum''), (Security, ''/v1/write/security''), (Profiling, ''/v1/write/profiling''),
      (DialTesting, ''/v1/write/dialtesting''), (ExecutionLog, ''/v1/write/siem_logging''),
      (LLM, ''/v1/write/langfuse-v2''), (AgentLLM, ''/v1/write/agent_llm''),
      (DynamicDWCategory, ''/v1/write/dynamic_dw''), (UnknownCategory, ''/v1/write/unknown'')]"

definition categoryAlias :: "(Category \<times> string) list" where
  "categoryAlias =
     [(Metric, ''M''), (Network, ''N''), (KeyEvent, ''E''), (Object, ''O''), (ObjectChange, ''OCH''), (CustomObject, ''CO''),
      (Logging, ''L''), (Tracing, ''T''), (RUM, ''R''), (Security, ''S''), (Profiling, ''P''), (DialTesting, ''DT''),
      (ExecutionLog, ''EL''), (LLM, ''LLM''), (AgentLLM, ''AL''), (UnknownCategory, ''UNKNOWN''),
      (DynamicDWCategory, ''DYNAMIC_DW'')]"

definition categoryShort :: "(Category \<times> string) list" where
  "categoryShort =
     [(Metric, ''metric''), (MetricDeprecated, ''metrics''), (Network, ''network''), (KeyEvent, ''keyevent''),
      (Object, ''object''), (ObjectChange, ''object_change''), (CustomObject, ''custom_object''), (Logging, ''logging''),
      (Tracing, ''tracing''), (RUM, ''rum''), (Security, ''security''), (Profiling, ''profiling''),
      (DialTesting, ''dialtesting''), (ExecutionLog, ''execution_log''), (LLM, ''llm''), (AgentLLM, ''agent_llm''),
      (UnknownCategory, ''unknown''), (DynamicDWCategory, ''dynamic_dw'')]"

definition lookup_or :: "(Category \<times> string) list \<Rightarrow> string \<Rightarrow> Category \<Rightarrow> string" where
  "lookup_or t def c = (case map_of t c of None \<Rightarrow> def | Some x \<Rightarrow> x)"

definition CategoryString :: "Category \<Rightarrow> string" where
  "CategoryString c = lookup_or categoryShort ''unknown'' c"

definition URL :: "Category \<Rightarrow> string" where
  "URL c = lookup_or categoryURL ''/v1/write/unknown'' c"

definition Alias :: "Category \<Rightarrow> string" where
  "Alias c = lookup_or categoryAlias ''UNKNOWN'' c"

text \<open>The search for a value, over the table in the order of iteration.\<close>

fun search :: "(Category \<times> string) list \<Rightarrow> string \<Rightarrow> Category" where
  "search [] c = UnknownCategory"
| "search ((k, v) # order) c = (if c = v then k else search order c)"

definition CatAlias :: "(Category \<times> string) list \<Rightarrow> string \<Rightarrow> Category" where
  "CatAlias order c = search order c"

definition CatString :: "(Category \<times> string) list \<Rightarrow> string \<Rightarrow> Category" where
  "CatString order c = search order c"

definition CatURL :: "(Category \<times> string) list \<Rightarrow> string \<Rightarrow> Category" where
  "CatURL order c = search order c"

definition AllCategories :: "Category list" where
  "AllCategories =
     [Metric, Network, KeyEvent, Object, ObjectChange, CustomObject, Logging, Tracing, RUM, Security, Profiling,
      DynamicDWCategory, DialTesting, ExecutionLog, LLM, AgentLLM]"

subsection \<open>Looking up and searching are inverse\<close>

lemma search_found: "distinct (map snd t) \<Longrightarrow> (c, s) \<in> set t \<Longrightarrow> search t s = c"
  by (induction t) (auto simp: rev_image_eqI)

lemma search_unknown: "s \<notin> snd ` set t \<Longrightarrow> search t s = UnknownCategory"
  by (induction t) auto

lemma search_order:
  assumes "mset order = mset t" "distinct (map snd t)"
  shows "search order s = search t s"
proof -
  have s: "set order = set t" using assms(1) by (rule mset_eq_setD)
  have "mset (map snd order) = mset (map snd t)" using assms(1) by simp
  then have d: "distinct (map snd order)" using assms(2) mset_eq_imp_distinct_iff by blast
  show ?thesis
  proof (cases "s \<in> snd ` set t")
    case True
    then obtain c where "(c, s) \<in> set t" by auto
    then show ?thesis using search_found[OF d] search_found[OF assms(2)] s by simp
  next
    case False
    then show ?thesis using s by (simp add: search_unknown)
  qed
qed

lemma search_lookup:
  assumes "mset order = mset t" "distinct (map snd t)" "c \<in> fst ` set t"
  shows "search order (lookup_or t def c) = c"
proof -
  from assms(3) obtain s where "map_of t c = Some s" by (metis map_of_eq_None_iff not_None_eq)
  then show ?thesis using search_found[OF assms(2) map_of_SomeD] search_order[OF assms(1,2)] by (simp add: lookup_or_def)
qed

lemma tables_distinct: "distinct (map snd categoryURL)" "distinct (map snd categoryAlias)" "distinct (map snd categoryShort)"
  by (simp_all add: categoryURL_def categoryAlias_def categoryShort_def)

lemma tables_keys:
  "fst ` set categoryURL = {0..17}" "fst ` set categoryShort = {0..17}" "fst ` set categoryAlias = {0..17} - {MetricDeprecated}"
proof -
  have n: "{0..17} = set [0 :: nat, 1, 2, 3, 4, 5, 6, 7, 8, 9, 10, 11, 12, 13, 14, 15, 16, 17]" by auto presburger
  show "fst ` set categoryURL = {0..17}" "fst ` set categoryShort = {0..17}" "fst ` set categoryAlias = {0..17} - {MetricDeprecated}"
    unfolding n categoryURL_def categoryShort_def categoryAlias_def category_defs by auto
qed

end
