(* ===== verification/Point_Point.thy ===== *)
theory Point_Point
  imports Point_Checked Point_Category "HOL-Library.Word"
begin

section \<open>Point: the point itself (point/point.go, point/new\_point.go, point/equal.go, point/check.go)\<close>

text \<open>
  A point with its flags and the protobuf message it wraps.  Operations that change a point return the changed one.
  \<open>sort.Sort\<close> orders key-values by key; where keys repeat the order among them is not specified, and the model keeps it.
  The value a \<open>Get\<close> returns is the field's value itself; the conversion of protobuf messages back to arrays (any.go) is left out.
\<close>


record Point =
  p_flags :: "64 word"
  p_name :: string
  p_fields :: KVs
  p_time :: int
  p_warns :: warns
  p_debugs :: "string list"

subsection \<open>Flags\<close>

definition Psent :: nat where "Psent = 1"
definition Ppb :: nat where "Ppb = 2"
definition Pcheck :: nat where "Pcheck = 4"
definition Ppooled :: nat where "Ppooled = 8"

definition SetFlag :: "nat \<Rightarrow> Point \<Rightarrow> Point" where
  "SetFlag f p = p\<lparr>p_flags := or (p_flags p) (push_bit f 1)\<rparr>"

definition ClearFlag :: "nat \<Rightarrow> Point \<Rightarrow> Point" where
  "ClearFlag f p = p\<lparr>p_flags := Bit_Operations.and (p_flags p) (not (push_bit f 1))\<rparr>"

definition HasFlag :: "nat \<Rightarrow> Point \<Rightarrow> bool" where
  "HasFlag f p \<longleftrightarrow> Bit_Operations.and (p_flags p) (push_bit f 1) > 0"

subsection \<open>Reading\<close>

fun map_tags :: "KVs \<Rightarrow> (string \<rightharpoonup> string) \<Rightarrow> (string \<rightharpoonup> string)" where
  "map_tags [] res = res"
| "map_tags (kv # x) res = map_tags x (if \<not> fIsTag kv then res else res(fKey kv \<mapsto> GetS kv))"

definition MapTags :: "Point \<Rightarrow> string \<rightharpoonup> string" where
  "MapTags p = map_tags (p_fields p) (\<lambda>k. None)"

definition Point_Tags :: "Point \<Rightarrow> KVs" where
  "Point_Tags p = Tags (p_fields p)"

definition Point_Fields :: "Point \<Rightarrow> KVs" where
  "Point_Fields p = Fields (p_fields p)"

definition get_val :: "string \<Rightarrow> Point \<Rightarrow> field_val option" where
  "get_val k p = (case GetKV k (p_fields p) of Some kv \<Rightarrow> fVal kv | None \<Rightarrow> None)"

definition GetI :: "string \<Rightarrow> Point \<Rightarrow> int \<times> bool" where
  "GetI k p = (case get_val k p of Some (Field_I i) \<Rightarrow> (i, True) | _ \<Rightarrow> (0, False))"

definition GetU :: "string \<Rightarrow> Point \<Rightarrow> int \<times> bool" where
  "GetU k p = (case get_val k p of Some (Field_U u) \<Rightarrow> (u, True) | _ \<Rightarrow> (0, False))"

definition GetF :: "string \<Rightarrow> Point \<Rightarrow> f64 \<times> bool" where
  "GetF k p = (case get_val k p of Some (Field_F f) \<Rightarrow> (f, True) | _ \<Rightarrow> (FFin 0, False))"

definition Point_GetS :: "string \<Rightarrow> Point \<Rightarrow> string \<times> bool" where
  "Point_GetS k p = (case get_val k p of Some (Field_S s) \<Rightarrow> (s, True) | _ \<Rightarrow> ([], False))"

definition GetD :: "string \<Rightarrow> Point \<Rightarrow> bytes \<times> bool" where
  "GetD k p = (case get_val k p of Some (Field_D d) \<Rightarrow> (d, True) | _ \<Rightarrow> ([], False))"

definition GetB :: "string \<Rightarrow> Point \<Rightarrow> bool \<times> bool" where
  "GetB k p = (case get_val k p of Some (Field_B b) \<Rightarrow> (b, True) | _ \<Rightarrow> (False, False))"

definition Point_GetTag :: "string \<Rightarrow> Point \<Rightarrow> string" where
  "Point_GetTag k p = GetTag k (p_fields p)"

fun val_size :: "field_val \<Rightarrow> nat" where
  "val_size (Field_I i) = 8" | "val_size (Field_F f) = 8" | "val_size (Field_U u) = 8"
| "val_size (Field_B b) = 1" | "val_size (Field_D d) = length d" | "val_size (Field_S s) = length s"
| "val_size (Field_A a) = length (fst a) + length (snd a)"

definition kv_size :: "Field \<Rightarrow> nat" where
  "kv_size kv = length (fKey kv) + 1 + 8 + 4 + length (fUnit kv) + length (fDesc kv) +
     (case fVal kv of Some v \<Rightarrow> val_size v | None \<Rightarrow> 0)"

text \<open>The size without the warnings, whose text the model does not have.\<close>

definition Point_Size :: "Point \<Rightarrow> nat" where
  "Point_Size p = length (p_name p) + sum_list (map kv_size (p_fields p)) + sum_list (map length (p_debugs p))"

subsection \<open>Changing\<close>

definition on_fields :: "(KVs \<Rightarrow> KVs) \<Rightarrow> Point \<Rightarrow> Point" where
  "on_fields f p = p\<lparr>p_fields := f (p_fields p)\<rparr>"

definition AddKVs :: "KVs \<Rightarrow> Point \<Rightarrow> Point" where "AddKVs kvs p = on_fields (fold AddKV kvs) p"
definition SetKVs :: "KVs \<Rightarrow> Point \<Rightarrow> Point" where "SetKVs kvs p = on_fields (fold AddKV kvs) p"
definition MustAddKVs :: "KVs \<Rightarrow> Point \<Rightarrow> Point" where "MustAddKVs kvs p = on_fields (fold SetKV kvs) p"

definition CopyTags :: "marshal \<Rightarrow> KVs \<Rightarrow> Point \<Rightarrow> Point" where
  "CopyTags mk kvs p = on_fields (fold (\<lambda>kv. AddTag mk (fKey kv) (GetS kv)) kvs) p"

definition MustAdd :: "marshal \<Rightarrow> string \<Rightarrow> raw \<Rightarrow> Point \<Rightarrow> Point" where "MustAdd mk k v p = on_fields (SetVal mk k v []) p"
definition Point_Add :: "marshal \<Rightarrow> string \<Rightarrow> raw \<Rightarrow> Point \<Rightarrow> Point" where "Point_Add mk k v p = on_fields (AddVal mk k v []) p"
definition Point_Set :: "marshal \<Rightarrow> string \<Rightarrow> raw \<Rightarrow> Point \<Rightarrow> Point" where "Point_Set mk k v p = on_fields (SetVal mk k v []) p"
definition Point_SetTag :: "marshal \<Rightarrow> string \<Rightarrow> string \<Rightarrow> Point \<Rightarrow> Point" where "Point_SetTag mk k v p = on_fields (SetTag mk k v) p"
definition Point_AddTag :: "marshal \<Rightarrow> string \<Rightarrow> string \<Rightarrow> Point \<Rightarrow> Point" where "Point_AddTag mk k v p = on_fields (AddTag mk k v) p"
definition Point_Del :: "string \<Rightarrow> Point \<Rightarrow> Point" where "Point_Del k p = on_fields (Del k) p"
definition AddDebug :: "string \<Rightarrow> Point \<Rightarrow> Point" where "AddDebug d p = p\<lparr>p_debugs := p_debugs p @ [d]\<rparr>"

subsection \<open>Building a checked point\<close>

text \<open>\<open>check\<close> on a point, with the warnings it adds; \<open>None\<close> is a panic.\<close>

definition check_point :: "marshal \<Rightarrow> cfg \<Rightarrow> Point \<Rightarrow> (Point \<times> warns) option" where
  "check_point mk c p =
     (case checkMeasurement c (p_name p) [] of (name, ws) \<Rightarrow>
        case checkKVs mk c (p_fields p) ws of
          None \<Rightarrow> None
        | Some (kvs, ws1) \<Rightarrow> Some (p\<lparr>p_name := name, p_fields := kvs, p_warns := p_warns p @ ws1\<rparr>, ws1))"

definition sort_kvs :: "KVs \<Rightarrow> KVs" where
  "sort_kvs x = sort_key fKey x"

text \<open>\<open>enc\<close> tells whether the encoding is protobuf, \<open>now\<close> is the clock.\<close>

definition doNewPoint :: "marshal \<Rightarrow> bool \<Rightarrow> int \<Rightarrow> string \<Rightarrow> KVs \<Rightarrow> cfg \<Rightarrow> Point option" where
  "doNewPoint mk pb now name kvs c =
     (let p0 = \<lparr>p_flags = 0, p_name = name, p_fields = kvs, p_time = 0, p_warns = [], p_debugs = []\<rparr>;
          p1 = fold (\<lambda>kv. Point_AddTag mk (fKey kv) (GetS kv)) (c_extraTags c) p0;
          p2 = (if pb then SetFlag Ppb p1 else p1);
          p3 = (if c_keySorted c then on_fields sort_kvs p2 else p2)
      in case (if c_precheck c then map_option (\<lambda>(p, ws). SetFlag Pcheck p) (check_point mk c p3) else Some p3) of
           None \<Rightarrow> None
         | Some p4 \<Rightarrow>
             Some ((if c_keySorted c then on_fields sort_kvs p4 else p4)
                     \<lparr>p_time := (if c_timestamp c \<ge> 0 then c_timestamp c else now)\<rparr>))"

definition NewPoint :: "marshal \<Rightarrow> bool \<Rightarrow> int \<Rightarrow> cfg option \<Rightarrow> string \<Rightarrow> KVs \<Rightarrow> Option list \<Rightarrow> Point option" where
  "NewPoint mk pb now pooled name kvs opts = doNewPoint mk pb now name kvs (GetCfg pooled opts)"

subsection \<open>Comparing\<close>

record eqopt =
  withMeasurement :: bool
  excludeKeys :: "string list"

definition keyExlcuded :: "eqopt \<Rightarrow> string \<Rightarrow> bool" where
  "keyExlcuded o' key = list_ex (\<lambda>k. k = key) (excludeKeys o')"

text \<open>\<open>str\<close> is the generated \<open>String\<close> method of a field.\<close>

fun kvs_all_eq :: "(Field \<Rightarrow> string) \<Rightarrow> eqopt \<Rightarrow> KVs \<Rightarrow> KVs \<Rightarrow> bool" where
  "kvs_all_eq str o' [] r = True"
| "kvs_all_eq str o' (f # l) r =
     (if keyExlcuded o' (fKey f) then kvs_all_eq str o' l r
      else case GetKV (fKey f) r of
             None \<Rightarrow> False
           | Some v \<Rightarrow> if str f \<noteq> str v then False else kvs_all_eq str o' l r)"

definition kvsEq :: "(Field \<Rightarrow> string) \<Rightarrow> eqopt \<Rightarrow> KVs \<Rightarrow> KVs \<Rightarrow> bool" where
  "kvsEq str o' l r =
     (if excludeKeys o' = [] \<and> length l \<noteq> length r then False else kvs_all_eq str o' l r)"

definition Equal :: "(Field \<Rightarrow> string) \<Rightarrow> eqopt \<Rightarrow> Point \<Rightarrow> Point \<Rightarrow> bool" where
  "Equal str o' p x =
     (if \<not> keyExlcuded o' ''time'' \<and> p_time x \<noteq> p_time p then False
      else if withMeasurement o' \<and> p_name x \<noteq> p_name p then False
      else if excludeKeys o' = [] \<and> length (Point_Tags x) \<noteq> length (Point_Tags p) then False
      else if \<not> kvsEq str o' (Point_Fields p) (Point_Fields x) then False
      else kvsEq str o' (Point_Tags p) (Point_Tags x))"

definition hashstr :: "Point \<Rightarrow> bytes" where
  "hashstr p = p_name p @ concat (map (\<lambda>t. fKey t @ GetS t) (sort_kvs (Point_Tags p)))"

subsection \<open>Checking many points\<close>

text \<open>
  \<open>CheckPoints\<close> reuses the slice of warnings of its checker: \<open>reset\<close> cuts it to length 0 and the next
  point's warnings are written over the same array, while the points keep slices of it.  The model has the arrays of the
  warnings (\<open>w_arr\<close>, each with its capacity as its length), the checker's slice \<open>w_cur\<close> as array and length, and
  Go's \<open>append\<close>: in place while there is room, otherwise into a new array of a capacity \<open>grow\<close> chooses.
\<close>

type_synonym warn_slice = "nat \<times> nat"

record warn_store =
  w_arr :: "warns list"
  w_cur :: warn_slice

definition read_slice :: "warn_store \<Rightarrow> warn_slice \<Rightarrow> warns" where
  "read_slice st s = take (snd s) (w_arr st ! fst s)"

definition append_warn :: "(nat \<Rightarrow> nat) \<Rightarrow> string \<Rightarrow> warn_store \<Rightarrow> warn_store" where
  "append_warn grow w st =
     (case w_cur st of (a, n) \<Rightarrow>
        if n < length (w_arr st ! a)
        then st\<lparr>w_arr := (w_arr st)[a := (w_arr st ! a)[n := w]], w_cur := (a, n + 1)\<rparr>
        else st\<lparr>w_arr := w_arr st @ [take n (w_arr st ! a) @ [w] @ replicate (grow (n + 1) - (n + 1)) []],
                w_cur := (length (w_arr st), n + 1)\<rparr>)"

definition reset_warns :: "warn_store \<Rightarrow> warn_store" where
  "reset_warns st = st\<lparr>w_cur := (fst (w_cur st), 0)\<rparr>"

fun CheckPoints :: "marshal \<Rightarrow> cfg \<Rightarrow> (nat \<Rightarrow> nat) \<Rightarrow> Point list \<Rightarrow> warn_store \<Rightarrow> ((Point \<times> warn_slice) list \<times> warn_store) option" where
  "CheckPoints mk c grow [] st = Some ([], st)"
| "CheckPoints mk c grow (p # pts) st =
     (case check_point mk c p of
        None \<Rightarrow> None
      | Some (q, ws) \<Rightarrow>
          let st1 = fold (append_warn grow) ws st in
          case CheckPoints mk c grow pts (reset_warns st1) of
            None \<Rightarrow> None
          | Some (arr, st2) \<Rightarrow> Some ((SetFlag Pcheck q, w_cur st1) # arr, st2))"

text \<open>The checker starts with the \<open>nil\<close> slice: an array without room.\<close>

definition no_warns :: warn_store where
  "no_warns = \<lparr>w_arr = [[]], w_cur = (0, 0)\<rparr>"

end
