(* ===== verification/Point_Total.thy ===== *)
theory Point_Total
  imports Point_Point
begin

section \<open>New points: the check does not panic\<close>

text \<open>
  The type assertions of \<open>checkTag\<close> fail on a tag whose value is not a string.  On lists without such tags, which is what \<open>AddTag\<close>, \<open>SetTag\<close> and the other
  constructors build, checking and \<open>NewPoint\<close> always return.
\<close>

definition tag_ok :: "Field \<Rightarrow> bool" where
  "tag_ok f \<longleftrightarrow> (fIsTag f \<longrightarrow> (\<exists>s. fVal f = Some (Field_S s)))"

lemma key_steps_val:
  assumes "i < length xs"
  shows "fVal (fst (snd (limit_key mx w xs i ws)) ! i) = fVal (xs ! i)"
    "fVal (fst (snd (adjust_key w xs i ws)) ! i) = fVal (xs ! i)"
    "fVal (fst (snd (undot_key c w xs i ws)) ! i) = fVal (xs ! i)"
    "fVal (fst (snd (key_usable c skip xs i ws)) ! i) = fVal (xs ! i)"
    "fst (limit_key mx w xs i ws) \<noteq> Panic" "fst (adjust_key w xs i ws) \<noteq> Panic"
    "fst (undot_key c w xs i ws) \<noteq> Panic" "fst (key_usable c skip xs i ws) \<noteq> Panic"
  using assms by (auto simp: limit_key_def adjust_key_def undot_key_def key_usable_def rename_def Let_def
      split: prod.split bool.split)

lemma and_then_no_panic:
  "fst r \<noteq> Panic \<Longrightarrow> P (fst (snd r)) \<Longrightarrow> (\<And>ys ws. P ys \<Longrightarrow> fst (f ys ws) \<noteq> Panic) \<Longrightarrow> fst (and_then r f) \<noteq> Panic"
  by (auto simp: and_then_def split: prod.split verdict.split)

lemma checkKV_no_panic:
  assumes "i < length xs" "tag_ok (xs ! i)"
  shows "fst (checkKV c skip xs i ws) \<noteq> Panic"
proof -
  define P where "P ys \<longleftrightarrow> i < length ys \<and> fVal (ys ! i) = fVal (xs ! i)" for ys :: KVs
  have x: "P xs" using assms by (simp add: P_def)
  have st: "P (fst (snd (limit_key mx w ys i ws)))" "P (fst (snd (adjust_key w ys i ws)))"
    "P (fst (snd (undot_key c w ys i ws)))" "P (fst (snd (key_usable c skip ys i ws)))"
    "fst (limit_key mx w ys i ws) \<noteq> Panic" "fst (adjust_key w ys i ws) \<noteq> Panic"
    "fst (undot_key c w ys i ws) \<noteq> Panic" "fst (key_usable c skip ys i ws) \<noteq> Panic" if "P ys" for ys mx w ws
    using key_steps_val[of i ys] that by (simp_all add: P_def check_lengths)
  have t: "fst (check_tag_val c ys i ws) \<noteq> Panic" if "P ys" "fIsTag (xs ! i)" for ys ws
    using that assms(2) by (auto simp: check_tag_val_def P_def Let_def split_def tag_ok_def)
  have f: "fst (check_field_val c ys i ws) \<noteq> Panic" for ys ws
    by (auto simp: check_field_val_def check_text_def split: option.split field_val.split)
  have "fst (checkTag c skip xs i ws) \<noteq> Panic" if "fIsTag (xs ! i)"
    unfolding checkTag_def by (intro and_then_no_panic[where P = P] st x t that)
  moreover have "fst (checkField c skip xs i ws) \<noteq> Panic"
    unfolding checkField_def by (intro and_then_no_panic[where P = P] st x f)
  ultimately show ?thesis by (simp add: checkKV_def)
qed

lemma check_loop_returns:
  assumes "\<forall>j. i \<le> j \<and> j < length xs \<longrightarrow> tag_ok (xs ! j)" "idx \<le> i"
  shows "check_loop c skip i idx xs ws \<noteq> None"
  using assms
proof (induction "length xs - i" arbitrary: i idx xs ws)
  case 0
  then show ?case by (simp add: check_loop.simps)
next
  case (Suc m)
  then have lt: "i < length xs" by simp
  obtain v ys ws1 where r: "checkKV c skip xs i ws = (v, ys, ws1)" by (metis prod_cases3)
  have e: "elsewhere i xs ys" "v \<noteq> Panic"
    using elsewhere_checkKV[of i xs c skip ws] checkKV_no_panic[OF lt, of c skip ws] Suc.prems(1) lt r by auto
  have m: "m = length ys - (i + 1)" "m = length (ys[idx := ys ! i]) - (i + 1)"
    using Suc.hyps(2) e(1) by (simp_all add: elsewhere_def)
  have "\<forall>j. i + 1 \<le> j \<and> j < length ys \<longrightarrow> tag_ok (ys ! j)" "\<forall>j. i + 1 \<le> j \<and> j < length ys \<longrightarrow> tag_ok (ys[idx := ys ! i] ! j)"
    using e(1) Suc.prems by (auto simp: elsewhere_def)
  then show ?case using Suc.hyps(1)[OF m(1), of idx ws1] Suc.hyps(1)[OF m(2), of "idx + 1" ws1] Suc.prems(2) e(2) r
    by (subst check_loop.simps) (simp split: verdict.split)
qed

lemma trim_fields_subset: "set (trim_fields n cnt x) \<subseteq> set x"
  by (induction n cnt x rule: trim_fields.induct) auto

lemma trim_tags_subset: "set (trim_tags n cnt x) \<subseteq> set x"
  by (induction n cnt x rule: trim_tags.induct) auto

lemma trim_kvs_subset:
  assumes "trim_kvs c kvs ws = (kvs1, ws1)"
  shows "set kvs1 \<subseteq> set kvs"
proof -
  have f: "set (TrimFields n x) \<subseteq> set x" for n x by (simp add: TrimFields_def trim_fields_subset)
  have t: "set (TrimTags n x) \<subseteq> set x" for n x by (simp add: TrimTags_def trim_tags_subset)
  have "\<exists>k1. (k1 = kvs \<or> k1 = TrimFields (nat (c_maxFields c)) kvs) \<and> (kvs1 = k1 \<or> kvs1 = TrimTags (nat (c_maxTags c)) k1)"
    using assms by (auto simp: trim_kvs_def Let_def split: if_splits)
  then obtain k1 where "k1 = kvs \<or> k1 = TrimFields (nat (c_maxFields c)) kvs" "kvs1 = k1 \<or> kvs1 = TrimTags (nat (c_maxTags c)) k1"
    by blast
  then have "set kvs1 \<subseteq> set k1" "set k1 \<subseteq> set kvs" using t f by (metis order_refl)+
  then show ?thesis by (rule order_trans)
qed

lemma checkKVs_returns:
  assumes "\<forall>f \<in> set kvs. tag_ok f"
  shows "checkKVs mk c kvs ws \<noteq> None"
proof -
  obtain kvs1 ws1 where t: "trim_kvs c kvs ws = (kvs1, ws1)" by fastforce
  have "set kvs1 \<subseteq> set kvs" by (rule trim_kvs_subset[OF t])
  then have "\<forall>j. 0 \<le> j \<and> j < length kvs1 \<longrightarrow> tag_ok (kvs1 ! j)" using assms by (meson nth_mem subsetD)
  from check_loop_returns[OF this, of 0] t show ?thesis
    by (auto simp: checkKVs_def check_all_def split: option.split)
qed

subsection \<open>Lists built by the constructors\<close>

abbreviation tags_ok :: "KVs \<Rightarrow> bool" where "tags_ok x \<equiv> list_all tag_ok x"

lemma tag_ok_NewKV [simp]: "tag_ok (NewKV mk k v [])" "tag_ok (NewKV mk k (RawString s) [WithKVTagSet True])"
  by (simp_all add: tag_ok_def NewKV_def doNewKV_def split: option.split field_val.split)

lemma tags_ok_SetKV: "tags_ok x \<Longrightarrow> tag_ok kv \<Longrightarrow> tags_ok (SetKV kv x)"
  by (induction x) auto

lemma tags_ok_adds [simp]:
  "tags_ok x \<Longrightarrow> tags_ok (AddTag mk k s x)" "tags_ok x \<Longrightarrow> tags_ok (AddVal mk k v [] x)" "tags_ok x \<Longrightarrow> tags_ok (SetTag mk k s x)"
  by (simp_all add: AddTag_def AddVal_def AddKV_def SetTag_def SetVal_def tags_ok_SetKV)

lemma tags_ok_fold: "(\<And>e y. tags_ok y \<Longrightarrow> tags_ok (f e y)) \<Longrightarrow> tags_ok x \<Longrightarrow> tags_ok (fold f es x)"
  by (induction es arbitrary: x) auto

lemma check_point_returns: "tags_ok (p_fields p) \<Longrightarrow> check_point mk c p \<noteq> None"
  using checkKVs_returns[of "p_fields p" mk c "snd (checkMeasurement c (p_name p) [])"]
  by (auto simp: check_point_def list_all_iff split: option.split prod.split)

lemma tags_ok_extra: "tags_ok (p_fields p) \<Longrightarrow> tags_ok (p_fields (fold (\<lambda>kv. Point_AddTag mk (fKey kv) (GetS kv)) es p))"
  by (induction es arbitrary: p) (auto simp: Point_AddTag_def on_fields_def)

lemma doNewPoint_returns:
  assumes "tags_ok kvs"
  shows "\<exists>p. doNewPoint mk pb clk name kvs c = Some p"
proof -
  define p1 where "p1 = fold (\<lambda>kv. Point_AddTag mk (fKey kv) (GetS kv)) (c_extraTags c)
    \<lparr>p_flags = 0, p_name = name, p_fields = kvs, p_time = 0, p_warns = [], p_debugs = []\<rparr>"
  define p2 where "p2 = (if pb then SetFlag Ppb p1 else p1)"
  define p3 where "p3 = (if c_keySorted c then on_fields sort_kvs p2 else p2)"
  have "tags_ok (p_fields p1)" using assms by (simp add: p1_def tags_ok_extra)
  then have "tags_ok (p_fields p3)" by (simp add: p3_def p2_def SetFlag_def on_fields_def sort_kvs_def list_all_iff)
  then show ?thesis using check_point_returns[of p3 mk c]
    unfolding doNewPoint_def Let_def p1_def[symmetric] p2_def[symmetric] p3_def[symmetric] by (auto split: option.split)
qed

lemma NewPoint_returns: "\<forall>f \<in> set kvs. tag_ok f \<Longrightarrow> \<exists>p. NewPoint mk pb clk pooled name kvs opts = Some p"
  using doNewPoint_returns[of kvs] by (simp add: NewPoint_def list_all_iff)

end
