(* ===== verification/Point_Props.thy ===== *)
theory Point_Props
  imports Point_Total
begin

section \<open>Properties of points\<close>

text \<open>The properties of the point package: key-values as a map, checking, categories, equality.\<close>

fun kv_update :: "(string, Field) upd \<Rightarrow> KVs \<Rightarrow> KVs" where
  "kv_update (SetU k kv) x = SetKV kv x"
| "kv_update (AddU k kv) x = AddKV kv x"
| "kv_update (DelU k) x = Del k x"

fun upd_keyed :: "(string, Field) upd \<Rightarrow> bool" where
  "upd_keyed (SetU k kv) \<longleftrightarrow> fKey kv = k"
| "upd_keyed (AddU k kv) \<longleftrightarrow> fKey kv = k"
| "upd_keyed (DelU k) \<longleftrightarrow> True"

lemma kv_update_run: "kv_update u = kvm.run u" "upd_keyed u = kvm.keyed u"
  by (cases u; auto simp: fun_eq_iff)+

text \<open>
  C13.  A list of key-values with unique keys is a map: any sequence of \<open>SetKV\<close>, \<open>AddKV\<close> and \<open>Del\<close> keeps the keys
  unique, and afterwards \<open>Get\<close> answers as the same sequence of updates on a map from keys to fields.
\<close>

theorem kvs_refine_map:
  assumes "unique_keys x" "list_all upd_keyed us"
  shows "unique_keys (fold kv_update us x) \<and>
     (\<lambda>k. GetKV k (fold kv_update us x)) = fold map_upd us (\<lambda>k. GetKV k x)"
proof -
  have e: "kv_update = kvm.run" "upd_keyed = kvm.keyed" by (rule ext, rule kv_update_run)+
  show ?thesis using kvm.updates_map[OF assms(1), of us] assms(2) unfolding e kvm.as_map_def by blast
qed

definition ex_kv :: "string \<Rightarrow> int \<Rightarrow> Field" where
  "ex_kv k i = \<lparr>fKey = k, fIsTag = False, fType = 0, fUnit = [], fDesc = [], fVal = Some (Field_I i)\<rparr>"

theorem kvs_refine_map_witness:
  "GetKV ''b'' (fold kv_update [AddU ''a'' (ex_kv ''a'' 3), DelU ''a'', SetU ''b'' (ex_kv ''b'' 2)] [ex_kv ''a'' 1, ex_kv ''b'' 1])
     = Some (ex_kv ''b'' 2)"
proof -
  let ?us = "[AddU ''a'' (ex_kv ''a'' 3), DelU ''a'', SetU ''b'' (ex_kv ''b'' 2)]"
  have "unique_keys [ex_kv ''a'' 1, ex_kv ''b'' 1]" "list_all upd_keyed ?us" by (simp_all add: unique_keys_def ex_kv_def)
  from conjunct2[OF kvs_refine_map[OF this]] show ?thesis by (metis (no_types, lifting) fold_simps map_upd.simps(1) fun_upd_same)
qed

text \<open>
  \<open>Del\<close> removes every key-value of the key and keeps all others, as a multiset: it moves the
  last key-value into each hole, so their order may change.
\<close>

theorem Del_keeps_others:
  "mset (Del k x) = filter_mset (\<lambda>f. fKey f \<noteq> k) (mset x) \<and> \<not> Has k (Del k x)"
  by (auto simp: mset_Del Has_iff set_Del)

text \<open>
  C14.  What the check of a list of key-values returns: a checked part, followed by the defaults of required keys that the checked part lacks.  The keys are unique
  and every required key that has a default is present.  In the checked part every key and value is valid for the configuration and there
  are no more tags and fields than it allows; a list of key-values that are within these limits, have unique keys and are valid, and whose tag values
  do not end in a backslash, is the checked part as it is.  The added defaults are neither checked nor counted, and a required key without a default is not added.
\<close>

theorem checked_kvs_valid:
  assumes "checkKVs mk c kvs ws = Some (kvs', ws')"
  shows "unique_keys kvs' \<and>
     (\<forall>rk \<in> set (c_requiredKeys c). kDef rk \<noteq> RawNil \<longrightarrow> Has (kKey rk) kvs') \<and>
     (\<exists>core added. kvs' = core @ map (\<lambda>rk. NewKV mk (kKey rk) (kDef rk) []) added \<and>
        (\<forall>rk \<in> set added. rk \<in> set (c_requiredKeys c) \<and> kDef rk \<noteq> RawNil \<and> \<not> Has (kKey rk) core) \<and>
        (\<forall>f \<in> set core. valid_kv c f) \<and>
        (c_maxFields c > 0 \<longrightarrow> int (FieldCount core) \<le> c_maxFields c) \<and>
        (c_maxTags c > 0 \<longrightarrow> int (TagCount core) \<le> c_maxTags c) \<and>
        ((\<forall>f \<in> set kvs. settled c f) \<and> unique_keys kvs \<and> within_limits c kvs \<longrightarrow> core = kvs))"
proof -
  obtain kvs1 ws1 where t: "trim_kvs c kvs ws = (kvs1, ws1)" by fastforce
  with assms obtain n zs w where l: "check_loop c False 0 0 kvs1 ws1 = Some (n, zs, w)"
    and k: "keyMiss mk (c_requiredKeys c) (take n zs) w = (kvs', ws')"
    unfolding checkKVs_scan by (auto simp: check_all_def split: option.splits)
  have v: "\<forall>f \<in> set (take n zs). valid_kv c f" "unique_keys (take n zs)"
    using check_loop_valid[OF l] by (auto simp: unique_keys_def)
  have "counted t (take n zs) \<le> counted t kvs1" for t using check_loop_counted[OF l, of t] by (simp add: counted_simps)
  then have "c_maxFields c > 0 \<Longrightarrow> int (counted False (take n zs)) \<le> c_maxFields c"
    "c_maxTags c > 0 \<Longrightarrow> int (counted True (take n zs)) \<le> c_maxTags c"
    using trim_kvs_counted[OF t] by (meson of_nat_le_iff order_trans)+
  moreover have "take n zs = kvs" if "(\<forall>f \<in> set kvs. settled c f) \<and> unique_keys kvs \<and> within_limits c kvs"
    using that check_loop_settled[of kvs c 0 ws] l t by (auto simp: trim_kvs_id)
  moreover obtain added where "kvs' = take n zs @ map (\<lambda>rk. NewKV mk (kKey rk) (kDef rk) []) added"
    "\<forall>rk \<in> set added. rk \<in> set (c_requiredKeys c) \<and> kDef rk \<noteq> RawNil \<and> \<not> Has (kKey rk) (take n zs)"
    using keyMiss_adds[of mk "c_requiredKeys c" "take n zs" w] k by auto
  ultimately have "\<exists>core added. kvs' = core @ map (\<lambda>rk. NewKV mk (kKey rk) (kDef rk) []) added \<and>
        (\<forall>rk \<in> set added. rk \<in> set (c_requiredKeys c) \<and> kDef rk \<noteq> RawNil \<and> \<not> Has (kKey rk) core) \<and>
        (\<forall>f \<in> set core. valid_kv c f) \<and>
        (c_maxFields c > 0 \<longrightarrow> int (FieldCount core) \<le> c_maxFields c) \<and>
        (c_maxTags c > 0 \<longrightarrow> int (TagCount core) \<le> c_maxTags c) \<and>
        ((\<forall>f \<in> set kvs. settled c f) \<and> unique_keys kvs \<and> within_limits c kvs \<longrightarrow> core = kvs)"
    using v(1) unfolding counts by blast
  moreover have "unique_keys kvs'" using keyMiss_unique[OF v(2), of mk "c_requiredKeys c" w] k by simp
  moreover have "\<forall>rk \<in> set (c_requiredKeys c). kDef rk \<noteq> RawNil \<longrightarrow> Has (kKey rk) kvs'"
    using keyMiss_required[of _ "c_requiredKeys c" mk "take n zs" w] k by simp
  ultimately show ?thesis by blast
qed

definition ex_cfg :: cfg where
  "ex_cfg = WithMaxTagKeyLen 3 (WithDotInKey False newCfg)"

definition ex_tag :: "string \<Rightarrow> string \<Rightarrow> Field" where
  "ex_tag k s = \<lparr>fKey = k, fIsTag = True, fType = 0, fUnit = [], fDesc = [], fVal = Some (Field_S s)\<rparr>"

definition no_arrays :: marshal where
  "no_arrays n = None"

definition ex_required :: cfg where
  "ex_required = WithRequiredKeys [KeyStatus] ex_cfg"

theorem checked_kvs_valid_witness:
  "\<exists>kvs' ws'. checkKVs no_arrays ex_required [ex_tag ''a.bcd'' ''v'', ex_kv ''x'' 1, ex_kv ''x'' 2] [] = Some (kvs', ws') \<and>
     unique_keys kvs' \<and> Has ''status'' kvs'"
proof -
  have "checkKVs no_arrays ex_required [ex_tag ''a.bcd'' ''v'', ex_kv ''x'' 1, ex_kv ''x'' 2] [] \<noteq> None" by code_simp
  then obtain r where r: "checkKVs no_arrays ex_required [ex_tag ''a.bcd'' ''v'', ex_kv ''x'' 1, ex_kv ''x'' 2] [] = Some (fst r, snd r)" by auto
  have k: "KeyStatus \<in> set (c_requiredKeys ex_required)" "kDef KeyStatus \<noteq> RawNil" "kKey KeyStatus = ''status''"
    by (simp_all add: ex_required_def WithRequiredKeys_def KeyStatus_def NewKey_def)
  from checked_kvs_valid[OF r] have "unique_keys (fst r)" "Has (kKey KeyStatus) (fst r)" using k(1,2) by blast+
  with r k(3) show ?thesis by (intro exI[of _ "fst r"] exI[of _ "snd r"]) simp
qed

text \<open>
  Skipping the quadratic scan for conflicting keys on wide points with unique keys changes nothing: \<open>checkKVs\<close>
  returns the same key-values and the same warnings as it does with the scan.
\<close>

theorem conflict_scan_skipped_soundly:
  "checkKVs mk c kvs ws = (case trim_kvs c kvs ws of (kvs1, ws1) \<Rightarrow> check_all mk c False kvs1 ws1)"
  by (rule checkKVs_scan)

text \<open>
  Categories survive the trip through their names: for every category, whatever order the tables are walked in, its
  short name and its URL are found again, and its alias too unless it is the deprecated metric category, which has none.
\<close>

theorem category_names_round_trip:
  assumes "c \<le> 17" "mset so = mset categoryShort" "mset uo = mset categoryURL" "mset ao = mset categoryAlias"
  shows "CatString so (CategoryString c) = c \<and> CatURL uo (URL c) = c \<and>
     CatAlias ao (Alias c) = (if c = MetricDeprecated then UnknownCategory else c)"
proof -
  have m: "c \<in> fst ` set categoryShort" "c \<in> fst ` set categoryURL" "c \<noteq> MetricDeprecated \<Longrightarrow> c \<in> fst ` set categoryAlias"
    using assms(1) by (simp_all add: tables_keys)
  have "Alias MetricDeprecated = ''UNKNOWN''"
    by (simp add: Alias_def lookup_or_def categoryAlias_def category_defs)
  moreover have "CatAlias ao ''UNKNOWN'' = UnknownCategory"
    unfolding CatAlias_def using search_found[OF tables_distinct(2), of UnknownCategory "''UNKNOWN''"]
      search_order[OF assms(4) tables_distinct(2)] by (simp add: categoryAlias_def)
  ultimately show ?thesis
    using search_lookup[OF assms(2) tables_distinct(3) m(1)] search_lookup[OF assms(3) tables_distinct(1) m(2)]
      search_lookup[OF assms(4) tables_distinct(2) m(3)]
    by (auto simp: CatString_def CategoryString_def CatURL_def URL_def CatAlias_def Alias_def)
qed

theorem category_names_round_trip_witness:
  "CatString (rev categoryShort) (CategoryString Tracing) = Tracing"
  using category_names_round_trip[of Tracing "rev categoryShort" categoryURL categoryAlias] by (simp add: category_defs)

text \<open>
  C15.  On key-values whose tags have string values the check never panics and always ends, and a new point comes out of \<open>NewPoint\<close>, whatever the options.
\<close>

theorem check_never_panics:
  assumes "\<forall>f \<in> set kvs. tag_ok f"
  shows "checkKVs mk c kvs ws \<noteq> None \<and> (\<exists>p. NewPoint mk pb clk pooled name kvs opts = Some p)"
  using checkKVs_returns[OF assms] NewPoint_returns[OF assms] by blast

theorem check_never_panics_witness:
  "checkKVs no_arrays ex_cfg [ex_tag ''a.bcd'' ''v'', ex_kv ''x'' 1] [] \<noteq> None"
  by (rule check_never_panics[THEN conjunct1]) (simp add: tag_ok_def ex_tag_def ex_kv_def)

lemma kvs_all_eq_iff:
  "excludeKeys o' = [] \<Longrightarrow> kvs_all_eq str o' l r \<longleftrightarrow> (\<forall>f \<in> set l. \<exists>v. GetKV (fKey f) r = Some v \<and> str f = str v)"
  by (induction l) (auto simp: keyExlcuded_def split: option.splits)

lemma kvsEq_iff:
  assumes "excludeKeys o' = []" "unique_keys l" "unique_keys r"
  shows "kvsEq str o' l r \<longleftrightarrow> (\<forall>k. map_option str (GetKV k l) = map_option str (GetKV k r))"
proof
  assume e: "kvsEq str o' l r"
  then have len: "length l = length r" and a: "\<forall>f \<in> set l. \<exists>v. GetKV (fKey f) r = Some v \<and> str f = str v"
    using assms(1) by (auto simp: kvsEq_def kvs_all_eq_iff split: if_splits)
  have "fKey f \<in> set (keys_of r)" if "f \<in> set l" for f
    using a that GetKV_key by (metis (no_types) image_eqI list.set_map)
  then have "set (keys_of l) \<subseteq> set (keys_of r)" by auto
  moreover have "card (set (keys_of l)) = card (set (keys_of r))"
    using len assms(2,3) by (simp only: unique_keys_def distinct_card length_map)
  ultimately have k: "set (keys_of l) = set (keys_of r)" by (simp add: card_subset_eq)
  show "\<forall>k. map_option str (GetKV k l) = map_option str (GetKV k r)"
  proof
    fix k
    show "map_option str (GetKV k l) = map_option str (GetKV k r)"
    proof (cases "GetKV k l")
      case None
      then have "GetKV k r = None" using k by (simp add: GetKV_None Has_iff)
      with None show ?thesis by simp
    next
      case (Some f)
      then have "f \<in> set l" "fKey f = k" using GetKV_key by auto
      with a Some show ?thesis by force
    qed
  qed
next
  assume m: "\<forall>k. map_option str (GetKV k l) = map_option str (GetKV k r)"
  have "Has k l = Has k r" for k using m by (metis Has_GetKV map_option_is_None)
  then have "set (keys_of l) = set (keys_of r)" by (auto simp: Has_iff)
  then have "length l = length r" using assms(2,3) by (metis distinct_card length_map unique_keys_def)
  moreover have "\<exists>v. GetKV (fKey f) r = Some v \<and> str f = str v" if "f \<in> set l" for f
  proof -
    have "GetKV (fKey f) l = Some f" using that by (simp add: GetKV_unique[OF assms(2)])
    then show ?thesis using m by (metis map_option_eq_Some)
  qed
  ultimately show "kvsEq str o' l r" using assms(1) by (simp add: kvsEq_def kvs_all_eq_iff)
qed

lemma unique_parts:
  assumes "unique_keys (p_fields p)"
  shows "unique_keys (Point_Tags p)" "unique_keys (Point_Fields p)"
proof -
  have "Tags x = filter fIsTag x" "Fields x = filter (\<lambda>f. \<not> fIsTag f) x" for x by (induction x) auto
  then show "unique_keys (Point_Tags p)" "unique_keys (Point_Fields p)"
    using assms by (simp_all add: Point_Tags_def Point_Fields_def unique_keys_def distinct_map_filter)
qed

text \<open>
  On points with unique keys and without excluded keys, \<open>Equal\<close> is an honest comparison: it holds exactly when the
  times and, if asked for, the names agree, and the two points have the same fields and the same tags,
  compared by their text, under every key.
\<close>

theorem Equal_iff_same_content:
  assumes "unique_keys (p_fields p)" "unique_keys (p_fields x)" "excludeKeys o' = []"
  shows "Equal str o' p x \<longleftrightarrow>
     p_time p = p_time x \<and> (withMeasurement o' \<longrightarrow> p_name p = p_name x) \<and>
     (\<forall>k. map_option str (GetKV k (Point_Fields p)) = map_option str (GetKV k (Point_Fields x))) \<and>
     (\<forall>k. map_option str (GetKV k (Point_Tags p)) = map_option str (GetKV k (Point_Tags x)))"
proof -
  have "length (Point_Tags p) = length (Point_Tags x)" if "kvsEq str o' (Point_Tags p) (Point_Tags x)"
    using that assms(3) by (simp add: kvsEq_def split: if_splits)
  then show ?thesis
    using kvsEq_iff[OF assms(3) unique_parts(1)[OF assms(1)] unique_parts(1)[OF assms(2)], of str]
      kvsEq_iff[OF assms(3) unique_parts(2)[OF assms(1)] unique_parts(2)[OF assms(2)], of str] assms(3)
    by (auto simp: Equal_def keyExlcuded_def)
qed

definition ex_point :: "KVs \<Rightarrow> Point" where
  "ex_point kvs = \<lparr>p_flags = 0, p_name = ''m'', p_fields = kvs, p_time = 1, p_warns = [], p_debugs = []\<rparr>"

theorem Equal_iff_same_content_witness:
  "Equal fKey \<lparr>withMeasurement = True, excludeKeys = []\<rparr> (ex_point [ex_kv ''a'' 1, ex_tag ''t'' ''v''])
     (ex_point [ex_tag ''t'' ''v'', ex_kv ''a'' 1])"
  by (subst Equal_iff_same_content) (simp_all add: ex_point_def unique_keys_def ex_kv_def ex_tag_def Point_Tags_def Point_Fields_def)

text \<open>
  The points that \<open>CheckPoints\<close> returns share the array of their warnings: when two points
  in a row have one warning each, the first point afterwards shows the warning of the second.
\<close>

theorem CheckPoints_overwrites_warnings:
  assumes "check_point mk c p = Some (p', [a])" "check_point mk c q = Some (q', [b])"
  shows "\<exists>s t st. CheckPoints mk c grow [p, q] no_warns = Some ([(SetFlag Pcheck p', s), (SetFlag Pcheck q', t)], st) \<and>
     read_slice st s = [b] \<and> read_slice st t = [b]"
proof -
  let ?pad = "replicate (grow 1 - 1) []"
  have 1: "append_warn grow a no_warns = \<lparr>w_arr = [[], a # ?pad], w_cur = (1, 1)\<rparr>"
    by (simp add: append_warn_def no_warns_def)
  have 2: "append_warn grow b (reset_warns \<lparr>w_arr = [[], a # ?pad], w_cur = (1, 1)\<rparr>) = \<lparr>w_arr = [[], b # ?pad], w_cur = (1, 1)\<rparr>"
    by (simp add: append_warn_def reset_warns_def)
  show ?thesis using assms 1 2 by (simp add: reset_warns_def read_slice_def)
qed

theorem CheckPoints_overwrites_warnings_witness:
  "\<exists>p' q' s t st. CheckPoints no_arrays ex_cfg (\<lambda>n. n) [ex_point [ex_tag ''abcd'' ''v''], ex_point [ex_tag ''a.b'' ''v'']] no_warns =
     Some ([(p', s), (q', t)], st) \<and> read_slice st s = [''invalid_tag_key'']"
proof -
  have "map_option snd (check_point no_arrays ex_cfg (ex_point [ex_tag ''abcd'' ''v''])) = Some [''exceed_max_tag_key_len''] \<and>
    map_option snd (check_point no_arrays ex_cfg (ex_point [ex_tag ''a.b'' ''v''])) = Some [''invalid_tag_key'']" by code_simp
  then obtain p' q' where "check_point no_arrays ex_cfg (ex_point [ex_tag ''abcd'' ''v'']) = Some (p', [''exceed_max_tag_key_len''])"
    "check_point no_arrays ex_cfg (ex_point [ex_tag ''a.b'' ''v'']) = Some (q', [''invalid_tag_key''])" by auto
  from CheckPoints_overwrites_warnings[OF this, of "\<lambda>n. n"] show ?thesis by blast
qed

text \<open>
  A tag value is freed of backslashes at its end before it is cut to its length limit, so a backslash that the
  cut leaves at the end stays: the value that is kept ends in the backslash the check is there to remove.
\<close>

theorem truncated_tag_value_keeps_backslash:
  assumes "i < length xs" "fVal (xs ! i) = Some (Field_S (u @ CHR 0x5C # v))" "v \<noteq> []"
    "adjustKV (u @ CHR 0x5C # v) = u @ CHR 0x5C # v" "c_maxTagValLen c = int (length u) + 1"
  shows "\<exists>ys ws'. check_tag_val c xs i ws = (Keep, ys, ws') \<and> fVal (ys ! i) = Some (Field_S (u @ [CHR 0x5C]))"
proof -
  have n: "nat (c_maxTagValLen c) = Suc (length u)" using assms(5) by simp
  have "too_long (c_maxTagValLen c) (u @ CHR 0x5C # v)" using assms(3,5) by (simp add: too_long_def)
  then show ?thesis using assms n by (simp add: check_tag_val_def set_val_def)
qed

theorem truncated_tag_value_keeps_backslash_witness:
  "\<exists>ys ws'. check_tag_val (WithMaxTagValLen 2 newCfg) [ex_tag ''k'' (''a'' @ CHR 0x5C # ''b'')] 0 [] = (Keep, ys, ws') \<and>
     fVal (ys ! 0) = Some (Field_S (''a'' @ [CHR 0x5C]))"
proof (rule truncated_tag_value_keeps_backslash)
  show "adjustKV (''a'' @ CHR 0x5C # ''b'') = ''a'' @ CHR 0x5C # ''b''" by code_simp
qed (simp_all add: ex_tag_def WithMaxTagValLen_def)

end
