(* ===== verification/Go_Proto.thy ===== *)
theory Go_Proto
  imports Go_Base
begin

section \<open>The protobuf wire format (encoding/binary and the vendored easyproto)\<close>

text \<open>
  The reader and the writer of protobuf messages the point package uses.  A message is a list of fields, each a
  tag (its number and a wire type) and a value: a varint, eight or four fixed bytes, or bytes behind their length.
  A \<open>uint64\<close> is a natural number below \<open>2\<^sup>6\<^sup>4\<close>.  The reader keeps the last field in a \<open>FieldContext\<close>, whose
  accessors look at the wire type first; here \<open>NextField\<close> returns the field itself.  An error is \<open>None\<close>.
\<close>

subsection \<open>Varints\<close>

fun put_uvarint :: "nat \<Rightarrow> bytes" where
  "put_uvarint n = (if n < 128 then [char_of n] else char_of (128 + n mod 128) # put_uvarint (n div 128))"

declare put_uvarint.simps [simp del]

text \<open>\<open>binary.Uvarint\<close>: at most ten bytes, the tenth at most 1; \<open>None\<close> where the source returns a width below 1.\<close>

fun uvarint_loop :: "nat \<Rightarrow> nat \<Rightarrow> bytes \<Rightarrow> (nat \<times> bytes) option" where
  "uvarint_loop i x [] = None"
| "uvarint_loop i x (b # bs) =
     (if i = 10 then None
      else if of_char b < (128 :: nat)
      then (if i = 9 \<and> of_char b > (1 :: nat) then None else Some (x + of_char b * 2 ^ (7 * i), bs))
      else uvarint_loop (i + 1) (x + (of_char b mod 128) * 2 ^ (7 * i)) bs)"

definition Uvarint :: "bytes \<Rightarrow> (nat \<times> bytes) option" where
  "Uvarint bs = uvarint_loop 0 0 bs"

lemma uvarint_room:
  assumes "128 \<le> n" "n * 2 ^ (7 * i) < (2 :: nat) ^ 64"
  shows "i < 9" "n div 128 * 2 ^ (7 * (i + 1)) < (2 :: nat) ^ 64"
proof -
  have "(2 :: nat) ^ (7 * i + 7) \<le> n * 2 ^ (7 * i)"
    using assms(1) by (simp add: power_add)
  then have "(2 :: nat) ^ (7 * i + 7) < 2 ^ 64" using assms(2) by (rule le_less_trans)
  then have "7 * i + 7 < 64" by (rule power_less_imp_less_exp[rotated]) simp
  then show "i < 9" by simp
  have "n div 128 * 2 ^ (7 * (i + 1)) = (n div 128 * 128) * 2 ^ (7 * i)"
    by (simp add: power_add)
  also have "\<dots> \<le> n * 2 ^ (7 * i)" by simp
  also have "\<dots> < 2 ^ 64" by (rule assms(2))
  finally show "n div 128 * 2 ^ (7 * (i + 1)) < (2 :: nat) ^ 64" .
qed

lemma uvarint_loop_put:
  assumes "n * 2 ^ (7 * i) < 2 ^ 64" "i \<le> 9"
  shows "uvarint_loop i x (put_uvarint n @ r) = Some (x + n * 2 ^ (7 * i), r)"
  using assms
proof (induction n arbitrary: i x rule: put_uvarint.induct)
  case (1 n)
  show ?case
  proof (cases "n < 128")
    case True
    moreover have "n \<le> 1" if "i = 9" using that 1(2) by simp
    ultimately show ?thesis using 1(3) by (subst put_uvarint.simps) auto
  next
    case False
    then have n: "128 \<le> n" by simp
    note room = uvarint_room[OF n 1(2)]
    have split: "n mod 128 * 2 ^ (7 * i) + n div 128 * 2 ^ (7 * (i + 1)) = n * 2 ^ (7 * i)"
    proof -
      define P :: nat where "P = 2 ^ (7 * i)"
      have "n * P = (n div 128 * 128 + n mod 128) * P" by (simp only: div_mult_mod_eq)
      also have "\<dots> = n mod 128 * P + n div 128 * (128 * P)" by (simp only: distrib_left distrib_right ac_simps)
      finally show ?thesis by (simp add: P_def power_add)
    qed
    have "uvarint_loop i x (put_uvarint n @ r) =
        uvarint_loop (i + 1) (x + n mod 128 * 2 ^ (7 * i)) (put_uvarint (n div 128) @ r)"
      using False room(1) by (subst put_uvarint.simps) simp
    also have "\<dots> = Some (x + n mod 128 * 2 ^ (7 * i) + n div 128 * 2 ^ (7 * (i + 1)), r)"
      using 1(1)[OF False room(2)] room(1) by simp
    finally show ?thesis using split by (simp add: add.assoc)
  qed
qed

lemma Uvarint_put [simp]: "n < 2 ^ 64 \<Longrightarrow> Uvarint (put_uvarint n @ r) = Some (n, r)"
  using uvarint_loop_put[of n 0 0 r] by (simp add: Uvarint_def)

lemma uvarint_loop_shorter: "uvarint_loop i x bs = Some (n, r) \<Longrightarrow> length r < length bs"
  by (induction i x bs rule: uvarint_loop.induct) (auto split: if_splits)

lemma Uvarint_shorter: "Uvarint bs = Some (n, r) \<Longrightarrow> length r < length bs"
  unfolding Uvarint_def by (rule uvarint_loop_shorter)

lemma put_uvarint_Cons: "\<exists>b bs. put_uvarint n = b # bs"
  by (subst put_uvarint.simps) simp


subsection \<open>Reading fields\<close>

datatype wire = WVarint nat | WI64 nat | WLen bytes | WI32 nat

text \<open>What is behind a tag: the value of the wire type \<open>wt\<close>.\<close>

definition read_value :: "nat \<Rightarrow> bytes \<Rightarrow> (wire \<times> bytes) option" where
  "read_value wt src =
     (if wt = 2
      then (case Uvarint src of
              None \<Rightarrow> None
            | Some (n, r) \<Rightarrow> if length r < n then None else Some (WLen (take n r), drop n r))
      else if wt = 0 then (case Uvarint src of None \<Rightarrow> None | Some (n, r) \<Rightarrow> Some (WVarint n, r))
      else if wt = 1 then (if length src < 8 then None else Some (WI64 (le_get (take 8 src)), drop 8 src))
      else if wt = 5 then (if length src < 4 then None else Some (WI32 (le_get (take 4 src)), drop 4 src))
      else None)"

definition read_tag :: "bytes \<Rightarrow> (nat \<times> bytes) option" where
  "read_tag src =
     (case src of
        [] \<Rightarrow> None
      | b # bs \<Rightarrow>
          (if of_char b < (128 :: nat) then Some (of_char b, bs)
           else case Uvarint src of
                  None \<Rightarrow> None
                | Some (tag, r) \<Rightarrow> if tag div 8 > 2 ^ 32 - 1 then None else Some (tag, r)))"

definition NextField_slow :: "bytes \<Rightarrow> (nat \<times> wire \<times> bytes) option" where
  "NextField_slow src =
     (case read_tag src of
        None \<Rightarrow> None
      | Some (tag, r) \<Rightarrow>
          (case read_value (tag mod 8) r of None \<Rightarrow> None | Some (w, r') \<Rightarrow> Some (tag div 8, w, r')))"

text \<open>The source reads a short length-delimited field directly from its first two bytes.\<close>

fun NextField :: "bytes \<Rightarrow> (nat \<times> wire \<times> bytes) option" where
  "NextField (b0 # b1 # src) =
     (if of_char b0 < (128 :: nat) \<and> of_char b1 < (128 :: nat) \<and> of_char b0 mod 8 = (2 :: nat)
      then let msgLen = of_char b1 in
           if length src < msgLen then None else Some (of_char b0 div 8, WLen (take msgLen src), drop msgLen src)
      else NextField_slow (b0 # b1 # src))"
| "NextField src = NextField_slow src"

lemma NextField_eq_slow: "NextField src = NextField_slow src"
  by (cases src rule: NextField.cases)
    (auto simp: NextField_slow_def read_tag_def read_value_def Uvarint_def Let_def)

lemma read_value_length: "read_value wt src = Some (w, r) \<Longrightarrow> length r \<le> length src"
  by (fastforce simp: read_value_def split: if_splits option.splits dest: Uvarint_shorter)

lemma read_tag_shorter: "read_tag src = Some (tag, r) \<Longrightarrow> length r < length src"
  by (auto simp: read_tag_def split: list.splits if_splits option.splits dest: Uvarint_shorter)

lemma NextField_shorter: "NextField src = Some (n, w, r) \<Longrightarrow> length r < length src"
  by (fastforce simp: NextField_eq_slow NextField_slow_def split: option.splits
      dest: read_value_length read_tag_shorter)

text \<open>The accessors of a \<open>FieldContext\<close>.\<close>

definition fc_Int64 :: "wire \<Rightarrow> int option" where
  "fc_Int64 w = (case w of WVarint n \<Rightarrow> Some (to_i64 (int n)) | _ \<Rightarrow> None)"

definition fc_Uint64 :: "wire \<Rightarrow> int option" where
  "fc_Uint64 w = (case w of WVarint n \<Rightarrow> Some (int n) | _ \<Rightarrow> None)"

definition fc_Int32 :: "wire \<Rightarrow> int option" where
  "fc_Int32 w = (case w of WVarint n \<Rightarrow> if n > 2 ^ 32 - 1 then None else Some (to_i32 (int n)) | _ \<Rightarrow> None)"

definition fc_Bool :: "wire \<Rightarrow> bool option" where
  "fc_Bool w =
     (case w of WVarint n \<Rightarrow> if n = 0 then Some False else if n = 1 then Some True else None | _ \<Rightarrow> None)"

definition fc_Fixed64 :: "wire \<Rightarrow> nat option" where
  "fc_Fixed64 w = (case w of WI64 n \<Rightarrow> Some n | _ \<Rightarrow> None)"

definition fc_Bytes :: "wire \<Rightarrow> bytes option" where
  "fc_Bytes w = (case w of WLen d \<Rightarrow> Some d | _ \<Rightarrow> None)"

text \<open>
  The loops that take a message apart: \<open>for len(src) > 0 { src, err = fc.NextField(src) ... }\<close>, with the body as
  a step on the loop's variables that may fail.
\<close>

function fold_fields :: "('s \<Rightarrow> nat \<Rightarrow> wire \<Rightarrow> 's option) \<Rightarrow> bytes \<Rightarrow> 's \<Rightarrow> 's option" where
  "fold_fields step src s =
     (if src = [] then Some s
      else case NextField src of
             None \<Rightarrow> None
           | Some (n, w, r) \<Rightarrow> (case step s n w of None \<Rightarrow> None | Some s' \<Rightarrow> fold_fields step r s'))"
  by pat_completeness auto
termination
  by (relation "measure (\<lambda>(step, src, s). length src)") (auto dest: NextField_shorter)

declare fold_fields.simps [simp del]

lemma fold_fields_Nil [simp]: "fold_fields step [] s = Some s"
  by (simp add: fold_fields.simps)

subsection \<open>Writing fields\<close>

text \<open>
  A \<open>MessageMarshaler\<close> collects fields, and \<open>Marshal\<close> writes them one behind the other, a nested message behind its
  length; here an append is the bytes it contributes.
\<close>

definition AppendUint64 :: "nat \<Rightarrow> nat \<Rightarrow> bytes" where
  "AppendUint64 fieldNum u = put_uvarint (fieldNum * 8) @ put_uvarint u"

definition AppendInt64 :: "nat \<Rightarrow> int \<Rightarrow> bytes" where
  "AppendInt64 fieldNum i = AppendUint64 fieldNum (nat (i mod 2 ^ 64))"

definition AppendInt32 :: "nat \<Rightarrow> int \<Rightarrow> bytes" where
  "AppendInt32 fieldNum i = AppendUint64 fieldNum (nat (to_u32 i))"

definition AppendBool :: "nat \<Rightarrow> bool \<Rightarrow> bytes" where
  "AppendBool fieldNum v = AppendUint64 fieldNum (if v then 1 else 0)"

definition AppendFixed64 :: "nat \<Rightarrow> nat \<Rightarrow> bytes" where
  "AppendFixed64 fieldNum u = put_uvarint (fieldNum * 8 + 1) @ le_put 8 u"

definition AppendString :: "nat \<Rightarrow> string \<Rightarrow> bytes" where
  "AppendString fieldNum s = put_uvarint (fieldNum * 8 + 2) @ put_uvarint (length s) @ s"

definition AppendMessage :: "nat \<Rightarrow> bytes \<Rightarrow> bytes" where
  "AppendMessage fieldNum body = AppendString fieldNum body"

subsection \<open>What is written is read back\<close>

lemma read_tag_put:
  assumes "t < 2 ^ 32"
  shows "read_tag (put_uvarint t @ r) = Some (t, r)"
proof (cases "t < 128")
  case True
  then show ?thesis by (subst put_uvarint.simps) (simp add: read_tag_def)
next
  case False
  have bs: "put_uvarint t = char_of (128 + t mod 128) # put_uvarint (t div 128)"
    using False by (subst put_uvarint.simps) simp
  have "Uvarint (put_uvarint t @ r) = Some (t, r)" using assms by simp
  with bs assms show ?thesis by (simp add: read_tag_def)
qed

lemma put_uvarint_not_Nil [simp]: "put_uvarint n \<noteq> []"
  using put_uvarint_Cons[of n] by auto

lemma append_not_Nil [simp]: "AppendUint64 f n \<noteq> []" "AppendFixed64 f n \<noteq> []" "AppendString f s \<noteq> []"
  by (simp_all add: AppendUint64_def AppendFixed64_def AppendString_def)

lemma tag_parts:
  "(f * 8 + 1) mod 8 = (1 :: nat)" "(f * 8 + 2) mod 8 = (2 :: nat)" "(f * 8 + 1) div 8 = (f :: nat)"
  "(f * 8 + 2) div 8 = (f :: nat)" "f * 8 mod 8 = (0 :: nat)" "f * 8 div 8 = (f :: nat)"
  by presburger+

lemma NextField_append:
  assumes "f < 1000"
  shows "u < 2 ^ 64 \<Longrightarrow> NextField (AppendUint64 f u @ r) = Some (f, WVarint u, r)"
    and "u < 2 ^ 64 \<Longrightarrow> NextField (AppendFixed64 f u @ r) = Some (f, WI64 u, r)"
    and "length s < 2 ^ 64 \<Longrightarrow> NextField (AppendString f s @ r) = Some (f, WLen s, r)"
  using assms
  by (simp_all add: NextField_eq_slow NextField_slow_def AppendUint64_def AppendFixed64_def AppendString_def
      read_tag_put tag_parts read_value_def le_get_le_put del: One_nat_def add_2_eq_Suc' add_Suc_right)

lemma fold_fields_append:
  assumes "f < 1000"
  shows "u < 2 ^ 64 \<Longrightarrow> fold_fields step (AppendUint64 f u @ r) s =
      (case step s f (WVarint u) of None \<Rightarrow> None | Some s' \<Rightarrow> fold_fields step r s')"
    and "u < 2 ^ 64 \<Longrightarrow> fold_fields step (AppendFixed64 f u @ r) s =
      (case step s f (WI64 u) of None \<Rightarrow> None | Some s' \<Rightarrow> fold_fields step r s')"
    and "length d < 2 ^ 64 \<Longrightarrow> fold_fields step (AppendString f d @ r) s =
      (case step s f (WLen d) of None \<Rightarrow> None | Some s' \<Rightarrow> fold_fields step r s')"
  by (subst fold_fields.simps, simp add: NextField_append[OF assms])+

lemma wire_Int64: "in_range 64 i \<Longrightarrow> fc_Int64 (WVarint (nat (i mod 2 ^ 64))) = Some i"
  by (simp add: fc_Int64_def in_range_def to_i64_def mod_simps)

lemma wire_Int32: "in_range 32 i \<Longrightarrow> fc_Int32 (WVarint (nat (to_u32 i))) = Some i"
  by (auto simp: fc_Int32_def in_range_def to_u32_def to_i32_def mod_simps nat_less_iff not_less)

lemma wire_Bool: "fc_Bool (WVarint (if v then 1 else 0)) = Some v"
  by (simp add: fc_Bool_def)

subsection \<open>Sizes\<close>

lemma length_put_uvarint: "n < 128 ^ Suc k \<Longrightarrow> length (put_uvarint n) \<le> Suc k"
proof (induction k arbitrary: n)
  case 0 then show ?case by (subst put_uvarint.simps) simp
next
  case (Suc k)
  show ?case
  proof (cases "n < 128")
    case True then show ?thesis by (subst put_uvarint.simps) simp
  next
    case False
    have "n div 128 < 128 ^ Suc k" using Suc.prems by (simp add: less_mult_imp_div_less)
    then show ?thesis using Suc.IH[of "n div 128"] False by (subst put_uvarint.simps) simp
  qed
qed

lemma length_uvarint: "n < 2 ^ 64 \<Longrightarrow> length (put_uvarint n) \<le> 10"
  using length_put_uvarint[of n 9] by simp

lemma length_append_bounds:
  assumes "f < 1000"
  shows "u < 2 ^ 64 \<Longrightarrow> length (AppendUint64 f u) \<le> 20"
    "length (AppendFixed64 f u) \<le> 20"
    "length s < 2 ^ 64 \<Longrightarrow> length (AppendString f s) \<le> 20 + length s"
  using assms length_uvarint[of "f * 8"] length_uvarint[of "f * 8 + 1"] length_uvarint[of "f * 8 + 2"]
    length_uvarint[of u] length_uvarint[of "length s"]
  by (simp_all add: AppendUint64_def AppendFixed64_def AppendString_def)

end
