(* ===== verification/Go_Float_Bits.thy ===== *)
theory Go_Float_Bits
  imports Go_Float
begin

section \<open>The bit patterns of float64 (math.Float64bits and math.Float64frombits)\<close>

text \<open>
  Sign, eleven bits of biased exponent, fifty-two bits of fraction.  The model has one value that is not a number,
  written with the pattern of \<open>math.NaN\<close>, and one zero.  A rational is the value of a float when it is a number of at most fifty-three
  bits times a power of two in range.
\<close>

definition Float64frombits :: "nat \<Rightarrow> f64" where
  "Float64frombits n =
     (let be = n div 2 ^ 52 mod 2048; m = n mod 2 ^ 52 in
      if be = 2047 then (if m = 0 then FInf (n < 2 ^ 63) else FNaN)
      else let v = (if be = 0 then of_nat m * pow2 (- 1074) else of_nat (2 ^ 52 + m) * pow2 (int be - 1075))
           in FFin (if n < 2 ^ 63 then v else - v))"

definition magnitude_bits :: "rat \<Rightarrow> nat" where
  "magnitude_bits a =
     (if a < pow2 (- 1022) then nat \<lfloor>a / pow2 (- 1074)\<rfloor>
      else let e = exponent a in nat (e + 1023) * 2 ^ 52 + (nat \<lfloor>a / pow2 (e - 52)\<rfloor> - 2 ^ 52))"

fun Float64bits :: "f64 \<Rightarrow> nat" where
  "Float64bits FNaN = 2047 * 2 ^ 52 + 2 ^ 51 + 1"
| "Float64bits (FInf pos) = (if pos then 0 else 2 ^ 63) + 2047 * 2 ^ 52"
| "Float64bits (FFin q) = (if q < 0 then 2 ^ 63 else 0) + magnitude_bits \<bar>q\<bar>"

definition float_value :: "rat \<Rightarrow> bool" where
  "float_value a \<longleftrightarrow> (\<exists>m e. m < 2 ^ 53 \<and> - 1074 \<le> e \<and> e \<le> 971 \<and> a = of_nat m * pow2 e)"

definition is_float64 :: "f64 \<Rightarrow> bool" where
  "is_float64 f = (case f of FFin q \<Rightarrow> float_value \<bar>q\<bar> | _ \<Rightarrow> True)"

subsection \<open>Powers of two and the exponent\<close>

lemma pow2_powi: "pow2 e = 2 powi e"
  by (simp add: pow2_def power_int_def field_simps)

lemma pow2_pos [simp]: "0 < pow2 e"
  by (simp add: pow2_powi)

lemma pow2_not_0 [simp]: "pow2 e \<noteq> 0"
  by (simp add: pow2_powi)

lemma pow2_add: "pow2 (a + b) = pow2 a * pow2 b"
  by (simp add: pow2_powi power_int_add)

lemma pow2_diff: "pow2 (a - b) = pow2 a / pow2 b"
  by (simp add: pow2_powi power_int_diff)

lemma pow2_less: "a < b \<Longrightarrow> pow2 a < pow2 b"
  by (simp add: pow2_powi power_int_strict_increasing)

lemma pow2_less_iff: "pow2 a < pow2 b \<longleftrightarrow> a < b"
  using pow2_less[of a b] pow2_less[of b a] by (metis less_asym linorder_neqE)

lemma pow2_nat: "pow2 (int n) = of_nat (2 ^ n)"
  by (simp add: pow2_def)

lemma exponent_bounds:
  assumes "0 < q"
  shows "pow2 (exponent q) \<le> q" "q < pow2 (exponent q + 1)"
proof -
  obtain n d where nd: "quotient_of q = (n, d)" by (cases "quotient_of q")
  have d: "0 < d" using quotient_of_denom_pos[OF nd] .
  have q: "q = of_int n / of_int d" using quotient_of_div[OF nd] .
  with assms d have n: "0 < n" by (simp add: zero_less_divide_iff)
  have bounds: "2 ^ nat (bitlen x - 1) \<le> x \<and> x < 2 ^ nat (bitlen x) \<and> 1 \<le> bitlen x" if "0 < x" for x :: int
    using bitlen_bounds[OF that] bitlen_nonneg[of x] bitlen_eq_zero_iff[of x] that by auto
  have pw: "pow2 (bitlen x - 1) \<le> of_int x \<and> of_int x < pow2 (bitlen x)" if "0 < x" for x :: int
  proof -
    note b = bounds[OF that]
    then have "(of_int (2 ^ nat (bitlen x - 1)) :: rat) \<le> of_int x" "(of_int x :: rat) < of_int (2 ^ nat (bitlen x))"
      by (simp_all only: of_int_le_iff of_int_less_iff)
    with b show ?thesis by (simp add: pow2_def)
  qed
  define e where "e = bitlen n - bitlen d"
  have "q < pow2 (bitlen n) / pow2 (bitlen d - 1)"
    unfolding q using pw[OF n] pw[OF d] d n by (intro frac_less) auto
  then have upper: "q < pow2 (e + 1)" by (simp add: e_def pow2_diff[symmetric] algebra_simps)
  have "pow2 (bitlen n - 1) / pow2 (bitlen d) < q"
    unfolding q using pw[OF n] pw[OF d] d n by (intro frac_less2) auto
  then have lower: "pow2 (e - 1) < q" by (simp add: e_def pow2_diff[symmetric] algebra_simps)
  have "exponent q = (if pow2 e \<le> q then e else e - 1)"
    by (simp add: exponent_def nd e_def Let_def)
  then show "pow2 (exponent q) \<le> q" "q < pow2 (exponent q + 1)"
    using upper lower by (auto split: if_splits)
qed

subsection \<open>The round trip\<close>

definition bits_value :: "nat \<Rightarrow> nat \<Rightarrow> rat" where
  "bits_value be m = (if be = 0 then of_nat m * pow2 (- 1074) else of_nat (2 ^ 52 + m) * pow2 (int be - 1075))"

lemma of_nat_scaled: "e' \<le> e \<Longrightarrow> of_nat m * pow2 e / pow2 e' = of_nat (m * 2 ^ nat (e - e'))"
proof -
  assume "e' \<le> e"
  then have "pow2 e / pow2 e' = of_nat (2 ^ nat (e - e'))"
    by (simp add: pow2_diff[symmetric] pow2_def[of "e - e'"])
  then show ?thesis by (metis of_nat_mult times_divide_eq_right)
qed

lemma frombits_parts:
  assumes "m < 2 ^ 52" "be < 2047"
  shows "Float64frombits ((if neg then 2 ^ 63 else 0) + (be * 2 ^ 52 + m)) =
    FFin (if neg then - bits_value be m else bits_value be m)"
proof -
  let ?n = "(if neg then 2 ^ 63 else 0) + (be * 2 ^ 52 + m)"
  have n: "?n = m + ((if neg then 2048 else 0) + be) * 2 ^ 52" by simp
  have m: "?n mod 2 ^ 52 = m" unfolding n using assms(1) by (simp only: mod_mult_self1 mod_less)
  have "?n div 2 ^ 52 = (if neg then 2048 else 0) + be"
    unfolding n using assms(1) by (simp add: div_mult_self1)
  then have be: "?n div 2 ^ 52 mod 2048 = be" using assms(2) by auto
  have s: "?n < 2 ^ 63 \<longleftrightarrow> \<not> neg" using assms by auto
  show ?thesis
    unfolding Float64frombits_def Let_def be m s bits_value_def using assms(2) by simp
qed

lemma magnitude_small:
  assumes "float_value a" "a < pow2 (- 1022)"
  shows "\<exists>m. m < 2 ^ 52 \<and> magnitude_bits a = m \<and> a = bits_value 0 m"
proof -
  from assms(1) obtain k e where k: "- 1074 \<le> e" "a = of_nat k * pow2 e"
    by (auto simp: float_value_def)
  define m where "m = k * 2 ^ nat (e + 1074)"
  have am: "a / pow2 (- 1074) = of_nat m"
    using of_nat_scaled[of "- 1074" e k] k by (simp add: m_def)
  then have a: "a = of_nat m * pow2 (- 1074)" by (simp add: field_simps)
  have "a / pow2 (- 1074) < pow2 (- 1022) / pow2 (- 1074)"
    by (rule divide_strict_right_mono[OF assms(2)]) simp
  also have "\<dots> = of_nat (2 ^ 52)" by (simp add: pow2_diff[symmetric] pow2_def)
  finally have "m < 2 ^ 52" using am by (simp only: of_nat_less_iff)
  moreover have "magnitude_bits a = m" using assms(2) am by (simp add: magnitude_bits_def)
  ultimately show ?thesis using a by (auto simp: bits_value_def)
qed

lemma magnitude_normal:
  assumes "float_value a" "pow2 (- 1022) \<le> a"
  shows "\<exists>be m. m < 2 ^ 52 \<and> 0 < be \<and> be < 2047 \<and> magnitude_bits a = be * 2 ^ 52 + m \<and> a = bits_value be m"
proof -
  from assms(1) obtain k e where k: "k < 2 ^ 53" "e \<le> 971" "a = of_nat k * pow2 e"
    by (auto simp: float_value_def)
  have pos: "0 < a" using assms(2) by (rule less_le_trans[OF pow2_pos])
  define x where "x = exponent a"
  note x = exponent_bounds[OF pos, folded x_def]
  have "a < pow2 53 * pow2 e"
    unfolding k(3) using k(1) by (intro mult_strict_right_mono) (simp_all add: pow2_def)
  then have "a < pow2 (53 + e)" by (simp add: pow2_add)
  then have "pow2 x < pow2 (53 + e)" using x(1) by simp
  then have xe: "x - 52 \<le> e" by (simp add: pow2_less_iff)
  have "pow2 (- 1022) < pow2 (x + 1)" using assms(2) x(2) by (rule le_less_trans)
  then have xl: "- 1022 \<le> x" by (simp add: pow2_less_iff)
  have xu: "x \<le> 1023" using xe k(2) \<open>pow2 x < pow2 (53 + e)\<close> by (simp add: pow2_less_iff)
  define M where "M = k * 2 ^ nat (e - (x - 52))"
  have aM: "a / pow2 (x - 52) = of_nat M"
    using of_nat_scaled[OF xe, of k] k(3) by (simp add: M_def)
  have "pow2 52 \<le> a / pow2 (x - 52)" "a / pow2 (x - 52) < pow2 53"
    using x by (simp_all add: pow2_diff pow2_add field_simps pow2_def[of 1] pow2_def[of 52] pow2_def[of 53])
  then have "(of_nat (2 ^ 52) :: rat) \<le> of_nat M" "(of_nat M :: rat) < of_nat (2 ^ 53)"
    using aM by (simp_all add: pow2_def)
  then have M: "2 ^ 52 \<le> M" "M < 2 ^ 53" by (simp_all only: of_nat_le_iff of_nat_less_iff)
  define be where "be = nat (x + 1023)"
  have "a = of_nat (2 ^ 52 + (M - 2 ^ 52)) * pow2 (x - 52)"
    using aM M(1) by (simp add: field_simps)
  moreover have "int be - 1075 = x - 52" "0 < be" "be < 2047" using xl xu by (simp_all add: be_def)
  ultimately have "a = bits_value be (M - 2 ^ 52)" by (simp add: bits_value_def)
  moreover have "magnitude_bits a = be * 2 ^ 52 + (M - 2 ^ 52)"
    using assms(2) aM by (simp add: magnitude_bits_def x_def[symmetric] Let_def be_def)
  moreover have "M - 2 ^ 52 < 2 ^ 52" using M by simp
  ultimately show ?thesis using \<open>0 < be\<close> \<open>be < 2047\<close> by blast
qed

lemma magnitude_parts:
  assumes "float_value a"
  obtains be m where "m < 2 ^ 52" "be < 2047" "magnitude_bits a = be * 2 ^ 52 + m" "a = bits_value be m"
proof (cases "a < pow2 (- 1022)")
  case True
  from magnitude_small[OF assms this] obtain m where "m < 2 ^ 52" "magnitude_bits a = m" "a = bits_value 0 m"
    by blast
  then show ?thesis using that[of m 0] by simp
next
  case False
  then show ?thesis using magnitude_normal[OF assms] that by (meson not_less)
qed

lemma frombits_bits:
  assumes "is_float64 f"
  shows "Float64frombits (Float64bits f) = f"
proof (cases f)
  case (FFin q)
  with assms have "float_value \<bar>q\<bar>" by (simp add: is_float64_def)
  then obtain be m where b: "m < 2 ^ 52" "be < 2047" "magnitude_bits \<bar>q\<bar> = be * 2 ^ 52 + m" "\<bar>q\<bar> = bits_value be m"
    by (rule magnitude_parts)
  have "Float64bits f = (if q < 0 then 2 ^ 63 else 0) + (be * 2 ^ 52 + m)"
    using FFin b(3) by simp
  then show ?thesis
    using FFin b(4) frombits_parts[OF b(1,2), of "q < 0"] by (auto simp: abs_if split: if_splits)
qed (simp_all add: Float64frombits_def)

lemma Float64bits_bound:
  assumes "is_float64 f"
  shows "Float64bits f < 2 ^ 64"
proof (cases f)
  case (FFin q)
  with assms have "float_value \<bar>q\<bar>" by (simp add: is_float64_def)
  then obtain be m where "m < 2 ^ 52" "be < 2047" "magnitude_bits \<bar>q\<bar> = be * 2 ^ 52 + m"
    by (rule magnitude_parts)
  then show ?thesis using FFin by simp
qed simp_all

end
