(* ===== verification/Point_Wire.thy ===== *)
theory Point_Wire
  imports Point_Point Go_Proto Go_Float_Bits
begin

section \<open>Point: the protobuf encoding (point/easyproto.go)\<close>

text \<open>
  Points are written field by field and read back in a loop over the fields of the message.  A \<open>PBPoint\<close> is the message a
  point wraps; a warning has a type and a text here.  Reading has three outcomes: \<open>None\<close> is a panic (which the check of the
  new point could raise), \<open>Some None\<close> an error, whose text is left out, and \<open>Some (Some x)\<close> the result.
\<close>

record PBPoint =
  pb_name :: string
  pb_fields :: KVs
  pb_time :: int
  pb_warns :: "(string \<times> string) list"
  pb_debugs :: "string list"

subsection \<open>Writing\<close>

text \<open>An array value (\<open>Field_A\<close>) is not written.\<close>

definition marshal_val :: "field_val option \<Rightarrow> bytes" where
  "marshal_val v =
     (case v of
        Some (Field_I i) \<Rightarrow> AppendInt64 2 i
      | Some (Field_U u) \<Rightarrow> AppendUint64 3 (nat u)
      | Some (Field_F f) \<Rightarrow> AppendFixed64 4 (Float64bits f)
      | Some (Field_B b) \<Rightarrow> AppendBool 5 b
      | Some (Field_D d) \<Rightarrow> AppendString 6 d
      | Some (Field_S s) \<Rightarrow> AppendString 11 s
      | Some (Field_A a) \<Rightarrow> []
      | None \<Rightarrow> [])"

definition marshal_Field :: "Field \<Rightarrow> bytes" where
  "marshal_Field kv =
     AppendString 1 (fKey kv) @ marshal_val (fVal kv) @ AppendBool 8 (fIsTag kv) @ AppendInt32 9 (fType kv) @
     AppendString 10 (fUnit kv) @ AppendString 12 (fDesc kv)"

definition marshal_Warn :: "string \<times> string \<Rightarrow> bytes" where
  "marshal_Warn w = AppendString 1 (fst w) @ AppendString 2 (snd w)"

definition marshal_Debug :: "string \<Rightarrow> bytes" where
  "marshal_Debug d = AppendString 1 d"

definition marshalPoint :: "PBPoint \<Rightarrow> bytes" where
  "marshalPoint pt =
     AppendString 1 (pb_name pt) @
     concat (map (\<lambda>f. AppendMessage 2 (marshal_Field f)) (pb_fields pt)) @
     AppendInt64 3 (pb_time pt) @
     concat (map (\<lambda>w. AppendMessage 4 (marshal_Warn w)) (pb_warns pt)) @
     concat (map (\<lambda>d. AppendMessage 5 (marshal_Debug d)) (pb_debugs pt))"

text \<open>\<open>nil\<close> points are skipped.\<close>

definition marshalPoints :: "PBPoint option list \<Rightarrow> bytes \<Rightarrow> bytes" where
  "marshalPoints pts dst =
     dst @ concat (map (\<lambda>p. case p of None \<Rightarrow> [] | Some pt \<Rightarrow> AppendMessage 1 (marshalPoint pt)) pts)"

definition AppendPointToPBPointsPayload :: "bytes \<Rightarrow> PBPoint option \<Rightarrow> bytes" where
  "AppendPointToPBPointsPayload dst p =
     (case p of None \<Rightarrow> dst | Some pt \<Rightarrow> dst @ AppendMessage 1 (marshalPoint pt))"

subsection \<open>Reading the parts of a point\<close>

definition keep :: "('a \<Rightarrow> 's) \<Rightarrow> 's \<Rightarrow> 'a option \<Rightarrow> 's option" where
  "keep f s x = Some (case x of None \<Rightarrow> s | Some a \<Rightarrow> f a)"

definition warn_step :: "string \<times> string \<Rightarrow> nat \<Rightarrow> wire \<Rightarrow> (string \<times> string) option" where
  "warn_step s n w =
     (if n = 1 then keep (\<lambda>x. (x, snd s)) s (fc_Bytes w)
      else if n = 2 then keep (\<lambda>x. (fst s, x)) s (fc_Bytes w)
      else Some s)"

definition unmarshalWarn :: "bytes \<Rightarrow> (string \<times> string) option" where
  "unmarshalWarn src = fold_fields warn_step src ([], [])"

definition debug_step :: "string \<Rightarrow> nat \<Rightarrow> wire \<Rightarrow> string option" where
  "debug_step s n w = (if n = 1 then keep (\<lambda>x. x) s (fc_Bytes w) else Some s)"

definition unmarshalDebug :: "bytes \<Rightarrow> string option" where
  "unmarshalDebug src = fold_fields debug_step src []"

record field_vars =
  v_key :: string
  v_unit :: string
  v_desc :: string
  v_isTag :: bool
  v_f :: "Field option"
  v_type :: int

definition new_kv :: "marshal \<Rightarrow> field_vars \<Rightarrow> raw \<Rightarrow> field_vars" where
  "new_kv mk s v = s\<lparr>v_f := Some (NewKV mk (v_key s) v [])\<rparr>"

definition field_step :: "marshal \<Rightarrow> field_vars \<Rightarrow> nat \<Rightarrow> wire \<Rightarrow> field_vars option" where
  "field_step mk s n w =
     (if n = 1 then map_option (\<lambda>x. s\<lparr>v_key := x\<rparr>) (fc_Bytes w)
      else if n = 8 then map_option (\<lambda>x. s\<lparr>v_isTag := x\<rparr>) (fc_Bool w)
      else if n = 2 then keep (\<lambda>x. new_kv mk s (RawInt x)) s (fc_Int64 w)
      else if n = 3 then keep (\<lambda>x. new_kv mk s (RawUint x)) s (fc_Uint64 w)
      else if n = 4 then keep (\<lambda>x. new_kv mk s (RawFloat (Float64frombits x))) s (fc_Fixed64 w)
      else if n = 5 then keep (\<lambda>x. new_kv mk s (RawBool x)) s (fc_Bool w)
      else if n = 6 then keep (\<lambda>x. new_kv mk s (RawBytes x)) s (fc_Bytes w)
      else if n = 11 then keep (\<lambda>x. new_kv mk s (RawString x)) s (fc_Bytes w)
      else if n = 9 then keep (\<lambda>x. s\<lparr>v_type := x\<rparr>) s (fc_Int32 w)
      else if n = 10 then keep (\<lambda>x. s\<lparr>v_unit := x\<rparr>) s (fc_Bytes w)
      else if n = 12 then keep (\<lambda>x. s\<lparr>v_desc := x\<rparr>) s (fc_Bytes w)
      else Some s)"

text \<open>The result is the key-value, which is \<open>nil\<close> when the message had no value.\<close>

definition unmarshalField :: "marshal \<Rightarrow> bytes \<Rightarrow> Field option option" where
  "unmarshalField mk src =
     (case fold_fields (field_step mk) src
         \<lparr>v_key = [], v_unit = [], v_desc = [], v_isTag = False, v_f = None, v_type = 0\<rparr> of
        None \<Rightarrow> None
      | Some s \<Rightarrow>
          Some (map_option (\<lambda>f. f\<lparr>fUnit := v_unit s, fDesc := v_desc s, fType := v_type s, fIsTag := v_isTag s\<rparr>) (v_f s)))"

subsection \<open>Reading points\<close>

text \<open>The variables of the loop of \<open>unmarshalPoint\<close> are those of a \<open>PBPoint\<close>.\<close>

definition point_step :: "marshal \<Rightarrow> PBPoint \<Rightarrow> nat \<Rightarrow> wire \<Rightarrow> PBPoint option" where
  "point_step mk s n w =
     (if n = 1 then map_option (\<lambda>x. s\<lparr>pb_name := x\<rparr>) (fc_Bytes w)
      else if n = 2
      then (case fc_Bytes w of
              None \<Rightarrow> None
            | Some data \<Rightarrow>
                (case unmarshalField mk data of
                   None \<Rightarrow> None
                 | Some None \<Rightarrow> Some s
                 | Some (Some kv) \<Rightarrow> Some (s\<lparr>pb_fields := AddKV kv (pb_fields s)\<rparr>)))
      else if n = 3 then map_option (\<lambda>x. s\<lparr>pb_time := x\<rparr>) (fc_Int64 w)
      else if n = 4
      then (case fc_Bytes w of
              None \<Rightarrow> None
            | Some data \<Rightarrow> keep (\<lambda>x. s\<lparr>pb_warns := pb_warns s @ [x]\<rparr>) s (unmarshalWarn data))
      else if n = 5
      then (case fc_Bytes w of
              None \<Rightarrow> None
            | Some data \<Rightarrow> keep (\<lambda>x. s\<lparr>pb_debugs := pb_debugs s @ [x]\<rparr>) s (unmarshalDebug data))
      else Some s)"

definition no_point :: PBPoint where
  "no_point = \<lparr>pb_name = [], pb_fields = [], pb_time = 0, pb_warns = [], pb_debugs = []\<rparr>"

text \<open>
  The point is made by \<open>NewPoint\<close>, which checks it and uses the clock for a negative time; the warnings of that check give
  way to those of the message.  \<open>pb\<close>, \<open>now\<close> and \<open>pooled\<close> are as in \<open>NewPoint\<close>.
\<close>

definition unmarshalPoint :: "marshal \<Rightarrow> bool \<Rightarrow> int \<Rightarrow> cfg option \<Rightarrow> bytes \<Rightarrow> PBPoint option option" where
  "unmarshalPoint mk pb now pooled src =
     (case fold_fields (point_step mk) src no_point of
        None \<Rightarrow> Some None
      | Some s \<Rightarrow>
          (case NewPoint mk pb now pooled (pb_name s) (pb_fields s) [WithTimestamp (pb_time s)] of
             None \<Rightarrow> None
           | Some p \<Rightarrow>
               Some (Some \<lparr>pb_name = p_name p, pb_fields = p_fields p, pb_time = p_time p,
                           pb_warns = pb_warns s, pb_debugs = pb_debugs s\<rparr>)))"

text \<open>
  \<open>WalkPBPointsPayload\<close> hands the body of every point to a callback until the callback declines.  The callback works on a
  state here and may panic; the result is the state and whether the walk ended without an error.
\<close>

function WalkPBPointsPayload :: "bytes \<Rightarrow> ('s \<Rightarrow> bytes \<Rightarrow> (bool \<times> 's) option) \<Rightarrow> 's \<Rightarrow> (bool \<times> 's) option" where
  "WalkPBPointsPayload payload fn s =
     (if payload = [] then Some (True, s)
      else case NextField payload of
             None \<Rightarrow> Some (False, s)
           | Some (n, w, r) \<Rightarrow>
               (if n \<noteq> 1 then WalkPBPointsPayload r fn s
                else case fc_Bytes w of
                       None \<Rightarrow> Some (False, s)
                     | Some data \<Rightarrow>
                         (case fn s data of
                            None \<Rightarrow> None
                          | Some (False, s') \<Rightarrow> Some (True, s')
                          | Some (True, s') \<Rightarrow> WalkPBPointsPayload r fn s')))"
  by pat_completeness auto
termination
  by (relation "measure (\<lambda>(payload, fn, s). length payload)") (auto dest: NextField_shorter)

declare WalkPBPointsPayload.simps [simp del]

text \<open>
  The callback stops at a point it cannot read and notes that in the variable \<open>err\<close>, but \<open>unmarshalPoints\<close> then assigns the
  result of the walk to the same variable, which is \<open>nil\<close> when the callback stopped the walk.
\<close>

definition collect_point ::
  "marshal \<Rightarrow> bool \<Rightarrow> int \<Rightarrow> cfg option \<Rightarrow> PBPoint list \<Rightarrow> bytes \<Rightarrow> (bool \<times> PBPoint list) option" where
  "collect_point mk pb now pooled pts raw =
     (case unmarshalPoint mk pb now pooled raw of
        None \<Rightarrow> None
      | Some None \<Rightarrow> Some (False, pts)
      | Some (Some pt) \<Rightarrow> Some (True, pts @ [pt]))"

definition unmarshalPoints :: "marshal \<Rightarrow> bool \<Rightarrow> int \<Rightarrow> cfg option \<Rightarrow> bytes \<Rightarrow> PBPoint list option option" where
  "unmarshalPoints mk pb now pooled src =
     (case WalkPBPointsPayload src (collect_point mk pb now pooled) [] of
        None \<Rightarrow> None
      | Some (ok, pts) \<Rightarrow> Some (if ok then Some pts else None))"

end
