(* ===== verification/Point_Batch.thy ===== *)
theory Point_Batch
  imports Point_Wire
begin

section \<open>Point: what is written is read back\<close>

text \<open>
  Each message is written as a sequence of appends, and reading folds a step over them: the lemmas follow the writer, one append
  at a time.  Lengths are bounded by \<open>2\<^sup>6\<^sup>4\<close> as a whole, which every Go slice is.
\<close>

lemmas fold_append = fold_fields_append[where r = "[]", simplified] fold_fields_append

lemmas append_defs = AppendMessage_def AppendBool_def AppendInt32_def AppendInt64_def

lemma length_AppendString: "length s \<le> length (AppendString f s)"
  by (simp add: AppendString_def)

definition wire_val :: "field_val option \<Rightarrow> bool" where
  "wire_val v =
     (case v of
        Some (Field_I i) \<Rightarrow> in_range 64 i
      | Some (Field_U u) \<Rightarrow> 0 \<le> u \<and> u < 2 ^ 64
      | Some (Field_F f) \<Rightarrow> is_float64 f
      | Some (Field_A a) \<Rightarrow> False
      | None \<Rightarrow> False
      | _ \<Rightarrow> True)"

text \<open>
  Of a key-value without a value, or with an array, which the writer has no case for, only the key and the rest are written, and the reader leaves it out.
  Otherwise the values that fit their Go types are those that can be written.
\<close>

definition carried :: "Field \<Rightarrow> bool" where
  "carried kv = (case fVal kv of None \<Rightarrow> False | Some (Field_A a) \<Rightarrow> False | _ \<Rightarrow> True)"

definition wire_field :: "Field \<Rightarrow> bool" where
  "wire_field kv \<longleftrightarrow> wire_val (fVal kv) \<and> in_range 32 (fType kv) \<and> length (marshal_Field kv) < 2 ^ 64"

definition go_field :: "Field \<Rightarrow> bool" where
  "go_field kv \<longleftrightarrow> (carried kv \<longrightarrow> wire_val (fVal kv)) \<and> in_range 32 (fType kv) \<and> length (marshal_Field kv) < 2 ^ 64"

lemma go_field_wire: "wire_field kv \<longleftrightarrow> go_field kv \<and> carried kv"
  by (auto simp: wire_field_def go_field_def carried_def wire_val_def split: option.splits field_val.splits)

lemma wire_field_lengths:
  assumes "go_field kv"
  shows "length (fKey kv) < 2 ^ 64" "length (fUnit kv) < 2 ^ 64" "length (fDesc kv) < 2 ^ 64"
    "length (marshal_val (fVal kv)) < 2 ^ 64"
  using assms length_AppendString[of "fKey kv" 1] length_AppendString[of "fUnit kv" 10]
    length_AppendString[of "fDesc kv" 12]
  unfolding go_field_def marshal_Field_def length_append by linarith+

lemma u64_of_int: "nat (i mod 2 ^ 64) < 2 ^ 64" "nat (to_u32 i) < 2 ^ 64" "(if b then 1 else 0) < (2 :: nat) ^ 64"
  by (auto simp: nat_less_iff to_u32_def intro: less_trans[OF pos_mod_bound])

lemmas wire_simps = u64_of_int[simplified] wire_Int64[simplified] wire_Int32[simplified] wire_Bool[simplified]
  Float64bits_bound[simplified] frombits_bits

lemma field_step_val:
  assumes "wire_val v" "length (marshal_val v) < 2 ^ 64"
  shows "fold_fields (field_step mk) (marshal_val v @ r) s =
    fold_fields (field_step mk) r
      (s\<lparr>v_f := Some \<lparr>fKey = v_key s, fIsTag = False, fType = 0, fUnit = [], fDesc = [], fVal = v\<rparr>\<rparr>)"
proof -
  have len: "length d < 2 ^ 64" if "v = Some (Field_D d) \<or> v = Some (Field_S d)" for d
    using that assms(2) length_AppendString[of d 6] length_AppendString[of d 11]
    by (auto simp: marshal_val_def)
  show ?thesis
    using assms(1) len
    by (auto simp: wire_val_def marshal_val_def append_defs fold_append wire_simps field_step_def new_kv_def keep_def
        fc_Uint64_def fc_Fixed64_def fc_Bytes_def NewKV_def doNewKV_def newVal_def
        nat_less_iff split: option.splits field_val.splits)
qed

lemma unmarshalField_marshal:
  assumes "go_field kv"
  shows "unmarshalField mk (marshal_Field kv) = Some (if carried kv then Some kv else None)"
proof -
  note len = wire_field_lengths[OF assms]
  let ?s0 = "\<lparr>v_key = [], v_unit = [], v_desc = [], v_isTag = False, v_f = None, v_type = 0\<rparr>"
  let ?s1 = "?s0\<lparr>v_key := fKey kv\<rparr>"
  let ?r = "AppendBool 8 (fIsTag kv) @ AppendInt32 9 (fType kv) @ AppendString 10 (fUnit kv) @ AppendString 12 (fDesc kv)"
  have ty: "in_range 32 (fType kv)" using assms by (simp add: go_field_def)
  let ?f = "\<lparr>fKey = fKey kv, fIsTag = False, fType = 0, fUnit = [], fDesc = [], fVal = fVal kv\<rparr>"
  have val: "fold_fields (field_step mk) (marshal_val (fVal kv) @ ?r) ?s1 =
      fold_fields (field_step mk) ?r (if carried kv then ?s1\<lparr>v_f := Some ?f\<rparr> else ?s1)"
  proof (cases "carried kv")
    case True
    then show ?thesis using field_step_val[OF _ len(4), of mk ?r ?s1] assms by (simp add: go_field_def)
  next
    case False
    then have "marshal_val (fVal kv) = []" by (auto simp: carried_def marshal_val_def split: option.splits field_val.splits)
    with False show ?thesis by simp
  qed
  have "fold_fields (field_step mk) (marshal_Field kv) ?s0 =
      fold_fields (field_step mk) (marshal_val (fVal kv) @ ?r) ?s1"
    using len by (simp add: marshal_Field_def fold_append field_step_def fc_Bytes_def)
  also have "\<dots> = Some ((if carried kv then ?s1\<lparr>v_f := Some ?f\<rparr> else ?s1)\<lparr>v_isTag := fIsTag kv, v_type := fType kv, v_unit := fUnit kv, v_desc := fDesc kv\<rparr>)"
    using len ty unfolding val
    by (simp add: append_defs fold_append wire_simps field_step_def fc_Bytes_def keep_def)
  finally show ?thesis by (simp add: unmarshalField_def)
qed

lemma unmarshalWarn_marshal:
  assumes "length (marshal_Warn w) < 2 ^ 64"
  shows "unmarshalWarn (marshal_Warn w) = Some w"
proof -
  have "length (fst w) < 2 ^ 64" "length (snd w) < 2 ^ 64"
    using assms length_AppendString[of "fst w" 1] length_AppendString[of "snd w" 2] by (simp_all add: marshal_Warn_def)
  then show ?thesis
    by (simp add: unmarshalWarn_def marshal_Warn_def fold_append warn_step_def keep_def fc_Bytes_def)
qed

lemma unmarshalDebug_marshal:
  assumes "length (marshal_Debug d) < 2 ^ 64"
  shows "unmarshalDebug (marshal_Debug d) = Some d"
  using assms length_AppendString[of d 1]
  by (simp add: unmarshalDebug_def marshal_Debug_def fold_append debug_step_def keep_def fc_Bytes_def)

subsection \<open>Points\<close>

lemma length_part:
  assumes "x \<in> set xs"
  shows "length (g x) \<le> length (concat (map (\<lambda>x. AppendMessage f (g x)) xs))"
proof -
  have "length (g x) \<le> length (AppendMessage f (g x))"
    unfolding AppendMessage_def by (rule length_AppendString)
  also have "\<dots> \<le> length (concat (map (\<lambda>x. AppendMessage f (g x)) xs))"
    using assms by (induction xs) auto
  finally show ?thesis .
qed

lemma fold_messages:
  assumes "\<And>x s. x \<in> set xs \<Longrightarrow> step s f (WLen (g x)) = Some (upd x s)"
    "length (concat (map (\<lambda>x. AppendMessage f (g x)) xs)) < 2 ^ 64" "f < 1000"
  shows "fold_fields step (concat (map (\<lambda>x. AppendMessage f (g x)) xs) @ r) s = fold_fields step r (fold upd xs s)"
  using assms(1,2)
proof (induction xs arbitrary: s)
  case (Cons x xs)
  have "length (g x) < 2 ^ 64"
    using length_part[of x "x # xs" g f] Cons.prems(2) by simp
  moreover have "length (concat (map (\<lambda>x. AppendMessage f (g x)) xs)) < 2 ^ 64" using Cons.prems(2) by simp
  ultimately show ?case
    using Cons.IH[of "upd x s"] Cons.prems(1) assms(3) by (simp add: AppendMessage_def fold_append)
qed simp

lemma fold_AddKV_new: "distinct (keys_of (xs @ fs)) \<Longrightarrow> fold AddKV fs xs = xs @ fs"
  by (induction fs arbitrary: xs) (auto simp: AddKV_def Has_iff)

text \<open>Points whose numbers and lengths are those of Go values, and what the reader receives of them: the key-values that are carried, each key once.\<close>

definition go_point :: "PBPoint \<Rightarrow> bool" where
  "go_point pt \<longleftrightarrow> list_all go_field (pb_fields pt) \<and> in_range 64 (pb_time pt) \<and> length (marshalPoint pt) < 2 ^ 64"

definition received :: "PBPoint \<Rightarrow> PBPoint" where
  "received pt = pt\<lparr>pb_fields := fold AddKV (filter carried (pb_fields pt)) []\<rparr>"

lemma received_id: "list_all carried (pb_fields pt) \<Longrightarrow> distinct (keys_of (pb_fields pt)) \<Longrightarrow> received pt = pt"
  using fold_AddKV_new[of "[]" "pb_fields pt"] by (simp add: received_def list_all_iff)

lemma fold_point_vars:
  "fold (\<lambda>kv s. s\<lparr>pb_fields := AddKV kv (pb_fields s)\<rparr>) fs s = (s :: PBPoint)\<lparr>pb_fields := fold AddKV fs (pb_fields s)\<rparr>"
  "fold (\<lambda>w s. s\<lparr>pb_warns := pb_warns s @ [w]\<rparr>) ws s = (s :: PBPoint)\<lparr>pb_warns := pb_warns s @ ws\<rparr>"
  "fold (\<lambda>d s. s\<lparr>pb_debugs := pb_debugs s @ [d]\<rparr>) ds s = (s :: PBPoint)\<lparr>pb_debugs := pb_debugs s @ ds\<rparr>"
proof -
  show "fold (\<lambda>kv s. s\<lparr>pb_fields := AddKV kv (pb_fields s)\<rparr>) fs s = s\<lparr>pb_fields := fold AddKV fs (pb_fields s)\<rparr>"
    by (induction fs arbitrary: s) simp_all
  show "fold (\<lambda>w s. s\<lparr>pb_warns := pb_warns s @ [w]\<rparr>) ws s = s\<lparr>pb_warns := pb_warns s @ ws\<rparr>"
    by (induction ws arbitrary: s) simp_all
  show "fold (\<lambda>d s. s\<lparr>pb_debugs := pb_debugs s @ [d]\<rparr>) ds s = s\<lparr>pb_debugs := pb_debugs s @ ds\<rparr>"
    by (induction ds arbitrary: s) simp_all
qed

lemma fold_filtered: "fold (\<lambda>x s. if P x then f x s else s) xs s = fold f (filter P xs) s"
  by (induction xs arbitrary: s) simp_all

lemma fold_point_fields:
  assumes "list_all go_field fs" "length (concat (map (\<lambda>f. AppendMessage 2 (marshal_Field f)) fs)) < 2 ^ 64"
  shows "fold_fields (point_step mk) (concat (map (\<lambda>f. AppendMessage 2 (marshal_Field f)) fs) @ r) s =
    fold_fields (point_step mk) r (s\<lparr>pb_fields := fold AddKV (filter carried fs) (pb_fields s)\<rparr>)"
proof -
  have "fold_fields (point_step mk) (concat (map (\<lambda>f. AppendMessage 2 (marshal_Field f)) fs) @ r) s =
      fold_fields (point_step mk) r (fold (\<lambda>kv s. if carried kv then s\<lparr>pb_fields := AddKV kv (pb_fields s)\<rparr> else s) fs s)"
    using assms by (intro fold_messages) (auto simp: point_step_def fc_Bytes_def unmarshalField_marshal list_all_iff)
  then show ?thesis by (simp only: fold_filtered fold_point_vars)
qed

lemma fold_point_warns:
  assumes "length (concat (map (\<lambda>w. AppendMessage 4 (marshal_Warn w)) ws)) < 2 ^ 64"
  shows "fold_fields (point_step mk) (concat (map (\<lambda>w. AppendMessage 4 (marshal_Warn w)) ws) @ r) s =
    fold_fields (point_step mk) r (s\<lparr>pb_warns := pb_warns s @ ws\<rparr>)"
proof -
  have "unmarshalWarn (marshal_Warn w) = Some w" if "w \<in> set ws" for w
    using length_part[OF that, of marshal_Warn 4] assms by (intro unmarshalWarn_marshal) simp
  then have "fold_fields (point_step mk) (concat (map (\<lambda>w. AppendMessage 4 (marshal_Warn w)) ws) @ r) s =
      fold_fields (point_step mk) r (fold (\<lambda>w s. s\<lparr>pb_warns := pb_warns s @ [w]\<rparr>) ws s)"
    using assms by (intro fold_messages) (auto simp: point_step_def fc_Bytes_def keep_def)
  then show ?thesis by (simp only: fold_point_vars)
qed

lemma fold_point_debugs:
  assumes "length (concat (map (\<lambda>d. AppendMessage 5 (marshal_Debug d)) ds)) < 2 ^ 64"
  shows "fold_fields (point_step mk) (concat (map (\<lambda>d. AppendMessage 5 (marshal_Debug d)) ds) @ r) s =
    fold_fields (point_step mk) r (s\<lparr>pb_debugs := pb_debugs s @ ds\<rparr>)"
proof -
  have "unmarshalDebug (marshal_Debug d) = Some d" if "d \<in> set ds" for d
    using length_part[OF that, of marshal_Debug 5] assms by (intro unmarshalDebug_marshal) simp
  then have "fold_fields (point_step mk) (concat (map (\<lambda>d. AppendMessage 5 (marshal_Debug d)) ds) @ r) s =
      fold_fields (point_step mk) r (fold (\<lambda>d s. s\<lparr>pb_debugs := pb_debugs s @ [d]\<rparr>) ds s)"
    using assms by (intro fold_messages) (auto simp: point_step_def fc_Bytes_def keep_def)
  then show ?thesis by (simp only: fold_point_vars)
qed

lemma fold_point:
  assumes "go_point pt"
  shows "fold_fields (point_step mk) (marshalPoint pt) no_point = Some (received pt)"
proof -
  define F W D where "F = concat (map (\<lambda>f. AppendMessage 2 (marshal_Field f)) (pb_fields pt))"
    and "W = concat (map (\<lambda>w. AppendMessage 4 (marshal_Warn w)) (pb_warns pt))"
    and "D = concat (map (\<lambda>d. AppendMessage 5 (marshal_Debug d)) (pb_debugs pt))"
  note defs = F_def W_def D_def
  have m: "marshalPoint pt = AppendString 1 (pb_name pt) @ F @ AppendInt64 3 (pb_time pt) @ W @ D"
    by (simp add: marshalPoint_def defs)
  have len: "length (pb_name pt) < 2 ^ 64" "length F < 2 ^ 64" "length W < 2 ^ 64" "length D < 2 ^ 64"
    using assms length_AppendString[of "pb_name pt" 1] unfolding go_point_def m length_append by linarith+
  have wf: "list_all go_field (pb_fields pt)" "in_range 64 (pb_time pt)" using assms by (simp_all add: go_point_def)
  show ?thesis
    unfolding m using len wf
      fold_point_fields[OF wf(1), folded defs] fold_point_warns[of "pb_warns pt", folded defs]
      fold_point_debugs[of "pb_debugs pt" mk "[]", folded defs]
    by (simp add: append_defs fold_append wire_simps point_step_def fc_Bytes_def no_point_def received_def)
qed

text \<open>
  What \<open>NewPoint\<close> makes of a point's name, key-values and time; a point that was made that way is left alone, as long as its
  time is not negative.
\<close>

definition remade :: "marshal \<Rightarrow> bool \<Rightarrow> int \<Rightarrow> cfg option \<Rightarrow> PBPoint \<Rightarrow> PBPoint option" where
  "remade mk pb now pooled pt =
     map_option (\<lambda>p. pt\<lparr>pb_name := p_name p, pb_fields := p_fields p, pb_time := p_time p\<rparr>)
       (NewPoint mk pb now pooled (pb_name pt) (pb_fields pt) [WithTimestamp (pb_time pt)])"

lemma unmarshalPoint_marshal:
  assumes "go_point pt"
  shows "unmarshalPoint mk pb now pooled (marshalPoint pt) = map_option Some (remade mk pb now pooled (received pt))"
  by (simp add: unmarshalPoint_def fold_point[OF assms] remade_def split: option.split)

lemma Walk_Nil [simp]: "WalkPBPointsPayload [] fn s = Some (True, s)"
  by (simp add: WalkPBPointsPayload.simps)

lemma Walk_message:
  assumes "length body < 2 ^ 64"
  shows "WalkPBPointsPayload (AppendMessage 1 body @ r) fn s =
    (case fn s body of
       None \<Rightarrow> None
     | Some (go, s') \<Rightarrow> if go then WalkPBPointsPayload r fn s' else Some (True, s'))"
  using assms by (subst WalkPBPointsPayload.simps)
    (simp add: AppendMessage_def NextField_append fc_Bytes_def split: option.split bool.split)

lemma marshalPoints_Cons: "marshalPoints (Some pt # pts) [] = AppendMessage 1 (marshalPoint pt) @ marshalPoints pts []"
  by (simp add: marshalPoints_def)

lemma collect_point_marshal:
  "go_point pt \<Longrightarrow> collect_point mk pb now pooled acc (marshalPoint pt) =
    map_option (\<lambda>pt'. (True, acc @ [pt'])) (remade mk pb now pooled (received pt))"
  by (simp add: collect_point_def unmarshalPoint_marshal split: option.split)

lemma Walk_points:
  assumes "list_all go_point pts"
  shows "WalkPBPointsPayload (marshalPoints (map Some pts) [] @ r) (collect_point mk pb now pooled) acc =
    (case those (map (\<lambda>pt. remade mk pb now pooled (received pt)) pts) of
       None \<Rightarrow> None
     | Some qs \<Rightarrow> WalkPBPointsPayload r (collect_point mk pb now pooled) (acc @ qs))"
  using assms
proof (induction pts arbitrary: acc)
  case (Cons pt pts)
  then have pt: "go_point pt" "list_all go_point pts" by simp_all
  then have "length (marshalPoint pt) < 2 ^ 64" by (simp add: go_point_def)
  then show ?case
    using Cons.IH[OF pt(2)]
    by (simp add: marshalPoints_Cons Walk_message collect_point_marshal[OF pt(1)] del: One_nat_def split: option.split)
qed (simp add: marshalPoints_def)

text \<open>
  A point with nothing for the check to do: a name of allowed length, a time that is not negative, and key-values that are carried, have unique keys and are left
  alone by the check with the default configuration.
\<close>

definition plain_point :: "PBPoint \<Rightarrow> bool" where
  "plain_point pt \<longleftrightarrow> list_all carried (pb_fields pt) \<and> unique_keys (pb_fields pt) \<and> (\<forall>f \<in> set (pb_fields pt). settled newCfg f) \<and>
     within_limits newCfg (pb_fields pt) \<and> pb_name pt \<noteq> [] \<and> length (pb_name pt) \<le> 1024 \<and> 0 \<le> pb_time pt"

lemma timestamp_only:
  "valid_field_val (WithTimestamp t c) v = valid_field_val c v" "settled (WithTimestamp t c) f = settled c f"
  "within_limits (WithTimestamp t c) x = within_limits c x"
proof -
  show v: "valid_field_val (WithTimestamp t c) v = valid_field_val c v" for v by (cases v) (simp_all add: WithTimestamp_def)
  show "settled (WithTimestamp t c) f = settled c f" "within_limits (WithTimestamp t c) x = within_limits c x"
    by (simp_all add: settled_def within_limits_def valid_kv_def valid_key_def v) (simp_all add: WithTimestamp_def)
qed

lemma plain_point_remade:
  assumes "plain_point pt" "pooled = None \<or> pooled = Some newCfg"
  shows "remade mk pb now pooled (received pt) = Some pt"
proof -
  let ?c = "WithTimestamp (pb_time pt) newCfg"
  have r: "received pt = pt" using assms(1) by (intro received_id) (simp_all add: plain_point_def unique_keys_def)
  have g: "GetCfg pooled [WithTimestamp (pb_time pt)] = ?c" using assms(2) by (auto simp: GetCfg_def)
  have c: "c_extraTags ?c = []" "\<not> c_keySorted ?c" "c_precheck ?c" "c_timestamp ?c = pb_time pt" "c_requiredKeys ?c = []" "c_maxMeasurementLen ?c = 1024"
    by (simp_all add: WithTimestamp_def newCfg_def reset_cfg_def)
  obtain w where k: "checkKVs mk ?c (pb_fields pt) [] = Some (pb_fields pt, w)"
    using checkKVs_settled[of "pb_fields pt" ?c mk "[]"] assms(1) c(5) by (auto simp: plain_point_def timestamp_only)
  have m: "checkMeasurement ?c (pb_name pt) [] = (pb_name pt, [])"
    using assms(1) c(6) by (simp add: plain_point_def checkMeasurement_def too_long_def)
  have "0 \<le> pb_time pt" using assms(1) by (simp add: plain_point_def)
  then show ?thesis by (cases pb) (simp_all add: remade_def r NewPoint_def g doNewPoint_def c check_point_def m k SetFlag_def Let_def)
qed

subsection \<open>Sizes\<close>

definition val_length :: "field_val option \<Rightarrow> nat" where
  "val_length v = (case v of Some (Field_S s) \<Rightarrow> length s | Some (Field_D d) \<Rightarrow> length d | _ \<Rightarrow> 0)"

lemma length_marshal_Field:
  assumes "wire_val (fVal kv)" "length (fKey kv) + val_length (fVal kv) + length (fUnit kv) + length (fDesc kv) < 2 ^ 63"
  shows "length (marshal_Field kv) \<le> 120 + length (fKey kv) + val_length (fVal kv) + length (fUnit kv) + length (fDesc kv)"
proof -
  have v: "length (marshal_val (fVal kv)) \<le> 20 + val_length (fVal kv)"
    using assms length_append_bounds[of 2] length_append_bounds[of 3] length_append_bounds[of 4]
      length_append_bounds[of 5] length_append_bounds[of 6] length_append_bounds[of 11]
    by (auto simp: marshal_val_def val_length_def wire_val_def append_defs u64_of_int[simplified]
       nat_less_iff split: option.splits field_val.splits intro: order_trans)
  show ?thesis
    using v assms(2) length_append_bounds(3)[of 1 "fKey kv"] length_append_bounds(3)[of 10 "fUnit kv"]
      length_append_bounds(3)[of 12 "fDesc kv"]
      length_append_bounds(1)[of 8 "if fIsTag kv then 1 else 0"] length_append_bounds(1)[of 9 "nat (to_u32 (fType kv))"]
    by (simp add: marshal_Field_def append_defs u64_of_int[simplified])
qed

lemma length_messages:
  assumes "\<forall>x\<in>set xs. length (g x) \<le> B" "B < 2 ^ 64" "f < 1000"
  shows "length (concat (map (\<lambda>x. AppendMessage f (g x)) xs)) \<le> length xs * (20 + B)"
  using assms(1)
proof (induction xs)
  case (Cons x xs)
  then have "length (AppendMessage f (g x)) \<le> 20 + B"
    using length_append_bounds(3)[OF assms(3), of "g x"] assms(2) by (simp add: AppendMessage_def)
  with Cons show ?case by simp
qed simp

section \<open>Point: decoding in batches (point/easybatch.go)\<close>

text \<open>
  \<open>BatchPoints.Unmarshal\<close> reads the same messages into points and key-values it keeps for reuse.  \<open>Reset\<close> clears whatever
  reading sets, so the model starts from empty ones.  Unlike \<open>unmarshalPoints\<close> it neither checks the points nor drops repeated
  keys, it skips warnings and debug texts, and every value of the wrong wire type is an error (\<open>None\<close>).
\<close>

definition no_field :: Field where
  "no_field = \<lparr>fKey = [], fIsTag = False, fType = 0, fUnit = [], fDesc = [], fVal = None\<rparr>"

definition batch_field_step :: "Field \<Rightarrow> nat \<Rightarrow> wire \<Rightarrow> Field option" where
  "batch_field_step s n w =
     (if n = 1 then map_option (\<lambda>x. s\<lparr>fKey := x\<rparr>) (fc_Bytes w)
      else if n = 8 then map_option (\<lambda>x. s\<lparr>fIsTag := x\<rparr>) (fc_Bool w)
      else if n = 2 then map_option (\<lambda>x. s\<lparr>fVal := Some (Field_I x)\<rparr>) (fc_Int64 w)
      else if n = 3 then map_option (\<lambda>x. s\<lparr>fVal := Some (Field_U x)\<rparr>) (fc_Uint64 w)
      else if n = 4 then map_option (\<lambda>x. s\<lparr>fVal := Some (Field_F (Float64frombits x))\<rparr>) (fc_Fixed64 w)
      else if n = 5 then map_option (\<lambda>x. s\<lparr>fVal := Some (Field_B x)\<rparr>) (fc_Bool w)
      else if n = 6 then map_option (\<lambda>x. s\<lparr>fVal := Some (Field_D x)\<rparr>) (fc_Bytes w)
      else if n = 11 then map_option (\<lambda>x. s\<lparr>fVal := Some (Field_S x)\<rparr>) (fc_Bytes w)
      else if n = 9 then map_option (\<lambda>x. s\<lparr>fType := x\<rparr>) (fc_Int32 w)
      else if n = 10 then map_option (\<lambda>x. s\<lparr>fUnit := x\<rparr>) (fc_Bytes w)
      else if n = 12 then map_option (\<lambda>x. s\<lparr>fDesc := x\<rparr>) (fc_Bytes w)
      else Some s)"

definition batch_unmarshalField :: "bytes \<Rightarrow> Field option" where
  "batch_unmarshalField src = fold_fields batch_field_step src no_field"

definition batch_point_step :: "PBPoint \<Rightarrow> nat \<Rightarrow> wire \<Rightarrow> PBPoint option" where
  "batch_point_step s n w =
     (if n = 1 then map_option (\<lambda>x. s\<lparr>pb_name := x\<rparr>) (fc_Bytes w)
      else if n = 2
      then (case fc_Bytes w of
              None \<Rightarrow> None
            | Some data \<Rightarrow> map_option (\<lambda>kv. s\<lparr>pb_fields := pb_fields s @ [kv]\<rparr>) (batch_unmarshalField data))
      else if n = 3 then map_option (\<lambda>x. s\<lparr>pb_time := x\<rparr>) (fc_Int64 w)
      else Some s)"

definition batch_unmarshalPoint :: "bytes \<Rightarrow> PBPoint option" where
  "batch_unmarshalPoint src = fold_fields batch_point_step src no_point"

definition batch_step :: "PBPoint list \<Rightarrow> nat \<Rightarrow> wire \<Rightarrow> PBPoint list option" where
  "batch_step pts n w =
     (if n \<noteq> 1 then None
      else case fc_Bytes w of
             None \<Rightarrow> None
           | Some data \<Rightarrow> map_option (\<lambda>pt. pts @ [pt]) (batch_unmarshalPoint data))"

definition batch_Unmarshal :: "bytes \<Rightarrow> PBPoint list option" where
  "batch_Unmarshal src = fold_fields batch_step src []"

subsection \<open>The round trip\<close>

lemma batch_field_val:
  assumes "wire_val v" "length (marshal_val v) < 2 ^ 64"
  shows "fold_fields batch_field_step (marshal_val v @ r) s = fold_fields batch_field_step r (s\<lparr>fVal := v\<rparr>)"
proof -
  have len: "length d < 2 ^ 64" if "v = Some (Field_D d) \<or> v = Some (Field_S d)" for d
    using that assms(2) length_AppendString[of d 6] length_AppendString[of d 11]
    by (auto simp: marshal_val_def)
  show ?thesis
    using assms(1) len
    by (auto simp: wire_val_def marshal_val_def append_defs fold_append wire_simps batch_field_step_def
        fc_Uint64_def fc_Fixed64_def fc_Bytes_def nat_less_iff split: option.splits field_val.splits)
qed

lemma batch_unmarshalField_marshal:
  assumes "wire_field kv"
  shows "batch_unmarshalField (marshal_Field kv) = Some kv"
  using assms wire_field_lengths[of kv] assms[unfolded go_field_wire]
  by (simp add: batch_unmarshalField_def marshal_Field_def wire_field_def append_defs fold_append wire_simps
      batch_field_val batch_field_step_def fc_Bytes_def no_field_def)

lemma batch_point_vars:
  "fold (\<lambda>kv s. s\<lparr>pb_fields := pb_fields s @ [kv]\<rparr>) fs s = (s :: PBPoint)\<lparr>pb_fields := pb_fields s @ fs\<rparr>"
  by (induction fs arbitrary: s) simp_all

lemma batch_fields:
  assumes "list_all wire_field fs" "length (concat (map (\<lambda>f. AppendMessage 2 (marshal_Field f)) fs)) < 2 ^ 64"
  shows "fold_fields batch_point_step (concat (map (\<lambda>f. AppendMessage 2 (marshal_Field f)) fs) @ r) s =
    fold_fields batch_point_step r (s\<lparr>pb_fields := pb_fields s @ fs\<rparr>)"
proof -
  have "fold_fields batch_point_step (concat (map (\<lambda>f. AppendMessage 2 (marshal_Field f)) fs) @ r) s =
      fold_fields batch_point_step r (fold (\<lambda>kv s. s\<lparr>pb_fields := pb_fields s @ [kv]\<rparr>) fs s)"
    using assms
    by (intro fold_messages) (auto simp: batch_point_step_def fc_Bytes_def batch_unmarshalField_marshal list_all_iff)
  then show ?thesis by (simp only: batch_point_vars)
qed

lemma batch_skips:
  assumes "n = 4 \<or> n = 5" "length (concat (map (\<lambda>x. AppendMessage n (g x)) xs)) < 2 ^ 64"
  shows "fold_fields batch_point_step (concat (map (\<lambda>x. AppendMessage n (g x)) xs) @ r) s = fold_fields batch_point_step r s"
proof -
  have "fold_fields batch_point_step (concat (map (\<lambda>x. AppendMessage n (g x)) xs) @ r) s =
      fold_fields batch_point_step r (fold (\<lambda>x s. s) xs s)"
    using assms by (intro fold_messages) (auto simp: batch_point_step_def)
  moreover have "fold (\<lambda>x s. s) xs s = s" by (induction xs) simp_all
  ultimately show ?thesis by simp
qed

definition batch_point :: "PBPoint \<Rightarrow> bool" where
  "batch_point pt \<longleftrightarrow> list_all wire_field (pb_fields pt) \<and> in_range 64 (pb_time pt) \<and> length (marshalPoint pt) < 2 ^ 64"

lemma batch_unmarshalPoint_marshal:
  assumes "batch_point pt"
  shows "batch_unmarshalPoint (marshalPoint pt) = Some (pt\<lparr>pb_warns := [], pb_debugs := []\<rparr>)"
proof -
  define F W D where "F = concat (map (\<lambda>f. AppendMessage 2 (marshal_Field f)) (pb_fields pt))"
    and "W = concat (map (\<lambda>w. AppendMessage 4 (marshal_Warn w)) (pb_warns pt))"
    and "D = concat (map (\<lambda>d. AppendMessage 5 (marshal_Debug d)) (pb_debugs pt))"
  note defs = F_def W_def D_def
  have m: "marshalPoint pt = AppendString 1 (pb_name pt) @ F @ AppendInt64 3 (pb_time pt) @ W @ D"
    by (simp add: marshalPoint_def defs)
  have len: "length (pb_name pt) < 2 ^ 64" "length F < 2 ^ 64" "length W < 2 ^ 64" "length D < 2 ^ 64"
    using assms length_AppendString[of "pb_name pt" 1] unfolding batch_point_def m length_append by linarith+
  have wf: "list_all wire_field (pb_fields pt)" "in_range 64 (pb_time pt)"
    using assms by (simp_all add: batch_point_def)
  show ?thesis
    unfolding batch_unmarshalPoint_def m
    using len wf batch_fields[OF wf(1), folded defs] batch_skips[of 4 marshal_Warn "pb_warns pt", folded defs]
      batch_skips[of 5 marshal_Debug "pb_debugs pt" "[]", folded defs]
    by (simp add: append_defs fold_append wire_simps batch_point_step_def fc_Bytes_def no_point_def)
qed

lemma batch_Unmarshal_marshal:
  assumes "list_all batch_point pts"
  shows "fold_fields batch_step (marshalPoints (map Some pts) []) acc =
    Some (acc @ map (\<lambda>pt. pt\<lparr>pb_warns := [], pb_debugs := []\<rparr>) pts)"
  using assms
proof (induction pts arbitrary: acc)
  case (Cons pt pts)
  then have "length (marshalPoint pt) < 2 ^ 64" by (simp add: batch_point_def)
  with Cons show ?case
    by (simp add: marshalPoints_Cons AppendMessage_def fold_append batch_step_def fc_Bytes_def
        batch_unmarshalPoint_marshal del: One_nat_def)
qed (simp add: marshalPoints_def)

end
