(* ===== verification/Point_Wire_Props.thy ===== *)
theory Point_Wire_Props
  imports Point_Batch
begin

section \<open>Point: properties of the protobuf encoding\<close>

definition ex_marshal :: marshal where
  "ex_marshal n = None"

definition ex_wire :: "PBPoint list" where
  "ex_wire =
     [\<lparr>pb_name = ''cpu'',
       pb_fields = [\<lparr>fKey = ''host'', fIsTag = True, fType = 0, fUnit = [], fDesc = [], fVal = Some (Field_S ''web-1'')\<rparr>,
                    \<lparr>fKey = ''load'', fIsTag = False, fType = 2, fUnit = ''%'', fDesc = [], fVal = Some (Field_F (FFin (3 / 2)))\<rparr>,
                    \<lparr>fKey = ''delta'', fIsTag = False, fType = 0, fUnit = [], fDesc = [], fVal = Some (Field_I (- 300))\<rparr>],
       pb_time = 1700000000000000000, pb_warns = [(''w'', ''m'')], pb_debugs = [''d'']\<rparr>,
      \<lparr>pb_name = ''log'', pb_fields = [], pb_time = 0, pb_warns = [], pb_debugs = []\<rparr>]"

lemma ex_float: "is_float64 (FFin (3 / 2))"
  unfolding is_float64_def float_value_def
  by (auto simp: pow2_def intro!: exI[of _ 3] exI[of _ "- 1"])

lemma ex_wire_vals: "list_all (\<lambda>pt. list_all (\<lambda>f. wire_val (fVal f)) (pb_fields pt)) ex_wire"
  using ex_float by (simp add: ex_wire_def wire_val_def in_range_def)

lemma ex_wire_lengths:
  assumes "pt \<in> set ex_wire"
  shows "\<forall>f\<in>set (pb_fields pt). length (marshal_Field f) \<le> 130" "length (marshalPoint pt) < 1000"
proof -
  show f: "\<forall>f\<in>set (pb_fields pt). length (marshal_Field f) \<le> 130"
    using assms ex_wire_vals by (auto simp: ex_wire_def val_length_def intro!: length_marshal_Field[THEN order_trans])
  have w: "\<forall>w\<in>set (pb_warns pt). length (marshal_Warn w) \<le> 60" "\<forall>d\<in>set (pb_debugs pt). length (marshal_Debug d) \<le> 60"
    using assms length_append_bounds(3)[of 1 "''w''"] length_append_bounds(3)[of 2 "''m''"] length_append_bounds(3)[of 1 "''d''"]
    by (auto simp: ex_wire_def marshal_Warn_def marshal_Debug_def)
  show "length (marshalPoint pt) < 1000"
    using length_messages[OF f, of 2] length_messages[OF w(1), of 4] length_messages[OF w(2), of 5] assms
      length_append_bounds(3)[of 1 "pb_name pt"] length_append_bounds(1)[of 3 "nat (pb_time pt mod 2 ^ 64)"]
    by (auto simp: marshalPoint_def AppendInt64_def ex_wire_def)
qed

lemma ex_wire_fields: "list_all (\<lambda>pt. list_all wire_field (pb_fields pt)) ex_wire"
proof -
  have "list_all (\<lambda>pt. list_all (\<lambda>f. in_range 32 (fType f)) (pb_fields pt)) ex_wire" by (simp add: ex_wire_def in_range_def)
  then show ?thesis using ex_wire_vals ex_wire_lengths(1) by (fastforce simp: wire_field_def list_all_iff)
qed

lemma ex_wire_points: "list_all go_point ex_wire" "list_all plain_point ex_wire"
proof -
  have "list_all (\<lambda>pt. in_range 64 (pb_time pt)) ex_wire" by (simp add: ex_wire_def in_range_def)
  then show "list_all go_point ex_wire"
    using ex_wire_fields ex_wire_lengths(2) by (fastforce simp: go_point_def go_field_wire list_all_iff)
  show "list_all plain_point ex_wire"
    by (simp add: ex_wire_def plain_point_def carried_def unique_keys_def settled_def valid_kv_def valid_key_def limited_def clean_def within_limits_def
        newCfg_def reset_cfg_def)
qed

text \<open>
  C16.  What \<open>unmarshalPoints\<close> reads of what \<open>marshalPoints\<close> wrote, for all points whose numbers and lengths are those of Go values: as many points, in order,
  each what \<open>NewPoint\<close> makes of the name, the time and the key-values that were received, with its warnings and debug texts.  Received are the key-values whose
  value is present and not an array, and of those with the same key the first.  A point all of whose key-values are of that kind, have unique keys and pass
  the check, whose name is neither empty nor too long and whose time is not negative is read back unchanged where the configuration is the default one.
\<close>

theorem points_round_trip:
  assumes "list_all go_point pts"
  shows "unmarshalPoints mk pb now pooled (marshalPoints (map Some pts) []) =
      map_option Some (those (map (\<lambda>pt. remade mk pb now pooled (received pt)) pts)) \<and>
    (list_all plain_point pts \<and> (pooled = None \<or> pooled = Some newCfg) \<longrightarrow>
       unmarshalPoints mk pb now pooled (marshalPoints (map Some pts) []) = Some (Some pts))"
proof -
  let ?q = "those (map (\<lambda>pt. remade mk pb now pooled (received pt)) pts)"
  have u: "unmarshalPoints mk pb now pooled (marshalPoints (map Some pts) []) = map_option Some ?q"
    using Walk_points[OF assms, of "[]" mk pb now pooled "[]"] by (simp add: unmarshalPoints_def split: option.split)
  have "?q = Some pts" if "list_all plain_point pts" "pooled = None \<or> pooled = Some newCfg"
    using that(1) by (induction pts) (simp_all add: plain_point_remade[OF _ that(2)])
  then show ?thesis using u by auto
qed

theorem points_round_trip_witness:
  "list_all go_point ex_wire \<and> unmarshalPoints ex_marshal True 0 None (marshalPoints (map Some ex_wire) []) = Some (Some ex_wire)"
  using points_round_trip[OF ex_wire_points(1), of ex_marshal True 0 None] ex_wire_points by blast

text \<open>
  C17.  The batch decoder reads the same bytes back into the same names, key-values and times, repeated keys
  included, without going through a check; it leaves out the warnings and the debug texts.
\<close>

theorem batch_round_trip:
  assumes "list_all batch_point pts"
  shows "batch_Unmarshal (marshalPoints (map Some pts) []) = Some (map (\<lambda>pt. pt\<lparr>pb_warns := [], pb_debugs := []\<rparr>) pts)"
  using batch_Unmarshal_marshal[OF assms, of "[]"] by (simp add: batch_Unmarshal_def)

theorem batch_round_trip_witness:
  "list_all batch_point ex_wire \<and>
   batch_Unmarshal (marshalPoints (map Some ex_wire) []) = Some (map (\<lambda>pt. pt\<lparr>pb_warns := [], pb_debugs := []\<rparr>) ex_wire)"
proof -
  have "list_all batch_point ex_wire"
    using ex_wire_points(1) ex_wire_fields by (simp add: list_all_iff batch_point_def go_point_def)
  with batch_round_trip[of ex_wire] show ?thesis by simp
qed

text \<open>
  A point that cannot be read ends the reading without an error: \<open>unmarshalPoints\<close> returns the points in front of it
  and silently drops it and everything behind it.
\<close>

theorem corrupt_point_ends_silently:
  assumes "list_all go_point pts" "those (map (\<lambda>pt. remade mk pb now pooled (received pt)) pts) = Some qs"
    and "unmarshalPoint mk pb now pooled raw = Some None" "length raw < 2 ^ 64"
  shows "unmarshalPoints mk pb now pooled (marshalPoints (map Some pts) [] @ AppendMessage 1 raw @ rest) = Some (Some qs)"
  using Walk_points[OF assms(1), of "AppendMessage 1 raw @ rest" mk pb now pooled "[]"] assms
  by (simp add: unmarshalPoints_def Walk_message collect_point_def del: One_nat_def)

theorem corrupt_point_ends_silently_witness:
  "unmarshalPoint ex_marshal True 0 None [CHR 0x0A] = Some None \<and>
   unmarshalPoints ex_marshal True 0 None
     (marshalPoints (map Some ex_wire) [] @ AppendMessage 1 [CHR 0x0A] @ marshalPoints (map Some ex_wire) []) = Some (Some ex_wire)"
proof -
  have bad: "unmarshalPoint ex_marshal True 0 None [CHR 0x0A] = Some None" by code_simp
  have "those (map (\<lambda>pt. remade ex_marshal True 0 None (received pt)) ex_wire) = Some ex_wire"
    using ex_wire_points(2) plain_point_remade[of _ None] by (simp add: ex_wire_def)
  with corrupt_point_ends_silently[OF ex_wire_points(1) this bad] bad show ?thesis by simp
qed

end
