(* ===== verification/Tail_Types.thy ===== *)
theory Tail_Types
  imports Point_Wire Filter_Eval
begin

section \<open>Tail sampling: packets, payloads and pipelines (aggregate/tsdata.pb.go, zstd.go, point.go, tail-sampling.go)\<close>

text \<open>
  A trace (or a session, or another group of points) travels as a \<^emph>\<open>packet\<close>: its points as a protobuf payload, possibly compressed, and a summary of
  them.  Code outside the repository is a parameter: the compressor and the generated decoder of a point, and what Go leaves to
  the machine when a float that is out of range is converted to an integer.
\<close>


record codec =
  EncodeAll :: "bytes \<Rightarrow> bytes"
  DecodeAll :: "bytes \<Rightarrow> bytes option"
  pb_Unmarshal :: "bytes \<Rightarrow> Point_Kvs.KVs option"
  float_to_int :: "f64 \<Rightarrow> int"

record DataPacket =
  GroupIdHash :: nat
  RawGroupId :: string
  Token :: string
  Source :: string
  DataType :: string
  ConfigVersion :: int
  HasError :: bool
  GroupKey :: string
  PointCount :: int
  TraceStartTimeUnixNano :: int
  TraceEndTimeUnixNano :: int
  PointsPayload :: bytes
  MaxPointTimeUnixNano :: int
  PayloadCompression :: int
  PredError :: bool
  PredHttpError :: bool
  PredBizError :: bool
  PredTraceKeep :: bool
  MaxSpanDurationUs :: int
  RootDurationUs :: int
  MaxNonrootDurationUs :: int

subsection \<open>Compression\<close>

definition PayloadCompressionNone :: int where "PayloadCompressionNone = 0"
definition PayloadCompressionZstd :: int where "PayloadCompressionZstd = 1"

definition CompressPointsPayload :: "codec \<Rightarrow> bytes \<Rightarrow> bytes \<times> int" where
  "CompressPointsPayload cd payload =
     (if length payload = 0 then (payload, PayloadCompressionNone)
      else let compressed = EncodeAll cd payload in
           if length compressed \<ge> length payload then (payload, PayloadCompressionNone)
           else (compressed, PayloadCompressionZstd))"

definition DecompressPointsPayload :: "codec \<Rightarrow> bytes \<Rightarrow> int \<Rightarrow> bytes option" where
  "DecompressPointsPayload cd payload compression =
     (if length payload = 0 \<or> compression = PayloadCompressionNone then Some payload
      else if compression \<noteq> PayloadCompressionZstd then None
      else DecodeAll cd payload)"

definition compressPacketPayload :: "codec \<Rightarrow> DataPacket \<Rightarrow> DataPacket" where
  "compressPacketPayload cd packet =
     (case CompressPointsPayload cd (PointsPayload packet) of
        (compressed, compression) \<Rightarrow> packet\<lparr>PointsPayload := compressed, PayloadCompression := compression\<rparr>)"

subsection \<open>The points of a payload as key-value data\<close>

text \<open>\<open>ptWrap\<close> holds one decoded point; an empty message is a point without key-values.\<close>

definition ptWrap_Reset :: "codec \<Rightarrow> bytes \<Rightarrow> Point_Kvs.KVs option" where
  "ptWrap_Reset cd raw = (if length raw = 0 then Some [] else pb_Unmarshal cd raw)"

definition any_of_val :: "field_val option \<Rightarrow> go_any" where
  "any_of_val v =
     (case v of
        Some (Field_F x) \<Rightarrow> VFloat64 x
      | Some (Field_I x) \<Rightarrow> VInt KInt64 x
      | Some (Field_U x) \<Rightarrow> VInt KUint64 x
      | Some (Field_S x) \<Rightarrow> VString x
      | Some (Field_D x) \<Rightarrow> VOther ''[]uint8''
      | Some (Field_B x) \<Rightarrow> VBool x
      | _ \<Rightarrow> VNil)"

definition ptWrap_Get :: "Point_Kvs.KVs \<Rightarrow> string \<Rightarrow> go_any option" where
  "ptWrap_Get fs k = (case GetKV k fs of None \<Rightarrow> None | Some f \<Rightarrow> Some (any_of_val (fVal f)))"

text \<open>\<open>WalkRawPBPoints\<close>: decompress, then walk.  The error of either is \<open>False\<close>.\<close>

definition WalkRawPBPoints :: "codec \<Rightarrow> DataPacket \<Rightarrow> ('s \<Rightarrow> bytes \<Rightarrow> (bool \<times> 's) option) \<Rightarrow> 's \<Rightarrow> (bool \<times> 's) option" where
  "WalkRawPBPoints cd packet fn s =
     (case DecompressPointsPayload cd (PointsPayload packet) (PayloadCompression packet) of
        None \<Rightarrow> Some (False, s)
      | Some payload \<Rightarrow> WalkPBPointsPayload payload fn s)"

definition packetPointCount :: "DataPacket \<Rightarrow> int" where
  "packetPointCount packet = PointCount packet"

subsection \<open>Pipelines\<close>

abbreviation PipelineTypeCondition :: string where "PipelineTypeCondition \<equiv> ''condition''"
abbreviation PipelineTypeSampling :: string where "PipelineTypeSampling \<equiv> ''probabilistic''"
abbreviation PipelineActionKeep :: string where "PipelineActionKeep \<equiv> ''keep''"
abbreviation PipelineActionDrop :: string where "PipelineActionDrop \<equiv> ''drop''"

definition sampleRange :: nat where "sampleRange = 10000"

record SamplingPipeline =
  sp_Name :: string
  sp_Type :: string
  sp_Condition :: string
  sp_Action :: string
  sp_Rate :: f64
  sp_HashKeys :: "string list"
  sp_conds :: "WhereConditions option"

text \<open>A pipeline pointer may be \<open>nil\<close>.  The parser of conditions, \<open>fp.GetConds\<close>, is a parameter; \<open>None\<close> is its error.\<close>

type_synonym Pipelines = "SamplingPipeline option list"
type_synonym get_conds = "string \<Rightarrow> WhereConditions option"

definition Apply :: "get_conds \<Rightarrow> SamplingPipeline \<Rightarrow> bool \<times> SamplingPipeline" where
  "Apply gc sp =
     (if sp_Condition sp = [] then (True, sp\<lparr>sp_conds := None\<rparr>)
      else case gc (sp_Condition sp) of None \<Rightarrow> (False, sp) | Some ast \<Rightarrow> (True, sp\<lparr>sp_conds := Some ast\<rparr>))"

definition isMatchAllSampling :: "SamplingPipeline \<Rightarrow> bool" where
  "isMatchAllSampling sp \<longleftrightarrow> sp_Type sp = PipelineTypeSampling \<and> sp_Condition sp = [] \<and> f64_lt (FFin 0) (sp_Rate sp)"

definition f64_mul :: "f64 \<Rightarrow> rat \<Rightarrow> f64" where
  "f64_mul f c = (case f of FFin q \<Rightarrow> f64_of_rat (q * c) | FInf s \<Rightarrow> FInf s | FNaN \<Rightarrow> FNaN)"

definition rate_threshold :: "codec \<Rightarrow> f64 \<Rightarrow> nat" where
  "rate_threshold cd rate =
     (let x = f64_mul rate (of_nat sampleRange) in
      case x of
        FFin q \<Rightarrow> if 0 \<le> q \<and> q < 2 ^ 64 then nat \<lfloor>q\<rfloor> else nat (float_to_int cd x)
      | _ \<Rightarrow> nat (float_to_int cd x))"

text \<open>The packet to keep, or \<open>None\<close> to drop it.\<close>

definition pipelineMatchedPacket :: "codec \<Rightarrow> DataPacket \<Rightarrow> SamplingPipeline option \<Rightarrow> DataPacket option" where
  "pipelineMatchedPacket cd td pipeline =
     (case pipeline of
        None \<Rightarrow> None
      | Some sp \<Rightarrow>
          (if sp_Type sp = PipelineTypeSampling
           then if f64_le (sp_Rate sp) (FFin 0) then Some td
                else if GroupIdHash td mod sampleRange < rate_threshold cd (sp_Rate sp) then Some td
                else None
           else if sp_Type sp = PipelineTypeCondition
           then if sp_Action sp = PipelineActionDrop then None else Some td
           else Some td))"

definition pipelineMatchesPoint :: "regexp \<Rightarrow> Point_Kvs.KVs \<Rightarrow> SamplingPipeline option \<Rightarrow> bool option" where
  "pipelineMatchesPoint rx fs pipeline =
     (case pipeline of
        None \<Rightarrow> Some False
      | Some sp \<Rightarrow>
          (if sp_conds sp = None \<and> \<not> isMatchAllSampling sp then Some False
           else case (case sp_conds sp of None \<Rightarrow> Some 0 | Some cs \<Rightarrow> conds_Eval rx (ptWrap_Get fs) 0 cs) of
                  None \<Rightarrow> None
                | Some x \<Rightarrow>
                    (if x < 0 then Some False
                     else Some (\<not> (sp_Type sp = PipelineTypeSampling \<and> f64_le (sp_Rate sp) (FFin 0))))))"

end
