(* ===== verification/Tail_Predicates.thy ===== *)
theory Tail_Predicates
  imports Tail_Types
begin

section \<open>Tail sampling: deciding from the summary (aggregate/pipeline\_predicates.go, tail-sampling.go)\<close>

text \<open>
  A packet carries a summary of its spans: whether one of them has an error, the longest durations, and so on.  The
  conditions of pipelines are compiled to predicates on that summary where the source knows how; then a decision needs no
  decoding.  A predicate is a function on packets, and \<open>nil\<close> is \<open>None\<close>.  Compiling succeeds, gives up (the \<open>false\<close> of the source) or
  panics, which it does on a regular expression that did not compile: the parser leaves a \<open>nil\<close> pointer for it.
\<close>

datatype 'a compiled = CPanic | CFail | COk 'a

definition cbind :: "'a compiled \<Rightarrow> ('a \<Rightarrow> 'b compiled) \<Rightarrow> 'b compiled" where
  "cbind r f = (case r of CPanic \<Rightarrow> CPanic | CFail \<Rightarrow> CFail | COk x \<Rightarrow> f x)"

lemma cbind_simps [simp]: "cbind CPanic f = CPanic" "cbind CFail f = CFail" "cbind (COk x) f = f x"
  by (simp_all add: cbind_def)

lemma cbind_COk: "cbind r f = COk y \<longleftrightarrow> (\<exists>x. r = COk x \<and> f x = COk y)"
  by (cases r) auto

text \<open>Both sides are compiled before either is looked at.\<close>

definition cboth :: "'a compiled \<Rightarrow> 'a compiled \<Rightarrow> ('a \<Rightarrow> 'a \<Rightarrow> 'b compiled) \<Rightarrow> 'b compiled" where
  "cboth l r f =
     (case l of CPanic \<Rightarrow> CPanic
      | CFail \<Rightarrow> (case r of CPanic \<Rightarrow> CPanic | _ \<Rightarrow> CFail)
      | COk x \<Rightarrow> cbind r (f x))"

lemma cboth_COk: "cboth l r f = COk y \<longleftrightarrow> (\<exists>a b. l = COk a \<and> r = COk b \<and> f a b = COk y)"
  by (cases l; cases r) (auto simp: cboth_def)

definition covered :: "'a option \<Rightarrow> 'a compiled" where
  "covered x = (case x of None \<Rightarrow> CFail | Some a \<Rightarrow> COk a)"

type_synonym spanPredicateExpr = "DataPacket \<Rightarrow> bool"

definition packetHasSpanPredicates :: "DataPacket \<Rightarrow> bool" where
  "packetHasSpanPredicates packet \<longleftrightarrow>
     PredError packet \<or> PredHttpError packet \<or> PredBizError packet \<or> PredTraceKeep packet \<or>
     MaxSpanDurationUs packet > 0 \<or> RootDurationUs packet > 0 \<or> MaxNonrootDurationUs packet > 0"

subsection \<open>Predicate fragments\<close>

datatype parent_constraint = predParentNone | predParentRoot | predParentNonRoot

record spanPred =
  sp_flag :: "spanPredicateExpr option"
  sp_parentID :: parent_constraint
  sp_durationGT :: int

definition no_pred :: spanPred where
  "no_pred = \<lparr>sp_flag = None, sp_parentID = predParentNone, sp_durationGT = 0\<rparr>"

definition mergePreds :: "spanPred \<Rightarrow> spanPred \<Rightarrow> spanPred compiled" where
  "mergePreds a b =
     (let flag = (case (sp_flag a, sp_flag b) of
                    (Some fa, Some fb) \<Rightarrow> Some (\<lambda>packet. fa packet \<and> fb packet)
                  | (Some fa, None) \<Rightarrow> Some fa
                  | (None, fb) \<Rightarrow> fb)
      in if sp_parentID a \<noteq> predParentNone \<and> sp_parentID b \<noteq> predParentNone \<and> sp_parentID a \<noteq> sp_parentID b then CFail
         else COk \<lparr>sp_flag = flag,
                    sp_parentID = (if sp_parentID a \<noteq> predParentNone then sp_parentID a else sp_parentID b),
                    sp_durationGT = max (sp_durationGT a) (sp_durationGT b)\<rparr>)"

definition pred_duration :: "spanPred \<Rightarrow> spanPredicateExpr option" where
  "pred_duration p =
     (if sp_durationGT p > 0
      then Some (\<lambda>packet.
             (case sp_parentID p of
                predParentRoot \<Rightarrow> RootDurationUs packet
              | predParentNonRoot \<Rightarrow> MaxNonrootDurationUs packet
              | predParentNone \<Rightarrow> MaxSpanDurationUs packet) > sp_durationGT p)
      else None)"

definition spanPred_eval :: "spanPred \<Rightarrow> spanPredicateExpr option" where
  "spanPred_eval p =
     (case (sp_flag p, pred_duration p) of
        (Some flag, Some dur) \<Rightarrow> Some (\<lambda>packet. flag packet \<and> dur packet)
      | (Some flag, None) \<Rightarrow> Some flag
      | (None, dur) \<Rightarrow> dur)"

subsection \<open>Comparisons\<close>

fun stringLiteralValue :: "Node \<Rightarrow> string option" where
  "stringLiteralValue (StringLiteral s) = Some s"
| "stringLiteralValue n = None"

fun boolLiteralValue :: "Node \<Rightarrow> bool option" where
  "boolLiteralValue (BoolLiteral b) = Some b"
| "boolLiteralValue n = None"

fun numberLiteralInt :: "Node \<Rightarrow> int option" where
  "numberLiteralInt (NumberLiteral isInt f i) = (if isInt then Some i else None)"
| "numberLiteralInt n = None"

definition http_error_regexes :: "string list" where
  "http_error_regexes =
     [''^[45][0-9][0-9]$'', ''^4[0-9][0-9]$|^5[0-9][0-9]$'',
      ''^[45]'' @ [CHR 0x5C] @ ''d'' @ [CHR 0x5C] @ ''d$'',
      ''^4'' @ [CHR 0x5C] @ ''d'' @ [CHR 0x5C] @ ''d$|^5'' @ [CHR 0x5C] @ ''d'' @ [CHR 0x5C] @ ''d$'',
      ''^[45][0-9]{2}$'', ''^4[0-9]{2}$|^5[0-9]{2}$'']"

definition isHTTPErrorRegex :: "Node \<Rightarrow> bool compiled" where
  "isHTTPErrorRegex node =
     (case node of
        NodeList [NRegex (Some re)] \<Rightarrow> COk (re \<in> set http_error_regexes)
      | NodeList [NRegex None] \<Rightarrow> CPanic
      | _ \<Rightarrow> COk False)"

definition isBizErrorList :: "Node \<Rightarrow> bool" where
  "isBizErrorList node =
     (case node of
        NodeList items \<Rightarrow>
          length items = 3 \<and> StringLiteral ''0'' \<in> set items \<and> StringLiteral ''200'' \<in> set items \<and> NilLiteral \<in> set items
      | _ \<Rightarrow> False)"

definition flag_pred :: "spanPredicateExpr \<Rightarrow> spanPred" where
  "flag_pred f = no_pred\<lparr>sp_flag := Some f\<rparr>"

definition ok_if :: "bool \<Rightarrow> 'a \<Rightarrow> 'a compiled" where
  "ok_if c x = (if c then COk x else CFail)"

definition compileAtomic :: "ItemType \<Rightarrow> Node \<Rightarrow> Node \<Rightarrow> spanPred compiled" where
  "compileAtomic op lhs rhs =
     (case lhs of
        Identifier name \<Rightarrow>
          (if name = ''status'' then ok_if (op = EQ \<and> stringLiteralValue rhs = Some ''error'') (flag_pred PredError)
           else if name = ''http_status_code'' then
             (if op = MATCH then cbind (isHTTPErrorRegex rhs) (\<lambda>is_re. ok_if is_re (flag_pred PredHttpError)) else CFail)
           else if name = ''body_code'' then ok_if (op = NOT_IN \<and> isBizErrorList rhs) (flag_pred PredBizError)
           else if name = ''trace_keep'' then ok_if (op = EQ \<and> boolLiteralValue rhs = Some True) (flag_pred PredTraceKeep)
           else if name = ''parent_id'' then
             (if stringLiteralValue rhs = Some ''0''
              then if op = EQ then COk (no_pred\<lparr>sp_parentID := predParentRoot\<rparr>)
                   else ok_if (op = NEQ) (no_pred\<lparr>sp_parentID := predParentNonRoot\<rparr>)
              else CFail)
           else if name = ''duration'' then
             (case numberLiteralInt rhs of
                Some n \<Rightarrow> ok_if (op = GT \<and> n > 0) (no_pred\<lparr>sp_durationGT := n\<rparr>)
              | None \<Rightarrow> CFail)
           else CFail)
      | _ \<Rightarrow> CFail)"

text \<open>\<open>compilePred\<close> behind \<open>asBinaryExpr\<close>, which looks through parentheses; anything else is not compiled.\<close>

fun compilePred :: "Node \<Rightarrow> spanPred compiled" where
  "compilePred (ParenExpr n) = compilePred n"
| "compilePred (BinaryExpr op lhs rhs b) =
     (if op = AND then cboth (compilePred lhs) (compilePred rhs) mergePreds
      else if op = OR
      then cboth (compilePred lhs) (compilePred rhs) (\<lambda>l r.
             case (spanPred_eval l, spanPred_eval r) of
               (Some le, Some re) \<Rightarrow> COk (flag_pred (\<lambda>packet. le packet \<or> re packet))
             | _ \<Rightarrow> CFail)
      else compileAtomic op lhs rhs)"
| "compilePred n = CFail"

subsection \<open>Conditions and pipelines\<close>

fun merge_conds :: "spanPred \<Rightarrow> WhereCondition \<Rightarrow> spanPred compiled" where
  "merge_conds combined [] = COk combined"
| "merge_conds combined (node # nodes) =
     (case node of
        BinaryExpr op lhs rhs b \<Rightarrow>
          cbind (compilePred node) (\<lambda>part. cbind (mergePreds combined part) (\<lambda>m. merge_conds m nodes))
      | _ \<Rightarrow> CFail)"

text \<open>A condition that comes to no predicate cannot be covered.\<close>

definition compileWhereCondition :: "WhereCondition \<Rightarrow> spanPredicateExpr compiled" where
  "compileWhereCondition wc = cbind (merge_conds no_pred wc) (\<lambda>p. covered (spanPred_eval p))"

fun compile_conds :: "WhereConditions \<Rightarrow> spanPredicateExpr list compiled" where
  "compile_conds [] = COk []"
| "compile_conds (None # cs) = CFail"
| "compile_conds (Some wc # cs) = cbind (compileWhereCondition wc) (\<lambda>e. cbind (compile_conds cs) (\<lambda>es. COk (e # es)))"

definition compilePipelinePredicate :: "SamplingPipeline option \<Rightarrow> spanPredicateExpr compiled" where
  "compilePipelinePredicate pipeline =
     (case pipeline of
        None \<Rightarrow> CFail
      | Some sp \<Rightarrow>
          (if isMatchAllSampling sp then COk (\<lambda>packet. True)
           else case sp_conds sp of
                  None \<Rightarrow> CFail
                | Some cs \<Rightarrow> cbind (compile_conds cs) (\<lambda>exprs. COk (\<lambda>packet. list_ex (\<lambda>e. e packet) exprs))))"

fun compilePipelinesFast :: "Pipelines \<Rightarrow> spanPredicateExpr list compiled" where
  "compilePipelinesFast [] = COk []"
| "compilePipelinesFast (p # ps) =
     cbind (compilePipelinePredicate p) (\<lambda>e. cbind (compilePipelinesFast ps) (\<lambda>es. COk (e # es)))"

subsection \<open>Evaluating pipelines\<close>

text \<open>The first pipeline whose entry matches decides.\<close>

fun first_match :: "bool list \<Rightarrow> Pipelines \<Rightarrow> (SamplingPipeline option) option" where
  "first_match (m # ms) (p # ps) = (if m then Some p else first_match ms ps)"
| "first_match ms ps = None"

definition decided :: "codec \<Rightarrow> DataPacket \<Rightarrow> bool list \<Rightarrow> Pipelines \<Rightarrow> bool \<times> DataPacket option" where
  "decided cd td ms ps =
     (case first_match ms ps of None \<Rightarrow> (False, None) | Some p \<Rightarrow> (True, pipelineMatchedPacket cd td p))"

text \<open>Whether the first point of the payload can be decoded; the walk stops at it.\<close>

definition payloadHasDecodablePoint :: "codec \<Rightarrow> bytes \<Rightarrow> bool" where
  "payloadHasDecodablePoint cd payload =
     (case WalkPBPointsPayload payload
             (\<lambda>found raw. Some (False, case pb_Unmarshal cd raw of None \<Rightarrow> found | Some pb \<Rightarrow> True)) False of
        None \<Rightarrow> False
      | Some (ok, found) \<Rightarrow> found)"

text \<open>One point of the walk: every pipeline that has not matched yet is tried.\<close>

fun match_point :: "regexp \<Rightarrow> Point_Kvs.KVs \<Rightarrow> Pipelines \<Rightarrow> bool list \<Rightarrow> bool list option" where
  "match_point rx fs (p # ps) (m # ms) =
     (if m then map_option (\<lambda>r. True # r) (match_point rx fs ps ms)
      else case pipelineMatchesPoint rx fs p of
             None \<Rightarrow> None
           | Some b \<Rightarrow> map_option (\<lambda>r. b # r) (match_point rx fs ps ms))"
| "match_point rx fs ps ms = Some []"

definition walk_pipelines :: "codec \<Rightarrow> regexp \<Rightarrow> DataPacket \<Rightarrow> Pipelines \<Rightarrow> (bool \<times> DataPacket option) option" where
  "walk_pipelines cd rx td pipelines =
     (case WalkRawPBPoints cd td
             (\<lambda>ms raw. case ptWrap_Reset cd raw of
                          None \<Rightarrow> Some (False, ms)
                        | Some fs \<Rightarrow> map_option (\<lambda>ms'. (True, ms')) (match_point rx fs pipelines ms))
             (replicate (length pipelines) False) of
        None \<Rightarrow> None
      | Some (False, ms) \<Rightarrow> Some (False, None)
      | Some (True, ms) \<Rightarrow> Some (decided cd td ms pipelines))"

definition evaluatePipelines :: "codec \<Rightarrow> regexp \<Rightarrow> DataPacket \<Rightarrow> Pipelines \<Rightarrow> (bool \<times> DataPacket option) option" where
  "evaluatePipelines cd rx td pipelines =
     (if length pipelines = 0 then Some (False, None)
      else if length (PointsPayload td) > 0 \<and> packetHasSpanPredicates td
      then if PayloadCompression td = PayloadCompressionNone \<and> \<not> payloadHasDecodablePoint cd (PointsPayload td)
           then Some (False, None)
           else case compilePipelinesFast pipelines of
                  CPanic \<Rightarrow> None
                | COk exprs \<Rightarrow> Some (decided cd td (map (\<lambda>e. e td) exprs) pipelines)
                | CFail \<Rightarrow> walk_pipelines cd rx td pipelines
      else walk_pipelines cd rx td pipelines)"

definition DoAction :: "codec \<Rightarrow> regexp \<Rightarrow> SamplingPipeline \<Rightarrow> DataPacket \<Rightarrow> (bool \<times> DataPacket option) option" where
  "DoAction cd rx sp td =
     (if sp_conds sp = None \<and> \<not> isMatchAllSampling sp then Some (False, Some td)
      else case evaluatePipelines cd rx td [Some sp] of
             None \<Rightarrow> None
           | Some (matched, packet) \<Rightarrow> if \<not> matched then Some (False, Some td) else Some (True, packet))"

definition decideWithPredicates :: "codec \<Rightarrow> DataPacket \<Rightarrow> Pipelines \<Rightarrow> (bool \<times> DataPacket option) option" where
  "decideWithPredicates cd td pipelines =
     (case compilePipelinesFast pipelines of
        CPanic \<Rightarrow> None
      | CFail \<Rightarrow> Some (False, None)
      | COk exprs \<Rightarrow> Some (decided cd td (map (\<lambda>e. e td) exprs) pipelines))"

subsection \<open>The summary of the spans\<close>

definition isHTTPErrorStatus :: "string \<Rightarrow> bool" where
  "isHTTPErrorStatus code \<longleftrightarrow>
     (case code of [a, b, c] \<Rightarrow> a \<in> {CHR ''4'', CHR ''5''} \<and> is_digit b \<and> is_digit c | _ \<Rightarrow> False)"

text \<open>\<open>int64(d)\<close> of a float: towards zero; out of range it is up to the machine.\<close>

definition int_of_float :: "codec \<Rightarrow> f64 \<Rightarrow> int" where
  "int_of_float cd f =
     (case f of
        FFin q \<Rightarrow> (let i = (if q < 0 then \<lceil>q\<rceil> else \<lfloor>q\<rfloor>) in if in_range 64 i then i else float_to_int cd f)
      | _ \<Rightarrow> float_to_int cd f)"

definition apply_flags :: "(string \<Rightarrow> go_any option) \<Rightarrow> DataPacket \<Rightarrow> DataPacket" where
  "apply_flags get packet =
     packet\<lparr>PredError := PredError packet \<or> get ''status'' = Some (VString ''error''),
            PredHttpError := PredHttpError packet \<or>
              (case get ''http_status_code'' of Some (VString s) \<Rightarrow> isHTTPErrorStatus s | _ \<Rightarrow> False),
            PredBizError := PredBizError packet \<or>
              (case get ''body_code'' of Some (VString s) \<Rightarrow> s \<noteq> ''0'' \<and> s \<noteq> ''200'' | _ \<Rightarrow> False),
            PredTraceKeep := PredTraceKeep packet \<or> get ''trace_keep'' = Some (VBool True)\<rparr>"

definition span_duration :: "codec \<Rightarrow> (string \<Rightarrow> go_any option) \<Rightarrow> int option" where
  "span_duration cd get =
     (case get ''duration'' of
        Some (VInt KInt64 d) \<Rightarrow> Some d
      | Some (VFloat64 d) \<Rightarrow> Some (int_of_float cd d)
      | _ \<Rightarrow> None)"

definition applySpanPredicatesWith :: "codec \<Rightarrow> (string \<Rightarrow> go_any option) \<Rightarrow> DataPacket \<Rightarrow> DataPacket" where
  "applySpanPredicatesWith cd get packet0 =
     (let packet = apply_flags get packet0 in
      case span_duration cd get of
        None \<Rightarrow> packet
      | Some duration \<Rightarrow>
          (let packet = packet\<lparr>MaxSpanDurationUs := max (MaxSpanDurationUs packet) duration\<rparr> in
           case get ''parent_id'' of
             Some (VString pid) \<Rightarrow>
               (if pid = ''0'' then packet\<lparr>RootDurationUs := max (RootDurationUs packet) duration\<rparr>
                else packet\<lparr>MaxNonrootDurationUs := max (MaxNonrootDurationUs packet) duration\<rparr>)
           | _ \<Rightarrow> packet))"

text \<open>
  \<open>ComputeSpanPredicates\<close> computes the summary of a packet that has none.  Its walk keeps the summary so far and whether a point
  could not be decoded; \<open>False\<close> is an error, and then the packet is unchanged.
\<close>

definition zero_packet :: DataPacket where
  "zero_packet =
     \<lparr>GroupIdHash = 0, RawGroupId = [], Token = [], Source = [], DataType = [], ConfigVersion = 0, HasError = False,
      GroupKey = [], PointCount = 0, TraceStartTimeUnixNano = 0, TraceEndTimeUnixNano = 0, PointsPayload = [],
      MaxPointTimeUnixNano = 0, PayloadCompression = 0, PredError = False, PredHttpError = False, PredBizError = False,
      PredTraceKeep = False, MaxSpanDurationUs = 0, RootDurationUs = 0, MaxNonrootDurationUs = 0\<rparr>"

definition copy_summary :: "DataPacket \<Rightarrow> DataPacket \<Rightarrow> DataPacket" where
  "copy_summary tmp packet =
     packet\<lparr>PredError := PredError tmp, PredHttpError := PredHttpError tmp, PredBizError := PredBizError tmp,
            PredTraceKeep := PredTraceKeep tmp, MaxSpanDurationUs := MaxSpanDurationUs tmp,
            RootDurationUs := RootDurationUs tmp, MaxNonrootDurationUs := MaxNonrootDurationUs tmp\<rparr>"

definition summarise_point :: "codec \<Rightarrow> DataPacket \<times> bool \<Rightarrow> bytes \<Rightarrow> (bool \<times> DataPacket \<times> bool) option" where
  "summarise_point cd s raw =
     Some (case ptWrap_Reset cd raw of
             None \<Rightarrow> (False, fst s, True)
           | Some fs \<Rightarrow> (True, applySpanPredicatesWith cd (ptWrap_Get fs) (fst s), snd s))"

definition ComputeSpanPredicates :: "codec \<Rightarrow> DataPacket \<Rightarrow> bool \<times> DataPacket" where
  "ComputeSpanPredicates cd packet =
     (if packetHasSpanPredicates packet then (True, packet)
      else case WalkRawPBPoints cd packet (summarise_point cd) (zero_packet, False) of
             Some (True, tmp, False) \<Rightarrow> (True, copy_summary tmp packet)
           | _ \<Rightarrow> (False, packet))"

end
