(* ===== verification/Tail_Equiv.thy ===== *)
theory Tail_Equiv
  imports Tail_Predicates
begin

section \<open>Tail sampling: the spans of a packet and their summary\<close>

subsection \<open>A walk as a walk over a list\<close>

text \<open>The bodies of the points in a payload, and whether it could be read to its end.\<close>

function bodies :: "bytes \<Rightarrow> bytes list \<times> bool" where
  "bodies payload =
     (if payload = [] then ([], True)
      else case NextField payload of
             None \<Rightarrow> ([], False)
           | Some (n, w, r) \<Rightarrow>
               (if n \<noteq> 1 then bodies r
                else case fc_Bytes w of
                       None \<Rightarrow> ([], False)
                     | Some d \<Rightarrow> (case bodies r of (bs, ok) \<Rightarrow> (d # bs, ok))))"
  by pat_completeness auto
termination
  by (relation "measure length") (auto dest: NextField_shorter)

declare bodies.simps [simp del]

fun run_walk :: "('s \<Rightarrow> bytes \<Rightarrow> (bool \<times> 's) option) \<Rightarrow> bool \<Rightarrow> bytes list \<Rightarrow> 's \<Rightarrow> (bool \<times> 's) option" where
  "run_walk fn ok [] s = Some (ok, s)"
| "run_walk fn ok (b # bs) s =
     (case fn s b of
        None \<Rightarrow> None
      | Some (False, s') \<Rightarrow> Some (True, s')
      | Some (True, s') \<Rightarrow> run_walk fn ok bs s')"

lemma Walk_bodies: "WalkPBPointsPayload payload fn s = run_walk fn (snd (bodies payload)) (fst (bodies payload)) s"
proof (induction payload arbitrary: s rule: bodies.induct)
  case (1 payload)
  show ?case
    by (subst WalkPBPointsPayload.simps, subst (1 2) bodies.simps)
      (auto simp: 1 split: option.split bool.split prod.split)
qed

definition packet_bodies :: "codec \<Rightarrow> DataPacket \<Rightarrow> bytes list \<times> bool" where
  "packet_bodies cd packet =
     (case DecompressPointsPayload cd (PointsPayload packet) (PayloadCompression packet) of
        None \<Rightarrow> ([], False)
      | Some payload \<Rightarrow> bodies payload)"

lemma WalkRaw_bodies:
  "WalkRawPBPoints cd packet fn s = run_walk fn (snd (packet_bodies cd packet)) (fst (packet_bodies cd packet)) s"
  by (simp add: WalkRawPBPoints_def packet_bodies_def Walk_bodies split: option.split)

text \<open>The spans of a packet that can be decoded to its end.\<close>

definition has_spans :: "codec \<Rightarrow> DataPacket \<Rightarrow> Point_Kvs.KVs list \<Rightarrow> bool" where
  "has_spans cd packet spans \<longleftrightarrow>
     snd (packet_bodies cd packet) \<and> map (ptWrap_Reset cd) (fst (packet_bodies cd packet)) = map Some spans"

subsection \<open>The summary\<close>

definition summary :: "codec \<Rightarrow> Point_Kvs.KVs list \<Rightarrow> DataPacket" where
  "summary cd spans = fold (\<lambda>fs. applySpanPredicatesWith cd (ptWrap_Get fs)) spans zero_packet"

lemma decoded_Cons:
  "map f (b # bs) = map Some spans \<longleftrightarrow> (\<exists>fs rest. f b = Some fs \<and> map f bs = map Some rest \<and> spans = fs # rest)"
  by (auto simp: Cons_eq_map_conv)

lemma run_summarise:
  "run_walk (summarise_point cd) ok bs s = Some (True, tmp, False) \<longleftrightarrow>
    ok \<and> \<not> snd s \<and> (\<exists>spans. map (ptWrap_Reset cd) bs = map Some spans \<and>
      tmp = fold (\<lambda>fs. applySpanPredicatesWith cd (ptWrap_Get fs)) spans (fst s))"
proof (induction bs arbitrary: s)
  case Nil
  then show ?case by (cases s) auto
next
  case (Cons b bs)
  then show ?case
    by (cases "ptWrap_Reset cd b") (auto simp: summarise_point_def decoded_Cons simp del: list.map)
qed

lemma ComputeSpanPredicates_ok:
  assumes "ComputeSpanPredicates cd p0 = (True, p)" "\<not> packetHasSpanPredicates p0"
  shows "\<exists>spans. has_spans cd p spans \<and> p = copy_summary (summary cd spans) p0"
proof -
  from assms have "\<exists>tmp. WalkRawPBPoints cd p0 (summarise_point cd) (zero_packet, False) = Some (True, tmp, False) \<and> p = copy_summary tmp p0"
    by (auto simp: ComputeSpanPredicates_def split: option.splits bool.splits prod.splits)
  then obtain spans where "snd (packet_bodies cd p0)" "map (ptWrap_Reset cd) (fst (packet_bodies cd p0)) = map Some spans"
    "p = copy_summary (summary cd spans) p0"
    by (auto simp: WalkRaw_bodies run_summarise summary_def)
  then show ?thesis by (auto simp: has_spans_def packet_bodies_def copy_summary_def)
qed

text \<open>What one span says, and that the summary says it of some span.\<close>

definition span_error :: "(string \<Rightarrow> go_any option) \<Rightarrow> bool" where
  "span_error get \<longleftrightarrow> get ''status'' = Some (VString ''error'')"

definition span_http_error :: "(string \<Rightarrow> go_any option) \<Rightarrow> bool" where
  "span_http_error get \<longleftrightarrow> (case get ''http_status_code'' of Some (VString s) \<Rightarrow> isHTTPErrorStatus s | _ \<Rightarrow> False)"

definition span_biz_error :: "(string \<Rightarrow> go_any option) \<Rightarrow> bool" where
  "span_biz_error get \<longleftrightarrow> (case get ''body_code'' of Some (VString s) \<Rightarrow> s \<noteq> ''0'' \<and> s \<noteq> ''200'' | _ \<Rightarrow> False)"

definition span_keep :: "(string \<Rightarrow> go_any option) \<Rightarrow> bool" where
  "span_keep get \<longleftrightarrow> get ''trace_keep'' = Some (VBool True)"

definition longer :: "codec \<Rightarrow> int \<Rightarrow> (string \<Rightarrow> go_any option) \<Rightarrow> bool" where
  "longer cd n get \<longleftrightarrow> (case span_duration cd get of Some d \<Rightarrow> d > n | None \<Rightarrow> False)"

definition root_span :: "(string \<Rightarrow> go_any option) \<Rightarrow> bool" where
  "root_span get \<longleftrightarrow> get ''parent_id'' = Some (VString ''0'')"

definition nonroot_span :: "(string \<Rightarrow> go_any option) \<Rightarrow> bool" where
  "nonroot_span get \<longleftrightarrow> (\<exists>pid. get ''parent_id'' = Some (VString pid) \<and> pid \<noteq> ''0'')"

lemmas span_defs = span_error_def span_http_error_def span_biz_error_def span_keep_def longer_def root_span_def nonroot_span_def

lemma apply_flags_fields:
  "PredError (apply_flags get p) \<longleftrightarrow> PredError p \<or> span_error get"
  "PredHttpError (apply_flags get p) \<longleftrightarrow> PredHttpError p \<or> span_http_error get"
  "PredBizError (apply_flags get p) \<longleftrightarrow> PredBizError p \<or> span_biz_error get"
  "PredTraceKeep (apply_flags get p) \<longleftrightarrow> PredTraceKeep p \<or> span_keep get"
  "MaxSpanDurationUs (apply_flags get p) = MaxSpanDurationUs p"
  "RootDurationUs (apply_flags get p) = RootDurationUs p"
  "MaxNonrootDurationUs (apply_flags get p) = MaxNonrootDurationUs p"
  by (simp_all add: apply_flags_def span_defs)

lemma apply_fields:
  "PredError (applySpanPredicatesWith cd get p) \<longleftrightarrow> PredError p \<or> span_error get"
  "PredHttpError (applySpanPredicatesWith cd get p) \<longleftrightarrow> PredHttpError p \<or> span_http_error get"
  "PredBizError (applySpanPredicatesWith cd get p) \<longleftrightarrow> PredBizError p \<or> span_biz_error get"
  "PredTraceKeep (applySpanPredicatesWith cd get p) \<longleftrightarrow> PredTraceKeep p \<or> span_keep get"
  "n < MaxSpanDurationUs (applySpanPredicatesWith cd get p) \<longleftrightarrow> n < MaxSpanDurationUs p \<or> longer cd n get"
  "n < RootDurationUs (applySpanPredicatesWith cd get p) \<longleftrightarrow> n < RootDurationUs p \<or> root_span get \<and> longer cd n get"
  "n < MaxNonrootDurationUs (applySpanPredicatesWith cd get p) \<longleftrightarrow>
     n < MaxNonrootDurationUs p \<or> nonroot_span get \<and> longer cd n get"
  by (auto simp: applySpanPredicatesWith_def apply_flags_fields longer_def root_span_def nonroot_span_def Let_def
      split: option.split go_any.split)

lemma fold_apply_fields:
  fixes spans :: "Point_Kvs.KVs list" and cd :: codec
  defines "S \<equiv> \<lambda>p. fold (\<lambda>fs. applySpanPredicatesWith cd (ptWrap_Get fs)) spans p"
  shows "PredError (S p) \<longleftrightarrow> PredError p \<or> (\<exists>fs\<in>set spans. span_error (ptWrap_Get fs))"
    "PredHttpError (S p) \<longleftrightarrow> PredHttpError p \<or> (\<exists>fs\<in>set spans. span_http_error (ptWrap_Get fs))"
    "PredBizError (S p) \<longleftrightarrow> PredBizError p \<or> (\<exists>fs\<in>set spans. span_biz_error (ptWrap_Get fs))"
    "PredTraceKeep (S p) \<longleftrightarrow> PredTraceKeep p \<or> (\<exists>fs\<in>set spans. span_keep (ptWrap_Get fs))"
    "n < MaxSpanDurationUs (S p) \<longleftrightarrow> n < MaxSpanDurationUs p \<or> (\<exists>fs\<in>set spans. longer cd n (ptWrap_Get fs))"
    "n < RootDurationUs (S p) \<longleftrightarrow>
       n < RootDurationUs p \<or> (\<exists>fs\<in>set spans. root_span (ptWrap_Get fs) \<and> longer cd n (ptWrap_Get fs))"
    "n < MaxNonrootDurationUs (S p) \<longleftrightarrow>
       n < MaxNonrootDurationUs p \<or> (\<exists>fs\<in>set spans. nonroot_span (ptWrap_Get fs) \<and> longer cd n (ptWrap_Get fs))"
  unfolding S_def by (induction spans arbitrary: p) (auto simp: apply_fields)

lemma summary_fields:
  "PredError (copy_summary (summary cd spans) p) \<longleftrightarrow> (\<exists>fs\<in>set spans. span_error (ptWrap_Get fs))"
  "PredHttpError (copy_summary (summary cd spans) p) \<longleftrightarrow> (\<exists>fs\<in>set spans. span_http_error (ptWrap_Get fs))"
  "PredBizError (copy_summary (summary cd spans) p) \<longleftrightarrow> (\<exists>fs\<in>set spans. span_biz_error (ptWrap_Get fs))"
  "PredTraceKeep (copy_summary (summary cd spans) p) \<longleftrightarrow> (\<exists>fs\<in>set spans. span_keep (ptWrap_Get fs))"
  "0 \<le> n \<Longrightarrow> n < MaxSpanDurationUs (copy_summary (summary cd spans) p) \<longleftrightarrow> (\<exists>fs\<in>set spans. longer cd n (ptWrap_Get fs))"
  "0 \<le> n \<Longrightarrow> n < RootDurationUs (copy_summary (summary cd spans) p) \<longleftrightarrow>
     (\<exists>fs\<in>set spans. root_span (ptWrap_Get fs) \<and> longer cd n (ptWrap_Get fs))"
  "0 \<le> n \<Longrightarrow> n < MaxNonrootDurationUs (copy_summary (summary cd spans) p) \<longleftrightarrow>
     (\<exists>fs\<in>set spans. nonroot_span (ptWrap_Get fs) \<and> longer cd n (ptWrap_Get fs))"
  by (simp_all add: copy_summary_def summary_def fold_apply_fields zero_packet_def)

section \<open>Tail sampling: compiled predicates against the walk\<close>

text \<open>
  The two ways of deciding a pipeline, from the summary and by walking the points, meet here.  The comparisons the compiler knows are
  \<^emph>\<open>atoms\<close>; each speaks about one span, and on spans as tracers write them evaluating the comparison gives what the atom says.
\<close>

datatype atom = AError | AHttp | ABiz | AKeep | ARoot | ANonroot | ALonger int

fun atom_pred :: "atom \<Rightarrow> spanPred" where
  "atom_pred AError = flag_pred PredError"
| "atom_pred AHttp = flag_pred PredHttpError"
| "atom_pred ABiz = flag_pred PredBizError"
| "atom_pred AKeep = flag_pred PredTraceKeep"
| "atom_pred ARoot = no_pred\<lparr>sp_parentID := predParentRoot\<rparr>"
| "atom_pred ANonroot = no_pred\<lparr>sp_parentID := predParentNonRoot\<rparr>"
| "atom_pred (ALonger n) = no_pred\<lparr>sp_durationGT := n\<rparr>"

fun atom_holds :: "codec \<Rightarrow> atom \<Rightarrow> (string \<Rightarrow> go_any option) \<Rightarrow> bool" where
  "atom_holds cd AError get = span_error get"
| "atom_holds cd AHttp get = span_http_error get"
| "atom_holds cd ABiz get = span_biz_error get"
| "atom_holds cd AKeep get = span_keep get"
| "atom_holds cd ARoot get = root_span get"
| "atom_holds cd ANonroot get = nonroot_span get"
| "atom_holds cd (ALonger n) get = longer cd n get"

text \<open>
  Spans as tracers write them: a body code is text, so is the parent, and there is one, durations are not floating-point numbers, and no value
  is missing its content.  The regular expressions in the table match exactly the error codes.
\<close>

definition typed_span :: "(string \<Rightarrow> go_any option) \<Rightarrow> bool" where
  "typed_span get \<longleftrightarrow>
     get ''status'' \<noteq> Some VNil \<and> get ''trace_keep'' \<noteq> Some VNil \<and>
     (case get ''body_code'' of None \<Rightarrow> True | Some (VString s) \<Rightarrow> True | _ \<Rightarrow> False) \<and>
     (case get ''parent_id'' of Some (VString s) \<Rightarrow> True | _ \<Rightarrow> False) \<and>
     (case get ''duration'' of Some (VFloat64 f) \<Rightarrow> False | Some VNil \<Rightarrow> False | Some (VInt k d) \<Rightarrow> in_range 64 d | _ \<Rightarrow> True)"

definition http_regexp :: "regexp \<Rightarrow> bool" where
  "http_regexp rx \<longleftrightarrow> (\<forall>re\<in>set http_error_regexes. \<forall>s. rx re s = Some (isHTTPErrorStatus s))"

lemma literal_values:
  "stringLiteralValue n = Some s \<longleftrightarrow> n = StringLiteral s"
  "boolLiteralValue n = Some v \<longleftrightarrow> n = BoolLiteral v"
  "numberLiteralInt n = Some i \<longleftrightarrow> (\<exists>f. n = NumberLiteral True f i)"
  by (cases n; auto)+

lemma isHTTPErrorRegex_True: "isHTTPErrorRegex n = COk True \<longleftrightarrow> (\<exists>re\<in>set http_error_regexes. n = NodeList [NRegex (Some re)])"
  by (auto simp: isHTTPErrorRegex_def split: Node.splits list.splits option.splits)

subsection \<open>Comparing with a literal\<close>

lemma typeName_lit:
  "typeName v = Some ''string'' \<Longrightarrow> (\<exists>s. v = VString s) \<or> v = VOther ''string''"
  "typeName v = Some ''bool'' \<Longrightarrow> (\<exists>s. v = VBool s) \<or> v = VOther ''bool''"
  "typeName v = Some ''int64'' \<Longrightarrow> (\<exists>s. v = VInt KInt64 s) \<or> v = VOther ''int64''"
  by (cases v; auto simp: typeName_def ikind_name_def split: ikind.splits)+

lemma binEval_cmp:
  assumes "is_cmp op" "v \<noteq> VNil" "lit \<noteq> VNil" "lit \<noteq> VNilLit" "\<forall>r. lit \<noteq> VRegex r"
  shows "binEval rx op v lit =
    (if typeName v = typeName lit
     then if op = EQ then eq_eval rx v lit else if op = NEQ then Some (\<not> iface_eq v lit) else Some (order_eval op v lit)
     else Some False)"
proof -
  obtain a b where "typeName v = Some a" "typeName lit = Some b"
    using assms(2,3) typeName_None by (metis option.exhaust)
  then show ?thesis
    using assms by (cases lit) (auto simp: binEval_def binEval_check_def is_cmp_def is_order_def)
qed

lemma is_cmp_ops: "is_cmp EQ" "is_cmp NEQ" "is_cmp GT" "\<not> is_match EQ" "\<not> is_match NEQ" "\<not> is_match GT" "is_match MATCH"
  "\<not> is_match NOT_IN" "is_in NOT_IN"
  by (simp_all add: is_cmp_def is_order_def is_match_def is_in_def)

lemma binEval_literal:
  assumes "v \<noteq> VNil"
  shows "binEval rx EQ v (VString s) = Some (v = VString s)"
    "binEval rx EQ v (VBool b) = Some (v = VBool b)"
    "binEval rx GT v (VInt KInt64 n) = Some (\<exists>d. v = VInt KInt64 d \<and> n < to_i64 d)"
proof -
  have n: "typeName (VString s) = Some ''string''" "typeName (VBool b) = Some ''bool''" "typeName (VInt KInt64 m) = Some ''int64''" for m
    by (simp_all add: typeName_def ikind_name_def)
  show "binEval rx EQ v (VString s) = Some (v = VString s)"
    using assms typeName_lit(1)[of v] by (cases "typeName v = Some ''string''") (auto simp: binEval_cmp is_cmp_ops n eq_eval_def)
  show "binEval rx EQ v (VBool b) = Some (v = VBool b)"
    using assms typeName_lit(2)[of v] by (cases "typeName v = Some ''bool''") (auto simp: binEval_cmp is_cmp_ops n eq_eval_def)
  show "binEval rx GT v (VInt KInt64 n) = Some (\<exists>d. v = VInt KInt64 d \<and> n < to_i64 d)"
    using assms typeName_lit(3)[of v]
    by (cases "typeName v = Some ''int64''") (auto simp: binEval_cmp is_cmp_ops n order_eval_def cmpint_def)
qed

lemma binEval_neq: "binEval rx NEQ (VString t) (VString s) = Some (t \<noteq> s)"
  by (simp add: binEval_cmp is_cmp_ops typeName_def)

lemma binEval_nil:
  "binEval rx EQ (VString s) VNilLit = Some False" "binEval rx EQ (VBool b) VNilLit = Some False"
  "binEval rx EQ VNilLit VNilLit = Some True" "binEval rx GT (VInt k n) VNilLit = Some False"
  by (simp_all add: binEval_def binEval_check_def typeName_def is_cmp_ops eq_eval_def order_eval_def)

subsection \<open>Comparisons are atoms\<close>

lemma Eval_cmp:
  assumes "op \<noteq> AND" "op \<noteq> OR" "rhs \<noteq> NNone" "rhs_value rhs = Some (lit, arr)" "is_cmp op \<or> is_in op \<or> is_match op"
  shows "Eval rx get (BinaryExpr op (Identifier name) rhs b) = ident_eval rx op (get name) rhs lit arr"
  using assms by (simp add: doEval_def singleEval_def)

lemma Eval_cmp_literal:
  assumes "literal rhs = Some lit" "op \<in> {EQ, NEQ, GT}"
  shows "Eval rx get (BinaryExpr op (Identifier name) rhs b) =
    (case get name of Some x \<Rightarrow> binEval rx op x lit | None \<Rightarrow> binEval rx op lit VNilLit)"
proof -
  have "rhs \<noteq> NNone" "rhs_value rhs = Some (lit, [])"
    using assms(1) by (cases rhs; simp add: literal_def rhs_value_def)+
  with assms(2) show ?thesis
    by (subst Eval_cmp) (auto simp: is_cmp_ops ident_eval_def)
qed

lemma not_in_loop_all:
  assumes "\<forall>x\<in>set arr. (case v of Some y \<Rightarrow> binEval rx EQ y x | None \<Rightarrow> binEval rx EQ x VNilLit) = Some (P x)"
  shows "not_in_loop rx v arr = Some (\<forall>x\<in>set arr. \<not> P x)"
  using assms by (induction arr) (auto split: bool.split)

lemma set_map_filter: "set (List.map_filter f xs) = {y. \<exists>x\<in>set xs. f x = Some y}"
  by (induction xs) (auto simp: List.map_filter_simps split: option.split)

lemma biz_elements:
  assumes "isBizErrorList (NodeList items)"
  shows "set (List.map_filter literal items) = {VString ''0'', VString ''200'', VNilLit}"
proof -
  let ?T = "{StringLiteral ''0'', StringLiteral ''200'', NilLiteral}"
  have "?T \<subseteq> set items" "length items = 3" using assms by (auto simp: isBizErrorList_def)
  moreover have "card (set items) \<le> card ?T" using card_length[of items] calculation(2) by simp
  ultimately have "set items = ?T" by (metis card_seteq finite_set)
  then show ?thesis by (auto simp: set_map_filter literal_def)
qed

lemma Eval_biz:
  assumes "isBizErrorList rhs" "case get ''body_code'' of None \<Rightarrow> True | Some (VString s) \<Rightarrow> True | _ \<Rightarrow> False"
  shows "Eval rx get (BinaryExpr NOT_IN (Identifier ''body_code'') rhs b) = Some (span_biz_error get)"
proof -
  obtain items where r: "rhs = NodeList items" using assms(1) by (cases rhs) (auto simp: isBizErrorList_def)
  have "Eval rx get (BinaryExpr NOT_IN (Identifier ''body_code'') rhs b) =
      not_in_loop rx (get ''body_code'') (List.map_filter literal items)"
    unfolding r by (subst Eval_cmp) (auto simp: is_cmp_ops rhs_value_def ident_eval_def)
  also have "\<dots> = Some (\<forall>x\<in>{VString ''0'', VString ''200'', VNilLit}. \<not> (case get ''body_code'' of None \<Rightarrow> x = VNilLit | Some y \<Rightarrow> x = y))"
  proof (subst biz_elements[OF assms(1)[unfolded r], symmetric], rule not_in_loop_all, unfold biz_elements[OF assms(1)[unfolded r]])
    show "\<forall>x\<in>{VString ''0'', VString ''200'', VNilLit}.
       (case get ''body_code'' of Some y \<Rightarrow> binEval rx EQ y x | None \<Rightarrow> binEval rx EQ x VNilLit) =
       Some (case get ''body_code'' of None \<Rightarrow> x = VNilLit | Some y \<Rightarrow> x = y)"
      using assms(2) by (auto simp: binEval_literal binEval_nil split: option.splits go_any.splits)
  qed
  also have "\<dots> = Some (span_biz_error get)"
    using assms(2) by (auto simp: span_biz_error_def split: option.splits go_any.splits)
  finally show ?thesis .
qed

lemma Eval_http:
  assumes "http_regexp rx" "re \<in> set http_error_regexes"
  shows "Eval rx get (BinaryExpr MATCH (Identifier ''http_status_code'') (NodeList [NRegex (Some re)]) b) = Some (span_http_error get)"
proof -
  have "rx re s = Some (isHTTPErrorStatus s)" for s using assms by (simp add: http_regexp_def)
  then have "binEval rx MATCH (VString s) (VRegex (Some re)) = Some (isHTTPErrorStatus s)" for s
    by (simp add: binEval_def binEval_check_def match_eval_def)
  then show ?thesis
    by (subst Eval_cmp) (auto simp: is_cmp_ops rhs_value_def ident_eval_def span_http_error_def
        split: option.split go_any.split bool.split)
qed

lemma Eval_flags:
  assumes "typed_span get"
  shows "Eval rx get (BinaryExpr EQ (Identifier ''status'') (StringLiteral ''error'') b) = Some (span_error get)"
    "Eval rx get (BinaryExpr EQ (Identifier ''trace_keep'') (BoolLiteral True) b) = Some (span_keep get)"
    "Eval rx get (BinaryExpr EQ (Identifier ''parent_id'') (StringLiteral ''0'') b) = Some (root_span get)"
    "Eval rx get (BinaryExpr NEQ (Identifier ''parent_id'') (StringLiteral ''0'') b) = Some (nonroot_span get)"
    "Eval rx get (BinaryExpr GT (Identifier ''duration'') (NumberLiteral True f n) b) = Some (longer cd n get)"
proof -
  note t = assms[unfolded typed_span_def]
  show "Eval rx get (BinaryExpr EQ (Identifier ''status'') (StringLiteral ''error'') b) = Some (span_error get)"
    using t by (subst Eval_cmp_literal) (auto simp: literal_def span_error_def binEval_literal binEval_nil split: option.split)
  show "Eval rx get (BinaryExpr EQ (Identifier ''trace_keep'') (BoolLiteral True) b) = Some (span_keep get)"
    using t by (subst Eval_cmp_literal) (auto simp: literal_def span_keep_def binEval_literal binEval_nil split: option.split)
  obtain pid where pid: "get ''parent_id'' = Some (VString pid)"
    using t by (auto split: option.splits go_any.splits)
  then show "Eval rx get (BinaryExpr EQ (Identifier ''parent_id'') (StringLiteral ''0'') b) = Some (root_span get)"
    by (subst Eval_cmp_literal) (auto simp: literal_def root_span_def binEval_literal)
  show "Eval rx get (BinaryExpr NEQ (Identifier ''parent_id'') (StringLiteral ''0'') b) = Some (nonroot_span get)"
    using pid by (subst Eval_cmp_literal) (auto simp: literal_def nonroot_span_def binEval_neq)
  have d: "(case get ''duration'' of Some (VFloat64 f) \<Rightarrow> False | Some VNil \<Rightarrow> False | Some (VInt k d) \<Rightarrow> in_range 64 d | _ \<Rightarrow> True)"
    using t by simp
  show "Eval rx get (BinaryExpr GT (Identifier ''duration'') (NumberLiteral True f n) b) = Some (longer cd n get)"
  proof (cases "get ''duration''")
    case None
    then show ?thesis
      by (subst Eval_cmp_literal) (auto simp: literal_def longer_def span_duration_def binEval_nil)
  next
    case (Some v)
    with d have "v \<noteq> VNil" by auto
    with d Some show ?thesis
      by (subst Eval_cmp_literal)
        (auto simp: literal_def longer_def span_duration_def binEval_literal to_i64_id in_range_def split: go_any.splits ikind.splits)
  qed
qed

lemma compileAtomic_atom:
  assumes "compileAtomic op lhs rhs = COk sp" "http_regexp rx"
  shows "\<exists>a. sp = atom_pred a \<and> (\<forall>n. a = ALonger n \<longrightarrow> 0 < n) \<and>
    ((\<exists>n. a = ALonger n) \<or> a = ARoot \<or> a = ANonroot \<longleftrightarrow> lhs = Identifier ''parent_id'' \<or> lhs = Identifier ''duration'') \<and>
    (\<forall>get. typed_span get \<longrightarrow> Eval rx get (BinaryExpr op lhs rhs b) = Some (atom_holds cd a get))"
proof -
  obtain name where l: "lhs = Identifier name" using assms(1) by (cases lhs) (auto simp: compileAtomic_def)
  consider "name = ''status''" | "name = ''http_status_code''" | "name = ''body_code''" | "name = ''trace_keep''" | "name = ''parent_id''"
    | "name = ''duration''" using assms(1) unfolding l compileAtomic_def by fastforce
  then show ?thesis
  proof cases
    case 1
    then have "op = EQ" "rhs = StringLiteral ''error''" "sp = flag_pred PredError"
      using assms(1) by (auto simp: l compileAtomic_def ok_if_def literal_values split: if_splits)
    then show ?thesis using 1 l by (intro exI[of _ AError]) (simp add: Eval_flags del: Eval.simps)
  next
    case 2
    then obtain re where "op = MATCH" "rhs = NodeList [NRegex (Some re)]" "re \<in> set http_error_regexes" "sp = flag_pred PredHttpError"
      using assms(1) by (auto simp: l compileAtomic_def ok_if_def cbind_COk isHTTPErrorRegex_True split: if_splits)
    then show ?thesis using 2 l assms(2) by (intro exI[of _ AHttp]) (simp add: Eval_http del: Eval.simps)
  next
    case 3
    then have "op = NOT_IN" "isBizErrorList rhs" "sp = flag_pred PredBizError"
      using assms(1) by (auto simp: l compileAtomic_def ok_if_def split: if_splits)
    then show ?thesis using 3 l by (intro exI[of _ ABiz]) (simp add: Eval_biz typed_span_def del: Eval.simps)
  next
    case 4
    then have "op = EQ" "rhs = BoolLiteral True" "sp = flag_pred PredTraceKeep"
      using assms(1) by (auto simp: l compileAtomic_def ok_if_def literal_values split: if_splits)
    then show ?thesis using 4 l by (intro exI[of _ AKeep]) (simp add: Eval_flags del: Eval.simps)
  next
    case 5
    then have r: "rhs = StringLiteral ''0''" and "op = EQ \<and> sp = atom_pred ARoot \<or> op = NEQ \<and> sp = atom_pred ANonroot"
      using assms(1) by (auto simp: l compileAtomic_def ok_if_def literal_values split: if_splits)
    from this(2) show ?thesis
    proof
      assume "op = EQ \<and> sp = atom_pred ARoot"
      then show ?thesis using 5 l r by (intro exI[of _ ARoot]) (simp add: Eval_flags del: Eval.simps)
    next
      assume "op = NEQ \<and> sp = atom_pred ANonroot"
      then show ?thesis using 5 l r by (intro exI[of _ ANonroot]) (simp add: Eval_flags del: Eval.simps)
    qed
  next
    case 6
    then obtain f n where "op = GT" "rhs = NumberLiteral True f n" "0 < n" "sp = atom_pred (ALonger n)"
      using assms(1) by (auto simp: l compileAtomic_def ok_if_def literal_values split: if_splits option.splits)
    then show ?thesis using 6 l by (intro exI[of _ "ALonger n"]) (simp add: Eval_flags del: Eval.simps)
  qed
qed

end
