(* ===== verification/Tail_Compile.thy ===== *)
theory Tail_Compile
  imports Tail_Equiv
begin

section \<open>Tail sampling: what a compiled condition says\<close>

lemma compilePred_Evaluable: "compilePred e = COk sp \<Longrightarrow> Evaluable e"
  by (cases e) auto

lemma eval_flag_pred [simp]: "spanPred_eval (flag_pred f) = Some f"
  by (simp add: spanPred_eval_def flag_pred_def no_pred_def pred_duration_def)

lemma both_Some_COk:
  "(case a of None \<Rightarrow> CFail | Some le \<Rightarrow> (case b of None \<Rightarrow> CFail | Some re \<Rightarrow> COk (f le re))) = COk y \<longleftrightarrow> (\<exists>le re. a = Some le \<and> b = Some re \<and> y = f le re)"
  by (cases a; cases b) auto

lemma compilePred_OR:
  "compilePred (BinaryExpr OR l r b) = COk sp \<longleftrightarrow>
     (\<exists>pl pr el er. compilePred l = COk pl \<and> compilePred r = COk pr \<and> spanPred_eval pl = Some el \<and> spanPred_eval pr = Some er \<and>
       sp = flag_pred (\<lambda>packet. el packet \<or> er packet))"
  by (simp add: cboth_COk both_Some_COk)

lemma compilePred_AND:
  "compilePred (BinaryExpr AND l r b) = COk sp \<longleftrightarrow>
     (\<exists>pl pr. compilePred l = COk pl \<and> compilePred r = COk pr \<and> mergePreds pl pr = COk sp)"
  by (simp add: cboth_COk)

text \<open>Evaluating a condition that compiles never panics.\<close>

lemma compiled_total:
  assumes "http_regexp rx" "typed_span get"
  shows "compilePred e = COk sp \<Longrightarrow> Eval rx get e \<noteq> None"
proof (induction e arbitrary: sp)
  case (BinaryExpr op l r b)
  consider "op = AND" | "op = OR" | (atom) "op \<noteq> AND" "op \<noteq> OR" by blast
  then show ?case
  proof cases
    case atom
    then have "compileAtomic op l r = COk sp" using BinaryExpr.prems by simp
    then obtain a where "Eval rx get (BinaryExpr op l r b) = Some (atom_holds undefined a get)"
      using compileAtomic_atom[OF _ assms(1)] assms(2) by blast
    then show ?thesis by (simp del: Eval.simps)
  qed (use BinaryExpr in \<open>auto simp: cboth_COk split: option.splits bool.splits if_splits\<close>)
next
  case (ParenExpr n)
  then show ?case by auto
qed auto

subsection \<open>A condition that holds on a span holds on the summary\<close>

text \<open>\<open>covers\<close>: the summary \<open>td\<close> has what the span says.  \<open>sat\<close>: the span gives what the predicate asks for.\<close>

definition covers :: "codec \<Rightarrow> DataPacket \<Rightarrow> (string \<Rightarrow> go_any option) \<Rightarrow> bool" where
  "covers cd td get \<longleftrightarrow>
     (span_error get \<longrightarrow> PredError td) \<and> (span_http_error get \<longrightarrow> PredHttpError td) \<and>
     (span_biz_error get \<longrightarrow> PredBizError td) \<and> (span_keep get \<longrightarrow> PredTraceKeep td) \<and>
     (\<forall>n>0. longer cd n get \<longrightarrow>
        n < MaxSpanDurationUs td \<and> (root_span get \<longrightarrow> n < RootDurationUs td) \<and> (nonroot_span get \<longrightarrow> n < MaxNonrootDurationUs td))"

fun parent_ok :: "parent_constraint \<Rightarrow> (string \<Rightarrow> go_any option) \<Rightarrow> bool" where
  "parent_ok predParentNone get = True"
| "parent_ok predParentRoot get = root_span get"
| "parent_ok predParentNonRoot get = nonroot_span get"

definition sat_plain :: "codec \<Rightarrow> spanPred \<Rightarrow> (string \<Rightarrow> go_any option) \<Rightarrow> bool" where
  "sat_plain cd sp get \<longleftrightarrow> parent_ok (sp_parentID sp) get \<and> (sp_durationGT sp > 0 \<longrightarrow> longer cd (sp_durationGT sp) get)"

definition sat :: "codec \<Rightarrow> DataPacket \<Rightarrow> spanPred \<Rightarrow> (string \<Rightarrow> go_any option) \<Rightarrow> bool" where
  "sat cd td sp get \<longleftrightarrow> (\<forall>f. sp_flag sp = Some f \<longrightarrow> f td) \<and> sat_plain cd sp get"

lemma sat_eval:
  assumes "sat cd td sp get" "covers cd td get" "spanPred_eval sp = Some e"
  shows "e td"
  using assms
  by (auto simp: sat_def sat_plain_def covers_def spanPred_eval_def pred_duration_def
      split: option.splits if_splits parent_constraint.splits)

lemma longer_max: "longer cd (max m n) get \<longleftrightarrow> longer cd m get \<and> longer cd n get"
  by (auto simp: longer_def split: option.split)

lemma merge_plain:
  assumes "mergePreds a b = COk sp" "0 \<le> sp_durationGT a" "0 \<le> sp_durationGT b"
  shows "sat_plain cd sp get \<longleftrightarrow> sat_plain cd a get \<and> sat_plain cd b get" "0 \<le> sp_durationGT sp"
    "sp_flag sp = None \<longleftrightarrow> sp_flag a = None \<and> sp_flag b = None"
proof -
  have sp: "sp_durationGT sp = max (sp_durationGT a) (sp_durationGT b)"
    "sp_parentID sp = (if sp_parentID a \<noteq> predParentNone then sp_parentID a else sp_parentID b)"
    "sp_parentID a = predParentNone \<or> sp_parentID b = predParentNone \<or> sp_parentID a = sp_parentID b"
    using assms(1) by (auto simp: mergePreds_def split: if_splits)
  have "parent_ok (sp_parentID sp) get \<longleftrightarrow> parent_ok (sp_parentID a) get \<and> parent_ok (sp_parentID b) get"
    using sp(3) by (auto simp: sp(2))
  moreover have "(sp_durationGT sp > 0 \<longrightarrow> longer cd (sp_durationGT sp) get) \<longleftrightarrow>
      (sp_durationGT a > 0 \<longrightarrow> longer cd (sp_durationGT a) get) \<and> (sp_durationGT b > 0 \<longrightarrow> longer cd (sp_durationGT b) get)"
  proof (cases "sp_durationGT a > 0 \<and> sp_durationGT b > 0")
    case True
    then show ?thesis unfolding sp(1) longer_max by auto
  next
    case False
    then show ?thesis using assms(2,3) unfolding sp(1) by (auto simp: max_def)
  qed
  ultimately show "sat_plain cd sp get \<longleftrightarrow> sat_plain cd a get \<and> sat_plain cd b get" by (auto simp: sat_plain_def)
  show "0 \<le> sp_durationGT sp" using assms(2) by (simp add: sp(1) le_max_iff_disj)
  show "sp_flag sp = None \<longleftrightarrow> sp_flag a = None \<and> sp_flag b = None"
    using assms(1) by (auto simp: mergePreds_def split: if_splits option.splits)
qed

lemma merge_sat:
  assumes "mergePreds a b = COk sp" "0 \<le> sp_durationGT a" "0 \<le> sp_durationGT b"
  shows "sat cd td sp get \<longleftrightarrow> sat cd td a get \<and> sat cd td b get"
proof -
  have "(\<forall>f. sp_flag sp = Some f \<longrightarrow> f td) \<longleftrightarrow> (\<forall>f. sp_flag a = Some f \<longrightarrow> f td) \<and> (\<forall>f. sp_flag b = Some f \<longrightarrow> f td)"
    using assms(1) by (auto simp: mergePreds_def split: if_splits option.splits)
  with merge_plain(1)[OF assms] show ?thesis by (auto simp: sat_def)
qed

lemma flag_pred_fields [simp]: "sp_flag (flag_pred f) = Some f" "sp_parentID (flag_pred f) = predParentNone" "sp_durationGT (flag_pred f) = 0"
  by (simp_all add: flag_pred_def no_pred_def)

lemma atom_pred_fields:
  assumes "\<forall>n. a = ALonger n \<longrightarrow> 0 < n"
  shows "0 \<le> sp_durationGT (atom_pred a)"
    "sp_flag (atom_pred a) = None \<longleftrightarrow> (\<exists>n. a = ALonger n) \<or> a = ARoot \<or> a = ANonroot"
    "sp_flag (atom_pred a) = None \<Longrightarrow> sat_plain cd (atom_pred a) get \<longleftrightarrow> atom_holds cd a get"
    "atom_holds cd a get \<Longrightarrow> covers cd td get \<Longrightarrow> sat cd td (atom_pred a) get"
  using assms by (cases a; auto simp: no_pred_def sat_plain_def sat_def covers_def)+

lemma compilePred_duration: "compilePred e = COk sp \<Longrightarrow> http_regexp rx \<Longrightarrow> 0 \<le> sp_durationGT sp"
proof (induction e arbitrary: sp)
  case (BinaryExpr op l r b)
  consider "op = AND" | "op = OR" | (atom) "op \<noteq> AND" "op \<noteq> OR" by blast
  then show ?case
  proof cases
    case 1
    then show ?thesis using BinaryExpr by (auto simp: compilePred_AND simp del: compilePred.simps dest: merge_plain(2))
  next
    case 2
    then show ?thesis using BinaryExpr.prems by (auto simp: compilePred_OR simp del: compilePred.simps)
  next
    case atom
    then have "compileAtomic op l r = COk sp" using BinaryExpr.prems(1) by simp
    with compileAtomic_atom[OF this BinaryExpr.prems(2)] atom_pred_fields(1) show ?thesis by blast
  qed
qed auto

lemma compiled_sat:
  assumes "http_regexp rx" "typed_span get" "covers cd td get"
  shows "compilePred e = COk sp \<Longrightarrow> Eval rx get e = Some True \<Longrightarrow> sat cd td sp get"
proof (induction e arbitrary: sp)
  case (BinaryExpr op l r b)
  consider "op = AND" | "op = OR" | (atom) "op \<noteq> AND" "op \<noteq> OR" by blast
  then show ?case
  proof cases
    case 1
    then obtain pl pr where c: "compilePred l = COk pl" "compilePred r = COk pr" "mergePreds pl pr = COk sp"
      using BinaryExpr.prems(1) by (auto simp: compilePred_AND simp del: compilePred.simps)
    have "Eval rx get l = Some True" "Eval rx get r = Some True"
      using BinaryExpr.prems(2) 1 by (auto split: if_splits option.splits bool.splits)
    with BinaryExpr.IH c show ?thesis by (auto simp: merge_sat[OF c(3)] compilePred_duration[OF _ assms(1)])
  next
    case 2
    then obtain pl pr el er where c: "compilePred l = COk pl" "compilePred r = COk pr" "spanPred_eval pl = Some el"
      "spanPred_eval pr = Some er" "sp = flag_pred (\<lambda>packet. el packet \<or> er packet)"
      using BinaryExpr.prems(1) by (auto simp: compilePred_OR simp del: compilePred.simps)
    have "Eval rx get l = Some True \<or> Eval rx get r = Some True"
      using BinaryExpr.prems(2) 2 by (auto split: if_splits option.splits bool.splits)
    with BinaryExpr.IH c sat_eval[OF _ assms(3)] have "el td \<or> er td" by blast
    then show ?thesis by (simp add: c(5) sat_def sat_plain_def)
  next
    case atom
    then have "compileAtomic op l r = COk sp" using BinaryExpr.prems(1) by simp
    from compileAtomic_atom[OF this assms(1), of b cd] obtain a where a: "sp = atom_pred a" "\<forall>n. a = ALonger n \<longrightarrow> 0 < n"
      "Eval rx get (BinaryExpr op l r b) = Some (atom_holds cd a get)" using assms(2) by blast
    then have "atom_holds cd a get" using BinaryExpr.prems(2) by (metis option.inject)
    then show ?thesis using atom_pred_fields(4)[OF a(2)] assms(3) a(1) by blast
  qed
next
  case (ParenExpr n)
  then show ?case by (auto split: if_splits)
qed auto

end
