(* ===== verification/Tail_Walk.thy ===== *)
theory Tail_Walk
  imports Tail_Compile
begin

section \<open>Tail sampling: pipelines by summary and by walk\<close>

subsection \<open>Conditions whose predicate is exact\<close>

text \<open>
  The summary forgets which span had what, so a conjunction of flags is not exact.  A conjunction of comparisons of the parent and the duration
  is, since the summary keeps the durations of root spans and of the other spans apart; so are single flags and disjunctions of
  exact conditions.
\<close>

fun plain :: "Node \<Rightarrow> bool" where
  "plain (ParenExpr n) = plain n"
| "plain (BinaryExpr op l r b) =
     (if op = AND then plain l \<and> plain r
      else op \<noteq> OR \<and> (l = Identifier ''parent_id'' \<or> l = Identifier ''duration''))"
| "plain n = False"

fun exact :: "Node \<Rightarrow> bool" where
  "exact (ParenExpr n) = exact n"
| "exact (BinaryExpr op l r b) =
     (if op = AND then plain l \<and> plain r else if op = OR then exact l \<and> exact r else True)"
| "exact n = False"

definition exact_where :: "WhereCondition \<Rightarrow> bool" where
  "exact_where wc \<longleftrightarrow> list_all plain wc \<or> (case wc of [e] \<Rightarrow> exact e | _ \<Rightarrow> False)"

lemma plain_sem:
  assumes "http_regexp rx"
  shows "plain e \<Longrightarrow> compilePred e = COk sp \<Longrightarrow>
    sp_flag sp = None \<and> (\<forall>get. typed_span get \<longrightarrow> Eval rx get e = Some (sat_plain cd sp get))"
proof (induction e arbitrary: sp)
  case (BinaryExpr op l r b)
  show ?case
  proof (cases "op = AND")
    case True
    then obtain pl pr where c: "compilePred l = COk pl" "compilePred r = COk pr" "mergePreds pl pr = COk sp"
      using BinaryExpr.prems(2) by (auto simp: compilePred_AND simp del: compilePred.simps)
    have ev: "Evaluable l" "Evaluable r" using c(1,2) by (auto intro: compilePred_Evaluable)
    note ih = BinaryExpr.IH(1)[OF _ c(1)] BinaryExpr.IH(2)[OF _ c(2)]
    have pl: "plain l" "plain r" using BinaryExpr.prems(1) True by auto
    note m = merge_plain[OF c(3) compilePred_duration[OF c(1) assms] compilePred_duration[OF c(2) assms]]
    show ?thesis using ih pl True ev by (auto simp: m split: bool.split)
  next
    case False
    then have "op \<noteq> OR" "l = Identifier ''parent_id'' \<or> l = Identifier ''duration''" "compileAtomic op l r = COk sp"
      using BinaryExpr.prems by auto
    from compileAtomic_atom[OF this(3) assms, of b cd] this(2) obtain a where a: "sp = atom_pred a" "\<forall>n. a = ALonger n \<longrightarrow> 0 < n"
      "(\<exists>n. a = ALonger n) \<or> a = ARoot \<or> a = ANonroot"
      "\<forall>get. typed_span get \<longrightarrow> Eval rx get (BinaryExpr op l r b) = Some (atom_holds cd a get)" by blast
    have f: "sp_flag sp = None" using atom_pred_fields(2)[OF a(2)] a(1,3) by blast
    then have "sat_plain cd sp get \<longleftrightarrow> atom_holds cd a get" for get
      using atom_pred_fields(3)[OF a(2)] unfolding a(1) by blast
    with a(4) f show ?thesis by (simp del: Eval.simps)
  qed
next
  case (ParenExpr n)
  then show ?case using compilePred_Evaluable by fastforce
qed auto

text \<open>\<open>of_spans td spans\<close>: the packet has the summary of the spans.\<close>

definition of_spans :: "codec \<Rightarrow> DataPacket \<Rightarrow> Point_Kvs.KVs list \<Rightarrow> bool" where
  "of_spans cd td spans \<longleftrightarrow> (\<exists>p0. td = copy_summary (summary cd spans) p0) \<and> (\<forall>fs\<in>set spans. typed_span (ptWrap_Get fs))"

lemma of_spans_covers: "of_spans cd td spans \<Longrightarrow> fs \<in> set spans \<Longrightarrow> covers cd td (ptWrap_Get fs)"
  by (auto simp: of_spans_def covers_def summary_fields)

lemma plain_exact:
  assumes "sp_flag sp = None" "spanPred_eval sp = Some ex" "of_spans cd td spans"
  shows "ex td \<longleftrightarrow> (\<exists>fs\<in>set spans. sat_plain cd sp (ptWrap_Get fs))"
proof -
  obtain p0 where td: "td = copy_summary (summary cd spans) p0" using assms(3) by (auto simp: of_spans_def)
  have "0 < sp_durationGT sp" using assms(1,2) by (auto simp: spanPred_eval_def pred_duration_def split: if_splits)
  moreover have "ex = (\<lambda>packet. sp_durationGT sp < (case sp_parentID sp of predParentRoot \<Rightarrow> RootDurationUs packet
              | predParentNonRoot \<Rightarrow> MaxNonrootDurationUs packet | predParentNone \<Rightarrow> MaxSpanDurationUs packet))"
    using assms(1,2) by (auto simp: spanPred_eval_def pred_duration_def split: if_splits)
  ultimately show ?thesis
    by (cases "sp_parentID sp") (auto simp: td summary_fields sat_plain_def)
qed

lemma flag_exact:
  assumes "sp_flag (atom_pred a) \<noteq> None" "spanPred_eval (atom_pred a) = Some ex" "of_spans cd td spans"
  shows "ex td \<longleftrightarrow> (\<exists>fs\<in>set spans. atom_holds cd a (ptWrap_Get fs))"
proof -
  obtain p0 where td: "td = copy_summary (summary cd spans) p0" using assms(3) by (auto simp: of_spans_def)
  show ?thesis using assms(1,2) unfolding td by (cases a) (auto simp: summary_fields no_pred_def)
qed

lemma exact_atom:
  assumes "http_regexp rx" "of_spans cd td spans" "compileAtomic op l r = COk sp" "spanPred_eval sp = Some ex"
  shows "ex td \<longleftrightarrow> (\<exists>fs\<in>set spans. Eval rx (ptWrap_Get fs) (BinaryExpr op l r b) = Some True)"
proof -
  from compileAtomic_atom[OF assms(3,1), of b cd] obtain a where a: "sp = atom_pred a" "\<forall>n. a = ALonger n \<longrightarrow> 0 < n"
    "\<forall>get. typed_span get \<longrightarrow> Eval rx get (BinaryExpr op l r b) = Some (atom_holds cd a get)" by blast
  have ev: "Eval rx (ptWrap_Get fs) (BinaryExpr op l r b) = Some True \<longleftrightarrow> atom_holds cd a (ptWrap_Get fs)" if "fs \<in> set spans" for fs
    using that a(3) assms(2) by (simp add: of_spans_def del: Eval.simps)
  have "ex td \<longleftrightarrow> (\<exists>fs\<in>set spans. atom_holds cd a (ptWrap_Get fs))"
  proof (cases "sp_flag sp = None")
    case True
    then show ?thesis using plain_exact[OF True assms(4,2)] atom_pred_fields(3)[OF a(2)] a(1) by blast
  qed (use flag_exact assms(2,4) a(1) in blast)
  with ev show ?thesis by blast
qed

lemma exact_sem:
  assumes "http_regexp rx" "of_spans cd td spans"
  shows "exact e \<Longrightarrow> compilePred e = COk sp \<Longrightarrow> spanPred_eval sp = Some ex \<Longrightarrow>
    ex td \<longleftrightarrow> (\<exists>fs\<in>set spans. Eval rx (ptWrap_Get fs) e = Some True)"
proof (induction e arbitrary: sp ex)
  case (BinaryExpr op l r b)
  consider "op = AND" | "op = OR" | (atom) "op \<noteq> AND" "op \<noteq> OR" by blast
  then show ?case
  proof cases
    case 1
    then have "plain (BinaryExpr op l r b)" using BinaryExpr.prems(1) by simp
    from plain_sem[OF assms(1) this BinaryExpr.prems(2), of cd] plain_exact[OF _ BinaryExpr.prems(3) assms(2)] assms(2)
    show ?thesis by (auto simp: of_spans_def simp del: Eval.simps)
  next
    case 2
    then obtain pl pr el er where c: "compilePred l = COk pl" "compilePred r = COk pr" "spanPred_eval pl = Some el"
      "spanPred_eval pr = Some er" "sp = flag_pred (\<lambda>packet. el packet \<or> er packet)"
      using BinaryExpr.prems(2) by (auto simp: compilePred_OR simp del: compilePred.simps)
    have e: "ex td \<longleftrightarrow> el td \<or> er td" using BinaryExpr.prems(3) c(5) by auto
    have ev: "Evaluable l" "Evaluable r" using c(1,2) by (auto intro: compilePred_Evaluable)
    have "Eval rx (ptWrap_Get fs) (BinaryExpr op l r b) = Some True \<longleftrightarrow>
        Eval rx (ptWrap_Get fs) l = Some True \<or> Eval rx (ptWrap_Get fs) r = Some True" if "fs \<in> set spans" for fs
      using 2 ev that compiled_total[OF assms(1) _ c(1), of "ptWrap_Get fs"] assms(2)
      by (auto simp: of_spans_def split: option.splits bool.splits)
    moreover have "exact l" "exact r" using BinaryExpr.prems(1) 2 by auto
    ultimately show ?thesis using e BinaryExpr.IH(1)[OF _ c(1,3)] BinaryExpr.IH(2)[OF _ c(2,4)] by blast
  next
    case atom
    then have "compileAtomic op l r = COk sp" using BinaryExpr.prems(2) by simp
    from exact_atom[OF assms this BinaryExpr.prems(3)] show ?thesis .
  qed
next
  case (ParenExpr n)
  then have "Evaluable n" by (auto intro: compilePred_Evaluable)
  with ParenExpr show ?case by auto
qed auto

subsection \<open>Where conditions\<close>

fun is_BinaryExpr :: "Node \<Rightarrow> bool" where
  "is_BinaryExpr (BinaryExpr op l r b) = True"
| "is_BinaryExpr n = False"

lemma merge_conds_Cons:
  assumes "merge_conds c (node # nodes) = COk sp"
  obtains part m where "is_BinaryExpr node" "compilePred node = COk part" "mergePreds c part = COk m" "merge_conds m nodes = COk sp"
  using assms by (cases node) (auto simp: cbind_COk simp del: compilePred.simps)

lemma where_Eval_Cons:
  "is_BinaryExpr node \<Longrightarrow> where_Eval rx get (node # nodes) =
     (case Eval rx get node of None \<Rightarrow> None | Some False \<Rightarrow> Some False | Some True \<Rightarrow> where_Eval rx get nodes)"
  by (cases node) simp_all

lemma where_total:
  assumes "http_regexp rx" "typed_span get"
  shows "merge_conds c wc = COk sp \<Longrightarrow> where_Eval rx get wc \<noteq> None"
proof (induction wc arbitrary: c)
  case (Cons node nodes)
  from Cons.prems obtain part m where c: "is_BinaryExpr node" "compilePred node = COk part" "merge_conds m nodes = COk sp"
    by (rule merge_conds_Cons)
  with Cons.IH compiled_total[OF assms c(2)] show ?case
    by (auto simp: where_Eval_Cons simp del: where_Eval.simps(2) split: option.splits bool.splits)
qed simp

lemma where_sat:
  assumes "http_regexp rx" "typed_span get" "covers cd td get"
  shows "merge_conds c wc = COk sp \<Longrightarrow> where_Eval rx get wc = Some True \<Longrightarrow> sat cd td c get \<Longrightarrow> 0 \<le> sp_durationGT c \<Longrightarrow>
    sat cd td sp get"
proof (induction wc arbitrary: c)
  case (Cons node nodes)
  from Cons.prems(1) obtain part m where c: "is_BinaryExpr node" "compilePred node = COk part" "mergePreds c part = COk m"
    "merge_conds m nodes = COk sp" by (rule merge_conds_Cons)
  have e: "Eval rx get node = Some True" "where_Eval rx get nodes = Some True"
    using Cons.prems(2) c(1) by (auto simp: where_Eval_Cons simp del: where_Eval.simps split: option.splits bool.splits)
  note d = compilePred_duration[OF c(2) assms(1)]
  have "sat cd td m get" using compiled_sat[OF assms c(2) e(1)] Cons.prems(3) merge_sat[OF c(3) Cons.prems(4) d] by blast
  with Cons.IH[OF c(4) e(2)] merge_plain(2)[OF c(3) Cons.prems(4) d] show ?case by blast
qed simp

lemma where_plain:
  assumes "http_regexp rx"
  shows "merge_conds c wc = COk sp \<Longrightarrow> list_all plain wc \<Longrightarrow> sp_flag c = None \<Longrightarrow> 0 \<le> sp_durationGT c \<Longrightarrow>
    sp_flag sp = None \<and>
    (\<forall>get. typed_span get \<longrightarrow> sat_plain cd sp get = (sat_plain cd c get \<and> where_Eval rx get wc = Some True))"
proof (induction wc arbitrary: c)
  case (Cons node nodes)
  from Cons.prems(1) obtain part m where c: "is_BinaryExpr node" "compilePred node = COk part" "mergePreds c part = COk m"
    "merge_conds m nodes = COk sp" by (rule merge_conds_Cons)
  have p: "plain node" "list_all plain nodes" using Cons.prems(2) by auto
  from plain_sem[OF assms p(1) c(2), of cd] have s: "sp_flag part = None"
    "\<And>get. typed_span get \<Longrightarrow> Eval rx get node = Some (sat_plain cd part get)" by auto
  note m = merge_plain[OF c(3) Cons.prems(4) compilePred_duration[OF c(2) assms]]
  from Cons.IH[OF c(4) p(2) _ m(2)] Cons.prems(3) s(1) have ih: "sp_flag sp = None"
    "\<And>get. typed_span get \<Longrightarrow> sat_plain cd sp get = (sat_plain cd m get \<and> where_Eval rx get nodes = Some True)"
    by (auto simp: m(3))
  have "where_Eval rx get (node # nodes) = Some True \<longleftrightarrow> sat_plain cd part get \<and> where_Eval rx get nodes = Some True"
    if "typed_span get" for get
    using s(2)[OF that] by (auto simp: where_Eval_Cons[OF c(1)] simp del: where_Eval.simps(2) split: bool.split)
  with ih show ?case by (auto simp: m(1) simp del: where_Eval.simps)
qed simp

lemma no_pred_facts [simp]: "sp_flag no_pred = None" "sp_durationGT no_pred = 0" "sat_plain cd no_pred get" "sat cd td no_pred get"
  by (simp_all add: no_pred_def sat_plain_def sat_def)

lemma mergePreds_no_pred [simp]: "mergePreds no_pred sp = COk (sp\<lparr>sp_durationGT := max 0 (sp_durationGT sp)\<rparr>)"
  by (cases sp) (auto simp: mergePreds_def no_pred_def split: option.split)

lemma compileWhere_COk:
  "compileWhereCondition wc = COk ex \<longleftrightarrow> (\<exists>sp. merge_conds no_pred wc = COk sp \<and> spanPred_eval sp = Some ex)"
  by (auto simp: compileWhereCondition_def cbind_COk covered_def split: option.splits)

lemma where_covered:
  assumes "http_regexp rx" "of_spans cd td spans" "compileWhereCondition wc = COk ex" "fs \<in> set spans"
    "where_Eval rx (ptWrap_Get fs) wc = Some True"
  shows "ex td"
proof -
  obtain sp where sp: "merge_conds no_pred wc = COk sp" "spanPred_eval sp = Some ex" using assms(3) by (auto simp: compileWhere_COk)
  have t: "typed_span (ptWrap_Get fs)" "covers cd td (ptWrap_Get fs)"
    using assms(2,4) of_spans_covers by (auto simp: of_spans_def)
  show ?thesis using where_sat[OF assms(1) t sp(1) assms(5)] sat_eval[OF _ t(2) sp(2)] by simp
qed

lemma where_exact:
  assumes "http_regexp rx" "of_spans cd td spans" "compileWhereCondition wc = COk ex" "exact_where wc"
  shows "ex td \<longleftrightarrow> (\<exists>fs\<in>set spans. where_Eval rx (ptWrap_Get fs) wc = Some True)"
proof -
  obtain sp where sp: "merge_conds no_pred wc = COk sp" "spanPred_eval sp = Some ex" using assms(3) by (auto simp: compileWhere_COk)
  show ?thesis
  proof (cases "list_all plain wc")
    case True
    from where_plain[OF assms(1) sp(1) True, of cd] have w: "sp_flag sp = None"
      "\<And>get. typed_span get \<Longrightarrow> sat_plain cd sp get = (where_Eval rx get wc = Some True)" by auto
    from plain_exact[OF w(1) sp(2) assms(2)] w(2) assms(2) show ?thesis by (auto simp: of_spans_def)
  next
    case False
    then obtain e where e: "wc = [e]" "exact e" using assms(4) by (auto simp: exact_where_def split: list.splits)
    from sp(1)[unfolded e(1)] obtain part m where c: "is_BinaryExpr e" "compilePred e = COk part" "mergePreds no_pred part = COk m"
      "merge_conds m [] = COk sp" by (rule merge_conds_Cons)
    have "sp = part" using c(3,4) compilePred_duration[OF c(2) assms(1)] by auto
    then have "ex td \<longleftrightarrow> (\<exists>fs\<in>set spans. Eval rx (ptWrap_Get fs) e = Some True)"
      using exact_sem[OF assms(1,2) e(2) c(2)] sp(2) by blast
    then show ?thesis by (auto simp: e(1) where_Eval_Cons[OF c(1)] simp del: where_Eval.simps(2) split: option.splits bool.splits)
  qed
qed

end
