(* ===== verification/Tail_Decide.thy ===== *)
theory Tail_Decide
  imports Tail_Walk
begin

section \<open>Tail sampling: decisions of pipelines\<close>

subsection \<open>Lists of conditions\<close>

lemma conds_total:
  assumes "http_regexp rx" "typed_span get"
  shows "compile_conds cs = COk es \<Longrightarrow> conds_Eval rx get idx cs \<noteq> None"
proof (induction cs arbitrary: idx es rule: compile_conds.induct)
  case (3 wc cs)
  then obtain e es' where c: "compileWhereCondition wc = COk e" "compile_conds cs = COk es'" by (auto simp: cbind_COk)
  then have "where_Eval rx get wc \<noteq> None" using where_total[OF assms] by (auto simp: compileWhere_COk)
  with 3(1)[OF c(2)] c(1) show ?case by (auto split: option.split bool.split)
qed auto

lemma conds_Eval_hit:
  assumes "http_regexp rx" "typed_span get"
  shows "compile_conds cs = COk es \<Longrightarrow> 0 \<le> idx \<Longrightarrow>
    (\<exists>i. conds_Eval rx get idx cs = Some i \<and> 0 \<le> i) \<longleftrightarrow> (\<exists>wc. Some wc \<in> set cs \<and> where_Eval rx get wc = Some True)"
proof (induction cs arbitrary: idx es rule: compile_conds.induct)
  case (3 wc cs)
  then obtain e es' where c: "compileWhereCondition wc = COk e" "compile_conds cs = COk es'" by (auto simp: cbind_COk)
  then have "where_Eval rx get wc \<noteq> None" using where_total[OF assms] by (auto simp: compileWhere_COk)
  with 3(1)[OF c(2), of "idx + 1"] c(1) 3(3) show ?case by (auto split: option.split bool.split)
qed auto

lemma compile_conds_exprs:
  "compile_conds cs = COk es \<Longrightarrow> list_all2 (\<lambda>c e. \<exists>wc. c = Some wc \<and> compileWhereCondition wc = COk e) cs es"
  by (induction cs arbitrary: es rule: compile_conds.induct) (auto simp: cbind_COk)

subsection \<open>One pipeline\<close>

text \<open>\<open>applied\<close>: the condition was parsed into the tree; \<open>samples\<close>: a sampling pipeline has a rate.\<close>

definition applied :: "SamplingPipeline \<Rightarrow> bool" where
  "applied sp \<longleftrightarrow> (sp_Condition sp = [] \<longleftrightarrow> sp_conds sp = None)"

definition samples :: "SamplingPipeline \<Rightarrow> bool" where
  "samples sp \<longleftrightarrow> \<not> (sp_Type sp = PipelineTypeSampling \<and> f64_le (sp_Rate sp) (FFin 0))"

definition exact_pipeline :: "SamplingPipeline \<Rightarrow> bool" where
  "exact_pipeline sp \<longleftrightarrow>
     applied sp \<and> samples sp \<and>
     (case sp_conds sp of None \<Rightarrow> True | Some cs \<Rightarrow> list_all (\<lambda>c. case c of None \<Rightarrow> True | Some wc \<Rightarrow> exact_where wc) cs)"

lemma match_all_applied: "isMatchAllSampling sp \<Longrightarrow> applied sp \<Longrightarrow> sp_conds sp = None"
  by (simp add: isMatchAllSampling_def applied_def)

lemma pipeline_total:
  assumes "http_regexp rx" "typed_span (ptWrap_Get fs)" "compilePipelinePredicate p = COk e" "\<forall>sp. p = Some sp \<longrightarrow> applied sp"
  shows "pipelineMatchesPoint rx fs p \<noteq> None"
proof -
  obtain sp where p: "p = Some sp" using assms(3) by (cases p) (auto simp: compilePipelinePredicate_def)
  show ?thesis
  proof (cases "sp_conds sp")
    case (Some cs)
    then have "\<not> isMatchAllSampling sp" using match_all_applied[of sp] assms(4) p by auto
    then obtain es where "compile_conds cs = COk es" using assms(3) p Some by (auto simp: compilePipelinePredicate_def cbind_COk)
    then show ?thesis using conds_total[OF assms(1,2)] p Some
      by (auto simp: pipelineMatchesPoint_def split: option.split)
  qed (simp add: p pipelineMatchesPoint_def del: not_None_eq)
qed

lemma pipeline_point:
  assumes "http_regexp rx" "typed_span (ptWrap_Get fs)" "applied sp" "sp_conds sp = Some cs" "compile_conds cs = COk es"
  shows "pipelineMatchesPoint rx fs (Some sp) = Some True \<longleftrightarrow>
    samples sp \<and> (\<exists>wc. Some wc \<in> set cs \<and> where_Eval rx (ptWrap_Get fs) wc = Some True)"
proof -
  have t: "conds_Eval rx (ptWrap_Get fs) 0 cs \<noteq> None" using conds_total[OF assms(1,2,5)] .
  have "pipelineMatchesPoint rx fs (Some sp) = Some True \<longleftrightarrow>
      samples sp \<and> (\<exists>i. conds_Eval rx (ptWrap_Get fs) 0 cs = Some i \<and> 0 \<le> i)"
    using t assms(4) by (auto simp: pipelineMatchesPoint_def samples_def split: if_splits)
  then show ?thesis using conds_Eval_hit[OF assms(1,2,5), of 0] by simp
qed

lemma pipeline_covered:
  assumes "http_regexp rx" "of_spans cd td spans" "compilePipelinePredicate p = COk e" "\<forall>sp. p = Some sp \<longrightarrow> applied sp"
    "fs \<in> set spans" "pipelineMatchesPoint rx fs p = Some True"
  shows "e td"
proof -
  obtain sp where p: "p = Some sp" using assms(3) by (cases p) (auto simp: compilePipelinePredicate_def)
  have t: "typed_span (ptWrap_Get fs)" using assms(2,5) by (simp add: of_spans_def)
  show ?thesis
  proof (cases "isMatchAllSampling sp")
    case True
    then show ?thesis using assms(3) p by (auto simp: compilePipelinePredicate_def)
  next
    case False
    then obtain cs es where c: "sp_conds sp = Some cs" "compile_conds cs = COk es" "e = (\<lambda>packet. list_ex (\<lambda>e. e packet) es)"
      using assms(3) p by (auto simp: compilePipelinePredicate_def cbind_COk split: option.splits)
    obtain wc where wc: "Some wc \<in> set cs" "where_Eval rx (ptWrap_Get fs) wc = Some True"
      using pipeline_point[OF assms(1) t _ c(1,2)] assms(4,6) p by auto
    from compile_conds_exprs[OF c(2)] wc(1) obtain ex where "ex \<in> set es" "compileWhereCondition wc = COk ex"
      by (fastforce simp: list_all2_conv_all_nth in_set_conv_nth)
    then show ?thesis using where_covered[OF assms(1,2) _ assms(5) wc(2)] by (auto simp: c(3) list_ex_iff)
  qed
qed

lemma pipeline_exact:
  assumes "http_regexp rx" "of_spans cd td spans" "spans \<noteq> []" "compilePipelinePredicate p = COk e"
    "\<forall>sp. p = Some sp \<longrightarrow> exact_pipeline sp"
  shows "e td \<longleftrightarrow> (\<exists>fs\<in>set spans. pipelineMatchesPoint rx fs p = Some True)"
proof -
  obtain sp where p: "p = Some sp" using assms(4) by (cases p) (auto simp: compilePipelinePredicate_def)
  have x: "applied sp" "samples sp" using assms(5) p by (auto simp: exact_pipeline_def)
  show ?thesis
  proof (cases "isMatchAllSampling sp")
    case True
    then have "e td" using assms(4) p by (auto simp: compilePipelinePredicate_def)
    moreover have "pipelineMatchesPoint rx fs p = Some True" for fs
      using True x match_all_applied[OF True x(1)] p by (simp add: pipelineMatchesPoint_def samples_def)
    ultimately show ?thesis using assms(3) by (cases spans) auto
  next
    case False
    then obtain cs es where c: "sp_conds sp = Some cs" "compile_conds cs = COk es" "e = (\<lambda>packet. list_ex (\<lambda>e. e packet) es)"
      using assms(4) p by (auto simp: compilePipelinePredicate_def cbind_COk split: option.splits)
    have "e td \<Longrightarrow> \<exists>fs\<in>set spans. pipelineMatchesPoint rx fs p = Some True"
    proof -
      assume "e td"
      then obtain ex where ex: "ex \<in> set es" "ex td" by (auto simp: c(3) list_ex_iff)
      with compile_conds_exprs[OF c(2)] obtain wc where wc: "Some wc \<in> set cs" "compileWhereCondition wc = COk ex"
        by (fastforce simp: list_all2_conv_all_nth in_set_conv_nth)
      have "exact_where wc" using assms(5) p c(1) wc(1) by (auto simp: exact_pipeline_def list_all_iff)
      from where_exact[OF assms(1,2) wc(2) this] ex(2) obtain fs where fs: "fs \<in> set spans" "where_Eval rx (ptWrap_Get fs) wc = Some True"
        by blast
      have "typed_span (ptWrap_Get fs)" using fs(1) assms(2) by (simp add: of_spans_def)
      from pipeline_point[OF assms(1) this x(1) c(1,2)] wc(1) fs x(2) p show ?thesis by blast
    qed
    moreover have "\<exists>fs\<in>set spans. pipelineMatchesPoint rx fs p = Some True \<Longrightarrow> e td"
      using pipeline_covered[OF assms(1,2,4)] x(1) p by blast
    ultimately show ?thesis by blast
  qed
qed

subsection \<open>The walk\<close>

lemma match_point_all:
  assumes "\<forall>p\<in>set ps. pipelineMatchesPoint rx fs p \<noteq> None" "length ms = length ps"
  shows "match_point rx fs ps ms = Some (map2 (\<lambda>p m. m \<or> pipelineMatchesPoint rx fs p = Some True) ps ms)"
  using assms
proof (induction ps arbitrary: ms)
  case (Cons p ps)
  then obtain m ms' where "ms = m # ms'" "length ms' = length ps" by (cases ms) auto
  with Cons show ?case by auto
qed simp

lemma walk_all:
  assumes "map (ptWrap_Reset cd) bs = map Some spans" "\<forall>fs\<in>set spans. \<forall>p\<in>set ps. pipelineMatchesPoint rx fs p \<noteq> None"
    "length ms = length ps"
  shows "run_walk (\<lambda>ms raw. case ptWrap_Reset cd raw of None \<Rightarrow> Some (False, ms)
        | Some fs \<Rightarrow> map_option (\<lambda>ms'. (True, ms')) (match_point rx fs ps ms)) ok bs ms =
     Some (ok, map2 (\<lambda>p m. m \<or> (\<exists>fs\<in>set spans. pipelineMatchesPoint rx fs p = Some True)) ps ms)"
  using assms
proof (induction bs arbitrary: spans ms)
  case Nil
  then show ?case by (auto intro!: nth_equalityI)
next
  case (Cons b bs)
  then obtain fs rest where r: "ptWrap_Reset cd b = Some fs" "map (ptWrap_Reset cd) bs = map Some rest" "spans = fs # rest"
    by (auto simp: decoded_Cons simp del: list.map)
  let ?ms = "map2 (\<lambda>p m. m \<or> pipelineMatchesPoint rx fs p = Some True) ps ms"
  have "match_point rx fs ps ms = Some ?ms" using Cons.prems(2,3) r(3) by (intro match_point_all) auto
  moreover have "map2 (\<lambda>p m. m \<or> (\<exists>fs\<in>set rest. pipelineMatchesPoint rx fs p = Some True)) ps ?ms =
      map2 (\<lambda>p m. m \<or> (\<exists>fs\<in>set spans. pipelineMatchesPoint rx fs p = Some True)) ps ms"
    using Cons.prems(3) by (auto simp: r(3) intro!: nth_equalityI)
  ultimately show ?case using Cons.IH[OF r(2), of ?ms] Cons.prems(2,3) by (simp add: r(1,3))
qed

lemma walk_pipelines_spans:
  assumes "has_spans cd td spans" "\<forall>fs\<in>set spans. \<forall>p\<in>set ps. pipelineMatchesPoint rx fs p \<noteq> None"
  shows "walk_pipelines cd rx td ps =
    Some (decided cd td (map (\<lambda>p. \<exists>fs\<in>set spans. pipelineMatchesPoint rx fs p = Some True) ps) ps)"
proof -
  have "map2 (\<lambda>p m. m \<or> Q p) ps (replicate (length ps) False) = map Q ps" for Q
    by (auto intro!: nth_equalityI)
  then show ?thesis
    using walk_all[of cd _ spans ps rx "replicate (length ps) False" True] assms
    by (simp add: walk_pipelines_def WalkRaw_bodies has_spans_def)
qed

lemma compilePipelines_all2:
  "compilePipelinesFast ps = COk es \<Longrightarrow> list_all2 (\<lambda>p e. compilePipelinePredicate p = COk e) ps es"
  by (induction ps arbitrary: es) (auto simp: cbind_COk)

subsection \<open>The summary and the quick check of the payload\<close>

lemma run_summarise_ok:
  "map (ptWrap_Reset cd) bs = map Some spans \<Longrightarrow>
    run_walk (summarise_point cd) True bs (tmp, False) =
      Some (True, fold (\<lambda>fs. applySpanPredicatesWith cd (ptWrap_Get fs)) spans tmp, False)"
proof (induction bs arbitrary: spans tmp)
  case (Cons b bs)
  then show ?case by (auto simp: decoded_Cons summarise_point_def simp del: list.map)
qed simp

lemma ComputeSpanPredicates_spans:
  assumes "has_spans cd p0 spans" "\<not> packetHasSpanPredicates p0"
  shows "ComputeSpanPredicates cd p0 = (True, copy_summary (summary cd spans) p0)"
  using assms run_summarise_ok[of cd "fst (packet_bodies cd p0)" spans zero_packet]
  by (simp add: ComputeSpanPredicates_def WalkRaw_bodies has_spans_def summary_def)

lemma has_spans_copy [simp]: "has_spans cd (copy_summary s p0) spans \<longleftrightarrow> has_spans cd p0 spans"
  by (simp add: has_spans_def packet_bodies_def copy_summary_def)

lemma summary_nonempty: "packetHasSpanPredicates (copy_summary (summary cd spans) p0) \<Longrightarrow> spans \<noteq> []"
  by (auto simp: packetHasSpanPredicates_def copy_summary_def summary_def zero_packet_def)

lemma decodable_spans:
  assumes "has_spans cd td spans" "spans \<noteq> []" "pb_Unmarshal cd [] \<noteq> None" "PayloadCompression td = PayloadCompressionNone"
  shows "payloadHasDecodablePoint cd (PointsPayload td)"
proof -
  have b: "packet_bodies cd td = bodies (PointsPayload td)"
    using assms(4) by (simp add: packet_bodies_def DecompressPointsPayload_def)
  obtain raw bs fs rest where r: "fst (bodies (PointsPayload td)) = raw # bs" "ptWrap_Reset cd raw = Some fs"
    using assms(1,2) unfolding has_spans_def b by (cases spans) (auto simp: map_eq_Cons_conv)
  then have "pb_Unmarshal cd raw \<noteq> None" using assms(3) by (auto simp: ptWrap_Reset_def split: if_splits)
  then show ?thesis by (auto simp: payloadHasDecodablePoint_def Walk_bodies r)
qed

lemma payload_spans: "has_spans cd td spans \<Longrightarrow> spans \<noteq> [] \<Longrightarrow> PointsPayload td \<noteq> []"
  by (auto simp: has_spans_def packet_bodies_def DecompressPointsPayload_def bodies.simps[of "[]"])

text \<open>A packet that was just summarised is decided by the compiled predicates, where there are any.\<close>

lemma evaluate_summarised:
  assumes "has_spans cd p0 spans" "p = copy_summary (summary cd spans) p0" "pb_Unmarshal cd [] \<noteq> None" "packetHasSpanPredicates p" "ps \<noteq> []"
  shows "evaluatePipelines cd rx p ps =
    (case compilePipelinesFast ps of CPanic \<Rightarrow> None | COk es \<Rightarrow> Some (decided cd p (map (\<lambda>e. e p) es) ps)
     | CFail \<Rightarrow> walk_pipelines cd rx p ps)"
proof -
  have n: "spans \<noteq> []" "has_spans cd p spans" using assms(1,2,4) summary_nonempty by auto
  show ?thesis using decodable_spans[OF n(2,1) assms(3)] payload_spans[OF n(2,1)] assms(4,5)
    by (auto simp: evaluatePipelines_def)
qed

lemma evaluate_no_summary: "\<not> packetHasSpanPredicates p \<Longrightarrow> ps \<noteq> [] \<Longrightarrow> evaluatePipelines cd rx p ps = walk_pipelines cd rx p ps"
  by (simp add: evaluatePipelines_def)

end
