(* ===== verification/Tail_Props.thy ===== *)
theory Tail_Props
  imports Tail_Decide
begin

section \<open>Tail sampling: what the decisions say\<close>

text \<open>An example for the witnesses: two spans in a payload, decoded by a table.\<close>

definition ex_tag :: "string \<Rightarrow> field_val \<Rightarrow> Field" where
  "ex_tag k v = \<lparr>fKey = k, fIsTag = False, fType = 0, fUnit = [], fDesc = [], fVal = Some v\<rparr>"

definition ex_root :: "Point_Kvs.KVs" where
  "ex_root = [ex_tag ''parent_id'' (Field_S ''0''), ex_tag ''status'' (Field_S ''error''), ex_tag ''duration'' (Field_I 700)]"

definition ex_child :: "Point_Kvs.KVs" where
  "ex_child = [ex_tag ''parent_id'' (Field_S ''1''), ex_tag ''trace_keep'' (Field_B True), ex_tag ''duration'' (Field_I 200)]"

definition ex_codec :: codec where
  "ex_codec = \<lparr>EncodeAll = (\<lambda>b. b), DecodeAll = Some,
     pb_Unmarshal = (\<lambda>b. if b = [] then Some [] else if b = ''r'' then Some ex_root else if b = ''c'' then Some ex_child else None),
     float_to_int = (\<lambda>f. 0)\<rparr>"

definition ex_trace :: DataPacket where
  "ex_trace = zero_packet\<lparr>GroupIdHash := 7, Token := ''t'', DataType := ''tracing'', PointCount := 2, PointsPayload := (CHR 0x0A # CHR 0x01 # CHR ''r'' # CHR 0x0A # CHR 0x01 # ''c'')\<rparr>"

definition ex_regexp :: regexp where
  "ex_regexp re s = Some (isHTTPErrorStatus s)"

lemma ex_http_regexp: "http_regexp ex_regexp"
  by (simp add: http_regexp_def ex_regexp_def)

lemma ex_bodies: "bodies (CHR 0x0A # CHR 0x01 # CHR ''r'' # CHR 0x0A # CHR 0x01 # ''c'') = ([''r'', ''c''], True)"
  by code_simp

lemma ex_spans: "has_spans ex_codec ex_trace [ex_root, ex_child]"
  by (simp add: has_spans_def packet_bodies_def ex_trace_def DecompressPointsPayload_def zero_packet_def PayloadCompressionNone_def ex_bodies
      ex_codec_def ptWrap_Reset_def)

lemma ex_gets:
  "ptWrap_Get ex_root ''parent_id'' = Some (VString ''0'')" "ptWrap_Get ex_root ''status'' = Some (VString ''error'')"
  "ptWrap_Get ex_root ''duration'' = Some (VInt KInt64 700)" "ptWrap_Get ex_root ''trace_keep'' = None"
  "ptWrap_Get ex_root ''body_code'' = None" "ptWrap_Get ex_root ''http_status_code'' = None"
  "ptWrap_Get ex_child ''parent_id'' = Some (VString ''1'')" "ptWrap_Get ex_child ''status'' = None"
  "ptWrap_Get ex_child ''duration'' = Some (VInt KInt64 200)" "ptWrap_Get ex_child ''trace_keep'' = Some (VBool True)"
  "ptWrap_Get ex_child ''body_code'' = None" "ptWrap_Get ex_child ''http_status_code'' = None"
  by code_simp+

lemma ex_typed: "list_all (\<lambda>fs. typed_span (ptWrap_Get fs)) [ex_root, ex_child]"
  by (simp add: typed_span_def ex_gets in_range_def)

lemma ex_unsummarised: "\<not> packetHasSpanPredicates ex_trace"
  by code_simp

lemma ex_empty: "pb_Unmarshal ex_codec [] \<noteq> None"
  by (simp add: ex_codec_def)

text \<open>
  The summary tells the truth.  Of a packet whose points can all be decoded, \<open>ComputeSpanPredicates\<close> succeeds; a flag is set exactly when
  some span has what it stands for, and a duration exceeds a bound exactly when one of the spans it is about lasts longer.
\<close>

theorem summary_tells_the_truth:
  assumes "has_spans cd p0 spans" "\<not> packetHasSpanPredicates p0"
  shows "\<exists>p. ComputeSpanPredicates cd p0 = (True, p) \<and> PointsPayload p = PointsPayload p0 \<and>
    (PredError p \<longleftrightarrow> (\<exists>fs\<in>set spans. span_error (ptWrap_Get fs))) \<and>
    (PredHttpError p \<longleftrightarrow> (\<exists>fs\<in>set spans. span_http_error (ptWrap_Get fs))) \<and>
    (PredBizError p \<longleftrightarrow> (\<exists>fs\<in>set spans. span_biz_error (ptWrap_Get fs))) \<and>
    (PredTraceKeep p \<longleftrightarrow> (\<exists>fs\<in>set spans. span_keep (ptWrap_Get fs))) \<and>
    (\<forall>n\<ge>0. (n < MaxSpanDurationUs p \<longleftrightarrow> (\<exists>fs\<in>set spans. longer cd n (ptWrap_Get fs))) \<and>
       (n < RootDurationUs p \<longleftrightarrow> (\<exists>fs\<in>set spans. root_span (ptWrap_Get fs) \<and> longer cd n (ptWrap_Get fs))) \<and>
       (n < MaxNonrootDurationUs p \<longleftrightarrow> (\<exists>fs\<in>set spans. nonroot_span (ptWrap_Get fs) \<and> longer cd n (ptWrap_Get fs))))"
  unfolding ComputeSpanPredicates_spans[OF assms]
  by (intro exI[of _ "copy_summary (summary cd spans) p0"]) (simp add: summary_fields, simp add: copy_summary_def)

theorem summary_tells_the_truth_witness:
  "\<exists>p. ComputeSpanPredicates ex_codec ex_trace = (True, p) \<and> PredError p \<and> PredTraceKeep p \<and> \<not> PredHttpError p \<and>
     699 < RootDurationUs p \<and> \<not> 700 < RootDurationUs p \<and> 199 < MaxNonrootDurationUs p \<and> \<not> 200 < MaxNonrootDurationUs p"
proof -
  obtain p where p: "ComputeSpanPredicates ex_codec ex_trace = (True, p)"
    "PredError p \<longleftrightarrow> (\<exists>fs\<in>set [ex_root, ex_child]. span_error (ptWrap_Get fs))"
    "PredHttpError p \<longleftrightarrow> (\<exists>fs\<in>set [ex_root, ex_child]. span_http_error (ptWrap_Get fs))"
    "PredTraceKeep p \<longleftrightarrow> (\<exists>fs\<in>set [ex_root, ex_child]. span_keep (ptWrap_Get fs))"
    "\<And>n. n \<ge> 0 \<Longrightarrow> n < RootDurationUs p \<longleftrightarrow>
      (\<exists>fs\<in>set [ex_root, ex_child]. root_span (ptWrap_Get fs) \<and> longer ex_codec n (ptWrap_Get fs))"
    "\<And>n. n \<ge> 0 \<Longrightarrow> n < MaxNonrootDurationUs p \<longleftrightarrow>
      (\<exists>fs\<in>set [ex_root, ex_child]. nonroot_span (ptWrap_Get fs) \<and> longer ex_codec n (ptWrap_Get fs))"
    using summary_tells_the_truth[OF ex_spans ex_unsummarised] by blast
  show ?thesis
    by (intro exI[of _ p]) (simp add: p span_defs span_duration_def ex_gets)
qed


definition ex_slow :: SamplingPipeline where
  "ex_slow = \<lparr>sp_Name = ''slow'', sp_Type = PipelineTypeCondition, sp_Condition = ''{ parent_id = '0' and duration > 500 }'',
     sp_Action = PipelineActionKeep, sp_Rate = FFin 0, sp_HashKeys = [],
     sp_conds = Some [Some [BinaryExpr AND (BinaryExpr EQ (Identifier ''parent_id'') (StringLiteral ''0'') True)
        (BinaryExpr GT (Identifier ''duration'') (NumberLiteral True (FFin 0) 500) True) True]]\<rparr>"

definition error_and_keep :: Node where
  "error_and_keep = BinaryExpr AND (BinaryExpr EQ (Identifier ''status'') (StringLiteral ''error'') True)
     (BinaryExpr EQ (Identifier ''trace_keep'') (BoolLiteral True) True) True"

definition ex_both :: SamplingPipeline where
  "ex_both = ex_slow\<lparr>sp_Name := ''both'', sp_Condition := ''{ status = 'error' and trace_keep = true }'', sp_Action := PipelineActionDrop,
     sp_conds := Some [Some [error_and_keep]]\<rparr>"

lemma ex_slow_facts: "exact_pipeline ex_slow" "applied ex_slow" "compilePipelinesFast [Some ex_slow] \<noteq> CPanic"
proof -
  show "exact_pipeline ex_slow" "applied ex_slow" by code_simp+
  have "case compilePipelinesFast [Some ex_slow] of CPanic \<Rightarrow> False | _ \<Rightarrow> True" by code_simp
  then show "compilePipelinesFast [Some ex_slow] \<noteq> CPanic" by auto
qed

definition ex_packet :: DataPacket where
  "ex_packet = copy_summary (summary ex_codec [ex_root, ex_child]) ex_trace"

lemma ex_computed: "ComputeSpanPredicates ex_codec ex_trace = (True, ex_packet)"
  using ComputeSpanPredicates_spans[OF ex_spans ex_unsummarised] by (simp add: ex_packet_def)



text \<open>
  C20.  Deciding from the summary misses nothing on spans of the usual types.  Whatever a pipeline's condition is, as long as it was parsed and its regular
  expressions compiled, if walking the points of a packet that was just summarised
  finds a span that matches, \<open>evaluatePipelines\<close> matches too and with the same packet.  The spans have a parent that is a string, a body code
  that is one or none, no floating-point duration and no nil values; others can be missed.
\<close>

theorem fast_path_never_misses:
  assumes "http_regexp rx" "pb_Unmarshal cd [] \<noteq> None"
    "has_spans cd p0 spans" "\<not> packetHasSpanPredicates p0" "ComputeSpanPredicates cd p0 = (True, p)"
    "list_all (\<lambda>fs. typed_span (ptWrap_Get fs)) spans" "applied sp" "compilePipelinesFast [Some sp] \<noteq> CPanic"
    "walk_pipelines cd rx p [Some sp] = Some (True, d)"
  shows "evaluatePipelines cd rx p [Some sp] = Some (True, d)"
proof (cases "packetHasSpanPredicates p")
  case True
  have p: "p = copy_summary (summary cd spans) p0" using ComputeSpanPredicates_spans[OF assms(3,4)] assms(5) by simp
  then have s: "has_spans cd p spans" "of_spans cd p spans"
    using assms(3,6) by (auto simp: of_spans_def list_all_iff)
  note ev = evaluate_summarised[OF assms(3) p assms(2) True, of "[Some sp]"]
  show ?thesis
  proof (cases "compilePipelinesFast [Some sp]")
    case (COk es)
    then obtain e where c: "compilePipelinePredicate (Some sp) = COk e" "es = [e]" by (auto simp: cbind_COk)
    have "\<forall>fs\<in>set spans. \<forall>q\<in>set [Some sp]. pipelineMatchesPoint rx fs q \<noteq> None"
      using pipeline_total[OF assms(1) _ c(1)] assms(7) s(2) by (auto simp: of_spans_def)
    note w = walk_pipelines_spans[OF s(1) this]
    then obtain fs where "fs \<in> set spans" "pipelineMatchesPoint rx fs (Some sp) = Some True" "d = pipelineMatchedPacket cd p (Some sp)"
      using assms(9) by (auto simp: decided_def split: if_splits)
    with pipeline_covered[OF assms(1) s(2) c(1)] assms(7) show ?thesis using ev COk c(2) by (simp add: decided_def)
  qed (use assms(8,9) ev in auto)
qed (use assms(9) evaluate_no_summary in simp)

theorem fast_path_never_misses_witness:
  "walk_pipelines ex_codec ex_regexp ex_packet [Some ex_slow] = Some (True, Some ex_packet) \<and>
   evaluatePipelines ex_codec ex_regexp ex_packet [Some ex_slow] = Some (True, Some ex_packet)"
proof -
  have w: "walk_pipelines ex_codec ex_regexp ex_packet [Some ex_slow] = Some (True, Some ex_packet)" by code_simp
  then show ?thesis
    using fast_path_never_misses[OF ex_http_regexp ex_empty ex_spans ex_unsummarised ex_computed ex_typed _ _ w] ex_slow_facts by simp
qed

text \<open>
  The summary mixes spans.  A condition that asks for an error and \<open>trace_keep\<close> on one span is fulfilled by the summary
  when one span has the error and another the mark, although walking the points finds no span that matches.
\<close>

theorem fast_path_mixes_spans:
  assumes "http_regexp rx" "pb_Unmarshal cd [] \<noteq> None"
    "has_spans cd p0 spans" "\<not> packetHasSpanPredicates p0" "ComputeSpanPredicates cd p0 = (True, p)"
    "list_all (\<lambda>fs. typed_span (ptWrap_Get fs)) spans"
    "list_ex (\<lambda>fs. span_error (ptWrap_Get fs)) spans" "list_ex (\<lambda>fs. span_keep (ptWrap_Get fs)) spans"
    "list_all (\<lambda>fs. \<not> (span_error (ptWrap_Get fs) \<and> span_keep (ptWrap_Get fs))) spans"
    "sp_Type sp = PipelineTypeCondition" "sp_Condition sp \<noteq> []" "sp_conds sp = Some [Some [error_and_keep]]"
  shows "evaluatePipelines cd rx p [Some sp] = Some (True, pipelineMatchedPacket cd p (Some sp)) \<and>
    walk_pipelines cd rx p [Some sp] = Some (False, None)"
proof
  have p: "p = copy_summary (summary cd spans) p0" using ComputeSpanPredicates_spans[OF assms(3,4)] assms(5) by simp
  have m: "\<not> isMatchAllSampling sp" using assms(10) by (simp add: isMatchAllSampling_def)
  have c: "compileWhereCondition [error_and_keep] = COk (\<lambda>packet. PredError packet \<and> PredTraceKeep packet)"
    by (simp add: compileWhereCondition_def error_and_keep_def compileAtomic_def ok_if_def cboth_def mergePreds_def flag_pred_def no_pred_def
        covered_def spanPred_eval_def pred_duration_def)
  have f: "PredError p" "PredTraceKeep p" using assms(7,8) unfolding p list_ex_iff summary_fields by auto
  then have "packetHasSpanPredicates p" by (simp add: packetHasSpanPredicates_def)
  from evaluate_summarised[OF assms(3) p assms(2) this, of "[Some sp]" rx] f m c assms(12)
  show "evaluatePipelines cd rx p [Some sp] = Some (True, pipelineMatchedPacket cd p (Some sp))"
    by (simp add: compilePipelinePredicate_def decided_def)
  have "pipelineMatchesPoint rx fs (Some sp) = Some False" if "fs \<in> set spans" for fs
  proof -
    have t: "typed_span (ptWrap_Get fs)" "\<not> (span_error (ptWrap_Get fs) \<and> span_keep (ptWrap_Get fs))"
      using that assms(6,9) by (auto simp: list_all_iff)
    have "where_Eval rx (ptWrap_Get fs) [error_and_keep] = Some False"
      using t(2) Eval_flags(1,2)[OF t(1), of rx True] by (auto simp: error_and_keep_def split: bool.splits)
    then show ?thesis using assms(10,12) by (simp add: pipelineMatchesPoint_def)
  qed
  then show "walk_pipelines cd rx p [Some sp] = Some (False, None)"
    using walk_pipelines_spans[of cd p spans "[Some sp]" rx] assms(3) p by (simp add: decided_def)
qed

theorem fast_path_mixes_spans_witness:
  "evaluatePipelines ex_codec ex_regexp ex_packet [Some ex_both] = Some (True, None) \<and>
   walk_pipelines ex_codec ex_regexp ex_packet [Some ex_both] = Some (False, None)"
  using fast_path_mixes_spans[OF ex_http_regexp ex_empty ex_spans ex_unsummarised ex_computed ex_typed, of ex_both]
  by (simp add: span_defs ex_gets ex_both_def ex_slow_def pipelineMatchedPacket_def)

end
