(* ===== verification/Tail_Config.thy ===== *)
theory Tail_Config
  imports Tail_Predicates
begin

section \<open>Tail sampling: configuration and keys (aggregate/tail-sampling.go, point.go)\<close>


text \<open>
  The configuration of one token: for traces a list of pipelines, for logs and sessions a list of pipelines per grouping key.  Durations are in nanoseconds.
  \<open>LoggingGroupDimension\<close> and \<open>RUMGroupDimension\<close> have the same fields, and so have the two configurations made of them.
\<close>

record DerivedMetric =
  dm_Name :: string
  dm_Condition :: string
  dm_Groupby :: "string list"

record BuiltinMetricCfg =
  bm_Name :: string
  bm_Enabled :: bool

record TraceTailSampling =
  tr_DataTTL :: int
  tr_DerivedMetrics :: "DerivedMetric option list"
  tr_BuiltinMetrics :: "BuiltinMetricCfg option list"
  tr_Pipelines :: Pipelines
  tr_Version :: int
  tr_GroupKey :: string

record GroupDimension =
  gd_GroupKey :: string
  gd_Pipelines :: Pipelines
  gd_DerivedMetrics :: "DerivedMetric option list"

record GroupTailSampling =
  gt_DataTTL :: int
  gt_Version :: int
  gt_BuiltinMetrics :: "BuiltinMetricCfg option list"
  gt_GroupDimensions :: "GroupDimension option list"

record TailSamplingConfigs =
  tc_Tracing :: "TraceTailSampling option"
  tc_Logging :: "GroupTailSampling option"
  tc_RUM :: "GroupTailSampling option"
  tc_Version :: int

definition second :: int where "second = 1000000000"
definition minute :: int where "minute = 60 * second"

subsection \<open>Pipelines\<close>

definition normalizeSamplingPipelines :: "Pipelines \<Rightarrow> Pipelines" where
  "normalizeSamplingPipelines pipelines =
     filter (\<lambda>p. case p of None \<Rightarrow> True
                  | Some sp \<Rightarrow> \<not> (sp_Type sp = PipelineTypeSampling \<and> f64_le (sp_Rate sp) (FFin 0))) pipelines"

datatype config_err =
    ErrPipelineNil
  | ErrAction string string
  | ErrRate string f64
  | ErrType string string
  | ErrCondition string
  | ErrTraceGroupKey string
  | ErrDerivedMetrics string
  | ErrGroupNil nat
  | ErrGroupKeyMissing nat

text \<open>The pipeline as validation leaves it, and what is wrong with it.\<close>

definition validateSamplingPipeline :: "get_conds \<Rightarrow> SamplingPipeline option \<Rightarrow> config_err option \<times> SamplingPipeline option" where
  "validateSamplingPipeline gc pipeline =
     (case pipeline of
        None \<Rightarrow> (Some ErrPipelineNil, None)
      | Some sp \<Rightarrow>
          (case (if sp_Type sp = PipelineTypeCondition
                 then if sp_Action sp \<noteq> PipelineActionKeep \<and> sp_Action sp \<noteq> PipelineActionDrop
                      then Some (ErrAction (sp_Name sp) (sp_Action sp)) else None
                 else if sp_Type sp = PipelineTypeSampling
                 then if f64_lt (sp_Rate sp) (FFin 0) \<or> f64_lt (FFin 1) (sp_Rate sp)
                      then Some (ErrRate (sp_Name sp) (sp_Rate sp)) else None
                 else Some (ErrType (sp_Name sp) (sp_Type sp))) of
             Some e \<Rightarrow> (Some e, Some sp)
           | None \<Rightarrow>
               (if sp_Condition sp = [] then (None, Some (sp\<lparr>sp_conds := None\<rparr>))
                else case Apply gc sp of
                       (True, sp') \<Rightarrow> (None, Some sp')
                     | (False, sp') \<Rightarrow> (Some (ErrCondition (sp_Name sp)), Some sp'))))"

fun validate_all :: "get_conds \<Rightarrow> Pipelines \<Rightarrow> config_err list \<times> Pipelines" where
  "validate_all gc [] = ([], [])"
| "validate_all gc (p # ps) =
     (case validateSamplingPipeline gc p of (e, p') \<Rightarrow>
      case validate_all gc ps of (es, ps') \<Rightarrow>
        ((case e of None \<Rightarrow> [] | Some x \<Rightarrow> [x]) @ es, p' # ps'))"

definition initBuiltinMetricCfgs :: "BuiltinMetricCfg option list \<Rightarrow> string list \<Rightarrow> BuiltinMetricCfg option list" where
  "initBuiltinMetricCfgs cfgs defaults =
     cfgs @ map (\<lambda>name. Some \<lparr>bm_Name = name, bm_Enabled = True\<rparr>)
       (filter (\<lambda>name. \<not> list_ex (\<lambda>c. case c of None \<Rightarrow> False | Some c \<Rightarrow> bm_Name c \<noteq> [] \<and> bm_Name c = name) cfgs) defaults)"

definition traceBuiltinMetricNames :: "string list" where
  "traceBuiltinMetricNames =
     [''trace_total_count'', ''trace_kept_count'', ''trace_dropped_count'', ''trace_error_count'', ''span_total_count'', ''trace_duration'']"

definition loggingBuiltinMetricNames :: "string list" where
  "loggingBuiltinMetricNames = [''logging_total_count'', ''logging_error_count'', ''logging_kept_count'', ''logging_dropped_count'']"

definition rumBuiltinMetricNames :: "string list" where
  "rumBuiltinMetricNames = [''rum_total_count'', ''rum_kept_count'', ''rum_dropped_count'']"

subsection \<open>Init\<close>

text \<open>The configuration as \<open>Init\<close> leaves it, and the errors it joins; it is changed also when there are some.\<close>

definition init_trace :: "get_conds \<Rightarrow> TraceTailSampling \<Rightarrow> config_err list \<times> TraceTailSampling" where
  "init_trace gc t =
     (case validate_all gc (normalizeSamplingPipelines (tr_Pipelines t)) of (bad, ps) \<Rightarrow>
        ((if tr_GroupKey t \<noteq> [] \<and> tr_GroupKey t \<noteq> ''trace_id'' then [ErrTraceGroupKey (tr_GroupKey t)] else []) @ bad @
         (if length (tr_DerivedMetrics t) > 0 then [ErrDerivedMetrics ''trace''] else []),
         t\<lparr>tr_DataTTL := (if tr_DataTTL t = 0 then 5 * minute else tr_DataTTL t),
           tr_GroupKey := (if tr_GroupKey t = [] then ''trace_id'' else tr_GroupKey t),
           tr_Pipelines := ps,
           tr_BuiltinMetrics := initBuiltinMetricCfgs (tr_BuiltinMetrics t) traceBuiltinMetricNames\<rparr>))"

fun init_groups :: "get_conds \<Rightarrow> nat \<Rightarrow> GroupDimension option list \<Rightarrow> config_err list \<times> GroupDimension option list" where
  "init_groups gc idx [] = ([], [])"
| "init_groups gc idx (None # gs) = (case init_groups gc (Suc idx) gs of (es, gs') \<Rightarrow> (ErrGroupNil idx # es, None # gs'))"
| "init_groups gc idx (Some g # gs) =
     (case validate_all gc (normalizeSamplingPipelines (gd_Pipelines g)) of (bad, ps) \<Rightarrow>
      case init_groups gc (Suc idx) gs of (es, gs') \<Rightarrow>
        ((if gd_GroupKey g = [] then [ErrGroupKeyMissing idx] else []) @ bad @
         (if length (gd_DerivedMetrics g) > 0 then [ErrDerivedMetrics (gd_GroupKey g)] else []) @ es,
         Some (g\<lparr>gd_Pipelines := ps\<rparr>) # gs'))"

definition init_group_config :: "get_conds \<Rightarrow> string list \<Rightarrow> GroupTailSampling \<Rightarrow> config_err list \<times> GroupTailSampling" where
  "init_group_config gc metrics t =
     (case init_groups gc 0 (gt_GroupDimensions t) of (bad, gs) \<Rightarrow>
        (bad,
         t\<lparr>gt_DataTTL := (if gt_DataTTL t = 0 then minute else gt_DataTTL t), gt_GroupDimensions := gs,
           gt_BuiltinMetrics := initBuiltinMetricCfgs (gt_BuiltinMetrics t) metrics\<rparr>))"

definition init_part :: "('a \<Rightarrow> config_err list \<times> 'a) \<Rightarrow> 'a option \<Rightarrow> config_err list \<times> 'a option" where
  "init_part f x = (case x of None \<Rightarrow> ([], None) | Some y \<Rightarrow> (case f y of (es, y') \<Rightarrow> (es, Some y')))"

definition Init :: "get_conds \<Rightarrow> TailSamplingConfigs \<Rightarrow> config_err list \<times> TailSamplingConfigs" where
  "Init gc t =
     (case init_part (init_trace gc) (tc_Tracing t) of (e1, tracing) \<Rightarrow>
      case init_part (init_group_config gc loggingBuiltinMetricNames) (tc_Logging t) of (e2, logging) \<Rightarrow>
      case init_part (init_group_config gc rumBuiltinMetricNames) (tc_RUM t) of (e3, rum) \<Rightarrow>
        (e1 @ e2 @ e3, t\<lparr>tc_Tracing := tracing, tc_Logging := logging, tc_RUM := rum\<rparr>))"

subsection \<open>Keys of groups\<close>

text \<open>\<open>xxhash.Sum64\<close> is a parameter; the numbers are \<open>uint64\<close>.\<close>

definition HashCombine :: "64 word \<Rightarrow> 64 word \<Rightarrow> 64 word" where
  "HashCombine seed h = (xor (seed + 0x9e3779b9) h) * 0x517cc1b727220a95"

definition HashToken :: "(string \<Rightarrow> 64 word) \<Rightarrow> string \<Rightarrow> 64 word \<Rightarrow> 64 word" where
  "HashToken xx token hash64 = HashCombine hash64 (xx token)"

definition tailSamplingGroupMapKeyByFields :: "(string \<Rightarrow> 64 word) \<Rightarrow> string \<Rightarrow> nat \<Rightarrow> string \<Rightarrow> string \<Rightarrow> nat" where
  "tailSamplingGroupMapKeyByFields xx token groupIDHash dataType groupKey =
     unat (HashCombine (HashCombine (HashToken xx token (of_nat groupIDHash)) (xx dataType)) (xx groupKey))"

definition tailSamplingGroupMapKey :: "(string \<Rightarrow> 64 word) \<Rightarrow> DataPacket \<Rightarrow> nat" where
  "tailSamplingGroupMapKey xx packet =
     tailSamplingGroupMapKeyByFields xx (Token packet) (GroupIdHash packet) (DataType packet) (GroupKey packet)"

text \<open>The multiplier is odd, so it can be undone: no information is lost in either argument.\<close>

lemma multiplier_undone: "(0x517cc1b727220a95 :: 64 word) * 0x2040003d780970bd = 1"
  by code_simp

lemma HashCombine_inj: "HashCombine a h = HashCombine b h \<longleftrightarrow> a = b"
proof
  assume e: "HashCombine a h = HashCombine b h"
  have "xor (x + 0x9e3779b9) h = HashCombine x h * 0x2040003d780970bd" for x
    unfolding HashCombine_def mult.assoc multiplier_undone by simp
  with e have "xor (xor (a + 0x9e3779b9) h) h = xor (xor (b + 0x9e3779b9) h) h" by simp
  then show "a = b" by (simp add: xor.assoc)
qed simp

lemma group_key_inj:
  assumes "a < 2 ^ 64" "b < 2 ^ 64"
  shows "tailSamplingGroupMapKeyByFields xx token a dataType groupKey = tailSamplingGroupMapKeyByFields xx token b dataType groupKey
    \<longleftrightarrow> a = b"
proof -
  have "unat (of_nat n :: 64 word) = n" if "n < 2 ^ 64" for n
    using that by (simp add: unat_of_nat)
  then have "(of_nat a :: 64 word) = of_nat b \<longleftrightarrow> a = b" using assms by metis
  then show ?thesis
    by (simp add: tailSamplingGroupMapKeyByFields_def HashToken_def HashCombine_inj flip: word_unat_eq_iff)
qed


end
