(* ===== verification/Tail_Spill.thy ===== *)
theory Tail_Spill
  imports Tail_Types Go_Os
begin

section \<open>Payloads on disk (aggregate/spill.go)\<close>

text \<open>
  \<open>FilePayloadSpiller\<close> keeps one file per payload in a directory of its own.  Its calls go to the file-system model; the clock only
  makes names, a counter makes them unique.
\<close>

subsection \<open>Files\<close>

text \<open>\<open>os.WriteFile\<close>, and \<open>os.RemoveAll\<close>, which may stop after some of the files.\<close>

definition os_write_file :: "string \<Rightarrow> bytes \<Rightarrow> 'a os_scheme \<Rightarrow> os_err option \<times> 'a os_scheme" where
  "os_write_file f bs w =
     (case os_open_trunc f w of
        (Some e, w1) \<Rightarrow> (Some e, w1)
      | (None, w1) \<Rightarrow>
          (case fd_append f bs w1 of (e1, w2) \<Rightarrow>
           case fd_call w2 of (e2, w3) \<Rightarrow> (case e1 of Some e \<Rightarrow> Some e | None \<Rightarrow> e2, w3)))"

definition drop_files :: "string list \<Rightarrow> 'a os_scheme \<Rightarrow> 'a os_scheme" where
  "drop_files fs w = w\<lparr>files := filter (\<lambda>(f, b). f \<notin> set fs) (files w)\<rparr>"

definition os_remove_all :: "string \<Rightarrow> 'a os_scheme \<Rightarrow> os_err option \<times> 'a os_scheme" where
  "os_remove_all p w =
     (case pop_fault w of
        (Some n, w1) \<Rightarrow> (Some EIO, drop_files (take n (walk_files p w1)) w1)
      | (None, w1) \<Rightarrow>
          (None, drop_files (p # walk_files p w1) (w1\<lparr>dirs := filter (\<lambda>d. d \<noteq> p \<and> \<not> in_dir p d) (dirs w1)\<rparr>)))"

subsection \<open>The spiller\<close>

record FilePayloadSpiller =
  fs_dir :: string
  fs_seq :: int

definition NewFilePayloadSpiller :: "string \<Rightarrow> 'a os_scheme \<Rightarrow> (os_err + FilePayloadSpiller) \<times> 'a os_scheme" where
  "NewFilePayloadSpiller d w =
     (case os_remove_all d w of
        (Some e, w1) \<Rightarrow> (Inl e, w1)
      | (None, w1) \<Rightarrow>
          (case os_mkdir_all d w1 of
             (Some e, w2) \<Rightarrow> (Inl e, w2)
           | (None, w2) \<Rightarrow> (Inr \<lparr>fs_dir = d, fs_seq = 0\<rparr>, w2)))"

text \<open>\<open>%x\<close> of an integer.\<close>

definition hex_digit :: "nat \<Rightarrow> char" where
  "hex_digit d = (if d < 10 then digit d else char_of (87 + d))"

fun hex_digits :: "nat \<Rightarrow> string" where
  "hex_digits n = (if n < 16 then [hex_digit n] else hex_digits (n div 16) @ [hex_digit (n mod 16)])"

declare hex_digits.simps [simp del]

definition fmt_x :: "int \<Rightarrow> string" where
  "fmt_x x = (if x < 0 then ''-'' @ hex_digits (nat (- x)) else hex_digits (nat x))"

definition spill_key :: "int \<Rightarrow> int \<Rightarrow> string" where
  "spill_key t n = fmt_x t @ ''_'' @ fmt_d n"

definition spill_key_char :: "char \<Rightarrow> bool" where
  "spill_key_char c \<longleftrightarrow> CHR ''0'' \<le> c \<and> c \<le> CHR ''9'' \<or> CHR ''a'' \<le> c \<and> c \<le> CHR ''f'' \<or> c = CHR ''_''"

definition validSpillKey :: "string \<Rightarrow> bool" where
  "validSpillKey key \<longleftrightarrow> key \<noteq> [] \<and> length key \<le> 64 \<and> list_all spill_key_char key"

definition spill_Put :: "bytes \<Rightarrow> FilePayloadSpiller \<Rightarrow> 'a os_scheme \<Rightarrow> (os_err + string) \<times> FilePayloadSpiller \<times> 'a os_scheme" where
  "spill_Put payload f w =
     (let n = to_i64 (fs_seq f + 1); key = spill_key (now w) n; f1 = f\<lparr>fs_seq := n\<rparr> in
      case os_write_file (Join (fs_dir f) key) payload w of
        (Some e, w1) \<Rightarrow> (Inl e, f1, w1)
      | (None, w1) \<Rightarrow> (Inr key, f1, w1))"

definition spill_Get :: "string \<Rightarrow> FilePayloadSpiller \<Rightarrow> 'a os_scheme \<Rightarrow> (os_err + bytes) \<times> 'a os_scheme" where
  "spill_Get key f w =
     (if \<not> validSpillKey key then (Inl EINVAL, w) else os_read_file (Join (fs_dir f) key) w)"

definition spill_Delete :: "string \<Rightarrow> FilePayloadSpiller \<Rightarrow> 'a os_scheme \<Rightarrow> os_err option \<times> 'a os_scheme" where
  "spill_Delete key f w =
     (if \<not> validSpillKey key then (None, w)
      else case os_remove (Join (fs_dir f) key) w of
             (Some ENOENT, w1) \<Rightarrow> (None, w1)
           | r \<Rightarrow> r)"

subsection \<open>Keys\<close>

lemma of_char_hex_digit: "d < 16 \<Longrightarrow> (of_char (hex_digit d) :: nat) = (if d < 10 then 48 + d else 87 + d)"
  by (simp add: hex_digit_def)

lemma hex_digit_char: "d < 16 \<Longrightarrow> spill_key_char (hex_digit d) \<and> hex_digit d \<noteq> CHR ''_''"
proof
  assume d: "d < 16"
  show "spill_key_char (hex_digit d)"
    unfolding spill_key_char_def less_eq_char_def of_char_hex_digit[OF d] using d by auto
  have "(of_char (hex_digit d) :: nat) \<noteq> of_char (CHR ''_'')" using d by (simp add: of_char_hex_digit)
  then show "hex_digit d \<noteq> CHR ''_''" by auto
qed

lemma hex_digits_chars: "list_all (\<lambda>c. spill_key_char c \<and> c \<noteq> CHR ''_'') (hex_digits n)"
  by (induction n rule: hex_digits.induct) (subst hex_digits.simps, simp add: hex_digit_char)

lemma hex_digits_length: "0 < k \<Longrightarrow> n < 16 ^ k \<Longrightarrow> length (hex_digits n) \<le> k"
proof (induction n arbitrary: k rule: hex_digits.induct)
  case (1 n)
  show ?case
  proof (cases "n < 16")
    case True
    with 1(2) show ?thesis by (subst hex_digits.simps) simp
  next
    case False
    with 1(3) obtain j where j: "k = Suc j" "0 < j" by (cases k; cases "k - 1") auto
    with 1(3) have "n div 16 < 16 ^ j" by (simp add: less_mult_imp_div_less mult.commute)
    with 1(1)[OF False j(2)] False j(1) show ?thesis by (subst hex_digits.simps) simp
  qed
qed

lemma digit_key_char: "is_digit c \<Longrightarrow> spill_key_char c"
  by (simp add: is_digit_def spill_key_char_def less_eq_char_def)

lemma spill_key_valid:
  assumes "0 \<le> t" "t < 2 ^ 63" "0 \<le> n" "n < 2 ^ 63"
  shows "validSpillKey (spill_key t n)"
proof -
  have "length (hex_digits (nat t)) \<le> 16" using assms(1,2) by (intro hex_digits_length) auto
  moreover have "length (dec_digits (nat n)) \<le> 19" using assms(3,4) by (intro length_dec_digits_le) auto
  ultimately show ?thesis
    using assms(1,3) hex_digits_chars[of "nat t"] dec_digits_digits[of "nat n"] digit_key_char
    by (auto simp: validSpillKey_def spill_key_def fmt_x_def fmt_d_def list_all_iff spill_key_char_def)
qed

lemma split_sep_inj:
  assumes "c \<notin> set a" "c \<notin> set b" "a @ c # x = b @ c # y"
  shows "a = b \<and> x = y"
  using assms
proof (induction a arbitrary: b)
  case Nil
  then show ?case by (cases b) auto
next
  case (Cons z a)
  then show ?case by (cases b) auto
qed

lemma spill_key_inj:
  assumes "0 \<le> t" "0 \<le> t'" "0 \<le> m" "0 \<le> n" "spill_key t m = spill_key t' n"
  shows "m = n"
proof -
  have "CHR ''_'' \<notin> set (hex_digits x)" for x using hex_digits_chars[of x] by (auto simp: list_all_iff)
  then have "dec_digits (nat m) = dec_digits (nat n)"
    using assms split_sep_inj[of "CHR ''_''" "hex_digits (nat t)" "hex_digits (nat t')" "dec_digits (nat m)" "dec_digits (nat n)"]
    by (simp add: spill_key_def fmt_x_def fmt_d_def)
  then have "nat m = nat n" by (metis dec_val_dec_digits)
  with assms show ?thesis by simp
qed

lemma valid_key_plain: "validSpillKey k \<Longrightarrow> plain_name k"
  by (auto simp: validSpillKey_def plain_name_def spill_key_char_def list_all_iff less_eq_char_def)

subsection \<open>The contract of a payload store\<close>

text \<open>
  What the time wheel relies on (the interface \<open>PayloadSpiller\<close>).  A store may fail at any call; then nothing that was stored is lost.
  In a calm state calls succeed.
\<close>

locale payload_store =
  fixes put :: "bytes \<Rightarrow> 's \<Rightarrow> string option \<times> 's"
    and get :: "string \<Rightarrow> 's \<Rightarrow> bytes option \<times> 's"
    and delete :: "string \<Rightarrow> 's \<Rightarrow> bool \<times> 's"
    and stored :: "'s \<Rightarrow> string \<Rightarrow> bytes option"
    and ok :: "'s \<Rightarrow> bool"
    and room :: "'s \<Rightarrow> bool"
    and calm :: "'s \<Rightarrow> bool"
  assumes put_ok: "ok s \<Longrightarrow> room s \<Longrightarrow> put b s = (r, s') \<Longrightarrow> ok s'"
    and put_keeps: "ok s \<Longrightarrow> room s \<Longrightarrow> put b s = (r, s') \<Longrightarrow> stored s k = Some x \<Longrightarrow> stored s' k = Some x"
    and put_new: "ok s \<Longrightarrow> room s \<Longrightarrow> put b s = (Some k, s') \<Longrightarrow> k \<noteq> [] \<and> stored s k = None \<and> stored s' k = Some b"
    and get_keeps: "ok s \<Longrightarrow> get k s = (gr, s') \<Longrightarrow> ok s' \<and> stored s' = stored s"
    and get_right: "ok s \<Longrightarrow> get k s = (Some b, s') \<Longrightarrow> stored s k = Some b"
    and delete_keeps: "ok s \<Longrightarrow> delete k s = (dr, s') \<Longrightarrow> ok s' \<and> (\<forall>k'. k' \<noteq> k \<longrightarrow> stored s' k' = stored s k')"
    and delete_gone: "ok s \<Longrightarrow> delete k s = (True, s') \<Longrightarrow> stored s' k = None"
    and calm_put: "ok s \<Longrightarrow> room s \<Longrightarrow> calm s \<Longrightarrow> \<exists>k s'. put b s = (Some k, s') \<and> calm s'"
    and calm_get: "ok s \<Longrightarrow> calm s \<Longrightarrow> stored s k = Some b \<Longrightarrow> \<exists>s'. get k s = (Some b, s') \<and> calm s'"
    and calm_delete: "ok s \<Longrightarrow> calm s \<Longrightarrow> \<exists>s'. delete k s = (True, s') \<and> calm s'"
begin

text \<open>A payload comes back after any later puts, reads and deletes of other keys, until it is deleted.\<close>

lemma put_then_get:
  assumes "ok s" "room s" "calm s" "put b s = (Some k, s1)"
  shows "\<exists>s2. get k s1 = (Some b, s2)"
proof -
  have "stored s1 k = Some b" "ok s1" using put_new[OF assms(1,2,4)] put_ok[OF assms(1,2,4)] by auto
  moreover have "calm s1" using calm_put[OF assms(1-3), of b] assms(4) by auto
  ultimately show ?thesis using calm_get by blast
qed

lemma put_get_delete_other:
  assumes "ok s" "room s" "put b s = (Some k, s1)" "k' \<noteq> k" "delete k' s1 = (r, s2)" "get k s2 = (Some c, s3)"
  shows "c = b"
proof -
  have s1: "stored s1 k = Some b" "ok s1" using put_new[OF assms(1-3)] put_ok[OF assms(1-3)] by auto
  then have "stored s2 k = Some b" "ok s2" using delete_keeps[OF s1(2) assms(5)] assms(4) by auto
  then show ?thesis using get_right[OF _ assms(6)] by simp
qed

end

subsection \<open>The files are such a store\<close>

type_synonym 'a spill_state = "FilePayloadSpiller \<times> 'a os_scheme"

definition fst_put :: "bytes \<Rightarrow> 'a spill_state \<Rightarrow> string option \<times> 'a spill_state" where
  "fst_put b s = (case spill_Put b (fst s) (snd s) of (r, f, w) \<Rightarrow> (case r of Inl e \<Rightarrow> None | Inr k \<Rightarrow> Some k, f, w))"

definition fst_get :: "string \<Rightarrow> 'a spill_state \<Rightarrow> bytes option \<times> 'a spill_state" where
  "fst_get k s = (case spill_Get k (fst s) (snd s) of (r, w) \<Rightarrow> (case r of Inl e \<Rightarrow> None | Inr b \<Rightarrow> Some b, fst s, w))"

definition fst_delete :: "string \<Rightarrow> 'a spill_state \<Rightarrow> bool \<times> 'a spill_state" where
  "fst_delete k s = (case spill_Delete k (fst s) (snd s) of (e, w) \<Rightarrow> (e = None, fst s, w))"

definition spilled :: "'a spill_state \<Rightarrow> string \<Rightarrow> bytes option" where
  "spilled s k = (if validSpillKey k then fget (Join (fs_dir (fst s)) k) (snd s) else None)"

text \<open>Every file was named with a counter up to the current one, and the names are not those of directories.\<close>

definition spill_ok :: "'a spill_state \<Rightarrow> bool" where
  "spill_ok s \<longleftrightarrow>
     0 \<le> fs_seq (fst s) \<and> 0 \<le> now (snd s) \<and> now (snd s) < 2 ^ 63 \<and>
     (\<forall>k. validSpillKey k \<longrightarrow> Join (fs_dir (fst s)) k \<notin> set (dirs (snd s))) \<and>
     (\<forall>k. spilled s k \<noteq> None \<longrightarrow> (\<exists>t n. k = spill_key t n \<and> 0 \<le> t \<and> 0 \<le> n \<and> n \<le> fs_seq (fst s)))"

lemma spill_ok_key:
  "spill_ok s \<Longrightarrow> spilled s k \<noteq> None \<Longrightarrow> \<exists>t n. k = spill_key t n \<and> 0 \<le> t \<and> 0 \<le> n \<and> n \<le> fs_seq (fst s)"
  unfolding spill_ok_def by blast

definition spill_room :: "'a spill_state \<Rightarrow> bool" where
  "spill_room s \<longleftrightarrow> fs_seq (fst s) + 1 < 2 ^ 63"

definition spill_calm :: "'a spill_state \<Rightarrow> bool" where
  "spill_calm s \<longleftrightarrow> faults (snd s) = []"

lemma pop_fault_keeps: "pop_fault w = (r, w') \<Longrightarrow> files w' = files w \<and> dirs w' = dirs w \<and> now w' = now w"
  by (auto simp: pop_fault_def split: list.splits)

lemma write_steps:
  "os_open_trunc f w = (e, w') \<Longrightarrow> dirs w' = dirs w \<and> now w' = now w \<and> (\<forall>g. g \<noteq> f \<longrightarrow> fget g w' = fget g w) \<and>
     (e = None \<longrightarrow> fget f w' = Some []) \<and> (faults w = [] \<longrightarrow> f \<notin> set (dirs w) \<longrightarrow> e = None \<and> faults w' = [])"
  "fd_append f b w = (e, w') \<Longrightarrow> dirs w' = dirs w \<and> now w' = now w \<and> (\<forall>g. g \<noteq> f \<longrightarrow> fget g w' = fget g w) \<and>
     (e = None \<longrightarrow> fget f w = Some [] \<longrightarrow> fget f w' = Some b) \<and> (faults w = [] \<longrightarrow> e = None \<and> faults w' = [])"
  "fd_call w = (e, w') \<Longrightarrow> dirs w' = dirs w \<and> now w' = now w \<and> files w' = files w \<and> (faults w = [] \<longrightarrow> e = None \<and> faults w' = [])"
  by (auto simp: os_open_trunc_def pop_fault_def split: list.splits option.splits if_splits)
    (auto simp: fd_append_def fd_call_def pop_fault_def Let_def split: list.splits option.splits)

lemma write_file_effect:
  assumes "os_write_file f b w = (r, w')"
  shows "dirs w' = dirs w \<and> now w' = now w \<and> (\<forall>g. g \<noteq> f \<longrightarrow> fget g w' = fget g w) \<and> (r = None \<longrightarrow> fget f w' = Some b) \<and>
    (faults w = [] \<longrightarrow> f \<notin> set (dirs w) \<longrightarrow> r = None \<and> faults w' = [])"
proof -
  obtain e1 w1 where 1: "os_open_trunc f w = (e1, w1)" by fastforce
  show ?thesis
  proof (cases e1)
    case (Some e)
    with 1 assms write_steps(1)[OF 1] show ?thesis by (auto simp: os_write_file_def)
  next
    case None
    obtain e2 w2 where 2: "fd_append f b w1 = (e2, w2)" by fastforce
    obtain e3 w3 where 3: "fd_call w2 = (e3, w3)" by fastforce
    have "w' = w3" "r = (case e2 of Some e \<Rightarrow> Some e | None \<Rightarrow> e3)" using assms 1 2 3 None by (auto simp: os_write_file_def)
    with None write_steps(1)[OF 1] write_steps(2)[OF 2] write_steps(3)[OF 3] show ?thesis by (auto split: option.splits)
  qed
qed

lemma valid_Join_inject: "validSpillKey k \<Longrightarrow> validSpillKey k' \<Longrightarrow> Join p k = Join p k' \<longleftrightarrow> k = k'"
  by (simp add: Join_plain_inject valid_key_plain)

lemma fst_put_effect:
  assumes "spill_ok s" "spill_room s" "fst_put b s = (r, s')"
  shows "\<exists>k. validSpillKey k \<and> spilled s k = None \<and> spill_ok s' \<and> (\<forall>k'. k' \<noteq> k \<longrightarrow> spilled s' k' = spilled s k') \<and>
    (r \<noteq> None \<longrightarrow> r = Some k \<and> spilled s' k = Some b) \<and> (spill_calm s \<longrightarrow> r \<noteq> None \<and> spill_calm s')"
proof -
  obtain f w where s: "s = (f, w)" by fastforce
  let ?n = "fs_seq f + 1" and ?k = "spill_key (now w) (fs_seq f + 1)"
  have n: "to_i64 ?n = ?n" "0 \<le> ?n" "?n < 2 ^ 63" using assms(1,2) by (auto simp: s spill_ok_def spill_room_def to_i64_id)
  have t: "0 \<le> now w" "now w < 2 ^ 63" using assms(1) by (auto simp: s spill_ok_def)
  have v: "validSpillKey ?k" using spill_key_valid[OF t n(2,3)] .
  have fresh: "spilled s ?k = None"
  proof (rule ccontr)
    assume "spilled s ?k \<noteq> None"
    from spill_ok_key[OF assms(1) this] obtain t' m where "?k = spill_key t' m" "0 \<le> t'" "0 \<le> m" "m \<le> fs_seq f" by (auto simp: s)
    with spill_key_inj[OF t(1) this(2) n(2) this(3)] show False by simp
  qed
  obtain e w' where o: "os_write_file (Join (fs_dir f) ?k) b w = (e, w')" by fastforce
  note eff = write_file_effect[OF o]
  have s': "s' = (f\<lparr>fs_seq := ?n\<rparr>, w')" "r = (case e of None \<Rightarrow> Some ?k | Some x \<Rightarrow> None)"
    using assms(3) o by (auto simp: fst_put_def spill_Put_def s n(1) Let_def split: option.splits)
  have other: "spilled s' k' = spilled s k'" if "k' \<noteq> ?k" for k'
    using that eff v valid_Join_inject by (auto simp: spilled_def s s'(1))
  have "\<exists>t n. k' = spill_key t n \<and> 0 \<le> t \<and> 0 \<le> n \<and> n \<le> ?n" if "spilled s' k' \<noteq> None" for k'
  proof (cases "k' = ?k")
    case False
    then have "spilled s k' \<noteq> None" using other that by simp
    from spill_ok_key[OF assms(1) this] obtain t n where "k' = spill_key t n" "0 \<le> t" "0 \<le> n" "n \<le> fs_seq f" by (auto simp: s)
    then show ?thesis by (intro exI[of _ t] exI[of _ n]) auto
  qed (use t(1) n(2) in auto)
  then have ok: "spill_ok s'" using assms(1) eff n(2) by (simp add: spill_ok_def s s'(1))
  have new: "r \<noteq> None \<longrightarrow> r = Some ?k \<and> spilled s' ?k = Some b" using eff v by (cases e) (simp_all add: s' spilled_def)
  have "Join (fs_dir f) ?k \<notin> set (dirs w)" using assms(1) v by (simp add: spill_ok_def s)
  with eff have "spill_calm s \<longrightarrow> r \<noteq> None \<and> spill_calm s'" by (simp add: spill_calm_def s s')
  with v fresh ok other new show ?thesis by blast
qed

lemma fst_get_effect:
  assumes "fst_get k s = (r, s')"
  shows "fst s' = fst s \<and> dirs (snd s') = dirs (snd s) \<and> now (snd s') = now (snd s) \<and> spilled s' = spilled s \<and>
    (\<forall>b. r = Some b \<longrightarrow> spilled s k = Some b) \<and> (spill_calm s \<longrightarrow> spill_calm s' \<and> r = spilled s k)"
proof -
  obtain f w where s: "s = (f, w)" by fastforce
  obtain e w' where g: "spill_Get k f w = (e, w')" by fastforce
  have "files w' = files w \<and> dirs w' = dirs w \<and> now w' = now w \<and>
      (\<forall>b. e = Inr b \<longrightarrow> spilled s k = Some b) \<and> (faults w = [] \<longrightarrow> faults w' = [] \<and> (case e of Inl x \<Rightarrow> None | Inr b \<Rightarrow> Some b) = spilled s k)"
    using g by (auto simp: spill_Get_def os_read_file_def pop_fault_def spilled_def s split: list.splits option.splits if_splits)
  then show ?thesis using assms g by (auto simp: fst_get_def s spill_calm_def spilled_def fun_eq_iff split: sum.splits)
qed

lemma fst_delete_effect:
  assumes "fst_delete k s = (r, s')"
  shows "fst s' = fst s \<and> dirs (snd s') = dirs (snd s) \<and> now (snd s') = now (snd s) \<and> (\<forall>k'. k' \<noteq> k \<longrightarrow> spilled s' k' = spilled s k') \<and>
    (r \<longrightarrow> spilled s' k = None) \<and> (\<forall>k'. spilled s' k' \<noteq> None \<longrightarrow> spilled s k' \<noteq> None) \<and> (spill_calm s \<longrightarrow> r \<and> spill_calm s')"
proof -
  obtain f w where s: "s = (f, w)" by fastforce
  show ?thesis
  proof (cases "validSpillKey k")
    case False
    then show ?thesis using assms by (auto simp: fst_delete_def spill_Delete_def s spilled_def)
  next
    case True
    obtain e w' where o: "os_remove (Join (fs_dir f) k) w = (e, w')" by fastforce
    have w': "dirs w' = dirs w \<and> now w' = now w \<and> (\<forall>g. g \<noteq> Join (fs_dir f) k \<longrightarrow> fget g w' = fget g w) \<and>
        (e = None \<or> e = Some ENOENT \<longrightarrow> fget (Join (fs_dir f) k) w' = None) \<and>
        (\<forall>g. fget g w' \<noteq> None \<longrightarrow> fget g w \<noteq> None) \<and> (faults w = [] \<longrightarrow> (e = None \<or> e = Some ENOENT) \<and> faults w' = [])"
      using o by (auto simp: os_remove_def pop_fault_def split: list.splits option.splits if_splits)
    have s': "s' = (f, w')" "r = (e = None \<or> e = Some ENOENT)"
      using assms o True by (auto simp: fst_delete_def spill_Delete_def s split: option.splits os_err.splits)
    have j: "Join (fs_dir f) k' \<noteq> Join (fs_dir f) k" if "validSpillKey k'" "k' \<noteq> k" for k'
      using that True valid_Join_inject by simp
    show ?thesis using w' j True by (simp add: s s' spilled_def spill_calm_def)
  qed
qed

lemma spill_ok_less:
  assumes "spill_ok s" "fst s' = fst s" "dirs (snd s') = dirs (snd s)" "now (snd s') = now (snd s)"
    "\<forall>k. spilled s' k \<noteq> None \<longrightarrow> spilled s k \<noteq> None"
  shows "spill_ok s'"
  using assms unfolding spill_ok_def by metis

lemma calm_fst_get:
  assumes "spill_calm s" "spilled s k = Some b"
  shows "\<exists>s'. fst_get k s = (Some b, s') \<and> spill_calm s'"
proof -
  obtain r s' where g: "fst_get k s = (r, s')" by (cases "fst_get k s")
  have "spill_calm s'" "r = spilled s k" using fst_get_effect[OF g] assms(1) by blast+
  with g assms(2) show ?thesis by metis
qed

lemma calm_fst_delete:
  assumes "spill_calm s"
  shows "\<exists>s'. fst_delete k s = (True, s') \<and> spill_calm s'"
proof -
  obtain r s' where d: "fst_delete k s = (r, s')" by (cases "fst_delete k s")
  have "r = True" "spill_calm s'" using fst_delete_effect[OF d] assms by blast+
  with d show ?thesis by metis
qed

interpretation file_store: payload_store fst_put fst_get fst_delete spilled spill_ok spill_room spill_calm
proof unfold_locales
  fix s s' :: "'a spill_state" and b r k x
  assume "spill_ok s" "spill_room s"
  note p = fst_put_effect[OF this]
  show "fst_put b s = (r, s') \<Longrightarrow> spill_ok s'" using p by blast
  show "fst_put b s = (r, s') \<Longrightarrow> spilled s k = Some x \<Longrightarrow> spilled s' k = Some x" using p by (metis option.distinct(1))
  show "fst_put b s = (Some k, s') \<Longrightarrow> k \<noteq> [] \<and> spilled s k = None \<and> spilled s' k = Some b"
    using p by (metis option.distinct(1) option.inject validSpillKey_def)
  show "spill_calm s \<Longrightarrow> \<exists>k s'. fst_put b s = (Some k, s') \<and> spill_calm s'"
    using p by (metis option.exhaust surj_pair)
next
  fix s s' :: "'a spill_state" and b r k gr dr
  assume ok: "spill_ok s"
  show "fst_get k s = (gr, s') \<Longrightarrow> spill_ok s' \<and> spilled s' = spilled s"
    using fst_get_effect[of k s gr s'] spill_ok_less[OF ok, of s'] by simp
  show "fst_get k s = (Some b, s') \<Longrightarrow> spilled s k = Some b"
    using fst_get_effect by blast
  show "fst_delete k s = (dr, s') \<Longrightarrow> spill_ok s' \<and> (\<forall>k'. k' \<noteq> k \<longrightarrow> spilled s' k' = spilled s k')"
    using fst_delete_effect[of k s dr s'] spill_ok_less[OF ok, of s'] by blast
  show "fst_delete k s = (True, s') \<Longrightarrow> spilled s' k = None"
    using fst_delete_effect[of k s True s'] by simp
  show "spill_calm s \<Longrightarrow> spilled s k = Some b \<Longrightarrow> \<exists>s'. fst_get k s = (Some b, s') \<and> spill_calm s'"
    by (rule calm_fst_get)
  show "spill_calm s \<Longrightarrow> \<exists>s'. fst_delete k s = (True, s') \<and> spill_calm s'"
    by (rule calm_fst_delete)
qed

end
