(* ===== verification/Tail_Wheel.thy ===== *)
theory Tail_Wheel
  imports Tail_Config Tail_Spill
begin

section \<open>The time wheel of tail sampling (aggregate/timewheel.go)\<close>

text \<open>
  Packets of one group are collected until the group has been quiet for its time to live, counted in ticks of one second.  A shard is a
  ring of 3600 slots; a slot is a list of keys, and every entry of a list is an element of its own, which a group remembers to take it
  off again.  Large payloads may be kept in files meanwhile.  Packets are values here; the source keeps the pointer it was given and
  changes the packet behind it.  The locks make each operation on a shard one step.
\<close>

record DataGroup =
  dg_dataType :: string
  dg_packet :: DataPacket
  dg_FirstSeen :: int
  dg_ExpiredTime :: int
  dg_slotIndex :: nat
  dg_element :: "nat option"
  dg_spillKey :: string

abbreviation wheelSize :: nat where "wheelSize \<equiv> 3600"

record Shard =
  activeMap :: "nat \<Rightarrow> DataGroup option"
  slots :: "(nat \<times> nat) list list"
  currentPos :: nat
  nextElem :: nat

record sampler = os +
  shards :: "Shard list"
  waitTime :: int
  configMap :: "string \<Rightarrow> TailSamplingConfigs option"
  spiller :: "FilePayloadSpiller option"
  spillThreshold :: int

definition new_shard :: Shard where
  "new_shard = \<lparr>activeMap = (\<lambda>k. None), slots = replicate wheelSize [], currentPos = 0, nextElem = 0\<rparr>"

definition NewGlobalSampler :: "nat \<Rightarrow> int \<Rightarrow> os \<Rightarrow> sampler" where
  "NewGlobalSampler shardCount wait w =
     os.extend w \<lparr>shards = replicate shardCount new_shard, waitTime = wait, configMap = (\<lambda>k. None), spiller = None, spillThreshold = 0\<rparr>"

definition SetPayloadSpiller :: "FilePayloadSpiller option \<Rightarrow> int \<Rightarrow> sampler \<Rightarrow> sampler" where
  "SetPayloadSpiller sp threshold s =
     (if sp = None \<or> threshold \<le> 0 then s\<lparr>spiller := None, spillThreshold := 0\<rparr>
      else s\<lparr>spiller := sp, spillThreshold := threshold\<rparr>)"

subsection \<open>Spilling\<close>

definition spillIfNeeded :: "DataPacket \<Rightarrow> sampler \<Rightarrow> string option \<times> DataPacket \<times> sampler" where
  "spillIfNeeded packet s =
     (case spiller s of
        None \<Rightarrow> (None, packet, s)
      | Some f \<Rightarrow>
          (if int (length (PointsPayload packet)) \<le> spillThreshold s then (None, packet, s)
           else case spill_Put (PointsPayload packet) f s of
                  (Inl e, f1, s1) \<Rightarrow> (None, packet, s1\<lparr>spiller := Some f1\<rparr>)
                | (Inr key, f1, s1) \<Rightarrow> (Some key, packet\<lparr>PointsPayload := []\<rparr>, s1\<lparr>spiller := Some f1\<rparr>)))"

text \<open>\<open>False\<close> is an error; then the group is as it was.\<close>

definition hydrateDataGroup :: "DataGroup \<Rightarrow> sampler \<Rightarrow> bool \<times> DataGroup \<times> sampler" where
  "hydrateDataGroup dg s =
     (case spiller s of
        None \<Rightarrow> (True, dg, s)
      | Some f \<Rightarrow>
          (if dg_spillKey dg = [] then (True, dg, s)
           else case spill_Get (dg_spillKey dg) f s of
                  (Inl e, s1) \<Rightarrow> (False, dg, s1)
                | (Inr payload, s1) \<Rightarrow>
                    (True, dg\<lparr>dg_packet := (dg_packet dg)\<lparr>PointsPayload := payload\<rparr>, dg_spillKey := []\<rparr>, s1)))"

definition releaseSpill :: "string \<Rightarrow> sampler \<Rightarrow> sampler" where
  "releaseSpill key s =
     (case spiller s of
        None \<Rightarrow> s
      | Some f \<Rightarrow> if key = [] then s else snd (spill_Delete key f s))"

subsection \<open>Merging\<close>

text \<open>\<open>None\<close> is an error, which leaves the packet alone.\<close>

definition mergePacketPayload :: "codec \<Rightarrow> DataPacket \<Rightarrow> DataPacket \<Rightarrow> DataPacket option" where
  "mergePacketPayload cd dst src =
     (if PayloadCompression dst = PayloadCompressionNone \<and> PayloadCompression src = PayloadCompressionNone
      then Some (dst\<lparr>PointsPayload := PointsPayload dst @ PointsPayload src\<rparr>)
      else case DecompressPointsPayload cd (PointsPayload dst) (PayloadCompression dst) of
             None \<Rightarrow> None
           | Some dstPayload \<Rightarrow>
               (case DecompressPointsPayload cd (PointsPayload src) (PayloadCompression src) of
                  None \<Rightarrow> None
                | Some srcPayload \<Rightarrow>
                    (case CompressPointsPayload cd (dstPayload @ srcPayload) of (compressed, compression) \<Rightarrow>
                       Some (dst\<lparr>PointsPayload := compressed, PayloadCompression := compression\<rparr>))))"

definition mergeSpanPredicates :: "DataPacket \<Rightarrow> DataPacket \<Rightarrow> DataPacket" where
  "mergeSpanPredicates dst src =
     dst\<lparr>PredError := PredError dst \<or> PredError src, PredHttpError := PredHttpError dst \<or> PredHttpError src,
         PredBizError := PredBizError dst \<or> PredBizError src, PredTraceKeep := PredTraceKeep dst \<or> PredTraceKeep src,
         MaxSpanDurationUs := max (MaxSpanDurationUs dst) (MaxSpanDurationUs src),
         RootDurationUs := max (RootDurationUs dst) (RootDurationUs src),
         MaxNonrootDurationUs := max (MaxNonrootDurationUs dst) (MaxNonrootDurationUs src)\<rparr>"

text \<open>The rest of what a merge changes in the packet of an old group.\<close>

definition merge_meta :: "DataPacket \<Rightarrow> DataPacket \<Rightarrow> DataPacket" where
  "merge_meta old packet =
     (let p = mergeSpanPredicates (old\<lparr>HasError := HasError old \<or> HasError packet\<rparr>) packet in
      p\<lparr>PointCount := to_i32 (PointCount p + packetPointCount packet),
        TraceStartTimeUnixNano :=
          (if TraceStartTimeUnixNano packet > 0 \<and>
              (TraceStartTimeUnixNano p = 0 \<or> TraceStartTimeUnixNano packet < TraceStartTimeUnixNano p)
           then TraceStartTimeUnixNano packet else TraceStartTimeUnixNano p),
        TraceEndTimeUnixNano := max (TraceEndTimeUnixNano p) (TraceEndTimeUnixNano packet),
        MaxPointTimeUnixNano := max (MaxPointTimeUnixNano p) (MaxPointTimeUnixNano packet),
        RawGroupId := (if RawGroupId p = [] then RawGroupId packet else RawGroupId p),
        ConfigVersion := max (ConfigVersion p) (ConfigVersion packet),
        Source := (if Source p = [] then Source packet else Source p)\<rparr>)"

subsection \<open>Configuration\<close>

definition GetTraceConfig :: "string \<Rightarrow> sampler \<Rightarrow> TraceTailSampling option" where
  "GetTraceConfig token s = (case configMap s token of None \<Rightarrow> None | Some c \<Rightarrow> tc_Tracing c)"

definition GetLoggingConfig :: "string \<Rightarrow> sampler \<Rightarrow> GroupTailSampling option" where
  "GetLoggingConfig token s = (case configMap s token of None \<Rightarrow> None | Some c \<Rightarrow> tc_Logging c)"

definition GetRUMConfig :: "string \<Rightarrow> sampler \<Rightarrow> GroupTailSampling option" where
  "GetRUMConfig token s = (case configMap s token of None \<Rightarrow> None | Some c \<Rightarrow> tc_RUM c)"

definition group_pipelines :: "string \<Rightarrow> GroupTailSampling \<Rightarrow> Pipelines" where
  "group_pipelines groupKey cfg =
     (case List.find (\<lambda>g. case g of None \<Rightarrow> False | Some d \<Rightarrow> gd_GroupKey d = groupKey) (gt_GroupDimensions cfg) of
        Some (Some d) \<Rightarrow> gd_Pipelines d
      | _ \<Rightarrow> [])"

text \<open>No pipelines and an empty list of them decide alike.\<close>

definition pipelinesFor :: "string \<Rightarrow> string \<Rightarrow> string \<Rightarrow> sampler \<Rightarrow> Pipelines" where
  "pipelinesFor dataType token groupKey s =
     (if dataType = ''tracing'' then (case GetTraceConfig token s of None \<Rightarrow> [] | Some cfg \<Rightarrow> tr_Pipelines cfg)
      else if dataType = ''logging'' then (case GetLoggingConfig token s of None \<Rightarrow> [] | Some cfg \<Rightarrow> group_pipelines groupKey cfg)
      else if dataType = ''rum'' then (case GetRUMConfig token s of None \<Rightarrow> [] | Some cfg \<Rightarrow> group_pipelines groupKey cfg)
      else [])"

definition default_ttls :: "int \<Rightarrow> TailSamplingConfigs \<Rightarrow> TailSamplingConfigs" where
  "default_ttls wait ts =
     ts\<lparr>tc_Tracing := map_option (\<lambda>t. if tr_DataTTL t = 0 then t\<lparr>tr_DataTTL := wait\<rparr> else t) (tc_Tracing ts),
        tc_Logging := map_option (\<lambda>t. if gt_DataTTL t = 0 then t\<lparr>gt_DataTTL := wait\<rparr> else t) (tc_Logging ts),
        tc_RUM := map_option (\<lambda>t. if gt_DataTTL t = 0 then t\<lparr>gt_DataTTL := wait\<rparr> else t) (tc_RUM ts)\<rparr>"

definition UpdateConfig :: "get_conds \<Rightarrow> string \<Rightarrow> TailSamplingConfigs option \<Rightarrow> sampler \<Rightarrow> config_err list \<times> sampler" where
  "UpdateConfig gc token conf s =
     (case conf of
        None \<Rightarrow> ([], s)
      | Some c \<Rightarrow>
          (let ts = default_ttls (waitTime s) c in
           if (case configMap s token of None \<Rightarrow> True | Some old \<Rightarrow> tc_Version old \<noteq> tc_Version ts)
           then (case Init gc ts of (bad, ts') \<Rightarrow>
                   if bad \<noteq> [] then (bad, s) else ([], s\<lparr>configMap := (configMap s)(token := Some ts')\<rparr>))
           else ([], s)))"

subsection \<open>Ingest\<close>

text \<open>
  \<open>int(d.Seconds())\<close>: for every time to live under an hour the sum of seconds and fraction is below the next second also as a
  \<open>float64\<close>; longer ones are cut to 3599 seconds.
\<close>

definition ttl_seconds :: "int \<Rightarrow> int" where
  "ttl_seconds d = (if d < 0 then - ((- d) div second) else d div second)"

definition configured_ttl :: "DataPacket \<Rightarrow> sampler \<Rightarrow> int option" where
  "configured_ttl packet s =
     (if DataType packet = ''tracing'' then map_option (ttl_seconds \<circ> tr_DataTTL) (GetTraceConfig (Token packet) s)
      else if DataType packet = ''logging'' then map_option (ttl_seconds \<circ> gt_DataTTL) (GetLoggingConfig (Token packet) s)
      else if DataType packet = ''rum'' then map_option (ttl_seconds \<circ> gt_DataTTL) (GetRUMConfig (Token packet) s)
      else None)"

text \<open>The ticks a packet waits; \<open>None\<close> refuses it.\<close>

definition ingest_ttl :: "DataPacket \<Rightarrow> sampler \<Rightarrow> nat option" where
  "ingest_ttl packet s =
     (case configured_ttl packet s of
        None \<Rightarrow> None
      | Some ttlSec \<Rightarrow> if ttlSec \<le> 0 then None else if ttlSec \<ge> 3600 then Some 3599 else Some (nat ttlSec))"

text \<open>\<open>list.Remove\<close> and \<open>list.PushBack\<close> on one slot.\<close>

definition remove_elem :: "nat \<Rightarrow> nat \<Rightarrow> Shard \<Rightarrow> Shard" where
  "remove_elem i e shard = shard\<lparr>slots := (slots shard)[i := filter (\<lambda>x. fst x \<noteq> e) (slots shard ! i)]\<rparr>"

definition push_back :: "nat \<Rightarrow> nat \<Rightarrow> Shard \<Rightarrow> Shard" where
  "push_back i key shard =
     shard\<lparr>slots := (slots shard)[i := slots shard ! i @ [(nextElem shard, key)]], nextElem := Suc (nextElem shard)\<rparr>"

definition put_group :: "nat \<Rightarrow> DataGroup \<Rightarrow> Shard \<Rightarrow> Shard" where
  "put_group key dg shard = shard\<lparr>activeMap := (activeMap shard)(key := Some dg)\<rparr>"

text \<open>Hang the group into slot \<open>pos\<close> under its key, after taking it off the slot it is in.\<close>

definition schedule :: "nat \<Rightarrow> nat \<Rightarrow> DataGroup \<Rightarrow> Shard \<Rightarrow> Shard" where
  "schedule pos key dg shard =
     (let shard1 = (case dg_element dg of None \<Rightarrow> shard | Some e \<Rightarrow> remove_elem (dg_slotIndex dg) e shard) in
      put_group key (dg\<lparr>dg_slotIndex := pos, dg_element := Some (nextElem shard1)\<rparr>) (push_back pos key shard1))"

definition ingest_old ::
  "codec \<Rightarrow> nat \<Rightarrow> nat \<Rightarrow> DataPacket \<Rightarrow> DataGroup \<Rightarrow> Shard \<Rightarrow> sampler \<Rightarrow> Shard \<times> sampler" where
  "ingest_old cd ttl key packet old shard s =
     (case (if dg_spillKey old \<noteq> [] then hydrateDataGroup old s else (True, old, s)) of
        (False, old1, s1) \<Rightarrow> (shard, s1)
      | (True, old1, s1) \<Rightarrow>
          (case mergePacketPayload cd (dg_packet old1) packet of
             None \<Rightarrow> (put_group key old1 shard, s1)
           | Some merged \<Rightarrow>
               (case spillIfNeeded (merge_meta merged packet) s1 of (spilt, p, s2) \<Rightarrow>
                  (schedule ((currentPos shard + ttl) mod wheelSize) key
                     (old1\<lparr>dg_packet := p, dg_spillKey := (case spilt of None \<Rightarrow> [] | Some k \<Rightarrow> k),
                           dg_ExpiredTime := now s div second + int ttl\<rparr>) shard,
                   releaseSpill (dg_spillKey old) s2))))"

definition ingest_new :: "nat \<Rightarrow> nat \<Rightarrow> DataPacket \<Rightarrow> Shard \<Rightarrow> sampler \<Rightarrow> Shard \<times> sampler" where
  "ingest_new ttl key packet shard s =
     (case spillIfNeeded packet s of (spilt, p, s1) \<Rightarrow>
        (schedule ((currentPos shard + ttl) mod wheelSize) key
           \<lparr>dg_dataType = DataType packet, dg_packet = p, dg_FirstSeen = now s, dg_ExpiredTime = now s div second + int ttl,
            dg_slotIndex = 0, dg_element = None, dg_spillKey = (case spilt of None \<Rightarrow> [] | Some k \<Rightarrow> k)\<rparr> shard,
         s1))"

definition ingest_shard :: "codec \<Rightarrow> nat \<Rightarrow> nat \<Rightarrow> DataPacket \<Rightarrow> Shard \<Rightarrow> sampler \<Rightarrow> Shard \<times> sampler" where
  "ingest_shard cd ttl key packet shard s =
     (case activeMap shard key of
        Some old \<Rightarrow> ingest_old cd ttl key packet old shard s
      | None \<Rightarrow> ingest_new ttl key packet shard s)"

definition Ingest :: "(string \<Rightarrow> 64 word) \<Rightarrow> codec \<Rightarrow> DataPacket \<Rightarrow> sampler \<Rightarrow> sampler" where
  "Ingest xx cd packet s =
     (if shards s = [] then s
      else let i = GroupIdHash packet mod length (shards s) in
           case ingest_ttl packet s of
             None \<Rightarrow> s
           | Some ttl \<Rightarrow>
               (case ingest_shard cd ttl (tailSamplingGroupMapKey xx packet) packet (shards s ! i) s of (shard, s1) \<Rightarrow>
                  s1\<lparr>shards := (shards s1)[i := shard]\<rparr>))"

subsection \<open>Ticks\<close>

text \<open>The list of a slot is emptied; groups found go from the active map to the frozen one.\<close>

fun drain :: "(nat \<times> nat) list \<Rightarrow> (nat \<Rightarrow> DataGroup option) \<Rightarrow> (nat \<Rightarrow> DataGroup option) \<Rightarrow> (nat \<Rightarrow> DataGroup option) \<times> (nat \<Rightarrow> DataGroup option)" where
  "drain [] active frozen = (active, frozen)"
| "drain ((e, key) # es) active frozen =
     (case active key of
        Some dg \<Rightarrow> drain es (active(key := None)) (frozen(key := Some dg))
      | None \<Rightarrow> drain es active frozen)"

definition advance_shard :: "Shard \<Rightarrow> (nat \<Rightarrow> DataGroup option) \<Rightarrow> Shard \<times> (nat \<Rightarrow> DataGroup option)" where
  "advance_shard shard frozen =
     (let pos = (currentPos shard + 1) mod wheelSize in
      case drain (slots shard ! pos) (activeMap shard) frozen of (active, frozen') \<Rightarrow>
        (shard\<lparr>currentPos := pos, activeMap := active, slots := (slots shard)[pos := []]\<rparr>, frozen'))"

fun advance_shards :: "Shard list \<Rightarrow> (nat \<Rightarrow> DataGroup option) \<Rightarrow> Shard list \<times> (nat \<Rightarrow> DataGroup option)" where
  "advance_shards [] frozen = ([], frozen)"
| "advance_shards (sh # shs) frozen =
     (case advance_shard sh frozen of (sh', frozen1) \<Rightarrow>
      case advance_shards shs frozen1 of (shs', frozen2) \<Rightarrow> (sh' # shs', frozen2))"

definition AdvanceTime :: "sampler \<Rightarrow> (nat \<Rightarrow> DataGroup option) \<times> sampler" where
  "AdvanceTime s = (case advance_shards (shards s) (\<lambda>k. None) of (shs, frozen) \<Rightarrow> (frozen, s\<lparr>shards := shs\<rparr>))"

subsection \<open>Decisions\<close>

datatype DerivedMetricDecision = DecisionKept | DecisionDropped

record TailSamplingOutcome =
  to_Packet :: "DataPacket option"
  to_SourcePacket :: "DataPacket option"
  to_Decision :: DerivedMetricDecision

text \<open>
  One group.  The kept packet is the packet of the group itself, so reading its payload back later completes it.  \<open>None\<close> is a panic of the
  compiler for conditions.
\<close>

definition read_back :: "bool \<Rightarrow> DataGroup \<Rightarrow> sampler \<Rightarrow> DataGroup \<times> sampler" where
  "read_back wanted dg s = (if wanted then snd (hydrateDataGroup dg s) else (dg, s))"

text \<open>A kept packet is sent on and must have its payload; then the file goes.\<close>

definition finish_group :: "string \<Rightarrow> bool \<Rightarrow> DataGroup \<Rightarrow> sampler \<Rightarrow> TailSamplingOutcome \<times> sampler" where
  "finish_group spillKey kept dg s =
     (case read_back (spillKey \<noteq> [] \<and> kept \<and> length (PointsPayload (dg_packet dg)) = 0) dg s of (dg1, s1) \<Rightarrow>
        (\<lparr>to_Packet = (if kept then Some (dg_packet dg1) else None), to_SourcePacket = Some (dg_packet dg1),
          to_Decision = (if kept then DecisionKept else DecisionDropped)\<rparr>,
         releaseSpill spillKey s1))"

definition decide_group :: "codec \<Rightarrow> regexp \<Rightarrow> DataGroup \<Rightarrow> sampler \<Rightarrow> (TailSamplingOutcome \<times> sampler) option" where
  "decide_group cd rx dg s =
     (let spillKey = dg_spillKey dg;
          pipelines = pipelinesFor (dg_dataType dg) (Token (dg_packet dg)) (GroupKey (dg_packet dg)) s;
          compiled = compilePipelinesFast pipelines;
          needs = (case compiled of COk exprs \<Rightarrow> False | _ \<Rightarrow> True);
          trusted = packetHasSpanPredicates (dg_packet dg) in
      if spillKey \<noteq> [] \<and> (case compiled of CPanic \<Rightarrow> True | _ \<Rightarrow> False) then None
      else case read_back (spillKey \<noteq> [] \<and> (needs \<or> \<not> trusted)) dg s of (dg1, s1) \<Rightarrow>
        (case (if spillKey \<noteq> [] \<and> \<not> needs \<and> trusted then decideWithPredicates cd (dg_packet dg1) pipelines
               else evaluatePipelines cd rx (dg_packet dg1) pipelines) of
           None \<Rightarrow> None
         | Some (match, packet) \<Rightarrow> Some (finish_group spillKey (match \<and> packet \<noteq> None) dg1 s1)))"

text \<open>All groups, in the order the map is iterated; a group without a packet is dropped.\<close>

fun TailSamplingOutcomes ::
  "codec \<Rightarrow> regexp \<Rightarrow> (nat \<times> DataGroup option) list \<Rightarrow> sampler \<Rightarrow> ((nat \<times> TailSamplingOutcome) list \<times> sampler) option" where
  "TailSamplingOutcomes cd rx [] s = Some ([], s)"
| "TailSamplingOutcomes cd rx ((key, g) # gs) s =
     (case (case g of
              None \<Rightarrow> Some (\<lparr>to_Packet = None, to_SourcePacket = None, to_Decision = DecisionDropped\<rparr>, s)
            | Some dg \<Rightarrow> decide_group cd rx dg s) of
        None \<Rightarrow> None
      | Some (o1, s1) \<Rightarrow> map_option (\<lambda>(os, s2). ((key, o1) # os, s2)) (TailSamplingOutcomes cd rx gs s1))"

definition TailSamplingData ::
  "codec \<Rightarrow> regexp \<Rightarrow> (nat \<times> DataGroup option) list \<Rightarrow> sampler \<Rightarrow> ((nat \<times> DataPacket) list \<times> sampler) option" where
  "TailSamplingData cd rx gs s =
     map_option (\<lambda>(os, s1). (List.map_filter (\<lambda>(key, o1). map_option (Pair key) (to_Packet o1)) os, s1)) (TailSamplingOutcomes cd rx gs s)"

end
