(* ===== verification/Tail_Wheel_Inv.thy ===== *)
theory Tail_Wheel_Inv
  imports Tail_Wheel
begin

section \<open>The time wheel: invariant and countdowns\<close>

text \<open>
  The lists in the slots and the active groups describe each other: an entry belongs to the group that remembers it, and a group is in
  the slot it remembers, which is never the slot under the hand.
\<close>

definition shard_inv :: "Shard \<Rightarrow> bool" where
  "shard_inv sh \<longleftrightarrow>
     length (slots sh) = wheelSize \<and> currentPos sh < wheelSize \<and>
     (\<forall>i<wheelSize. \<forall>(e, k)\<in>set (slots sh ! i). \<exists>dg. activeMap sh k = Some dg \<and> dg_slotIndex dg = i \<and> dg_element dg = Some e) \<and>
     (\<forall>k dg. activeMap sh k = Some dg \<longrightarrow>
        dg_slotIndex dg < wheelSize \<and> dg_slotIndex dg \<noteq> currentPos sh \<and>
        (\<exists>e<nextElem sh. dg_element dg = Some e \<and> (e, k) \<in> set (slots sh ! dg_slotIndex dg))) \<and>
     (\<forall>k k' dg dg'. activeMap sh k = Some dg \<longrightarrow> activeMap sh k' = Some dg' \<longrightarrow> dg_element dg = dg_element dg' \<longrightarrow> k = k')"

text \<open>Distances on the ring.\<close>

lemma ring_next: "c < wheelSize \<Longrightarrow> (c + 1) mod wheelSize = (if c = 3599 then 0 else c + 1)"
  by auto

lemma ring_diff: "a < wheelSize \<Longrightarrow> c < wheelSize \<Longrightarrow> (a + wheelSize - c) mod wheelSize = (if c \<le> a then a - c else a + wheelSize - c)"
  by (auto simp: mod_if)

text \<open>The ticks a group still waits.\<close>

definition remaining :: "Shard \<Rightarrow> nat \<Rightarrow> nat option" where
  "remaining sh k =
     (case activeMap sh k of None \<Rightarrow> None | Some dg \<Rightarrow> Some ((dg_slotIndex dg + wheelSize - currentPos sh) mod wheelSize))"

lemma shard_invD:
  assumes "shard_inv sh"
  shows "length (slots sh) = wheelSize" "currentPos sh < wheelSize"
    "\<And>i e k. i < wheelSize \<Longrightarrow> (e, k) \<in> set (slots sh ! i) \<Longrightarrow>
       \<exists>dg. activeMap sh k = Some dg \<and> dg_slotIndex dg = i \<and> dg_element dg = Some e"
    "\<And>k dg. activeMap sh k = Some dg \<Longrightarrow> dg_slotIndex dg < wheelSize"
    "\<And>k dg. activeMap sh k = Some dg \<Longrightarrow> dg_slotIndex dg \<noteq> currentPos sh"
    "\<And>k dg. activeMap sh k = Some dg \<Longrightarrow> \<exists>e<nextElem sh. dg_element dg = Some e \<and> (e, k) \<in> set (slots sh ! dg_slotIndex dg)"
    "\<And>k k' dg dg'. activeMap sh k = Some dg \<Longrightarrow> activeMap sh k' = Some dg' \<Longrightarrow> dg_element dg = dg_element dg' \<Longrightarrow> k = k'"
  using assms unfolding shard_inv_def by blast+

lemma shard_invI:
  assumes "length (slots sh) = wheelSize" "currentPos sh < wheelSize"
    "\<And>i e k. i < wheelSize \<Longrightarrow> (e, k) \<in> set (slots sh ! i) \<Longrightarrow>
       \<exists>dg. activeMap sh k = Some dg \<and> dg_slotIndex dg = i \<and> dg_element dg = Some e"
    "\<And>k dg. activeMap sh k = Some dg \<Longrightarrow> dg_slotIndex dg < wheelSize \<and> dg_slotIndex dg \<noteq> currentPos sh \<and>
       (\<exists>e<nextElem sh. dg_element dg = Some e \<and> (e, k) \<in> set (slots sh ! dg_slotIndex dg))"
    "\<And>k k' dg dg'. activeMap sh k = Some dg \<Longrightarrow> activeMap sh k' = Some dg' \<Longrightarrow> dg_element dg = dg_element dg' \<Longrightarrow> k = k'"
  shows "shard_inv sh"
  using assms unfolding shard_inv_def by blast

lemma new_shard_inv: "shard_inv new_shard"
  by (auto simp: shard_inv_def new_shard_def)

subsection \<open>Scheduling a group\<close>

text \<open>A group that is new, or the one the map has for the key with a changed packet.\<close>

definition same_place :: "Shard \<Rightarrow> nat \<Rightarrow> DataGroup \<Rightarrow> bool" where
  "same_place sh k dg \<longleftrightarrow>
     (case activeMap sh k of
        None \<Rightarrow> dg_element dg = None
      | Some old \<Rightarrow> dg_element dg = dg_element old \<and> dg_slotIndex dg = dg_slotIndex old)"

lemma put_group_inv:
  assumes "shard_inv sh" "same_place sh k dg" "activeMap sh k \<noteq> None"
  shows "shard_inv (put_group k dg sh)"
proof -
  obtain old where o: "activeMap sh k = Some old" "dg_element dg = dg_element old" "dg_slotIndex dg = dg_slotIndex old"
    using assms(2,3) by (auto simp: same_place_def split: option.splits)
  note I = shard_invD[OF assms(1)]
  show ?thesis
  proof (rule shard_invI)
    fix i e k'
    assume "i < wheelSize" "(e, k') \<in> set (slots (put_group k dg sh) ! i)"
    then show "\<exists>dg'. activeMap (put_group k dg sh) k' = Some dg' \<and> dg_slotIndex dg' = i \<and> dg_element dg' = Some e"
      using I(3)[of i e k'] o by (auto simp: put_group_def)
  next
    fix k' dg'
    assume "activeMap (put_group k dg sh) k' = Some dg'"
    then show "dg_slotIndex dg' < wheelSize \<and> dg_slotIndex dg' \<noteq> currentPos (put_group k dg sh) \<and>
       (\<exists>e<nextElem (put_group k dg sh). dg_element dg' = Some e \<and> (e, k') \<in> set (slots (put_group k dg sh) ! dg_slotIndex dg'))"
      using I(4-6)[of k'] I(4-6)[OF o(1)] o(2,3) by (auto simp: put_group_def split: if_splits)
  next
    fix k1 k2 d1 d2
    assume "activeMap (put_group k dg sh) k1 = Some d1" "activeMap (put_group k dg sh) k2 = Some d2" "dg_element d1 = dg_element d2"
    then have "\<exists>d1 d2. activeMap sh k1 = Some d1 \<and> activeMap sh k2 = Some d2 \<and> dg_element d1 = dg_element d2"
      using o(1,2) by (cases "k1 = k"; cases "k2 = k") (simp_all add: put_group_def)
    then show "k1 = k2" using I(7) by blast
  qed (use I(1,2) in \<open>auto simp: put_group_def\<close>)
qed

text \<open>Taking the group off its slot leaves every other group in place.\<close>

lemma unschedule:
  assumes "shard_inv sh" "same_place sh k dg"
  defines "sh1 \<equiv> (case dg_element dg of None \<Rightarrow> sh | Some e \<Rightarrow> remove_elem (dg_slotIndex dg) e sh)"
  shows "length (slots sh1) = wheelSize" "currentPos sh1 = currentPos sh" "activeMap sh1 = activeMap sh" "nextElem sh1 = nextElem sh"
    "\<And>i. i < wheelSize \<Longrightarrow> set (slots sh1 ! i) = {(e, k'). (e, k') \<in> set (slots sh ! i) \<and> k' \<noteq> k}"
proof -
  note I = shard_invD[OF assms(1)]
  show "length (slots sh1) = wheelSize" "currentPos sh1 = currentPos sh" "activeMap sh1 = activeMap sh" "nextElem sh1 = nextElem sh"
    using I(1) by (auto simp: sh1_def remove_elem_def split: option.splits)
  fix i
  assume i: "i < wheelSize"
  show "set (slots sh1 ! i) = {(e, k'). (e, k') \<in> set (slots sh ! i) \<and> k' \<noteq> k}"
  proof (cases "activeMap sh k")
    case None
    then have "sh1 = sh" using assms(2) by (auto simp: same_place_def sh1_def)
    then show ?thesis using I(3)[OF i] None by fastforce
  next
    case (Some old)
    then obtain e0 where e0: "dg_element old = Some e0" "(e0, k) \<in> set (slots sh ! dg_slotIndex old)" using I(6) by blast
    have d: "dg_element dg = Some e0" "dg_slotIndex dg = dg_slotIndex old" using assms(2) Some e0(1) by (auto simp: same_place_def)
    have s1: "sh1 = remove_elem (dg_slotIndex old) e0 sh" by (simp add: sh1_def d)
    have uniq: "e = e0 \<longleftrightarrow> k' = k" if m: "(e, k') \<in> set (slots sh ! j)" and j: "j < wheelSize" for e k' j
    proof -
      obtain d where d': "activeMap sh k' = Some d" "dg_element d = Some e" using I(3)[OF j m] by blast
      show ?thesis
      proof
        assume "e = e0"
        then show "k' = k" using I(7)[OF d'(1) Some] d'(2) e0(1) by simp
      qed (use d' Some e0(1) in simp)
    qed
    have sl: "k' = k \<Longrightarrow> i = dg_slotIndex old" if "(e, k') \<in> set (slots sh ! i)" for e k'
      using I(3)[OF i that] Some by auto
    show ?thesis
    proof (cases "i = dg_slotIndex old")
      case True
      have "set (slots sh1 ! i) = {x \<in> set (slots sh ! i). fst x \<noteq> e0}" using True I(1) i by (simp add: s1 remove_elem_def)
      also have "\<dots> = {(e, k'). (e, k') \<in> set (slots sh ! i) \<and> k' \<noteq> k}" using uniq[OF _ i] by force
      finally show ?thesis .
    next
      case False
      then show ?thesis using sl by (auto simp: s1 remove_elem_def)
    qed
  qed
qed

lemma schedule_inv:
  assumes "shard_inv sh" "same_place sh k dg" "pos < wheelSize" "pos \<noteq> currentPos sh"
  shows "shard_inv (schedule pos k dg sh)"
    "activeMap (schedule pos k dg sh) = (activeMap sh)(k \<mapsto> dg\<lparr>dg_slotIndex := pos, dg_element := Some (nextElem sh)\<rparr>)"
    "currentPos (schedule pos k dg sh) = currentPos sh"
proof -
  define sh1 where "sh1 = (case dg_element dg of None \<Rightarrow> sh | Some e \<Rightarrow> remove_elem (dg_slotIndex dg) e sh)"
  note u = unschedule[OF assms(1,2), folded sh1_def]
  note I = shard_invD[OF assms(1)]
  let ?sh = "schedule pos k dg sh" and ?dg = "dg\<lparr>dg_slotIndex := pos, dg_element := Some (nextElem sh)\<rparr>"
  have sch: "?sh = put_group k ?dg (push_back pos k sh1)" by (simp add: schedule_def sh1_def[symmetric] u(4) Let_def)
  show am: "activeMap ?sh = (activeMap sh)(k \<mapsto> ?dg)" and cp: "currentPos ?sh = currentPos sh"
    by (simp_all add: sch put_group_def push_back_def u)
  have len: "length (slots ?sh) = wheelSize" and ne: "nextElem ?sh = Suc (nextElem sh)"
    by (simp_all add: sch put_group_def push_back_def u)
  have sl: "set (slots ?sh ! i) = {(e, k'). (e, k') \<in> set (slots sh ! i) \<and> k' \<noteq> k} \<union> (if i = pos then {(nextElem sh, k)} else {})"
    if "i < wheelSize" for i
    using u(1,4) u(5)[OF that] that assms(3) by (auto simp: sch put_group_def push_back_def nth_list_update)
  have fresh: "dg_element d \<noteq> Some (nextElem sh)" if "activeMap sh k' = Some d" for k' d
    using I(6)[OF that] by auto
  show "shard_inv ?sh"
  proof (rule shard_invI)
    fix i e k'
    assume i: "i < wheelSize" and m: "(e, k') \<in> set (slots ?sh ! i)"
    show "\<exists>d. activeMap ?sh k' = Some d \<and> dg_slotIndex d = i \<and> dg_element d = Some e"
      using m I(3)[OF i, of e k'] by (auto simp: sl[OF i] am split: if_splits)
  next
    fix k' d
    assume a: "activeMap ?sh k' = Some d"
    show "dg_slotIndex d < wheelSize \<and> dg_slotIndex d \<noteq> currentPos ?sh \<and>
        (\<exists>e<nextElem ?sh. dg_element d = Some e \<and> (e, k') \<in> set (slots ?sh ! dg_slotIndex d))"
    proof (cases "k' = k")
      case True
      then show ?thesis using a assms(3,4) by (auto simp: am cp ne sl)
    next
      case False
      then have a': "activeMap sh k' = Some d" using a by (simp add: am)
      obtain e where "e < nextElem sh" "dg_element d = Some e" "(e, k') \<in> set (slots sh ! dg_slotIndex d)" using I(6)[OF a'] by blast
      then show ?thesis using False I(4,5)[OF a'] by (auto simp: cp ne sl intro!: exI[of _ e])
    qed
  next
    fix k1 k2 d1 d2
    assume "activeMap ?sh k1 = Some d1" "activeMap ?sh k2 = Some d2" "dg_element d1 = dg_element d2"
    then show "k1 = k2" using I(7)[of k1 d1 k2 d2] fresh[of k1 d1] fresh[of k2 d2] by (auto simp: am split: if_splits)
  qed (use len I(2) in \<open>auto simp: cp\<close>)
qed

lemma remaining_schedule:
  assumes "shard_inv sh" "same_place sh k dg" "0 < ttl" "ttl < wheelSize"
  shows "shard_inv (schedule ((currentPos sh + ttl) mod wheelSize) k dg sh)"
    "remaining (schedule ((currentPos sh + ttl) mod wheelSize) k dg sh) = (remaining sh)(k \<mapsto> ttl)"
proof -
  let ?pos = "(currentPos sh + ttl) mod wheelSize"
  have c: "currentPos sh < wheelSize" using shard_invD(2)[OF assms(1)] .
  have p: "?pos = (if currentPos sh + ttl < wheelSize then currentPos sh + ttl else currentPos sh + ttl - wheelSize)"
    using c assms(4) by (simp add: mod_if)
  have pos: "?pos < wheelSize" "?pos \<noteq> currentPos sh" using c assms(3,4) unfolding p by auto
  note S = schedule_inv[OF assms(1,2) pos]
  show "shard_inv (schedule ?pos k dg sh)" by (rule S(1))
  have "(?pos + wheelSize - currentPos sh) mod wheelSize = ttl"
    using c assms(4) unfolding p by (auto simp: mod_if)
  then show "remaining (schedule ?pos k dg sh) = (remaining sh)(k \<mapsto> ttl)"
    by (auto simp: remaining_def S(2,3) fun_eq_iff split: option.split)
qed

subsection \<open>A tick\<close>

lemma drain_effect:
  "drain es active frozen =
    ((\<lambda>k. if k \<in> snd ` set es then None else active k),
     (\<lambda>k. if k \<in> snd ` set es \<and> active k \<noteq> None then active k else frozen k))"
proof (induction es active frozen rule: drain.induct)
  case (2 e key es active frozen)
  show ?case
  proof (cases "active key")
    case None
    then show ?thesis using 2(1)[OF None] by (auto intro!: ext)
  next
    case (Some dg)
    have "drain ((e, key) # es) active frozen = drain es (active(key := None)) (frozen(key := Some dg))" using Some by simp
    also have "\<dots> = ((\<lambda>k. if k \<in> snd ` set ((e, key) # es) then None else active k),
        (\<lambda>k. if k \<in> snd ` set ((e, key) # es) \<and> active k \<noteq> None then active k else frozen k))"
      unfolding 2(2)[OF Some] using Some by (intro prod_eqI ext) (simp_all split: if_split, auto)
    finally show ?thesis .
  qed
qed simp

lemma remaining_range:
  assumes "shard_inv sh" "remaining sh k = Some n"
  shows "0 < n" "n < wheelSize"
proof -
  obtain dg where d: "activeMap sh k = Some dg" "n = (dg_slotIndex dg + wheelSize - currentPos sh) mod wheelSize"
    using assms(2) by (auto simp: remaining_def split: option.splits)
  show "n < wheelSize" by (simp add: d(2))
  show "0 < n" using shard_invD(2)[OF assms(1)] shard_invD(4,5)[OF assms(1) d(1)] by (simp add: d(2) ring_diff)
qed

text \<open>The slot under the hand after a tick has the groups with one tick left.\<close>

lemma slot_due:
  assumes "shard_inv sh"
  shows "k \<in> snd ` set (slots sh ! ((currentPos sh + 1) mod wheelSize)) \<longleftrightarrow> remaining sh k = Some 1"
proof -
  let ?pos = "(currentPos sh + 1) mod wheelSize"
  note I = shard_invD[OF assms]
  have pos: "?pos < wheelSize" by simp
  have "k \<in> snd ` set (slots sh ! ?pos) \<longleftrightarrow> (\<exists>dg. activeMap sh k = Some dg \<and> dg_slotIndex dg = ?pos)"
  proof
    assume "\<exists>dg. activeMap sh k = Some dg \<and> dg_slotIndex dg = ?pos"
    then show "k \<in> snd ` set (slots sh ! ?pos)" using I(6) by force
  qed (use I(3)[OF pos] in force)
  also have "\<dots> \<longleftrightarrow> remaining sh k = Some 1"
  proof (cases "activeMap sh k")
    case (Some dg)
    have "(dg_slotIndex dg = ?pos) = ((dg_slotIndex dg + wheelSize - currentPos sh) mod wheelSize = 1)"
      using I(2) I(4)[OF Some] unfolding ring_next[OF I(2)] ring_diff[OF I(4)[OF Some] I(2)] by auto
    with Some show ?thesis by (simp add: remaining_def)
  qed (simp add: remaining_def)
  finally show ?thesis .
qed

lemma advance_shard_inv:
  assumes "shard_inv sh" "advance_shard sh frozen = (sh', frozen')"
  shows "shard_inv sh'"
    "remaining sh' k = (case remaining sh k of None \<Rightarrow> None | Some n \<Rightarrow> if n = 1 then None else Some (n - 1))"
    "activeMap sh' k = (if remaining sh k = Some 1 then None else activeMap sh k)"
    "frozen' k = (if remaining sh k = Some 1 then activeMap sh k else frozen k)"
proof -
  let ?pos = "(currentPos sh + 1) mod wheelSize"
  note I = shard_invD[OF assms(1)]
  have dr: "drain (slots sh ! ?pos) (activeMap sh) frozen =
      ((\<lambda>k. if remaining sh k = Some 1 then None else activeMap sh k),
       (\<lambda>k. if remaining sh k = Some 1 \<and> activeMap sh k \<noteq> None then activeMap sh k else frozen k))"
    unfolding drain_effect slot_due[OF assms(1)] ..
  have cp: "currentPos sh' = ?pos" and sl: "slots sh' = (slots sh)[?pos := []]" and ne: "nextElem sh' = nextElem sh"
    and am: "\<And>k. activeMap sh' k = (if remaining sh k = Some 1 then None else activeMap sh k)"
    and fz: "\<And>k. frozen' k = (if remaining sh k = Some 1 \<and> activeMap sh k \<noteq> None then activeMap sh k else frozen k)"
    using assms(2) unfolding advance_shard_def Let_def dr by auto
  show "activeMap sh' k = (if remaining sh k = Some 1 then None else activeMap sh k)" by (rule am)
  have "activeMap sh k \<noteq> None" if "remaining sh k = Some 1" using that by (auto simp: remaining_def split: option.splits)
  then show "frozen' k = (if remaining sh k = Some 1 then activeMap sh k else frozen k)" using fz by auto
  have left: "activeMap sh k = Some d \<and> remaining sh k \<noteq> Some 1" if "activeMap sh' k = Some d" for k d
    using that by (simp add: am split: if_splits)
  have due: "remaining sh k = Some 1 \<longleftrightarrow> dg_slotIndex d = ?pos" if "activeMap sh k = Some d" for k d
    using I(2) I(4)[OF that] unfolding remaining_def that option.case ring_next[OF I(2)] ring_diff[OF I(4)[OF that] I(2)] by auto
  have off: "dg_slotIndex d \<noteq> ?pos" if "activeMap sh k = Some d" "remaining sh k \<noteq> Some 1" for k d
    using that due[OF that(1)] by simp
  show "shard_inv sh'"
  proof (rule shard_invI)
    fix i e k
    assume i: "i < wheelSize" and m: "(e, k) \<in> set (slots sh' ! i)"
    then have m': "i \<noteq> ?pos" "(e, k) \<in> set (slots sh ! i)" using I(1) by (auto simp: sl nth_list_update split: if_splits)
    then obtain d where d: "activeMap sh k = Some d" "dg_slotIndex d = i" "dg_element d = Some e" using I(3)[OF i] by blast
    then have "remaining sh k \<noteq> Some 1" using m'(1) due[OF d(1)] by simp
    with d show "\<exists>d. activeMap sh' k = Some d \<and> dg_slotIndex d = i \<and> dg_element d = Some e" by (simp add: am)
  next
    fix k d
    assume "activeMap sh' k = Some d"
    note l = left[OF this]
    then have o: "dg_slotIndex d \<noteq> ?pos" using off by blast
    with l I(4)[of k d] I(6)[of k d] show "dg_slotIndex d < wheelSize \<and> dg_slotIndex d \<noteq> currentPos sh' \<and>
        (\<exists>e<nextElem sh'. dg_element d = Some e \<and> (e, k) \<in> set (slots sh' ! dg_slotIndex d))"
      by (simp add: cp ne sl)
  next
    fix k k' d d'
    assume "activeMap sh' k = Some d" "activeMap sh' k' = Some d'" "dg_element d = dg_element d'"
    then show "k = k'" using left I(7) by blast
  qed (use I(1) in \<open>auto simp: sl cp\<close>)
  show "remaining sh' k = (case remaining sh k of None \<Rightarrow> None | Some n \<Rightarrow> if n = 1 then None else Some (n - 1))"
  proof (cases "remaining sh k")
    case None
    then show ?thesis by (auto simp: remaining_def am split: option.splits)
  next
    case (Some n)
    then obtain d where d: "activeMap sh k = Some d" "n = (dg_slotIndex d + wheelSize - currentPos sh) mod wheelSize"
      by (auto simp: remaining_def split: option.splits)
    have "n \<noteq> 1 \<Longrightarrow> (dg_slotIndex d + wheelSize - ?pos) mod wheelSize = n - 1"
      using I(2) I(4,5)[OF d(1)] ring_diff[OF I(4)[OF d(1)], of ?pos]
      unfolding d(2) ring_next[OF I(2)] ring_diff[OF I(4)[OF d(1)] I(2)] by (auto split: if_splits)
    then show ?thesis using Some d(1) by (auto simp: remaining_def[of sh'] am cp)
  qed
qed

end
