(* ===== verification/Tail_Wheel_Steps.thy ===== *)
theory Tail_Wheel_Steps
  imports Tail_Wheel_Inv
begin

section \<open>The time wheel: operations as steps on countdowns\<close>

subsection \<open>Spilling leaves the wheel alone\<close>

lemma spill_ops_frame:
  "spill_Put b f s = (r, f', s') \<Longrightarrow> shards s' = shards s \<and> configMap s' = configMap s"
  "spill_Get k f s = (r', s') \<Longrightarrow> shards s' = shards s \<and> configMap s' = configMap s"
  "spill_Delete k f s = (r'', s') \<Longrightarrow> shards s' = shards s \<and> configMap s' = configMap s"
proof -
  show "spill_Get k f s = (r', s') \<Longrightarrow> shards s' = shards s \<and> configMap s' = configMap s"
    by (auto simp: spill_Get_def os_read_file_def pop_fault_def split: if_splits list.splits option.splits)
  show "spill_Delete k f s = (r'', s') \<Longrightarrow> shards s' = shards s \<and> configMap s' = configMap s"
    by (auto simp: spill_Delete_def os_remove_def pop_fault_def split: if_splits list.splits option.splits os_err.splits)
  assume p: "spill_Put b f s = (r, f', s')"
  have w: "os_write_file g b s = (e, s1) \<Longrightarrow> shards s1 = shards s \<and> configMap s1 = configMap s" for g e s1
    by (auto simp: os_write_file_def os_open_trunc_def fd_append_def fd_call_def pop_fault_def Let_def
        split: if_splits list.splits option.splits prod.splits)
  show "shards s' = shards s \<and> configMap s' = configMap s"
    using p w by (auto simp: spill_Put_def Let_def split: prod.splits option.splits)
qed

lemma spill_frame:
  "spillIfNeeded p s = (r, p', s') \<Longrightarrow> shards s' = shards s \<and> configMap s' = configMap s"
  "hydrateDataGroup dg s = (b, dg', s') \<Longrightarrow> shards s' = shards s \<and> configMap s' = configMap s"
  "shards (releaseSpill k s) = shards s" "configMap (releaseSpill k s) = configMap s"
proof -
  have d: "shards (snd (spill_Delete k f s)) = shards s \<and> configMap (snd (spill_Delete k f s)) = configMap s" for f
    using spill_ops_frame(3)[of k f s "fst (spill_Delete k f s)" "snd (spill_Delete k f s)"] by simp
  then show "shards (releaseSpill k s) = shards s" "configMap (releaseSpill k s) = configMap s"
    by (simp_all add: releaseSpill_def split: option.split)
qed (auto simp: spillIfNeeded_def hydrateDataGroup_def dest: spill_ops_frame split: option.splits if_splits prod.splits sum.splits)

subsection \<open>Ingest\<close>

text \<open>A packet is accepted unless the payload of its group cannot be read back or merged.\<close>

definition restored :: "DataGroup \<Rightarrow> sampler \<Rightarrow> bool \<times> DataGroup \<times> sampler" where
  "restored old s = (if dg_spillKey old \<noteq> [] then hydrateDataGroup old s else (True, old, s))"

definition accepts :: "codec \<Rightarrow> nat \<Rightarrow> DataPacket \<Rightarrow> Shard \<Rightarrow> sampler \<Rightarrow> bool" where
  "accepts cd key packet sh s \<longleftrightarrow>
     (case activeMap sh key of
        None \<Rightarrow> True
      | Some old \<Rightarrow> (case restored old s of (ok, old1, s1) \<Rightarrow> ok \<and> mergePacketPayload cd (dg_packet old1) packet \<noteq> None))"

lemma restored_place: "restored old s = (b, old1, s1) \<Longrightarrow>
    dg_element old1 = dg_element old \<and> dg_slotIndex old1 = dg_slotIndex old \<and> shards s1 = shards s \<and> configMap s1 = configMap s"
  using spill_frame(2)[of old s b old1 s1]
  by (auto simp: restored_def hydrateDataGroup_def split: if_splits option.splits prod.splits sum.splits)

lemma remaining_cong:
  "currentPos sh' = currentPos sh \<Longrightarrow> map_option dg_slotIndex (activeMap sh' k) = map_option dg_slotIndex (activeMap sh k) \<Longrightarrow>
    remaining sh' k = remaining sh k"
  by (cases "activeMap sh k"; cases "activeMap sh' k") (auto simp: remaining_def)

lemma ingest_shard_step:
  assumes "shard_inv sh" "0 < ttl" "ttl < wheelSize" "ingest_shard cd ttl key packet sh s = (sh', s')"
  shows "shard_inv sh' \<and> shards s' = shards s \<and> configMap s' = configMap s \<and>
    (\<forall>k. k \<noteq> key \<longrightarrow> activeMap sh' k = activeMap sh k) \<and>
    remaining sh' = (if accepts cd key packet sh s then (remaining sh)(key \<mapsto> ttl) else remaining sh)"
proof -
  have pos: "(currentPos sh + ttl) mod wheelSize < wheelSize" "(currentPos sh + ttl) mod wheelSize \<noteq> currentPos sh"
    using shard_invD(2)[OF assms(1)] assms(2,3) by (auto simp: mod_if)
  show ?thesis
  proof (cases "activeMap sh key")
    case None
    obtain r p s1 where sp: "spillIfNeeded packet s = (r, p, s1)" by (metis surj_pair)
    from assms(4) None sp obtain dg where sh': "sh' = schedule ((currentPos sh + ttl) mod wheelSize) key dg sh" "s' = s1"
      "dg_element dg = None" by (auto simp: ingest_shard_def ingest_new_def)
    then have "same_place sh key dg" using None by (simp add: same_place_def)
    then show ?thesis
      using remaining_schedule[OF assms(1) _ assms(2,3)] schedule_inv(2)[OF assms(1) _ pos] spill_frame(1)[OF sp] sh' None
      by (simp add: accepts_def)
  next
    case (Some old)
    obtain b old1 s1 where r: "restored old s = (b, old1, s1)" by (metis surj_pair)
    note rp = restored_place[OF r]
    have i: "ingest_old cd ttl key packet old sh s = (sh', s')" using assms(4) Some by (simp add: ingest_shard_def)
    show ?thesis
    proof (cases "b \<and> mergePacketPayload cd (dg_packet old1) packet \<noteq> None")
      case True
      then obtain merged where m: "mergePacketPayload cd (dg_packet old1) packet = Some merged" by auto
      obtain r2 p s2 where sp: "spillIfNeeded (merge_meta merged packet) s1 = (r2, p, s2)" by (metis surj_pair)
      from i r True m sp obtain dg where sh': "sh' = schedule ((currentPos sh + ttl) mod wheelSize) key dg sh"
        "s' = releaseSpill (dg_spillKey old) s2" "dg_element dg = dg_element old1" "dg_slotIndex dg = dg_slotIndex old1"
        by (auto simp: ingest_old_def restored_def[symmetric])
      then have "same_place sh key dg" using Some rp by (simp add: same_place_def)
      then show ?thesis
        using remaining_schedule[OF assms(1) _ assms(2,3)] schedule_inv(2)[OF assms(1) _ pos] spill_frame(1)[OF sp] spill_frame(3,4) sh' Some rp r m True
        by (simp add: accepts_def)
    next
      case False
      then have "sh' = sh \<or> sh' = put_group key old1 sh" "s' = s1"
        using i r by (auto simp: ingest_old_def restored_def[symmetric] split: option.splits bool.splits)
      moreover have "same_place sh key old1" using Some rp by (simp add: same_place_def)
      then have "shard_inv (put_group key old1 sh)" using put_group_inv[OF assms(1)] Some by simp
      moreover have "remaining (put_group key old1 sh) = remaining sh"
        using Some rp by (intro ext remaining_cong) (auto simp: put_group_def)
      moreover have "\<not> accepts cd key packet sh s" using False Some r by (auto simp: accepts_def)
      ultimately show ?thesis using assms(1) rp by (auto simp: put_group_def)
    qed
  qed
qed

subsection \<open>The sampler\<close>

definition wheel_ok :: "sampler \<Rightarrow> bool" where
  "wheel_ok s \<longleftrightarrow> list_all shard_inv (shards s)"

definition route :: "DataPacket \<Rightarrow> sampler \<Rightarrow> nat" where
  "route packet s = GroupIdHash packet mod length (shards s)"

text \<open>The countdowns of a sampler, by shard and key.\<close>

definition countdown :: "sampler \<Rightarrow> nat \<Rightarrow> nat \<Rightarrow> nat option" where
  "countdown s i k = (if i < length (shards s) then remaining (shards s ! i) k else None)"

definition taken :: "(string \<Rightarrow> 64 word) \<Rightarrow> codec \<Rightarrow> DataPacket \<Rightarrow> sampler \<Rightarrow> nat option" where
  "taken xx cd packet s =
     (if shards s \<noteq> [] \<and> accepts cd (tailSamplingGroupMapKey xx packet) packet (shards s ! route packet s) s then ingest_ttl packet s else None)"

lemma ingest_ttl_range: "ingest_ttl packet s = Some ttl \<Longrightarrow> 0 < ttl \<and> ttl < wheelSize"
  by (auto simp: ingest_ttl_def split: option.splits if_splits)

lemma Ingest_step:
  assumes "wheel_ok s"
  shows "wheel_ok (Ingest xx cd packet s) \<and> length (shards (Ingest xx cd packet s)) = length (shards s) \<and>
    (\<forall>i k. i \<noteq> route packet s \<or> k \<noteq> tailSamplingGroupMapKey xx packet \<longrightarrow> i < length (shards s) \<longrightarrow>
       activeMap (shards (Ingest xx cd packet s) ! i) k = activeMap (shards s ! i) k) \<and>
    countdown (Ingest xx cd packet s) =
      (case taken xx cd packet s of
         None \<Rightarrow> countdown s
       | Some ttl \<Rightarrow> (countdown s)(route packet s := (countdown s (route packet s))(tailSamplingGroupMapKey xx packet \<mapsto> ttl)))"
proof (cases "shards s = [] \<or> ingest_ttl packet s = None")
  case True
  then have "Ingest xx cd packet s = s" by (auto simp: Ingest_def)
  with True assms show ?thesis by (auto simp: taken_def)
next
  case False
  then obtain ttl where t: "ingest_ttl packet s = Some ttl" by auto
  let ?i = "route packet s" and ?k = "tailSamplingGroupMapKey xx packet"
  have i: "?i < length (shards s)" using False by (simp add: route_def)
  obtain sh s1 where g: "ingest_shard cd ttl ?k packet (shards s ! ?i) s = (sh, s1)" by fastforce
  have r: "Ingest xx cd packet s = s1\<lparr>shards := (shards s1)[?i := sh]\<rparr>"
    using False t g by (simp add: Ingest_def route_def Let_def)
  have "shard_inv (shards s ! ?i)" using assms i by (simp add: wheel_ok_def list_all_length)
  note st = ingest_shard_step[OF this _ _ g] ingest_ttl_range[OF t]
  then have st: "shard_inv sh" "shards s1 = shards s" "\<forall>k. k \<noteq> ?k \<longrightarrow> activeMap sh k = activeMap (shards s ! ?i) k"
    "remaining sh = (if accepts cd ?k packet (shards s ! ?i) s then (remaining (shards s ! ?i))(?k \<mapsto> ttl) else remaining (shards s ! ?i))"
    by simp_all
  have "wheel_ok (Ingest xx cd packet s)" using assms st(1) i by (auto simp: wheel_ok_def r st(2) list_all_length nth_list_update)
  moreover have "countdown (Ingest xx cd packet s) = (case taken xx cd packet s of None \<Rightarrow> countdown s
      | Some ttl \<Rightarrow> (countdown s)(?i := (countdown s ?i)(?k \<mapsto> ttl)))"
    using False t i by (intro ext) (auto simp: countdown_def r st(2,4) taken_def nth_list_update)
  ultimately show ?thesis using st(2,3) i by (auto simp: r nth_list_update)
qed

lemma advance_shards_step:
  assumes "list_all shard_inv shs" "advance_shards shs frozen = (shs', frozen')"
  shows "list_all shard_inv shs' \<and> length shs' = length shs \<and>
    (\<forall>i<length shs. \<forall>k.
       remaining (shs' ! i) k = (case remaining (shs ! i) k of None \<Rightarrow> None | Some n \<Rightarrow> if n = 1 then None else Some (n - 1)) \<and>
       activeMap (shs' ! i) k = (if remaining (shs ! i) k = Some 1 then None else activeMap (shs ! i) k)) \<and>
    (\<forall>k. (\<forall>i<length shs. remaining (shs ! i) k \<noteq> Some 1) \<longrightarrow> frozen' k = frozen k) \<and>
    (\<forall>i<length shs. \<forall>k. remaining (shs ! i) k = Some 1 \<longrightarrow> (\<forall>j<length shs. j \<noteq> i \<longrightarrow> remaining (shs ! j) k \<noteq> Some 1) \<longrightarrow>
       frozen' k = activeMap (shs ! i) k)"
  using assms
proof (induction shs arbitrary: frozen shs' frozen')
  case (Cons sh shs)
  obtain sh1 fz1 where a: "advance_shard sh frozen = (sh1, fz1)" by fastforce
  obtain shs1 fz2 where b: "advance_shards shs fz1 = (shs1, fz2)" by fastforce
  have s: "shs' = sh1 # shs1" "frozen' = fz2" using Cons.prems(2) a b by auto
  note st = advance_shard_inv[OF _ a]
  note ih = Cons.IH[OF _ b]
  have inv: "shard_inv sh" "list_all shard_inv shs" using Cons.prems(1) by auto
  note st = st[OF inv(1)] and ih = ih[OF inv(2)]
  have alls: "(\<forall>i<length (sh # shs). P i) \<longleftrightarrow> P 0 \<and> (\<forall>i<length shs. P (Suc i))" for P
    using less_Suc_eq_0_disj by auto
  show ?case
    unfolding s alls using st ih by (auto simp: alls[unfolded list.size])
qed simp

lemma AdvanceTime_step:
  assumes "wheel_ok s" "AdvanceTime s = (frozen, s')"
  shows "wheel_ok s'" "length (shards s') = length (shards s)" "configMap s' = configMap s"
    "countdown s' i k = (case countdown s i k of None \<Rightarrow> None | Some n \<Rightarrow> if n = 1 then None else Some (n - 1))"
    "i < length (shards s) \<Longrightarrow> activeMap (shards s' ! i) k = (if countdown s i k = Some 1 then None else activeMap (shards s ! i) k)"
    "(\<forall>i. countdown s i k \<noteq> Some 1) \<Longrightarrow> frozen k = None"
    "countdown s i k = Some 1 \<Longrightarrow> (\<forall>j. j \<noteq> i \<longrightarrow> countdown s j k \<noteq> Some 1) \<Longrightarrow> frozen k = activeMap (shards s ! i) k"
proof -
  obtain shs where a: "advance_shards (shards s) (\<lambda>k. None) = (shs, frozen)" "s' = s\<lparr>shards := shs\<rparr>"
    using assms(2) by (auto simp: AdvanceTime_def split: prod.splits)
  note st = advance_shards_step[OF assms(1)[unfolded wheel_ok_def] a(1)]
  show "wheel_ok s'" "length (shards s') = length (shards s)" "configMap s' = configMap s" using st by (auto simp: wheel_ok_def a(2))
  show "countdown s' i k = (case countdown s i k of None \<Rightarrow> None | Some n \<Rightarrow> if n = 1 then None else Some (n - 1))"
    using st by (auto simp: countdown_def a(2))
  show "i < length (shards s) \<Longrightarrow> activeMap (shards s' ! i) k = (if countdown s i k = Some 1 then None else activeMap (shards s ! i) k)"
    using st by (auto simp: countdown_def a(2))
  show "(\<forall>i. countdown s i k \<noteq> Some 1) \<Longrightarrow> frozen k = None" using st unfolding countdown_def by metis
  show "countdown s i k = Some 1 \<Longrightarrow> (\<forall>j. j \<noteq> i \<longrightarrow> countdown s j k \<noteq> Some 1) \<Longrightarrow> frozen k = activeMap (shards s ! i) k"
    using st unfolding countdown_def by (metis option.distinct(1))
qed

end
