(* ===== verification/Tail_Wheel_Props.thy ===== *)
theory Tail_Wheel_Props
  imports Tail_Wheel_Steps
begin

section \<open>The time wheel: properties\<close>

subsection \<open>Sequences of operations\<close>

datatype wheel_event =
    EIngest DataPacket
  | ETick
  | EUpdate string "TailSamplingConfigs option"
  | EDecide "(nat \<times> DataGroup option) list"

text \<open>What the ticks hand over, and the sampler afterwards.\<close>

fun run_wheel ::
  "(string \<Rightarrow> 64 word) \<Rightarrow> codec \<Rightarrow> regexp \<Rightarrow> get_conds \<Rightarrow> wheel_event list \<Rightarrow> sampler \<Rightarrow> (nat \<Rightarrow> DataGroup option) list \<times> sampler" where
  "run_wheel xx cd rx gc [] s = ([], s)"
| "run_wheel xx cd rx gc (EIngest p # evs) s = run_wheel xx cd rx gc evs (Ingest xx cd p s)"
| "run_wheel xx cd rx gc (ETick # evs) s =
     (case AdvanceTime s of (frozen, s1) \<Rightarrow> case run_wheel xx cd rx gc evs s1 of (fs, s2) \<Rightarrow> (frozen # fs, s2))"
| "run_wheel xx cd rx gc (EUpdate token conf # evs) s = run_wheel xx cd rx gc evs (snd (UpdateConfig gc token conf s))"
| "run_wheel xx cd rx gc (EDecide gs # evs) s =
     run_wheel xx cd rx gc evs (case TailSamplingOutcomes cd rx gs s of None \<Rightarrow> s | Some (os, s1) \<Rightarrow> s1)"

abbreviation ticks :: "wheel_event list \<Rightarrow> nat" where
  "ticks evs \<equiv> length (filter (\<lambda>e. e = ETick) evs)"

definition quiet :: "(string \<Rightarrow> 64 word) \<Rightarrow> nat \<Rightarrow> wheel_event list \<Rightarrow> bool" where
  "quiet xx key evs \<longleftrightarrow> list_all (\<lambda>e. case e of EIngest p \<Rightarrow> tailSamplingGroupMapKey xx p \<noteq> key | _ \<Rightarrow> True) evs"

lemma read_back_frame: "read_back b dg s = (dg1, s1) \<Longrightarrow> shards s1 = shards s"
  using spill_frame(2)[of dg s "fst (hydrateDataGroup dg s)" dg1 s1]
  by (cases "hydrateDataGroup dg s") (auto simp: read_back_def split: if_splits)

lemma finish_group_frame: "finish_group k kept dg s = (o1, s1) \<Longrightarrow> shards s1 = shards s"
  using read_back_frame by (fastforce simp: finish_group_def spill_frame(3) split: prod.splits)

lemma decide_group_frame:
  assumes "decide_group cd rx dg s = Some (o1, s1)"
  shows "shards s1 = shards s"
proof -
  obtain b dg2 s2 kept where "read_back b dg s = (dg2, s2)" "finish_group (dg_spillKey dg) kept dg2 s2 = (o1, s1)"
    using assms unfolding decide_group_def Let_def
    by (auto split: if_splits option.splits prod.splits)
  then show ?thesis using read_back_frame finish_group_frame by metis
qed

lemma outcomes_frame: "TailSamplingOutcomes cd rx gs s = Some (os, s1) \<Longrightarrow> shards s1 = shards s"
proof (induction gs arbitrary: s os)
  case (Cons g gs)
  obtain key og where g: "g = (key, og)" by fastforce
  let ?r = "case og of None \<Rightarrow> Some (\<lparr>to_Packet = None, to_SourcePacket = None, to_Decision = DecisionDropped\<rparr>, s)
      | Some dg \<Rightarrow> decide_group cd rx dg s"
  obtain o1 s2 os2 where r: "?r = Some (o1, s2)" "TailSamplingOutcomes cd rx gs s2 = Some (os2, s1)"
    using Cons.prems unfolding g by (cases "?r") auto
  have "shards s2 = shards s" using r(1) by (cases og) (auto dest: decide_group_frame)
  with Cons.IH[OF r(2)] show ?case by simp
qed simp

lemma update_frame: "shards (snd (UpdateConfig gc token conf s)) = shards s"
  by (auto simp: UpdateConfig_def Let_def split: option.split prod.split)

lemma frame_step:
  assumes "shards s1 = shards s"
  shows "wheel_ok s1 \<longleftrightarrow> wheel_ok s" "countdown s1 = countdown s"
  by (simp_all add: wheel_ok_def countdown_def assms fun_eq_iff)

definition event_step :: "(string \<Rightarrow> 64 word) \<Rightarrow> codec \<Rightarrow> regexp \<Rightarrow> get_conds \<Rightarrow> wheel_event \<Rightarrow> sampler \<Rightarrow> sampler" where
  "event_step xx cd rx gc e s =
     (case e of
        EIngest p \<Rightarrow> Ingest xx cd p s
      | ETick \<Rightarrow> snd (AdvanceTime s)
      | EUpdate token conf \<Rightarrow> snd (UpdateConfig gc token conf s)
      | EDecide gs \<Rightarrow> (case TailSamplingOutcomes cd rx gs s of None \<Rightarrow> s | Some (os, s1) \<Rightarrow> s1))"

lemma run_wheel_Cons:
  "run_wheel xx cd rx gc (e # evs) s =
    (case run_wheel xx cd rx gc evs (event_step xx cd rx gc e s) of
       (fs, s2) \<Rightarrow> ((if e = ETick then [fst (AdvanceTime s)] else []) @ fs, s2))"
  by (cases e) (auto simp: event_step_def split: prod.splits)

lemma event_frame:
  "\<forall>p. e \<noteq> EIngest p \<Longrightarrow> e \<noteq> ETick \<Longrightarrow> shards (event_step xx cd rx gc e s) = shards s"
  by (cases e) (auto simp: event_step_def update_frame split: option.splits dest: outcomes_frame)

text \<open>One event while a group is quiet.\<close>

lemma quiet_step:
  assumes "wheel_ok s" "quiet xx key [e]" "countdown s i key = Some n" "\<forall>j. j \<noteq> i \<longrightarrow> countdown s j key = None"
    "e = ETick \<Longrightarrow> 1 < n" "s1 = event_step xx cd rx gc e s"
  shows "wheel_ok s1 \<and> countdown s1 i key = Some (n - (if e = ETick then 1 else 0)) \<and> (\<forall>j. j \<noteq> i \<longrightarrow> countdown s1 j key = None) \<and>
    activeMap (shards s1 ! i) key = activeMap (shards s ! i) key \<and> (e = ETick \<longrightarrow> fst (AdvanceTime s) key = None)"
proof -
  have i: "i < length (shards s)" using assms(3) by (simp add: countdown_def split: if_splits)
  consider (ingest) p where "e = EIngest p" | (tick) "e = ETick" | (other) "\<forall>p. e \<noteq> EIngest p" "e \<noteq> ETick" by blast
  then show ?thesis
  proof cases
    case ingest
    then have "tailSamplingGroupMapKey xx p \<noteq> key" "s1 = Ingest xx cd p s" using assms(2) by (auto simp: quiet_def assms(6) event_step_def)
    then show ?thesis using Ingest_step[OF assms(1), of xx cd p] assms(3,4) i ingest
      by (auto simp: split: option.splits)
  next
    case tick
    obtain f where a: "AdvanceTime s = (f, s1)" using tick assms(6) by (cases "AdvanceTime s") (auto simp: event_step_def)
    note st = AdvanceTime_step[OF assms(1) a]
    have n: "n \<noteq> 1" using assms(5) tick by simp
    have "f key = None" using st(6) assms(3,4) n by (metis option.distinct(1) option.inject)
    then show ?thesis using st(1,4,5) assms(3,4) n i tick a by simp
  next
    case other
    then have "shards s1 = shards s" unfolding assms(6) by (rule event_frame)
    with frame_step[OF this] assms(1,3,4) other show ?thesis by simp
  qed
qed

lemma quiet_run:
  assumes "wheel_ok s" "quiet xx key evs" "countdown s i key = Some n" "\<forall>j. j \<noteq> i \<longrightarrow> countdown s j key = None" "ticks evs < n"
    "run_wheel xx cd rx gc evs s = (fs, s')"
  shows "wheel_ok s' \<and> countdown s' i key = Some (n - ticks evs) \<and> (\<forall>j. j \<noteq> i \<longrightarrow> countdown s' j key = None) \<and>
    activeMap (shards s' ! i) key = activeMap (shards s ! i) key \<and> (\<forall>f\<in>set fs. f key = None)"
  using assms
proof (induction evs arbitrary: s n fs)
  case (Cons e evs)
  let ?s = "event_step xx cd rx gc e s" and ?n = "n - (if e = ETick then 1 else 0)"
  have q: "quiet xx key [e]" "quiet xx key evs" using Cons.prems(2) by (auto simp: quiet_def)
  have "e = ETick \<Longrightarrow> 1 < n" using Cons.prems(5) by auto
  note st = quiet_step[OF Cons.prems(1) q(1) Cons.prems(3,4) this refl, of cd rx gc]
  obtain fs2 where r: "run_wheel xx cd rx gc evs ?s = (fs2, s')" "fs = (if e = ETick then [fst (AdvanceTime s)] else []) @ fs2"
    using Cons.prems(6) by (auto simp: run_wheel_Cons split: prod.splits)
  have "ticks evs < ?n" using Cons.prems(5) by (auto split: if_splits)
  from Cons.IH[OF _ q(2) _ _ this r(1)] st r(2) show ?case by (auto split: if_splits)
qed simp

lemma event_wheel_ok: "wheel_ok s \<Longrightarrow> wheel_ok (event_step xx cd rx gc e s)"
proof -
  assume ok: "wheel_ok s"
  consider (ingest) p where "e = EIngest p" | (tick) "e = ETick" | (other) "\<forall>p. e \<noteq> EIngest p" "e \<noteq> ETick" by blast
  then show ?thesis
  proof cases
    case tick
    then show ?thesis using AdvanceTime_step(1)[OF ok, of "fst (AdvanceTime s)" "snd (AdvanceTime s)"] by (simp add: event_step_def)
  next
    case other
    then show ?thesis using frame_step(1)[OF event_frame] ok by blast
  qed (use Ingest_step[OF ok] in \<open>simp add: event_step_def\<close>)
qed

lemma run_wheel_ok: "wheel_ok s \<Longrightarrow> wheel_ok (snd (run_wheel xx cd rx gc evs s))"
proof (induction evs arbitrary: s)
  case (Cons e evs)
  from Cons.IH[OF event_wheel_ok[OF Cons.prems]] show ?case by (simp add: run_wheel_Cons split_beta)
qed simp

lemma NewGlobalSampler_ok: "wheel_ok (NewGlobalSampler n wait w)"
  by (simp add: wheel_ok_def NewGlobalSampler_def os.defs list_all_length new_shard_inv)

lemma countdown_range: "wheel_ok s \<Longrightarrow> countdown s i k = Some n \<Longrightarrow> 0 < n \<and> n < wheelSize"
  using remaining_range[of "shards s ! i" k n] by (auto simp: wheel_ok_def list_all_length countdown_def split: if_splits)

subsection \<open>Properties\<close>

text \<open>
  C21.  The wheel stays sound.  Whatever is ingested, configured, decided and however the time advances, from a new sampler on: the entries in the slots and
  the active groups describe each other, no group sits in the slot under the hand, and every group has between 1 and 3599 ticks left.
\<close>

theorem wheel_stays_sound:
  "let s = snd (run_wheel xx cd rx gc evs (NewGlobalSampler shardCount wait w)) in
   wheel_ok s \<and> (\<forall>i k. case countdown s i k of None \<Rightarrow> True | Some n \<Rightarrow> 0 < n \<and> n < 3600)"
proof -
  have ok: "wheel_ok (snd (run_wheel xx cd rx gc evs (NewGlobalSampler shardCount wait w)))" by (rule run_wheel_ok[OF NewGlobalSampler_ok])
  show ?thesis unfolding Let_def using ok countdown_range[OF ok] by (auto split: option.split)
qed

text \<open>
  C19.  A group expires on time.  After a packet was taken with a time to live of \<open>ttl\<close> ticks, and while no packet of its group arrives,
  none of the next \<open>ttl - 1\<close> ticks hands the group over and the tick after them does, as the packet left it, and forgets it.
  Packets of other groups, decisions and new configurations in between make no difference.
\<close>

theorem group_expires_on_time:
  assumes "wheel_ok s" "taken xx cd packet s = Some ttl"
    "\<forall>j. j \<noteq> route packet s \<longrightarrow> countdown s j (tailSamplingGroupMapKey xx packet) = None"
    "quiet xx (tailSamplingGroupMapKey xx packet) evs" "ticks evs = ttl - 1"
    "run_wheel xx cd rx gc evs (Ingest xx cd packet s) = (fs, s2)" "AdvanceTime s2 = (frozen, s3)"
  shows "(\<forall>f\<in>set fs. f (tailSamplingGroupMapKey xx packet) = None) \<and>
    frozen (tailSamplingGroupMapKey xx packet) \<noteq> None \<and>
    frozen (tailSamplingGroupMapKey xx packet) =
      activeMap (shards (Ingest xx cd packet s) ! route packet s) (tailSamplingGroupMapKey xx packet) \<and>
    activeMap (shards s3 ! route packet s) (tailSamplingGroupMapKey xx packet) = None"
proof -
  let ?k = "tailSamplingGroupMapKey xx packet" and ?i = "route packet s" and ?s1 = "Ingest xx cd packet s"
  have ttl: "0 < ttl" using assms(2) ingest_ttl_range by (auto simp: taken_def split: if_splits)
  note st = Ingest_step[OF assms(1), of xx cd packet]
  have c1: "wheel_ok ?s1" "countdown ?s1 ?i ?k = Some ttl" "\<forall>j. j \<noteq> ?i \<longrightarrow> countdown ?s1 j ?k = None"
    using st assms(2,3) by auto
  have t: "ticks evs < ttl" using assms(5) ttl by simp
  note q = quiet_run[OF c1(1) assms(4) c1(2,3) t assms(6)]
  then have c2: "wheel_ok s2" "countdown s2 ?i ?k = Some 1" "\<forall>j. j \<noteq> ?i \<longrightarrow> countdown s2 j ?k = None"
    using assms(5) ttl by simp_all
  note a = AdvanceTime_step[OF c2(1) assms(7)]
  have i: "?i < length (shards s2)" "activeMap (shards s2 ! ?i) ?k \<noteq> None"
    using c2(2) by (auto simp: countdown_def remaining_def split: if_splits option.splits)
  have "frozen ?k = activeMap (shards s2 ! ?i) ?k" using a(7)[OF c2(2)] c2(3) by simp
  then show ?thesis using q i a(5)[OF i(1), of ?k] c2(2) by simp
qed

definition ex_config :: TailSamplingConfigs where
  "ex_config = \<lparr>tc_Tracing = Some \<lparr>tr_DataTTL = 2 * second, tr_DerivedMetrics = [], tr_BuiltinMetrics = [], tr_Pipelines = [], tr_Version = 1,
     tr_GroupKey = ''trace_id''\<rparr>, tc_Logging = None, tc_RUM = None, tc_Version = 1\<rparr>"

definition ex_world :: os where
  "ex_world = \<lparr>files = [], dirs = [], flocks = [], faults = [], now = 0\<rparr>"

definition ex_sampler :: sampler where
  "ex_sampler = (NewGlobalSampler 2 0 ex_world)\<lparr>configMap := [''t'' \<mapsto> ex_config]\<rparr>"

definition ex_xx :: "string \<Rightarrow> 64 word" where
  "ex_xx s = of_nat (length s)"

definition ex_plain_codec :: codec where
  "ex_plain_codec = \<lparr>EncodeAll = (\<lambda>b. b), DecodeAll = Some, pb_Unmarshal = (\<lambda>b. Some []), float_to_int = (\<lambda>f. 0)\<rparr>"

definition ex_pack :: "nat \<Rightarrow> DataPacket" where
  "ex_pack h = zero_packet\<lparr>GroupIdHash := h, Token := ''t'', DataType := ''tracing''\<rparr>"

lemma ex_sampler_facts: "wheel_ok ex_sampler" "countdown ex_sampler j k = None"
  "taken ex_xx ex_plain_codec (ex_pack 7) ex_sampler = Some 2" "route (ex_pack 7) ex_sampler = 1"
proof -
  have sh: "shards ex_sampler = [new_shard, new_shard]"
    by (simp add: ex_sampler_def NewGlobalSampler_def os.defs numeral_2_eq_2)
  show "wheel_ok ex_sampler" by (simp add: wheel_ok_def sh new_shard_inv)
  have nth: "[new_shard, new_shard] ! i = new_shard" if "i < 2" for i using that by (cases i) auto
  show "countdown ex_sampler j k = None" using nth by (simp add: countdown_def sh remaining_def new_shard_def)
  show "route (ex_pack 7) ex_sampler = 1" by (simp add: route_def sh ex_pack_def flip: numeral_2_eq_2)
  then have "accepts ex_plain_codec k (ex_pack 7) (shards ex_sampler ! route (ex_pack 7) ex_sampler) ex_sampler" for k
    by (simp add: sh accepts_def new_shard_def)
  moreover have "ingest_ttl (ex_pack 7) ex_sampler = Some 2"
    by (simp add: ingest_ttl_def configured_ttl_def ex_pack_def zero_packet_def GetTraceConfig_def
        ex_sampler_def ex_config_def ttl_seconds_def second_def)
  ultimately show "taken ex_xx ex_plain_codec (ex_pack 7) ex_sampler = Some 2" by (simp add: taken_def sh)
qed

theorem group_expires_on_time_witness:
  "(case run_wheel ex_xx ex_plain_codec (\<lambda>re s. None) (\<lambda>c. None) [EIngest (ex_pack 8), ETick] (Ingest ex_xx ex_plain_codec (ex_pack 7) ex_sampler) of
      (fs, s2) \<Rightarrow> fst (AdvanceTime s2) (tailSamplingGroupMapKey ex_xx (ex_pack 7)) \<noteq> None)"
proof -
  have "tailSamplingGroupMapKey ex_xx (ex_pack 8) \<noteq> tailSamplingGroupMapKey ex_xx (ex_pack 7)"
    by (simp add: tailSamplingGroupMapKey_def ex_pack_def zero_packet_def group_key_inj)
  then have q: "quiet ex_xx (tailSamplingGroupMapKey ex_xx (ex_pack 7)) [EIngest (ex_pack 8), ETick]" by (simp add: quiet_def)
  obtain fs s2 where r: "run_wheel ex_xx ex_plain_codec (\<lambda>re s. None) (\<lambda>c. None) [EIngest (ex_pack 8), ETick]
      (Ingest ex_xx ex_plain_codec (ex_pack 7) ex_sampler) = (fs, s2)" by fastforce
  obtain frozen s3 where a: "AdvanceTime s2 = (frozen, s3)" by fastforce
  have "frozen (tailSamplingGroupMapKey ex_xx (ex_pack 7)) \<noteq> None"
    by (rule group_expires_on_time[OF ex_sampler_facts(1,3) _ q _ r a, THEN conjunct2, THEN conjunct1]) (simp_all add: ex_sampler_facts(2))
  then show ?thesis unfolding r by (simp add: a)
qed

end
