(* ===== verification/Tail_Merge.thy ===== *)
theory Tail_Merge
  imports Tail_Wheel_Steps Tail_Decide
begin

section \<open>Merging packets, and deciding spilled ones\<close>

subsection \<open>Payloads one behind the other\<close>

lemma uvarint_loop_app: "uvarint_loop i x bs = Some (n, r) \<Longrightarrow> uvarint_loop i x (bs @ t) = Some (n, r @ t)"
  by (induction i x bs rule: uvarint_loop.induct) (auto split: if_splits)

lemma Uvarint_app: "Uvarint bs = Some (n, r) \<Longrightarrow> Uvarint (bs @ t) = Some (n, r @ t)"
  unfolding Uvarint_def by (rule uvarint_loop_app)

lemma read_value_app: "read_value wt src = Some (w, r) \<Longrightarrow> read_value wt (src @ t) = Some (w, r @ t)"
proof (cases "Uvarint src")
  case (Some p)
  obtain n q where p: "p = (n, q)" by fastforce
  assume "read_value wt src = Some (w, r)"
  then show ?thesis using Some Uvarint_app[OF Some[unfolded p]] by (auto simp: read_value_def p split: if_splits)
qed (auto simp: read_value_def split: if_splits)

lemma read_tag_app: "read_tag src = Some (tag, r) \<Longrightarrow> read_tag (src @ t) = Some (tag, r @ t)"
proof -
  assume a: "read_tag src = Some (tag, r)"
  then obtain b bs where s: "src = b # bs" by (cases src) (auto simp: read_tag_def)
  show ?thesis
  proof (cases "Uvarint src")
    case (Some p)
    obtain n q where p: "p = (n, q)" by fastforce
    show ?thesis using a Some Uvarint_app[OF Some[unfolded p], of t] by (auto simp: read_tag_def p s split: if_splits)
  qed (use a in \<open>auto simp: read_tag_def s split: if_splits\<close>)
qed

lemma NextField_app:
  assumes "NextField src = Some (n, w, r)"
  shows "NextField (src @ t) = Some (n, w, r @ t)"
proof -
  obtain tag q where t: "read_tag src = Some (tag, q)" "read_value (tag mod 8) q = Some (w, r)" "n = tag div 8"
    using assms unfolding NextField_eq_slow NextField_slow_def by (auto split: option.splits)
  show ?thesis using read_tag_app[OF t(1)] read_value_app[OF t(2)] t(3) by (simp add: NextField_eq_slow NextField_slow_def)
qed

lemma bodies_app: "snd (bodies a) \<Longrightarrow> bodies (a @ b) = (fst (bodies a) @ fst (bodies b), snd (bodies b))"
proof (induction a rule: bodies.induct)
  case (1 a)
  show ?case
  proof (cases "a = []")
    case True
    then show ?thesis by (simp add: bodies.simps[of "[]"])
  next
    case False
    then obtain n w r where f: "NextField a = Some (n, w, r)" using "1.prems" by (subst (asm) bodies.simps) (auto split: option.splits)
    note app = NextField_app[OF f, of b]
    show ?thesis
    proof (cases "n = 1")
      case True
      then obtain d where d: "fc_Bytes w = Some d" using "1.prems" False f by (subst (asm) bodies.simps) (auto split: option.splits)
      have s: "bodies a = (d # fst (bodies r), snd (bodies r))" using False f True d by (subst bodies.simps) (simp split: prod.split)
      then have ih: "bodies (r @ b) = (fst (bodies r) @ fst (bodies b), snd (bodies b))"
        using "1.IH"(2)[OF False f refl refl] True d "1.prems" by auto
      then show ?thesis using False app True d s by (subst bodies.simps) simp
    next
      case n: False
      have s: "bodies a = bodies r" using False f n by (subst bodies.simps) simp
      then have ih: "bodies (r @ b) = (fst (bodies r) @ fst (bodies b), snd (bodies b))"
        using "1.IH"(1)[OF False f refl refl n] "1.prems" by simp
      then show ?thesis using False app n s by (subst bodies.simps) simp
    qed
  qed
qed

subsection \<open>Merging\<close>

text \<open>What decompression has to do.\<close>

definition lossless :: "codec \<Rightarrow> bool" where
  "lossless cd \<longleftrightarrow> (\<forall>payload. DecodeAll cd (EncodeAll cd payload) = Some payload \<and> (EncodeAll cd payload = [] \<longrightarrow> payload = []))"

lemma decompress_compressed:
  "lossless cd \<Longrightarrow> CompressPointsPayload cd payload = (c, kind) \<Longrightarrow> DecompressPointsPayload cd c kind = Some payload"
  by (auto simp: CompressPointsPayload_def DecompressPointsPayload_def lossless_def Let_def PayloadCompressionNone_def PayloadCompressionZstd_def
      split: if_splits)

lemma merge_bodies:
  assumes "lossless cd" "snd (packet_bodies cd dst)" "mergePacketPayload cd dst src = Some m"
  shows "packet_bodies cd m = (fst (packet_bodies cd dst) @ fst (packet_bodies cd src), snd (packet_bodies cd src))"
proof (cases "PayloadCompression dst = PayloadCompressionNone \<and> PayloadCompression src = PayloadCompressionNone")
  case True
  then show ?thesis using assms(2,3) bodies_app[of "PointsPayload dst" "PointsPayload src"]
    by (simp add: mergePacketPayload_def packet_bodies_def DecompressPointsPayload_def)
      (auto simp: packet_bodies_def DecompressPointsPayload_def)
next
  case False
  then obtain a b where d: "DecompressPointsPayload cd (PointsPayload dst) (PayloadCompression dst) = Some a"
    "DecompressPointsPayload cd (PointsPayload src) (PayloadCompression src) = Some b"
    using assms(3) by (auto simp: mergePacketPayload_def split: option.splits)
  obtain c kind where c: "CompressPointsPayload cd (a @ b) = (c, kind)" by fastforce
  have "m = dst\<lparr>PointsPayload := c, PayloadCompression := kind\<rparr>" using assms(3) False d c by (auto simp: mergePacketPayload_def)
  then show ?thesis using decompress_compressed[OF assms(1) c] d bodies_app assms(2) by (simp add: packet_bodies_def)
qed

lemma has_spans_app:
  assumes "lossless cd" "has_spans cd dst A" "has_spans cd src B" "mergePacketPayload cd dst src = Some m"
  shows "has_spans cd m (A @ B)"
  using merge_bodies[OF assms(1) _ assms(4)] assms(2,3) by (simp add: has_spans_def)

text \<open>The summary of two lists of spans is the merged summary.\<close>

lemma eq_by_less: "(\<And>n. n < x \<longleftrightarrow> n < y) \<Longrightarrow> (x :: int) = y"
  by (metis less_irrefl linorder_neqE)

lemma summary_app:
  "PredError (summary cd (A @ B)) = (PredError (summary cd A) \<or> PredError (summary cd B))"
  "PredHttpError (summary cd (A @ B)) = (PredHttpError (summary cd A) \<or> PredHttpError (summary cd B))"
  "PredBizError (summary cd (A @ B)) = (PredBizError (summary cd A) \<or> PredBizError (summary cd B))"
  "PredTraceKeep (summary cd (A @ B)) = (PredTraceKeep (summary cd A) \<or> PredTraceKeep (summary cd B))"
  "MaxSpanDurationUs (summary cd (A @ B)) = max (MaxSpanDurationUs (summary cd A)) (MaxSpanDurationUs (summary cd B))"
  "RootDurationUs (summary cd (A @ B)) = max (RootDurationUs (summary cd A)) (RootDurationUs (summary cd B))"
  "MaxNonrootDurationUs (summary cd (A @ B)) = max (MaxNonrootDurationUs (summary cd A)) (MaxNonrootDurationUs (summary cd B))"
  by (auto simp: summary_def fold_apply_fields zero_packet_def less_max_iff_disj bex_Un simp del: fold_append intro!: eq_by_less)

lemma has_spans_payload:
  "PointsPayload p = PointsPayload q \<Longrightarrow> PayloadCompression p = PayloadCompression q \<Longrightarrow> has_spans cd p spans = has_spans cd q spans"
  by (simp add: has_spans_def packet_bodies_def)

subsection \<open>Predicates do not look at the payload\<close>

definition payload_blind :: "spanPredicateExpr \<Rightarrow> bool" where
  "payload_blind e \<longleftrightarrow> (\<forall>p b. e (p\<lparr>PointsPayload := b\<rparr>) = e p)"

lemma mergePreds_blind:
  "mergePreds a b = COk sp \<Longrightarrow> (\<forall>f. sp_flag a = Some f \<longrightarrow> payload_blind f) \<Longrightarrow> (\<forall>f. sp_flag b = Some f \<longrightarrow> payload_blind f) \<Longrightarrow>
    (\<forall>f. sp_flag sp = Some f \<longrightarrow> payload_blind f)"
  by (auto simp: mergePreds_def payload_blind_def split: if_splits option.splits)

lemma spanPred_eval_blind: "spanPred_eval sp = Some e \<Longrightarrow> (\<forall>f. sp_flag sp = Some f \<longrightarrow> payload_blind f) \<Longrightarrow> payload_blind e"
  by (auto simp: spanPred_eval_def pred_duration_def payload_blind_def split: if_splits option.splits parent_constraint.splits)

lemma compileAtomic_blind:
  assumes "compileAtomic op l r = COk sp" "sp_flag sp = Some f"
  shows "payload_blind f"
proof -
  have "http_regexp (\<lambda>re s. Some (isHTTPErrorStatus s))" by (simp add: http_regexp_def)
  from compileAtomic_atom[OF assms(1) this, of True undefined] obtain a where a: "sp = atom_pred a" by (elim exE conjE)
  show ?thesis using assms(2) unfolding a by (cases a) (auto simp: payload_blind_def no_pred_def)
qed

lemma compilePred_blind: "compilePred e = COk sp \<Longrightarrow> (\<forall>f. sp_flag sp = Some f \<longrightarrow> payload_blind f)"
proof (induction e arbitrary: sp)
  case (BinaryExpr op l r b)
  consider "op = AND" | "op = OR" | (atom) "op \<noteq> AND" "op \<noteq> OR" by blast
  then show ?case
  proof cases
    case 1
    then obtain pl pr where c: "compilePred l = COk pl" "compilePred r = COk pr" "mergePreds pl pr = COk sp"
      using BinaryExpr.prems by (auto simp: compilePred_AND simp del: compilePred.simps)
    show ?thesis by (rule mergePreds_blind[OF c(3) BinaryExpr.IH(1)[OF c(1)] BinaryExpr.IH(2)[OF c(2)]])
  next
    case 2
    then obtain pl pr el er where c: "compilePred l = COk pl" "compilePred r = COk pr" "spanPred_eval pl = Some el"
      "spanPred_eval pr = Some er" "sp = flag_pred (\<lambda>packet. el packet \<or> er packet)"
      using BinaryExpr.prems by (auto simp: compilePred_OR simp del: compilePred.simps)
    have "payload_blind el" "payload_blind er" using BinaryExpr.IH c(1-4) spanPred_eval_blind by blast+
    then show ?thesis by (simp add: c(5) payload_blind_def)
  next
    case atom
    then show ?thesis using BinaryExpr.prems compileAtomic_blind by auto
  qed
qed auto

lemma merge_conds_blind:
  "merge_conds c wc = COk sp \<Longrightarrow> (\<forall>f. sp_flag c = Some f \<longrightarrow> payload_blind f) \<Longrightarrow> (\<forall>f. sp_flag sp = Some f \<longrightarrow> payload_blind f)"
proof (induction wc arbitrary: c)
  case (Cons node nodes)
  from Cons.prems(1) obtain part m where "compilePred node = COk part" "mergePreds c part = COk m" "merge_conds m nodes = COk sp"
    by (rule merge_conds_Cons)
  with Cons.IH Cons.prems(2) compilePred_blind mergePreds_blind show ?case by blast
qed simp

lemma compileWhere_blind: "compileWhereCondition wc = COk e \<Longrightarrow> payload_blind e"
  using merge_conds_blind[of no_pred wc] spanPred_eval_blind by (auto simp: compileWhere_COk)

lemma compilePipeline_blind: "compilePipelinePredicate p = COk e \<Longrightarrow> payload_blind e"
proof -
  have cs: "compile_conds cs = COk es \<Longrightarrow> e \<in> set es \<Longrightarrow> payload_blind e" for cs es e
    by (induction cs arbitrary: es rule: compile_conds.induct) (auto simp: cbind_COk dest: compileWhere_blind)
  assume "compilePipelinePredicate p = COk e"
  then consider "e = (\<lambda>packet. True)" | cs es where "compile_conds cs = COk es" "e = (\<lambda>packet. list_ex (\<lambda>e. e packet) es)"
    by (auto simp: compilePipelinePredicate_def cbind_COk split: option.splits if_splits)
  then show ?thesis
  proof cases
    case 2
    then have "\<forall>x\<in>set es. payload_blind x" using cs by blast
    then show ?thesis by (auto simp: 2(2) payload_blind_def list_ex_iff)
  qed (simp add: payload_blind_def)
qed

lemma compiled_blind:
  assumes "compilePipelinesFast ps = COk es"
  shows "map (\<lambda>e. e (p\<lparr>PointsPayload := b\<rparr>)) es = map (\<lambda>e. e p) es"
proof -
  from compilePipelines_all2[OF assms] have "\<forall>e\<in>set es. payload_blind e"
    using compilePipeline_blind by (fastforce simp: list_all2_conv_all_nth in_set_conv_nth)
  then show ?thesis by (simp add: payload_blind_def)
qed

lemma decided_payload:
  "\<exists>d. decided cd p ms ps = (fst d, snd d) \<and> fst (decided cd (p\<lparr>PointsPayload := b\<rparr>) ms ps) = fst d \<and>
    (snd (decided cd (p\<lparr>PointsPayload := b\<rparr>) ms ps) = None \<longleftrightarrow> snd d = None)"
  by (auto simp: decided_def pipelineMatchedPacket_def split: option.split)

lemma kept_payload:
  "(fst (decided cd (p\<lparr>PointsPayload := b\<rparr>) ms ps) \<and> snd (decided cd (p\<lparr>PointsPayload := b\<rparr>) ms ps) \<noteq> None) \<longleftrightarrow>
   (fst (decided cd p ms ps) \<and> snd (decided cd p ms ps) \<noteq> None)"
  using decided_payload[of cd p ms ps b] by auto

end
