(* ===== verification/Tail_Merge_Props.thy ===== *)
theory Tail_Merge_Props
  imports Tail_Merge Tail_Wheel_Props Tail_Props
begin

section \<open>Tail sampling: properties of merged and of spilled groups\<close>

lemma merge_payload_fields:
  assumes "mergePacketPayload cd dst src = Some m"
  shows "PredError m = PredError dst" "PredHttpError m = PredHttpError dst" "PredBizError m = PredBizError dst" "PredTraceKeep m = PredTraceKeep dst"
    "MaxSpanDurationUs m = MaxSpanDurationUs dst" "RootDurationUs m = RootDurationUs dst" "MaxNonrootDurationUs m = MaxNonrootDurationUs dst"
  using assms by (auto simp: mergePacketPayload_def split: if_splits option.splits prod.splits)

text \<open>
  C23.  Merging keeps the summary true.  When two packets of a group have the summaries of their spans, the packet that \<open>Ingest\<close> makes of them has the spans
  of both, those of the older packet first, and their common summary; so deciding from the summary stays exact
  across packets from different agents.  Decompression gives back what was compressed.
\<close>

theorem merge_keeps_summary:
  assumes "lossless cd" "has_spans cd dst A" "has_spans cd src B"
    "dst = copy_summary (summary cd A) dst" "src = copy_summary (summary cd B) src"
    "mergePacketPayload cd dst src = Some m"
  shows "has_spans cd (merge_meta m src) (A @ B) \<and> merge_meta m src = copy_summary (summary cd (A @ B)) (merge_meta m src)"
proof
  show "has_spans cd (merge_meta m src) (A @ B)"
    using has_spans_app[OF assms(1-3,6)] has_spans_payload[of "merge_meta m src" m cd]
    by (simp add: merge_meta_def mergeSpanPredicates_def Let_def)
  note m = merge_payload_fields[OF assms(6)]
  have f: "PredError m = PredError (summary cd A)" "PredHttpError m = PredHttpError (summary cd A)"
    "PredBizError m = PredBizError (summary cd A)" "PredTraceKeep m = PredTraceKeep (summary cd A)"
    "MaxSpanDurationUs m = MaxSpanDurationUs (summary cd A)" "RootDurationUs m = RootDurationUs (summary cd A)"
    "MaxNonrootDurationUs m = MaxNonrootDurationUs (summary cd A)"
    by (subst m, subst assms(4), simp add: copy_summary_def)+
  have g: "PredError src = PredError (summary cd B)" "PredHttpError src = PredHttpError (summary cd B)"
    "PredBizError src = PredBizError (summary cd B)" "PredTraceKeep src = PredTraceKeep (summary cd B)"
    "MaxSpanDurationUs src = MaxSpanDurationUs (summary cd B)" "RootDurationUs src = RootDurationUs (summary cd B)"
    "MaxNonrootDurationUs src = MaxNonrootDurationUs (summary cd B)"
    by (subst assms(5), simp add: copy_summary_def)+
  show "merge_meta m src = copy_summary (summary cd (A @ B)) (merge_meta m src)"
    by (simp add: merge_meta_def mergeSpanPredicates_def Let_def copy_summary_def summary_app f g)
qed

definition ex_half :: "string \<Rightarrow> DataPacket" where
  "ex_half payload = ex_trace\<lparr>PointsPayload := payload, PointCount := 1\<rparr>"

definition ex_first :: DataPacket where
  "ex_first = copy_summary (summary ex_codec [ex_root]) (ex_half (CHR 0x0A # CHR 0x01 # ''r''))"

definition ex_second :: DataPacket where
  "ex_second = copy_summary (summary ex_codec [ex_child]) (ex_half (CHR 0x0A # CHR 0x01 # ''c''))"

lemma ex_halves:
  "has_spans ex_codec ex_first [ex_root]" "has_spans ex_codec ex_second [ex_child]"
proof -
  have b: "bodies (CHR 0x0A # CHR 0x01 # ''r'') = ([''r''], True)" "bodies (CHR 0x0A # CHR 0x01 # ''c'') = ([''c''], True)"
    by code_simp+
  show "has_spans ex_codec ex_first [ex_root]" "has_spans ex_codec ex_second [ex_child]"
    by (simp_all add: ex_first_def ex_second_def has_spans_def packet_bodies_def ex_half_def ex_trace_def DecompressPointsPayload_def zero_packet_def
        PayloadCompressionNone_def b ex_codec_def ptWrap_Reset_def copy_summary_def)
qed

theorem merge_keeps_summary_witness:
  "\<exists>m. mergePacketPayload ex_codec ex_first ex_second = Some m \<and> has_spans ex_codec (merge_meta m ex_second) [ex_root, ex_child] \<and>
     merge_meta m ex_second = copy_summary (summary ex_codec [ex_root, ex_child]) (merge_meta m ex_second)"
proof -
  have l: "lossless ex_codec" by (simp add: lossless_def ex_codec_def)
  have c: "ex_first = copy_summary (summary ex_codec [ex_root]) ex_first" "ex_second = copy_summary (summary ex_codec [ex_child]) ex_second"
    by (simp_all add: ex_first_def ex_second_def copy_summary_def)
  have "mergePacketPayload ex_codec ex_first ex_second \<noteq> None"
    by (simp add: mergePacketPayload_def ex_first_def ex_second_def ex_half_def ex_trace_def zero_packet_def copy_summary_def PayloadCompressionNone_def)
  then obtain m where m: "mergePacketPayload ex_codec ex_first ex_second = Some m" by blast
  with merge_keeps_summary[OF l ex_halves c m] show ?thesis by auto
qed











end
