(* ===== verification/Tail_Pick.thy ===== *)
theory Tail_Pick
  imports Tail_Merge
begin

section \<open>Tail sampling: grouping points into packets (aggregate/tail-sampling.go, point.go)\<close>

text \<open>
  \<open>PickTrace\<close> and \<open>pickByGroupKey\<close> sort points into packets by a hash of the group, append each point to the payload of its packet, keep the summary up to
  date and compress the payloads at the end.  A point is its protobuf message; the map of packets is an association list by hash.
\<close>


text \<open>\<open>hash/fnv\<close>: FNV-1a with 64 bits.\<close>

definition fnv64a :: "bytes \<Rightarrow> 64 word" where
  "fnv64a bs = fold (\<lambda>b h. (xor h (of_char b)) * 1099511628211) bs 14695981039346656037"


definition hashTraceID :: "string \<Rightarrow> nat" where
  "hashTraceID s = unat (fnv64a s)"

text \<open>\<open>pt.Get\<close>: a value without content is \<open>nil\<close>; arrays are values of another type.\<close>

definition point_get :: "Point_Kvs.KVs \<Rightarrow> string \<Rightarrow> go_any option" where
  "point_get fs k =
     (case GetKV k fs of
        None \<Rightarrow> None
      | Some f \<Rightarrow>
          (case fVal f of
             None \<Rightarrow> None
           | Some (Field_A a) \<Rightarrow> Some (VOther ''array'')
           | v \<Rightarrow> Some (any_of_val v)))"

text \<open>\<open>strconv.FormatFloat\<close> is a parameter.\<close>

definition fieldToString :: "(f64 \<Rightarrow> string) \<Rightarrow> field_val \<Rightarrow> string" where
  "fieldToString format_float v =
     (case v of
        Field_F x \<Rightarrow> format_float x
      | Field_I x \<Rightarrow> fmt_d x
      | Field_U x \<Rightarrow> fmt_d x
      | Field_S x \<Rightarrow> x
      | Field_D x \<Rightarrow> x
      | Field_B x \<Rightarrow> (if x then ''true'' else ''false'')
      | Field_A a \<Rightarrow> [])"

definition appendPointPayload :: "DataPacket \<Rightarrow> PBPoint \<Rightarrow> DataPacket" where
  "appendPointPayload packet pt =
     packet\<lparr>PointsPayload := AppendPointToPBPointsPayload (PointsPayload packet) (Some pt),
            PointCount := to_i32 (PointCount packet + 1),
            MaxPointTimeUnixNano := max (MaxPointTimeUnixNano packet) (pb_time pt)\<rparr>"

definition applySpanPredicates :: "codec \<Rightarrow> DataPacket \<Rightarrow> PBPoint \<Rightarrow> DataPacket" where
  "applySpanPredicates cd packet pt = applySpanPredicatesWith cd (point_get (pb_fields pt)) packet"

text \<open>Microseconds in, nanoseconds out.\<close>

definition time_field :: "codec \<Rightarrow> string \<Rightarrow> PBPoint \<Rightarrow> int" where
  "time_field cd k pt =
     (case GetKV k (pb_fields pt) of
        None \<Rightarrow> 0
      | Some f \<Rightarrow>
          (case fVal f of
             Some (Field_I i) \<Rightarrow> i
           | Some (Field_F x) \<Rightarrow> if f64_eq x (FFin 0) then 0 else int_of_float cd x
           | _ \<Rightarrow> 0))"

definition getTime :: "codec \<Rightarrow> PBPoint \<Rightarrow> int \<times> int" where
  "getTime cd pt = (to_i64 (time_field cd ''start_time'' pt * 1000), to_i64 (time_field cd ''duration'' pt * 1000))"

definition trace_times :: "codec \<Rightarrow> PBPoint \<Rightarrow> DataPacket \<Rightarrow> DataPacket" where
  "trace_times cd pt p =
     (case getTime cd pt of (start, duration) \<Rightarrow>
        (let stop = to_i64 (start + duration);
             first = (if TraceStartTimeUnixNano p = 0 then start else TraceStartTimeUnixNano p);
             final = (if TraceEndTimeUnixNano p = 0 then stop else TraceEndTimeUnixNano p) in
         p\<lparr>TraceStartTimeUnixNano := min first start, TraceEndTimeUnixNano := max final stop\<rparr>))"

definition mark_error :: "PBPoint \<Rightarrow> DataPacket \<Rightarrow> DataPacket" where
  "mark_error pt p = (if GetTag ''status'' (pb_fields pt) = ''error'' then p\<lparr>HasError := True\<rparr> else p)"

subsection \<open>PickTrace\<close>

definition trace_id :: "PBPoint \<Rightarrow> string option" where
  "trace_id pt = (case point_get (pb_fields pt) ''trace_id'' of Some (VString tid) \<Rightarrow> Some tid | _ \<Rightarrow> None)"

definition new_packet :: "string \<Rightarrow> int \<Rightarrow> string \<Rightarrow> string \<Rightarrow> string \<Rightarrow> DataPacket" where
  "new_packet source version dataType groupKey tid =
     zero_packet\<lparr>GroupIdHash := hashTraceID tid, RawGroupId := tid, DataType := dataType, Source := source, ConfigVersion := version,
       GroupKey := groupKey\<rparr>"

definition add_span :: "codec \<Rightarrow> PBPoint \<Rightarrow> DataPacket \<Rightarrow> DataPacket" where
  "add_span cd pt packet = applySpanPredicates cd (trace_times cd pt (mark_error pt (appendPointPayload packet pt))) pt"

definition grouped :: "(PBPoint \<Rightarrow> DataPacket \<Rightarrow> DataPacket) \<Rightarrow> (string \<Rightarrow> DataPacket) \<Rightarrow> string \<Rightarrow> PBPoint \<Rightarrow> (nat \<times> DataPacket) list \<Rightarrow> (nat \<times> DataPacket) list" where
  "grouped add fresh tid pt traceDatas =
     (let i = hashTraceID tid in
      AList.update i (add pt (case map_of traceDatas i of None \<Rightarrow> fresh tid | Some p \<Rightarrow> p)) traceDatas)"

definition compressGroupedPackets :: "codec \<Rightarrow> (nat \<times> DataPacket) list \<Rightarrow> (nat \<times> DataPacket) list" where
  "compressGroupedPackets cd packets = map (\<lambda>(i, p). (i, compressPacketPayload cd p)) packets"

fun pick_traces :: "codec \<Rightarrow> string \<Rightarrow> int \<Rightarrow> PBPoint list \<Rightarrow> (nat \<times> DataPacket) list \<Rightarrow> (nat \<times> DataPacket) list" where
  "pick_traces cd source version [] traceDatas = traceDatas"
| "pick_traces cd source version (pt # pts) traceDatas =
     (case trace_id pt of
        None \<Rightarrow> pick_traces cd source version pts traceDatas
      | Some tid \<Rightarrow>
          pick_traces cd source version pts (grouped (add_span cd) (new_packet source version ''tracing'' []) tid pt traceDatas))"

definition PickTrace :: "codec \<Rightarrow> string \<Rightarrow> PBPoint list \<Rightarrow> int \<Rightarrow> (nat \<times> DataPacket) list" where
  "PickTrace cd source pts version = compressGroupedPackets cd (pick_traces cd source version pts [])"

subsection \<open>pickByGroupKey\<close>

definition group_id :: "(f64 \<Rightarrow> string) \<Rightarrow> string \<Rightarrow> PBPoint \<Rightarrow> string" where
  "group_id ff groupKey pt =
     (case GetKV groupKey (pb_fields pt) of
        None \<Rightarrow> []
      | Some f \<Rightarrow> (case fVal f of None \<Rightarrow> [] | Some v \<Rightarrow> fieldToString ff v))"

definition add_point :: "codec \<Rightarrow> PBPoint \<Rightarrow> DataPacket \<Rightarrow> DataPacket" where
  "add_point cd pt packet = applySpanPredicates cd (mark_error pt (appendPointPayload packet pt)) pt"

fun pick_groups ::
  "codec \<Rightarrow> (f64 \<Rightarrow> string) \<Rightarrow> string \<Rightarrow> string \<Rightarrow> string \<Rightarrow> PBPoint list \<Rightarrow> (nat \<times> DataPacket) list \<times> PBPoint list \<Rightarrow>
     (nat \<times> DataPacket) list \<times> PBPoint list" where
  "pick_groups cd ff groupKey source category [] acc = acc"
| "pick_groups cd ff groupKey source category (pt # pts) (traceDatas, passed) =
     (let tid = group_id ff groupKey pt in
      if tid = [] then pick_groups cd ff groupKey source category pts (traceDatas, passed @ [pt])
      else pick_groups cd ff groupKey source category pts
             (grouped (add_point cd) (new_packet source 0 category groupKey) tid pt traceDatas, passed))"

definition pickByGroupKey ::
  "codec \<Rightarrow> (f64 \<Rightarrow> string) \<Rightarrow> string \<Rightarrow> string \<Rightarrow> PBPoint list \<Rightarrow> string \<Rightarrow> (nat \<times> DataPacket) list \<times> PBPoint list" where
  "pickByGroupKey cd ff groupKey source pts category =
     (case pick_groups cd ff groupKey source category pts ([], []) of (traceDatas, passed) \<Rightarrow> (compressGroupedPackets cd traceDatas, passed))"

definition PickLogging :: "codec \<Rightarrow> (f64 \<Rightarrow> string) \<Rightarrow> GroupDimension \<Rightarrow> string \<Rightarrow> PBPoint list \<Rightarrow> (nat \<times> DataPacket) list \<times> PBPoint list" where
  "PickLogging cd ff logGroup source pts = pickByGroupKey cd ff (gd_GroupKey logGroup) source pts ''logging''"

definition PickRUM :: "codec \<Rightarrow> (f64 \<Rightarrow> string) \<Rightarrow> GroupDimension \<Rightarrow> string \<Rightarrow> PBPoint list \<Rightarrow> (nat \<times> DataPacket) list \<times> PBPoint list" where
  "PickRUM cd ff rumGroup source pts = pickByGroupKey cd ff (gd_GroupKey rumGroup) source pts ''rum''"

end
