(* ===== verification/Tail_Pick_Props.thy ===== *)
theory Tail_Pick_Props
  imports Tail_Pick Tail_Merge_Props
begin

section \<open>Tail sampling: packets and their points\<close>

text \<open>Looking a value up in a point or in its decoded message makes no difference to the summary.\<close>

lemma point_get_cases:
  "point_get fs k = ptWrap_Get fs k \<or> (point_get fs k = None \<or> point_get fs k = Some (VOther ''array'')) \<and> ptWrap_Get fs k = Some VNil"
  by (auto simp: point_get_def ptWrap_Get_def any_of_val_def split: option.splits field_val.splits)

lemma point_get_string: "point_get fs k = Some (VString s) \<longleftrightarrow> ptWrap_Get fs k = Some (VString s)"
  using point_get_cases[of fs k] by auto

lemma span_point_get:
  "span_error (point_get fs) = span_error (ptWrap_Get fs)" "span_http_error (point_get fs) = span_http_error (ptWrap_Get fs)"
  "span_biz_error (point_get fs) = span_biz_error (ptWrap_Get fs)" "span_keep (point_get fs) = span_keep (ptWrap_Get fs)"
  "root_span (point_get fs) = root_span (ptWrap_Get fs)" "nonroot_span (point_get fs) = nonroot_span (ptWrap_Get fs)"
  "longer cd n (point_get fs) = longer cd n (ptWrap_Get fs)"
proof -
  show "span_error (point_get fs) = span_error (ptWrap_Get fs)" "root_span (point_get fs) = root_span (ptWrap_Get fs)"
    "nonroot_span (point_get fs) = nonroot_span (ptWrap_Get fs)"
    by (simp_all add: span_defs point_get_string)
  show "span_http_error (point_get fs) = span_http_error (ptWrap_Get fs)"
    using point_get_cases[of fs "''http_status_code''"] by (auto simp: span_defs)
  show "span_biz_error (point_get fs) = span_biz_error (ptWrap_Get fs)"
    using point_get_cases[of fs "''body_code''"] by (auto simp: span_defs)
  show "span_keep (point_get fs) = span_keep (ptWrap_Get fs)"
    using point_get_cases[of fs "''trace_keep''"] by (auto simp: span_defs)
  show "longer cd n (point_get fs) = longer cd n (ptWrap_Get fs)"
    using point_get_cases[of fs "''duration''"] by (auto simp: span_defs span_duration_def)
qed

subsection \<open>What adding points does\<close>

lemma apply_flags_keeps: "PointsPayload (apply_flags get p) = PointsPayload p" "PayloadCompression (apply_flags get p) = PayloadCompression p"
  "PointCount (apply_flags get p) = PointCount p"
  by (simp_all add: apply_flags_def)

lemma apply_keeps: "PointsPayload (applySpanPredicatesWith cd get p) = PointsPayload p"
  "PayloadCompression (applySpanPredicatesWith cd get p) = PayloadCompression p"
  "PointCount (applySpanPredicatesWith cd get p) = PointCount p"
  by (simp_all add: applySpanPredicatesWith_def apply_flags_keeps Let_def split: option.split go_any.split)

text \<open>Points added one after the other with \<open>add_span\<close>, which \<open>PickTrace\<close> uses, or \<open>add_point\<close>, which \<open>pickByGroupKey\<close> uses.\<close>

definition adds_points :: "codec \<Rightarrow> (PBPoint \<Rightarrow> DataPacket \<Rightarrow> DataPacket) \<Rightarrow> bool" where
  "adds_points cd add \<longleftrightarrow>
     (\<forall>pt p. \<exists>q. add pt p = applySpanPredicatesWith cd (point_get (pb_fields pt)) q \<and>
        PointsPayload q = PointsPayload p @ AppendMessage 1 (marshalPoint pt) \<and> PayloadCompression q = PayloadCompression p \<and>
        PointCount q = to_i32 (PointCount p + 1) \<and> copy_summary p q = q)"

lemma add_span_adds: "adds_points cd (add_span cd)"
  unfolding adds_points_def add_span_def applySpanPredicates_def
  by (intro allI exI conjI, rule refl)
    (auto simp: trace_times_def mark_error_def appendPointPayload_def AppendPointToPBPointsPayload_def copy_summary_def Let_def split: prod.split)

lemma add_point_adds: "adds_points cd (add_point cd)"
  unfolding adds_points_def add_point_def applySpanPredicates_def
  by (intro allI exI conjI, rule refl)
    (auto simp: mark_error_def appendPointPayload_def AppendPointToPBPointsPayload_def copy_summary_def)

lemma copy_summary_fields:
  assumes "copy_summary p q = q"
  shows "PredError q = PredError p" "PredHttpError q = PredHttpError p" "PredBizError q = PredBizError p" "PredTraceKeep q = PredTraceKeep p"
    "MaxSpanDurationUs q = MaxSpanDurationUs p" "RootDurationUs q = RootDurationUs p" "MaxNonrootDurationUs q = MaxNonrootDurationUs p"
  by (subst assms[symmetric], simp add: copy_summary_def)+

text \<open>\<open>holds_spans p spans\<close>: the packet has the summary of the spans.\<close>

definition summarises :: "codec \<Rightarrow> DataPacket \<Rightarrow> Point_Kvs.KVs list \<Rightarrow> bool" where
  "summarises cd p spans \<longleftrightarrow> copy_summary (summary cd spans) p = p"

lemma summary_snoc: "summary cd (spans @ [fs]) = applySpanPredicatesWith cd (ptWrap_Get fs) (summary cd spans)"
  by (simp add: summary_def)

lemma copy_summary_eqI:
  assumes "PredError q = PredError p" "PredHttpError q = PredHttpError p" "PredBizError q = PredBizError p" "PredTraceKeep q = PredTraceKeep p"
    "MaxSpanDurationUs q = MaxSpanDurationUs p" "RootDurationUs q = RootDurationUs p" "MaxNonrootDurationUs q = MaxNonrootDurationUs p"
  shows "copy_summary p q = q"
  using assms by (simp add: copy_summary_def)

lemma apply_summarises:
  assumes "summarises cd q spans"
  shows "summarises cd (applySpanPredicatesWith cd (point_get fs) q) (spans @ [fs])"
proof -
  note q = copy_summary_fields[OF assms[unfolded summarises_def]]
  have "MaxSpanDurationUs (applySpanPredicatesWith cd (point_get fs) q) = MaxSpanDurationUs (applySpanPredicatesWith cd (ptWrap_Get fs) (summary cd spans))"
    "RootDurationUs (applySpanPredicatesWith cd (point_get fs) q) = RootDurationUs (applySpanPredicatesWith cd (ptWrap_Get fs) (summary cd spans))"
    "MaxNonrootDurationUs (applySpanPredicatesWith cd (point_get fs) q) = MaxNonrootDurationUs (applySpanPredicatesWith cd (ptWrap_Get fs) (summary cd spans))"
    by (rule eq_by_less, simp add: apply_fields q span_point_get)+
  then show ?thesis
    unfolding summarises_def summary_snoc by (intro copy_summary_eqI) (simp_all add: apply_fields q span_point_get)
qed

lemma add_all:
  assumes "adds_points cd add" "summarises cd p spans"
  shows "PointsPayload (fold add pts p) = PointsPayload p @ concat (map (\<lambda>pt. AppendMessage 1 (marshalPoint pt)) pts) \<and>
    PayloadCompression (fold add pts p) = PayloadCompression p \<and>
    summarises cd (fold add pts p) (spans @ map pb_fields pts)"
  using assms(2)
proof (induction pts arbitrary: p spans)
  case (Cons pt pts)
  obtain q where q: "add pt p = applySpanPredicatesWith cd (point_get (pb_fields pt)) q"
    "PointsPayload q = PointsPayload p @ AppendMessage 1 (marshalPoint pt)" "PayloadCompression q = PayloadCompression p" "copy_summary p q = q"
    using assms(1) unfolding adds_points_def by blast
  have "summarises cd q spans"
    using copy_summary_fields[OF q(4)] copy_summary_fields[OF Cons.prems[unfolded summarises_def]]
    unfolding summarises_def by (intro copy_summary_eqI) simp_all
  from Cons.IH[OF apply_summarises[OF this, of "pb_fields pt"]] show ?case
    by (simp add: q apply_keeps)
qed simp

subsection \<open>Grouping is filtering\<close>

lemma grouped_map_of:
  "map_of (grouped add fresh tid pt m) i =
    (if i = hashTraceID tid then Some (add pt (case map_of m i of None \<Rightarrow> fresh tid | Some p \<Rightarrow> p)) else map_of m i)"
  by (simp add: grouped_def Let_def)

definition in_trace :: "nat \<Rightarrow> PBPoint \<Rightarrow> bool" where
  "in_trace i pt \<longleftrightarrow> map_option hashTraceID (trace_id pt) = Some i"

lemma pick_traces_filter:
  "map_of (pick_traces cd source version pts m) i =
    (case map_of m i of
       Some p \<Rightarrow> Some (fold (add_span cd) (filter (in_trace i) pts) p)
     | None \<Rightarrow>
         (case filter (in_trace i) pts of
            [] \<Rightarrow> None
          | pt # rest \<Rightarrow> Some (fold (add_span cd) (pt # rest) (new_packet source version ''tracing'' [] (the (trace_id pt))))))"
proof (induction pts arbitrary: m)
  case (Cons pt pts)
  show ?case
  proof (cases "trace_id pt")
    case None
    then have f: "filter (in_trace i) (pt # pts) = filter (in_trace i) pts" by (simp add: in_trace_def)
    show ?thesis unfolding f using None Cons.IH[of m] by simp
  next
    case (Some tid)
    show ?thesis
    proof (cases "i = hashTraceID tid")
      case True
      then have "in_trace i pt" using Some by (simp add: in_trace_def)
      then show ?thesis using Some True[symmetric]
        by (simp add: Cons.IH[of "grouped (add_span cd) (new_packet source version ''tracing'' []) tid pt m"] grouped_map_of split: option.split)
    next
      case False
      then have "\<not> in_trace i pt" using Some by (simp add: in_trace_def)
      then have f: "filter (in_trace i) (pt # pts) = filter (in_trace i) pts" by simp
      show ?thesis unfolding f using Some False
        by (simp add: Cons.IH[of "grouped (add_span cd) (new_packet source version ''tracing'' []) tid pt m"] grouped_map_of)
    qed
  qed
qed (simp split: option.split)

lemma compress_map_of: "map_of (compressGroupedPackets cd m) i = map_option (compressPacketPayload cd) (map_of m i)"
  by (induction m) (auto simp: compressGroupedPackets_def)

text \<open>The payload of a list of points has their messages.\<close>

lemma bodies_points:
  assumes "list_all (\<lambda>pt. length (marshalPoint pt) < 2 ^ 64) pts"
  shows "bodies (concat (map (\<lambda>pt. AppendMessage 1 (marshalPoint pt)) pts)) = (map marshalPoint pts, True)"
  using assms
proof (induction pts)
  case (Cons pt pts)
  let ?r = "concat (map (\<lambda>pt. AppendMessage 1 (marshalPoint pt)) pts)"
  have n: "NextField (AppendString 1 (marshalPoint pt) @ ?r) = Some (1, WLen (marshalPoint pt), ?r)"
    using Cons.prems by (intro NextField_append(3)) auto
  then have "AppendString 1 (marshalPoint pt) @ ?r \<noteq> []" by (cases "AppendString 1 (marshalPoint pt) @ ?r") (auto simp: NextField_slow_def read_tag_def)
  then have "bodies (AppendString 1 (marshalPoint pt) @ ?r) = (marshalPoint pt # fst (bodies ?r), snd (bodies ?r))"
    using n by (subst bodies.simps) (simp add: fc_Bytes_def split: prod.split)
  then show ?case using Cons by (simp add: AppendMessage_def)
qed (simp add: bodies.simps)

lemma compressed_spans:
  assumes "lossless cd" "PayloadCompression p = PayloadCompressionNone"
    "PointsPayload p = concat (map (\<lambda>pt. AppendMessage 1 (marshalPoint pt)) pts)"
    "list_all (\<lambda>pt. length (marshalPoint pt) < 2 ^ 64 \<and> ptWrap_Reset cd (marshalPoint pt) = Some (pb_fields pt)) pts"
    "summarises cd p spans"
  shows "has_spans cd (compressPacketPayload cd p) (map pb_fields pts) \<and> summarises cd (compressPacketPayload cd p) spans"
proof -
  obtain c kind where c: "CompressPointsPayload cd (PointsPayload p) = (c, kind)" by fastforce
  have e: "compressPacketPayload cd p = p\<lparr>PointsPayload := c, PayloadCompression := kind\<rparr>" by (simp add: compressPacketPayload_def c)
  have "packet_bodies cd (compressPacketPayload cd p) = (map marshalPoint pts, True)"
    using decompress_compressed[OF assms(1) c] bodies_points[of pts] assms(3,4) by (simp add: e packet_bodies_def list_all_iff)
  then have "has_spans cd (compressPacketPayload cd p) (map pb_fields pts)"
    using assms(4) by (simp add: has_spans_def list_all_iff)
  moreover have "summarises cd (compressPacketPayload cd p) spans"
    using copy_summary_fields[OF assms(5)[unfolded summarises_def]] unfolding summarises_def e by (intro copy_summary_eqI) simp_all
  ultimately show ?thesis ..
qed

subsection \<open>Properties\<close>

text \<open>
  C24.  Grouping loses nothing.  For every hash there is a packet exactly when a point has a trace with it; the packet has the points of
  that trace, all of them, in order, and the summary of their key-values.  Provided that the decoder reads what was written for each of
  the points, and decompression gives back what was compressed.
\<close>

theorem PickTrace_packets:
  assumes "lossless cd"
    "list_all (\<lambda>pt. length (marshalPoint pt) < 2 ^ 64 \<and> ptWrap_Reset cd (marshalPoint pt) = Some (pb_fields pt)) pts"
  shows "case map_of (PickTrace cd source pts version) i of
      None \<Rightarrow> filter (in_trace i) pts = []
    | Some p \<Rightarrow> filter (in_trace i) pts \<noteq> [] \<and> has_spans cd p (map pb_fields (filter (in_trace i) pts)) \<and>
        summarises cd p (map pb_fields (filter (in_trace i) pts))"
proof (cases "filter (in_trace i) pts")
  case Nil
  then show ?thesis by (simp add: PickTrace_def compress_map_of pick_traces_filter)
next
  case (Cons pt rest)
  let ?new = "new_packet source version ''tracing'' [] (the (trace_id pt))" and ?sel = "filter (in_trace i) pts"
  let ?p = "fold (add_span cd) ?sel ?new"
  have m: "map_of (PickTrace cd source pts version) i = Some (compressPacketPayload cd ?p)"
    using Cons by (simp add: PickTrace_def compress_map_of pick_traces_filter)
  have "summarises cd ?new []" by (simp add: summarises_def summary_def new_packet_def zero_packet_def copy_summary_def)
  from add_all[OF add_span_adds this, of ?sel] have a: "PointsPayload ?p = concat (map (\<lambda>pt. AppendMessage 1 (marshalPoint pt)) ?sel)"
    "PayloadCompression ?p = PayloadCompressionNone" "summarises cd ?p (map pb_fields ?sel)"
    by (simp_all add: new_packet_def zero_packet_def PayloadCompressionNone_def)
  have "list_all (\<lambda>pt. length (marshalPoint pt) < 2 ^ 64 \<and> ptWrap_Reset cd (marshalPoint pt) = Some (pb_fields pt)) ?sel"
    using assms(2) by (simp add: list_all_iff)
  from compressed_spans[OF assms(1) a(2,1) this a(3)] m Cons show ?thesis by simp
qed

definition ex_span :: PBPoint where
  "ex_span = \<lparr>pb_name = ''s'', pb_fields = [ex_tag ''trace_id'' (Field_S ''x'')], pb_time = 1, pb_warns = [], pb_debugs = []\<rparr>"

definition ex_pick_codec :: codec where
  "ex_pick_codec = \<lparr>EncodeAll = (\<lambda>b. b), DecodeAll = Some,
     pb_Unmarshal = (\<lambda>b. if b = marshalPoint ex_span then Some (pb_fields ex_span) else None), float_to_int = (\<lambda>f. 0)\<rparr>"

lemma ex_span_wire: "length (marshalPoint ex_span) = 28"
  by code_simp

theorem PickTrace_packets_witness:
  "\<exists>p. map_of (PickTrace ex_pick_codec [] [ex_span] 1) (hashTraceID ''x'') = Some p \<and> has_spans ex_pick_codec p [pb_fields ex_span]"
proof -
  have l: "lossless ex_pick_codec" by (simp add: lossless_def ex_pick_codec_def)
  have "marshalPoint ex_span \<noteq> []" using ex_span_wire by auto
  then have w: "list_all (\<lambda>pt. length (marshalPoint pt) < 2 ^ 64 \<and> ptWrap_Reset ex_pick_codec (marshalPoint pt) = Some (pb_fields pt)) [ex_span]"
    by (simp add: ex_span_wire ptWrap_Reset_def ex_pick_codec_def)
  have "trace_id ex_span = Some ''x''" by code_simp
  then have "in_trace (hashTraceID ''x'') ex_span" by (simp add: in_trace_def)
  with PickTrace_packets[OF l w, of "hashTraceID ''x''" "[]" 1] show ?thesis by (auto split: option.splits)
qed

end
