(* ===== verification/Go_Arith.thy ===== *)
theory Go_Arith
  imports Go_Float Go_Utf8
begin

section \<open>Go: float arithmetic, sorting of floats, trimming of strings, truncated division\<close>

text \<open>
  Arithmetic on \<open>float64\<close> rounds each exact result to the nearest float; the language lets a compiler fuse two operations, which those for amd64 do not.  The two zeros are one value; a divisor of zero counts as the positive
  one, which every divisor of the modelled code is (it is converted from an integer).  \<open>sort.Float64s\<close> puts numbers that are not
  numbers first; that makes floats a linear order.
\<close>

fun f64_add :: "f64 \<Rightarrow> f64 \<Rightarrow> f64" where
  "f64_add FNaN b = FNaN"
| "f64_add a FNaN = FNaN"
| "f64_add (FInf s) (FInf t) = (if s = t then FInf s else FNaN)"
| "f64_add (FInf s) (FFin q) = FInf s"
| "f64_add (FFin q) (FInf t) = FInf t"
| "f64_add (FFin p) (FFin q) = f64_of_rat (p + q)"

fun f64_times :: "f64 \<Rightarrow> f64 \<Rightarrow> f64" where
  "f64_times FNaN b = FNaN"
| "f64_times a FNaN = FNaN"
| "f64_times (FInf s) (FInf t) = FInf (s = t)"
| "f64_times (FInf s) (FFin q) = (if q = 0 then FNaN else FInf (s = (q > 0)))"
| "f64_times (FFin q) (FInf t) = (if q = 0 then FNaN else FInf (t = (q > 0)))"
| "f64_times (FFin p) (FFin q) = f64_of_rat (p * q)"

fun f64_div :: "f64 \<Rightarrow> f64 \<Rightarrow> f64" where
  "f64_div FNaN b = FNaN"
| "f64_div a FNaN = FNaN"
| "f64_div (FInf s) (FInf t) = FNaN"
| "f64_div (FInf s) (FFin q) = FInf (s = (q \<ge> 0))"
| "f64_div (FFin q) (FInf t) = FFin 0"
| "f64_div (FFin p) (FFin q) = (if q = 0 then if p = 0 then FNaN else FInf (p > 0) else f64_of_rat (p / q))"

text \<open>\<open>float64(i)\<close>.\<close>

definition f64_of_int :: "int \<Rightarrow> f64" where
  "f64_of_int i = f64_of_rat (of_int i)"

lemma f64_add_commute: "f64_add a b = f64_add b a"
  by (cases a; cases b) (auto simp: add.commute)

subsection \<open>The order of sort.Float64s\<close>

instantiation f64 :: linorder
begin

definition less_f64 :: "f64 \<Rightarrow> f64 \<Rightarrow> bool" where
  "less_f64 a b \<longleftrightarrow> f64_lt a b \<or> a = FNaN \<and> b \<noteq> FNaN"

definition less_eq_f64 :: "f64 \<Rightarrow> f64 \<Rightarrow> bool" where
  "less_eq_f64 a b \<longleftrightarrow> a = b \<or> a < b"

instance
proof
  fix x y z :: f64
  show "(x < y) = (x \<le> y \<and> \<not> y \<le> x)" by (cases x; cases y) (auto simp: less_f64_def less_eq_f64_def)
  show "x \<le> x" by (simp add: less_eq_f64_def)
  show "x \<le> y \<Longrightarrow> y \<le> z \<Longrightarrow> x \<le> z" by (cases x; cases y; cases z) (auto simp: less_f64_def less_eq_f64_def)
  show "x \<le> y \<Longrightarrow> y \<le> x \<Longrightarrow> x = y" by (cases x; cases y) (auto simp: less_f64_def less_eq_f64_def)
  show "x \<le> y \<or> y \<le> x" by (cases x; cases y) (auto simp: less_f64_def less_eq_f64_def)
qed

end

lemma f64_lt_less: "a \<noteq> FNaN \<Longrightarrow> f64_lt a b \<longleftrightarrow> a < b"
  by (cases a; cases b) (auto simp: less_f64_def)

subsection \<open>Division of integers\<close>

text \<open>\<open>a / b\<close> rounds towards zero.\<close>

definition go_quot :: "int \<Rightarrow> int \<Rightarrow> int" where
  "go_quot a b = (if (a < 0) = (b < 0) then \<bar>a\<bar> div \<bar>b\<bar> else - (\<bar>a\<bar> div \<bar>b\<bar>))"

subsection \<open>strings.TrimSpace\<close>

definition unicode_IsSpace :: "rune \<Rightarrow> bool" where
  "unicode_IsSpace r \<longleftrightarrow> r \<in> {9, 10, 11, 12, 13, 32, 133, 160, 5760, 8232, 8233, 8239, 8287, 12288} \<or> 8192 \<le> r \<and> r \<le> 8202"

text \<open>\<open>RuneStart\<close>: not a continuation byte.\<close>

definition RuneStart :: "char \<Rightarrow> bool" where
  "RuneStart c \<longleftrightarrow> \<not> in_bytes 128 191 (byte c)"

text \<open>The start of the last rune: the last of the final four bytes that can start one.\<close>

definition DecodeLastRune :: "string \<Rightarrow> rune \<times> nat" where
  "DecodeLastRune s =
     (let n = length s in
      if n = 0 then (RuneError, 0)
      else case find (\<lambda>k. RuneStart (s ! (n - k))) [1..<Suc (min 4 n)] of
             None \<Rightarrow> (RuneError, 1)
           | Some k \<Rightarrow> (case DecodeRune (drop (n - k) s) of (r, w) \<Rightarrow> if w = k then (r, w) else (RuneError, 1)))"

lemma DecodeLastRune_width:
  assumes "s \<noteq> []"
  shows "0 < snd (DecodeLastRune s) \<and> snd (DecodeLastRune s) \<le> length s"
proof -
  have n: "0 < length s" using assms by simp
  show ?thesis
  proof (cases "find (\<lambda>k. RuneStart (s ! (length s - k))) [1..<Suc (min 4 (length s))]")
    case None
    with assms show ?thesis by (simp add: DecodeLastRune_def Let_def Suc_le_eq del: upt_Suc)
  next
    case (Some k)
    then have "k \<in> set [1..<Suc (min 4 (length s))]" by (metis find_Some_iff nth_mem)
    then have k: "0 < k" "k \<le> length s" by auto
    obtain r w where d: "DecodeRune (drop (length s - k) s) = (r, w)" by (cases "DecodeRune (drop (length s - k) s)")
    from Some d k n show ?thesis by (cases "w = k") (simp_all add: DecodeLastRune_def Let_def del: upt_Suc)
  qed
qed

function trim_left :: "string \<Rightarrow> string" where
  "trim_left s = (if s \<noteq> [] \<and> unicode_IsSpace (fst (DecodeRune s)) then trim_left (drop (snd (DecodeRune s)) s) else s)"
  by pat_completeness auto
termination
  by (relation "measure length") (use DecodeRune_width in \<open>simp_all add: diff_less\<close>)

function trim_right :: "string \<Rightarrow> string" where
  "trim_right s =
     (if s \<noteq> [] \<and> unicode_IsSpace (fst (DecodeLastRune s)) then trim_right (take (length s - snd (DecodeLastRune s)) s) else s)"
  by pat_completeness auto
termination
  by (relation "measure length") (use DecodeLastRune_width in \<open>simp_all add: diff_less\<close>)

declare trim_left.simps [simp del] trim_right.simps [simp del]

definition TrimSpace :: "string \<Rightarrow> string" where
  "TrimSpace s = trim_right (trim_left s)"

text \<open>\<open>strings.ToLower\<close>; \<open>lower\<close> stands for the case tables of Unicode, which only text with other letters needs.\<close>

definition ascii_lower :: "char \<Rightarrow> char" where
  "ascii_lower c = (if CHR ''A'' \<le> c \<and> c \<le> CHR ''Z'' then char_of (of_char c + 32 :: nat) else c)"

definition strings_ToLower :: "(string \<Rightarrow> string) \<Rightarrow> string \<Rightarrow> string" where
  "strings_ToLower lower s = (if list_all (\<lambda>c. byte c < 128) s then map ascii_lower s else lower s)"

end
