(* ===== verification/Aggr_Calc.thy ===== *)
theory Aggr_Calc
  imports Go_Arith Tail_Pick
begin

section \<open>Metric aggregation: calculators (aggregate/metricbase.go, algo\_*.go)\<close>

text \<open>
  A calculator keeps the aggregate of one metric in one time window.  Each algorithm of the source is a constructor with the fields of its struct; the
  method \<open>Add\<close> of an algorithm ignores calculators of another one.  What comes from elsewhere is collected in \<open>lib\<close>: the marshaller,
  encoding, clock and configuration of new points, \<open>xxhash\<close>, logarithm and root, how floats are printed, and the decoding of arrays (as text and as a value).
  Maps are association lists, in the order in which they are iterated; a result that depends on it says so.  Counters are \<open>int64\<close>.
\<close>

record lib =
  l_mk :: marshal
  l_pb :: bool
  l_now :: int
  l_cfg :: "cfg option"
  l_xx :: "string \<Rightarrow> 64 word"
  l_log :: "f64 \<Rightarrow> f64"
  l_sqrt :: "f64 \<Rightarrow> f64"
  l_float :: "f64 \<Rightarrow> string"
  l_array :: "pb_any \<Rightarrow> string option"
  l_raw :: "pb_any \<Rightarrow> raw"
  l_lower :: "string \<Rightarrow> string"
  l_codec :: codec

subsection \<open>What calculators have in common\<close>

record MetricBase =
  mb_pt :: PBPoint
  aggrTags :: "(string \<times> string) list"
  mb_key :: string
  mb_name :: string
  mb_hash :: "64 word"
  mb_window :: int
  nextWallTime :: int
  heapIdx :: int

text \<open>The point is there: only \<open>newCalculators\<close> makes calculators.\<close>

definition build :: "MetricBase \<Rightarrow> MetricBase" where
  "build mb = mb\<lparr>aggrTags := aggrTags mb @ map (\<lambda>kv. (fKey kv, GetS kv)) (filter fIsTag (pb_fields (mb_pt mb)))\<rparr>"

datatype Calculator =
    algoMax (Base: MetricBase) (maxTime: int) (cnt: int) f64
  | algoMin (Base: MetricBase) (maxTime: int) (cnt: int) f64
  | algoSum (Base: MetricBase) (delta: f64) (maxTime: int) (cnt: int)
  | algoAvg (Base: MetricBase) (delta: f64) (maxTime: int) (cnt: int)
  | algoCount (Base: MetricBase) (maxTime: int) (cnt: int)
  | algoHistogram (Base: MetricBase) (cnt: int) f64 (leBucket: "(string \<times> f64) list") (maxTime: int)
  | algoQuantiles (Base: MetricBase) (maxTime: int) (all: "f64 list") (cnt: int) (quantiles: "f64 list")
  | algoStdev (Base: MetricBase) (cnt: int) (mean: f64) (m2: f64) (maxTime: int)
  | algoCountDistinct (Base: MetricBase) (maxTime: int) (distinctValues: "64 word list") (sketch: "64 word list option")
  | algoCountLast (Base: MetricBase) f64 int (cnt: int)
  | algoCountFirst (Base: MetricBase) f64 int (cnt: int)

text \<open>\<open>Base().f()\<close> changes the calculator it is called on.\<close>

fun on_base :: "(MetricBase \<Rightarrow> MetricBase) \<Rightarrow> Calculator \<Rightarrow> Calculator" where
  "on_base f (algoMax b t n x) = algoMax (f b) t n x"
| "on_base f (algoMin b t n x) = algoMin (f b) t n x"
| "on_base f (algoSum b d t n) = algoSum (f b) d t n"
| "on_base f (algoAvg b d t n) = algoAvg (f b) d t n"
| "on_base f (algoCount b t n) = algoCount (f b) t n"
| "on_base f (algoHistogram b n v le t) = algoHistogram (f b) n v le t"
| "on_base f (algoQuantiles b t xs n qs) = algoQuantiles (f b) t xs n qs"
| "on_base f (algoStdev b n m s t) = algoStdev (f b) n m s t"
| "on_base f (algoCountDistinct b t dv sk) = algoCountDistinct (f b) t dv sk"
| "on_base f (algoCountLast b x t n) = algoCountLast (f b) x t n"
| "on_base f (algoCountFirst b x t n) = algoCountFirst (f b) x t n"

lemma Base_on_base [simp]: "Base (on_base f c) = f (Base c)"
  by (cases c) auto

text \<open>The name an algorithm is hashed under.\<close>

fun algo_name :: "Calculator \<Rightarrow> string" where
  "algo_name (algoMax b t n x) = ''max''"
| "algo_name (algoMin b t n x) = ''min''"
| "algo_name (algoSum b d t n) = ''sum''"
| "algo_name (algoAvg b d t n) = ''avg''"
| "algo_name (algoCount b t n) = ''count''"
| "algo_name (algoHistogram b n v le t) = ''histogram''"
| "algo_name (algoQuantiles b t xs n qs) = ''quantiles''"
| "algo_name (algoStdev b n m s t) = ''stdev''"
| "algo_name (algoCountDistinct b t dv sk) = ''count_distinct''"
| "algo_name (algoCountLast b x t n) = ''last''"
| "algo_name (algoCountFirst b x t n) = ''first''"

definition doHash :: "lib \<Rightarrow> 64 word \<Rightarrow> Calculator \<Rightarrow> Calculator" where
  "doHash l h1 c =
     (let h = HashCombine h1 (l_xx l (algo_name c));
          h2 = HashCombine h (l_xx l (mb_key (Base c)))
      in on_base (\<lambda>b. b\<lparr>mb_hash := HashCombine h2 (l_xx l (mb_name b))\<rparr>) c)"

subsection \<open>Distinct values\<close>

definition countDistinctExactLimit :: nat where "countDistinctExactLimit = 4096"
definition countDistinctSketchBits :: nat where "countDistinctSketchBits = 2 ^ 18"

definition addSketchHash :: "64 word \<Rightarrow> 64 word list \<Rightarrow> 64 word list" where
  "addSketchHash hash sk =
     (let idx = unat hash mod countDistinctSketchBits
      in sk[idx div 64 := or (sk ! (idx div 64)) (push_bit (idx mod 64) 1)])"

type_synonym distinct_state = "64 word list \<times> 64 word list option"

definition ensureSketch :: "distinct_state \<Rightarrow> distinct_state" where
  "ensureSketch c =
     (case c of
        (dv, Some sk) \<Rightarrow> (dv, Some sk)
      | (dv, None) \<Rightarrow> ([], Some (fold addSketchHash dv (replicate (countDistinctSketchBits div 64) 0))))"

definition addHash :: "64 word \<Rightarrow> distinct_state \<Rightarrow> distinct_state" where
  "addHash hash c =
     (case c of
        (dv, Some sk) \<Rightarrow> (dv, Some (addSketchHash hash sk))
      | (dv, None) \<Rightarrow>
          (if hash \<in> set dv then (dv, None)
           else if length dv < countDistinctExactLimit then (dv @ [hash], None)
           else (case ensureSketch c of (dv1, sk1) \<Rightarrow> (dv1, map_option (addSketchHash hash) sk1))))"

text \<open>Joining with another state: a sketch is merged word by word.\<close>

definition join_distinct :: "distinct_state \<Rightarrow> distinct_state \<Rightarrow> distinct_state" where
  "join_distinct c inst =
     (case inst of
        (dv, Some isk) \<Rightarrow> (case ensureSketch c of (dv1, sk1) \<Rightarrow> (dv1, map_option (\<lambda>sk. map2 or sk isk) sk1))
      | (dv, None) \<Rightarrow> fold addHash dv c)"

definition zeroBits :: "64 word list \<Rightarrow> nat" where
  "zeroBits sk = sum_list (map (\<lambda>word. length (filter (\<lambda>b. \<not> bit word b) [0..<64])) sk)"

definition distinct_count :: "lib \<Rightarrow> distinct_state \<Rightarrow> int" where
  "distinct_count l c =
     (case c of
        (dv, None) \<Rightarrow> int (length dv)
      | (dv, Some sk) \<Rightarrow>
          (if zeroBits sk = 0 then int countDistinctSketchBits
           else let m = f64_of_int (int countDistinctSketchBits);
                    estimate = f64_times (f64_neg m) (l_log l (f64_div (f64_of_int (int (zeroBits sk))) m))
                in int_of_float (l_codec l) (f64_add estimate (FFin (1 / 2)))))"

text \<open>\<open>fmt.Fprintf(h, "%T:%v", value, value)\<close> and FNV.\<close>

definition fmt_bytes :: "bytes \<Rightarrow> string" where
  "fmt_bytes b = ''['' @ concat (map (\<lambda>(i, c). (if i = 0 then [] else '' '') @ fmt_d (byte c)) (enumerate 0 b)) @ '']''"

fun distinct_text :: "lib \<Rightarrow> field_val \<Rightarrow> string" where
  "distinct_text l (Field_I i) = ''int64:'' @ fmt_d i"
| "distinct_text l (Field_U i) = ''uint64:'' @ fmt_d i"
| "distinct_text l (Field_F x) = ''float64:'' @ l_float l x"
| "distinct_text l (Field_B b) = ''bool:'' @ (if b then ''true'' else ''false'')"
| "distinct_text l (Field_D d) = ''[]uint8:'' @ fmt_bytes d"
| "distinct_text l (Field_S s) = ''string:'' @ s"
| "distinct_text l (Field_A a) = (case l_array l a of Some t \<Rightarrow> t | None \<Rightarrow> [])"

definition hashDistinctValue :: "lib \<Rightarrow> field_val \<Rightarrow> 64 word" where
  "hashDistinctValue l value = fnv64a (distinct_text l value)"

definition newAlgoCountDistinct :: "lib \<Rightarrow> MetricBase \<Rightarrow> int \<Rightarrow> field_val \<Rightarrow> Calculator" where
  "newAlgoCountDistinct l mb t value =
     (case addHash (hashDistinctValue l value) ([], None) of (dv, sk) \<Rightarrow> algoCountDistinct mb t dv sk)"

subsection \<open>Quantiles\<close>

definition quantileSampleLimit :: nat where "quantileSampleLimit = 8192"
definition Seed1 :: "64 word" where "Seed1 = 0x9E3779B97F4A7C15"

text \<open>The sample and the number of values seen.\<close>

definition sample_add :: "f64 \<Rightarrow> f64 list \<times> int \<Rightarrow> f64 list \<times> int" where
  "sample_add v a =
     (case a of (xs, n) \<Rightarrow>
        let n1 = to_i64 (n + 1) in
        if length xs < quantileSampleLimit then (xs @ [v], n1)
        else let j = unat (HashCombine Seed1 (of_int n1)) mod unat (of_int n1 :: 64 word)
             in if j < quantileSampleLimit then (xs[j := v], n1) else (xs, n1))"

definition newAlgoQuantiles :: "MetricBase \<Rightarrow> int \<Rightarrow> f64 \<Rightarrow> Calculator" where
  "newAlgoQuantiles mb t value = (case sample_add value ([], 0) of (xs, n) \<Rightarrow> algoQuantiles mb t xs n [])"

text \<open>\<open>None\<close> is an index out of range.\<close>

definition percentileFromSorted :: "lib \<Rightarrow> f64 list \<Rightarrow> f64 \<Rightarrow> f64 option" where
  "percentileFromSorted l xs p =
     (let n = length xs in
      if n = 0 then Some (FFin 0)
      else let fraction = f64_div p (FFin 100);
               pos = f64_times fraction (f64_of_int (int n - 1));
               index = int_of_float (l_codec l) pos;
               rest = f64_sub pos (f64_of_int index)
           in if index \<ge> int n - 1 then Some (xs ! (n - 1))
              else if index < 0 then None
              else Some (f64_add (xs ! nat index)
                           (f64_times rest (f64_sub (xs ! (nat index + 1)) (xs ! nat index)))))"

text \<open>\<open>%.0f\<close>: the nearest integer, ties to even.\<close>

fun fmt_f0 :: "f64 \<Rightarrow> string" where
  "fmt_f0 FNaN = ''NaN''"
| "fmt_f0 (FInf s) = (if s then ''+Inf'' else ''-Inf'')"
| "fmt_f0 (FFin q) = (if q < 0 then ''-'' else []) @ fmt_d (round_even \<bar>q\<bar>)"

definition quantile_key :: "string \<Rightarrow> f64 \<Rightarrow> string" where
  "quantile_key k q = k @ ''_P'' @ fmt_f0 (f64_times q (FFin 100))"

fun quantile_kvs :: "lib \<Rightarrow> string \<Rightarrow> f64 list \<Rightarrow> f64 list \<Rightarrow> Point_Kvs.KVs \<Rightarrow> Point_Kvs.KVs option" where
  "quantile_kvs l k xs [] kvs = Some kvs"
| "quantile_kvs l k xs (q # qs) kvs =
     (case percentileFromSorted l xs (f64_times q (FFin 100)) of
        None \<Rightarrow> None
      | Some v \<Rightarrow> quantile_kvs l k xs qs (AddVal (l_mk l) (quantile_key k q) (RawFloat v) [] kvs))"

subsection \<open>Standard deviation\<close>

text \<open>Number of values, their mean, and the sum of the squared differences from it.\<close>

definition stdev_add :: "f64 \<Rightarrow> int \<times> f64 \<times> f64 \<Rightarrow> int \<times> f64 \<times> f64" where
  "stdev_add value c =
     (case c of (n, mn, s) \<Rightarrow>
        let n1 = to_i64 (n + 1);
            d = f64_sub value mn;
            mn1 = f64_add mn (f64_div d (f64_of_int n1));
            d2 = f64_sub value mn1
        in (n1, mn1, f64_add s (f64_times d d2)))"

definition newAlgoStdev :: "MetricBase \<Rightarrow> int \<Rightarrow> f64 \<Rightarrow> Calculator" where
  "newAlgoStdev mb t value = (case stdev_add value (0, FFin 0, FFin 0) of (n, mn, s) \<Rightarrow> algoStdev mb n mn s t)"

definition stdev_join :: "int \<times> f64 \<times> f64 \<Rightarrow> int \<times> f64 \<times> f64 \<Rightarrow> int \<times> f64 \<times> f64" where
  "stdev_join c inst =
     (case c of (n, mn, s) \<Rightarrow> case inst of (ni, mi, si) \<Rightarrow>
        if n = 0 then (ni, mi, si)
        else let d = f64_sub mi mn;
                 t = to_i64 (n + ni)
             in (t, f64_add mn (f64_div (f64_times d (f64_of_int ni)) (f64_of_int t)),
                 f64_add s (f64_add si
                   (f64_div (f64_times (f64_times (f64_times d d) (f64_of_int n)) (f64_of_int ni)) (f64_of_int t)))))"

definition stdev_SampleStdDev :: "lib \<Rightarrow> int \<Rightarrow> f64 \<Rightarrow> f64 option" where
  "stdev_SampleStdDev l n s = (if n < 2 then None else Some (l_sqrt l (f64_div s (f64_of_int (n - 1)))))"

text \<open>The function on a slice.\<close>

definition SampleStdDev :: "lib \<Rightarrow> f64 list \<Rightarrow> f64 option" where
  "SampleStdDev l data =
     (let n = length data in
      if n < 2 then None
      else let mn = f64_div (foldl f64_add (FFin 0) data) (f64_of_int (int n));
               sq = foldl (\<lambda>acc v. let diff = f64_sub v mn in f64_add acc (f64_times diff diff)) (FFin 0) data
           in Some (l_sqrt l (f64_div sq (f64_of_int (int n - 1)))))"

subsection \<open>Add\<close>

abbreviation inc :: "int \<Rightarrow> int" where "inc n \<equiv> to_i64 (n + 1)"

text \<open>\<open>leBucket[le] += val\<close>; a missing key counts as zero.\<close>

definition bucket_add :: "string \<Rightarrow> f64 \<Rightarrow> (string \<times> f64) list \<Rightarrow> (string \<times> f64) list" where
  "bucket_add le v bs = AList.update le (f64_add (case map_of bs le of Some x \<Rightarrow> x | None \<Rightarrow> FFin 0) v) bs"

definition algoMax_Add :: "MetricBase \<Rightarrow> int \<Rightarrow> int \<Rightarrow> f64 \<Rightarrow> Calculator \<Rightarrow> Calculator" where [simp]:
  "algoMax_Add b t n x inst =
     (case inst of
        algoMax b' t' n' x' \<Rightarrow> algoMax b (if t < t' then t' else t) (inc n) (if f64_lt x x' then x' else x)
      | _ \<Rightarrow> algoMax b t n x)"

definition algoMin_Add :: "MetricBase \<Rightarrow> int \<Rightarrow> int \<Rightarrow> f64 \<Rightarrow> Calculator \<Rightarrow> Calculator" where [simp]:
  "algoMin_Add b t n x inst =
     (case inst of
        algoMin b' t' n' x' \<Rightarrow> algoMin b (if t' > t then t' else t) (inc n) (if f64_lt x' x then x' else x)
      | _ \<Rightarrow> algoMin b t n x)"

definition algoSum_Add :: "MetricBase \<Rightarrow> f64 \<Rightarrow> int \<Rightarrow> int \<Rightarrow> Calculator \<Rightarrow> Calculator" where [simp]:
  "algoSum_Add b d t n inst =
     (case inst of
        algoSum b' d' t' n' \<Rightarrow> algoSum b (f64_add d d') (if t' > t then t' else t) (inc n)
      | _ \<Rightarrow> algoSum b d t n)"

definition algoAvg_Add :: "MetricBase \<Rightarrow> f64 \<Rightarrow> int \<Rightarrow> int \<Rightarrow> Calculator \<Rightarrow> Calculator" where [simp]:
  "algoAvg_Add b d t n inst =
     (case inst of
        algoAvg b' d' t' n' \<Rightarrow> algoAvg b (f64_add d d') (if t' > t then t' else t) (inc n)
      | _ \<Rightarrow> algoAvg b d t n)"

definition algoCount_Add :: "MetricBase \<Rightarrow> int \<Rightarrow> int \<Rightarrow> Calculator \<Rightarrow> Calculator" where [simp]:
  "algoCount_Add b t n inst =
     (case inst of algoCount b' t' n' \<Rightarrow> algoCount b (if t' > t then t' else t) (inc n) | _ \<Rightarrow> algoCount b t n)"

definition algoHistogram_Add :: "MetricBase \<Rightarrow> int \<Rightarrow> f64 \<Rightarrow> (string \<times> f64) list \<Rightarrow> int \<Rightarrow> Calculator \<Rightarrow> Calculator" where [simp]:
  "algoHistogram_Add b n v le t inst =
     (case inst of
        algoHistogram b' n' v' le' t' \<Rightarrow>
          (let k = GetTag ''le'' (pb_fields (mb_pt b'))
           in algoHistogram b (inc n) v (if k \<noteq> [] then bucket_add k v' le else le) (if t' > t then t' else t))
      | _ \<Rightarrow> algoHistogram b n v le t)"

definition algoQuantiles_Add :: "MetricBase \<Rightarrow> int \<Rightarrow> f64 list \<Rightarrow> int \<Rightarrow> f64 list \<Rightarrow> Calculator \<Rightarrow> Calculator" where [simp]:
  "algoQuantiles_Add b t xs n qs inst =
     (case inst of
        algoQuantiles b' t' xs' n' qs' \<Rightarrow>
          (case fold sample_add xs' (xs, n) of (xs1, n1) \<Rightarrow>
             let missing = to_i64 (n' - to_i64 (n1 - n))
             in algoQuantiles b (if t' > t then t' else t) xs1 (if missing > 0 then to_i64 (n1 + missing) else n1) qs)
      | _ \<Rightarrow> algoQuantiles b t xs n qs)"

definition algoStdev_Add :: "MetricBase \<Rightarrow> int \<Rightarrow> f64 \<Rightarrow> f64 \<Rightarrow> int \<Rightarrow> Calculator \<Rightarrow> Calculator" where [simp]:
  "algoStdev_Add b n mn s t inst =
     (case inst of
        algoStdev b' n' mn' s' t' \<Rightarrow>
          (if n' = 0 then algoStdev b n mn s t
           else case stdev_join (n, mn, s) (n', mn', s') of (n1, mn1, s1) \<Rightarrow> algoStdev b n1 mn1 s1 (if t' > t then t' else t))
      | _ \<Rightarrow> algoStdev b n mn s t)"

definition algoCountDistinct_Add :: "MetricBase \<Rightarrow> int \<Rightarrow> 64 word list \<Rightarrow> 64 word list option \<Rightarrow> Calculator \<Rightarrow> Calculator" where [simp]:
  "algoCountDistinct_Add b t dv sk inst =
     (case inst of
        algoCountDistinct b' t' dv' sk' \<Rightarrow>
          (case join_distinct (dv, sk) (dv', sk') of (dv1, sk1) \<Rightarrow> algoCountDistinct b (if t' > t then t' else t) dv1 sk1)
      | _ \<Rightarrow> algoCountDistinct b t dv sk)"

definition algoCountLast_Add :: "MetricBase \<Rightarrow> f64 \<Rightarrow> int \<Rightarrow> int \<Rightarrow> Calculator \<Rightarrow> Calculator" where [simp]:
  "algoCountLast_Add b x t n inst =
     (case inst of
        algoCountLast b' x' t' n' \<Rightarrow> if t' > t then algoCountLast b x' t' (inc n) else algoCountLast b x t (inc n)
      | _ \<Rightarrow> algoCountLast b x t n)"

definition algoCountFirst_Add :: "MetricBase \<Rightarrow> f64 \<Rightarrow> int \<Rightarrow> int \<Rightarrow> Calculator \<Rightarrow> Calculator" where [simp]:
  "algoCountFirst_Add b x t n inst =
     (case inst of
        algoCountFirst b' x' t' n' \<Rightarrow>
          if t = 0 \<or> t' < t then algoCountFirst b x' t' (inc n) else algoCountFirst b x t (inc n)
      | _ \<Rightarrow> algoCountFirst b x t n)"

fun Add :: "Calculator \<Rightarrow> Calculator \<Rightarrow> Calculator" where
  "Add (algoMax b t n x) inst = algoMax_Add b t n x inst"
| "Add (algoMin b t n x) inst = algoMin_Add b t n x inst"
| "Add (algoSum b d t n) inst = algoSum_Add b d t n inst"
| "Add (algoAvg b d t n) inst = algoAvg_Add b d t n inst"
| "Add (algoCount b t n) inst = algoCount_Add b t n inst"
| "Add (algoHistogram b n v le t) inst = algoHistogram_Add b n v le t inst"
| "Add (algoQuantiles b t xs n qs) inst = algoQuantiles_Add b t xs n qs inst"
| "Add (algoStdev b n mn s t) inst = algoStdev_Add b n mn s t inst"
| "Add (algoCountDistinct b t dv sk) inst = algoCountDistinct_Add b t dv sk inst"
| "Add (algoCountLast b x t n) inst = algoCountLast_Add b x t n inst"
| "Add (algoCountFirst b x t n) inst = algoCountFirst_Add b x t n inst"

lemma Base_Add [simp]: "Base (Add c x) = Base c"
  by (cases c) (auto simp: Let_def split: Calculator.split prod.split)

text \<open>\<open>Reset\<close> keeps the base, and the single value of a histogram and the quantiles asked for.\<close>

definition algoMax_Reset :: "MetricBase \<Rightarrow> int \<Rightarrow> int \<Rightarrow> f64 \<Rightarrow> Calculator" where [simp]:
  "algoMax_Reset b t n x = algoMax b 0 0 (FFin 0)"

definition algoMin_Reset :: "MetricBase \<Rightarrow> int \<Rightarrow> int \<Rightarrow> f64 \<Rightarrow> Calculator" where [simp]:
  "algoMin_Reset b t n x = algoMin b 0 0 (FFin 0)"

definition algoSum_Reset :: "MetricBase \<Rightarrow> f64 \<Rightarrow> int \<Rightarrow> int \<Rightarrow> Calculator" where [simp]:
  "algoSum_Reset b d t n = algoSum b (FFin 0) 0 0"

definition algoAvg_Reset :: "MetricBase \<Rightarrow> f64 \<Rightarrow> int \<Rightarrow> int \<Rightarrow> Calculator" where [simp]:
  "algoAvg_Reset b d t n = algoAvg b (FFin 0) 0 0"

definition algoCount_Reset :: "MetricBase \<Rightarrow> int \<Rightarrow> int \<Rightarrow> Calculator" where [simp]:
  "algoCount_Reset b t n = algoCount b 0 0"

definition algoHistogram_Reset :: "MetricBase \<Rightarrow> int \<Rightarrow> f64 \<Rightarrow> (string \<times> f64) list \<Rightarrow> int \<Rightarrow> Calculator" where [simp]:
  "algoHistogram_Reset b n v le t = algoHistogram b 0 v [] 0"

definition algoQuantiles_Reset :: "MetricBase \<Rightarrow> int \<Rightarrow> f64 list \<Rightarrow> int \<Rightarrow> f64 list \<Rightarrow> Calculator" where [simp]:
  "algoQuantiles_Reset b t xs n qs = algoQuantiles b 0 [] 0 qs"

definition algoStdev_Reset :: "MetricBase \<Rightarrow> int \<Rightarrow> f64 \<Rightarrow> f64 \<Rightarrow> int \<Rightarrow> Calculator" where [simp]:
  "algoStdev_Reset b n mn s t = algoStdev b 0 (FFin 0) (FFin 0) 0"

definition algoCountDistinct_Reset :: "MetricBase \<Rightarrow> int \<Rightarrow> 64 word list \<Rightarrow> 64 word list option \<Rightarrow> Calculator" where [simp]:
  "algoCountDistinct_Reset b t dv sk = algoCountDistinct b 0 [] None"

definition algoCountLast_Reset :: "MetricBase \<Rightarrow> f64 \<Rightarrow> int \<Rightarrow> int \<Rightarrow> Calculator" where [simp]:
  "algoCountLast_Reset b x t n = algoCountLast b (FFin 0) 0 0"

definition algoCountFirst_Reset :: "MetricBase \<Rightarrow> f64 \<Rightarrow> int \<Rightarrow> int \<Rightarrow> Calculator" where [simp]:
  "algoCountFirst_Reset b x t n = algoCountFirst b (FFin 0) 0 0"

fun Reset :: "Calculator \<Rightarrow> Calculator" where
  "Reset (algoMax b t n x) = algoMax_Reset b t n x"
| "Reset (algoMin b t n x) = algoMin_Reset b t n x"
| "Reset (algoSum b d t n) = algoSum_Reset b d t n"
| "Reset (algoAvg b d t n) = algoAvg_Reset b d t n"
| "Reset (algoCount b t n) = algoCount_Reset b t n"
| "Reset (algoHistogram b n v le t) = algoHistogram_Reset b n v le t"
| "Reset (algoQuantiles b t xs n qs) = algoQuantiles_Reset b t xs n qs"
| "Reset (algoStdev b n mn s t) = algoStdev_Reset b n mn s t"
| "Reset (algoCountDistinct b t dv sk) = algoCountDistinct_Reset b t dv sk"
| "Reset (algoCountLast b x t n) = algoCountLast_Reset b x t n"
| "Reset (algoCountFirst b x t n) = algoCountFirst_Reset b x t n"

subsection \<open>Aggr\<close>

definition set_tags :: "lib \<Rightarrow> (string \<times> string) list \<Rightarrow> Point_Kvs.KVs \<Rightarrow> Point_Kvs.KVs" where
  "set_tags l tags kvs = fold (\<lambda>(k, v). SetTag (l_mk l) k v) tags kvs"

definition new_point :: "lib \<Rightarrow> string \<Rightarrow> Point_Kvs.KVs \<Rightarrow> int \<Rightarrow> Point option" where
  "new_point l name kvs t = NewPoint (l_mk l) (l_pb l) (l_now l) (l_cfg l) name kvs [WithTimestamp t]"

text \<open>A point with a value, a count and the tags.\<close>

definition value_point :: "lib \<Rightarrow> MetricBase \<Rightarrow> raw \<Rightarrow> int \<Rightarrow> int \<Rightarrow> Point option" where
  "value_point l b v n t =
     new_point l (mb_name b)
       (set_tags l (aggrTags b) (AddVal (l_mk l) (mb_key b @ ''_count'') (RawInt n) [] (AddVal (l_mk l) (mb_key b) v [] []))) t"

definition bucket_point :: "lib \<Rightarrow> MetricBase \<Rightarrow> int \<Rightarrow> string \<times> f64 \<Rightarrow> Point option" where
  "bucket_point l b t e =
     (case e of (le, f) \<Rightarrow>
        new_point l (mb_name b)
          (set_tags l (aggrTags b) (AddVal (l_mk l) (mb_key b) (RawFloat f) [] (AddTag (l_mk l) ''le'' le []))) t)"

definition count_point :: "lib \<Rightarrow> MetricBase \<Rightarrow> int \<Rightarrow> int \<Rightarrow> Point option" where
  "count_point l b n t =
     new_point l (mb_name b) (set_tags l (aggrTags b) (AddVal (l_mk l) (mb_key b @ ''_count'') (RawInt n) [] [])) t"

text \<open>The outer \<open>None\<close> is a panic, the inner one the error of a deviation of less than two values.\<close>

type_synonym aggr_result = "Point list option option"

definition one_point :: "Point option \<Rightarrow> aggr_result" where
  "one_point p = map_option (\<lambda>x. Some [x]) p"

definition algoMax_Aggr :: "lib \<Rightarrow> MetricBase \<Rightarrow> int \<Rightarrow> int \<Rightarrow> f64 \<Rightarrow> aggr_result" where [simp]:
  "algoMax_Aggr l b t n x = one_point (value_point l b (RawFloat x) n t)"

definition algoMin_Aggr :: "lib \<Rightarrow> MetricBase \<Rightarrow> int \<Rightarrow> int \<Rightarrow> f64 \<Rightarrow> aggr_result" where [simp]:
  "algoMin_Aggr l b t n x = one_point (value_point l b (RawFloat x) n t)"

definition algoSum_Aggr :: "lib \<Rightarrow> MetricBase \<Rightarrow> f64 \<Rightarrow> int \<Rightarrow> int \<Rightarrow> aggr_result" where [simp]:
  "algoSum_Aggr l b d t n = one_point (value_point l b (RawFloat d) n t)"

definition algoAvg_Aggr :: "lib \<Rightarrow> MetricBase \<Rightarrow> f64 \<Rightarrow> int \<Rightarrow> int \<Rightarrow> aggr_result" where [simp]:
  "algoAvg_Aggr l b d t n = one_point (value_point l b (RawFloat (f64_div d (f64_of_int n))) n t)"

definition algoCount_Aggr :: "lib \<Rightarrow> MetricBase \<Rightarrow> int \<Rightarrow> int \<Rightarrow> aggr_result" where [simp]:
  "algoCount_Aggr l b t n = one_point (value_point l b (RawInt n) n t)"

definition algoHistogram_Aggr :: "lib \<Rightarrow> MetricBase \<Rightarrow> int \<Rightarrow> f64 \<Rightarrow> (string \<times> f64) list \<Rightarrow> int \<Rightarrow> aggr_result" where [simp]:
  "algoHistogram_Aggr l b n v le t = map_option Some (those (map (bucket_point l b t) le @ [count_point l b n t]))"

definition algoQuantiles_Aggr :: "lib \<Rightarrow> MetricBase \<Rightarrow> int \<Rightarrow> f64 list \<Rightarrow> int \<Rightarrow> f64 list \<Rightarrow> aggr_result" where [simp]:
  "algoQuantiles_Aggr l b t xs n qs =
     (case quantile_kvs l (mb_key b) (sort xs) qs (AddVal (l_mk l) (mb_key b @ ''_count'') (RawInt n) [] []) of
        None \<Rightarrow> None
      | Some kvs \<Rightarrow> one_point (new_point l (mb_name b) (set_tags l (aggrTags b) kvs) t))"

definition algoStdev_Aggr :: "lib \<Rightarrow> MetricBase \<Rightarrow> int \<Rightarrow> f64 \<Rightarrow> f64 \<Rightarrow> int \<Rightarrow> aggr_result" where [simp]:
  "algoStdev_Aggr l b n mn s t =
     (case stdev_SampleStdDev l n s of
        None \<Rightarrow> Some None
      | Some x \<Rightarrow> one_point (value_point l b (RawFloat x) n t))"

definition algoCountDistinct_Aggr :: "lib \<Rightarrow> MetricBase \<Rightarrow> int \<Rightarrow> 64 word list \<Rightarrow> 64 word list option \<Rightarrow> aggr_result" where [simp]:
  "algoCountDistinct_Aggr l b t dv sk = (let n = distinct_count l (dv, sk) in one_point (value_point l b (RawInt n) n t))"

definition algoCountLast_Aggr :: "lib \<Rightarrow> MetricBase \<Rightarrow> f64 \<Rightarrow> int \<Rightarrow> int \<Rightarrow> aggr_result" where [simp]:
  "algoCountLast_Aggr l b x t n = one_point (value_point l b (RawFloat x) n t)"

definition algoCountFirst_Aggr :: "lib \<Rightarrow> MetricBase \<Rightarrow> f64 \<Rightarrow> int \<Rightarrow> int \<Rightarrow> aggr_result" where [simp]:
  "algoCountFirst_Aggr l b x t n = one_point (value_point l b (RawFloat x) n t)"

fun Aggr :: "lib \<Rightarrow> Calculator \<Rightarrow> aggr_result" where
  "Aggr l (algoMax b t n x) = algoMax_Aggr l b t n x"
| "Aggr l (algoMin b t n x) = algoMin_Aggr l b t n x"
| "Aggr l (algoSum b d t n) = algoSum_Aggr l b d t n"
| "Aggr l (algoAvg b d t n) = algoAvg_Aggr l b d t n"
| "Aggr l (algoCount b t n) = algoCount_Aggr l b t n"
| "Aggr l (algoHistogram b n v le t) = algoHistogram_Aggr l b n v le t"
| "Aggr l (algoQuantiles b t xs n qs) = algoQuantiles_Aggr l b t xs n qs"
| "Aggr l (algoStdev b n mn s t) = algoStdev_Aggr l b n mn s t"
| "Aggr l (algoCountDistinct b t dv sk) = algoCountDistinct_Aggr l b t dv sk"
| "Aggr l (algoCountLast b x t n) = algoCountLast_Aggr l b x t n"
| "Aggr l (algoCountFirst b x t n) = algoCountFirst_Aggr l b x t n"

text \<open>\<open>Aggr\<close> and \<open>GetPercentile\<close> sort the sample of quantiles in place.\<close>

definition sort_sample :: "Calculator \<Rightarrow> Calculator" where
  "sort_sample c = (case c of algoQuantiles b t xs n qs \<Rightarrow> algoQuantiles b t (sort xs) n qs | _ \<Rightarrow> c)"

definition GetPercentile :: "lib \<Rightarrow> Calculator \<Rightarrow> f64 \<Rightarrow> f64 option \<times> Calculator" where
  "GetPercentile l c p =
     (if all c = [] then (Some (FFin 0), c) else (percentileFromSorted l (sort (all c)) p, sort_sample c))"

end
