(* ===== verification/Aggr_Window.thy ===== *)
theory Aggr_Window
  imports Aggr_Calc
begin

section \<open>Metric aggregation: methods, batches, new calculators (aggregate/algo\_method.go, calculator.go)\<close>

text \<open>
  A batch travels with the algorithms that are to be applied to its points.  For every algorithm and every point that has the field it
  asks for, \<open>newCalculators\<close> makes a calculator.  The tags of the configuration are one slice for all points of a batch; here every calculator has its
  own.  The difference cannot be seen in the batches of \<open>GroupbyBatch\<close>, which have one point each.
\<close>

type_synonym AlgoMethod = string

abbreviation M_UNSPECIFIED :: AlgoMethod where "M_UNSPECIFIED \<equiv> []"
abbreviation M_SUM :: AlgoMethod where "M_SUM \<equiv> ''sum''"
abbreviation M_AVG :: AlgoMethod where "M_AVG \<equiv> ''avg''"
abbreviation M_COUNT :: AlgoMethod where "M_COUNT \<equiv> ''count''"
abbreviation M_MIN :: AlgoMethod where "M_MIN \<equiv> ''min''"
abbreviation M_MAX :: AlgoMethod where "M_MAX \<equiv> ''max''"
abbreviation M_HISTOGRAM :: AlgoMethod where "M_HISTOGRAM \<equiv> ''histogram''"
abbreviation M_EXPO_HISTOGRAM :: AlgoMethod where "M_EXPO_HISTOGRAM \<equiv> ''expo_histogram''"
abbreviation M_STDEV :: AlgoMethod where "M_STDEV \<equiv> ''stdev''"
abbreviation M_QUANTILES :: AlgoMethod where "M_QUANTILES \<equiv> ''quantiles''"
abbreviation M_COUNT_DISTINCT :: AlgoMethod where "M_COUNT_DISTINCT \<equiv> ''count_distinct''"
abbreviation M_LAST :: AlgoMethod where "M_LAST \<equiv> ''last''"
abbreviation M_FIRST :: AlgoMethod where "M_FIRST \<equiv> ''first''"

text \<open>Besides these, \<open>merge_histogram\<close> and \<open>method_unspecified\<close> are names of methods; other text is kept, in lower case.\<close>

definition NormalizeAlgoMethod :: "lib \<Rightarrow> string \<Rightarrow> AlgoMethod" where
  "NormalizeAlgoMethod l raw =
     (let m = strings_ToLower (l_lower l) (TrimSpace raw)
      in if m = [] \<or> m = ''method_unspecified'' then M_UNSPECIFIED
         else if m = ''merge_histogram'' then M_HISTOGRAM
         else m)"

subsection \<open>Batches\<close>

text \<open>The options of an algorithm: buckets, limits of an exponential histogram, or percentiles.\<close>

datatype algo_opts = HistogramOpts "f64 list" | ExpoOpts int int bool | QuantileOpts "f64 list option"

record AggregationAlgo =
  al_Method :: string
  al_SourceField :: string
  al_Window :: int
  al_AddTags :: "(string \<times> string) list"
  al_Options :: "algo_opts option"

record AggregationBatch =
  RoutingKey :: "64 word"
  ConfigHash :: "64 word"
  PickKey :: "64 word"
  AggregationOpts :: "(string \<times> AggregationAlgo option) list"
  Points :: "PBPoint list option"

subsection \<open>Time\<close>

text \<open>Times are nanoseconds since 1970.  \<open>Truncate\<close> counts from the year 1, \<open>Unix\<close> is in seconds, rounded down.\<close>

definition year_1 :: int where "year_1 = 62135596800 * 1000000000"

definition Truncate :: "int \<Rightarrow> int \<Rightarrow> int" where
  "Truncate t d = (if d \<le> 0 then t else t - (t + year_1) mod d)"

definition Unix :: "int \<Rightarrow> int" where
  "Unix t = t div 1000000000"

definition AlignNextWallTime :: "int \<Rightarrow> int \<Rightarrow> int" where
  "AlignNextWallTime t align =
     (let truncated = Truncate t align in if truncated = t then Unix t else Unix (truncated + align))"

subsection \<open>Calculators of a batch\<close>

text \<open>\<open>ptwrap.Get\<close>: \<open>None\<close> is \<open>nil\<close>; an array that cannot be decoded is \<open>nil\<close> too.\<close>

definition wrap_Get :: "lib \<Rightarrow> PBPoint \<Rightarrow> string \<Rightarrow> field_val option" where
  "wrap_Get l pt k =
     (case GetKV k (pb_fields pt) of
        None \<Rightarrow> None
      | Some f \<Rightarrow> (case fVal f of Some (Field_A a) \<Rightarrow> if l_array l a = None then None else Some (Field_A a) | v \<Rightarrow> v))"

definition wrap_GetS :: "PBPoint \<Rightarrow> string \<Rightarrow> string" where
  "wrap_GetS pt k = (case GetKV k (pb_fields pt) of None \<Rightarrow> [] | Some f \<Rightarrow> GetS f)"

text \<open>The value as a number; \<open>None\<close> where it is not one and the method needs one.\<close>

definition numeric :: "AlgoMethod \<Rightarrow> field_val \<Rightarrow> f64 option" where
  "numeric method val =
     (case val of
        Field_F x \<Rightarrow> Some x
      | Field_I i \<Rightarrow> Some (f64_of_int i)
      | _ \<Rightarrow> if method = M_COUNT_DISTINCT \<or> method = M_COUNT then Some (FFin 0) else None)"

definition addOpts :: "algo_opts option \<Rightarrow> Calculator \<Rightarrow> Calculator" where
  "addOpts opts c =
     (case (opts, c) of
        (Some (QuantileOpts (Some ps)), algoQuantiles b t xs n qs) \<Rightarrow> algoQuantiles b t xs n ps
      | _ \<Rightarrow> c)"

definition calculator_for :: "lib \<Rightarrow> AggregationAlgo \<Rightarrow> AlgoMethod \<Rightarrow> MetricBase \<Rightarrow> PBPoint \<Rightarrow> field_val \<Rightarrow> f64 \<Rightarrow> Calculator option" where
  "calculator_for l algo method mb pt val x =
     (let t = pb_time pt in
      if method = M_MAX then Some (algoMax mb t 1 x)
      else if method = M_SUM then Some (algoSum mb x t 1)
      else if method = M_AVG then Some (algoAvg mb x t 1)
      else if method = M_COUNT then Some (algoCount mb t 1)
      else if method = M_MIN then Some (algoMin mb t 1 x)
      else if method = M_HISTOGRAM then Some (algoHistogram mb 1 x [(wrap_GetS pt ''le'', x)] t)
      else if method = M_QUANTILES then Some (addOpts (al_Options algo) (newAlgoQuantiles mb t x))
      else if method = M_STDEV then Some (newAlgoStdev mb t x)
      else if method = M_COUNT_DISTINCT then Some (newAlgoCountDistinct l mb t val)
      else if method = M_LAST then Some (algoCountLast mb x t 1)
      else if method = M_FIRST then Some (algoCountFirst mb x t 1)
      else None)"

definition metric_base :: "AggregationAlgo \<Rightarrow> string \<Rightarrow> PBPoint \<Rightarrow> MetricBase" where
  "metric_base algo key pt =
     \<lparr>mb_pt = pt, aggrTags = al_AddTags algo, mb_key = key, mb_name = pb_name pt, mb_hash = 0, mb_window = al_Window algo,
      nextWallTime = AlignNextWallTime (pb_time pt) (al_Window algo), heapIdx = 0\<rparr>"

definition new_calculator :: "lib \<Rightarrow> 64 word \<Rightarrow> string \<Rightarrow> AggregationAlgo \<Rightarrow> PBPoint \<Rightarrow> Calculator option" where
  "new_calculator l rk key algo pt =
     (case wrap_Get l pt (if al_SourceField algo \<noteq> [] then al_SourceField algo else key) of
        None \<Rightarrow> None
      | Some val \<Rightarrow>
          (if key = [] then None
           else let method = NormalizeAlgoMethod l (al_Method algo) in
                case numeric method val of
                  None \<Rightarrow> None
                | Some x \<Rightarrow> map_option (doHash l rk) (calculator_for l algo method (metric_base algo key pt) pt val x)))"

definition newCalculators :: "lib \<Rightarrow> AggregationBatch option \<Rightarrow> Calculator list" where
  "newCalculators l batch =
     (case batch of
        None \<Rightarrow> []
      | Some b \<Rightarrow>
          (case Points b of
             None \<Rightarrow> []
           | Some pts \<Rightarrow>
               concat (map (\<lambda>(key, algo). case algo of
                              None \<Rightarrow> []
                            | Some a \<Rightarrow> List.map_filter (new_calculator l (RoutingKey b) key a) pts)
                           (AggregationOpts b))))"

section \<open>Metric aggregation: windows (aggregate/windows.go)\<close>

text \<open>
  Calculators are collected per expiry time, token and hash.  The \<open>Windows\<close> of an expiry time are shared: an adder looks their pointer up under the lock
  of the cache and uses it under their own lock, when the collector may have closed them.  Pointers are therefore explicit: \<open>heap\<close> has the \<open>Windows\<close>
  objects, and the map of the cache has addresses.  A window taken from the pool is reset and equals a new one.
\<close>

record Window =
  w_cache :: "(64 word \<times> Calculator) list"
  w_Token :: string

definition Window_Reset :: "Window \<Rightarrow> Window" where
  "Window_Reset w = w\<lparr>w_Token := [], w_cache := []\<rparr>"

definition Window_AddCal :: "Calculator \<Rightarrow> Window \<Rightarrow> Window" where
  "Window_AddCal cal w =
     (let h = mb_hash (Base cal) in
      case map_of (w_cache w) h of
        Some calc \<Rightarrow> w\<lparr>w_cache := AList.update h (Add calc cal) (w_cache w)\<rparr>
      | None \<Rightarrow> w\<lparr>w_cache := w_cache w @ [(h, on_base build cal)]\<rparr>)"

record Windows =
  ws_closed :: bool
  IDs :: "(string \<times> nat) list"
  WS :: "Window list"

definition new_windows :: Windows where
  "new_windows = \<lparr>ws_closed = False, IDs = [], WS = []\<rparr>"

definition addCal :: "string \<Rightarrow> Calculator \<Rightarrow> Windows \<Rightarrow> bool \<times> Windows" where
  "addCal token cal ws =
     (if ws_closed ws then (False, ws)
      else let ws1 = (case map_of (IDs ws) token of
                        Some i \<Rightarrow> ws
                      | None \<Rightarrow> ws\<lparr>IDs := IDs ws @ [(token, length (WS ws))], WS := WS ws @ [\<lparr>w_cache = [], w_Token = token\<rparr>]\<rparr>);
               i = the (map_of (IDs ws1) token)
           in (True, ws1\<lparr>WS := (WS ws1)[i := Window_AddCal cal (WS ws1 ! i)]\<rparr>))"

definition Windows_AddCal :: "string \<Rightarrow> Calculator \<Rightarrow> Windows \<Rightarrow> Windows" where
  "Windows_AddCal token cal ws = snd (addCal token cal ws)"

definition Windows_Close :: "Windows \<Rightarrow> Window list \<times> Windows" where
  "Windows_Close ws = (WS ws, ws\<lparr>ws_closed := True, IDs := [], WS := []\<rparr>)"

subsection \<open>The cache\<close>

record Cache =
  heap :: "Windows list"
  WindowsBuckets :: "(int \<times> nat) list"
  Expired :: int

definition NewCache :: "int \<Rightarrow> Cache" where
  "NewCache ex = \<lparr>heap = [], WindowsBuckets = [], Expired = ex\<rparr>"

text \<open>The part of \<open>getAndSetBucket\<close> under the lock of the cache, and the part under the lock of the \<open>Windows\<close>.\<close>

definition lookup_bucket :: "int \<Rightarrow> Cache \<Rightarrow> nat \<times> Cache" where
  "lookup_bucket ex c =
     (case map_of (WindowsBuckets c) ex of
        Some a \<Rightarrow> (a, c)
      | None \<Rightarrow> (length (heap c), c\<lparr>heap := heap c @ [new_windows], WindowsBuckets := WindowsBuckets c @ [(ex, length (heap c))]\<rparr>))"

definition add_at :: "nat \<Rightarrow> string \<Rightarrow> Calculator \<Rightarrow> Cache \<Rightarrow> bool \<times> Cache" where
  "add_at a token cal c = (case addCal token cal (heap c ! a) of (ok, ws) \<Rightarrow> (ok, c\<lparr>heap := (heap c)[a := ws]\<rparr>))"

text \<open>The loop; \<open>clk\<close> is the clock, which is read when adding failed.  It has no bound of its own.\<close>

partial_function (option) getAndSetBucket :: "int \<Rightarrow> int \<Rightarrow> string \<Rightarrow> Calculator \<Rightarrow> Cache \<Rightarrow> (bool \<times> Cache) option" where
  "getAndSetBucket clk ex token cal c =
     (case lookup_bucket ex c of (a, c1) \<Rightarrow>
        case add_at a token cal c1 of (ok, c2) \<Rightarrow>
          if ok then Some (True, c2)
          else if clk \<ge> ex then Some (False, c2)
          else getAndSetBucket clk ex token cal c2)"

definition expiry :: "Cache \<Rightarrow> Calculator \<Rightarrow> int" where
  "expiry c cal = to_i64 (nextWallTime (Base cal) + go_quot (Expired c) 1000000000)"

fun add_calculators :: "int \<Rightarrow> string \<Rightarrow> Calculator list \<Rightarrow> nat \<times> nat \<Rightarrow> Cache \<Rightarrow> ((nat \<times> nat) \<times> Cache) option" where
  "add_calculators clk token [] (n, expN) c = Some ((n, expN), c)"
| "add_calculators clk token (cal # cals) (n, expN) c =
     (if clk \<ge> expiry c cal then add_calculators clk token cals (n, expN + 1) c
      else case getAndSetBucket clk (expiry c cal) token cal c of
             None \<Rightarrow> None
           | Some (ok, c1) \<Rightarrow> add_calculators clk token cals (if ok then (n + 1, expN) else (n, expN + 1)) c1)"

definition AddBatch :: "lib \<Rightarrow> int \<Rightarrow> string \<Rightarrow> AggregationBatch option \<Rightarrow> Cache \<Rightarrow> ((nat \<times> nat) \<times> Cache) option" where
  "AddBatch l clk token batch c = add_calculators clk token (newCalculators l batch) (0, 0) c"

fun AddBatchs :: "lib \<Rightarrow> int \<Rightarrow> string \<Rightarrow> AggregationBatch option list \<Rightarrow> Cache \<Rightarrow> ((nat \<times> nat) \<times> Cache) option" where
  "AddBatchs l clk token [] c = Some ((0, 0), c)"
| "AddBatchs l clk token (b # bs) c =
     (case AddBatch l clk token b c of
        None \<Rightarrow> None
      | Some ((n, expN), c1) \<Rightarrow> map_option (\<lambda>((n', expN'), c2). ((n + n', expN + expN'), c2)) (AddBatchs l clk token bs c1))"

text \<open>One bucket of the collector's walk: it is closed and taken off the map when its time has come.\<close>

definition collect_one :: "int \<Rightarrow> int \<times> nat \<Rightarrow> Window list \<times> Cache \<Rightarrow> Window list \<times> Cache" where
  "collect_one clk e r =
     (case e of (t, a) \<Rightarrow> case r of (wss, c) \<Rightarrow>
        if t \<le> clk
        then (case Windows_Close (heap c ! a) of (w, ws) \<Rightarrow>
                (wss @ w, c\<lparr>heap := (heap c)[a := ws], WindowsBuckets := AList.delete t (WindowsBuckets c)\<rparr>))
        else (wss, c))"

definition GetExpWidows :: "int \<Rightarrow> Cache \<Rightarrow> Window list \<times> Cache" where
  "GetExpWidows clk c = fold (collect_one clk) (WindowsBuckets c) ([], c)"

subsection \<open>The result\<close>

record PointsData =
  pd_PTS :: "Point list"
  pd_Token :: string

text \<open>An error of a calculator is logged; \<open>None\<close> is a panic.\<close>

fun window_points :: "lib \<Rightarrow> (64 word \<times> Calculator) list \<Rightarrow> Point list option" where
  "window_points l [] = Some []"
| "window_points l ((h, cal) # cs) =
     (case Aggr l cal of
        None \<Rightarrow> None
      | Some r \<Rightarrow> map_option (\<lambda>pts. (case r of None \<Rightarrow> [] | Some ps \<Rightarrow> ps) @ pts) (window_points l cs))"

fun WindowsToData :: "lib \<Rightarrow> Window list \<Rightarrow> PointsData list option" where
  "WindowsToData l [] = Some []"
| "WindowsToData l (w # ws) =
     (case window_points l (w_cache w) of
        None \<Rightarrow> None
      | Some pts \<Rightarrow>
          map_option (\<lambda>pds. if pts = [] then pds else \<lparr>pd_PTS = pts, pd_Token = w_Token w\<rparr> # pds) (WindowsToData l ws))"

end
