(* ===== verification/Aggr_Conc.thy ===== *)
theory Aggr_Conc
  imports Aggr_Window
begin

section \<open>Adders and the collector of metric windows, interleaved\<close>

text \<open>
  Any number of goroutines add calculators while one at a time collects expired windows.  A step is what happens under one lock: the lookup of a
  bucket needs the lock of the cache, which the collector holds from its first bucket to its last; adding and closing need the lock of one \<open>Windows\<close>
  object.  The clock may advance at any time.  \<open>accepted\<close> and \<open>handed\<close> record which calculators were accepted, at which address, and
  which windows the collector got from where.
\<close>

subsection \<open>What windows hold\<close>

text \<open>The aggregate of calculators in the order of their arrival.\<close>

definition combine :: "Calculator list \<Rightarrow> Calculator option" where
  "combine cs = (case cs of [] \<Rightarrow> None | c # r \<Rightarrow> Some (foldl Add (on_base build c) r))"

definition absorb :: "Calculator option \<Rightarrow> Calculator \<Rightarrow> Calculator" where
  "absorb old cal = (case old of None \<Rightarrow> on_base build cal | Some c \<Rightarrow> Add c cal)"

lemma combine_Nil [simp]: "combine [] = None"
  by (simp add: combine_def)

lemma combine_snoc [simp]: "combine (cs @ [x]) = Some (absorb (combine cs) x)"
  by (cases cs) (simp_all add: combine_def absorb_def)

definition win_slot :: "Window list \<Rightarrow> string \<Rightarrow> 64 word \<Rightarrow> Calculator option" where
  "win_slot ws token h = (case find (\<lambda>w. w_Token w = token) ws of None \<Rightarrow> None | Some w \<Rightarrow> map_of (w_cache w) h)"

text \<open>The table of tokens is the table of the windows.\<close>

definition win_ok :: "Windows \<Rightarrow> bool" where
  "win_ok ws \<longleftrightarrow>
     distinct (map w_Token (WS ws)) \<and>
     (\<forall>token i. map_of (IDs ws) token = Some i \<longleftrightarrow> i < length (WS ws) \<and> w_Token (WS ws ! i) = token)"

lemma find_snoc: "find P (xs @ [x]) = (case find P xs of Some y \<Rightarrow> Some y | None \<Rightarrow> if P x then Some x else None)"
  by (induction xs) auto

lemma find_nth:
  assumes "distinct (map f xs)" "i < length xs" "f (xs ! i) = k"
  shows "find (\<lambda>x. f x = k) xs = Some (xs ! i)"
proof -
  have "\<forall>j<i. f (xs ! j) \<noteq> k"
    using assms by (metis distinct_map length_map less_trans nth_eq_iff_index_eq nth_map order_less_irrefl)
  then show ?thesis using assms(2,3) by (auto simp: find_Some_iff)
qed

lemma win_slot_nth:
  "distinct (map w_Token ws) \<Longrightarrow> i < length ws \<Longrightarrow> w_Token (ws ! i) = token \<Longrightarrow> win_slot ws token h = map_of (w_cache (ws ! i)) h"
  by (simp add: win_slot_def find_nth)

lemma win_slot_none: "token \<notin> w_Token ` set ws \<Longrightarrow> win_slot ws token h = None"
  by (auto simp: win_slot_def find_None_iff split: option.split) (metis (mono_tags, lifting) find_Some_iff image_eqI nth_mem)

lemma win_ok_new [simp]: "win_ok new_windows"
  by (simp add: win_ok_def new_windows_def)

lemma win_ok_close [simp]: "win_ok (snd (Windows_Close ws))"
  by (simp add: win_ok_def Windows_Close_def)

subsubsection \<open>Adding\<close>

lemma Window_AddCal_token [simp]: "w_Token (Window_AddCal cal w) = w_Token w"
  by (simp add: Window_AddCal_def Let_def split: option.split)

lemma Window_AddCal_slot:
  "map_of (w_cache (Window_AddCal cal w)) h =
     (if h = mb_hash (Base cal) then Some (absorb (map_of (w_cache w) h) cal) else map_of (w_cache w) h)"
  by (auto simp: Window_AddCal_def Let_def absorb_def update_conv map_add_def split: option.split)

text \<open>The window of the token is made first when it is not there.\<close>

definition with_token :: "string \<Rightarrow> Windows \<Rightarrow> Windows" where
  "with_token token ws =
     (case map_of (IDs ws) token of
        Some i \<Rightarrow> ws
      | None \<Rightarrow> ws\<lparr>IDs := IDs ws @ [(token, length (WS ws))], WS := WS ws @ [\<lparr>w_cache = [], w_Token = token\<rparr>]\<rparr>)"

lemma addCal_with_token:
  "\<not> ws_closed ws \<Longrightarrow> addCal token cal ws =
     (True, (with_token token ws)\<lparr>WS := (WS (with_token token ws))[the (map_of (IDs (with_token token ws)) token) :=
        Window_AddCal cal (WS (with_token token ws) ! the (map_of (IDs (with_token token ws)) token))]\<rparr>)"
  by (simp add: addCal_def with_token_def Let_def)

lemma with_token_frame:
  assumes ok: "win_ok ws"
  shows "win_ok (with_token token ws)" "ws_closed (with_token token ws) = ws_closed ws"
    "map_of (IDs (with_token token ws)) token \<noteq> None" "win_slot (WS (with_token token ws)) tk h = win_slot (WS ws) tk h"
proof -
  show "ws_closed (with_token token ws) = ws_closed ws" by (simp add: with_token_def split: option.split)
  show "map_of (IDs (with_token token ws)) token \<noteq> None"
    by (simp add: with_token_def map_add_def split: option.split)
  have "win_ok (with_token token ws) \<and> win_slot (WS (with_token token ws)) tk h = win_slot (WS ws) tk h"
  proof (cases "map_of (IDs ws) token")
    case None
    then have new: "token \<notin> w_Token ` set (WS ws)"
      using ok unfolding win_ok_def by (metis in_set_conv_nth image_iff option.distinct(1))
    have "map_of (IDs ws @ [(token, length (WS ws))]) t = Some i \<longleftrightarrow>
        i < length (WS ws @ [\<lparr>w_cache = [], w_Token = token\<rparr>]) \<and> w_Token ((WS ws @ [\<lparr>w_cache = [], w_Token = token\<rparr>]) ! i) = t" for t i
    proof (cases "t = token")
      case True
      have "w_Token (WS ws ! i) \<noteq> token" if "i < length (WS ws)" using new that by force
      with True None show ?thesis by (auto simp: map_add_def nth_append less_Suc_eq)
    next
      case False
      then have "map_of (IDs ws @ [(token, length (WS ws))]) t = map_of (IDs ws) t"
        by (auto simp: map_add_def split: option.split)
      moreover have "map_of (IDs ws) t = Some i \<longleftrightarrow> i < length (WS ws) \<and> w_Token (WS ws ! i) = t"
        using ok by (auto simp: win_ok_def)
      ultimately show ?thesis using False by (auto simp: nth_append less_Suc_eq)
    qed
    then have "win_ok (with_token token ws)" using ok new None by (simp add: win_ok_def with_token_def)
    moreover have "win_slot (WS ws @ [\<lparr>w_cache = [], w_Token = token\<rparr>]) tk h = win_slot (WS ws) tk h"
      by (cases "find (\<lambda>w. w_Token w = tk) (WS ws)") (auto simp: win_slot_def find_snoc)
    ultimately show ?thesis using None by (simp add: with_token_def)
  qed (use ok in \<open>simp add: with_token_def\<close>)
  then show "win_ok (with_token token ws)" "win_slot (WS (with_token token ws)) tk h = win_slot (WS ws) tk h" by auto
qed

lemma addCal_open:
  assumes ok: "win_ok ws" and op: "\<not> ws_closed ws"
  shows "\<exists>ws'. addCal token cal ws = (True, ws') \<and> win_ok ws' \<and> \<not> ws_closed ws' \<and>
    (\<forall>tk h. win_slot (WS ws') tk h =
       (if tk = token \<and> h = mb_hash (Base cal) then Some (absorb (win_slot (WS ws) tk h) cal) else win_slot (WS ws) tk h))"
proof -
  define ws1 where "ws1 = with_token token ws"
  note fr = with_token_frame[OF ok, of token, folded ws1_def]
  obtain i where i: "map_of (IDs ws1) token = Some i" using fr(3) by auto
  have il: "i < length (WS ws1)" "w_Token (WS ws1 ! i) = token" using fr(1) i by (auto simp: win_ok_def)
  define ws' where "ws' = ws1\<lparr>WS := (WS ws1)[i := Window_AddCal cal (WS ws1 ! i)]\<rparr>"
  have toks: "map w_Token (WS ws') = map w_Token (WS ws1)"
    using il by (simp add: ws'_def map_update list_update_same_conv)
  have nthtok: "w_Token (WS ws' ! j) = w_Token (WS ws1 ! j)" if "j < length (WS ws1)" for j
    using that il by (simp add: ws'_def nth_list_update)
  have len: "length (WS ws') = length (WS ws1)" by (simp add: ws'_def)
  have ok': "win_ok ws'"
    using fr(1) nthtok unfolding win_ok_def toks len by (auto simp: ws'_def)
  have d: "distinct (map w_Token (WS ws1))" "distinct (map w_Token (WS ws'))" using fr(1) ok' by (auto simp: win_ok_def)
  have "win_slot (WS ws') tk h =
       (if tk = token \<and> h = mb_hash (Base cal) then Some (absorb (win_slot (WS ws) tk h) cal) else win_slot (WS ws) tk h)" for tk h
  proof (cases "\<exists>j<length (WS ws1). w_Token (WS ws1 ! j) = tk")
    case True
    then obtain j where j: "j < length (WS ws1)" "w_Token (WS ws1 ! j) = tk" by blast
    have "win_slot (WS ws') tk h = map_of (w_cache (WS ws' ! j)) h"
      by (rule win_slot_nth) (use d j nthtok len in auto)
    moreover have "win_slot (WS ws) tk h = map_of (w_cache (WS ws1 ! j)) h"
      using win_slot_nth[OF d(1) j] fr(4) by simp
    moreover have "j = i" if "tk = token"
      using d(1) j il that by (metis length_map nth_eq_iff_index_eq nth_map)
    ultimately show ?thesis
      using il j by (cases "j = i") (auto simp: ws'_def nth_list_update Window_AddCal_slot)
  next
    case False
    then have "tk \<notin> w_Token ` set (WS ws1)" "tk \<noteq> token" using il by (auto simp: in_set_conv_nth)
    moreover have "w_Token ` set (WS ws') = w_Token ` set (WS ws1)" using toks by (metis list.set_map)
    ultimately show ?thesis using fr(4)[of tk h] by (simp add: win_slot_none)
  qed
  moreover have "addCal token cal ws = (True, ws')"
    using addCal_with_token[OF op, of token cal] i by (simp add: ws'_def ws1_def)
  moreover have "\<not> ws_closed ws'" using fr(2) op by (simp add: ws'_def)
  ultimately show ?thesis using ok' by blast
qed

subsection \<open>The interleaved system\<close>

datatype adder =
    Idle
  | Looking int string Calculator
  | Holding int string Calculator nat
  | Refused int string Calculator

record sys =
  cache :: Cache
  adders :: "nat \<Rightarrow> adder"
  collector :: "(int \<times> (int \<times> nat) list) option"
  clock :: int
  accepted :: "(int \<times> nat \<times> string \<times> Calculator) list"
  handed :: "(nat \<times> Window list) list"

definition init_sys :: "int \<Rightarrow> int \<Rightarrow> sys" where
  "init_sys ex t = \<lparr>cache = NewCache ex, adders = (\<lambda>i. Idle), collector = None, clock = t, accepted = [], handed = []\<rparr>"

inductive sys_step :: "sys \<Rightarrow> sys \<Rightarrow> bool" where
  tick: "d \<ge> 0 \<Longrightarrow> sys_step s (s\<lparr>clock := clock s + d\<rparr>)"
| call: "adders s i = Idle \<Longrightarrow> sys_step s (s\<lparr>adders := (adders s)(i := Looking ex token cal)\<rparr>)"
| look: "adders s i = Looking ex token cal \<Longrightarrow> collector s = None \<Longrightarrow> lookup_bucket ex (cache s) = (a, c) \<Longrightarrow>
    sys_step s (s\<lparr>cache := c, adders := (adders s)(i := Holding ex token cal a)\<rparr>)"
| add: "adders s i = Holding ex token cal a \<Longrightarrow> add_at a token cal (cache s) = (True, c) \<Longrightarrow>
    sys_step s (s\<lparr>cache := c, adders := (adders s)(i := Idle), accepted := accepted s @ [(ex, a, token, cal)]\<rparr>)"
| refuse: "adders s i = Holding ex token cal a \<Longrightarrow> add_at a token cal (cache s) = (False, c) \<Longrightarrow>
    sys_step s (s\<lparr>cache := c, adders := (adders s)(i := Refused ex token cal)\<rparr>)"
| give_up: "adders s i = Refused ex token cal \<Longrightarrow> clock s \<ge> ex \<Longrightarrow> sys_step s (s\<lparr>adders := (adders s)(i := Idle)\<rparr>)"
| again: "adders s i = Refused ex token cal \<Longrightarrow> \<not> clock s \<ge> ex \<Longrightarrow>
    sys_step s (s\<lparr>adders := (adders s)(i := Looking ex token cal)\<rparr>)"
| collect: "collector s = None \<Longrightarrow> sys_step s (s\<lparr>collector := Some (clock s, WindowsBuckets (cache s))\<rparr>)"
| visit: "collector s = Some (t, e # es) \<Longrightarrow> collect_one t e ([], cache s) = (wss, c) \<Longrightarrow>
    sys_step s (s\<lparr>cache := c, collector := Some (t, es), handed := handed s @ (if fst e \<le> t then [(snd e, wss)] else [])\<rparr>)"
| finish: "collector s = Some (t, []) \<Longrightarrow> sys_step s (s\<lparr>collector := None\<rparr>)"

inductive reach_sys :: "sys \<Rightarrow> bool" where
  start: "reach_sys (init_sys ex t)"
| step: "reach_sys s \<Longrightarrow> sys_step s s' \<Longrightarrow> reach_sys s'"

subsection \<open>The invariant\<close>

abbreviation obj :: "sys \<Rightarrow> nat \<Rightarrow> Windows" where
  "obj s a \<equiv> heap (cache s) ! a"

abbreviation addresses :: "sys \<Rightarrow> nat" where
  "addresses s \<equiv> length (heap (cache s))"

text \<open>The windows of an address: those it has, or those the collector took from it.\<close>

definition content :: "sys \<Rightarrow> nat \<Rightarrow> Window list" where
  "content s a = (if ws_closed (obj s a) then the (map_of (handed s) a) else WS (obj s a))"

definition accepted_at :: "sys \<Rightarrow> nat \<Rightarrow> string \<Rightarrow> 64 word \<Rightarrow> Calculator list" where
  "accepted_at s a token h = [cal. (ex, b, tk, cal) \<leftarrow> accepted s, b = a \<and> tk = token \<and> mb_hash (Base cal) = h]"

text \<open>\<open>own a\<close> is the expiry time the object at address \<open>a\<close> was made for.\<close>

definition buckets_inv :: "(nat \<Rightarrow> int) \<Rightarrow> sys \<Rightarrow> bool" where
  "buckets_inv own s \<longleftrightarrow>
     distinct (map fst (WindowsBuckets (cache s))) \<and>
     (\<forall>(t, a) \<in> set (WindowsBuckets (cache s)). a < addresses s \<and> own a = t \<and> \<not> ws_closed (obj s a)) \<and>
     (\<forall>a < addresses s. win_ok (obj s a) \<and> (ws_closed (obj s a) \<longrightarrow> own a \<le> clock s)) \<and>
     (\<forall>t es. collector s = Some (t, es) \<longrightarrow> t \<le> clock s \<and> set es \<subseteq> set (WindowsBuckets (cache s)) \<and> distinct es)"

fun adder_ok :: "(nat \<Rightarrow> int) \<Rightarrow> nat \<Rightarrow> int \<Rightarrow> adder \<Rightarrow> bool" where
  "adder_ok own n t Idle = True"
| "adder_ok own n t (Looking ex token cal) = True"
| "adder_ok own n t (Holding ex token cal a) = (a < n \<and> own a = ex)"
| "adder_ok own n t (Refused ex token cal) = (ex \<le> t)"

definition adders_inv :: "(nat \<Rightarrow> int) \<Rightarrow> sys \<Rightarrow> bool" where
  "adders_inv own s \<longleftrightarrow> (\<forall>i. adder_ok own (addresses s) (clock s) (adders s i))"

definition content_inv :: "(nat \<Rightarrow> int) \<Rightarrow> sys \<Rightarrow> bool" where
  "content_inv own s \<longleftrightarrow>
     (\<forall>(ex, a, token, cal) \<in> set (accepted s). a < addresses s \<and> own a = ex) \<and>
     (\<forall>a < addresses s. \<forall>token h. win_slot (content s a) token h = combine (accepted_at s a token h)) \<and>
     distinct (map fst (handed s)) \<and> fst ` set (handed s) = {a. a < addresses s \<and> ws_closed (obj s a)}"

definition sys_inv :: "sys \<Rightarrow> bool" where
  "sys_inv s \<longleftrightarrow> (\<exists>own. buckets_inv own s \<and> adders_inv own s \<and> content_inv own s)"

lemma sys_inv_init: "sys_inv (init_sys ex t)"
  by (simp add: sys_inv_def init_sys_def NewCache_def buckets_inv_def adders_inv_def content_inv_def)

end
