(* ===== verification/Aggr_Conc_Inv.thy ===== *)
theory Aggr_Conc_Inv
  imports Aggr_Conc
begin

section \<open>Every step of adders and collector keeps the invariant\<close>

text \<open>One lemma per kind of step; then what holds in every reachable state.\<close>

lemma frames [simp]:
  "content (s\<lparr>clock := x\<rparr>) = content s" "content (s\<lparr>adders := ad\<rparr>) = content s" "content (s\<lparr>collector := co\<rparr>) = content s"
  "content (s\<lparr>accepted := ac\<rparr>) = content s"
  "accepted_at (s\<lparr>clock := x\<rparr>) = accepted_at s" "accepted_at (s\<lparr>adders := ad\<rparr>) = accepted_at s"
  "accepted_at (s\<lparr>collector := co\<rparr>) = accepted_at s" "accepted_at (s\<lparr>cache := c\<rparr>) = accepted_at s"
  "accepted_at (s\<lparr>handed := hn\<rparr>) = accepted_at s"
  by (simp_all add: content_def[abs_def] accepted_at_def[abs_def] cong: if_cong)

lemma adder_ok_mono: "adder_ok own n t ad \<Longrightarrow> n \<le> n' \<Longrightarrow> t \<le> t' \<Longrightarrow> adder_ok own n' t' ad"
  by (cases ad) auto

lemma adders_upd:
  "adders_inv own s \<Longrightarrow> adder_ok own (addresses s) (clock s) ad \<Longrightarrow> adders_inv own (s\<lparr>adders := (adders s)(i := ad)\<rparr>)"
  by (simp add: adders_inv_def)

lemma inv_tick:
  assumes "sys_inv s" "d \<ge> 0"
  shows "sys_inv (s\<lparr>clock := clock s + d\<rparr>)"
proof -
  obtain own where o: "buckets_inv own s" "adders_inv own s" "content_inv own s" using assms(1) by (auto simp: sys_inv_def)
  have "buckets_inv own (s\<lparr>clock := clock s + d\<rparr>)" using o(1) assms(2) by (fastforce simp: buckets_inv_def)
  moreover have "adders_inv own (s\<lparr>clock := clock s + d\<rparr>)" using o(2) assms(2) by (auto simp: adders_inv_def intro: adder_ok_mono)
  moreover have "content_inv own (s\<lparr>clock := clock s + d\<rparr>)" using o(3) by (simp add: content_inv_def)
  ultimately show ?thesis unfolding sys_inv_def by blast
qed

text \<open>A step of an adder that leaves the cache alone.\<close>

lemma inv_adder:
  assumes "sys_inv s" "\<And>own. adder_ok own 0 (clock s) ad"
  shows "sys_inv (s\<lparr>adders := (adders s)(i := ad)\<rparr>)"
proof -
  obtain own where o: "buckets_inv own s" "adders_inv own s" "content_inv own s" using assms(1) by (auto simp: sys_inv_def)
  have "buckets_inv own (s\<lparr>adders := (adders s)(i := ad)\<rparr>)" using o(1) by (simp add: buckets_inv_def)
  moreover have "adders_inv own (s\<lparr>adders := (adders s)(i := ad)\<rparr>)"
    using adders_upd[OF o(2)] adder_ok_mono[OF assms(2)] by simp
  moreover have "content_inv own (s\<lparr>adders := (adders s)(i := ad)\<rparr>)" using o(3) by (simp add: content_inv_def)
  ultimately show ?thesis unfolding sys_inv_def by blast
qed

lemma inv_collector:
  assumes "sys_inv s" "case co of None \<Rightarrow> True | Some (t, es) \<Rightarrow> t \<le> clock s \<and> set es \<subseteq> set (WindowsBuckets (cache s)) \<and> distinct es"
  shows "sys_inv (s\<lparr>collector := co\<rparr>)"
proof -
  obtain own where o: "buckets_inv own s" "adders_inv own s" "content_inv own s" using assms(1) by (auto simp: sys_inv_def)
  have "buckets_inv own (s\<lparr>collector := co\<rparr>)" using o(1) assms(2) by (auto simp: buckets_inv_def)
  moreover have "adders_inv own (s\<lparr>collector := co\<rparr>)" using o(2) by (simp add: adders_inv_def)
  moreover have "content_inv own (s\<lparr>collector := co\<rparr>)" using o(3) by (simp add: content_inv_def)
  ultimately show ?thesis unfolding sys_inv_def by blast
qed

subsection \<open>Looking a bucket up\<close>

text \<open>A new object gets an address nobody uses.\<close>

lemma inv_new_bucket:
  assumes inv: "sys_inv s" and no: "collector s = None" and new: "map_of (WindowsBuckets (cache s)) ex = None"
  defines "c \<equiv> (cache s)\<lparr>heap := heap (cache s) @ [new_windows],
                          WindowsBuckets := WindowsBuckets (cache s) @ [(ex, addresses s)]\<rparr>"
  shows "sys_inv (s\<lparr>cache := c, adders := (adders s)(i := Holding ex token cal (addresses s))\<rparr>)"
proof -
  obtain own where o: "buckets_inv own s" "adders_inv own s" "content_inv own s" using inv by (auto simp: sys_inv_def)
  define own' where "own' = own(addresses s := ex)"
  define s' where "s' = s\<lparr>cache := c, adders := (adders s)(i := Holding ex token cal (addresses s))\<rparr>"
  have old: "obj s' a = obj s a" "own' a = own a" if "a < addresses s" for a
    using that by (simp_all add: s'_def c_def own'_def nth_append)
  have last: "obj s' (addresses s) = new_windows" "own' (addresses s) = ex" by (simp_all add: s'_def c_def own'_def)
  have n: "addresses s' = Suc (addresses s)" by (simp add: s'_def c_def)
  have b: "WindowsBuckets (cache s') = WindowsBuckets (cache s) @ [(ex, addresses s)]" by (simp add: s'_def c_def)
  have open_new: "\<not> ws_closed new_windows" by (simp add: new_windows_def)
  have "buckets_inv own' s'"
    unfolding buckets_inv_def
  proof (intro conjI)
    show "distinct (map fst (WindowsBuckets (cache s')))"
      using o(1) new unfolding b by (auto simp: buckets_inv_def map_of_eq_None_iff)
    show "\<forall>(t, a) \<in> set (WindowsBuckets (cache s')). a < addresses s' \<and> own' a = t \<and> \<not> ws_closed (obj s' a)"
      using o(1) old last open_new unfolding b n buckets_inv_def by fastforce
    show "\<forall>a < addresses s'. win_ok (obj s' a) \<and> (ws_closed (obj s' a) \<longrightarrow> own' a \<le> clock s')"
    proof (intro allI impI)
      fix a assume "a < addresses s'"
      then consider "a < addresses s" | "a = addresses s" unfolding n by linarith
      then show "win_ok (obj s' a) \<and> (ws_closed (obj s' a) \<longrightarrow> own' a \<le> clock s')"
      proof cases
        case 1
        then show ?thesis using o(1) old[OF 1] by (simp add: buckets_inv_def s'_def)
      next
        case 2
        then show ?thesis using last open_new by simp
      qed
    qed
  qed (use no in \<open>simp add: s'_def\<close>)
  moreover have "adders_inv own' s'"
    unfolding adders_inv_def
  proof
    fix j
    have "adder_ok own (addresses s) (clock s) (adders s j)" using o(2) by (simp add: adders_inv_def)
    then have "adder_ok own' (addresses s') (clock s) (adders s j)" using old(2) n by (cases "adders s j") auto
    then show "adder_ok own' (addresses s') (clock s') (adders s' j)"
      using last(2) n by (cases "j = i") (simp_all add: s'_def)
  qed
  moreover have "content_inv own' s'"
  proof -
    have hd: "handed s' = handed s" "accepted s' = accepted s" by (simp_all add: s'_def)
    have ct: "content s' a = content s a" if "a < addresses s" for a
      using old(1)[OF that] by (simp add: content_def hd)
    have fresh: "accepted_at s' (addresses s) tk h = []" for tk h
      using o(3) by (fastforce simp: accepted_at_def content_inv_def s'_def)
    have at: "accepted_at s' = accepted_at s" by (simp add: s'_def)
    have "win_slot (content s' a) tk h = combine (accepted_at s' a tk h)" if "a < addresses s'" for a tk h
    proof (cases "a < addresses s")
      case True
      then show ?thesis using o(3) ct at by (simp add: content_inv_def)
    next
      case False
      then have "a = addresses s" using that n by simp
      then show ?thesis using fresh last(1) by (simp add: content_def win_slot_def new_windows_def)
    qed
    moreover have "{a. a < addresses s' \<and> ws_closed (obj s' a)} = {a. a < addresses s \<and> ws_closed (obj s a)}"
      using old(1) last(1) open_new n by (auto simp: less_Suc_eq)
    moreover have "\<forall>(ex, a, token, cal) \<in> set (accepted s'). a < addresses s' \<and> own' a = ex"
      using o(3) old(2) n hd by (fastforce simp: content_inv_def)
    ultimately show ?thesis using o(3) unfolding content_inv_def hd by auto
  qed
  ultimately show ?thesis unfolding sys_inv_def s'_def by blast
qed

lemma inv_look:
  assumes inv: "sys_inv s" and no: "collector s = None" and lk: "lookup_bucket ex (cache s) = (a, c)"
  shows "sys_inv (s\<lparr>cache := c, adders := (adders s)(i := Holding ex token cal a)\<rparr>)"
proof (cases "map_of (WindowsBuckets (cache s)) ex")
  case None
  with lk have "a = addresses s" "c = (cache s)\<lparr>heap := heap (cache s) @ [new_windows],
      WindowsBuckets := WindowsBuckets (cache s) @ [(ex, addresses s)]\<rparr>"
    by (auto simp: lookup_bucket_def)
  then show ?thesis using inv_new_bucket[OF inv no None] by simp
next
  case (Some b)
  then have ac: "a = b" "c = cache s" using lk by (simp_all add: lookup_bucket_def)
  obtain own where o: "buckets_inv own s" "adders_inv own s" "content_inv own s" using inv by (auto simp: sys_inv_def)
  have "a < addresses s \<and> own a = ex" using map_of_SomeD[OF Some] o(1) ac by (auto simp: buckets_inv_def)
  then have "adders_inv own (s\<lparr>adders := (adders s)(i := Holding ex token cal a)\<rparr>)"
    by (intro adders_upd o(2)) simp
  moreover have "s\<lparr>cache := c, adders := (adders s)(i := Holding ex token cal a)\<rparr> = s\<lparr>adders := (adders s)(i := Holding ex token cal a)\<rparr>"
    using ac by simp
  moreover have "buckets_inv own (s\<lparr>adders := (adders s)(i := Holding ex token cal a)\<rparr>)" using o(1) by (simp add: buckets_inv_def)
  moreover have "content_inv own (s\<lparr>adders := (adders s)(i := Holding ex token cal a)\<rparr>)" using o(3) by (simp add: content_inv_def)
  ultimately show ?thesis unfolding sys_inv_def by metis
qed

subsection \<open>Adding\<close>

lemma holding_address:
  assumes "sys_inv s" "adders s i = Holding ex token cal a"
  shows "a < addresses s" "win_ok (obj s a)" "ws_closed (obj s a) \<Longrightarrow> ex \<le> clock s"
proof -
  obtain own where o: "buckets_inv own s" "adders_inv own s" using assms(1) by (auto simp: sys_inv_def)
  have "adder_ok own (addresses s) (clock s) (Holding ex token cal a)" using o(2) assms(2) unfolding adders_inv_def by metis
  then have "a < addresses s" "own a = ex" by auto
  then show "a < addresses s" "win_ok (obj s a)" "ws_closed (obj s a) \<Longrightarrow> ex \<le> clock s"
    using o(1) by (auto simp: buckets_inv_def)
qed

lemma inv_add:
  assumes inv: "sys_inv s" and h: "adders s i = Holding ex token cal a" and ad: "add_at a token cal (cache s) = (True, c)"
  shows "sys_inv (s\<lparr>cache := c, adders := (adders s)(i := Idle), accepted := accepted s @ [(ex, a, token, cal)]\<rparr>)"
proof -
  obtain own where o: "buckets_inv own s" "adders_inv own s" "content_inv own s" using inv by (auto simp: sys_inv_def)
  note ha = holding_address[OF inv h]
  have own_a: "own a = ex" using o(2) h unfolding adders_inv_def by (metis adder_ok.simps(3))
  have op: "\<not> ws_closed (obj s a)" using ad by (auto simp: add_at_def addCal_def)
  obtain ws' where ws: "addCal token cal (obj s a) = (True, ws')" "win_ok ws'" "\<not> ws_closed ws'"
    "\<And>tk h. win_slot (WS ws') tk h = (if tk = token \<and> h = mb_hash (Base cal) then Some (absorb (win_slot (WS (obj s a)) tk h) cal)
       else win_slot (WS (obj s a)) tk h)"
    using addCal_open[OF ha(2) op, of token cal] by blast
  have c: "c = (cache s)\<lparr>heap := (heap (cache s))[a := ws']\<rparr>" using ad ws(1) by (simp add: add_at_def)
  define s' where "s' = s\<lparr>cache := c, adders := (adders s)(i := Idle), accepted := accepted s @ [(ex, a, token, cal)]\<rparr>"
  have n: "addresses s' = addresses s" by (simp add: s'_def c)
  have same: "obj s' b = (if b = a then ws' else obj s b)" if "b < addresses s" for b
    using that by (simp add: s'_def c nth_list_update)
  have closed: "ws_closed (obj s' b) = ws_closed (obj s b)" if "b < addresses s" for b
    using same[OF that] ws(3) op by auto
  have "buckets_inv own s'"
    unfolding buckets_inv_def
  proof (intro conjI)
    show "\<forall>(t, b) \<in> set (WindowsBuckets (cache s')). b < addresses s' \<and> own b = t \<and> \<not> ws_closed (obj s' b)"
      using o(1) closed unfolding n buckets_inv_def by (fastforce simp: s'_def c)
    show "\<forall>b < addresses s'. win_ok (obj s' b) \<and> (ws_closed (obj s' b) \<longrightarrow> own b \<le> clock s')"
    proof (intro allI impI)
      fix b assume "b < addresses s'"
      then have b: "b < addresses s" by (simp add: n)
      have "win_ok (obj s' b)" using o(1) same[OF b] ws(2) b by (simp add: buckets_inv_def)
      moreover have "own b \<le> clock s'" if "ws_closed (obj s' b)"
        using o(1) b that closed[OF b] by (simp add: buckets_inv_def s'_def)
      ultimately show "win_ok (obj s' b) \<and> (ws_closed (obj s' b) \<longrightarrow> own b \<le> clock s')" by blast
    qed
  qed (use o(1) in \<open>simp_all add: s'_def c buckets_inv_def\<close>)
  moreover have "adders_inv own s'"
    using o(2) unfolding adders_inv_def n by (simp add: s'_def)
  moreover have "content_inv own s'"
    unfolding content_inv_def
  proof (intro conjI)
    show "\<forall>(ex, b, token, cal) \<in> set (accepted s'). b < addresses s' \<and> own b = ex"
      using o(3) ha(1) own_a unfolding n by (auto simp: content_inv_def s'_def)
    show "\<forall>b < addresses s'. \<forall>tk h. win_slot (content s' b) tk h = combine (accepted_at s' b tk h)"
    proof (intro allI impI)
      fix b tk h assume "b < addresses s'"
      then have b: "b < addresses s" by (simp add: n)
      have old: "win_slot (content s b) tk h = combine (accepted_at s b tk h)" using o(3) b by (simp add: content_inv_def)
      have at: "accepted_at s' b tk h = accepted_at s b tk h @ (if b = a \<and> tk = token \<and> mb_hash (Base cal) = h then [cal] else [])"
        by (simp add: accepted_at_def s'_def)
      show "win_slot (content s' b) tk h = combine (accepted_at s' b tk h)"
      proof (cases "b = a")
        case True
        then have "content s' b = WS ws'" "content s b = WS (obj s a)"
          using same[OF b] ws(3) op by (simp_all add: content_def)
        then show ?thesis using ws(4)[of tk h] old at True by auto
      next
        case False
        then have "content s' b = content s b" using same[OF b] by (simp add: content_def) (simp add: s'_def)
        then show ?thesis using old False by (simp add: at)
      qed
    qed
    show "distinct (map fst (handed s'))" using o(3) by (simp add: content_inv_def s'_def)
    show "fst ` set (handed s') = {b. b < addresses s' \<and> ws_closed (obj s' b)}"
      using o(3) closed unfolding n content_inv_def by (auto simp: s'_def)
  qed
  ultimately show ?thesis unfolding sys_inv_def s'_def by blast
qed

lemma inv_refuse:
  assumes inv: "sys_inv s" and h: "adders s i = Holding ex token cal a" and ad: "add_at a token cal (cache s) = (False, c)"
  shows "sys_inv (s\<lparr>cache := c, adders := (adders s)(i := Refused ex token cal)\<rparr>)" "ex \<le> clock s"
proof -
  note ha = holding_address[OF inv h]
  have cl: "ws_closed (obj s a)"
  proof (rule ccontr)
    assume "\<not> ws_closed (obj s a)"
    then obtain ws' where "addCal token cal (obj s a) = (True, ws')" using addCal_open[OF ha(2), of token cal] by blast
    then show False using ad by (simp add: add_at_def)
  qed
  then have "c = cache s" using ad ha(1) by (simp add: add_at_def addCal_def)
  moreover show "ex \<le> clock s" using ha(3) cl by simp
  ultimately show "sys_inv (s\<lparr>cache := c, adders := (adders s)(i := Refused ex token cal)\<rparr>)"
    using inv_adder[OF inv, of "Refused ex token cal" i] by simp
qed

subsection \<open>Collecting\<close>

lemma inv_visit:
  assumes inv: "sys_inv s" and co: "collector s = Some (t, e # es)" and v: "collect_one t e ([], cache s) = (wss, c)"
  shows "sys_inv (s\<lparr>cache := c, collector := Some (t, es), handed := handed s @ (if fst e \<le> t then [(snd e, wss)] else [])\<rparr>)"
proof (cases "fst e \<le> t")
  case False
  then have "c = cache s" using v by (auto simp: collect_one_def split: prod.splits)
  moreover have "sys_inv (s\<lparr>collector := Some (t, es)\<rparr>)"
    using inv co by (intro inv_collector inv) (auto simp: sys_inv_def buckets_inv_def)
  ultimately show ?thesis using False by simp
next
  case True
  obtain u a where e: "e = (u, a)" by (cases e)
  obtain own where o: "buckets_inv own s" "adders_inv own s" "content_inv own s" using inv by (auto simp: sys_inv_def)
  have es: "t \<le> clock s" "set (e # es) \<subseteq> set (WindowsBuckets (cache s))" "distinct (e # es)"
    using o(1) co unfolding buckets_inv_def by blast+
  have ha: "a < addresses s" "own a = u" "\<not> ws_closed (obj s a)" using o(1) es(2) by (auto simp: buckets_inv_def e)
  define ws' where "ws' = snd (Windows_Close (obj s a))"
  have wss: "wss = WS (obj s a)" "c = (cache s)\<lparr>heap := (heap (cache s))[a := ws'], WindowsBuckets := AList.delete u (WindowsBuckets (cache s))\<rparr>"
    using v True by (auto simp: collect_one_def e Windows_Close_def ws'_def)
  define s' where "s' = s\<lparr>cache := c, collector := Some (t, es), handed := handed s @ [(a, wss)]\<rparr>"
  have n: "addresses s' = addresses s" by (simp add: s'_def wss)
  have same: "obj s' b = (if b = a then ws' else obj s b)" if "b < addresses s" for b
    using that by (simp add: s'_def wss nth_list_update)
  have cl: "ws_closed ws'" "win_ok ws'" by (simp_all add: ws'_def) (simp add: Windows_Close_def)
  have keep: "(v, b) \<in> set (AList.delete u (WindowsBuckets (cache s))) \<longleftrightarrow> (v, b) \<in> set (WindowsBuckets (cache s)) \<and> v \<noteq> u" for v b
    by (auto simp: AList.delete_eq)
  have other: "b \<noteq> a" if "(v, b) \<in> set (WindowsBuckets (cache s))" "v \<noteq> u" for v b
    using o(1) that ha(2) by (auto simp: buckets_inv_def)
  have keys: "v \<noteq> u" if "(v, b) \<in> set es" for v b
  proof
    assume "v = u"
    then have "(u, b) \<in> set (WindowsBuckets (cache s))" "(u, a) \<in> set (WindowsBuckets (cache s))" using es(2) that by (auto simp: e)
    moreover have "distinct (map fst (WindowsBuckets (cache s)))" using o(1) by (simp add: buckets_inv_def)
    ultimately have "b = a" by (meson eq_key_imp_eq_value)
    then show False using that es(3) \<open>v = u\<close> by (simp add: e)
  qed
  have b: "WindowsBuckets (cache s') = AList.delete u (WindowsBuckets (cache s))" by (simp add: s'_def wss)
  have "buckets_inv own s'"
    unfolding buckets_inv_def
  proof (intro conjI)
    show "distinct (map fst (WindowsBuckets (cache s')))"
      using o(1) unfolding b buckets_inv_def by (simp add: distinct_delete)
    show "\<forall>(v, b) \<in> set (WindowsBuckets (cache s')). b < addresses s' \<and> own b = v \<and> \<not> ws_closed (obj s' b)"
    proof clarify
      fix v d assume "(v, d) \<in> set (WindowsBuckets (cache s'))"
      then have vd: "(v, d) \<in> set (WindowsBuckets (cache s))" "v \<noteq> u" by (simp_all add: b keep)
      then have "d < addresses s \<and> own d = v \<and> \<not> ws_closed (obj s d)" using o(1) by (auto simp: buckets_inv_def)
      then show "d < addresses s' \<and> own d = v \<and> \<not> ws_closed (obj s' d)" using same other[OF vd] n by simp
    qed
    show "\<forall>b < addresses s'. win_ok (obj s' b) \<and> (ws_closed (obj s' b) \<longrightarrow> own b \<le> clock s')"
    proof (intro allI impI)
      fix d assume "d < addresses s'"
      then have d: "d < addresses s" by (simp add: n)
      then have "win_ok (obj s d) \<and> (ws_closed (obj s d) \<longrightarrow> own d \<le> clock s)" using o(1) by (simp add: buckets_inv_def)
      moreover have "own a \<le> clock s" using ha(2) es(1) True by (simp add: e)
      ultimately show "win_ok (obj s' d) \<and> (ws_closed (obj s' d) \<longrightarrow> own d \<le> clock s')"
        using same[OF d] cl by (auto simp: s'_def)
    qed
    show "\<forall>t' es'. collector s' = Some (t', es') \<longrightarrow> t' \<le> clock s' \<and> set es' \<subseteq> set (WindowsBuckets (cache s')) \<and> distinct es'"
      using es keys unfolding b by (auto simp: s'_def keep)
  qed
  moreover have "adders_inv own s'" using o(2) unfolding adders_inv_def n by (simp add: s'_def)
  moreover have "content_inv own s'"
    unfolding content_inv_def
  proof (intro conjI)
    have new: "a \<notin> fst ` set (handed s)" using o(3) ha(3) by (simp add: content_inv_def)
    show "\<forall>(ex, b, token, cal) \<in> set (accepted s'). b < addresses s' \<and> own b = ex"
      using o(3) unfolding n by (simp add: content_inv_def s'_def)
    show "\<forall>b < addresses s'. \<forall>tk h. win_slot (content s' b) tk h = combine (accepted_at s' b tk h)"
    proof (intro allI impI)
      fix d tk h assume "d < addresses s'"
      then have d: "d < addresses s" by (simp add: n)
      have "content s' d = content s d"
      proof (cases "d = a")
        case True
        then have "map_of (handed s') d = Some wss"
          using new by (simp add: s'_def map_add_def flip: map_of_eq_None_iff)
        then show ?thesis using True same[OF d] cl(1) ha(3) by (simp add: content_def wss(1))
      next
        case False
        then have "map_of (handed s') d = map_of (handed s) d" by (auto simp: s'_def map_add_def split: option.split)
        then show ?thesis using False same[OF d] by (simp add: content_def)
      qed
      moreover have "accepted_at s' d tk h = accepted_at s d tk h" by (simp add: s'_def)
      ultimately show "win_slot (content s' d) tk h = combine (accepted_at s' d tk h)"
        using o(3) d by (simp add: content_inv_def)
    qed
    show "distinct (map fst (handed s'))" using o(3) new by (simp add: content_inv_def s'_def)
    have "{b. b < addresses s' \<and> ws_closed (obj s' b)} = insert a {b. b < addresses s \<and> ws_closed (obj s b)}"
      using same n cl(1) ha(1) by auto
    then show "fst ` set (handed s') = {b. b < addresses s' \<and> ws_closed (obj s' b)}"
      using o(3) by (simp add: content_inv_def s'_def)
  qed
  ultimately show ?thesis using True unfolding sys_inv_def s'_def by (auto simp: e)
qed

subsection \<open>Reachable states\<close>

lemma inv_step:
  assumes st: "sys_step s s'" and inv: "sys_inv s"
  shows "sys_inv s'"
  using st
proof cases
  case (collect)
  have "distinct (WindowsBuckets (cache s))" using inv by (auto simp: sys_inv_def buckets_inv_def distinct_map)
  then show ?thesis using inv_collector[OF inv] collect by simp
qed (use inv inv_tick inv_look inv_add inv_refuse(1) inv_visit inv_adder inv_collector in \<open>auto intro!: inv_adder inv_collector\<close>)

lemma reach_inv: "reach_sys s \<Longrightarrow> sys_inv s"
  by (induction rule: reach_sys.induct) (auto simp: sys_inv_init intro: inv_step)

end
