(* ===== verification/Aggr_Seq.thy ===== *)
theory Aggr_Seq
  imports Aggr_Conc
begin

section \<open>The cache of metric windows, one call after the other\<close>

text \<open>
  Between calls no bucket of the map is closed.  Then the loop of \<open>getAndSetBucket\<close> ends in its first round, and what a cache holds for an
  expiry time, a token and a hash is the aggregate of the calculators that were added there.
\<close>

definition cache_ok :: "Cache \<Rightarrow> bool" where
  "cache_ok c \<longleftrightarrow>
     distinct (map fst (WindowsBuckets c)) \<and> distinct (map snd (WindowsBuckets c)) \<and>
     (\<forall>(t, a) \<in> set (WindowsBuckets c). a < length (heap c) \<and> \<not> ws_closed (heap c ! a) \<and> win_ok (heap c ! a))"

definition bucket_slot :: "Cache \<Rightarrow> int \<Rightarrow> string \<Rightarrow> 64 word \<Rightarrow> Calculator option" where
  "bucket_slot c ex token h =
     (case map_of (WindowsBuckets c) ex of None \<Rightarrow> None | Some a \<Rightarrow> win_slot (WS (heap c ! a)) token h)"

lemma cache_ok_new [simp]: "cache_ok (NewCache ex)"
  by (simp add: cache_ok_def NewCache_def)

lemma bucket_slot_new [simp]: "bucket_slot (NewCache d) ex token h = None"
  by (simp add: bucket_slot_def NewCache_def)

lemma cache_okD:
  "cache_ok c \<Longrightarrow> map_of (WindowsBuckets c) ex = Some a \<Longrightarrow> a < length (heap c) \<and> \<not> ws_closed (heap c ! a) \<and> win_ok (heap c ! a)"
  unfolding cache_ok_def by (drule map_of_SomeD) auto

lemma lookup_bucket_ok:
  assumes ok: "cache_ok c"
  obtains a c1 where "lookup_bucket ex c = (a, c1)" "cache_ok c1" "map_of (WindowsBuckets c1) ex = Some a" "Expired c1 = Expired c"
    "\<And>ex' tk h. bucket_slot c1 ex' tk h = bucket_slot c ex' tk h"
proof (cases "map_of (WindowsBuckets c) ex")
  case (Some a)
  then show ?thesis using that[of a c] ok by (simp add: lookup_bucket_def)
next
  case None
  define n where "n = length (heap c)"
  define c1 where "c1 = c\<lparr>heap := heap c @ [new_windows], WindowsBuckets := WindowsBuckets c @ [(ex, n)]\<rparr>"
  have low: "a < n" if "(t, a) \<in> set (WindowsBuckets c)" for t a using ok that by (auto simp: cache_ok_def n_def)
  then have "n \<notin> snd ` set (WindowsBuckets c)" by fastforce
  then have ok1: "cache_ok c1"
    using ok None low unfolding cache_ok_def
    by (auto simp: c1_def map_of_eq_None_iff nth_append n_def win_ok_def new_windows_def)
  have m: "map_of (WindowsBuckets c1) ex' = (if ex' = ex then Some n else map_of (WindowsBuckets c) ex')" for ex'
    using None by (auto simp: c1_def map_add_def split: option.split)
  have "bucket_slot c1 ex' tk h = bucket_slot c ex' tk h" for ex' tk h
  proof (cases "ex' = ex")
    case True
    then show ?thesis using None m by (simp add: bucket_slot_def c1_def n_def win_slot_def new_windows_def)
  next
    case False
    then show ?thesis using m low
      by (auto simp: bucket_slot_def c1_def nth_append n_def split: option.split dest!: map_of_SomeD)
  qed
  then show ?thesis
    using that[of n c1] ok1 m None by (simp add: lookup_bucket_def c1_def n_def)
qed

lemma add_at_ok:
  assumes ok: "cache_ok c" and m: "map_of (WindowsBuckets c) ex = Some a"
  obtains c1 where "add_at a token cal c = (True, c1)" "cache_ok c1" "Expired c1 = Expired c"
    "\<And>ex' tk h. bucket_slot c1 ex' tk h =
       (if ex' = ex \<and> tk = token \<and> h = mb_hash (Base cal) then Some (absorb (bucket_slot c ex' tk h) cal) else bucket_slot c ex' tk h)"
proof -
  note a = cache_okD[OF ok m]
  obtain ws' where ws: "addCal token cal (heap c ! a) = (True, ws')" "win_ok ws'" "\<not> ws_closed ws'"
    "\<And>tk h. win_slot (WS ws') tk h = (if tk = token \<and> h = mb_hash (Base cal) then Some (absorb (win_slot (WS (heap c ! a)) tk h) cal)
       else win_slot (WS (heap c ! a)) tk h)"
    using addCal_open[of "heap c ! a" token cal] a by blast
  define c1 where "c1 = c\<lparr>heap := (heap c)[a := ws']\<rparr>"
  have nth: "heap c1 ! b = (if b = a then ws' else heap c ! b)" if "b < length (heap c)" for b
    using that by (simp add: c1_def nth_list_update)
  have "b < length (heap c1) \<and> \<not> ws_closed (heap c1 ! b) \<and> win_ok (heap c1 ! b)" if "(t, b) \<in> set (WindowsBuckets c)" for t b
  proof -
    have "b < length (heap c) \<and> \<not> ws_closed (heap c ! b) \<and> win_ok (heap c ! b)" using ok that by (auto simp: cache_ok_def)
    then show ?thesis using ws(2,3) by (cases "b = a") (simp_all add: c1_def)
  qed
  then have "cache_ok c1" using ok by (auto simp: cache_ok_def c1_def)
  moreover have "bucket_slot c1 ex' tk h =
       (if ex' = ex \<and> tk = token \<and> h = mb_hash (Base cal) then Some (absorb (bucket_slot c ex' tk h) cal) else bucket_slot c ex' tk h)"
    for ex' tk h
  proof (cases "map_of (WindowsBuckets c) ex'")
    case None
    then show ?thesis using m by (auto simp: bucket_slot_def c1_def)
  next
    case (Some b)
    have "b = a \<longleftrightarrow> ex' = ex"
    proof
      assume "b = a"
      moreover have "inj_on snd (set (WindowsBuckets c))" using ok by (simp add: cache_ok_def distinct_map)
      ultimately show "ex' = ex" using map_of_SomeD[OF Some] map_of_SomeD[OF m] by (metis Pair_inject inj_onD snd_conv)
    qed (use Some m in simp)
    then show ?thesis using Some m nth cache_okD[OF ok Some] ws(4) by (cases "ex' = ex") (auto simp: bucket_slot_def c1_def)
  qed
  moreover have "add_at a token cal c = (True, c1)" using ws(1) by (simp add: add_at_def c1_def)
  moreover have "Expired c1 = Expired c" by (simp add: c1_def)
  ultimately show ?thesis using that by blast
qed

text \<open>The first round succeeds.\<close>

lemma getAndSetBucket_ok:
  assumes ok: "cache_ok c"
  obtains c1 where "getAndSetBucket clk ex token cal c = Some (True, c1)" "cache_ok c1" "Expired c1 = Expired c"
    "\<And>ex' tk h. bucket_slot c1 ex' tk h =
       (if ex' = ex \<and> tk = token \<and> h = mb_hash (Base cal) then Some (absorb (bucket_slot c ex' tk h) cal) else bucket_slot c ex' tk h)"
proof -
  obtain a c1 where l: "lookup_bucket ex c = (a, c1)" "cache_ok c1" "map_of (WindowsBuckets c1) ex = Some a" "Expired c1 = Expired c"
    "\<And>ex' tk h. bucket_slot c1 ex' tk h = bucket_slot c ex' tk h"
    using lookup_bucket_ok[OF ok] by blast
  obtain c2 where c2: "add_at a token cal c1 = (True, c2)" "cache_ok c2" "Expired c2 = Expired c1"
    "\<And>ex' tk h. bucket_slot c2 ex' tk h =
       (if ex' = ex \<and> tk = token \<and> h = mb_hash (Base cal) then Some (absorb (bucket_slot c1 ex' tk h) cal) else bucket_slot c1 ex' tk h)"
    using add_at_ok[OF l(2,3), where token = token and cal = cal] by blast
  have "getAndSetBucket clk ex token cal c = Some (True, c2)"
    using l(1) c2(1) by (simp add: getAndSetBucket.simps)
  then show ?thesis using that[OF _ c2(2)] c2(3,4) l(4,5) by simp
qed

subsection \<open>Whole batches\<close>

definition absorb_all :: "Calculator option \<Rightarrow> Calculator list \<Rightarrow> Calculator option" where
  "absorb_all o' cals = foldl (\<lambda>x cal. Some (absorb x cal)) o' cals"

lemma absorb_all_simps [simp]:
  "absorb_all x [] = x" "absorb_all x (cal # cals) = absorb_all (Some (absorb x cal)) cals"
  by (simp_all add: absorb_all_def)

lemma absorb_all_combine: "absorb_all None cals = combine cals"
  by (induction cals rule: rev_induct) (simp_all add: absorb_all_def)

lemma expiry_cong: "Expired c1 = Expired c \<Longrightarrow> expiry c1 = expiry c"
  by (simp add: expiry_def[abs_def])

lemma add_calculators_ok:
  assumes "cache_ok c"
  shows "\<exists>c'. add_calculators clk token cals (n, expN) c =
      Some ((n + length (filter (\<lambda>cal. clk < expiry c cal) cals), expN + length (filter (\<lambda>cal. \<not> clk < expiry c cal) cals)), c') \<and>
    cache_ok c' \<and> Expired c' = Expired c \<and>
    (\<forall>ex tk h. bucket_slot c' ex tk h = absorb_all (bucket_slot c ex tk h)
       (filter (\<lambda>cal. clk < expiry c cal \<and> expiry c cal = ex \<and> tk = token \<and> mb_hash (Base cal) = h) cals))"
  using assms
proof (induction cals arbitrary: c n expN)
  case Nil
  then show ?case by simp
next
  case (Cons cal cals)
  show ?case
  proof (cases "clk < expiry c cal")
    case False
    then show ?thesis using Cons.IH[OF Cons.prems, of n "expN + 1"] by auto
  next
    case True
    obtain c1 where c1: "getAndSetBucket clk (expiry c cal) token cal c = Some (True, c1)" "cache_ok c1" "Expired c1 = Expired c"
      "\<And>ex' tk h. bucket_slot c1 ex' tk h =
         (if ex' = expiry c cal \<and> tk = token \<and> h = mb_hash (Base cal) then Some (absorb (bucket_slot c ex' tk h) cal) else bucket_slot c ex' tk h)"
      using getAndSetBucket_ok[OF Cons.prems, where clk = clk and token = token and cal = cal] by metis
    then show ?thesis
      using Cons.IH[OF c1(2), of "n + 1" expN] True c1(1) by (auto simp: expiry_cong[OF c1(3)] c1(3,4))
  qed
qed

subsection \<open>Collecting\<close>

lemma collect_fold:
  assumes "distinct (map fst es)" "distinct (map snd es)"
  shows "fold (collect_one clk) es (wss, c) =
    (wss @ concat (map (\<lambda>(t, a). WS (heap c ! a)) (filter (\<lambda>(t, a). t \<le> clk) es)),
     c\<lparr>heap := fold (\<lambda>(t, a) hp. hp[a := snd (Windows_Close (hp ! a))]) (filter (\<lambda>(t, a). t \<le> clk) es) (heap c),
       WindowsBuckets := filter (\<lambda>(t, a). t \<notin> fst ` set (filter (\<lambda>(t, a). t \<le> clk) es)) (WindowsBuckets c)\<rparr>)"
  using assms
proof (induction es arbitrary: wss c)
  case Nil
  then show ?case by simp
next
  case (Cons e es)
  obtain t a where e: "e = (t, a)" by (cases e)
  show ?case
  proof (cases "t \<le> clk")
    case False
    then show ?thesis using Cons by (simp add: e collect_one_def)
  next
    case True
    define c1 where "c1 = c\<lparr>heap := (heap c)[a := snd (Windows_Close (heap c ! a))], WindowsBuckets := AList.delete t (WindowsBuckets c)\<rparr>"
    have "heap c1 ! b = heap c ! b" if "(u, b) \<in> set es" for u b
      using Cons.prems that by (force simp: e c1_def)
    then have m: "map (\<lambda>(t, a). WS (heap c1 ! a)) (filter (\<lambda>(t, a). t \<le> clk) es) = map (\<lambda>(t, a). WS (heap c ! a)) (filter (\<lambda>(t, a). t \<le> clk) es)"
      by auto
    have b: "filter (\<lambda>(u, b). u \<notin> fst ` set (filter (\<lambda>(t, a). t \<le> clk) es)) (WindowsBuckets c1) =
        filter (\<lambda>(u, b). u \<notin> fst ` set (filter (\<lambda>(t, a). t \<le> clk) (e # es))) (WindowsBuckets c)"
      using True by (auto simp: c1_def AList.delete_eq e intro!: filter_cong)
    have "fold (collect_one clk) (e # es) (wss, c) = fold (collect_one clk) es (wss @ WS (heap c ! a), c1)"
      using True by (simp add: e collect_one_def Windows_Close_def c1_def)
    also have "\<dots> = (wss @ WS (heap c ! a) @ concat (map (\<lambda>(t, a). WS (heap c ! a)) (filter (\<lambda>(t, a). t \<le> clk) es)),
        c1\<lparr>heap := fold (\<lambda>(t, a) hp. hp[a := snd (Windows_Close (hp ! a))]) (filter (\<lambda>(t, a). t \<le> clk) es) (heap c1),
          WindowsBuckets := filter (\<lambda>(t, a). t \<notin> fst ` set (filter (\<lambda>(t, a). t \<le> clk) es)) (WindowsBuckets c1)\<rparr>)"
      using Cons by (simp add: m)
    finally show ?thesis unfolding b using True by (simp add: e c1_def)
  qed
qed

end
