(* ===== verification/Aggr_Exact.thy ===== *)
theory Aggr_Exact
  imports Aggr_Conc
begin

section \<open>What the algorithms compute\<close>

subsection \<open>Distinct values\<close>

text \<open>
  \<open>represents S c\<close>: the state \<open>c\<close> stands for the set \<open>S\<close> of hashes, exactly while there are at most 4096, by a bitmap of their residues otherwise.
  The state is then a function of the set: neither the order of the values nor how they were spread over calculators matters.
\<close>

definition sketch_of :: "64 word set \<Rightarrow> 64 word list \<Rightarrow> bool" where
  "sketch_of S sk \<longleftrightarrow>
     length sk = countDistinctSketchBits div 64 \<and>
     (\<forall>i < countDistinctSketchBits. bit (sk ! (i div 64)) (i mod 64) \<longleftrightarrow> i \<in> (\<lambda>h. unat h mod countDistinctSketchBits) ` S)"

definition represents :: "64 word set \<Rightarrow> distinct_state \<Rightarrow> bool" where
  "represents S c \<longleftrightarrow>
     (if card S \<le> countDistinctExactLimit then snd c = None \<and> distinct (fst c) \<and> set (fst c) = S
      else fst c = [] \<and> (\<exists>sk. snd c = Some sk \<and> sketch_of S sk))"

lemma sketch_bits: "countDistinctSketchBits = 64 * 4096"
  by (simp add: countDistinctSketchBits_def)

lemma sketch_empty: "sketch_of {} (replicate (countDistinctSketchBits div 64) 0)"
  by (auto simp: sketch_of_def sketch_bits)

lemma sketch_add:
  assumes "sketch_of S sk"
  shows "sketch_of (insert h S) (addSketchHash h sk)"
  unfolding sketch_of_def
proof (intro conjI allI impI)
  let ?k = "unat h mod countDistinctSketchBits"
  have len: "length sk = 4096" using assms by (simp add: sketch_of_def sketch_bits)
  have k: "?k < 64 * 4096" by (simp add: sketch_bits)
  then have kd: "?k div 64 < 4096" by simp
  show "length (addSketchHash h sk) = countDistinctSketchBits div 64"
    using len by (simp add: addSketchHash_def Let_def sketch_bits)
  fix i assume i: "i < countDistinctSketchBits"
  have one: "bit (push_bit m 1 :: 64 word) n \<longleftrightarrow> m = n" if "m < 64" "n < 64" for m n
    using that by (auto simp: bit_exp_iff)
  have "bit (addSketchHash h sk ! (i div 64)) (i mod 64) \<longleftrightarrow> bit (sk ! (i div 64)) (i mod 64) \<or> i = ?k"
  proof (cases "i div 64 = ?k div 64")
    case True
    then have "addSketchHash h sk ! (i div 64) = or (sk ! (i div 64)) (push_bit (?k mod 64) 1)"
      using len kd by (simp add: addSketchHash_def Let_def)
    moreover have "?k mod 64 = i mod 64 \<longleftrightarrow> i = ?k" using True by (metis div_mult_mod_eq)
    ultimately show ?thesis using one[of "?k mod 64" "i mod 64"] by (simp add: bit_or_iff)
  next
    case False
    then have "addSketchHash h sk ! (i div 64) = sk ! (i div 64)" by (simp add: addSketchHash_def Let_def)
    then show ?thesis using False by auto
  qed
  then show "bit (addSketchHash h sk ! (i div 64)) (i mod 64) \<longleftrightarrow> i \<in> (\<lambda>h. unat h mod countDistinctSketchBits) ` insert h S"
    using assms i by (auto simp: sketch_of_def)
qed

lemma sketch_fold: "sketch_of S sk \<Longrightarrow> sketch_of (S \<union> set hs) (fold addSketchHash hs sk)"
  by (induction hs arbitrary: S sk) (use sketch_add in \<open>fastforce+\<close>)

lemma sketch_or:
  assumes "sketch_of A a" "sketch_of B b"
  shows "sketch_of (A \<union> B) (map2 or a b)"
  using assms by (auto simp: sketch_of_def sketch_bits bit_or_iff image_Un less_mult_imp_div_less)

lemma ensureSketch_sketch:
  assumes "represents S c"
  shows "\<exists>sk. ensureSketch c = ([], Some sk) \<and> sketch_of S sk"
proof (cases "card S \<le> countDistinctExactLimit")
  case True
  with assms obtain dv where "c = (dv, None)" "set dv = S" by (cases c) (auto simp: represents_def)
  then show ?thesis using sketch_fold[OF sketch_empty, of dv] by (simp add: ensureSketch_def)
next
  case False
  with assms show ?thesis by (cases c) (auto simp: represents_def ensureSketch_def)
qed

lemma addHash_represents:
  assumes r: "represents S c"
  shows "represents (insert h S) (addHash h c)"
proof -
  obtain dv sk where c: "c = (dv, sk)" by (cases c)
  show ?thesis
  proof (cases "card S \<le> countDistinctExactLimit")
    case False
    then obtain s where s: "dv = []" "sk = Some s" "sketch_of S s" using r by (auto simp: represents_def c)
    have "card S \<le> card (insert h S)" by (simp add: card_insert_le)
    then show ?thesis using False s sketch_add[OF s(3), of h] by (simp add: represents_def addHash_def c)
  next
    case True
    then have e: "sk = None" "distinct dv" "set dv = S" using r by (auto simp: represents_def c)
    then have n: "length dv = card S" using distinct_card by fastforce
    consider (old) "h \<in> S" | (room) "h \<notin> S" "card S < countDistinctExactLimit" | (full) "h \<notin> S" "card S = countDistinctExactLimit"
      using True by linarith
    then show ?thesis
    proof cases
      case old
      then show ?thesis using e True by (simp add: represents_def addHash_def c insert_absorb)
    next
      case room
      then show ?thesis using e n by (simp add: represents_def addHash_def c)
    next
      case full
      obtain s where s: "ensureSketch c = ([], Some s)" "sketch_of S s" using ensureSketch_sketch[OF r] by blast
      then have "addHash h c = ([], Some (addSketchHash h s))" using full e n by (simp add: addHash_def c)
      then show ?thesis using full sketch_add[OF s(2), of h] by (simp add: represents_def)
    qed
  qed
qed

lemma fold_addHash: "represents S c \<Longrightarrow> represents (S \<union> set hs) (fold addHash hs c)"
proof (induction hs arbitrary: S c)
  case (Cons h hs)
  then show ?case using Cons.IH[OF addHash_represents[OF Cons.prems, of h]] by simp
qed simp

lemma join_represents:
  assumes "represents A c" "represents B d"
  shows "represents (A \<union> B) (join_distinct c d)"
proof (cases "card B \<le> countDistinctExactLimit")
  case True
  then obtain dv where "d = (dv, None)" "set dv = B" using assms(2) by (cases d) (auto simp: represents_def)
  then show ?thesis using fold_addHash[OF assms(1), of dv] by (simp add: join_distinct_def)
next
  case False
  then obtain s where d: "d = ([], Some s)" "sketch_of B s" using assms(2) by (cases d) (auto simp: represents_def)
  obtain k where k: "ensureSketch c = ([], Some k)" "sketch_of A k" using ensureSketch_sketch[OF assms(1)] by blast
  have "card B \<le> card (A \<union> B)" by (simp add: card_mono)
  then show ?thesis using False d k sketch_or[OF k(2) d(2)] by (simp add: represents_def join_distinct_def)
qed

lemma newAlgoCountDistinct_state:
  "newAlgoCountDistinct l mb t v = algoCountDistinct mb t [hashDistinctValue l v] None"
  by (simp add: newAlgoCountDistinct_def addHash_def countDistinctExactLimit_def)

lemma represents_single: "represents {h} ([h], None)"
  by (simp add: represents_def countDistinctExactLimit_def)

lemma represents_count:
  assumes "represents S c" "card S \<le> countDistinctExactLimit"
  shows "distinct_count l c = int (card S)"
  using assms by (cases c) (auto simp: represents_def distinct_count_def distinct_card)

text \<open>Calculators of single values, added up.\<close>

lemma distinct_foldl:
  assumes "represents S (dv, sk)"
  shows "\<exists>dv' sk'. foldl Add (algoCountDistinct b t dv sk) (map (\<lambda>(mb, u, v). newAlgoCountDistinct l mb u v) xs) =
      algoCountDistinct b (Max (insert t ((\<lambda>(mb, u, v). u) ` set xs))) dv' sk' \<and>
    represents (S \<union> (\<lambda>(mb, u, v). hashDistinctValue l v) ` set xs) (dv', sk')"
  using assms
proof (induction xs arbitrary: t S dv sk)
  case Nil
  then show ?case by auto
next
  case (Cons x xs)
  obtain mb u v where x: "x = (mb, u, v)" by (cases x)
  obtain dv1 sk1 where j: "join_distinct (dv, sk) ([hashDistinctValue l v], None) = (dv1, sk1)" by fastforce
  have r: "represents (S \<union> {hashDistinctValue l v}) (dv1, sk1)"
    using join_represents[OF Cons.prems represents_single[of "hashDistinctValue l v"]] unfolding j .
  have t: "Max (insert (if u > t then u else t) M) = Max (insert t (insert u M))" if "finite M" for M :: "int set"
    using that by (cases "M = {}") (auto simp: max_def)
  show ?case
    using Cons.IH[OF r, of "if u > t then u else t"] j
    by (simp add: x newAlgoCountDistinct_state t Un_insert_left insert_commute)
qed

subsection \<open>Minimum, maximum, count and sum\<close>

lemma Max_insert_if: "finite M \<Longrightarrow> Max (insert (if (t :: int) < u then u else t) M) = Max (insert t (insert u M))"
  by (cases "M = {}") (auto simp: max_def)

lemma Max_f64: "finite M \<Longrightarrow> x \<noteq> FNaN \<Longrightarrow> Max (insert (if f64_lt x y then y else x) M) = Max (insert x (insert y M))"
  by (cases "M = {}") (auto simp: max_def f64_lt_less)

lemma Min_f64: "finite M \<Longrightarrow> y \<noteq> FNaN \<Longrightarrow> Min (insert (if f64_lt y x then y else x) M) = Min (insert x (insert y M))"
  by (cases "M = {}") (auto simp: min_def f64_lt_less)

lemma to_i64_step: "to_i64 (to_i64 n + m) = to_i64 (n + m)" "to_i64 (m + to_i64 n) = to_i64 (m + n)"
proof -
  have "(n + 2 ^ 63) mod 2 ^ 64 - 2 ^ 63 + m + 2 ^ 63 = (n + 2 ^ 63) mod 2 ^ 64 + m" by simp
  then show "to_i64 (to_i64 n + m) = to_i64 (n + m)"
    unfolding to_i64_def by (simp only: mod_add_left_eq) (simp add: ac_simps)
  then show "to_i64 (m + to_i64 n) = to_i64 (m + n)" by (simp only: add.commute)
qed

lemma max_foldl:
  "x \<noteq> FNaN \<Longrightarrow> \<forall>(b, u, y) \<in> set ps. y \<noteq> FNaN \<Longrightarrow>
   foldl Add (algoMax mb t n x) (map (\<lambda>(b, u, y). algoMax b u 1 y) ps) =
     algoMax mb (Max (insert t ((\<lambda>(b, u, y). u) ` set ps)))
       (if ps = [] then n else to_i64 (n + int (length ps))) (Max (insert x ((\<lambda>(b, u, y). y) ` set ps)))"
proof (induction ps arbitrary: t n x)
  case (Cons p ps)
  obtain b u y where p: "p = (b, u, y)" by (cases p)
  have "y \<noteq> FNaN" using Cons.prems p by auto
  then have "(if f64_lt x y then y else x) \<noteq> FNaN" using Cons.prems by simp
  then show ?case using Cons
    by (simp add: p Max_insert_if Max_f64 to_i64_step insert_commute ac_simps)
qed simp

lemma min_foldl:
  "x \<noteq> FNaN \<Longrightarrow> \<forall>(b, u, y) \<in> set ps. y \<noteq> FNaN \<Longrightarrow>
   foldl Add (algoMin mb t n x) (map (\<lambda>(b, u, y). algoMin b u 1 y) ps) =
     algoMin mb (Max (insert t ((\<lambda>(b, u, y). u) ` set ps)))
       (if ps = [] then n else to_i64 (n + int (length ps))) (Min (insert x ((\<lambda>(b, u, y). y) ` set ps)))"
proof (induction ps arbitrary: t n x)
  case (Cons p ps)
  obtain b u y where p: "p = (b, u, y)" by (cases p)
  have y: "y \<noteq> FNaN" using Cons.prems p by auto
  then have "(if f64_lt y x then y else x) \<noteq> FNaN" using Cons.prems by simp
  then show ?case using Cons y
    by (simp add: p Max_insert_if Min_f64 to_i64_step insert_commute ac_simps)
qed simp

lemma sum_foldl:
  "foldl Add (algoSum mb d t n) (map (\<lambda>(b, u, y). algoSum b y u 1) ps) =
     algoSum mb (foldl f64_add d (map (\<lambda>(b, u, y). y) ps)) (Max (insert t ((\<lambda>(b, u, y). u) ` set ps)))
       (if ps = [] then n else to_i64 (n + int (length ps)))"
proof (induction ps arbitrary: t n d)
  case (Cons p ps)
  obtain b u y where p: "p = (b, u, y)" by (cases p)
  show ?case using Cons by (simp add: p Max_insert_if to_i64_step insert_commute ac_simps)
qed simp

end
