(* ===== verification/Aggr_Config.thy ===== *)
theory Aggr_Config
  imports Aggr_Window
begin

section \<open>Metric aggregation: configuration (aggregate/aggr\_config.go, aggr\_selector.go, whitelist.go)\<close>

text \<open>
  A configuration is a list of rules; a rule selects points and names, for each key, an algorithm.  \<open>Setup\<close> validates it and fills in what
  selecting and grouping need.  Errors are values; where the source returns in the middle, the rules before are already set up.  The parser of conditions, the order in which
  the table of categories is searched, regular expressions and the hash of the JSON text of a configuration are parameters.
\<close>

subsection \<open>White lists\<close>

record WhiteListItem =
  wl_s :: string
  wl_re :: bool

text \<open>\<open>None\<close> is the panic of \<open>MustCompile\<close>.\<close>

definition NewWhiteListItem :: "regexp \<Rightarrow> string \<Rightarrow> WhiteListItem option" where
  "NewWhiteListItem rx pattern =
     (let p = TrimSpace pattern in
      if take 4 p = ''reg:''
      then if compiles rx (drop 4 p) then Some \<lparr>wl_s = drop 4 p, wl_re = True\<rparr> else None
      else Some \<lparr>wl_s = p, wl_re = False\<rparr>)"

definition IsRegex :: "WhiteListItem \<Rightarrow> bool" where
  "IsRegex item = wl_re item"

definition WhiteList_Match :: "regexp \<Rightarrow> string \<Rightarrow> WhiteListItem \<Rightarrow> bool" where
  "WhiteList_Match rx val item = (if wl_re item then rx (wl_s item) val = Some True else wl_s item = val)"

definition WhiteListMatched :: "regexp \<Rightarrow> string \<Rightarrow> WhiteListItem list \<Rightarrow> bool" where
  "WhiteListMatched rx val arr = list_ex (WhiteList_Match rx val) arr"

subsection \<open>Selectors\<close>

record RuleSelector =
  rs_Category :: string
  rs_Measurements :: "string list"
  rs_MetricName :: "string list"
  rs_Condition :: string
  measurementsWhitelist :: "WhiteListItem list"
  fieldsWhitelist :: "WhiteListItem list"
  rs_conds :: WhereConditions

datatype aggr_err =
    InvalidAction string | NilRule | NoSelector string | InvalidCategory string | BadCondition string
  | EmptyName | NilAlgo string | NotSupported string string | NoMethod string | UnknownMethod string string
  | NoPercentiles string | PercentileRange string f64

definition selectable :: "Category list" where
  "selectable = [Metric, Network, KeyEvent, Object, ObjectChange, CustomObject, Logging, Tracing, RUM, Security, Profiling, DialTesting, AgentLLM]"

text \<open>A set-up may also panic, on a regular expression that does not compile: the result is then \<open>None\<close>.\<close>

definition new_items :: "regexp \<Rightarrow> string list \<Rightarrow> WhiteListItem list option" where
  "new_items rx ps = those (map (NewWhiteListItem rx) ps)"

definition Selector_Setup ::
  "(Category \<times> string) list \<Rightarrow> get_conds \<Rightarrow> regexp \<Rightarrow> RuleSelector \<Rightarrow> (aggr_err option \<times> RuleSelector) option" where
  "Selector_Setup order gc rx rs =
     (if CatString order (rs_Category rs) \<notin> set selectable then Some (Some (InvalidCategory (rs_Category rs)), rs)
      else case (if rs_Condition rs \<noteq> [] then map_option (\<lambda>ast. rs\<lparr>rs_conds := ast\<rparr>) (gc (rs_Condition rs)) else Some rs) of
             None \<Rightarrow> Some (Some (BadCondition (rs_Condition rs)), rs)
           | Some rs1 \<Rightarrow>
               (case (new_items rx (rs_Measurements rs), new_items rx (rs_MetricName rs)) of
                  (Some ms, Some fs) \<Rightarrow>
                    Some (None, rs1\<lparr>measurementsWhitelist := measurementsWhitelist rs1 @ ms, fieldsWhitelist := fieldsWhitelist rs1 @ fs\<rparr>)
                | _ \<Rightarrow> None))"

subsection \<open>Algorithms\<close>

record AggregationAlgoConfig =
  ac_Method :: string
  ac_SourceField :: string
  ac_Window :: int
  ac_AddTags :: "(string \<times> string) list"
  ac_HistogramOpts :: "f64 list option"
  ac_ExpoOpts :: "(int \<times> int \<times> bool) option"
  ac_QuantileOpts :: "f64 list option"

definition ToAggregationAlgo :: "AggregationAlgoConfig option \<Rightarrow> AggregationAlgo option" where
  "ToAggregationAlgo cfg =
     map_option (\<lambda>c. \<lparr>al_Method = ac_Method c, al_SourceField = ac_SourceField c, al_Window = ac_Window c, al_AddTags = ac_AddTags c,
        al_Options = (case ac_HistogramOpts c of
             Some h \<Rightarrow> Some (HistogramOpts h)
           | None \<Rightarrow> (case ac_ExpoOpts c of
                       Some (a, b, r) \<Rightarrow> Some (ExpoOpts a b r)
                     | None \<Rightarrow> map_option (\<lambda>q. QuantileOpts (Some q)) (ac_QuantileOpts c)))\<rparr>) cfg"

definition supported_methods :: "AlgoMethod list" where
  "supported_methods = [M_SUM, M_AVG, M_COUNT, M_MIN, M_MAX, M_HISTOGRAM, M_STDEV, M_QUANTILES, M_COUNT_DISTINCT, M_LAST, M_FIRST]"

definition bad_percentile :: "f64 \<Rightarrow> bool" where
  "bad_percentile p \<longleftrightarrow> f64_lt p (FFin 0) \<or> f64_lt (FFin 1) p"

definition validateAggregationAlgo :: "lib \<Rightarrow> string \<Rightarrow> AggregationAlgo option \<Rightarrow> aggr_err option" where
  "validateAggregationAlgo l key algo =
     (if TrimSpace key = [] then Some EmptyName
      else case algo of
             None \<Rightarrow> Some (NilAlgo key)
           | Some a \<Rightarrow>
               (let method = NormalizeAlgoMethod l (al_Method a) in
                if method \<notin> set supported_methods
                then Some (if method = M_EXPO_HISTOGRAM then NotSupported key (al_Method a)
                           else if method = M_UNSPECIFIED then NoMethod key
                           else UnknownMethod key (al_Method a))
                else if method = M_QUANTILES
                then (case al_Options a of
                        Some (QuantileOpts (Some ps)) \<Rightarrow>
                          (if ps = [] then Some (NoPercentiles key)
                           else map_option (PercentileRange key) (find bad_percentile ps))
                      | _ \<Rightarrow> Some (NoPercentiles key))
                else None))"

record AggregateRule =
  ar_Name :: string
  ar_Selector :: "RuleSelector option"
  ar_Groupby :: "string list"
  ar_Algorithms :: "(string \<times> AggregationAlgoConfig option) list"
  aggregationOpts :: "(string \<times> AggregationAlgo option) list"

record AggregatorConfigure =
  DefaultWindow :: int
  AggregateRules :: "AggregateRule option list"
  DefaultAction :: string
  DeleteRulesPoint :: bool
  cfg_hash :: "64 word"

definition setupAlgorithms :: "AggregateRule \<Rightarrow> (string \<times> AggregationAlgo option) list" where
  "setupAlgorithms ar = map (\<lambda>(key, cfg). (key, ToAggregationAlgo cfg)) (ar_Algorithms ar)"

text \<open>The algorithms with their windows filled in, or the first error.\<close>

fun check_algorithms ::
  "lib \<Rightarrow> int \<Rightarrow> (string \<times> AggregationAlgo option) list \<Rightarrow> aggr_err + (string \<times> AggregationAlgo option) list" where
  "check_algorithms l win [] = Inr []"
| "check_algorithms l win ((key, algo) # as) =
     (case validateAggregationAlgo l key algo of
        Some e \<Rightarrow> Inl e
      | None \<Rightarrow>
          (case check_algorithms l win as of
             Inl e \<Rightarrow> Inl e
           | Inr r \<Rightarrow> Inr ((key, map_option (\<lambda>a. if al_Window a \<le> 10 then a\<lparr>al_Window := win\<rparr> else a) algo) # r)))"

definition setup_rule ::
  "(Category \<times> string) list \<Rightarrow> get_conds \<Rightarrow> regexp \<Rightarrow> lib \<Rightarrow> int \<Rightarrow> AggregateRule option \<Rightarrow> (aggr_err option \<times> AggregateRule option) option" where
  "setup_rule order gc rx l win rule =
     (case rule of
        None \<Rightarrow> Some (Some NilRule, None)
      | Some ar \<Rightarrow>
          (case ar_Selector ar of
             None \<Rightarrow> Some (Some (NoSelector (ar_Name ar)), Some ar)
           | Some rs \<Rightarrow>
               (case Selector_Setup order gc rx rs of
                  None \<Rightarrow> None
                | Some (Some e, rs1) \<Rightarrow> Some (Some e, Some (ar\<lparr>ar_Selector := Some rs1\<rparr>))
                | Some (None, rs1) \<Rightarrow>
                    (let ar1 = ar\<lparr>ar_Selector := Some rs1\<rparr> in
                     case check_algorithms l win (setupAlgorithms ar1) of
                       Inl e \<Rightarrow> Some (Some e, Some ar1)
                     | Inr algos \<Rightarrow> Some (None, Some (ar1\<lparr>aggregationOpts := algos, ar_Groupby := sort (ar_Groupby ar1)\<rparr>))))))"

fun setup_rules ::
  "(Category \<times> string) list \<Rightarrow> get_conds \<Rightarrow> regexp \<Rightarrow> lib \<Rightarrow> int \<Rightarrow> AggregateRule option list \<Rightarrow> (aggr_err option \<times> AggregateRule option list) option" where
  "setup_rules order gc rx l win [] = Some (None, [])"
| "setup_rules order gc rx l win (r # rs) =
     (case setup_rule order gc rx l win r of
        None \<Rightarrow> None
      | Some (Some e, r1) \<Rightarrow> Some (Some e, r1 # rs)
      | Some (None, r1) \<Rightarrow> map_option (\<lambda>(e, rs1). (e, r1 # rs1)) (setup_rules order gc rx l win rs))"

definition Configure_Setup ::
  "(Category \<times> string) list \<Rightarrow> get_conds \<Rightarrow> regexp \<Rightarrow> (AggregatorConfigure \<Rightarrow> 64 word option) \<Rightarrow> lib \<Rightarrow> AggregatorConfigure
   \<Rightarrow> (aggr_err option \<times> AggregatorConfigure) option" where
  "Configure_Setup order gc rx json_hash l ac =
     (if DefaultAction ac \<notin> {[], ''passthrough'', ''drop''} then Some (Some (InvalidAction (DefaultAction ac)), ac)
      else case setup_rules order gc rx l (DefaultWindow ac) (AggregateRules ac) of
             None \<Rightarrow> None
           | Some (Some e, rules) \<Rightarrow> Some (Some e, ac\<lparr>AggregateRules := rules\<rparr>)
           | Some (None, rules) \<Rightarrow>
               (let ac1 = ac\<lparr>AggregateRules := rules\<rparr>
                in Some (None, case json_hash ac1 of Some h \<Rightarrow> ac1\<lparr>cfg_hash := h\<rparr> | None \<Rightarrow> ac1)))"

subsection \<open>What a configuration that was set up has\<close>

definition algo_ok :: "lib \<Rightarrow> string \<times> AggregationAlgo option \<Rightarrow> bool" where
  "algo_ok l e \<longleftrightarrow> (case e of (key, algo) \<Rightarrow> TrimSpace key \<noteq> [] \<and> (case algo of None \<Rightarrow> False | Some a \<Rightarrow>
     NormalizeAlgoMethod l (al_Method a) \<in> set supported_methods))"

definition window_set :: "int \<Rightarrow> string \<times> AggregationAlgo option \<Rightarrow> bool" where
  "window_set win e \<longleftrightarrow> (case e of (key, algo) \<Rightarrow> case algo of None \<Rightarrow> False | Some a \<Rightarrow> al_Window a > 10 \<or> al_Window a = win)"

lemma validated: "validateAggregationAlgo l key algo = None \<Longrightarrow> algo_ok l (key, algo)"
  by (auto simp: validateAggregationAlgo_def algo_ok_def Let_def split: option.splits if_splits)

lemma check_algorithms_ok:
  "check_algorithms l win as = Inr algos \<Longrightarrow>
     map fst algos = map fst as \<and> list_all (algo_ok l) algos \<and>
     list_all (window_set win) algos"
proof (induction as arbitrary: algos)
  case (Cons e as)
  obtain key algo where e: "e = (key, algo)" by (cases e)
  from Cons.prems obtain r where r: "validateAggregationAlgo l key algo = None" "check_algorithms l win as = Inr r"
    "algos = (key, map_option (\<lambda>a. if al_Window a \<le> 10 then a\<lparr>al_Window := win\<rparr> else a) algo) # r"
    by (auto simp: e split: option.splits sum.splits)
  show ?case using Cons.IH[OF r(2)] validated[OF r(1)] r(3) by (auto simp: e algo_ok_def window_set_def split: option.splits)
qed simp

text \<open>\<open>rule_ready\<close>: what selecting and grouping with the rule rely on.\<close>

definition rule_ready :: "lib \<Rightarrow> int \<Rightarrow> AggregateRule option \<Rightarrow> bool" where
  "rule_ready l win rule \<longleftrightarrow>
     (case rule of None \<Rightarrow> False | Some ar \<Rightarrow>
        ar_Selector ar \<noteq> None \<and> sorted (ar_Groupby ar) \<and> map fst (aggregationOpts ar) = map fst (ar_Algorithms ar) \<and>
        list_all (algo_ok l) (aggregationOpts ar) \<and>
        list_all (window_set win) (aggregationOpts ar))"

lemma setup_rule_ready: "setup_rule order gc rx l win rule = Some (None, rule') \<Longrightarrow> rule_ready l win rule'"
  by (auto simp: setup_rule_def rule_ready_def Let_def setupAlgorithms_def comp_def case_prod_beta split: option.splits prod.splits sum.splits
      dest!: check_algorithms_ok)

lemma setup_rules_ready: "setup_rules order gc rx l win rs = Some (None, rs') \<Longrightarrow> list_all (rule_ready l win) rs' \<and> length rs' = length rs"
proof (induction rs arbitrary: rs')
  case (Cons r rs)
  then show ?case by (auto split: option.splits prod.splits dest: setup_rule_ready)
qed simp

section \<open>Metric aggregation: selecting and grouping points (aggregate/aggr\_selector.go, aggr.go, point.go)\<close>

text \<open>
  Every selected field of a point becomes a point of its own, with the tags it is grouped by, and travels as a batch of one point.  Points come as
  their messages; a panic (of a condition, or of the checks of a new point) is \<open>None\<close>.  \<open>selectKVS\<close> is only called without
  deleting the key.
\<close>

subsection \<open>Selecting\<close>

text \<open>\<open>Raw\<close>: the value behind an \<open>any\<close>.\<close>

definition val_raw :: "lib \<Rightarrow> field_val option \<Rightarrow> raw" where
  "val_raw l v =
     (case v of
        None \<Rightarrow> RawNil
      | Some (Field_I i) \<Rightarrow> RawInt i
      | Some (Field_U u) \<Rightarrow> RawUint u
      | Some (Field_F x) \<Rightarrow> RawFloat x
      | Some (Field_B b) \<Rightarrow> RawBool b
      | Some (Field_D d) \<Rightarrow> RawBytes d
      | Some (Field_S s) \<Rightarrow> RawString s
      | Some (Field_A a) \<Rightarrow> l_raw l a)"

text \<open>The value of a forked field; integers become floats, arrays are left out.\<close>

definition fork_value :: "field_val option \<Rightarrow> raw option" where
  "fork_value v =
     (case v of
        Some (Field_F x) \<Rightarrow> Some (RawFloat x)
      | Some (Field_I i) \<Rightarrow> Some (RawFloat (f64_of_int i))
      | Some (Field_U u) \<Rightarrow> Some (RawFloat (f64_of_int u))
      | Some (Field_S s) \<Rightarrow> Some (RawString s)
      | Some (Field_D d) \<Rightarrow> Some (RawBytes d)
      | Some (Field_B b) \<Rightarrow> Some (RawBool b)
      | _ \<Rightarrow> None)"

definition selected_kvs :: "regexp \<Rightarrow> RuleSelector \<Rightarrow> Point_Kvs.KVs \<Rightarrow> (string \<times> raw) list" where
  "selected_kvs rx rs kvs =
     List.map_filter (\<lambda>kv. if WhiteListMatched rx (fKey kv) (fieldsWhitelist rs) \<and> \<not> fIsTag kv
                            then map_option (\<lambda>v. (fKey kv, v)) (fork_value (fVal kv)) else None) kvs"

definition selectKVS :: "lib \<Rightarrow> regexp \<Rightarrow> RuleSelector \<Rightarrow> PBPoint \<Rightarrow> Point list option" where
  "selectKVS l rx rs pt =
     (if fieldsWhitelist rs = [] then Some []
      else those (map (\<lambda>(k, v). new_point l (pb_name pt) (AddVal (l_mk l) k v [] []) (pb_time pt)) (selected_kvs rx rs (pb_fields pt))))"

definition copy_tag :: "lib \<Rightarrow> PBPoint \<Rightarrow> string \<Rightarrow> Point \<Rightarrow> Point" where
  "copy_tag l pt k p =
     (let v = GetTag k (pb_fields pt);
          p1 = (if v \<noteq> [] then Point_SetTag (l_mk l) k v p else p);
          x = (case GetKV k (pb_fields pt) of None \<Rightarrow> RawNil | Some f \<Rightarrow> val_raw l (fVal f))
      in if x \<noteq> RawNil then Point_Add (l_mk l) k x p1 else p1)"

definition select_point :: "lib \<Rightarrow> regexp \<Rightarrow> RuleSelector \<Rightarrow> string list \<Rightarrow> PBPoint \<Rightarrow> Point list option" where
  "select_point l rx rs groupby pt =
     (if measurementsWhitelist rs \<noteq> [] \<and> \<not> WhiteListMatched rx (pb_name pt) (measurementsWhitelist rs) then Some []
      else case (if rs_conds rs \<noteq> [] then conds_Eval rx (ptWrap_Get (pb_fields pt)) 0 (rs_conds rs) else Some 0) of
             None \<Rightarrow> None
           | Some x \<Rightarrow>
               (if x < 0 then Some []
                else map_option (map (fold (copy_tag l pt) groupby)) (selectKVS l rx rs pt)))"

definition doSelect :: "lib \<Rightarrow> regexp \<Rightarrow> RuleSelector \<Rightarrow> string list \<Rightarrow> PBPoint list \<Rightarrow> Point list option" where
  "doSelect l rx rs groupby pts = map_option concat (those (map (select_point l rx rs groupby) pts))"

text \<open>A selector that is \<open>nil\<close> is dereferenced.\<close>

definition Rule_SelectPoints :: "lib \<Rightarrow> regexp \<Rightarrow> AggregateRule \<Rightarrow> PBPoint list \<Rightarrow> Point list option" where
  "Rule_SelectPoints l rx ar pts =
     (case ar_Selector ar of None \<Rightarrow> None | Some rs \<Rightarrow> doSelect l rx rs (ar_Groupby ar) pts)"

definition Configure_SelectPoints :: "lib \<Rightarrow> regexp \<Rightarrow> AggregatorConfigure \<Rightarrow> PBPoint list \<Rightarrow> Point list list option" where
  "Configure_SelectPoints l rx ac pts =
     those (map (\<lambda>ar. case ar of None \<Rightarrow> None | Some r \<Rightarrow> Rule_SelectPoints l rx r pts) (AggregateRules ac))"

subsection \<open>Grouping\<close>

definition hash_tag :: "lib \<Rightarrow> Point_Kvs.KVs \<Rightarrow> string \<Rightarrow> 64 word \<Rightarrow> 64 word" where
  "hash_tag l kvs k h =
     (case GetKV k kvs of
        None \<Rightarrow> h
      | Some f \<Rightarrow> (case fVal f of Some (Field_S s) \<Rightarrow> HashCombine (HashCombine h (l_xx l k)) (l_xx l s) | _ \<Rightarrow> h))"

definition point_hash :: "lib \<Rightarrow> Point \<Rightarrow> string list \<Rightarrow> 64 word" where
  "point_hash l pt sortedTagKeys =
     (let h = fold (hash_tag l (p_fields pt)) sortedTagKeys (HashCombine Seed1 (l_xx l (p_name pt)))
      in case find (\<lambda>kv. \<not> fIsTag kv) (p_fields pt) of
           None \<Rightarrow> h
         | Some kv \<Rightarrow> HashCombine h (l_xx l (fKey kv)))"

definition pickHash :: "lib \<Rightarrow> Point \<Rightarrow> string list \<Rightarrow> 64 word" where
  "pickHash l pt sortedTagKeys = fold (\<lambda>k h. HashCombine h (l_xx l k)) sortedTagKeys (HashCombine Seed1 (l_xx l (p_name pt)))"

definition pointAggrTags :: "PBPoint \<Rightarrow> string list \<Rightarrow> (string \<times> string) list" where
  "pointAggrTags pt sortedKeys =
     List.map_filter (\<lambda>k. case GetKV k (pb_fields pt) of
                            None \<Rightarrow> None
                          | Some f \<Rightarrow> (case fVal f of Some (Field_S s) \<Rightarrow> Some (k, s) | _ \<Rightarrow> None)) sortedKeys"

text \<open>The message of a point; a warning has no text here.\<close>

definition Point_PBPoint :: "Point \<Rightarrow> PBPoint" where
  "Point_PBPoint p = \<lparr>pb_name = p_name p, pb_fields = p_fields p, pb_time = p_time p, pb_warns = map (\<lambda>w. (w, [])) (p_warns p), pb_debugs = p_debugs p\<rparr>"

definition GroupbyPoints :: "lib \<Rightarrow> AggregateRule \<Rightarrow> Point list \<Rightarrow> (64 word \<times> Point list) list" where
  "GroupbyPoints l ar pts =
     fold (\<lambda>pt res. let h = point_hash l pt (ar_Groupby ar)
                    in AList.update h ((case map_of res h of Some ps \<Rightarrow> ps | None \<Rightarrow> []) @ [pt]) res) pts []"

definition GroupbyBatch :: "lib \<Rightarrow> AggregateRule \<Rightarrow> AggregatorConfigure \<Rightarrow> Point list \<Rightarrow> AggregationBatch list" where
  "GroupbyBatch l ar ac pts =
     map (\<lambda>pt. \<lparr>RoutingKey = point_hash l pt (ar_Groupby ar), ConfigHash = cfg_hash ac, PickKey = pickHash l pt (ar_Groupby ar),
                 AggregationOpts = aggregationOpts ar, Points = Some [Point_PBPoint pt]\<rparr>) pts"

text \<open>The batches of the rules for the category; a rule or selector that is \<open>nil\<close> is dereferenced.\<close>

fun rule_batches :: "lib \<Rightarrow> regexp \<Rightarrow> AggregatorConfigure \<Rightarrow> string \<Rightarrow> PBPoint list \<Rightarrow> AggregateRule option list \<Rightarrow> AggregationBatch list option" where
  "rule_batches l rx ac category pts [] = Some []"
| "rule_batches l rx ac category pts (None # rs) = None"
| "rule_batches l rx ac category pts (Some ar # rs) =
     (case ar_Selector ar of
        None \<Rightarrow> None
      | Some sel \<Rightarrow>
          (if rs_Category sel \<noteq> category then rule_batches l rx ac category pts rs
           else case Rule_SelectPoints l rx ar pts of
                  None \<Rightarrow> None
                | Some sPts \<Rightarrow> map_option ((@) (GroupbyBatch l ar ac sPts)) (rule_batches l rx ac category pts rs)))"

text \<open>A bundle of batches by pick key.\<close>

type_synonym batch_map = "(64 word \<times> AggregationBatch list) list"

definition pick_batch :: "AggregationBatch \<Rightarrow> batch_map \<Rightarrow> batch_map" where
  "pick_batch ab batchs =
     (case map_of batchs (PickKey ab) of
        None \<Rightarrow> batchs @ [(PickKey ab, [ab])]
      | Some bs \<Rightarrow> AList.update (PickKey ab) (bs @ [ab]) batchs)"

definition PickPoints :: "lib \<Rightarrow> regexp \<Rightarrow> AggregatorConfigure \<Rightarrow> string \<Rightarrow> PBPoint list \<Rightarrow> batch_map option" where
  "PickPoints l rx ac category pts =
     map_option (\<lambda>abs. fold pick_batch abs []) (rule_batches l rx ac category pts (AggregateRules ac))"

subsection \<open>Nothing is lost or mixed up\<close>

lemma pick_batch_lookup:
  "map_of (pick_batch ab m) k =
     (if k = PickKey ab then Some ((case map_of m k of None \<Rightarrow> [] | Some bs \<Rightarrow> bs) @ [ab]) else map_of m k)"
  by (auto simp: pick_batch_def update_conv map_add_def split: option.split)

lemma pick_batch_keys: "distinct (map fst m) \<Longrightarrow> distinct (map fst (pick_batch ab m))"
  by (auto simp: pick_batch_def map_of_eq_None_iff distinct_update split: option.split)

lemma fold_pick_batch:
  "map_of (fold pick_batch bts m) k =
     (let new = filter (\<lambda>ab. PickKey ab = k) bts
      in if new = [] then map_of m k else Some ((case map_of m k of None \<Rightarrow> [] | Some bs \<Rightarrow> bs) @ new))"
proof (induction bts arbitrary: m)
  case (Cons ab bts)
  show ?case by (simp add: Cons.IH Let_def pick_batch_lookup split: option.split)
qed simp

lemma fold_pick_keys: "distinct (map fst m) \<Longrightarrow> distinct (map fst (fold pick_batch bts m))"
  by (induction bts arbitrary: m) (simp_all add: pick_batch_keys)

end
