(* ===== verification/Aggr_Props.thy ===== *)
theory Aggr_Props
  imports Aggr_Conc_Inv Aggr_Seq Aggr_Exact Aggr_Config
begin

section \<open>Claims about metric aggregation\<close>

text \<open>The library of the examples: nothing is hashed, logarithm and root are the identity, there are no arrays.\<close>

definition ex_lib :: lib where
  "ex_lib = \<lparr>l_mk = (\<lambda>n. None), l_pb = False, l_now = 0, l_cfg = None, l_xx = (\<lambda>s. 0), l_log = (\<lambda>x. x), l_sqrt = (\<lambda>x. x),
     l_float = (\<lambda>x. []), l_array = (\<lambda>a. None), l_raw = (\<lambda>a. RawNil), l_lower = (\<lambda>s. s),
     l_codec = \<lparr>EncodeAll = (\<lambda>b. b), DecodeAll = Some, pb_Unmarshal = (\<lambda>b. None), float_to_int = (\<lambda>x. 0)\<rparr>\<rparr>"

definition ex_pt :: "Point_Kvs.KVs \<Rightarrow> PBPoint" where
  "ex_pt kvs = \<lparr>pb_name = ''cpu'', pb_fields = kvs, pb_time = 0, pb_warns = [], pb_debugs = []\<rparr>"

definition ex_base :: MetricBase where
  "ex_base = \<lparr>mb_pt = ex_pt [], aggrTags = [], mb_key = ''load'', mb_name = ''cpu'', mb_hash = 7, mb_window = 10, nextWallTime = 5, heapIdx = 0\<rparr>"

definition ex_cal :: Calculator where "ex_cal = algoCount ex_base 3 1"

subsection \<open>Windows\<close>

text \<open>An adder that has added, and one that came too late.\<close>

definition ex_held :: sys where
  "ex_held = (init_sys 0 0)\<lparr>cache := snd (lookup_bucket 5 (NewCache 0)), adders := (\<lambda>i. if i = 0 then Holding 5 ''t'' ex_cal 0 else Idle)\<rparr>"

definition ex_added :: sys where
  "ex_added = ex_held\<lparr>cache := snd (add_at 0 ''t'' ex_cal (cache ex_held)), adders := (\<lambda>i. Idle), accepted := [(5, 0, ''t'', ex_cal)]\<rparr>"

definition ex_late :: sys where
  "ex_late = ex_held\<lparr>clock := 5, cache := snd (collect_one 5 (5, 0) ([], cache ex_held)), handed := [(0, [])],
     adders := (\<lambda>i. if i = 0 then Refused 5 ''t'' ex_cal else Idle)\<rparr>"

lemma reach_via: "reach_sys s \<Longrightarrow> sys_step s t \<Longrightarrow> t = s' \<Longrightarrow> reach_sys s'"
  by (auto intro: reach_sys.step)

lemmas ex_sys_defs = ex_held_def init_sys_def lookup_bucket_def NewCache_def new_windows_def fun_eq_iff

lemma reach_held: "reach_sys ex_held"
proof -
  have r: "reach_sys ((init_sys 0 0)\<lparr>adders := (adders (init_sys 0 0))(0 := Looking 5 ''t'' ex_cal)\<rparr>)"
    by (rule reach_via[OF reach_sys.start sys_step.call refl]) (simp add: init_sys_def)
  show ?thesis
    by (rule reach_via[OF r sys_step.look[where i = 0 and ex = 5 and token = "''t''" and cal = ex_cal and a = 0]])
      (simp_all add: ex_sys_defs)
qed

lemma reach_added: "reach_sys ex_added"
  by (rule reach_via[OF reach_held sys_step.add[where i = 0 and ex = 5 and token = "''t''" and cal = ex_cal and a = 0]])
    (simp_all add: ex_sys_defs ex_added_def add_at_def addCal_def)

lemma reach_late: "reach_sys ex_late"
proof -
  have "reach_sys (ex_held\<lparr>clock := 5\<rparr>)"
    by (rule reach_via[OF reach_held sys_step.tick[of 5]]) (simp_all add: ex_sys_defs)
  then have "reach_sys (ex_held\<lparr>clock := 5, collector := Some (5, [(5, 0)])\<rparr>)"
    by (rule reach_via[OF _ sys_step.collect]) (simp_all add: ex_sys_defs)
  then have "reach_sys (ex_held\<lparr>clock := 5, cache := snd (collect_one 5 (5, 0) ([], cache ex_held)), handed := [(0, [])], collector := Some (5, [])\<rparr>)"
    by (rule reach_via[OF _ sys_step.visit[where t = 5 and e = "(5, 0)" and es = "[]"]])
      (simp_all add: ex_sys_defs collect_one_def Windows_Close_def)
  then have "reach_sys (ex_held\<lparr>clock := 5, cache := snd (collect_one 5 (5, 0) ([], cache ex_held)), handed := [(0, [])]\<rparr>)"
    by (rule reach_via[OF _ sys_step.finish[where t = 5]]) (simp_all add: ex_sys_defs)
  then show ?thesis
    by (rule reach_via[OF _ sys_step.refuse[where i = 0 and ex = 5 and token = "''t''" and cal = ex_cal and a = 0]])
      (simp_all add: ex_sys_defs ex_late_def collect_one_def Windows_Close_def add_at_def addCal_def)
qed

text \<open>
  C25.  Whatever adders, collector and clock do, every calculator that was accepted is in exactly one place: the windows of an address, which are still
  there or were handed to the collector, once, hold for each token and hash the aggregate of the calculators accepted there, in order.
  Calculators of different expiry times never meet, and nothing is handed over before its time.
\<close>

theorem windows_lose_nothing:
  assumes "reach_sys s" "a < length (heap (cache s))"
  shows "win_slot (content s a) token h = combine (accepted_at s a token h) \<and> distinct (map fst (handed s)) \<and>
    (a \<in> fst ` set (handed s) \<longleftrightarrow> ws_closed (heap (cache s) ! a)) \<and>
    (\<exists>ex. (\<forall>ex' token' cal. (ex', a, token', cal) \<in> set (accepted s) \<longrightarrow> ex' = ex) \<and> (a \<in> fst ` set (handed s) \<longrightarrow> ex \<le> clock s))"
proof -
  obtain own where o: "buckets_inv own s" "content_inv own s" using reach_inv[OF assms(1)] by (auto simp: sys_inv_def)
  have h: "a \<in> fst ` set (handed s) \<longleftrightarrow> ws_closed (heap (cache s) ! a)" using o(2) assms(2) by (simp add: content_inv_def)
  have "ex' = own a" if "(ex', a, token', cal) \<in> set (accepted s)" for ex' token' cal
    using o(2) that by (auto simp: content_inv_def)
  moreover have "own a \<le> clock s" if "a \<in> fst ` set (handed s)"
    using o(1) assms(2) that h by (simp add: buckets_inv_def)
  ultimately show ?thesis using o(2) assms(2) h by (auto simp: content_inv_def)
qed

theorem windows_lose_nothing_witness: "win_slot (content ex_added 0) ''t'' 7 = combine [ex_cal]"
proof -
  have "win_slot (content ex_added 0) ''t'' 7 = combine (accepted_at ex_added 0 ''t'' 7)"
    using windows_lose_nothing[OF reach_added, of 0 "''t''" 7] by (simp add: ex_sys_defs ex_added_def add_at_def addCal_def)
  then show ?thesis by (simp add: accepted_at_def ex_added_def ex_cal_def ex_base_def)
qed

text \<open>
  C30.  The loop of \<open>getAndSetBucket\<close> never goes round again.  An adder that was refused finds that its time has passed: whatever step is next, it waits or gives up.
\<close>

theorem refused_adder_gives_up:
  assumes "reach_sys s" "adders s i = Refused ex token cal" "sys_step s s'"
  shows "adders s' i = Idle \<or> adders s' i = Refused ex token cal"
proof -
  have t: "ex \<le> clock s"
  proof -
    obtain own where "adders_inv own s" using reach_inv[OF assms(1)] by (auto simp: sys_inv_def)
    then have "adder_ok own (addresses s) (clock s) (Refused ex token cal)" using assms(2) unfolding adders_inv_def by metis
    then show ?thesis by simp
  qed
  show ?thesis using assms(3) by cases (use assms(2) t in auto)
qed

theorem refused_adder_gives_up_witness:
  "adders (ex_late\<lparr>adders := (adders ex_late)(0 := Idle)\<rparr>) 0 = Idle \<or>
   adders (ex_late\<lparr>adders := (adders ex_late)(0 := Idle)\<rparr>) 0 = Refused 5 ''t'' ex_cal"
proof (rule refused_adder_gives_up[OF reach_late])
  show "adders ex_late 0 = Refused 5 ''t'' ex_cal" by (simp add: ex_late_def)
  show "sys_step ex_late (ex_late\<lparr>adders := (adders ex_late)(0 := Idle)\<rparr>)"
    by (rule sys_step.give_up[where ex = 5 and token = "''t''" and cal = ex_cal]) (simp_all add: ex_late_def)
qed

text \<open>
  C26.  \<open>AddBatch\<close> returns, counts each calculator of the batch as accepted or expired, and adds the accepted ones, in order, to what the cache holds
  for their expiry time, token and hash; it changes nothing else.
\<close>

theorem AddBatch_aggregates:
  assumes "cache_ok c"
  shows "\<exists>n expN c'. AddBatch l clk token batch c = Some ((n, expN), c') \<and> cache_ok c' \<and>
    n = length (filter (\<lambda>cal. clk < expiry c cal) (newCalculators l batch)) \<and> n + expN = length (newCalculators l batch) \<and>
    (\<forall>ex tk h. bucket_slot c' ex tk h = absorb_all (bucket_slot c ex tk h)
       (filter (\<lambda>cal. clk < expiry c cal \<and> expiry c cal = ex \<and> tk = token \<and> mb_hash (Base cal) = h) (newCalculators l batch)))"
  using add_calculators_ok[OF assms, of clk token "newCalculators l batch" 0 0]
    sum_length_filter_compl[of "\<lambda>cal. clk < expiry c cal" "newCalculators l batch"]
  by (auto simp: AddBatch_def)

definition ex_batch :: AggregationBatch where
  "ex_batch = \<lparr>RoutingKey = 1, ConfigHash = 0, PickKey = 0,
     AggregationOpts = [(''load'', Some \<lparr>al_Method = ''SUM'', al_SourceField = [], al_Window = 10000000000, al_AddTags = [], al_Options = None\<rparr>)],
     Points = Some [ex_pt [\<lparr>fKey = ''load'', fIsTag = False, fType = 0, fUnit = [], fDesc = [], fVal = Some (Field_I 2)\<rparr>]]\<rparr>"

theorem AddBatch_aggregates_witness:
  "\<exists>n expN c'. AddBatch ex_lib 0 ''t'' (Some ex_batch) (NewCache 0) = Some ((n, expN), c') \<and>
    n + expN = length (newCalculators ex_lib (Some ex_batch))"
  using AddBatch_aggregates[OF cache_ok_new, of ex_lib 0 "''t''" "Some ex_batch" 0] by auto

text \<open>
  With windows of whole seconds, the end of a window is the first multiple of its length, counted from the year 1, that is not before the
  point: points of the same window have the same end.
\<close>

theorem window_end:
  assumes "0 < k" "align = k * 1000000000"
  shows "t \<le> AlignNextWallTime t align * 1000000000 \<and> AlignNextWallTime t align * 1000000000 < t + align \<and>
    (AlignNextWallTime t align * 1000000000 + year_1) mod align = 0"
proof -
  define r where "r = (t + year_1) mod align"
  have d: "0 < align" using assms by simp
  have r: "0 \<le> r" "r < align" using d by (simp_all add: r_def)
  have "t - r + year_1 = align * ((t + year_1) div align)"
    unfolding r_def by (simp add: minus_mod_eq_mult_div [symmetric])
  then have m: "(t - r + year_1) mod align = 0" by simp
  have sec: "u mod 1000000000 = 0" if "(u + year_1) mod align = 0" for u
  proof -
    have "1000000000 dvd align" using assms by simp
    then have "1000000000 dvd u + year_1" using that by (metis dvd_trans mod_eq_0_iff_dvd)
    then show ?thesis by (simp add: year_1_def mod_eq_0_iff_dvd dvd_add_left_iff)
  qed
  have m2: "(t - r + align + year_1) mod align = 0" using m by (metis add.assoc add.commute mod_add_self2)
  define e where "e = (if r = 0 then t else t - r + align)"
  have e: "(e + year_1) mod align = 0" using m m2 by (cases "r = 0") (simp_all add: e_def)
  have "AlignNextWallTime t align * 1000000000 = e"
    using sec[OF e] d by (auto simp: AlignNextWallTime_def Truncate_def Let_def Unix_def e_def r_def[symmetric] split: if_splits)
  then show ?thesis using r e by (auto simp: e_def)
qed

theorem window_end_witness:
  "7000000000 \<le> AlignNextWallTime 7000000000 10000000000 * 1000000000 \<and> AlignNextWallTime 7000000000 10000000000 * 1000000000 < 7000000000 + 10000000000 \<and>
    (AlignNextWallTime 7000000000 10000000000 * 1000000000 + year_1) mod 10000000000 = 0"
  using window_end[of 10 10000000000 7000000000] by simp

subsection \<open>Algorithms\<close>

text \<open>
  C27.  Counting distinct values is counting a set.  Calculators of single values, added up in any order, stand for the set of the hashes of their values; up to
  4096 of them the count is exact, and beyond that the state is the bitmap of the set.
\<close>

theorem distinct_values_of_a_set:
  "\<exists>b dv sk. combine (map (\<lambda>(mb, u, v). newAlgoCountDistinct l mb u v) (x # xs)) =
      Some (algoCountDistinct b (Max ((\<lambda>(mb, u, v). u) ` set (x # xs))) dv sk) \<and>
    represents ((\<lambda>(mb, u, v). hashDistinctValue l v) ` set (x # xs)) (dv, sk) \<and>
    (card ((\<lambda>(mb, u, v). hashDistinctValue l v) ` set (x # xs)) \<le> countDistinctExactLimit \<longrightarrow>
     distinct_count l (dv, sk) = int (card ((\<lambda>(mb, u, v). hashDistinctValue l v) ` set (x # xs))))"
proof -
  obtain mb u v where x: "x = (mb, u, v)" by (cases x)
  obtain dv sk where f: "foldl Add (algoCountDistinct (build mb) u [hashDistinctValue l v] None) (map (\<lambda>(mb, u, v). newAlgoCountDistinct l mb u v) xs) =
      algoCountDistinct (build mb) (Max (insert u ((\<lambda>(mb, u, v). u) ` set xs))) dv sk"
    "represents ({hashDistinctValue l v} \<union> (\<lambda>(mb, u, v). hashDistinctValue l v) ` set xs) (dv, sk)"
    using distinct_foldl[OF represents_single[of "hashDistinctValue l v"], of "build mb" u l xs] by blast
  have s: "(\<lambda>(mb, u, v). hashDistinctValue l v) ` set (x # xs) = {hashDistinctValue l v} \<union> (\<lambda>(mb, u, v). hashDistinctValue l v) ` set xs"
    by (simp add: x)
  have "combine (map (\<lambda>(mb, u, v). newAlgoCountDistinct l mb u v) (x # xs)) =
      Some (algoCountDistinct (build mb) (Max ((\<lambda>(mb, u, v). u) ` set (x # xs))) dv sk)"
    using f(1) by (simp add: combine_def x newAlgoCountDistinct_state)
  then show ?thesis unfolding s using f(2) represents_count[OF f(2)] by blast
qed

theorem distinct_values_of_a_set_witness:
  "\<exists>b dv sk. combine [newAlgoCountDistinct ex_lib ex_base 1 (Field_I 4), newAlgoCountDistinct ex_lib ex_base 2 (Field_I 4)] =
      Some (algoCountDistinct b 2 dv sk) \<and> distinct_count ex_lib (dv, sk) = 1"
proof -
  have "card ((\<lambda>(mb, u, v). hashDistinctValue ex_lib v) ` set [(ex_base, 1 :: int, Field_I 4), (ex_base, 2, Field_I 4)]) = 1" by simp
  then show ?thesis
    using distinct_values_of_a_set[of ex_lib "(ex_base, 1, Field_I 4)" "[(ex_base, 2, Field_I 4)]"] by (auto simp: countDistinctExactLimit_def)
qed

text \<open>
  C28.  Maximum, minimum, sum and count are what they say, for numbers: the greatest and the least value whatever the order, the sum in the order of
  arrival with one rounding per addition, the number of points, and the latest time.
\<close>

theorem aggregates_exact:
  fixes p :: "MetricBase \<times> int \<times> f64"
  assumes "\<forall>(b, u, y) \<in> set (p # ps). y \<noteq> FNaN" "length (p # ps) < 2 ^ 63"
  defines "ts \<equiv> (\<lambda>(b, u, y). u) ` set (p # ps)" and "ys \<equiv> (\<lambda>(b, u, y). y) ` set (p # ps)" and "n \<equiv> int (length (p # ps))"
  shows "combine (map (\<lambda>(b, u, y). algoMax b u 1 y) (p # ps)) = Some (algoMax (build (fst p)) (Max ts) n (Max ys)) \<and>
    combine (map (\<lambda>(b, u, y). algoMin b u 1 y) (p # ps)) = Some (algoMin (build (fst p)) (Max ts) n (Min ys)) \<and>
    combine (map (\<lambda>(b, u, y). algoSum b y u 1) (p # ps)) =
      Some (algoSum (build (fst p)) (foldl f64_add (snd (snd p)) (map (\<lambda>(b, u, y). y) ps)) (Max ts) n)"
proof -
  obtain b u y where p: "p = (b, u, y)" by (cases p)
  have y: "y \<noteq> FNaN" "\<forall>(b, u, y) \<in> set ps. y \<noteq> FNaN" using assms(1) by (auto simp: p)
  have n: "(if ps = [] then 1 else to_i64 (1 + int (length ps))) = n"
    using assms(2) to_i64_id[of n] by (auto simp: n_def)
  show ?thesis
    using max_foldl[OF y, of "build b" u 1] min_foldl[OF y, of "build b" u 1] sum_foldl[of "build b" y u 1 ps] n
    by (simp add: combine_def p ts_def ys_def)
qed

theorem aggregates_exact_witness:
  "combine [algoMax ex_base 1 1 (FFin 2), algoMax ex_base 4 1 (FFin 1)] = Some (algoMax (build ex_base) 4 2 (FFin 2))"
proof -
  have "Max (insert (FFin 2) {FFin 1}) = FFin 2" by (simp add: max_def less_eq_f64_def less_f64_def)
  then show ?thesis
    using aggregates_exact[of "(ex_base, 1, FFin 2)" "[(ex_base, 4, FFin 1)]"] by simp
qed

end
