(* ===== verification/Aggr_Total.thy ===== *)
theory Aggr_Total
  imports Aggr_Seq Aggr_Config Go_Float_Bits Point_Total
begin

section \<open>Metric aggregation: every window becomes points\<close>

text \<open>
  Turning an aggregate into points panics only where a percentile is looked up at a negative index.  With percentiles from 0 to 1, which is what
  the validation asks for, and not NaN, which it lets through, the index is never negative, whatever the roundings.
\<close>

subsection \<open>Rounding of small numbers\<close>

lemma round_even_bounds: "0 \<le> x \<Longrightarrow> 0 \<le> round_even x \<and> of_int (round_even x) \<le> x + 1"
  by (auto simp: round_even_def Let_def) linarith+

lemma unit_bound:
  assumes "0 < q"
  shows "pow2 (max (exponent q - 52) (- 1074)) \<le> q + 1"
proof (cases "exponent q - 52 \<le> - 1074")
  case True
  have "pow2 (- 1074) < pow2 0" by (rule pow2_less) simp
  then show ?thesis using True assms by (simp add: max_def pow2_def)
next
  case False
  have "pow2 (exponent q - 52) < pow2 (exponent q)" by (rule pow2_less) simp
  then show ?thesis using False exponent_bounds(1)[OF assms] by (simp add: max_def)
qed

lemma f64_of_rat_small:
  assumes "0 \<le> q" "q \<le> 2 ^ 60"
  shows "\<exists>v. f64_of_rat q = FFin v \<and> 0 \<le> v \<and> v \<le> 2 * q + 1"
proof (cases "q = 0")
  case False
  define u where "u = pow2 (max (exponent \<bar>q\<bar> - 52) (- 1074))"
  define v where "v = of_int (round_even (\<bar>q\<bar> / u)) * u"
  have u: "0 < u" "u \<le> q + 1" using False assms(1) unit_bound[of q] by (simp_all add: u_def)
  have r: "0 \<le> round_even (\<bar>q\<bar> / u)" "of_int (round_even (\<bar>q\<bar> / u)) \<le> \<bar>q\<bar> / u + 1"
    using round_even_bounds[of "\<bar>q\<bar> / u"] u(1) by simp_all
  have "v \<le> (\<bar>q\<bar> / u + 1) * u" unfolding v_def by (rule mult_right_mono[OF r(2)]) (simp add: u(1) less_imp_le)
  also have "\<dots> = q + u" using u(1) assms(1) by (simp add: distrib_right)
  finally have v: "0 \<le> v" "v \<le> 2 * q + 1" using u r(1) by (simp_all add: v_def)
  have "2 * q + 1 \<le> 2 ^ 62" using assms(2) by simp
  also have "\<dots> = pow2 62" by (simp add: pow2_def)
  also have "\<dots> < pow2 1024" by (rule pow2_less) simp
  finally have "v < pow2 1024" using v(2) by simp
  then show ?thesis using False assms(1) v
    unfolding f64_of_rat_def Let_def u_def[symmetric] v_def[symmetric] by (simp add: sgn_rat_def)
qed (simp add: f64_of_rat_def)

subsection \<open>Percentiles\<close>

definition percentile_ok :: "f64 \<Rightarrow> bool" where
  "percentile_ok q \<longleftrightarrow> q \<noteq> FNaN \<and> \<not> bad_percentile q"

lemma percentile_okE: "percentile_ok q \<Longrightarrow> (\<And>x. q = FFin x \<Longrightarrow> 0 \<le> x \<Longrightarrow> x \<le> 1 \<Longrightarrow> P) \<Longrightarrow> P"
  by (cases q) (auto simp: percentile_ok_def bad_percentile_def split: if_splits)

lemma percentile_returns:
  assumes "percentile_ok q" "length xs \<le> quantileSampleLimit"
  shows "\<exists>v. percentileFromSorted l xs (f64_times q (FFin 100)) = Some v"
proof (cases "xs = []")
  case False
  from assms(1) obtain x where x: "q = FFin x" "0 \<le> x" "x \<le> 1" by (rule percentile_okE)
  obtain p where p: "f64_of_rat (x * 100) = FFin p" "0 \<le> p" "p \<le> 201"
    using f64_of_rat_small[of "x * 100"] x by force
  obtain f where f: "f64_of_rat (p / 100) = FFin f" "0 \<le> f" "f \<le> 6"
    using f64_of_rat_small[of "p / 100"] p(2,3) by force
  have n: "0 \<le> int (length xs) - 1" "int (length xs) - 1 \<le> 8192"
    using False assms(2) by (simp_all add: quantileSampleLimit_def Suc_le_eq)
  obtain k where k: "f64_of_int (int (length xs) - 1) = FFin k" "0 \<le> k" "k \<le> 20000"
    using f64_of_rat_small[of "of_int (int (length xs) - 1)"] n unfolding f64_of_int_def by force
  have fk: "0 \<le> f * k" "f * k \<le> 6 * 20000" using f k mult_mono[of f 6 k 20000] by simp_all
  obtain pos where pos: "f64_of_rat (f * k) = FFin pos" "0 \<le> pos" "pos \<le> 240001"
    using f64_of_rat_small[of "f * k"] fk by force
  have "0 \<le> \<lfloor>pos\<rfloor>" "\<lfloor>pos\<rfloor> \<le> 240001" using pos(2,3) by linarith+
  then have "0 \<le> int_of_float (l_codec l) (FFin pos)" using pos(2) by (simp add: int_of_float_def in_range_def)
  then show ?thesis using p f k pos by (simp add: percentileFromSorted_def x Let_def)
qed (simp add: percentileFromSorted_def)

lemma quantile_kvs_returns:
  "list_all percentile_ok qs \<Longrightarrow> length xs \<le> quantileSampleLimit \<Longrightarrow> tags_ok kvs \<Longrightarrow> \<exists>k'. quantile_kvs l k xs qs kvs = Some k' \<and> tags_ok k'"
proof (induction qs arbitrary: kvs)
  case (Cons q qs)
  then obtain v where "percentileFromSorted l xs (f64_times q (FFin 100)) = Some v" using percentile_returns[of q xs l] by auto
  then show ?case using Cons by simp
qed simp

text \<open>A percentile that is not a number passes the validation; looking it up panics where the conversion of NaN is negative, as on amd64.\<close>

theorem nan_percentile_panics:
  assumes "float_to_int (l_codec l) FNaN < 0" "2 \<le> length xs"
  shows "\<not> bad_percentile FNaN \<and> percentileFromSorted l xs (f64_times FNaN (FFin 100)) = None"
  using assms by (auto simp: bad_percentile_def percentileFromSorted_def Let_def int_of_float_def)

subsection \<open>Aggregates\<close>

lemma new_point_returns: "tags_ok kvs \<Longrightarrow> \<exists>p. new_point l name kvs t = Some p"
  by (simp add: new_point_def NewPoint_def doNewPoint_returns)

lemma tags_ok_set_tags [simp]: "tags_ok kvs \<Longrightarrow> tags_ok (set_tags l tags kvs)"
  unfolding set_tags_def by (rule tags_ok_fold) auto

lemma points_return [simp]:
  "\<exists>p. value_point l b v n t = Some p" "\<exists>p. bucket_point l b t e = Some p" "\<exists>p. count_point l b n t = Some p"
  by (auto simp: value_point_def bucket_point_def count_point_def intro!: new_point_returns split: prod.split)

lemma those_returns: "\<forall>x \<in> set xs. x \<noteq> None \<Longrightarrow> \<exists>ys. those xs = Some ys \<and> length ys = length xs"
  by (induction xs) (auto split: option.split)

text \<open>What calculators keep of their sample and percentiles.\<close>

definition calc_ok :: "Calculator \<Rightarrow> bool" where
  "calc_ok c = (case c of algoQuantiles b t xs n qs \<Rightarrow> length xs \<le> quantileSampleLimit \<and> list_all percentile_ok qs | _ \<Rightarrow> True)"

lemma sample_add_length: "length (fst a) \<le> quantileSampleLimit \<Longrightarrow> length (fst (sample_add v a)) \<le> quantileSampleLimit"
  by (auto simp: sample_add_def Let_def split: prod.split)

lemma sample_fold_length: "length (fst a) \<le> quantileSampleLimit \<Longrightarrow> length (fst (fold sample_add vs a)) \<le> quantileSampleLimit"
  by (induction vs arbitrary: a) (simp_all add: sample_add_length)

lemma calc_ok_on_base [simp]: "calc_ok (on_base f c) = calc_ok c"
  by (cases c) (simp_all add: calc_ok_def)

lemma calc_ok_Add: "calc_ok c \<Longrightarrow> calc_ok (Add c x)"
  using sample_fold_length[of "(all c, cnt c)" "all x"]
  by (cases c; cases x) (auto simp: calc_ok_def Let_def split: prod.split)

lemma calc_ok_combine:
  assumes "\<forall>c \<in> set cs. calc_ok c" "combine cs = Some c"
  shows "calc_ok c"
proof -
  have f: "calc_ok d \<Longrightarrow> calc_ok (foldl Add d r)" for d r by (induction r arbitrary: d) (auto simp: calc_ok_Add)
  show ?thesis using assms f by (auto simp: combine_def split: list.splits)
qed

lemma Aggr_returns:
  assumes "calc_ok c"
  shows "\<exists>r. Aggr l c = Some r"
proof (cases c)
  case (algoHistogram b n v le t)
  then show ?thesis using those_returns[of "map (bucket_point l b t) le @ [count_point l b n t]"] by auto
next
  case (algoQuantiles b t xs n qs)
  then obtain k' where k: "quantile_kvs l (mb_key b) (sort xs) qs (AddVal (l_mk l) (mb_key b @ ''_count'') (RawInt n) [] []) = Some k'" "tags_ok k'"
    using assms quantile_kvs_returns[of qs "sort xs" "AddVal (l_mk l) (mb_key b @ ''_count'') (RawInt n) [] []" l "mb_key b"] by (auto simp: calc_ok_def)
  show ?thesis using new_point_returns[of "set_tags l (aggrTags b) k'" l "mb_name b" t] k algoQuantiles by (auto simp: one_point_def)
qed (auto simp: one_point_def Let_def split: option.split)

subsection \<open>Calculators of a validated configuration\<close>

definition made :: "lib \<Rightarrow> Calculator \<Rightarrow> bool" where
  "made l c \<longleftrightarrow> (\<exists>rk key algo pt. validateAggregationAlgo l key (Some algo) = None \<and>
     (\<forall>ps. al_Options algo = Some (QuantileOpts (Some ps)) \<longrightarrow> FNaN \<notin> set ps) \<and> new_calculator l rk key algo pt = Some c)"

lemma find_bad: "find bad_percentile ps = None \<Longrightarrow> FNaN \<notin> set ps \<Longrightarrow> list_all percentile_ok ps"
  by (auto simp: find_None_iff list_all_iff percentile_ok_def)

lemma calculator_for_ok:
  assumes "validateAggregationAlgo l key (Some algo) = None" "\<forall>ps. al_Options algo = Some (QuantileOpts (Some ps)) \<longrightarrow> FNaN \<notin> set ps"
    and "calculator_for l algo (NormalizeAlgoMethod l (al_Method algo)) mb pt val x = Some c"
  shows "calc_ok c"
proof (cases "NormalizeAlgoMethod l (al_Method algo) = M_QUANTILES")
  case True
  then obtain ps where ps: "al_Options algo = Some (QuantileOpts (Some ps))" "list_all percentile_ok ps"
    using assms(1,2) by (auto simp: validateAggregationAlgo_def Let_def find_bad split: if_splits option.splits algo_opts.splits)
  then have "c = addOpts (al_Options algo) (newAlgoQuantiles mb (pb_time pt) x)" using assms(3) True by (simp add: calculator_for_def Let_def)
  then show ?thesis using ps by (simp add: newAlgoQuantiles_def sample_add_def addOpts_def calc_ok_def quantileSampleLimit_def Let_def)
next
  case False
  then show ?thesis using assms(3)
    by (auto simp: calculator_for_def Let_def calc_ok_def newAlgoStdev_def newAlgoCountDistinct_def split: if_splits prod.splits)
qed

lemma made_ok:
  assumes "made l c"
  shows "calc_ok c"
proof -
  obtain rk key algo pt where m: "validateAggregationAlgo l key (Some algo) = None"
    "\<forall>ps. al_Options algo = Some (QuantileOpts (Some ps)) \<longrightarrow> FNaN \<notin> set ps" "new_calculator l rk key algo pt = Some c"
    using assms unfolding made_def by blast
  then obtain mb val x c0 where "calculator_for l algo (NormalizeAlgoMethod l (al_Method algo)) mb pt val x = Some c0" "c = doHash l rk c0"
    by (auto simp: new_calculator_def Let_def split: option.splits if_splits)
  then show ?thesis using calculator_for_ok[OF m(1,2)] by (simp add: doHash_def Let_def)
qed

subsection \<open>Windows\<close>

lemma window_points_return: "\<forall>e \<in> set cs. calc_ok (snd e) \<Longrightarrow> \<exists>pts. window_points l cs = Some pts"
proof (induction cs)
  case (Cons e cs)
  then show ?case using Aggr_returns[of "snd e" l] by (cases e) auto
qed simp

end
