(* ===== verification/Aggr_Props2.thy ===== *)
theory Aggr_Props2
  imports Aggr_Props Aggr_Total
begin

section \<open>Claims about rules, selection and single algorithms\<close>

subsection \<open>Configuration\<close>

lemma TrimSpace_Nil [simp]: "TrimSpace [] = []"
  by (simp add: TrimSpace_def trim_left.simps[of "[]"] trim_right.simps[of "[]"])

lemma Base_calculators [simp]:
  "Base (newAlgoQuantiles mb t x) = mb" "Base (newAlgoStdev mb t x) = mb" "Base (newAlgoCountDistinct l mb t v) = mb"
  "Base (addOpts o' c) = Base c"
  by (auto simp: newAlgoQuantiles_def newAlgoStdev_def newAlgoCountDistinct_state addOpts_def
      split: prod.split option.split algo_opts.split Calculator.split)

lemma names_calculators [simp]:
  "algo_name (newAlgoQuantiles mb t x) = ''quantiles''" "algo_name (newAlgoStdev mb t x) = ''stdev''"
  "algo_name (newAlgoCountDistinct l mb t v) = ''count_distinct''" "algo_name (addOpts o' c) = algo_name c"
  by (auto simp: newAlgoQuantiles_def newAlgoStdev_def newAlgoCountDistinct_state addOpts_def
      split: prod.split option.split algo_opts.split Calculator.split)

lemma algo_name_on_base [simp]: "algo_name (on_base f c) = algo_name c"
  by (cases c) simp_all

lemma doHash_frame [simp]: "algo_name (doHash l h c) = algo_name c" "mb_key (Base (doHash l h c)) = mb_key (Base c)"
  "mb_name (Base (doHash l h c)) = mb_name (Base c)"
  by (simp_all add: doHash_def Let_def)

text \<open>The validation and the construction of calculators know the same methods.\<close>

lemma calculator_for_supported:
  "m \<in> set supported_methods \<longleftrightarrow> calculator_for l algo m mb pt val x \<noteq> None"
  by (auto simp: calculator_for_def supported_methods_def Let_def)

lemma calculator_for_frame:
  "calculator_for l algo m mb pt val x = Some c \<Longrightarrow> algo_name c = m \<and> Base c = mb"
  by (auto simp: calculator_for_def Let_def split: if_splits)

text \<open>
  C31.  What \<open>Setup\<close> accepts can be computed.  After a successful set-up every rule has a selector, sorted grouping keys and windows, and for each of its
  algorithms every point with a number in the field asked for gets a calculator of the method that was configured, under the algorithm's key and the name of the point.
\<close>

theorem setup_is_computable:
  assumes "Configure_Setup order gc rx jh l ac = Some (None, ac')"
  shows "length (AggregateRules ac') = length (AggregateRules ac) \<and> list_all (rule_ready l (DefaultWindow ac)) (AggregateRules ac') \<and>
    (\<forall>ar key algo pt val. Some ar \<in> set (AggregateRules ac') \<longrightarrow> (key, Some algo) \<in> set (aggregationOpts ar) \<longrightarrow>
       wrap_Get l pt (if al_SourceField algo \<noteq> [] then al_SourceField algo else key) = Some val \<longrightarrow>
       (\<exists>x. val = Field_F x) \<or> (\<exists>i. val = Field_I i) \<longrightarrow>
       (\<exists>c. new_calculator l rk key algo pt = Some c \<and> algo_name c = NormalizeAlgoMethod l (al_Method algo) \<and>
            mb_key (Base c) = key \<and> mb_name (Base c) = pb_name pt))"
proof -
  obtain rules where r: "setup_rules order gc rx l (DefaultWindow ac) (AggregateRules ac) = Some (None, rules)" "AggregateRules ac' = rules"
    using assms by (auto simp: Configure_Setup_def Let_def split: if_splits option.splits prod.splits)
  note ready = setup_rules_ready[OF r(1)]
  have "\<exists>c. new_calculator l rk key algo pt = Some c \<and> algo_name c = NormalizeAlgoMethod l (al_Method algo) \<and>
      mb_key (Base c) = key \<and> mb_name (Base c) = pb_name pt"
    if ar: "Some ar \<in> set rules" and al: "(key, Some algo) \<in> set (aggregationOpts ar)"
      and g: "wrap_Get l pt (if al_SourceField algo \<noteq> [] then al_SourceField algo else key) = Some val"
      and v: "(\<exists>x. val = Field_F x) \<or> (\<exists>i. val = Field_I i)" for ar key algo pt val
  proof -
    let ?m = "NormalizeAlgoMethod l (al_Method algo)"
    have "rule_ready l (DefaultWindow ac) (Some ar)" using ready ar by (auto simp: list_all_iff)
    then have "algo_ok l (key, Some algo)" using al by (auto simp: rule_ready_def list_all_iff)
    then have k: "key \<noteq> []" "?m \<in> set supported_methods" by (auto simp: algo_ok_def)
    obtain x where x: "numeric ?m val = Some x" using v by (auto simp: numeric_def)
    obtain c where c: "calculator_for l algo ?m (metric_base algo key pt) pt val x = Some c"
      using k(2) calculator_for_supported[of ?m l algo "metric_base algo key pt" pt val x] by blast
    have "new_calculator l rk key algo pt = Some (doHash l rk c)" using g k(1) x c by (simp add: new_calculator_def Let_def)
    then show ?thesis using calculator_for_frame[OF c] by (simp add: metric_base_def)
  qed
  then show ?thesis using ready r(2) by blast
qed

definition ex_conf :: AggregatorConfigure where
  "ex_conf = \<lparr>DefaultWindow = 10000000000,
     AggregateRules = [Some \<lparr>ar_Name = ''r'',
        ar_Selector = Some \<lparr>rs_Category = ''metric'', rs_Measurements = [], rs_MetricName = [''load''], rs_Condition = [],
          measurementsWhitelist = [], fieldsWhitelist = [], rs_conds = []\<rparr>,
        ar_Groupby = [''host'', ''az''],
        ar_Algorithms = [(''load'', Some \<lparr>ac_Method = '' Max'', ac_SourceField = [], ac_Window = 0, ac_AddTags = [],
          ac_HistogramOpts = None, ac_ExpoOpts = None, ac_QuantileOpts = None\<rparr>)], aggregationOpts = []\<rparr>],
     DefaultAction = [], DeleteRulesPoint = False, cfg_hash = 0\<rparr>"

definition ex_setup :: "AggregatorConfigure \<Rightarrow> (aggr_err option \<times> AggregatorConfigure) option" where
  "ex_setup ac = Configure_Setup categoryShort (\<lambda>s. None) (\<lambda>re s. None) (\<lambda>c. Some 1) ex_lib ac"

lemma ex_setup_ok: "map_option fst (ex_setup ex_conf) = Some None"
  by code_simp

theorem setup_is_computable_witness: "\<exists>ac'. ex_setup ex_conf = Some (None, ac') \<and> length (AggregateRules ac') = 1"
proof -
  obtain ac' where e: "ex_setup ex_conf = Some (None, ac')" using ex_setup_ok by auto
  then show ?thesis using setup_is_computable[OF e[unfolded ex_setup_def]] by (simp add: ex_conf_def)
qed

subsection \<open>Grouping\<close>

lemma rule_batches_one:
  "rule_batches l rx ac category pts rules = Some bts \<Longrightarrow> ab \<in> set bts \<Longrightarrow>
   \<exists>ar pt. Some ar \<in> set rules \<and> Points ab = Some [Point_PBPoint pt] \<and> AggregationOpts ab = aggregationOpts ar \<and> ConfigHash ab = cfg_hash ac \<and>
     RoutingKey ab = point_hash l pt (ar_Groupby ar) \<and> PickKey ab = pickHash l pt (ar_Groupby ar)"
proof (induction l rx ac category pts rules arbitrary: bts rule: rule_batches.induct)
  case (3 l rx ac category pts ar rs)
  then show ?case by (force simp: GroupbyBatch_def split: option.splits if_splits)
qed auto

text \<open>
  \<open>PickPoints\<close> sorts batches by their pick key and loses none: under a key are exactly the batches of the rules of the category with that key, in their order, and
  every batch carries one selected point, the algorithms of its rule and the hash of the configuration.
\<close>

theorem PickPoints_batches:
  assumes "PickPoints l rx ac category pts = Some m"
  shows "\<exists>bts. rule_batches l rx ac category pts (AggregateRules ac) = Some bts \<and> distinct (map fst m) \<and>
    (\<forall>k. map_of m k = (let bs = filter (\<lambda>ab. PickKey ab = k) bts in if bs = [] then None else Some bs)) \<and>
    (\<forall>ab \<in> set bts. \<exists>ar pt. Some ar \<in> set (AggregateRules ac) \<and> Points ab = Some [Point_PBPoint pt] \<and>
       AggregationOpts ab = aggregationOpts ar \<and> ConfigHash ab = cfg_hash ac \<and> PickKey ab = pickHash l pt (ar_Groupby ar))"
proof -
  obtain bts where b: "rule_batches l rx ac category pts (AggregateRules ac) = Some bts" "m = fold pick_batch bts []"
    using assms by (auto simp: PickPoints_def)
  show ?thesis
    using b rule_batches_one[OF b(1)] fold_pick_keys[of "[]" bts] fold_pick_batch[of bts "[]"] by (auto simp: Let_def) (blast)
qed

definition ex_rule :: AggregateRule where
  "ex_rule = \<lparr>ar_Name = ''r'',
     ar_Selector = Some \<lparr>rs_Category = ''metric'', rs_Measurements = [], rs_MetricName = [''load''], rs_Condition = [],
       measurementsWhitelist = [], fieldsWhitelist = [\<lparr>wl_s = ''load'', wl_re = False\<rparr>], rs_conds = []\<rparr>,
     ar_Groupby = [''host''], ar_Algorithms = [], aggregationOpts = []\<rparr>"

definition ex_kv :: "string \<Rightarrow> bool \<Rightarrow> field_val \<Rightarrow> Field" where
  "ex_kv k tag v = \<lparr>fKey = k, fIsTag = tag, fType = 0, fUnit = [], fDesc = [], fVal = Some v\<rparr>"

definition ex_pick :: "batch_map option" where
  "ex_pick = PickPoints ex_lib (\<lambda>re s. None) (ex_conf\<lparr>AggregateRules := [Some ex_rule]\<rparr>) ''metric''
     [ex_pt [ex_kv ''load'' False (Field_F (FFin 3)), ex_kv ''host'' True (Field_S ''h1'')]]"

lemma ex_pick_one: "(case ex_pick of None \<Rightarrow> False | Some m \<Rightarrow> length m = 1)"
  by code_simp

theorem PickPoints_batches_witness: "\<exists>m. ex_pick = Some m \<and> length m = 1 \<and> distinct (map fst m)"
proof -
  obtain m where m: "ex_pick = Some m" "length m = 1" using ex_pick_one by (auto split: option.splits)
  then show ?thesis using PickPoints_batches[OF m(1)[unfolded ex_pick_def]] by auto
qed

subsection \<open>Labels\<close>

definition ex_bucket :: "string \<Rightarrow> f64 \<Rightarrow> Calculator option" where
  "ex_bucket le x =
     new_calculator ex_lib 1 ''load'' \<lparr>al_Method = ''histogram'', al_SourceField = [], al_Window = 10000000000, al_AddTags = [], al_Options = None\<rparr>
       (ex_pt [ex_kv ''load'' False (Field_F x), ex_kv ''le'' True (Field_S le)])"

definition ex_histogram :: "Point list" where
  "ex_histogram =
     (case (ex_bucket ''10'' (FFin 4), ex_bucket ''20'' (FFin 6)) of
        (Some c1, Some c2) \<Rightarrow> (case combine [c1, c2] of Some c \<Rightarrow> (case Aggr ex_lib c of Some (Some ps) \<Rightarrow> ps | _ \<Rightarrow> []) | None \<Rightarrow> [])
      | _ \<Rightarrow> [])"

text \<open>
  The labels of histogram buckets are overwritten.  A calculator takes over the tags of its first point, the label \<open>le\<close> among them, and sets them on every
  point of the result: two buckets, \<open>10\<close> and \<open>20\<close>, both come out labelled \<open>10\<close>, and so does the count.
\<close>

theorem histogram_labels_overwritten:
  "map (\<lambda>p. (GetTag ''le'' (p_fields p), fst (GetF ''load'' p))) ex_histogram = [(''10'', FFin 4), (''10'', FFin 6), (''10'', FFin 0)]"
  by code_simp

text \<open>Percentiles that round to the same integer, as 0.995 and 0.999 do, share a field name, and the second value is dropped.\<close>

theorem percentile_names_collide:
  assumes "f64_times p (FFin 100) = FFin a" "f64_times q (FFin 100) = FFin b" "0 \<le> a" "0 \<le> b" "round_even a = round_even b"
    and "percentileFromSorted l xs (FFin a) = Some v" "percentileFromSorted l xs (FFin b) = Some w"
  shows "quantile_kvs l k xs [p, q] kvs = quantile_kvs l k xs [p] kvs"
  using assms by (auto simp: quantile_key_def AddVal_def AddKV_def NewKV_def doNewKV_def Has_iff)

subsection \<open>Points\<close>

text \<open>
  C29.  Every window becomes points.  Where the calculators of the windows are aggregates of calculators made for a validated configuration without NaN
  percentiles, \<open>WindowsToData\<close> returns, and gives for each window, in order, its token and all its points, leaving out windows without any.
\<close>

theorem windows_become_points:
  assumes "\<forall>w \<in> set ws. \<forall>e \<in> set (w_cache w). \<exists>cs. combine cs = Some (snd e) \<and> (\<forall>c \<in> set cs. made l c)"
  shows "\<exists>pds ptss. WindowsToData l ws = Some pds \<and> map (\<lambda>w. window_points l (w_cache w)) ws = map Some ptss \<and>
    map (\<lambda>pd. (pd_Token pd, pd_PTS pd)) pds = filter (\<lambda>(token, pts). pts \<noteq> []) (zip (map w_Token ws) ptss)"
  using assms
proof (induction ws)
  case (Cons w ws)
  obtain pds ptss where r: "WindowsToData l ws = Some pds" "map (\<lambda>w. window_points l (w_cache w)) ws = map Some ptss"
    "map (\<lambda>pd. (pd_Token pd, pd_PTS pd)) pds = filter (\<lambda>(token, pts). pts \<noteq> []) (zip (map w_Token ws) ptss)"
    using Cons by auto
  have "\<forall>e \<in> set (w_cache w). calc_ok (snd e)" using Cons.prems made_ok calc_ok_combine by (metis list.set_intros(1))
  then obtain pts where "window_points l (w_cache w) = Some pts" using window_points_return by blast
  then show ?case using r by (intro exI[of _ "if pts = [] then pds else \<lparr>pd_PTS = pts, pd_Token = w_Token w\<rparr> # pds"] exI[of _ "pts # ptss"]) simp
qed simp

definition ex_quantile :: "Calculator option" where
  "ex_quantile =
     new_calculator ex_lib 1 ''load''
       \<lparr>al_Method = ''quantiles'', al_SourceField = [], al_Window = 10000000000, al_AddTags = [], al_Options = Some (QuantileOpts (Some [FFin (1 / 2)]))\<rparr>
       (ex_pt [ex_kv ''load'' False (Field_F (FFin 3))])"

lemma ex_quantile_made: "ex_quantile \<noteq> None" "ex_quantile = Some c \<Longrightarrow> made ex_lib c"
proof -
  have v: "validateAggregationAlgo ex_lib ''load''
    (Some \<lparr>al_Method = ''quantiles'', al_SourceField = [], al_Window = 10000000000, al_AddTags = [], al_Options = Some (QuantileOpts (Some [FFin (1 / 2)]))\<rparr>) = None"
    by code_simp
  show "ex_quantile = Some c \<Longrightarrow> made ex_lib c" unfolding made_def ex_quantile_def using v by fastforce
qed code_simp

theorem windows_become_points_witness:
  "\<exists>c pds. ex_quantile = Some c \<and> WindowsToData ex_lib [\<lparr>w_cache = [(0, on_base build c)], w_Token = ''t''\<rparr>] = Some pds"
proof -
  obtain c where c: "ex_quantile = Some c" using ex_quantile_made(1) by auto
  then have "combine [c] = Some (on_base build c) \<and> made ex_lib c" using ex_quantile_made(2) by (simp add: combine_def)
  then show ?thesis using c windows_become_points[of "[\<lparr>w_cache = [(0, on_base build c)], w_Token = ''t''\<rparr>]" ex_lib] by fastforce
qed

end
