(* ===== verification/Derived_Collector.thy ===== *)
theory Derived_Collector
  imports Aggr_Window Go_Float_Bits
begin

section \<open>Derived metrics: records and the collector (aggregate/derived\_metric\_record.go, derived\_metric\_collector.go)\<close>

text \<open>
  Hooks of tail sampling produce records; the collector b_sums them or sorts them into histograms per window and key, and hands out points for windows that have
  ended.  Stages, kinds and decisions are the texts of the source.  Times are nanoseconds, \<open>None\<close> is the zero time.  Maps are association lists
  in the order in which they are iterated; what holds the mutex is one step.
\<close>

abbreviation TailSamplingDerivedMeasurement :: string where "TailSamplingDerivedMeasurement \<equiv> ''tail_sampling''"

record DerivedMetricRecord =
  dr_Token :: string
  dr_DataType :: string
  dr_MetricName :: string
  dr_Kind :: string
  dr_Stage :: string
  dr_Decision :: string
  dr_Measurement :: string
  dr_Tags :: "(string \<times> string) list"
  dr_Value :: f64
  dr_Buckets :: "f64 list"
  dr_Time :: "int option"

definition measurement :: "DerivedMetricRecord \<Rightarrow> string" where
  "measurement r = (if dr_Measurement r \<noteq> [] then dr_Measurement r else TailSamplingDerivedMeasurement)"

record DerivedMetricPoints =
  dp_Token :: string
  dp_PTS :: "Point list"

record derivedMetricKey =
  k_token :: string
  k_measurement :: string
  k_metricName :: string
  k_stage :: string
  k_decision :: string
  k_tagsHash :: "64 word"

record derivedMetricValue =
  v_token :: string
  v_measurement :: string
  v_metricName :: string
  v_stage :: string
  v_decision :: string
  v_tags :: "(string \<times> string) list"
  v_sum :: f64

record derivedHistogramValue = derivedMetricValue +
  h_buckets :: "f64 list"
  h_counts :: "f64 list"
  h_count :: f64

record derivedMetricBucket =
  b_sums :: "(derivedMetricKey \<times> derivedMetricValue) list"
  b_hist :: "(derivedMetricKey \<times> derivedHistogramValue) list"

record DerivedMetricCollector =
  dc_window :: int
  buckets :: "(int \<times> derivedMetricBucket) list"

definition DefaultDerivedMetricFlushWindow :: int where "DefaultDerivedMetricFlushWindow = 30 * 1000000000"

definition NewDerivedMetricCollector :: "int \<Rightarrow> DerivedMetricCollector" where
  "NewDerivedMetricCollector w = \<lparr>dc_window = (if w \<le> 0 then DefaultDerivedMetricFlushWindow else w), buckets = []\<rparr>"

subsection \<open>Keys\<close>

definition sortedTagKeys :: "(string \<times> string) list \<Rightarrow> string list" where
  "sortedTagKeys tags = sort (map fst tags)"

definition tag_value :: "(string \<times> string) list \<Rightarrow> string \<Rightarrow> string" where
  "tag_value tags k = (case map_of tags k of None \<Rightarrow> [] | Some v \<Rightarrow> v)"

definition hashDerivedMetricTags :: "lib \<Rightarrow> (string \<times> string) list \<Rightarrow> 64 word" where
  "hashDerivedMetricTags l tags =
     (if tags = [] then 0
      else fold (\<lambda>k h. HashCombine (HashCombine h (l_xx l k)) (l_xx l (tag_value tags k))) (sortedTagKeys tags) Seed1)"

definition newDerivedMetricKey :: "lib \<Rightarrow> DerivedMetricRecord \<Rightarrow> derivedMetricKey" where
  "newDerivedMetricKey l r =
     \<lparr>k_token = dr_Token r, k_measurement = measurement r, k_metricName = dr_MetricName r, k_stage = dr_Stage r, k_decision = dr_Decision r,
      k_tagsHash = hashDerivedMetricTags l (dr_Tags r)\<rparr>"

subsection \<open>Adding\<close>

definition new_sum :: "DerivedMetricRecord \<Rightarrow> derivedMetricValue" where
  "new_sum r =
     \<lparr>v_token = dr_Token r, v_measurement = measurement r, v_metricName = dr_MetricName r, v_stage = dr_Stage r, v_decision = dr_Decision r,
      v_tags = dr_Tags r, v_sum = FFin 0\<rparr>"

definition newDerivedHistogramValue :: "DerivedMetricRecord \<Rightarrow> derivedHistogramValue" where
  "newDerivedHistogramValue r =
     \<lparr>v_token = dr_Token r, v_measurement = measurement r, v_metricName = dr_MetricName r, v_stage = dr_Stage r, v_decision = dr_Decision r,
      v_tags = dr_Tags r, v_sum = FFin 0, h_buckets = sort (dr_Buckets r), h_counts = replicate (length (dr_Buckets r) + 1) (FFin 0), h_count = FFin 0\<rparr>"

text \<open>The first bucket whose bound is not below the value; the last one has no bound.\<close>

definition bucket_index :: "f64 list \<Rightarrow> f64 \<Rightarrow> nat" where
  "bucket_index bs v = (case find (\<lambda>i. f64_le v (bs ! i)) [0..<length bs] of None \<Rightarrow> length bs | Some i \<Rightarrow> i)"

definition observe :: "f64 \<Rightarrow> derivedHistogramValue \<Rightarrow> derivedHistogramValue" where
  "observe v h =
     (let i = bucket_index (h_buckets h) v
      in h\<lparr>v_sum := f64_add (v_sum h) v, h_count := f64_add (h_count h) (FFin 1), h_counts := (h_counts h)[i := f64_add (h_counts h ! i) (FFin 1)]\<rparr>)"

definition bucket_for :: "int \<Rightarrow> DerivedMetricCollector \<Rightarrow> derivedMetricBucket" where
  "bucket_for ex c = (case map_of (buckets c) ex of Some b \<Rightarrow> b | None \<Rightarrow> \<lparr>b_sums = [], b_hist = []\<rparr>)"

definition add_to_bucket :: "derivedMetricKey \<Rightarrow> DerivedMetricRecord \<Rightarrow> derivedMetricBucket \<Rightarrow> derivedMetricBucket" where
  "add_to_bucket key r b =
     (if dr_Kind r = ''histogram''
      then let cur = (case map_of (b_hist b) key of Some h \<Rightarrow> h | None \<Rightarrow> newDerivedHistogramValue r)
           in b\<lparr>b_hist := AList.update key (observe (dr_Value r) cur) (b_hist b)\<rparr>
      else if dr_Kind r = [] \<or> dr_Kind r = ''sum''
      then let cur = (case map_of (b_sums b) key of Some v \<Rightarrow> v | None \<Rightarrow> new_sum r)
           in b\<lparr>b_sums := AList.update key (cur\<lparr>v_sum := f64_add (v_sum cur) (dr_Value r)\<rparr>) (b_sums b)\<rparr>
      else b)"

definition record_window :: "int \<Rightarrow> int \<Rightarrow> DerivedMetricRecord \<Rightarrow> int" where
  "record_window clk w r = AlignNextWallTime (case dr_Time r of None \<Rightarrow> clk | Some t \<Rightarrow> t) w"

definition add_record :: "lib \<Rightarrow> int \<Rightarrow> DerivedMetricRecord \<Rightarrow> DerivedMetricCollector \<Rightarrow> DerivedMetricCollector" where
  "add_record l clk r c =
     (let ex = record_window clk (dc_window c) r
      in c\<lparr>buckets := AList.update ex (add_to_bucket (newDerivedMetricKey l r) r (bucket_for ex c)) (buckets c)\<rparr>)"

definition Collector_Add :: "lib \<Rightarrow> int \<Rightarrow> DerivedMetricRecord list \<Rightarrow> DerivedMetricCollector \<Rightarrow> DerivedMetricCollector" where
  "Collector_Add l clk rs c = fold (add_record l clk) rs c"

subsection \<open>Flushing\<close>

definition buildKVs :: "lib \<Rightarrow> 'a derivedMetricValue_scheme \<Rightarrow> string \<Rightarrow> f64 \<Rightarrow> (string \<times> string) list \<Rightarrow> Point_Kvs.KVs" where
  "buildKVs l v field val extraTags =
     (let mk = l_mk l;
          k1 = AddVal mk field (RawFloat val) [] [];
          k2 = (if v_stage v \<noteq> [] then AddTag mk ''stage'' (v_stage v) k1 else k1);
          k3 = (if v_decision v \<noteq> [] then AddTag mk ''decision'' (v_decision v) k2 else k2);
          k4 = fold (\<lambda>k. AddTag mk k (tag_value (v_tags v) k)) (sortedTagKeys (v_tags v)) k3
      in fold (\<lambda>(k, x). AddTag mk k x) extraTags k4)"

definition toPoint :: "lib \<Rightarrow> int \<Rightarrow> derivedMetricValue \<Rightarrow> Point option" where
  "toPoint l ex v = new_point l (v_measurement v) (buildKVs l v (v_metricName v) (v_sum v) []) (to_i64 (ex * 1000000000))"

text \<open>The running totals of the buckets.\<close>

fun running :: "f64 \<Rightarrow> f64 list \<Rightarrow> f64 list" where
  "running acc [] = []"
| "running acc (c # cs) = f64_add acc c # running (f64_add acc c) cs"

definition cumulative :: "derivedHistogramValue \<Rightarrow> f64 list" where
  "cumulative h = running (FFin 0) (h_counts h)"

text \<open>\<open>trimFloat\<close> prints the bound.\<close>

definition bucket_labels :: "lib \<Rightarrow> derivedHistogramValue \<Rightarrow> string list" where
  "bucket_labels l h = map (\<lambda>i. if i < length (h_buckets h) then l_float l (h_buckets h ! i) else ''+Inf'') [0..<length (h_counts h)]"

definition toPoints :: "lib \<Rightarrow> int \<Rightarrow> derivedHistogramValue \<Rightarrow> Point list option" where
  "toPoints l ex h =
     (let ts = to_i64 (ex * 1000000000);
          pt = (\<lambda>field val extra. new_point l (v_measurement h) (buildKVs l h field val extra) ts)
      in those (map (\<lambda>(c, le). pt (v_metricName h @ ''_bucket'') c [(''le'', le)]) (zip (cumulative h) (bucket_labels l h)) @
                [pt (v_metricName h @ ''_sum'') (v_sum h) [], pt (v_metricName h @ ''_count'') (h_count h) []]))"

definition bucket_points :: "lib \<Rightarrow> int \<times> derivedMetricBucket \<Rightarrow> (string \<times> Point list) list option" where
  "bucket_points l e =
     (case e of (ex, b) \<Rightarrow>
        those (map (\<lambda>(k, v). map_option (\<lambda>p. (v_token v, [p])) (toPoint l ex v)) (b_sums b) @
               map (\<lambda>(k, h). map_option (\<lambda>ps. (v_token h, ps)) (toPoints l ex h)) (b_hist b)))"

definition group_points :: "(string \<times> Point list) list \<Rightarrow> (string \<times> Point list) list" where
  "group_points xs = fold (\<lambda>(tk, ps) g. AList.update tk ((case map_of g tk of Some qs \<Rightarrow> qs | None \<Rightarrow> []) @ ps) g) xs []"

text \<open>\<open>None\<close> is a panic of a new point.\<close>

definition Flush :: "lib \<Rightarrow> int \<Rightarrow> DerivedMetricCollector \<Rightarrow> (DerivedMetricPoints list \<times> DerivedMetricCollector) option" where
  "Flush l t c =
     (case those (map (bucket_points l) (filter (\<lambda>(ex, b). ex \<le> Unix t) (buckets c))) of
        None \<Rightarrow> None
      | Some pss \<Rightarrow>
          Some (map (\<lambda>(tk, ps). \<lparr>dp_Token = tk, dp_PTS = ps\<rparr>) (group_points (concat pss)),
                c\<lparr>buckets := filter (\<lambda>(ex, b). \<not> ex \<le> Unix t) (buckets c)\<rparr>))"

subsection \<open>Sums\<close>

definition sum_slot :: "DerivedMetricCollector \<Rightarrow> int \<Rightarrow> derivedMetricKey \<Rightarrow> f64 option" where
  "sum_slot c ex key = map_option v_sum (map_of (b_sums (bucket_for ex c)) key)"

definition hist_slot :: "DerivedMetricCollector \<Rightarrow> int \<Rightarrow> derivedMetricKey \<Rightarrow> derivedHistogramValue option" where
  "hist_slot c ex key = map_of (b_hist (bucket_for ex c)) key"

definition is_sum :: "DerivedMetricRecord \<Rightarrow> bool" where
  "is_sum r \<longleftrightarrow> dr_Kind r = [] \<or> dr_Kind r = ''sum''"

lemma add_record_frame: "dc_window (add_record l clk r c) = dc_window c"
  by (simp add: add_record_def Let_def)

lemma bucket_for_add: "bucket_for ex (add_record l clk r c) =
    (if ex = record_window clk (dc_window c) r then add_to_bucket (newDerivedMetricKey l r) r (bucket_for ex c) else bucket_for ex c)"
  by (simp add: bucket_for_def add_record_def Let_def update_conv)

lemma sum_slot_add: "sum_slot (add_record l clk r c) ex key =
    (if is_sum r \<and> ex = record_window clk (dc_window c) r \<and> key = newDerivedMetricKey l r
     then Some (f64_add (case sum_slot c ex key of None \<Rightarrow> FFin 0 | Some x \<Rightarrow> x) (dr_Value r)) else sum_slot c ex key)"
  by (auto simp: sum_slot_def bucket_for_add add_to_bucket_def is_sum_def Let_def update_conv new_sum_def split: option.split)

lemma hist_slot_add: "hist_slot (add_record l clk r c) ex key =
    (if dr_Kind r = ''histogram'' \<and> ex = record_window clk (dc_window c) r \<and> key = newDerivedMetricKey l r
     then Some (observe (dr_Value r) (case hist_slot c ex key of None \<Rightarrow> newDerivedHistogramValue r | Some h \<Rightarrow> h)) else hist_slot c ex key)"
  by (auto simp: hist_slot_def bucket_for_add add_to_bucket_def Let_def update_conv split: option.split)

lemma Add_sums: "sum_slot (Collector_Add l clk rs c) ex key =
    (let vs = map dr_Value (filter (\<lambda>r. is_sum r \<and> record_window clk (dc_window c) r = ex \<and> newDerivedMetricKey l r = key) rs)
     in if vs = [] then sum_slot c ex key else Some (foldl f64_add (case sum_slot c ex key of None \<Rightarrow> FFin 0 | Some x \<Rightarrow> x) vs))"
  unfolding Collector_Add_def
proof (induction rs arbitrary: c)
  case (Cons r rs)
  show ?case by (simp add: Cons.IH add_record_frame sum_slot_add Let_def)
qed simp

subsection \<open>Histograms\<close>

text \<open>Whole numbers below \<open>2^53\<close> are floats, so counting by one is exact.\<close>

lemma round_even_of_int [simp]: "round_even (of_int k) = k"
  by (simp add: round_even_def)

lemma f64_of_nat_exact:
  assumes "n < 2 ^ 53"
  shows "f64_of_rat (of_nat n) = FFin (of_nat n)"
proof (cases "n = 0")
  case True
  then show ?thesis by (simp add: f64_of_rat_def)
next
  case False
  define q where "q = (of_nat n :: rat)"
  define e where "e = max (exponent q - 52) (- 1074)"
  have q: "0 < q" using False by (simp add: q_def)
  have "q < of_nat (2 ^ 53)" unfolding q_def using assms by (simp only: of_nat_less_iff)
  then have q53: "q < pow2 53" using pow2_nat[of 53] by simp
  then have "pow2 (exponent q) < pow2 53" using exponent_bounds(1)[OF q] by linarith
  then have e0: "e \<le> 0" by (simp add: e_def pow2_less_iff)
  define k where "k = n * 2 ^ nat (0 - e)"
  have s: "q / pow2 e = of_int (int k)"
    using of_nat_scaled[OF e0, of n] by (simp add: q_def k_def pow2_def)
  have "of_int (round_even (q / pow2 e)) * pow2 e = q / pow2 e * pow2 e" by (simp only: s round_even_of_int)
  then have "of_int (round_even (q / pow2 e)) * pow2 e = q" by simp
  moreover have "q < pow2 1024" using q53 pow2_less[of 53 1024] by linarith
  ultimately show ?thesis using q unfolding q_def[symmetric] by (simp add: f64_of_rat_def Let_def e_def[symmetric])
qed

lemma f64_count: "Suc n < 2 ^ 53 \<Longrightarrow> f64_add (FFin (of_nat n)) (FFin 1) = FFin (of_nat (Suc n))"
  using f64_of_nat_exact[of "Suc n"] by (simp add: add.commute)

text \<open>A histogram that has seen \<open>vs\<close>.\<close>

definition counted :: "f64 list \<Rightarrow> f64 list \<Rightarrow> derivedHistogramValue \<Rightarrow> bool" where
  "counted bs vs h \<longleftrightarrow>
     h_buckets h = bs \<and> length (h_counts h) = length bs + 1 \<and> h_count h = FFin (of_nat (length vs)) \<and>
     (\<forall>i \<le> length bs. h_counts h ! i = FFin (of_nat (length (filter (\<lambda>v. bucket_index bs v = i) vs))))"

lemma bucket_index_le: "bucket_index bs v \<le> length bs"
  by (auto simp: bucket_index_def find_Some_iff split: option.split)

lemma counted_new: "counted (sort (dr_Buckets r)) [] (newDerivedHistogramValue r)"
  by (simp add: counted_def newDerivedHistogramValue_def nth_Cons')

lemma counted_observe:
  assumes "counted bs vs h" "Suc (length vs) < 2 ^ 53"
  shows "counted bs (vs @ [v]) (observe v h)"
proof -
  define n where "n = length (filter (\<lambda>x. bucket_index bs x = bucket_index bs v) vs)"
  have "n \<le> length vs" by (simp add: n_def)
  then have "f64_add (FFin (of_nat n)) (FFin 1) = FFin (of_nat (Suc n))" using assms(2) by (intro f64_count) simp
  moreover have "h_counts h ! bucket_index bs v = FFin (of_nat n)" using assms(1) bucket_index_le[of bs v] by (simp add: counted_def n_def)
  ultimately have "f64_add (h_counts h ! bucket_index bs v) (FFin 1) = FFin (of_nat (Suc n))" by simp
  then show ?thesis
    using assms f64_count[of "length vs"] bucket_index_le[of bs v]
    by (auto simp: counted_def observe_def Let_def nth_list_update n_def)
qed

lemma counted_fold:
  "counted bs us h \<Longrightarrow> length us + length vs < 2 ^ 53 \<Longrightarrow> counted bs (us @ vs) (fold observe vs h)"
proof (induction vs arbitrary: us h)
  case (Cons v vs)
  have "counted bs (us @ [v]) (observe v h)" using Cons.prems by (intro counted_observe) auto
  from Cons.IH[OF this] Cons.prems show ?case by simp
qed simp

lemma length_running [simp]: "length (running a cs) = length cs"
  by (induction cs arbitrary: a) simp_all

lemma running_nth:
  assumes "\<And>j. j < length cs \<Longrightarrow> cs ! j = FFin (of_nat (f j))" "i < length cs" "a + (\<Sum>j<length cs. f j) < 2 ^ 53"
  shows "running (FFin (of_nat a)) cs ! i = FFin (of_nat (a + (\<Sum>j\<le>i. f j)))"
  using assms
proof (induction cs arbitrary: a f i)
  case (Cons c cs)
  have c: "c = FFin (of_nat (f 0))" using Cons.prems(1)[of 0] by simp
  have tot: "(\<Sum>j<length (c # cs). f j) = f 0 + (\<Sum>j<length cs. f (Suc j))" by (simp only: list.size(4) One_nat_def add_Suc_right add_0_right sum.lessThan_Suc_shift)
  have s: "f64_add (FFin (of_nat a)) c = FFin (of_nat (a + f 0))"
    using f64_of_nat_exact[of "a + f 0"] Cons.prems(3) tot by (simp add: c)
  show ?case
  proof (cases i)
    case 0
    then show ?thesis using s by simp
  next
    case (Suc k)
    have "running (FFin (of_nat (a + f 0))) cs ! k = FFin (of_nat (a + f 0 + (\<Sum>j\<le>k. f (Suc j))))"
      using Cons.prems(1)[of "Suc _"] Cons.prems(2,3) tot Suc by (intro Cons.IH[of "\<lambda>j. f (Suc j)"]) auto
    then show ?thesis using s Suc by (simp add: sum.atMost_Suc_shift add.assoc del: of_nat_add sum.atMost_Suc)
  qed
qed simp

lemma sum_filter: "(\<Sum>j\<le>i. length (filter (\<lambda>v. g v = j) vs)) = length (filter (\<lambda>v. g v \<le> (i :: nat)) vs)"
proof (induction vs)
  case (Cons v vs)
  have "(\<Sum>j\<le>i. length (filter (\<lambda>x. g x = j) (v # vs))) = (\<Sum>j\<le>i. (if g v = j then 1 else 0) + length (filter (\<lambda>x. g x = j) vs))"
    by (intro sum.cong) auto
  also have "\<dots> = (if g v \<le> i then 1 else 0) + length (filter (\<lambda>x. g x \<le> i) vs)"
    by (simp add: sum.distrib Cons.IH)
  finally show ?case by simp
qed simp

lemma bucket_index_iff:
  assumes "sorted bs" "i < length bs"
  shows "bucket_index bs v \<le> i \<longleftrightarrow> f64_le v (bs ! i)"
proof
  assume "bucket_index bs v \<le> i"
  then obtain j where j: "j \<le> i" "f64_le v (bs ! j)"
    using assms(2) by (auto simp: bucket_index_def find_Some_iff split: option.splits)
  have "bs ! j \<le> bs ! i" using assms j(1) by (simp add: sorted_nth_mono)
  moreover have "bs ! j \<noteq> FNaN" using j(2) by (metis f64_nan(4))
  ultimately show "f64_le v (bs ! i)"
    using j(2) by (cases v; cases "bs ! j"; cases "bs ! i") (auto simp: f64_le_def less_eq_f64_def less_f64_def)
next
  assume le: "f64_le v (bs ! i)"
  show "bucket_index bs v \<le> i"
  proof (rule ccontr)
    assume n: "\<not> bucket_index bs v \<le> i"
    show False
    proof (cases "find (\<lambda>i. f64_le v (bs ! i)) [0..<length bs]")
      case None
      then show False using le assms(2) by (auto simp: find_None_iff)
    next
      case (Some k)
      then have k: "k < length bs" "\<forall>j<k. \<not> f64_le v (bs ! j)" by (auto simp: find_Some_iff)
      have "bucket_index bs v = k" using Some by (simp add: bucket_index_def)
      then show False using n k(2) le by auto
    qed
  qed
qed

end
