(* ===== verification/Derived_Processor.thy ===== *)
theory Derived_Processor
  imports Derived_Collector
begin

section \<open>Derived metrics: built-in metrics and the processor (aggregate/tail\_sampling\_builtin\_metrics.go, tail\_sampling\_processor.go)\<close>

text \<open>
  The processor wraps the sampler: it counts packets when they come in and groups when they are decided, and times traces before the decision.  A metric of the
  interface is a count or a histogram, with its hooks as functions; a hook returns \<open>None\<close> where the source returns \<open>false\<close>.  The processor itself, packets and
  metrics are not \<open>nil\<close>; its sampler and its collector may be.
\<close>

datatype TailSamplingBuiltinMetric =
    countMetric string "(DataPacket \<Rightarrow> f64 option) option" "(DataPacket \<Rightarrow> string \<Rightarrow> f64 option) option"
  | histogramMetric string "f64 list" "(DataPacket \<Rightarrow> f64 option) option" "(DataPacket \<Rightarrow> (string \<times> string) list) option"

fun Metric_Name :: "TailSamplingBuiltinMetric \<Rightarrow> string" where
  "Metric_Name (countMetric n i d) = n"
| "Metric_Name (histogramMetric n bs f t) = n"

subsection \<open>Records\<close>

definition builtinRecordTags :: "DataPacket \<Rightarrow> (string \<times> string) list" where
  "builtinRecordTags packet =
     [(''data_type'', DataType packet)] @ (if Source packet \<noteq> [] then [(''source'', Source packet)] else []) @
     (if GroupKey packet \<noteq> [] then [(''group_key'', GroupKey packet)] else [])"

definition packetTime :: "int \<Rightarrow> DataPacket \<Rightarrow> int" where
  "packetTime clk packet =
     (if MaxPointTimeUnixNano packet > 0 then MaxPointTimeUnixNano packet
      else if TraceEndTimeUnixNano packet > 0 then TraceEndTimeUnixNano packet else clk)"

definition newDerivedMetricRecord :: "int \<Rightarrow> DataPacket \<Rightarrow> string \<Rightarrow> string \<Rightarrow> string \<Rightarrow> f64 \<Rightarrow> DerivedMetricRecord" where
  "newDerivedMetricRecord clk packet name stage decision val =
     \<lparr>dr_Token = Token packet, dr_DataType = ''metric'', dr_MetricName = name, dr_Kind = ''sum'', dr_Stage = stage, dr_Decision = decision,
      dr_Measurement = TailSamplingDerivedMeasurement, dr_Tags = builtinRecordTags packet, dr_Value = val, dr_Buckets = [],
      dr_Time = Some (packetTime clk packet)\<rparr>"

definition newHistogramDerivedMetricRecord ::
  "int \<Rightarrow> DataPacket \<Rightarrow> string \<Rightarrow> string \<Rightarrow> string \<Rightarrow> f64 \<Rightarrow> (string \<times> string) list \<Rightarrow> f64 list \<Rightarrow> DerivedMetricRecord" where
  "newHistogramDerivedMetricRecord clk packet name stage decision val tags bs =
     \<lparr>dr_Token = Token packet, dr_DataType = ''metric'', dr_MetricName = name, dr_Kind = ''histogram'', dr_Stage = stage, dr_Decision = decision,
      dr_Measurement = TailSamplingDerivedMeasurement, dr_Tags = tags, dr_Value = val, dr_Buckets = bs, dr_Time = Some (packetTime clk packet)\<rparr>"

fun OnIngest :: "int \<Rightarrow> DataPacket \<Rightarrow> TailSamplingBuiltinMetric \<Rightarrow> DerivedMetricRecord list" where
  "OnIngest clk packet (countMetric n onIngest onDecision) =
     (case onIngest of
        None \<Rightarrow> []
      | Some f \<Rightarrow> (case f packet of None \<Rightarrow> [] | Some v \<Rightarrow> [newDerivedMetricRecord clk packet n ''ingest'' [] v]))"
| "OnIngest clk packet (histogramMetric n bs f t) = []"

fun OnPreDecision :: "int \<Rightarrow> DataPacket \<Rightarrow> TailSamplingBuiltinMetric \<Rightarrow> DerivedMetricRecord list" where
  "OnPreDecision clk packet (countMetric n onIngest onDecision) = []"
| "OnPreDecision clk packet (histogramMetric n bs onObserve recordTags) =
     (case onObserve of
        None \<Rightarrow> []
      | Some f \<Rightarrow>
          (case f packet of
             None \<Rightarrow> []
           | Some v \<Rightarrow>
               [newHistogramDerivedMetricRecord clk packet n ''pre_decision'' [] v
                  (case recordTags of None \<Rightarrow> builtinRecordTags packet | Some g \<Rightarrow> g packet) bs]))"

fun OnDecision :: "int \<Rightarrow> DataPacket \<Rightarrow> string \<Rightarrow> TailSamplingBuiltinMetric \<Rightarrow> DerivedMetricRecord list" where
  "OnDecision clk packet decision (countMetric n onIngest onDecision) =
     (case onDecision of
        None \<Rightarrow> []
      | Some f \<Rightarrow> (case f packet decision of None \<Rightarrow> [] | Some v \<Rightarrow> [newDerivedMetricRecord clk packet n ''decision'' decision v]))"
| "OnDecision clk packet decision (histogramMetric n bs f t) = []"

definition Metrics_OnIngest :: "int \<Rightarrow> TailSamplingBuiltinMetric list \<Rightarrow> DataPacket \<Rightarrow> DerivedMetricRecord list" where
  "Metrics_OnIngest clk ms packet = concat (map (OnIngest clk packet) ms)"

definition Metrics_OnPreDecision :: "int \<Rightarrow> TailSamplingBuiltinMetric list \<Rightarrow> DataPacket \<Rightarrow> DerivedMetricRecord list" where
  "Metrics_OnPreDecision clk ms packet = concat (map (OnPreDecision clk packet) ms)"

definition Metrics_OnDecision :: "int \<Rightarrow> TailSamplingBuiltinMetric list \<Rightarrow> DataPacket \<Rightarrow> string \<Rightarrow> DerivedMetricRecord list" where
  "Metrics_OnDecision clk ms packet decision = concat (map (OnDecision clk packet decision) ms)"

subsection \<open>The default metrics\<close>

abbreviation STracing :: string where "STracing \<equiv> ''tracing''"
abbreviation SLogging :: string where "SLogging \<equiv> ''logging''"
abbreviation SRUM :: string where "SRUM \<equiv> ''rum''"
abbreviation Kept :: string where "Kept \<equiv> ''kept''"
abbreviation Dropped :: string where "Dropped \<equiv> ''dropped''"

definition builtinDataTypeCount :: "string \<Rightarrow> DataPacket \<Rightarrow> f64 option" where
  "builtinDataTypeCount dataType packet = (if DataType packet = dataType then Some (FFin 1) else None)"

definition error_count :: "string \<Rightarrow> DataPacket \<Rightarrow> f64 option" where
  "error_count dataType packet = (if DataType packet = dataType \<and> HasError packet then Some (FFin 1) else None)"

definition decision_count :: "string \<Rightarrow> string \<Rightarrow> DataPacket \<Rightarrow> string \<Rightarrow> f64 option" where
  "decision_count dataType wanted packet decision = (if DataType packet = dataType \<and> decision = wanted then Some (FFin 1) else None)"

definition span_count :: "DataPacket \<Rightarrow> f64 option" where
  "span_count packet =
     (if DataType packet \<noteq> STracing then None else if PointCount packet \<le> 0 then None else Some (f64_of_int (PointCount packet)))"

definition trace_duration :: "DataPacket \<Rightarrow> f64 option" where
  "trace_duration packet =
     (if DataType packet \<noteq> STracing then None
      else if TraceEndTimeUnixNano packet \<le> TraceStartTimeUnixNano packet then None
      else Some (f64_div (f64_of_int (to_i64 (TraceEndTimeUnixNano packet - TraceStartTimeUnixNano packet))) (FFin 1000000)))"

definition defaultTraceDurationBucketsMS :: "f64 list" where
  "defaultTraceDurationBucketsMS = map FFin [1, 10, 20, 50, 100, 200, 500, 1000, 2000, 5000]"

definition DefaultTailSamplingBuiltinMetrics :: "TailSamplingBuiltinMetric list" where
  "DefaultTailSamplingBuiltinMetrics =
     [countMetric ''trace_total_count'' (Some (builtinDataTypeCount STracing)) None,
      countMetric ''trace_kept_count'' None (Some (decision_count STracing Kept)),
      countMetric ''trace_dropped_count'' None (Some (decision_count STracing Dropped)),
      countMetric ''trace_error_count'' (Some (error_count STracing)) None,
      countMetric ''span_total_count'' (Some span_count) None,
      histogramMetric ''trace_duration'' defaultTraceDurationBucketsMS (Some trace_duration) None,
      countMetric ''logging_total_count'' (Some (builtinDataTypeCount SLogging)) None,
      countMetric ''logging_error_count'' (Some (error_count SLogging)) None,
      countMetric ''logging_kept_count'' None (Some (decision_count SLogging Kept)),
      countMetric ''logging_dropped_count'' None (Some (decision_count SLogging Dropped)),
      countMetric ''rum_total_count'' (Some (builtinDataTypeCount SRUM)) None,
      countMetric ''rum_kept_count'' None (Some (decision_count SRUM Kept)),
      countMetric ''rum_dropped_count'' None (Some (decision_count SRUM Dropped))]"

subsection \<open>The processor\<close>

record TailSamplingProcessor =
  p_sampler :: "sampler option"
  p_collector :: "DerivedMetricCollector option"
  p_metrics :: "TailSamplingBuiltinMetric list"

definition NewDefaultTailSamplingProcessor :: "nat \<Rightarrow> int \<Rightarrow> os \<Rightarrow> TailSamplingProcessor" where
  "NewDefaultTailSamplingProcessor shardCount wait w =
     \<lparr>p_sampler = Some (NewGlobalSampler shardCount wait w),
      p_collector = Some (NewDerivedMetricCollector DefaultDerivedMetricFlushWindow), p_metrics = DefaultTailSamplingBuiltinMetrics\<rparr>"

definition NewTailSamplingProcessor ::
  "sampler option \<Rightarrow> DerivedMetricCollector option \<Rightarrow> TailSamplingBuiltinMetric list \<Rightarrow> TailSamplingProcessor" where
  "NewTailSamplingProcessor s c ms = \<lparr>p_sampler = s, p_collector = c, p_metrics = ms\<rparr>"

definition builtin_cfgs :: "string \<Rightarrow> string \<Rightarrow> sampler \<Rightarrow> BuiltinMetricCfg option list option" where
  "builtin_cfgs token dataType s =
     (if dataType = STracing then map_option tr_BuiltinMetrics (GetTraceConfig token s)
      else if dataType = SLogging then map_option gt_BuiltinMetrics (GetLoggingConfig token s)
      else if dataType = SRUM then map_option gt_BuiltinMetrics (GetRUMConfig token s)
      else None)"

definition isBuiltinMetricEnabled :: "sampler option \<Rightarrow> string \<Rightarrow> string \<Rightarrow> string \<Rightarrow> bool" where
  "isBuiltinMetricEnabled smp token dataType metricName =
     (case smp of
        None \<Rightarrow> True
      | Some s \<Rightarrow>
          (case builtin_cfgs token dataType s of
             None \<Rightarrow> True
           | Some cfgs \<Rightarrow>
               (case find (\<lambda>cfg. case cfg of None \<Rightarrow> False | Some c \<Rightarrow> bm_Name c = metricName) cfgs of
                  Some (Some c) \<Rightarrow> bm_Enabled c
                | _ \<Rightarrow> True)))"

definition filterBuiltinRecords :: "sampler option \<Rightarrow> DataPacket \<Rightarrow> DerivedMetricRecord list \<Rightarrow> DerivedMetricRecord list" where
  "filterBuiltinRecords smp packet rs = filter (\<lambda>r. isBuiltinMetricEnabled smp (Token packet) (DataType packet) (dr_MetricName r)) rs"

text \<open>Adding records, where there is a collector and there are metrics.\<close>

definition record_all :: "lib \<Rightarrow> int \<Rightarrow> DerivedMetricRecord list \<Rightarrow> TailSamplingProcessor \<Rightarrow> TailSamplingProcessor" where
  "record_all l clk rs p =
     (if p_metrics p = [] then p else p\<lparr>p_collector := map_option (Collector_Add l clk rs) (p_collector p)\<rparr>)"

definition Processor_UpdateConfig ::
  "get_conds \<Rightarrow> string \<Rightarrow> TailSamplingConfigs option \<Rightarrow> TailSamplingProcessor \<Rightarrow> config_err list \<times> TailSamplingProcessor" where
  "Processor_UpdateConfig gc token conf p =
     (case (p_sampler p, conf) of
        (Some s, Some cfg) \<Rightarrow> (case UpdateConfig gc token (Some cfg) s of (es, s1) \<Rightarrow> (es, p\<lparr>p_sampler := Some s1\<rparr>))
      | _ \<Rightarrow> ([], p))"

definition IngestPacket :: "lib \<Rightarrow> int \<Rightarrow> DataPacket \<Rightarrow> TailSamplingProcessor \<Rightarrow> TailSamplingProcessor" where
  "IngestPacket l clk packet p =
     (let p1 = record_all l clk (filterBuiltinRecords (p_sampler p) packet (Metrics_OnIngest clk (p_metrics p) packet)) p
      in p1\<lparr>p_sampler := map_option (Ingest (l_xx l) (l_codec l) packet) (p_sampler p1)\<rparr>)"

definition Processor_AdvanceTime :: "TailSamplingProcessor \<Rightarrow> (nat \<Rightarrow> DataGroup option) \<times> TailSamplingProcessor" where
  "Processor_AdvanceTime p =
     (case p_sampler p of
        None \<Rightarrow> (\<lambda>k. None, p)
      | Some s \<Rightarrow> (case AdvanceTime s of (frozen, s1) \<Rightarrow> (frozen, p\<lparr>p_sampler := Some s1\<rparr>)))"

definition decision_text :: "DerivedMetricDecision \<Rightarrow> string" where
  "decision_text d = (case d of DecisionKept \<Rightarrow> Kept | DecisionDropped \<Rightarrow> Dropped)"

definition pre_decision_records :: "int \<Rightarrow> TailSamplingProcessor \<Rightarrow> (nat \<times> DataGroup option) list \<Rightarrow> DerivedMetricRecord list" where
  "pre_decision_records clk p gs =
     concat (map (\<lambda>(key, g). case g of
                    None \<Rightarrow> []
                  | Some dg \<Rightarrow> filterBuiltinRecords (p_sampler p) (dg_packet dg) (Metrics_OnPreDecision clk (p_metrics p) (dg_packet dg))) gs)"

definition outcome_records :: "int \<Rightarrow> TailSamplingProcessor \<Rightarrow> TailSamplingOutcome \<Rightarrow> DerivedMetricRecord list" where
  "outcome_records clk p o1 =
     (case to_SourcePacket o1 of
        None \<Rightarrow> []
      | Some packet \<Rightarrow> filterBuiltinRecords (p_sampler p) packet (Metrics_OnDecision clk (p_metrics p) packet (decision_text (to_Decision o1))))"

text \<open>The inner \<open>None\<close> is the \<open>nil\<close> map of a processor without a sampler, the outer one a panic.\<close>

definition Processor_TailSamplingOutcomes ::
  "lib \<Rightarrow> regexp \<Rightarrow> int \<Rightarrow> (nat \<times> DataGroup option) list \<Rightarrow> TailSamplingProcessor
   \<Rightarrow> ((nat \<times> TailSamplingOutcome) list option \<times> TailSamplingProcessor) option" where
  "Processor_TailSamplingOutcomes l rx clk gs p =
     (case p_sampler p of
        None \<Rightarrow> Some (None, p)
      | Some s \<Rightarrow>
          (let p1 = record_all l clk (pre_decision_records clk p gs) p in
           case TailSamplingOutcomes (l_codec l) rx gs s of
             None \<Rightarrow> None
           | Some (outs, s1) \<Rightarrow>
               (let p2 = p1\<lparr>p_sampler := Some s1\<rparr>
                in Some (Some outs, record_all l clk (concat (map (\<lambda>(key, o1). outcome_records clk p2 o1) outs)) p2))))"

definition Processor_TailSamplingData ::
  "lib \<Rightarrow> regexp \<Rightarrow> int \<Rightarrow> (nat \<times> DataGroup option) list \<Rightarrow> TailSamplingProcessor
   \<Rightarrow> ((nat \<times> DataPacket) list option \<times> TailSamplingProcessor) option" where
  "Processor_TailSamplingData l rx clk gs p =
     map_option (\<lambda>(outs, p1). (map_option (List.map_filter (\<lambda>(key, o1). map_option (Pair key) (to_Packet o1))) outs, p1))
       (Processor_TailSamplingOutcomes l rx clk gs p)"

definition RecordDecision :: "lib \<Rightarrow> int \<Rightarrow> DataPacket \<Rightarrow> string \<Rightarrow> TailSamplingProcessor \<Rightarrow> TailSamplingProcessor" where
  "RecordDecision l clk packet decision p =
     record_all l clk (filterBuiltinRecords (p_sampler p) packet (Metrics_OnDecision clk (p_metrics p) packet decision)) p"

definition FlushDerivedMetrics :: "lib \<Rightarrow> int \<Rightarrow> TailSamplingProcessor \<Rightarrow> (DerivedMetricPoints list \<times> TailSamplingProcessor) option" where
  "FlushDerivedMetrics l t p =
     (case p_collector p of
        None \<Rightarrow> Some ([], p)
      | Some c \<Rightarrow> map_option (\<lambda>(pts, c1). (pts, p\<lparr>p_collector := Some c1\<rparr>)) (Flush l t c))"

subsection \<open>What is recorded\<close>

definition prefix_of :: "string \<Rightarrow> string option" where
  "prefix_of dataType =
     (if dataType = STracing then Some ''trace'' else if dataType = SLogging then Some ''logging'' else if dataType = SRUM then Some ''rum'' else None)"

lemma one_decision_record:
  "Metrics_OnDecision clk DefaultTailSamplingBuiltinMetrics packet (decision_text d) =
     (case prefix_of (DataType packet) of
        None \<Rightarrow> []
      | Some pre \<Rightarrow> [newDerivedMetricRecord clk packet (pre @ ''_'' @ decision_text d @ ''_count'') ''decision'' (decision_text d) (FFin 1)])"
  by (cases d) (auto simp: Metrics_OnDecision_def DefaultTailSamplingBuiltinMetrics_def decision_count_def prefix_of_def decision_text_def)

lemma Collector_Add_append: "Collector_Add l clk (a @ b) c = Collector_Add l clk b (Collector_Add l clk a c)"
  by (simp add: Collector_Add_def)

end
