(* ===== verification/Hash_Fnv.thy ===== *)
theory Hash_Fnv
  imports Tail_Pick
begin

section \<open>Hashing (pkg/hash/fnv1a.go)\<close>

text \<open>
  FNV-1a with its loop written out in every function.  Strings and byte slices are the same type here, so each pair of functions that differ in it
  is one equation apart.
\<close>

definition offset64 :: "64 word" where "offset64 = 14695981039346656037"
definition prime64 :: "64 word" where "prime64 = 1099511628211"

definition Fnv1aNew :: "64 word" where "Fnv1aNew = offset64"

fun Fnv1aHashAdd :: "64 word \<Rightarrow> string \<Rightarrow> 64 word" where
  "Fnv1aHashAdd h [] = h"
| "Fnv1aHashAdd h (c # s) = Fnv1aHashAdd (xor h (of_char c) * prime64) s"

fun Fnv1aHashAddByte :: "64 word \<Rightarrow> bytes \<Rightarrow> 64 word" where
  "Fnv1aHashAddByte h [] = h"
| "Fnv1aHashAddByte h (c # s) = Fnv1aHashAddByte (xor h (of_char c) * prime64) s"

text \<open>The loop over the bytes of one string, and over the strings of a list.\<close>

fun str_loop :: "64 word \<Rightarrow> string \<Rightarrow> 64 word" where
  "str_loop h [] = h"
| "str_loop h (c # s) = str_loop (xor h (of_char c) * prime64) s"

definition Fnv1aStrHash :: "string \<Rightarrow> 64 word" where "Fnv1aStrHash s = str_loop offset64 s"
definition Fnv1aU8Hash :: "bytes \<Rightarrow> 64 word" where "Fnv1aU8Hash s = str_loop offset64 s"

fun strs_loop :: "64 word \<Rightarrow> string list \<Rightarrow> 64 word" where
  "strs_loop h [] = h"
| "strs_loop h (s # v) = strs_loop (str_loop h s) v"

definition Fnv1aHash :: "string list \<Rightarrow> 64 word" where "Fnv1aHash v = strs_loop offset64 v"

lemma loops_fold:
  "Fnv1aHashAdd h s = fold (\<lambda>c h. xor h (of_char c) * prime64) s h"
  "Fnv1aHashAddByte h s = fold (\<lambda>c h. xor h (of_char c) * prime64) s h"
  "str_loop h s = fold (\<lambda>c h. xor h (of_char c) * prime64) s h"
  by (induction s arbitrary: h) simp_all

lemma strs_loop_concat: "strs_loop h v = fold (\<lambda>c h. xor h (of_char c) * prime64) (concat v) h"
  by (induction v arbitrary: h) (simp_all add: loops_fold)

end
