(* ===== verification/Derived_Props.thy ===== *)
theory Derived_Props
  imports Derived_Processor Hash_Fnv Aggr_Props Aggr_Total
begin

section \<open>Claims about derived metrics and hashing\<close>

text \<open>
  C33.  The histograms of the collector are cumulative histograms: after fewer than \<open>2^53\<close> observations the value of a bucket is the number of observations not
  above its bound, for every bound, and the last bucket and the count are the number of all observations.
\<close>

theorem derived_histogram_exact:
  fixes r :: DerivedMetricRecord
  assumes "length vs < 2 ^ 53"
  defines "h \<equiv> fold observe vs (newDerivedHistogramValue r)" and "bs \<equiv> sort (dr_Buckets r)"
  shows "length (cumulative h) = length bs + 1 \<and>
    (\<forall>i < length bs. cumulative h ! i = FFin (of_nat (length (filter (\<lambda>v. f64_le v (bs ! i)) vs)))) \<and>
    cumulative h ! length bs = FFin (of_nat (length vs)) \<and> h_count h = FFin (of_nat (length vs))"
proof -
  have c: "counted bs vs h" using counted_fold[OF counted_new[of r], of vs] assms(1) by (simp add: h_def bs_def)
  let ?f = "\<lambda>j. length (filter (\<lambda>v. bucket_index bs v = j) vs)"
  have "(\<Sum>j<length (h_counts h). ?f j) = (\<Sum>j\<le>length bs. ?f j)"
    using c by (simp add: counted_def lessThan_Suc_atMost)
  then have t: "(\<Sum>j<length (h_counts h). ?f j) = length vs" by (simp add: sum_filter bucket_index_le)
  have n: "cumulative h ! i = FFin (of_nat (length (filter (\<lambda>v. bucket_index bs v \<le> i) vs)))" if "i \<le> length bs" for i
    using running_nth[of "h_counts h" ?f i 0] c t that assms(1) by (simp add: cumulative_def counted_def sum_filter less_Suc_eq_le)
  have "cumulative h ! i = FFin (of_nat (length (filter (\<lambda>v. f64_le v (bs ! i)) vs)))" if "i < length bs" for i
    using n[of i] that bucket_index_iff[of bs i] by (simp add: bs_def)
  moreover have "cumulative h ! length bs = FFin (of_nat (length vs))" using n[of "length bs"] by (simp add: bucket_index_le)
  ultimately show ?thesis using c by (simp add: cumulative_def counted_def)
qed

definition ex_record :: DerivedMetricRecord where
  "ex_record = \<lparr>dr_Token = ''t'', dr_DataType = ''metric'', dr_MetricName = ''d'', dr_Kind = ''histogram'', dr_Stage = [], dr_Decision = [],
     dr_Measurement = [], dr_Tags = [], dr_Value = FFin 3, dr_Buckets = [FFin 1, FFin 5], dr_Time = Some 0\<rparr>"

theorem derived_histogram_exact_witness:
  "h_count (fold observe [FFin 3, FFin 9] (newDerivedHistogramValue ex_record)) = FFin 2"
  using derived_histogram_exact[of "[FFin 3, FFin 9]" ex_record] by simp

subsection \<open>The processor\<close>

text \<open>
  What is recorded of a group before it is decided: how long the trace took, where that is known and the metric is not switched off.  And of an outcome: one count,
  named after the kind of data and the decision, where the kind is known and the metric is not switched off.
\<close>

definition duration_records :: "int \<Rightarrow> sampler \<Rightarrow> DataGroup option \<Rightarrow> DerivedMetricRecord list" where
  "duration_records clk s g =
     (case g of
        None \<Rightarrow> []
      | Some dg \<Rightarrow>
          let pk = dg_packet dg in
          (case trace_duration pk of
             None \<Rightarrow> []
           | Some v \<Rightarrow>
               if isBuiltinMetricEnabled (Some s) (Token pk) (DataType pk) ''trace_duration''
               then [newHistogramDerivedMetricRecord clk pk ''trace_duration'' ''pre_decision'' [] v (builtinRecordTags pk) defaultTraceDurationBucketsMS]
               else []))"

definition decision_records :: "int \<Rightarrow> sampler \<Rightarrow> TailSamplingOutcome \<Rightarrow> DerivedMetricRecord list" where
  "decision_records clk s o1 =
     (case to_SourcePacket o1 of
        None \<Rightarrow> []
      | Some pk \<Rightarrow>
          (case prefix_of (DataType pk) of
             None \<Rightarrow> []
           | Some kind \<Rightarrow>
               let name = kind @ ''_'' @ decision_text (to_Decision o1) @ ''_count'' in
               if isBuiltinMetricEnabled (Some s) (Token pk) (DataType pk) name
               then [newDerivedMetricRecord clk pk name ''decision'' (decision_text (to_Decision o1)) (FFin 1)] else []))"

lemma default_pre_decision:
  assumes "p_metrics p = DefaultTailSamplingBuiltinMetrics" "p_sampler p = Some s"
  shows "pre_decision_records clk p gs = concat (map (\<lambda>(key, g). duration_records clk s g) gs)"
proof -
  have m: "Metrics_OnPreDecision clk DefaultTailSamplingBuiltinMetrics pk =
      (case trace_duration pk of None \<Rightarrow> []
       | Some v \<Rightarrow> [newHistogramDerivedMetricRecord clk pk ''trace_duration'' ''pre_decision'' [] v (builtinRecordTags pk) defaultTraceDurationBucketsMS])" for pk
    by (simp add: Metrics_OnPreDecision_def DefaultTailSamplingBuiltinMetrics_def split: option.split)
  have "(case g of None \<Rightarrow> []
         | Some dg \<Rightarrow> filterBuiltinRecords (p_sampler p) (dg_packet dg) (Metrics_OnPreDecision clk (p_metrics p) (dg_packet dg))) = duration_records clk s g" for g
    unfolding duration_records_def assms m Let_def
    by (simp add: filterBuiltinRecords_def newHistogramDerivedMetricRecord_def split: option.split)
  then show ?thesis by (simp add: pre_decision_records_def)
qed

lemma default_outcome:
  assumes "p_metrics p = DefaultTailSamplingBuiltinMetrics" "p_sampler p = Some s"
  shows "outcome_records clk p o1 = decision_records clk s o1"
  by (simp add: outcome_records_def decision_records_def assms one_decision_record filterBuiltinRecords_def newDerivedMetricRecord_def Let_def split: option.split)

text \<open>
  C32.  The processor counts each decision once and changes none.  With the default metrics its outcomes and its sampler are those of the sampler alone, and what
  it adds to the collector is, in this order, the durations of the groups and for each outcome its one count; nothing else.
\<close>

theorem processor_counts_each_decision:
  assumes "Processor_TailSamplingOutcomes l rx clk gs p = Some (Some outs, p')"
    and "p_metrics p = DefaultTailSamplingBuiltinMetrics" "p_collector p = Some c"
  shows "\<exists>s s'. p_sampler p = Some s \<and> TailSamplingOutcomes (l_codec l) rx gs s = Some (outs, s') \<and> p_sampler p' = Some s' \<and>
    p_collector p' = Some (Collector_Add l clk
      (concat (map (\<lambda>(key, g). duration_records clk s g) gs) @ concat (map (\<lambda>(key, o1). decision_records clk s' o1) outs)) c)"
proof -
  obtain s where s: "p_sampler p = Some s" using assms(1) by (auto simp: Processor_TailSamplingOutcomes_def split: option.splits)
  obtain s' where o: "TailSamplingOutcomes (l_codec l) rx gs s = Some (outs, s')"
    using assms(1) s by (auto simp: Processor_TailSamplingOutcomes_def Let_def split: option.splits prod.splits)
  define p2 where "p2 = (record_all l clk (pre_decision_records clk p gs) p)\<lparr>p_sampler := Some s'\<rparr>"
  have ne: "p_metrics p \<noteq> []" using assms(2) by (simp add: DefaultTailSamplingBuiltinMetrics_def)
  have p2: "p_metrics p2 = DefaultTailSamplingBuiltinMetrics" "p_sampler p2 = Some s'"
    "p_collector p2 = Some (Collector_Add l clk (pre_decision_records clk p gs) c)"
    using ne assms(2,3) by (simp_all add: p2_def record_all_def)
  have "p' = record_all l clk (concat (map (\<lambda>(key, o1). outcome_records clk p2 o1) outs)) p2"
    using assms(1) s o by (simp add: Processor_TailSamplingOutcomes_def Let_def p2_def)
  then have "p_sampler p' = Some s'"
    "p_collector p' = Some (Collector_Add l clk (concat (map (\<lambda>(key, o1). outcome_records clk p2 o1) outs)) (Collector_Add l clk (pre_decision_records clk p gs) c))"
    using p2 ne assms(2) by (simp_all add: record_all_def)
  then show ?thesis
    using s o by (simp add: Collector_Add_append default_pre_decision[OF assms(2) s] default_outcome[OF p2(1,2)])
qed

definition ex_processor :: TailSamplingProcessor where
  "ex_processor = NewDefaultTailSamplingProcessor 1 0 \<lparr>files = [], dirs = [], flocks = [], faults = [], now = 0\<rparr>"

definition ex_group :: DataGroup where
  "ex_group = \<lparr>dg_dataType = ''tracing'',
     dg_packet = \<lparr>GroupIdHash = 1, RawGroupId = ''a'', Token = ''t'', Source = [], DataType = ''tracing'', ConfigVersion = 0, HasError = False, GroupKey = [],
       PointCount = 1, TraceStartTimeUnixNano = 0, TraceEndTimeUnixNano = 0, PointsPayload = [], MaxPointTimeUnixNano = 0, PayloadCompression = 0,
       PredError = False, PredHttpError = False, PredBizError = False, PredTraceKeep = False, MaxSpanDurationUs = 0, RootDurationUs = 0, MaxNonrootDurationUs = 0\<rparr>,
     dg_FirstSeen = 0, dg_ExpiredTime = 0, dg_slotIndex = 0, dg_element = None, dg_spillKey = []\<rparr>"

definition ex_decide :: "((nat \<times> TailSamplingOutcome) list option \<times> TailSamplingProcessor) option" where
  "ex_decide = Processor_TailSamplingOutcomes ex_lib (\<lambda>re s. None) 0 [(1, Some ex_group)] ex_processor"

lemma ex_decide_one: "\<exists>outs p'. ex_decide = Some (Some outs, p') \<and> length outs = 1"
proof -
  have "case ex_decide of Some (Some outs, p') \<Rightarrow> length outs = 1 | _ \<Rightarrow> False" by code_simp
  then show ?thesis by (auto split: option.splits prod.splits)
qed

theorem processor_counts_each_decision_witness:
  "\<exists>outs s s'. length outs = 1 \<and> p_sampler ex_processor = Some s \<and>
     TailSamplingOutcomes (l_codec ex_lib) (\<lambda>re s. None) [(1, Some ex_group)] s = Some (outs, s')"
proof -
  obtain outs p' where e: "ex_decide = Some (Some outs, p')" "length outs = 1" using ex_decide_one by blast
  then show ?thesis
    using processor_counts_each_decision[OF e(1)[unfolded ex_decide_def],
        of "NewDerivedMetricCollector DefaultDerivedMetricFlushWindow"]
    by (auto simp: ex_processor_def NewDefaultTailSamplingProcessor_def)
qed

lemma tags_ok_buildKVs: "tags_ok (buildKVs l v field val extra)"
  unfolding buildKVs_def Let_def by (intro tags_ok_fold) (auto split: prod.split)

lemma bucket_points_return: "\<exists>ps. bucket_points l e = Some ps"
proof -
  have s: "\<exists>p. toPoint l ex v = Some p" for ex v unfolding toPoint_def by (rule new_point_returns[OF tags_ok_buildKVs])
  have "\<forall>x \<in> set (map (\<lambda>(c, le). new_point l (v_measurement h) (buildKVs l h f c [(''le'', le)]) t) zs @
      [new_point l (v_measurement h) (buildKVs l h g a []) t, new_point l (v_measurement h) (buildKVs l h k b []) t]). x \<noteq> None"
    for h :: derivedHistogramValue and f g k a b t zs using new_point_returns[OF tags_ok_buildKVs] by (fastforce split: prod.splits)
  then have h: "\<exists>ps. toPoints l ex h = Some ps" for ex h
    unfolding toPoints_def Let_def by (blast dest: those_returns)
  obtain ex b where e: "e = (ex, b)" by (cases e)
  have "\<forall>x \<in> set (map (\<lambda>(k, v). map_option (\<lambda>p. (v_token v, [p])) (toPoint l ex v)) (b_sums b) @
      map (\<lambda>(k, h). map_option (\<lambda>ps. (v_token h, ps)) (toPoints l ex h)) (b_hist b)). x \<noteq> None"
    using s h by (fastforce split: prod.splits)
  from those_returns[OF this] show ?thesis by (auto simp: bucket_points_def e)
qed

subsection \<open>The collector\<close>

lemma Add_histograms: "hist_slot (Collector_Add l clk rs c) ex key =
    (let hs = filter (\<lambda>r. dr_Kind r = ''histogram'' \<and> record_window clk (dc_window c) r = ex \<and> newDerivedMetricKey l r = key) rs
     in if hs = [] then hist_slot c ex key
        else Some (fold observe (map dr_Value hs) (case hist_slot c ex key of None \<Rightarrow> newDerivedHistogramValue (hd hs) | Some h \<Rightarrow> h)))"
  unfolding Collector_Add_def
proof (induction rs arbitrary: c)
  case (Cons r rs)
  have h: "hist_slot (add_record l clk r c) ex key =
      (if dr_Kind r = ''histogram'' \<and> record_window clk (dc_window c) r = ex \<and> newDerivedMetricKey l r = key
       then Some (observe (dr_Value r) (case hist_slot c ex key of None \<Rightarrow> newDerivedHistogramValue r | Some h \<Rightarrow> h)) else hist_slot c ex key)"
    unfolding hist_slot_add by (simp add: eq_commute)
  show ?case unfolding fold.simps comp_apply Cons.IH h Let_def by (simp add: add_record_frame split: option.split)
qed simp

text \<open>The points a flush owes to a token: those of its sums and histograms in the windows that have ended.\<close>

definition due_points :: "lib \<Rightarrow> int \<Rightarrow> DerivedMetricCollector \<Rightarrow> string \<Rightarrow> Point list" where
  "due_points l t c token =
     concat (map (\<lambda>(ex, b).
       concat (map (\<lambda>(key, v). if v_token v = token then (case toPoint l ex v of Some p \<Rightarrow> [p] | None \<Rightarrow> []) else []) (b_sums b)) @
       concat (map (\<lambda>(key, h). if v_token h = token then (case toPoints l ex h of Some ps \<Rightarrow> ps | None \<Rightarrow> []) else []) (b_hist b)))
     (filter (\<lambda>(ex, b). ex \<le> Unix t) (buckets c)))"

abbreviation token_points :: "string \<Rightarrow> (string \<times> Point list) list \<Rightarrow> Point list" where
  "token_points token xs \<equiv> concat (map (\<lambda>(tk, ps). if tk = token then ps else []) xs)"

lemma token_points_distinct:
  "distinct (map fst g) \<Longrightarrow> token_points token g = (case map_of g token of Some ps \<Rightarrow> ps | None \<Rightarrow> [])"
proof (induction g)
  case (Cons e g)
  have "map_of g (fst e) = None" using Cons.prems by (simp add: map_of_eq_None_iff)
  then show ?case using Cons by (cases e) (auto split: option.split)
qed simp

lemma group_points_of: "distinct (map fst (group_points xs)) \<and> token_points token (group_points xs) = token_points token xs"
proof -
  define step where "step = (\<lambda>(tk, ps) (g :: (string \<times> Point list) list). AList.update tk ((case map_of g tk of Some qs \<Rightarrow> qs | None \<Rightarrow> []) @ ps) g)"
  have "distinct (map fst g) \<Longrightarrow> distinct (map fst (fold step xs g)) \<and> token_points token (fold step xs g) = token_points token g @ token_points token xs" for g
  proof (induction xs arbitrary: g)
    case (Cons e xs)
    have d: "distinct (map fst (step e g))" using Cons.prems by (cases e) (simp add: step_def distinct_update)
    have "token_points token (step e g) = token_points token g @ token_points token [e]"
      unfolding token_points_distinct[OF d] token_points_distinct[OF Cons.prems] by (cases e) (simp add: step_def update_conv')
    with Cons.IH[OF d] show ?case by simp
  qed simp
  from this[of "[]"] show ?thesis by (simp add: group_points_def step_def)
qed

lemma those_Some: "those xs = Some ys \<Longrightarrow> xs = map Some ys"
  by (induction xs arbitrary: ys) (auto split: option.splits)

lemma token_points_map:
  assumes "map F xs = map Some ys"
  shows "token_points token ys = concat (map (\<lambda>x. case F x of None \<Rightarrow> [] | Some (tk, ps) \<Rightarrow> if tk = token then ps else []) xs)"
  using assms by (induction xs arbitrary: ys) (auto split: option.splits)

lemma bucket_points_token:
  assumes "bucket_points l (ex, b) = Some ys"
  shows "token_points token ys =
    concat (map (\<lambda>(key, v). if v_token v = token then (case toPoint l ex v of Some p \<Rightarrow> [p] | None \<Rightarrow> []) else []) (b_sums b)) @
    concat (map (\<lambda>(key, h). if v_token h = token then (case toPoints l ex h of Some ps \<Rightarrow> ps | None \<Rightarrow> []) else []) (b_hist b))"
proof -
  have "map (\<lambda>(k, v). map_option (\<lambda>p. (v_token v, [p])) (toPoint l ex v)) (b_sums b) @
      map (\<lambda>(k, h). map_option (\<lambda>ps. (v_token h, ps)) (toPoints l ex h)) (b_hist b) = map Some ys"
    using assms by (intro those_Some) (simp add: bucket_points_def)
  then obtain us vs where ys: "ys = us @ vs"
    and u: "map (\<lambda>(k, v). map_option (\<lambda>p. (v_token v, [p])) (toPoint l ex v)) (b_sums b) = map Some us"
    and v: "map (\<lambda>(k, h). map_option (\<lambda>ps. (v_token h, ps)) (toPoints l ex h)) (b_hist b) = map Some vs"
    by (auto simp: append_eq_map_conv)
  show ?thesis unfolding ys map_append concat_append token_points_map[OF u] token_points_map[OF v]
    by (intro arg_cong2[where f = append] arg_cong[where f = concat] map_cong refl) (auto split: option.split prod.split)
qed

lemma due_points_of:
  assumes "map (bucket_points l) bs = map Some pss"
  shows "token_points token (concat pss) = concat (map (\<lambda>(ex, b).
       concat (map (\<lambda>(key, v). if v_token v = token then (case toPoint l ex v of Some p \<Rightarrow> [p] | None \<Rightarrow> []) else []) (b_sums b)) @
       concat (map (\<lambda>(key, h). if v_token h = token then (case toPoints l ex h of Some ps \<Rightarrow> ps | None \<Rightarrow> []) else []) (b_hist b))) bs)"
  using assms
proof (induction bs arbitrary: pss)
  case (Cons e bs)
  obtain ex b where e: "e = (ex, b)" by (cases e)
  from Cons.prems obtain ys pss' where p: "bucket_points l (ex, b) = Some ys" "pss = ys # pss'" "map (bucket_points l) bs = map Some pss'"
    by (cases pss) (auto simp: e)
  show ?case using Cons.IH[OF p(3)] bucket_points_token[OF p(1), of token] by (simp add: e p(2))
qed simp

lemma Flush_returns:
  "\<exists>pds. Flush l t c = Some (pds, c\<lparr>buckets := filter (\<lambda>(ex, b). \<not> ex \<le> Unix t) (buckets c)\<rparr>) \<and> distinct (map dp_Token pds) \<and>
     (\<forall>token. concat (map dp_PTS (filter (\<lambda>pd. dp_Token pd = token) pds)) = due_points l t c token)"
proof -
  let ?due = "filter (\<lambda>(ex, b). ex \<le> Unix t) (buckets c)"
  obtain pss where p: "those (map (bucket_points l) ?due) = Some pss"
    using those_returns[of "map (bucket_points l) ?due"] bucket_points_return by fastforce
  let ?pds = "map (\<lambda>(tk, ps). \<lparr>dp_Token = tk, dp_PTS = ps\<rparr>) (group_points (concat pss))"
  have f: "Flush l t c = Some (?pds, c\<lparr>buckets := filter (\<lambda>(ex, b). \<not> ex \<le> Unix t) (buckets c)\<rparr>)" by (simp add: Flush_def p)
  have d: "map dp_Token ?pds = map fst (group_points (concat pss))" by (simp add: case_prod_beta comp_def)
  have out: "concat (map dp_PTS (filter (\<lambda>pd. dp_Token pd = token) (map (\<lambda>(tk, ps). \<lparr>dp_Token = tk, dp_PTS = ps\<rparr>) g))) = token_points token g" for token g
    by (induction g) auto
  have "token_points token (concat pss) = due_points l t c token" for token
    unfolding due_points_def using those_Some[OF p] by (rule due_points_of)
  then show ?thesis using f d out group_points_of[of "concat pss"] by (intro exI[of _ ?pds] conjI allI) (simp_all only: d out)
qed

text \<open>
  C34.  The collector loses no sum and no histogram.  After \<open>Add\<close> the sum of a window and key is the sum of the values of its records, in order, and its
  histogram has observed the values of its records, in order.  \<open>Flush\<close> never panics: it returns, once per token, the points of every sum and
  every histogram of the windows that have ended, in order and no others, takes those windows off, whole, and leaves the others as they are.
\<close>

theorem collector_sums_and_flushes:
  "sum_slot (Collector_Add l clk rs c) ex key =
    (let vs = map dr_Value (filter (\<lambda>r. is_sum r \<and> record_window clk (dc_window c) r = ex \<and> newDerivedMetricKey l r = key) rs)
     in if vs = [] then sum_slot c ex key else Some (foldl f64_add (case sum_slot c ex key of None \<Rightarrow> FFin 0 | Some x \<Rightarrow> x) vs)) \<and>
   hist_slot (Collector_Add l clk rs c) ex key =
    (let hs = filter (\<lambda>r. dr_Kind r = ''histogram'' \<and> record_window clk (dc_window c) r = ex \<and> newDerivedMetricKey l r = key) rs
     in if hs = [] then hist_slot c ex key
        else Some (fold observe (map dr_Value hs) (case hist_slot c ex key of None \<Rightarrow> newDerivedHistogramValue (hd hs) | Some h \<Rightarrow> h))) \<and>
   (\<exists>pds c'. Flush l t c = Some (pds, c') \<and> distinct (map dp_Token pds) \<and>
      (\<forall>token. concat (map dp_PTS (filter (\<lambda>pd. dp_Token pd = token) pds)) = due_points l t c token) \<and>
      sum_slot c' ex key = (if ex \<le> Unix t then None else sum_slot c ex key) \<and> hist_slot c' ex key = (if ex \<le> Unix t then None else hist_slot c ex key))"
proof -
  have m: "map_of (filter (\<lambda>(ex, b). \<not> ex \<le> u) xs) ex = (if ex \<le> u then None else map_of xs ex)" for xs :: "(int \<times> derivedMetricBucket) list" and u
    by (induction xs) auto
  obtain pds where "Flush l t c = Some (pds, c\<lparr>buckets := filter (\<lambda>(ex, b). \<not> ex \<le> Unix t) (buckets c)\<rparr>)" "distinct (map dp_Token pds)"
    "\<forall>token. concat (map dp_PTS (filter (\<lambda>pd. dp_Token pd = token) pds)) = due_points l t c token" using Flush_returns by blast
  then show ?thesis
    using Add_sums[of l clk rs c ex key] Add_histograms[of l clk rs c ex key]
    by (auto simp: sum_slot_def hist_slot_def bucket_for_def m split: option.split)
qed

subsection \<open>Hashing\<close>

text \<open>
  All the hash functions of pkg/hash compute FNV-1a: those for strings and byte slices what hash/fnv computes, the incremental ones the hash of what was added so
  far, and the one for lists the hash of the concatenation, which therefore does not see where a string ends.
\<close>

theorem fnv_functions_agree:
  "Fnv1aStrHash s = fnv64a s \<and> Fnv1aU8Hash s = fnv64a s \<and> Fnv1aHash v = fnv64a (concat v) \<and>
   Fnv1aHashAdd Fnv1aNew s = fnv64a s \<and> Fnv1aHashAddByte Fnv1aNew s = fnv64a s \<and>
   Fnv1aHashAdd (Fnv1aHashAdd h a) b = Fnv1aHashAdd h (a @ b) \<and> Fnv1aHashAddByte (Fnv1aHashAddByte h a) b = Fnv1aHashAddByte h (a @ b)"
  by (simp add: fnv64a_def Fnv1aStrHash_def Fnv1aU8Hash_def Fnv1aHash_def Fnv1aNew_def loops_fold strs_loop_concat offset64_def prime64_def)

end
