(* ===== verification/Dial_Task.thy ===== *)
theory Dial_Task
  imports Go_Arith Go_Base "HOL-Library.Sublist"
begin

section \<open>Dial testing: what counts as success (dialtesting/success.go)\<close>

text \<open>
  A probe is judged by conditions on strings and numbers.  Errors are their texts, which end up in the results.  What comes from libraries is
  collected in \<open>dlib\<close>: the parsers of durations and URLs, regular expressions, templates, JSON, and how durations and floats are printed.
  Values of maps without a fixed type are \<open>jval\<close>.  Lists of pointers are lists of values: an element that is null in the JSON of a task, on which
  the code panics, is left out.
\<close>

datatype jval = JNil | JBool bool | JInt int | JFloat f64 | JStr string | JArr "jval list" | JMap "(string \<times> jval) list"

text \<open>A function for templates: one of the built-in ones, or a variable.\<close>

datatype tfun = Builtin string | Variable_fun string

type_synonym FuncMap = "(string \<times> tfun) list"

record dlib =
  d_ParseDuration :: "string \<Rightarrow> string + int"
  d_Compile :: "string \<Rightarrow> string option"
  d_MatchString :: "string \<Rightarrow> string \<Rightarrow> bool"
  d_Parse :: "FuncMap \<Rightarrow> string \<Rightarrow> string option"
  d_Execute :: "FuncMap \<Rightarrow> string \<Rightarrow> string + string"
  d_undefined :: "string \<Rightarrow> string option"
  d_Marshal :: "jval \<Rightarrow> string + string"
  d_fmt_float :: "f64 \<Rightarrow> string"
  d_fmt_dur :: "int \<Rightarrow> string"
  d_fmt_any :: "jval \<Rightarrow> string"
  d_lower :: "string \<Rightarrow> string"
  d_Cron :: "string \<Rightarrow> string option"
  d_Hostname :: "string \<Rightarrow> string + string"
  d_windows :: bool
  MaxMsgSize :: nat

subsection \<open>Strings\<close>

definition strings_Contains :: "string \<Rightarrow> string \<Rightarrow> bool" where
  "strings_Contains s sub \<longleftrightarrow> sublist sub s"

fun strings_Join :: "string list \<Rightarrow> string \<Rightarrow> string" where
  "strings_Join [] sep = []"
| "strings_Join [x] sep = x"
| "strings_Join (x # xs) sep = x @ sep @ strings_Join xs sep"

subsection \<open>Conditions on strings\<close>

text \<open>A compiled expression is the expression.\<close>

record SuccessOption =
  so_Is :: string
  so_IsNot :: string
  so_MatchRegex :: string
  so_NotMatchRegex :: string
  so_matchRe :: "string option"
  so_notMatchRe :: "string option"
  so_Contains :: string
  so_NotContains :: string

definition SuccessOption_check :: "dlib \<Rightarrow> SuccessOption \<Rightarrow> string \<Rightarrow> string \<Rightarrow> string option" where
  "SuccessOption_check d s val prompt =
     (if so_Is s \<noteq> [] then
        (if so_Is s \<noteq> val then Some (prompt @ '': expect to be `'' @ so_Is s @ [CHR 0x27] @ '', got `'' @ val @ [CHR 0x27]) else None)
      else if so_IsNot s \<noteq> [] then
        (if so_IsNot s = val then Some (prompt @ '': shoud not be '' @ so_IsNot s) else None)
      else if so_matchRe s \<noteq> None \<and> \<not> d_MatchString d (the (so_matchRe s)) val
        then Some (prompt @ '': regex `'' @ so_MatchRegex s @ ''` match `'' @ val @ [CHR 0x27] @ '' failed'')
      else if so_notMatchRe s \<noteq> None \<and> d_MatchString d (the (so_notMatchRe s)) val
        then Some (prompt @ '': regex `'' @ so_NotMatchRegex s @ [CHR 0x27] @ '' should not match `'' @ val @ [CHR 0x27])
      else if so_Contains s \<noteq> [] \<and> \<not> strings_Contains val (so_Contains s)
        then Some (prompt @ '': do not contains `'' @ so_Contains s @ [CHR 0x27] @ '', got `'' @ val @ [CHR 0x27])
      else if so_NotContains s \<noteq> [] \<and> strings_Contains val (so_NotContains s)
        then Some (prompt @ '': should not contains `'' @ so_NotContains s @ [CHR 0x27] @ '', got `'' @ val @ [CHR 0x27])
      else None)"

definition genReg :: "dlib \<Rightarrow> SuccessOption \<Rightarrow> (string, SuccessOption) step" where
  "genReg d v =
     bindE (if so_MatchRegex v \<noteq> []
            then (case d_Compile d (so_MatchRegex v) of Some e \<Rightarrow> failE e v | None \<Rightarrow> okE (v\<lparr>so_matchRe := Some (so_MatchRegex v)\<rparr>))
            else okE v)
       (\<lambda>v. if so_NotMatchRegex v \<noteq> []
             then (case d_Compile d (so_NotMatchRegex v) of Some e \<Rightarrow> failE e v | None \<Rightarrow> okE (v\<lparr>so_notMatchRe := Some (so_NotMatchRegex v)\<rparr>))
             else okE v)"

subsection \<open>Conditions on numbers\<close>

record ValueSuccess =
  vs_Op :: string
  vs_Target :: f64

text \<open>\<open>a >= b\<close> of floats is \<open>b <= a\<close>; an operator that is not known holds.\<close>

definition ValueSuccess_check :: "dlib \<Rightarrow> ValueSuccess \<Rightarrow> f64 \<Rightarrow> string option" where
  "ValueSuccess_check d v val =
     (let t = vs_Target v; msg = (\<lambda>text. Some (d_fmt_float d val @ text @ d_fmt_float d t))
      in if vs_Op v = ''eq'' then if \<not> f64_eq val t then msg '' is not equal to target '' else None
         else if vs_Op v = ''lt'' then if f64_le t val then msg '' is greater equal than target '' else None
         else if vs_Op v = ''leq'' then if f64_lt t val then msg '' is greater than target '' else None
         else if vs_Op v = ''gt'' then if f64_le val t then msg '' is less than target '' else None
         else if vs_Op v = ''geq'' then if f64_lt val t then msg '' is less equal than target '' else None
         else None)"

text \<open>For numbers, the operators mean what they say.\<close>

lemma ValueSuccess_numbers:
  assumes "val = FFin x" "vs_Target v = FFin y"
  shows "ValueSuccess_check d v val = None \<longleftrightarrow>
    (if vs_Op v = ''eq'' then x = y else if vs_Op v = ''lt'' then x < y else if vs_Op v = ''leq'' then x \<le> y
     else if vs_Op v = ''gt'' then y < x else if vs_Op v = ''geq'' then y \<le> x else True)"
  using assms by (auto simp: ValueSuccess_check_def Let_def f64_le_def)

subsection \<open>Collecting reasons\<close>

text \<open>
  The loops over conditions: one that fails adds its reason, one that holds sets the flag, and a bound that is not set does neither.
\<close>

datatype cond = Holds | Fails string | Silent

definition of_check :: "string option \<Rightarrow> cond" where
  "of_check c = (case c of None \<Rightarrow> Holds | Some e \<Rightarrow> Fails e)"

definition note_cond :: "cond \<Rightarrow> string list \<times> bool \<Rightarrow> string list \<times> bool" where
  "note_cond c r = (case c of Holds \<Rightarrow> (fst r, True) | Fails e \<Rightarrow> (fst r @ [e], snd r) | Silent \<Rightarrow> r)"

definition judge :: "cond list \<Rightarrow> string list \<times> bool" where
  "judge cs = fold note_cond cs ([], False)"

lemma fold_note: "fold note_cond cs (rs, b) = (rs @ concat (map (\<lambda>c. case c of Fails e \<Rightarrow> [e] | _ \<Rightarrow> []) cs), b \<or> Holds \<in> set cs)"
  by (induction cs arbitrary: rs b) (auto simp: note_cond_def split: cond.split)

lemma judge_flag [simp]: "snd (judge cs) \<longleftrightarrow> Holds \<in> set cs"
  by (simp add: judge_def fold_note)

lemma judge_reasons [simp]: "fst (judge cs) = [] \<longleftrightarrow> (\<forall>e. Fails e \<notin> set cs)"
  by (auto simp: judge_def fold_note split: cond.splits)

subsection \<open>Loops that stop at the first error\<close>

fun each :: "('a \<Rightarrow> (string, 'a) step) \<Rightarrow> 'a list \<Rightarrow> (string, 'a list) step" where
  "each f [] = okE []"
| "each f (x # xs) =
     (case f x of
        (Some e, y) \<Rightarrow> failE e (y # xs)
      | (None, y) \<Rightarrow> (case each f xs of (r, ys) \<Rightarrow> (r, y # ys)))"

subsection \<open>The verdict\<close>

text \<open>
  What the kinds of task do alike at the end of \<open>getResults\<close>: tags, fields and the message, from the logic, the reasons (with the error of the
  request among them), the flag and the error.  \<open>okmsg\<close> is what a kind puts into the message of a success.
\<close>

type_synonym tag_map = "(string \<times> string) list"
type_synonym field_map = "(string \<times> jval) list"

definition set_all :: "('a \<times> 'b) list \<Rightarrow> ('a \<times> 'b) list \<Rightarrow> ('a \<times> 'b) list" where
  "set_all new old = fold (\<lambda>(k, v). AList.update k v) new old"

definition conclude :: "string \<Rightarrow> string list \<Rightarrow> bool \<Rightarrow> string \<Rightarrow> field_map \<Rightarrow> tag_map \<Rightarrow> field_map \<Rightarrow> field_map \<Rightarrow> tag_map \<times> field_map \<times> field_map" where
  "conclude logic reasons succFlag reqError okmsg tags flds message =
     (let fail = JStr (strings_Join reasons '';'')
      in if logic = ''or'' then
           (if succFlag \<and> reqError = []
            then (AList.update ''status'' ''OK'' tags, AList.update ''success'' (JInt 1) flds, set_all okmsg message)
            else (tags, AList.update ''fail_reason'' fail flds, AList.update ''fail_reason'' fail message))
         else
           let r1 = (if reasons \<noteq> [] then (AList.update ''fail_reason'' fail flds, AList.update ''fail_reason'' fail message)
                     else (flds, set_all okmsg message))
           in if reqError = [] \<and> reasons = []
              then (AList.update ''status'' ''OK'' tags, AList.update ''success'' (JInt 1) (fst r1), snd r1)
              else (tags, r1))"

text \<open>The message is cut to the configured size; where it cannot be marshalled, the text of the error is overwritten by nothing.\<close>

definition put_message :: "dlib \<Rightarrow> field_map \<Rightarrow> field_map \<Rightarrow> field_map" where
  "put_message d message flds =
     (case d_Marshal d (JMap message) of
        Inl e \<Rightarrow> AList.update ''message'' (JStr []) (AList.update ''message'' (JStr e) flds)
      | Inr data \<Rightarrow> AList.update ''message'' (JStr (take (MaxMsgSize d) data)) flds)"

text \<open>\<open>net.JoinHostPort\<close>.\<close>

definition JoinHostPort :: "string \<Rightarrow> string \<Rightarrow> string" where
  "JoinHostPort host port = (if CHR '':'' \<in> set host then ''['' @ host @ '']:'' @ port else host @ '':'' @ port)"

definition IsEnabledTraceroute :: "dlib \<Rightarrow> bool \<Rightarrow> bool" where
  "IsEnabledTraceroute d enabled = (if d_windows d then False else enabled)"

text \<open>The fields of a traceroute; \<open>None\<close> is \<open>nil\<close>.\<close>

definition traceroute_fields :: "dlib \<Rightarrow> jval list option \<Rightarrow> field_map \<Rightarrow> field_map" where
  "traceroute_fields d tr flds =
     (let f1 = AList.update ''hops'' (JInt 0) flds
      in case tr of
           None \<Rightarrow> AList.update ''traceroute'' (JStr ''[]'') f1
         | Some routes \<Rightarrow>
             (case d_Marshal d (JArr routes) of
                Inr data \<Rightarrow> if data \<noteq> [] then AList.update ''hops'' (JInt (int (length routes))) (AList.update ''traceroute'' (JStr data) f1)
                            else AList.update ''traceroute'' (JStr ''[]'') f1
              | Inl e \<Rightarrow> AList.update ''traceroute'' (JStr ''[]'') f1))"

definition hop_conds :: "dlib \<Rightarrow> jval list option \<Rightarrow> ValueSuccess list \<Rightarrow> cond list" where
  "hop_conds d tr hops =
     (let n = length (case tr of None \<Rightarrow> [] | Some r \<Rightarrow> r)
      in if n = 0 then [Fails ''traceroute failed with no hops'']
         else map (\<lambda>v. of_check (map_option (\<lambda>e. ''traceroute hops check failed: '' @ e) (ValueSuccess_check d v (f64_of_int (int n))))) hops)"

lemma map_of_set_all: "map_of (set_all new old) k = (case map_of (rev new) k of Some v \<Rightarrow> Some v | None \<Rightarrow> map_of old k)"
  unfolding set_all_def
  by (induction new arbitrary: old) (auto simp: map_add_def update_conv' split: option.split)

lemma map_of_traceroute_fields [simp]: "k \<noteq> ''hops'' \<Longrightarrow> k \<noteq> ''traceroute'' \<Longrightarrow> map_of (traceroute_fields d tr flds) k = map_of flds k"
  by (auto simp: traceroute_fields_def Let_def update_conv' split: option.split sum.split)

lemma conclude_status:
  assumes "conclude logic reasons succFlag reqError okmsg tags flds message = (tags', flds', message')"
    and "map_of tags ''status'' = Some ''FAIL''" "reqError \<noteq> [] \<longrightarrow> reasons \<noteq> []"
  shows "map_of tags' ''status'' = Some (if reqError = [] \<and> (if logic = ''or'' then succFlag else reasons = []) then ''OK'' else ''FAIL'')"
  using assms by (auto simp: conclude_def Let_def update_conv' split: if_splits)

section \<open>Dial testing: tasks (dialtesting/task.go)\<close>

text \<open>
  The struct that every kind of task embeds is a record the kinds extend.  \<open>t.child\<close>, the task as one of its kind, is the task itself; what \<open>Task\<close>
  calls on it is a record of operations.  The outer \<open>None\<close> of a result is a panic.  The callback \<open>beforeRun\<close> is an argument of \<open>Run\<close>.
\<close>

abbreviation StatusStop :: string where "StatusStop \<equiv> ''stop''"
abbreviation ClassMulti :: string where "ClassMulti \<equiv> ''MULTI''"
abbreviation ScheduleTypeCron :: string where "ScheduleTypeCron \<equiv> ''crontab''"
abbreviation ScheduleTypeFrequency :: string where "ScheduleTypeFrequency \<equiv> ''frequency''"
abbreviation TypeVariableGlobal :: string where "TypeVariableGlobal \<equiv> ''global''"

record ConfigVar =
  cv_ID :: string
  cv_Type :: string
  cv_Name :: string
  cv_Value :: string
  cv_Example :: string
  cv_Secure :: bool

record Variable =
  var_Value :: string
  var_Secure :: bool
  var_TaskVarName :: string
  var_PostScript :: string

subsection \<open>Names of variables and template tags\<close>

definition char_between :: "char \<Rightarrow> char \<Rightarrow> char \<Rightarrow> bool" where
  "char_between lo hi c \<longleftrightarrow> lo \<le> c \<and> c \<le> hi"

definition name_start :: "char \<Rightarrow> bool" where
  "name_start c \<longleftrightarrow> c = CHR ''_'' \<or> char_between (CHR ''A'') (CHR ''Z'') c \<or> char_between (CHR ''a'') (CHR ''z'') c"

definition name_rest :: "char \<Rightarrow> bool" where
  "name_rest c \<longleftrightarrow> name_start c \<or> char_between (CHR ''0'') (CHR ''9'') c"

text \<open>The expression has no anchor at its start: it looks for a name at the end.\<close>

fun isValidVariableName :: "string \<Rightarrow> bool" where
  "isValidVariableName [] \<longleftrightarrow> False"
| "isValidVariableName (c # s) \<longleftrightarrow> name_start c \<and> list_all name_rest s \<or> isValidVariableName s"

lemma isValidVariableName_iff:
  "isValidVariableName s \<longleftrightarrow> (\<exists>p c r. s = p @ c # r \<and> name_start c \<and> list_all name_rest r)"
proof (induction s)
  case (Cons a s)
  show ?case (is "_ \<longleftrightarrow> ?r")
  proof
    assume "isValidVariableName (a # s)"
    then show ?r using Cons by (auto intro: exI[of _ "[]"]) (metis append_Cons)
  next
    assume ?r
    then obtain p c r where r: "a # s = p @ c # r" "name_start c" "list_all name_rest r" by blast
    then show "isValidVariableName (a # s)" using Cons by (cases p) auto
  qed
qed simp

text \<open>\<open>{{.*}}\<close> within a line.\<close>

fun hasTemplateTags :: "string \<Rightarrow> bool" where
  "hasTemplateTags [] \<longleftrightarrow> False"
| "hasTemplateTags (c # s) \<longleftrightarrow>
     take 2 (c # s) = ''{{'' \<and> strings_Contains (takeWhile (\<lambda>x. x \<noteq> CHR 0x0A) (drop 1 s)) ''}}'' \<or> hasTemplateTags s"

text \<open>\<open>strings.EqualFold(s, "stop")\<close>; the long s (U+017F) folds to s.\<close>

definition is_stop :: "string \<Rightarrow> bool" where
  "is_stop s \<longleftrightarrow> map ascii_lower (if take 2 s = [CHR 0xC5, CHR 0xBF] then CHR ''s'' # drop 2 s else s) = StatusStop"

subsection \<open>The task\<close>

record Task =
  ExternalID :: string
  t_Name :: string
  AK :: string
  PostURL :: string
  CurStatus :: string
  Frequency :: string
  Region :: string
  OwnerExternalID :: string
  WorkspaceLanguage :: string
  TagsInfo :: string
  DFLabel :: string
  ScheduleType :: string
  Crontab :: string
  t_Tags :: tag_map
  Labels :: "string list"
  UpdateTime :: int
  ConfigVars :: "ConfigVar list"
  ExtractedVars :: "ConfigVar list"
  CustomVars :: "ConfigVar list"
  taskJSONString :: string
  t_rawTask :: string
  Disabled :: int
  isTemplate :: bool
  globalVars :: "(string \<times> Variable) list"
  t_option :: "tag_map option"
  t_fm :: "FuncMap option"

record 'c child_ops =
  o_class :: string
  o_metricName :: string
  o_clear :: "'c \<Rightarrow> 'c"
  o_check :: "'c \<Rightarrow> string option"
  o_init :: "'c \<Rightarrow> (string, 'c) step"
  o_run :: "'c \<Rightarrow> (string, 'c) step option"
  o_renderTemplate :: "FuncMap \<Rightarrow> 'c \<Rightarrow> (string, 'c) step option"
  o_setReqError :: "string \<Rightarrow> 'c \<Rightarrow> 'c"
  o_checkResult :: "'c \<Rightarrow> string list \<times> bool"
  o_getResults :: "'c \<Rightarrow> tag_map \<times> field_map"
  o_getRawTask :: "string \<Rightarrow> string + string"
  o_getHostName :: "'c \<Rightarrow> string + string list"
  o_stop :: "'c \<Rightarrow> 'c"

text \<open>Setters that do more than set a field; an empty map is made where there is none.\<close>

definition SetOption :: "tag_map option \<Rightarrow> 'a Task_scheme \<Rightarrow> 'a Task_scheme" where
  "SetOption opt t = (if opt \<noteq> None then t\<lparr>t_option := opt\<rparr> else t)"

definition GetOption :: "'a Task_scheme \<Rightarrow> tag_map \<times> 'a Task_scheme" where
  "GetOption t = (case t_option t of Some m \<Rightarrow> (m, t) | None \<Rightarrow> ([], t\<lparr>t_option := Some []\<rparr>))"

definition Task_Clear :: "('a Task_scheme) child_ops \<Rightarrow> 'a Task_scheme \<Rightarrow> 'a Task_scheme" where
  "Task_Clear ops t = (o_clear ops t)\<lparr>ExtractedVars := []\<rparr>"

text \<open>\<open>xid\<close> is a fresh identifier.\<close>

definition Task_ID :: "string \<Rightarrow> 'a Task_scheme \<Rightarrow> string" where
  "Task_ID xid t = (if ExternalID t = [] then ''dtst_'' @ xid else AK t @ ''_'' @ ExternalID t)"

definition GetDFLabel :: "'a Task_scheme \<Rightarrow> string" where
  "GetDFLabel t = (if DFLabel t \<noteq> [] then DFLabel t else TagsInfo t)"

definition GetScheduleType :: "'a Task_scheme \<Rightarrow> string" where
  "GetScheduleType t = (if ScheduleType t = [] then ''frequency'' else ScheduleType t)"

definition GetGlobalVars :: "'a Task_scheme \<Rightarrow> string list" where
  "GetGlobalVars t = map cv_ID (filter (\<lambda>v. cv_Type v = TypeVariableGlobal) (ConfigVars t))"

definition AddExtractedVar :: "ConfigVar option \<Rightarrow> 'a Task_scheme \<Rightarrow> 'a Task_scheme" where
  "AddExtractedVar v t = (case v of None \<Rightarrow> t | Some v \<Rightarrow> t\<lparr>ExtractedVars := ExtractedVars t @ [v]\<rparr>)"

definition NormalizeWorkspaceLanguage :: "dlib \<Rightarrow> string \<Rightarrow> string" where
  "NormalizeWorkspaceLanguage d language =
     (let s = strings_ToLower (d_lower d) (map (\<lambda>c. if c = CHR ''_'' then CHR ''-'' else c) (TrimSpace language))
      in if s = ''en'' then ''en''
         else if s = ''id'' then ''id''
         else if s = ''zh-hant'' \<or> s = ''zh-tw'' \<or> s = ''zh-hk'' then ''zh-hant''
         else ''zh'')"

subsection \<open>Results\<close>

text \<open>The values of secure variables are left out.\<close>

definition public_var :: "ConfigVar \<Rightarrow> ConfigVar" where
  "public_var v = \<lparr>cv_ID = [], cv_Type = [], cv_Name = cv_Name v, cv_Value = (if cv_Secure v then [] else cv_Value v), cv_Example = [], cv_Secure = cv_Secure v\<rparr>"

text \<open>The JSON object of a variable; empty members other than name and the flag are omitted.\<close>

definition var_json :: "ConfigVar \<Rightarrow> jval" where
  "var_json v =
     JMap ((if cv_ID v = [] then [] else [(''id'', JStr (cv_ID v))]) @ (if cv_Type v = [] then [] else [(''type'', JStr (cv_Type v))]) @
           [(''name'', JStr (cv_Name v))] @ (if cv_Value v = [] then [] else [(''value'', JStr (cv_Value v))]) @
           (if cv_Example v = [] then [] else [(''example'', JStr (cv_Example v))]) @ [(''secure'', JBool (cv_Secure v))])"

definition json_text :: "dlib \<Rightarrow> jval \<Rightarrow> string" where
  "json_text d j = (case d_Marshal d j of Inl e \<Rightarrow> [] | Inr s \<Rightarrow> s)"

definition Task_getRawTask :: "('a Task_scheme) child_ops \<Rightarrow> 'a Task_scheme \<Rightarrow> string \<times> 'a Task_scheme" where
  "Task_getRawTask ops t =
     (if t_rawTask t = []
      then (case o_getRawTask ops (taskJSONString t) of Inl e \<Rightarrow> ([], t) | Inr v \<Rightarrow> (v, t\<lparr>t_rawTask := v\<rparr>))
      else (t_rawTask t, t))"

definition GetResults :: "dlib \<Rightarrow> ('a Task_scheme) child_ops \<Rightarrow> 'a Task_scheme \<Rightarrow> (tag_map \<times> field_map) \<times> 'a Task_scheme" where
  "GetResults d ops t =
     (case o_getResults ops t of (tags, flds) \<Rightarrow>
        let flds1 = AList.update ''config_vars'' (JStr (json_text d (JArr (map (var_json \<circ> public_var) (ConfigVars t))))) flds
        in case Task_getRawTask ops t of (raw, t1) \<Rightarrow> ((tags, AList.update ''task'' (JStr raw) flds1), t1))"

subsection \<open>Checking and running\<close>

text \<open>Going on after a step that may panic.\<close>

definition bindP :: "('e, 's) step option \<Rightarrow> ('s \<Rightarrow> ('e, 's) step option) \<Rightarrow> ('e, 's) step option" where
  "bindP r k = (case r of None \<Rightarrow> None | Some (Some e, s) \<Rightarrow> Some (Some e, s) | Some (None, s) \<Rightarrow> k s)"

definition bad_name :: "ConfigVar list \<Rightarrow> string option" where
  "bad_name vs = (case find (\<lambda>v. \<not> isValidVariableName (cv_Name v)) vs of
     None \<Rightarrow> None | Some v \<Rightarrow> Some (''invalid variable name '' @ cv_Name v))"

definition Task_init :: "('a Task_scheme) child_ops \<Rightarrow> 'a Task_scheme \<Rightarrow> (string, 'a Task_scheme) step" where
  "Task_init ops t =
     (if is_stop (CurStatus t) then okE t
      else o_init ops (if t_option t = None then t\<lparr>t_option := Some []\<rparr> else t))"

definition CheckTask :: "('a Task_scheme) child_ops \<Rightarrow> 'a Task_scheme \<Rightarrow> (string, 'a Task_scheme) step" where
  "CheckTask ops t =
     (case bad_name (ConfigVars t) of
        Some e \<Rightarrow> failE e t
      | None \<Rightarrow>
          (case bad_name (ExtractedVars t) of
             Some e \<Rightarrow> failE e t
           | None \<Rightarrow> (case o_check ops t of Some e \<Rightarrow> failE e t | None \<Rightarrow> Task_init ops t)))"

definition Task_Check :: "dlib \<Rightarrow> ('a Task_scheme) child_ops \<Rightarrow> 'a Task_scheme \<Rightarrow> (string, 'a Task_scheme) step" where
  "Task_Check d ops t =
     (if ExternalID t = [] then failE ''external ID missing'' t
      else let t1 = (if ScheduleType t = [] then t\<lparr>ScheduleType := ScheduleTypeFrequency\<rparr> else t)
           in if ScheduleType t1 = ScheduleTypeCron
              then (if Crontab t1 = [] then failE ''crontab missing'' t1
                    else case d_Cron d (Crontab t1) of Some e \<Rightarrow> failE (''invalid crontab: '' @ e) t1 | None \<Rightarrow> CheckTask ops t1)
              else (case d_ParseDuration d (Frequency t1) of
                      Inl e \<Rightarrow> failE (''invalid frequency: '' @ e) t1 | Inr du \<Rightarrow> CheckTask ops t1))"

definition Task_Run :: "('a Task_scheme) child_ops \<Rightarrow> (Task \<Rightarrow> string option) option \<Rightarrow> 'a Task_scheme \<Rightarrow> (string, 'a Task_scheme) step option" where
  "Task_Run ops beforeRun t =
     bindP (let t1 = Task_Clear ops t in
            case t_fm t1 of
              None \<Rightarrow> Some (okE t1)
            | Some fm \<Rightarrow> map_option (wrapE (\<lambda>e. ''render template failed: '' @ e)) (o_renderTemplate ops fm t1))
       (\<lambda>t2. case (if o_class ops \<noteq> ClassMulti then beforeRun else None) of
                Some f \<Rightarrow> (case f (Task.truncate t2) of Some e \<Rightarrow> Some (okE (o_setReqError ops e t2)) | None \<Rightarrow> o_run ops t2)
              | None \<Rightarrow> o_run ops t2)"

subsection \<open>Templates\<close>

definition default_funcs :: FuncMap where
  "default_funcs = [(''timestamp'', Builtin ''timestamp''), (''date'', Builtin ''date''), (''urlencode'', Builtin ''urlencode'')]"

text \<open>A global variable takes over the value and the secrecy of its definition.\<close>

definition resolve_var :: "(string \<times> Variable) list \<Rightarrow> ConfigVar \<Rightarrow> ConfigVar" where
  "resolve_var globals v =
     (if cv_Type v = TypeVariableGlobal \<and> cv_ID v \<noteq> []
      then (case map_of globals (cv_ID v) of None \<Rightarrow> v | Some gv \<Rightarrow> v\<lparr>cv_Value := var_Value gv, cv_Secure := var_Secure gv\<rparr>)
      else v)"

definition var_funcs :: "ConfigVar list \<Rightarrow> FuncMap" where
  "var_funcs vs = fold (\<lambda>v. AList.update (cv_Name v) (Variable_fun (cv_Value v))) vs default_funcs"

definition RenderTemplateAndInit :: "('a Task_scheme) child_ops \<Rightarrow> (string \<times> Variable) list \<Rightarrow> 'a Task_scheme \<Rightarrow> (string, 'a Task_scheme) step option" where
  "RenderTemplateAndInit ops globals t =
     (let t1 = t\<lparr>globalVars := globals, ConfigVars := map (resolve_var globals) (ConfigVars t),
                  ExtractedVars := map (resolve_var globals) (ExtractedVars t), CustomVars := map (resolve_var globals) (CustomVars t)\<rparr>;
          fm = var_funcs (ConfigVars t1 @ ExtractedVars t1 @ CustomVars t1);
          t2 = t1\<lparr>t_fm := Some fm\<rparr>
      in if o_class ops = ClassMulti then Some (okE t2)
         else bindP (map_option (wrapE (\<lambda>e. ''render template error: '' @ e)) (o_renderTemplate ops fm t2)) (\<lambda>t3. Some (Task_init ops t3)))"

definition getTemplateError :: "dlib \<Rightarrow> string \<Rightarrow> string" where
  "getTemplateError d msg = (case d_undefined d msg of Some v \<Rightarrow> ''variable '' @ [CHR 0x27] @ v @ [CHR 0x27] @ '' not defined'' | None \<Rightarrow> msg)"

definition GetParsedString :: "dlib \<Rightarrow> FuncMap \<Rightarrow> string \<Rightarrow> string + string" where
  "GetParsedString d fm text =
     (if text = [] then Inr []
      else case d_Parse d fm text of
             Some e \<Rightarrow> Inl (''parse template error: '' @ getTemplateError d e)
           | None \<Rightarrow> (case d_Execute d fm text of Inl e \<Rightarrow> Inl (''execute template error: '' @ e) | Inr s \<Rightarrow> Inr s))"

text \<open>One string of a task: rendered from the raw task into the task.\<close>

definition render_into :: "dlib \<Rightarrow> FuncMap \<Rightarrow> string \<Rightarrow> string \<Rightarrow> (string \<Rightarrow> 's \<Rightarrow> 's) \<Rightarrow> 's \<Rightarrow> (string, 's) step" where
  "render_into d fm what text put s = (case GetParsedString d fm text of Inl e \<Rightarrow> failE (what @ '' failed: '' @ e) s | Inr x \<Rightarrow> okE (put x s))"

definition renderSuccessOption :: "dlib \<Rightarrow> FuncMap \<Rightarrow> SuccessOption \<Rightarrow> SuccessOption \<Rightarrow> (string, SuccessOption) step" where
  "renderSuccessOption d fm v dest =
     bindE (render_into d fm ''render body is'' (so_Is v) (\<lambda>x. so_Is_update (\<lambda>_. x)) dest) (\<lambda>dest.
     bindE (render_into d fm ''render body is not'' (so_IsNot v) (\<lambda>x. so_IsNot_update (\<lambda>_. x)) dest) (\<lambda>dest.
     bindE (render_into d fm ''render body contains'' (so_Contains v) (\<lambda>x. so_Contains_update (\<lambda>_. x)) dest) (\<lambda>dest.
     bindE (render_into d fm ''render body not contains'' (so_NotContains v) (\<lambda>x. so_NotContains_update (\<lambda>_. x)) dest) (\<lambda>dest.
     bindE (render_into d fm ''render body match regex'' (so_MatchRegex v) (\<lambda>x. so_MatchRegex_update (\<lambda>_. x)) dest) (\<lambda>dest.
            render_into d fm ''render body not match regex'' (so_NotMatchRegex v) (\<lambda>x. so_NotMatchRegex_update (\<lambda>_. x)) dest)))))"

text \<open>\<open>NewRawTask\<close>: the task as its JSON says.\<close>

definition raw_task :: "(string \<Rightarrow> string + 'r) \<Rightarrow> string \<Rightarrow> 'r option \<Rightarrow> string + 'r" where
  "raw_task unmarshal json raw =
     (case raw of
        Some r \<Rightarrow> Inr r
      | None \<Rightarrow>
          if json = [] then Inl ''new raw task failed: task json string is empty''
          else case unmarshal json of
                 Inl e \<Rightarrow> Inl (''new raw task failed: json.Unmarshal failed: '' @ e @ '', task json: '' @ json)
               | Inr r \<Rightarrow> Inr r)"

text \<open>The options of the raw task rendered into those of the task, index by index; \<open>None\<close> is an index out of range.\<close>

fun render_options :: "dlib \<Rightarrow> FuncMap \<Rightarrow> string \<Rightarrow> SuccessOption list \<Rightarrow> SuccessOption list \<Rightarrow> (string, SuccessOption list) step option" where
  "render_options d fm what [] dests = Some (okE dests)"
| "render_options d fm what (v # vs) [] = None"
| "render_options d fm what (v # vs) (dest # dests) =
     (case renderSuccessOption d fm v dest of
        (Some e, x) \<Rightarrow> Some (failE (what @ '' failed: '' @ e) (x # dests))
      | (None, x) \<Rightarrow> map_option (\<lambda>(r, ys). (r, x # ys)) (render_options d fm what vs dests))"

subsection \<open>URLs and responses\<close>

text \<open>Of a parsed URL its scheme and its host with the port; \<open>Hostname\<close> and \<open>Port\<close> split the latter at the last colon if only digits follow.\<close>

record parsed_url =
  u_Scheme :: string
  u_Host :: string

definition url_splitHostPort :: "string \<Rightarrow> string \<times> string" where
  "url_splitHostPort h =
     (let port = rev (takeWhile (\<lambda>c. c \<noteq> CHR '':'') (rev h));
          cut = CHR '':'' \<in> set h \<and> list_all is_digit port;
          host = (if cut then take (length h - length port - 1) h else h)
      in (if take 1 host = ''['' \<and> host \<noteq> [] \<and> last host = CHR '']'' then butlast (tl host) else host, if cut then port else []))"

text \<open>Of an HTTP response: the value of a header, the headers as JSON, protocol and status.\<close>

record http_response =
  r_Get :: "string \<Rightarrow> string"
  r_Header :: jval
  r_Proto :: string
  r_StatusCode :: int
  r_Status :: string

text \<open>The conditions on headers, a map from names to lists of options.\<close>

definition header_conds :: "dlib \<Rightarrow> string \<Rightarrow> http_response \<Rightarrow> (string \<times> SuccessOption list) list \<Rightarrow> cond list" where
  "header_conds d what resp hs =
     concat (map (\<lambda>(k, vs). map (\<lambda>v. of_check (SuccessOption_check d v (r_Get resp k) (what @ '' header `'' @ k @ [CHR 0x27]))) vs) hs)"

definition gen_headers :: "dlib \<Rightarrow> (string \<times> SuccessOption list) list \<Rightarrow> (string, (string \<times> SuccessOption list) list) step" where
  "gen_headers d hs = each (\<lambda>(k, vs). case each (genReg d) vs of (r, ws) \<Rightarrow> (r, (k, ws))) hs"

text \<open>Headers rendered from the raw task; a header the task does not have is an index out of range.\<close>

fun render_headers :: "dlib \<Rightarrow> FuncMap \<Rightarrow> (string \<times> SuccessOption list) list \<Rightarrow> (string \<times> SuccessOption list) list \<Rightarrow>
    (string, (string \<times> SuccessOption list) list) step option" where
  "render_headers d fm [] dests = Some (okE dests)"
| "render_headers d fm ((k, vs) # hs) dests =
     bindP (map_option (\<lambda>(r, ws). (r, if map_of dests k = None then dests else AList.update k ws dests))
              (render_options d fm ''render header'' vs (case map_of dests k of Some ws \<Rightarrow> ws | None \<Rightarrow> [])))
       (render_headers d fm hs)"

end
