(* ===== verification/Dial_Net.thy ===== *)
theory Dial_Net
  imports Dial_Task
begin

section \<open>Dial testing: TCP (dialtesting/tcp.go)\<close>

text \<open>
  The raw task, which templates are rendered from, is what the JSON says of the fields that are rendered.  What the network does in a run is a record:
  resolving, dialling and reading, with the times they took.
\<close>

record TCPResponseTime =
  rt_IsContainDNS :: bool
  rt_Target :: string
  rt_targetTime :: int

record TCPSuccess =
  ts_ResponseTime :: "TCPResponseTime list"
  ts_Hops :: "ValueSuccess list option"
  ts_ResponseMessage :: "SuccessOption list"

record TCPRaw =
  raw_tcp_Host :: string
  raw_tcp_Port :: string
  raw_tcp_Message :: string

record TCPTask = Task +
  tcp_Host :: string
  tcp_Port :: string
  tcp_Message :: string
  tcp_Timeout :: string
  tcp_EnableTraceroute :: bool
  tcp_SuccessWhen :: "TCPSuccess list"
  tcp_SuccessWhenLogic :: string
  tcp_reqCost :: int
  tcp_reqDNSCost :: int
  tcp_reqError :: string
  tcp_destIP :: string
  tcp_responseMessage :: string
  tcp_timeout :: int
  tcp_traceroute :: "jval list option"
  tcp_rawTask :: "TCPRaw option"

subsection \<open>Setting up\<close>

definition parse_target :: "dlib \<Rightarrow> TCPResponseTime \<Rightarrow> (string, TCPResponseTime) step" where
  "parse_target d v = (case d_ParseDuration d (rt_Target v) of Inl e \<Rightarrow> failE e v | Inr du \<Rightarrow> okE (v\<lparr>rt_targetTime := du\<rparr>))"

text \<open>One round of the loop over the rules, on the flag for traceroute and the rule.\<close>

definition tcp_init_checker :: "dlib \<Rightarrow> bool \<times> TCPSuccess \<Rightarrow> (string, bool \<times> TCPSuccess) step" where
  "tcp_init_checker d s =
     (case s of (en, chk) \<Rightarrow>
        case each (parse_target d) (ts_ResponseTime chk) of
          (Some e, rts) \<Rightarrow> failE e (en, chk\<lparr>ts_ResponseTime := rts\<rparr>)
        | (None, rts) \<Rightarrow>
            (case each (genReg d) (ts_ResponseMessage chk) of
               (r, ms) \<Rightarrow> (r, IsEnabledTraceroute d (en \<or> ts_Hops chk \<noteq> None), chk\<lparr>ts_ResponseTime := rts, ts_ResponseMessage := ms\<rparr>)))"

fun tcp_init_checkers :: "dlib \<Rightarrow> bool \<Rightarrow> TCPSuccess list \<Rightarrow> (string, bool \<times> TCPSuccess list) step" where
  "tcp_init_checkers d en [] = okE (en, [])"
| "tcp_init_checkers d en (chk # cs) =
     (case tcp_init_checker d (en, chk) of
        (Some e, en1, c1) \<Rightarrow> failE e (en1, c1 # cs)
      | (None, en1, c1) \<Rightarrow> (case tcp_init_checkers d en1 cs of (r, en2, cs2) \<Rightarrow> (r, en2, c1 # cs2)))"

definition TCP_init :: "dlib \<Rightarrow> TCPTask \<Rightarrow> (string, TCPTask) step" where
  "TCP_init d t =
     bindE (if tcp_Timeout t = [] then okE (t\<lparr>tcp_timeout := 10000000000\<rparr>)
            else case d_ParseDuration d (tcp_Timeout t) of Inl e \<Rightarrow> failE e t | Inr du \<Rightarrow> okE (t\<lparr>tcp_timeout := du\<rparr>))
       (\<lambda>t. if tcp_SuccessWhen t = [] then failE ''no any check rule'' t
             else case tcp_init_checkers d (tcp_EnableTraceroute t) (tcp_SuccessWhen t) of
                    (r, en, cs) \<Rightarrow> (r, t\<lparr>tcp_EnableTraceroute := en, tcp_SuccessWhen := cs\<rparr>))"

definition TCP_check :: "TCPTask \<Rightarrow> string option" where
  "TCP_check t =
     (if tcp_Host t = [] then Some ''host should not be empty''
      else if tcp_Port t = [] then Some ''port should not be empty'' else None)"

subsection \<open>Judging\<close>

definition tcp_time_cond :: "dlib \<Rightarrow> TCPTask \<Rightarrow> TCPResponseTime \<Rightarrow> cond" where
  "tcp_time_cond d t v =
     (let reqCost = (if rt_IsContainDNS v then to_i64 (tcp_reqCost t + tcp_reqDNSCost t) else tcp_reqCost t)
      in if reqCost \<ge> rt_targetTime v
         then Fails (''TCP response time('' @ d_fmt_dur d reqCost @ '') larger equal than '' @ d_fmt_dur d (rt_targetTime v))
         else if rt_targetTime v > 0 then Holds else Silent)"

definition tcp_conds :: "dlib \<Rightarrow> TCPTask \<Rightarrow> TCPSuccess \<Rightarrow> cond list" where
  "tcp_conds d t chk =
     map (tcp_time_cond d t) (ts_ResponseTime chk) @
     map (\<lambda>v. of_check (SuccessOption_check d v (tcp_responseMessage t) ''response message'')) (ts_ResponseMessage chk) @
     (if tcp_EnableTraceroute t then hop_conds d (tcp_traceroute t) (case ts_Hops chk of None \<Rightarrow> [] | Some h \<Rightarrow> h) else [])"

definition TCP_checkResult :: "dlib \<Rightarrow> TCPTask \<Rightarrow> string list \<times> bool" where
  "TCP_checkResult d t = judge (concat (map (tcp_conds d t) (tcp_SuccessWhen t)))"

definition TCP_getResults :: "dlib \<Rightarrow> TCPTask \<Rightarrow> tag_map \<times> field_map" where
  "TCP_getResults d t =
     (let tags = [(''name'', t_Name t), (''dest_host'', tcp_Host t), (''dest_port'', tcp_Port t), (''dest_ip'', tcp_destIP t),
                  (''status'', ''FAIL''), (''proto'', ''tcp'')];
          responseTime = go_quot (tcp_reqCost t) 1000;
          responseTimeWithDNS = go_quot (to_i64 (tcp_reqCost t + tcp_reqDNSCost t)) 1000;
          f1 = [(''response_time'', JInt responseTime), (''response_time_with_dns'', JInt responseTimeWithDNS), (''success'', JInt (-1))];
          f2 = (if tcp_responseMessage t \<noteq> [] then AList.update ''response_message'' (JStr (tcp_responseMessage t)) f1 else f1);
          f3 = (if tcp_EnableTraceroute t then traceroute_fields d (tcp_traceroute t) f2 else f2)
      in case TCP_checkResult d t of (rs, succFlag) \<Rightarrow>
         case conclude (tcp_SuccessWhenLogic t) (if tcp_reqError t \<noteq> [] then rs @ [tcp_reqError t] else rs) succFlag (tcp_reqError t)
                [(''response_time'', JInt responseTime)] (set_all (t_Tags t) tags) f3 [] of
           (tags', flds, message) \<Rightarrow> (tags', put_message d message flds))"

subsection \<open>Running\<close>

definition TCP_clear :: "TCPTask \<Rightarrow> TCPTask" where
  "TCP_clear t = t\<lparr>tcp_reqCost := 0, tcp_reqError := [], tcp_traceroute := None\<rparr>"

record tcp_net =
  tn_ParseIP :: "string \<Rightarrow> string option"
  tn_lookupIP :: "string \<Rightarrow> string + string list"
  tn_dnsCost :: int
  tn_Dial :: "string \<Rightarrow> string option"
  tn_cost :: int
  tn_SetDeadline :: "string option"
  tn_Write :: "string \<Rightarrow> string option"
  tn_Read :: "string + string"
  tn_traceroute :: "string \<Rightarrow> string + jval list option"

text \<open>The address to dial: an address as it is, the first one of a name.  \<open>None\<close> ends the run.\<close>

definition tcp_resolve :: "tcp_net \<Rightarrow> TCPTask \<Rightarrow> string option \<times> TCPTask" where
  "tcp_resolve n t =
     (case tn_ParseIP n (tcp_Host t) of
        Some ip \<Rightarrow> (Some ip, t)
      | None \<Rightarrow>
          (case tn_lookupIP n (tcp_Host t) of
             Inl e \<Rightarrow> (None, t\<lparr>tcp_reqError := e\<rparr>)
           | Inr [] \<Rightarrow> (None, t\<lparr>tcp_reqError := ''invalid host: '' @ tcp_Host t @ '', found no ip record''\<rparr>)
           | Inr (ip # ips) \<Rightarrow> (Some ip, t\<lparr>tcp_reqDNSCost := tn_dnsCost n\<rparr>)))"

definition tcp_exchange :: "tcp_net \<Rightarrow> TCPTask \<Rightarrow> TCPTask" where
  "tcp_exchange n t =
     (if tcp_Message t = [] then t
      else case tn_SetDeadline n of
             Some e \<Rightarrow> t\<lparr>tcp_reqError := e\<rparr>
           | None \<Rightarrow>
               (case tn_Write n (tcp_Message t) of
                  Some e \<Rightarrow> t\<lparr>tcp_reqError := e\<rparr>
                | None \<Rightarrow> (case tn_Read n of Inl e \<Rightarrow> t\<lparr>tcp_reqError := e\<rparr> | Inr data \<Rightarrow> t\<lparr>tcp_responseMessage := take 1024 data\<rparr>)))"

definition TCP_run :: "tcp_net \<Rightarrow> TCPTask \<Rightarrow> (string, TCPTask) step" where
  "TCP_run n t =
     (case tcp_resolve n t of
        (None, t1) \<Rightarrow> okE t1
      | (Some ip, t1) \<Rightarrow>
          let t2 = t1\<lparr>tcp_destIP := ip\<rparr>;
              t3 = (case tn_Dial n (JoinHostPort ip (tcp_Port t2)) of
                      Some e \<Rightarrow> t2\<lparr>tcp_reqError := e, tcp_reqDNSCost := 0\<rparr>
                    | None \<Rightarrow> tcp_exchange n (t2\<lparr>tcp_reqCost := tn_cost n\<rparr>))
          in okE (if tcp_EnableTraceroute t3
                  then (case tn_traceroute n ip of Inl e \<Rightarrow> t3\<lparr>tcp_reqError := e\<rparr> | Inr routes \<Rightarrow> t3\<lparr>tcp_traceroute := routes\<rparr>)
                  else t3))"

definition TCP_setReqError :: "string \<Rightarrow> TCPTask \<Rightarrow> TCPTask" where
  "TCP_setReqError e t = t\<lparr>tcp_reqError := e\<rparr>"

definition TCP_renderTemplate :: "dlib \<Rightarrow> (string \<Rightarrow> string + TCPRaw) \<Rightarrow> FuncMap \<Rightarrow> TCPTask \<Rightarrow> (string, TCPTask) step option" where
  "TCP_renderTemplate d unmarshal fm t =
     (case raw_task unmarshal (taskJSONString t) (tcp_rawTask t) of
        Inl e \<Rightarrow> Some (failE e t)
      | Inr task \<Rightarrow>
          bindP (Some (render_into d fm ''render host'' (raw_tcp_Host task) (\<lambda>x. tcp_Host_update (\<lambda>_. x)) (t\<lparr>tcp_rawTask := Some task\<rparr>))) (\<lambda>t.
          bindP (Some (render_into d fm ''render port'' (raw_tcp_Port task) (\<lambda>x. tcp_Port_update (\<lambda>_. x)) t)) (\<lambda>t.
                 Some (render_into d fm ''render message'' (raw_tcp_Message task) (\<lambda>x. tcp_Message_update (\<lambda>_. x)) t))))"

definition tcp_ops :: "dlib \<Rightarrow> (string \<Rightarrow> string + TCPRaw) \<Rightarrow> (string \<Rightarrow> string + string) \<Rightarrow> tcp_net \<Rightarrow> TCPTask child_ops" where
  "tcp_ops d unmarshal rawjson n =
     \<lparr>o_class = ''TCP'', o_metricName = ''tcp_dial_testing'', o_clear = TCP_clear, o_check = TCP_check, o_init = TCP_init d, o_run = Some \<circ> TCP_run n,
      o_renderTemplate = TCP_renderTemplate d unmarshal, o_setReqError = TCP_setReqError, o_checkResult = TCP_checkResult d,
      o_getResults = TCP_getResults d, o_getRawTask = rawjson, o_getHostName = (\<lambda>t. Inr [tcp_Host t]), o_stop = (\<lambda>t. t)\<rparr>"

section \<open>Dial testing: TLS certificates (dialtesting/ssl.go)\<close>

text \<open>
  What the network does in a run is a record: dialling, the handshake, and of the connection the remote address, the version and the first certificate.
\<close>

record SSLSuccess =
  ss_ResponseTime :: string
  ss_CertificateExpiresInDays :: "ValueSuccess list"
  ss_CertificateNotAfter :: "ValueSuccess list"
  ss_Subject :: "SuccessOption list"
  ss_Issuer :: "SuccessOption list"
  ss_TLSVersion :: "SuccessOption list"
  ss_respTime :: int

record SSLRaw =
  raw_ssl_Host :: string
  raw_ssl_Port :: string
  raw_ssl_ServerName :: string
  raw_ssl_SuccessWhen :: "SSLSuccess list"

record SSLTask = Task +
  ssl_Host :: string
  ssl_Port :: string
  ssl_ServerName :: string
  ssl_Timeout :: string
  ssl_IgnoreServerCertificateError :: bool
  ssl_SuccessWhen :: "SSLSuccess list"
  ssl_SuccessWhenLogic :: string
  ssl_reqCost :: int
  ssl_tlsHandshakeCost :: int
  ssl_reqError :: string
  ssl_destIP :: string
  ssl_timeout :: int
  ssl_tlsVersion :: string
  ssl_certNotBefore :: int
  ssl_certNotAfter :: int
  ssl_certExpiresInDays :: int
  ssl_certSubject :: string
  ssl_certIssuer :: string
  ssl_rawTask :: "SSLRaw option"

definition ssl_init_checker :: "dlib \<Rightarrow> SSLSuccess \<Rightarrow> (string, SSLSuccess) step" where
  "ssl_init_checker d chk =
     bindE (if ss_ResponseTime chk \<noteq> []
            then (case d_ParseDuration d (ss_ResponseTime chk) of Inl e \<Rightarrow> failE e chk | Inr du \<Rightarrow> okE (chk\<lparr>ss_respTime := du\<rparr>))
            else okE chk) (\<lambda>chk.
     bindE (case each (genReg d) (ss_Subject chk) of (r, xs) \<Rightarrow> (r, chk\<lparr>ss_Subject := xs\<rparr>)) (\<lambda>chk.
     bindE (case each (genReg d) (ss_Issuer chk) of (r, xs) \<Rightarrow> (r, chk\<lparr>ss_Issuer := xs\<rparr>)) (\<lambda>chk.
            case each (genReg d) (ss_TLSVersion chk) of (r, xs) \<Rightarrow> (r, chk\<lparr>ss_TLSVersion := xs\<rparr>))))"

definition SSL_init :: "dlib \<Rightarrow> SSLTask \<Rightarrow> (string, SSLTask) step" where
  "SSL_init d t =
     bindE (if ssl_Timeout t = [] then okE (t\<lparr>ssl_timeout := 10000000000\<rparr>)
            else case d_ParseDuration d (ssl_Timeout t) of Inl e \<Rightarrow> failE e t | Inr du \<Rightarrow> okE (t\<lparr>ssl_timeout := du\<rparr>))
       (\<lambda>t. if ssl_SuccessWhen t = [] then failE ''no any check rule'' t
             else case each (ssl_init_checker d) (ssl_SuccessWhen t) of (r, cs) \<Rightarrow> (r, t\<lparr>ssl_SuccessWhen := cs\<rparr>))"

definition SSL_check :: "SSLTask \<Rightarrow> string option" where
  "SSL_check t =
     (if ssl_Host t = [] then Some ''host should not be empty''
      else if ssl_Port t = [] then Some ''port should not be empty'' else None)"

subsection \<open>Judging\<close>

definition ssl_conds :: "dlib \<Rightarrow> SSLTask \<Rightarrow> SSLSuccess \<Rightarrow> cond list" where
  "ssl_conds d t chk =
     (if ss_respTime chk > 0
      then [if ssl_reqCost t \<ge> ss_respTime chk
            then Fails (''SSL response time('' @ d_fmt_dur d (ssl_reqCost t) @ '') larger equal than '' @ d_fmt_dur d (ss_respTime chk)) else Holds]
      else []) @
     map (\<lambda>v. of_check (map_option (\<lambda>e. ''SSL certificate expires in days check failed: '' @ e)
                (ValueSuccess_check d v (f64_of_int (ssl_certExpiresInDays t))))) (ss_CertificateExpiresInDays chk) @
     map (\<lambda>v. of_check (map_option (\<lambda>e. ''SSL certificate not after check failed: '' @ e)
                (ValueSuccess_check d v (f64_of_int (ssl_certNotAfter t))))) (ss_CertificateNotAfter chk) @
     map (\<lambda>v. of_check (SuccessOption_check d v (ssl_certSubject t) ''SSL certificate subject'')) (ss_Subject chk) @
     map (\<lambda>v. of_check (SuccessOption_check d v (ssl_certIssuer t) ''SSL certificate issuer'')) (ss_Issuer chk) @
     map (\<lambda>v. of_check (SuccessOption_check d v (ssl_tlsVersion t) ''TLS version'')) (ss_TLSVersion chk)"

definition SSL_checkResult :: "dlib \<Rightarrow> SSLTask \<Rightarrow> string list \<times> bool" where
  "SSL_checkResult d t = judge (concat (map (ssl_conds d t) (ssl_SuccessWhen t)))"

text \<open>Here the error of marshalling the message stays.\<close>

definition ssl_put_message :: "dlib \<Rightarrow> field_map \<Rightarrow> field_map \<Rightarrow> field_map" where
  "ssl_put_message d message flds =
     AList.update ''message'' (JStr (case d_Marshal d (JMap message) of Inl e \<Rightarrow> e | Inr data \<Rightarrow> take (MaxMsgSize d) data)) flds"

definition SSL_getResults :: "dlib \<Rightarrow> SSLTask \<Rightarrow> tag_map \<times> field_map" where
  "SSL_getResults d t =
     (let tags = [(''name'', t_Name t), (''dest_host'', ssl_Host t), (''dest_port'', ssl_Port t), (''dest_ip'', ssl_destIP t),
                  (''status'', ''FAIL''), (''proto'', ''ssl'')];
          tags1 = (if ssl_ServerName t \<noteq> [] then AList.update ''server_name'' (ssl_ServerName t) tags else tags);
          responseTime = go_quot (ssl_reqCost t) 1000;
          f1 = [(''response_time'', JInt responseTime), (''tls_handshake_time'', JInt (go_quot (ssl_tlsHandshakeCost t) 1000)), (''success'', JInt (-1))];
          f2 = f1 @ (if ssl_tlsVersion t \<noteq> [] then [(''tls_version'', JStr (ssl_tlsVersion t))] else []) @
                    (if ssl_certNotBefore t > 0 then [(''ssl_cert_not_before'', JInt (ssl_certNotBefore t))] else []) @
                    (if ssl_certNotAfter t > 0
                     then [(''ssl_cert_not_after'', JInt (ssl_certNotAfter t)), (''ssl_cert_expires_in_days'', JInt (ssl_certExpiresInDays t))] else []) @
                    (if ssl_certSubject t \<noteq> [] then [(''ssl_cert_subject'', JStr (ssl_certSubject t))] else []) @
                    (if ssl_certIssuer t \<noteq> [] then [(''ssl_cert_issuer'', JStr (ssl_certIssuer t))] else [])
      in case (if ssl_reqError t \<noteq> [] then ([ssl_reqError t], False) else SSL_checkResult d t) of (rs, succFlag) \<Rightarrow>
         case conclude (ssl_SuccessWhenLogic t) rs succFlag (ssl_reqError t) [(''response_time'', JInt responseTime)]
                (set_all (t_Tags t) tags1) f2 [] of
           (tags', flds, message) \<Rightarrow>
             (tags', ssl_put_message d (AList.update ''status'' (JStr (the (map_of tags' ''status''))) message) flds))"

subsection \<open>Running\<close>

definition SSL_clear :: "SSLTask \<Rightarrow> SSLTask" where
  "SSL_clear t =
     t\<lparr>ssl_reqCost := 0, ssl_tlsHandshakeCost := 0, ssl_reqError := [], ssl_destIP := [], ssl_tlsVersion := [], ssl_certNotBefore := 0,
       ssl_certNotAfter := 0, ssl_certExpiresInDays := 0, ssl_certSubject := [], ssl_certIssuer := []\<rparr>"

record certificate =
  NotBefore_us :: int
  NotAfter_us :: int
  Subject_text :: string
  Issuer_text :: string

record ssl_net =
  sn_Dial :: "string \<Rightarrow> string option"
  sn_Handshake :: "string \<Rightarrow> bool \<Rightarrow> string option"
  sn_handshakeCost :: int
  sn_cost :: int
  sn_RemoteHost :: "string option"
  sn_Version :: int
  sn_PeerCertificates :: "certificate list"
  sn_now_us :: int

fun hex_digits :: "nat \<Rightarrow> string" where
  "hex_digits n = (if n < 16 then [''0123456789abcdef'' ! n] else hex_digits (n div 16) @ [''0123456789abcdef'' ! (n mod 16)])"

declare hex_digits.simps [simp del]

definition tlsVersionString :: "int \<Rightarrow> string" where
  "tlsVersionString version =
     (if version = 0x0301 then ''TLS1.0'' else if version = 0x0302 then ''TLS1.1'' else if version = 0x0303 then ''TLS1.2''
      else if version = 0x0304 then ''TLS1.3'' else ''0x'' @ hex_digits (nat version))"

text \<open>Days are microseconds by 86400000000, truncated.\<close>

definition extractCertificateInfo :: "ssl_net \<Rightarrow> SSLTask \<Rightarrow> SSLTask" where
  "extractCertificateInfo n t =
     (case sn_PeerCertificates n of
        [] \<Rightarrow> t
      | cert # _ \<Rightarrow>
          t\<lparr>ssl_certNotBefore := NotBefore_us cert, ssl_certNotAfter := NotAfter_us cert,
            ssl_certExpiresInDays := go_quot (to_i64 (NotAfter_us cert - sn_now_us n)) 86400000000,
            ssl_certSubject := Subject_text cert, ssl_certIssuer := Issuer_text cert\<rparr>)"

definition SSL_run :: "ssl_net \<Rightarrow> SSLTask \<Rightarrow> (string, SSLTask) step" where
  "SSL_run n t =
     (let serverName = (if ssl_ServerName t = [] then ssl_Host t else ssl_ServerName t) in
      case sn_Dial n (JoinHostPort (ssl_Host t) (ssl_Port t)) of
        Some e \<Rightarrow> okE (t\<lparr>ssl_reqError := e\<rparr>)
      | None \<Rightarrow>
          (case sn_Handshake n serverName (ssl_IgnoreServerCertificateError t) of
             Some e \<Rightarrow> okE (t\<lparr>ssl_reqError := e\<rparr>)
           | None \<Rightarrow>
               let t1 = t\<lparr>ssl_tlsHandshakeCost := sn_handshakeCost n, ssl_reqCost := sn_cost n\<rparr>;
                   t2 = (case sn_RemoteHost n of Some host \<Rightarrow> t1\<lparr>ssl_destIP := host\<rparr> | None \<Rightarrow> t1)
               in okE (extractCertificateInfo n (t2\<lparr>ssl_tlsVersion := tlsVersionString (sn_Version n)\<rparr>))))"

definition SSL_setReqError :: "string \<Rightarrow> SSLTask \<Rightarrow> SSLTask" where
  "SSL_setReqError e t = t\<lparr>ssl_reqError := e\<rparr>"

subsection \<open>Templates\<close>

definition ssl_render_checker :: "dlib \<Rightarrow> FuncMap \<Rightarrow> SSLSuccess \<Rightarrow> SSLSuccess \<Rightarrow> (string, SSLSuccess) step option" where
  "ssl_render_checker d fm checker dest =
     bindP (Some (render_into d fm ''render response time'' (ss_ResponseTime checker) (\<lambda>x. ss_ResponseTime_update (\<lambda>_. x)) dest)) (\<lambda>dest.
     bindP (map_option (\<lambda>(r, xs). (r, dest\<lparr>ss_Subject := xs\<rparr>)) (render_options d fm ''render subject'' (ss_Subject checker) (ss_Subject dest))) (\<lambda>dest.
     bindP (map_option (\<lambda>(r, xs). (r, dest\<lparr>ss_Issuer := xs\<rparr>)) (render_options d fm ''render issuer'' (ss_Issuer checker) (ss_Issuer dest))) (\<lambda>dest.
            map_option (\<lambda>(r, xs). (r, dest\<lparr>ss_TLSVersion := xs\<rparr>)) (render_options d fm ''render tls version'' (ss_TLSVersion checker) (ss_TLSVersion dest)))))"

fun ssl_renderSuccessWhen :: "dlib \<Rightarrow> FuncMap \<Rightarrow> SSLSuccess list \<Rightarrow> SSLSuccess list \<Rightarrow> (string, SSLSuccess list) step option" where
  "ssl_renderSuccessWhen d fm [] dests = Some (okE dests)"
| "ssl_renderSuccessWhen d fm (c # cs) [] =
     (case GetParsedString d fm (ss_ResponseTime c) of Inl e \<Rightarrow> Some (failE (''render response time failed: '' @ e) []) | Inr x \<Rightarrow> None)"
| "ssl_renderSuccessWhen d fm (c # cs) (dest # dests) =
     (case ssl_render_checker d fm c dest of
        None \<Rightarrow> None
      | Some (Some e, x) \<Rightarrow> Some (failE e (x # dests))
      | Some (None, x) \<Rightarrow> map_option (\<lambda>(r, ys). (r, x # ys)) (ssl_renderSuccessWhen d fm cs dests))"

definition SSL_renderTemplate :: "dlib \<Rightarrow> (string \<Rightarrow> string + SSLRaw) \<Rightarrow> FuncMap \<Rightarrow> SSLTask \<Rightarrow> (string, SSLTask) step option" where
  "SSL_renderTemplate d unmarshal fm t =
     (case raw_task unmarshal (taskJSONString t) (ssl_rawTask t) of
        Inl e \<Rightarrow> Some (failE e t)
      | Inr task \<Rightarrow>
          bindP (Some (render_into d fm ''render host'' (raw_ssl_Host task) (\<lambda>x. ssl_Host_update (\<lambda>_. x)) (t\<lparr>ssl_rawTask := Some task\<rparr>))) (\<lambda>t.
          bindP (Some (render_into d fm ''render port'' (raw_ssl_Port task) (\<lambda>x. ssl_Port_update (\<lambda>_. x)) t)) (\<lambda>t.
          bindP (Some (render_into d fm ''render server name'' (raw_ssl_ServerName task) (\<lambda>x. ssl_ServerName_update (\<lambda>_. x)) t)) (\<lambda>t.
                 map_option (\<lambda>(r, cs). (r, t\<lparr>ssl_SuccessWhen := cs\<rparr>)) (ssl_renderSuccessWhen d fm (raw_ssl_SuccessWhen task) (ssl_SuccessWhen t))))))"

definition ssl_ops :: "dlib \<Rightarrow> (string \<Rightarrow> string + SSLRaw) \<Rightarrow> (string \<Rightarrow> string + string) \<Rightarrow> ssl_net \<Rightarrow> SSLTask child_ops" where
  "ssl_ops d unmarshal rawjson n =
     \<lparr>o_class = ''SSL'', o_metricName = ''ssl_dial_testing'', o_clear = SSL_clear, o_check = SSL_check, o_init = SSL_init d, o_run = Some \<circ> SSL_run n,
      o_renderTemplate = SSL_renderTemplate d unmarshal, o_setReqError = SSL_setReqError, o_checkResult = SSL_checkResult d,
      o_getResults = SSL_getResults d, o_getRawTask = rawjson, o_getHostName = (\<lambda>t. Inr [ssl_Host t]), o_stop = (\<lambda>t. t)\<rparr>"

section \<open>Dial testing: ICMP (dialtesting/icmp.go, traceroute.go)\<close>

text \<open>
  A single echo request (\<open>doPing\<close>) is raw sockets; its results are given as a list, one per round.  The statistics of the rounds, the task and its
  verdict are modelled.
\<close>

subsection \<open>Statistics\<close>

definition preferredIP :: "('ip \<Rightarrow> bool) \<Rightarrow> 'ip list \<Rightarrow> 'ip option" where
  "preferredIP To4 ips = (case find To4 ips of Some ip \<Rightarrow> Some ip | None \<Rightarrow> if ips = [] then None else Some (hd ips))"

definition stats_mean :: "f64 list \<Rightarrow> f64" where
  "stats_mean v = (if v = [] then FFin 0 else f64_div (foldl f64_add (FFin 0) v) (f64_of_int (int (length v))))"

definition variance :: "f64 list \<Rightarrow> f64" where
  "variance v =
     (let m = stats_mean v;
          res = foldl (\<lambda>acc x. f64_add acc (f64_times (f64_sub x m) (f64_sub x m))) (FFin 0) v
      in if length v \<le> 1 then FFin 0 else f64_div res (f64_of_int (int (length v) - 1)))"

definition std_dev :: "(f64 \<Rightarrow> f64) \<Rightarrow> f64 list \<Rightarrow> f64" where
  "std_dev sq v = (if v = [] then FFin 0 else sq (variance v))"

definition normalizeICMPRTT :: "int \<Rightarrow> int" where
  "normalizeICMPRTT rtt = (if rtt \<le> 0 then 1000 else rtt)"

record pingStat =
  PacketLoss :: f64
  PacketsSent :: int
  PacketsRecv :: int
  MinRtt :: int
  AvgRtt :: int
  MaxRtt :: int
  StdDevRtt :: int

text \<open>The rounds: an error ends the loop; a reply that did not come counts as lost.\<close>

fun ping_rounds :: "nat \<Rightarrow> (nat \<Rightarrow> string + int option) \<Rightarrow> nat \<Rightarrow> pingStat \<times> int list \<Rightarrow> string + pingStat \<times> int list" where
  "ping_rounds 0 doPing i s = Inr s"
| "ping_rounds (Suc k) doPing i s =
     (case doPing i of
        Inl e \<Rightarrow> Inl (''ping failed: '' @ e)
      | Inr r \<Rightarrow>
          (case s of (stat, rtts) \<Rightarrow>
             let stat1 = stat\<lparr>PacketsSent := PacketsSent stat + 1\<rparr>
             in ping_rounds k doPing (i + 1)
                  (case r of
                     Some rtt \<Rightarrow> (stat1\<lparr>PacketsRecv := PacketsRecv stat1 + 1\<rparr>, rtts @ [rtt])
                   | None \<Rightarrow> (stat1\<lparr>PacketLoss := f64_add (PacketLoss stat1) (FFin 1)\<rparr>, rtts))))"

text \<open>One round of the loop over the times, with its index.\<close>

definition rtt_step :: "nat \<times> int \<Rightarrow> pingStat \<times> f64 \<Rightarrow> pingStat \<times> f64" where
  "rtt_step e s =
     (case e of (i, rtt) \<Rightarrow> case s of (stat, m2) \<Rightarrow>
        let s1 = (if rtt < MinRtt stat then stat\<lparr>MinRtt := rtt\<rparr> else stat);
            s2 = (if rtt > MaxRtt s1 then s1\<lparr>MaxRtt := rtt\<rparr> else s1);
            oldAvg = AvgRtt s2;
            s3 = s2\<lparr>AvgRtt := to_i64 (oldAvg + go_quot (to_i64 (rtt - oldAvg)) (int i + 1))\<rparr>
        in (s3, f64_add m2 (f64_times (f64_of_int (to_i64 (rtt - oldAvg))) (f64_of_int (to_i64 (rtt - AvgRtt s3))))))"

definition ping_stats :: "(f64 \<Rightarrow> f64) \<Rightarrow> (f64 \<Rightarrow> int) \<Rightarrow> int list \<Rightarrow> pingStat \<Rightarrow> pingStat" where
  "ping_stats sq to_int rtts stat =
     (if rtts = [] then stat
      else let s0 = stat\<lparr>MinRtt := hd rtts, MaxRtt := hd rtts, AvgRtt := hd rtts\<rparr>
           in case fold rtt_step (enumerate 0 rtts) (s0, FFin 0) of (s1, m2) \<Rightarrow>
                s1\<lparr>StdDevRtt := (if length rtts > 1 then to_int (sq (f64_div m2 (f64_of_int (int (length rtts))))) else 0)\<rparr>)"

definition pingTarget :: "(f64 \<Rightarrow> f64) \<Rightarrow> (f64 \<Rightarrow> int) \<Rightarrow> (nat \<Rightarrow> string + int option) \<Rightarrow> int \<Rightarrow> string + pingStat" where
  "pingTarget sq to_int doPing count =
     (case ping_rounds (nat (if count \<le> 0 then 3 else count)) doPing 0
             (\<lparr>PacketLoss = FFin 0, PacketsSent = 0, PacketsRecv = 0, MinRtt = 0, AvgRtt = 0, MaxRtt = 0, StdDevRtt = 0\<rparr>, []) of
        Inl e \<Rightarrow> Inl e
      | Inr (stat, rtts) \<Rightarrow>
          let s1 = ping_stats sq to_int rtts stat
          in Inr (if PacketsSent s1 > 0
                  then s1\<lparr>PacketLoss := f64_times (f64_div (f64_of_int (PacketsSent s1 - PacketsRecv s1)) (f64_of_int (PacketsSent s1))) (FFin 100)\<rparr>
                  else s1))"

subsection \<open>The task\<close>

record ResponseTimeSucess =
  rs_Func :: string
  rs_Op :: string
  rs_Target :: string
  rs_target :: f64

record ICMPSuccess =
  is_PacketLossPercent :: "ValueSuccess list"
  is_ResponseTime :: "ResponseTimeSucess list"
  is_Hops :: "ValueSuccess list option"
  is_Packets :: "ValueSuccess list"

record ICMPTask = Task +
  icmp_Host :: string
  icmp_PacketCount :: int
  icmp_Timeout :: string
  icmp_EnableTraceroute :: bool
  icmp_SuccessWhen :: "ICMPSuccess list"
  icmp_SuccessWhenLogic :: string
  icmp_packetLossPercent :: f64
  icmp_avgRoundTripTime :: f64
  icmp_minRoundTripTime :: f64
  icmp_maxRoundTripTime :: f64
  icmp_stdRoundTripTime :: f64
  icmp_reqError :: string
  icmp_sentPackets :: int
  icmp_recvPackets :: int
  icmp_timeout :: int
  icmp_traceroute :: "jval list option"
  icmp_rawTask :: "string option"

text \<open>\<open>PingTimeout\<close> is three seconds.\<close>

definition PingTimeout :: int where "PingTimeout = 3000000000"

definition icmp_parse_target :: "dlib \<Rightarrow> ResponseTimeSucess \<Rightarrow> (string, ResponseTimeSucess) step" where
  "icmp_parse_target d v =
     (case d_ParseDuration d (rs_Target v) of Inl e \<Rightarrow> failE e v | Inr du \<Rightarrow> okE (v\<lparr>rs_target := f64_of_int (go_quot du 1000)\<rparr>))"

fun icmp_init_checkers :: "dlib \<Rightarrow> bool \<Rightarrow> ICMPSuccess list \<Rightarrow> (string, bool \<times> ICMPSuccess list) step" where
  "icmp_init_checkers d en [] = okE (en, [])"
| "icmp_init_checkers d en (chk # cs) =
     (case each (icmp_parse_target d) (is_ResponseTime chk) of
        (Some e, rts) \<Rightarrow> failE e (en, chk\<lparr>is_ResponseTime := rts\<rparr> # cs)
      | (None, rts) \<Rightarrow>
          (case icmp_init_checkers d (IsEnabledTraceroute d (en \<or> is_Hops chk \<noteq> None)) cs of
             (r, en2, cs2) \<Rightarrow> (r, en2, chk\<lparr>is_ResponseTime := rts\<rparr> # cs2)))"

definition ICMP_init :: "dlib \<Rightarrow> ICMPTask \<Rightarrow> (string, ICMPTask) step" where
  "ICMP_init d t =
     bindE (if icmp_Timeout t = [] then okE (t\<lparr>icmp_timeout := PingTimeout\<rparr>)
            else case d_ParseDuration d (icmp_Timeout t) of Inl e \<Rightarrow> failE e t | Inr du \<Rightarrow> okE (t\<lparr>icmp_timeout := du\<rparr>))
       (\<lambda>t. if icmp_SuccessWhen t = [] then failE ''no any check rule'' t
             else let t1 = (if icmp_PacketCount t \<le> 0 then t\<lparr>icmp_PacketCount := 3\<rparr> else t)
                  in case icmp_init_checkers d (icmp_EnableTraceroute t1) (icmp_SuccessWhen t1) of
                       (r, en, cs) \<Rightarrow> (r, t1\<lparr>icmp_EnableTraceroute := en, icmp_SuccessWhen := cs\<rparr>))"

definition ICMP_check :: "ICMPTask \<Rightarrow> string option" where
  "ICMP_check t = (if icmp_Host t = [] then Some ''host should not be empty'' else None)"

definition icmp_time_cond :: "dlib \<Rightarrow> ICMPTask \<Rightarrow> ResponseTimeSucess \<Rightarrow> cond" where
  "icmp_time_cond d t v =
     (let checkVal = (if rs_Func v = ''avg'' then icmp_avgRoundTripTime t else if rs_Func v = ''min'' then icmp_minRoundTripTime t
                      else if rs_Func v = ''max'' then icmp_maxRoundTripTime t else if rs_Func v = ''std'' then icmp_stdRoundTripTime t else FFin 0)
      in if f64_eq (icmp_packetLossPercent t) (FFin 100) then Fails ''all packets lost''
         else of_check (map_option (\<lambda>e. ''ICMP round-trip('' @ rs_Func v @ '') check failed: '' @ e)
                (ValueSuccess_check d \<lparr>vs_Op = rs_Op v, vs_Target = rs_target v\<rparr> checkVal)))"

definition icmp_conds :: "dlib \<Rightarrow> ICMPTask \<Rightarrow> ICMPSuccess \<Rightarrow> cond list" where
  "icmp_conds d t chk =
     map (icmp_time_cond d t) (is_ResponseTime chk) @
     map (\<lambda>v. of_check (map_option (\<lambda>e. ''packet_loss_percent check failed: '' @ e) (ValueSuccess_check d v (icmp_packetLossPercent t))))
       (is_PacketLossPercent chk) @
     map (\<lambda>v. of_check (map_option (\<lambda>e. ''packets received check failed: '' @ e) (ValueSuccess_check d v (f64_of_int (icmp_recvPackets t)))))
       (is_Packets chk) @
     (if icmp_EnableTraceroute t then hop_conds d (icmp_traceroute t) (case is_Hops chk of None \<Rightarrow> [] | Some h \<Rightarrow> h) else [])"

definition ICMP_checkResult :: "dlib \<Rightarrow> ICMPTask \<Rightarrow> string list \<times> bool" where
  "ICMP_checkResult d t = judge (concat (map (icmp_conds d t) (icmp_SuccessWhen t)))"

text \<open>\<open>round(num, 3)\<close>: printed with three decimals, ties to even, and read back.\<close>

definition icmp_round :: "f64 \<Rightarrow> f64" where
  "icmp_round x = (case x of FFin q \<Rightarrow> f64_of_rat (sgn q * of_int (round_even (\<bar>q\<bar> * 1000)) / 1000) | _ \<Rightarrow> x)"

definition ICMP_getResults :: "dlib \<Rightarrow> ICMPTask \<Rightarrow> tag_map \<times> field_map" where
  "ICMP_getResults d t =
     (let tags = [(''name'', t_Name t), (''dest_host'', icmp_Host t), (''status'', ''FAIL''), (''proto'', ''icmp'')];
          ms = (\<lambda>x. JFloat (icmp_round (f64_div x (FFin 1000))));
          f1 = [(''average_round_trip_time_in_millis'', ms (icmp_avgRoundTripTime t)), (''average_round_trip_time'', JFloat (icmp_avgRoundTripTime t)),
                (''min_round_trip_time_in_millis'', ms (icmp_minRoundTripTime t)), (''min_round_trip_time'', JFloat (icmp_minRoundTripTime t)),
                (''std_round_trip_time_in_millis'', ms (icmp_stdRoundTripTime t)), (''std_round_trip_time'', JFloat (icmp_stdRoundTripTime t)),
                (''max_round_trip_time_in_millis'', ms (icmp_maxRoundTripTime t)), (''max_round_trip_time'', JFloat (icmp_maxRoundTripTime t)),
                (''packet_loss_percent'', JFloat (icmp_packetLossPercent t)), (''packets_sent'', JInt (icmp_sentPackets t)),
                (''packets_received'', JInt (icmp_recvPackets t)), (''success'', JInt (-1))];
          f2 = (if icmp_EnableTraceroute t then traceroute_fields d (icmp_traceroute t) f1 else f1)
      in case ICMP_checkResult d t of (rs, succFlag) \<Rightarrow>
         case conclude (icmp_SuccessWhenLogic t) (if icmp_reqError t \<noteq> [] then rs @ [icmp_reqError t] else rs) succFlag (icmp_reqError t)
                [(''average_round_trip_time'', JFloat (icmp_avgRoundTripTime t))] (set_all (t_Tags t) tags) f2 [] of
           (tags', flds, message) \<Rightarrow> (tags', put_message d message flds))"

definition ICMP_clear :: "ICMPTask \<Rightarrow> ICMPTask" where
  "ICMP_clear t =
     (if icmp_timeout t = 0 then t\<lparr>icmp_timeout := PingTimeout\<rparr> else t)
       \<lparr>icmp_avgRoundTripTime := FFin 0, icmp_minRoundTripTime := FFin 0, icmp_maxRoundTripTime := FFin 0, icmp_stdRoundTripTime := FFin 0,
        icmp_recvPackets := 0, icmp_sentPackets := 0, icmp_packetLossPercent := FFin 100, icmp_reqError := [], icmp_traceroute := None\<rparr>"

record icmp_net =
  in_sqrt :: "f64 \<Rightarrow> f64"
  in_to_int :: "f64 \<Rightarrow> int"
  in_doPing :: "nat \<Rightarrow> string + int option"
  in_ParseIP :: "string \<Rightarrow> string option"
  in_lookupIP :: "string \<Rightarrow> string + string list"
  in_To4 :: "string \<Rightarrow> bool"
  in_traceroute :: "string \<Rightarrow> string + jval list option"

definition icmp_us :: "int \<Rightarrow> f64" where
  "icmp_us ns = icmp_round (f64_div (f64_of_int ns) (FFin 1000))"

definition icmp_ping :: "icmp_net \<Rightarrow> ICMPTask \<Rightarrow> ICMPTask" where
  "icmp_ping n t =
     (case pingTarget (in_sqrt n) (in_to_int n) (in_doPing n) (if icmp_PacketCount t > 0 then icmp_PacketCount t else 3) of
        Inl e \<Rightarrow> t\<lparr>icmp_reqError := e\<rparr>
      | Inr stats \<Rightarrow>
          t\<lparr>icmp_packetLossPercent := PacketLoss stats, icmp_sentPackets := PacketsSent stats, icmp_recvPackets := PacketsRecv stats,
            icmp_minRoundTripTime := icmp_us (MinRtt stats), icmp_avgRoundTripTime := icmp_us (AvgRtt stats),
            icmp_maxRoundTripTime := icmp_us (MaxRtt stats), icmp_stdRoundTripTime := icmp_us (StdDevRtt stats)\<rparr>)"

definition ICMP_run :: "icmp_net \<Rightarrow> ICMPTask \<Rightarrow> (string, ICMPTask) step" where
  "ICMP_run n t =
     (let t1 = icmp_ping n t;
          trace = (\<lambda>ip. case in_traceroute n ip of Inl e \<Rightarrow> t1\<lparr>icmp_reqError := e\<rparr> | Inr routes \<Rightarrow> t1\<lparr>icmp_traceroute := routes\<rparr>)
      in okE (if \<not> icmp_EnableTraceroute t1 then t1
              else case in_ParseIP n (icmp_Host t1) of
                     Some ip \<Rightarrow> trace ip
                   | None \<Rightarrow>
                       (case in_lookupIP n (icmp_Host t1) of
                          Inl e \<Rightarrow> t1\<lparr>icmp_reqError := e\<rparr>
                        | Inr ips \<Rightarrow>
                            (case preferredIP (in_To4 n) ips of
                               None \<Rightarrow> t1\<lparr>icmp_reqError := ''invalid host: '' @ icmp_Host t1 @ '', found no ip record''\<rparr>
                             | Some ip \<Rightarrow> trace ip))))"

definition ICMP_setReqError :: "string \<Rightarrow> ICMPTask \<Rightarrow> ICMPTask" where
  "ICMP_setReqError e t = t\<lparr>icmp_reqError := e\<rparr>"

text \<open>Of the raw task only the host is rendered.\<close>

definition ICMP_renderTemplate :: "dlib \<Rightarrow> (string \<Rightarrow> string + string) \<Rightarrow> FuncMap \<Rightarrow> ICMPTask \<Rightarrow> (string, ICMPTask) step option" where
  "ICMP_renderTemplate d unmarshal fm t =
     (case raw_task unmarshal (taskJSONString t) (icmp_rawTask t) of
        Inl e \<Rightarrow> Some (failE e t)
      | Inr host \<Rightarrow> Some (render_into d fm ''render host'' host (\<lambda>x. icmp_Host_update (\<lambda>_. x)) (t\<lparr>icmp_rawTask := Some host\<rparr>)))"

definition icmp_ops :: "dlib \<Rightarrow> (string \<Rightarrow> string + string) \<Rightarrow> (string \<Rightarrow> string + string) \<Rightarrow> icmp_net \<Rightarrow> ICMPTask child_ops" where
  "icmp_ops d unmarshal rawjson n =
     \<lparr>o_class = ''ICMP'', o_metricName = ''icmp_dial_testing'', o_clear = ICMP_clear, o_check = ICMP_check, o_init = ICMP_init d, o_run = Some \<circ> ICMP_run n,
      o_renderTemplate = ICMP_renderTemplate d unmarshal, o_setReqError = ICMP_setReqError, o_checkResult = ICMP_checkResult d,
      o_getResults = ICMP_getResults d, o_getRawTask = rawjson, o_getHostName = (\<lambda>t. Inr [icmp_Host t]), o_stop = (\<lambda>t. t)\<rparr>"

section \<open>Dial testing: the statistics of a ping\<close>

text \<open>The rounds of \<open>pingTarget\<close> as a list of replies, and what the loop over the round-trip times computes of them.\<close>

subsection \<open>The rounds\<close>

definition ping_reply :: "(nat \<Rightarrow> string + int option) \<Rightarrow> nat \<Rightarrow> int option" where
  "ping_reply doPing i = (case doPing i of Inr r \<Rightarrow> r | Inl e \<Rightarrow> None)"

abbreviation replies :: "(nat \<Rightarrow> string + int option) \<Rightarrow> nat list \<Rightarrow> int list" where
  "replies doPing is \<equiv> List.map_filter (ping_reply doPing) is"

lemma ping_reply_Inr [simp]: "doPing i = Inr r \<Longrightarrow> ping_reply doPing i = r"
  by (simp add: ping_reply_def)

lemma ping_rounds_fails: "(\<exists>e. ping_rounds k doPing i s = Inl e) \<longleftrightarrow> (\<exists>j \<in> {i..<i + k}. \<exists>e. doPing j = Inl e)"
proof (induction k arbitrary: i s)
  case (Suc k)
  have "{i..<i + Suc k} = insert i {Suc i..<Suc i + k}" by auto
  then show ?case using Suc[of "i + 1"] by (auto simp: Let_def split: sum.split prod.split option.split)
qed simp

lemma ping_rounds_counts:
  assumes "ping_rounds k doPing i (stat, rtts) = Inr (stat', rtts')"
  shows "PacketsSent stat' = PacketsSent stat + int k" "rtts' = rtts @ replies doPing [i..<i + k]"
    "PacketsRecv stat' = PacketsRecv stat + int (length (replies doPing [i..<i + k]))"
    "MinRtt stat' = MinRtt stat" "MaxRtt stat' = MaxRtt stat" "AvgRtt stat' = AvgRtt stat"
  using assms
proof (induction k arbitrary: i stat rtts)
  case (Suc k)
  have cut: "\<And>i. replies doPing [i..<Suc (i + k)] = (case ping_reply doPing i of None \<Rightarrow> [] | Some r \<Rightarrow> [r]) @ replies doPing [Suc i..<Suc (i + k)]"
    by (simp add: upt_conv_Cons map_filter_simps del: upt_Suc split: option.split)
  {
    case 1 then show ?case using Suc.IH(1)[of "i + 1"] by (auto simp: Let_def split: sum.splits option.splits)
  next
    case 2 then show ?case
      by (auto simp: Let_def cut simp del: upt_Suc dest!: Suc.IH(2) split: sum.splits option.splits)
  next
    case 3 then show ?case using Suc.IH(3)[of "i + 1"]
      by (auto simp: Let_def cut simp del: upt_Suc split: sum.splits option.splits)
  next
    case 4 then show ?case using Suc.IH(4)[of "i + 1"] by (auto simp: Let_def split: sum.splits option.splits)
  next
    case 5 then show ?case using Suc.IH(5)[of "i + 1"] by (auto simp: Let_def split: sum.splits option.splits)
  next
    case 6 then show ?case using Suc.IH(6)[of "i + 1"] by (auto simp: Let_def split: sum.splits option.splits)
  }
qed (simp_all add: map_filter_simps)

subsection \<open>The times\<close>

text \<open>Moving towards a value by a fraction of the way does not leave the interval between the two.\<close>

lemma go_quot_between:
  assumes "(n::int) > 0" "l \<le> a" "a \<le> u" "l \<le> r" "r \<le> u"
  shows "l \<le> a + go_quot (r - a) n \<and> a + go_quot (r - a) n \<le> u"
proof -
  have "0 \<le> \<bar>r - a\<bar> div n" "\<bar>r - a\<bar> div n \<le> \<bar>r - a\<bar>"
    using assms(1) zdiv_mono2[of "\<bar>r - a\<bar>" 1 n] by (auto simp: pos_imp_zdiv_nonneg_iff)
  then show ?thesis using assms by (auto simp: go_quot_def)
qed

text \<open>
  The average is moved by truncated fractions, so it is the mean only up to the remainders of the divisions: at the \<open>k\<close>th of them the remainder is at most
  \<open>k - 1\<close>, which makes it off by at most \<open>(n - 1) / 2\<close> after \<open>n\<close> values.
\<close>

definition near_mean :: "nat \<Rightarrow> int \<Rightarrow> int \<Rightarrow> bool" where
  "near_mean n acc avg \<longleftrightarrow> 2 * \<bar>int n * avg - acc\<bar> \<le> int n * (int n - 1)"

lemma go_quot_rest:
  assumes "(n::int) > 0"
  shows "\<bar>n * go_quot a n - a\<bar> \<le> n - 1"
proof -
  have "n * (\<bar>a\<bar> div n) = \<bar>a\<bar> - \<bar>a\<bar> mod n" "0 \<le> \<bar>a\<bar> mod n" "\<bar>a\<bar> mod n \<le> n - 1"
    using assms pos_mod_bound[of n "\<bar>a\<bar>"] by (simp_all add: minus_mod_eq_mult_div)
  then show ?thesis using assms by (auto simp: go_quot_def)
qed

lemma near_mean_step:
  assumes "near_mean k acc avg"
  shows "near_mean (Suc k) (acc + r) (avg + go_quot (r - avg) (int k + 1))"
proof -
  define n where "n = int k + 1"
  define rest where "rest = n * go_quot (r - avg) n - (r - avg)"
  have rest: "\<bar>rest\<bar> \<le> n - 1" unfolding rest_def by (rule go_quot_rest) (simp add: n_def)
  have e: "n * (avg + go_quot (r - avg) n) - (acc + r) = (int k * avg - acc) + rest" by (simp add: rest_def n_def algebra_simps)
  have "2 * \<bar>n * (avg + go_quot (r - avg) n) - (acc + r)\<bar> \<le> 2 * \<bar>int k * avg - acc\<bar> + 2 * (n - 1)"
    unfolding e using rest abs_triangle_ineq[of "int k * avg - acc" rest] by simp
  also have "\<dots> \<le> int k * (int k - 1) + 2 * (n - 1)" using assms by (simp add: near_mean_def)
  also have "\<dots> = n * (n - 1)" by (simp add: n_def algebra_simps)
  finally show ?thesis by (simp add: near_mean_def n_def add.commute)
qed

text \<open>What the loop keeps: minimum and maximum of what it has seen, and the average between them.\<close>

definition rtt_inv :: "int set \<Rightarrow> pingStat \<Rightarrow> bool" where
  "rtt_inv seen stat \<longleftrightarrow>
     finite seen \<and> seen \<noteq> {} \<and> MinRtt stat = Min seen \<and> MaxRtt stat = Max seen \<and> Min seen \<le> AvgRtt stat \<and> AvgRtt stat \<le> Max seen"

lemma rtt_step_inv:
  assumes inv: "rtt_inv seen stat" and bounds: "insert rtt seen \<subseteq> {0..<2 ^ 63}" and s: "rtt_step (i, rtt) (stat, m2) = (stat', m2')"
  shows "rtt_inv (insert rtt seen) stat'" "PacketsSent stat' = PacketsSent stat" "PacketsRecv stat' = PacketsRecv stat"
    "AvgRtt stat' = AvgRtt stat + go_quot (rtt - AvgRtt stat) (int i + 1)"
proof -
  define a where "a = AvgRtt stat"
  have seen: "finite seen" "seen \<noteq> {}" "Min seen \<in> seen" "Max seen \<in> seen" using inv by (auto simp: rtt_inv_def)
  have a: "Min seen \<le> a" "a \<le> Max seen" using inv by (auto simp: rtt_inv_def a_def)
  have r: "0 \<le> rtt" "rtt < 2 ^ 63" and m: "0 \<le> Min seen" "Max seen < 2 ^ 63" using bounds seen by auto
  have between: "min rtt (Min seen) \<le> a + go_quot (rtt - a) (int i + 1)" "a + go_quot (rtt - a) (int i + 1) \<le> max rtt (Max seen)"
    using go_quot_between[of "int i + 1" "min rtt (Min seen)" a "max rtt (Max seen)" rtt] a by auto
  have w1: "to_i64 (rtt - a) = rtt - a" using r m a by (intro to_i64_id) auto
  have "to_i64 (a + go_quot (rtt - a) (int i + 1)) = a + go_quot (rtt - a) (int i + 1)"
    using between r m by (intro to_i64_id) auto
  then have avg: "AvgRtt stat' = a + go_quot (rtt - a) (int i + 1)"
    using s w1 by (auto simp: rtt_step_def Let_def a_def split: if_splits)
  then show "AvgRtt stat' = AvgRtt stat + go_quot (rtt - AvgRtt stat) (int i + 1)" by (simp add: a_def)
  note avg
  moreover have "MinRtt stat' = min rtt (MinRtt stat)" "MaxRtt stat' = max rtt (MaxRtt stat)"
    using s by (auto simp: rtt_step_def Let_def split: if_splits)
  moreover have "MinRtt stat = Min seen" "MaxRtt stat = Max seen" using inv by (auto simp: rtt_inv_def)
  ultimately show "rtt_inv (insert rtt seen) stat'" using seen between by (simp add: rtt_inv_def)
  show "PacketsSent stat' = PacketsSent stat" "PacketsRecv stat' = PacketsRecv stat"
    using s by (auto simp: rtt_step_def Let_def split: if_splits)
qed

lemma rtt_fold_inv:
  assumes "rtt_inv seen stat" "seen \<union> set rtts \<subseteq> {0..<2 ^ 63}" "fold rtt_step (enumerate i rtts) (stat, m2) = (stat', m2')"
  shows "rtt_inv (seen \<union> set rtts) stat' \<and> PacketsSent stat' = PacketsSent stat \<and> PacketsRecv stat' = PacketsRecv stat \<and>
    (near_mean i acc (AvgRtt stat) \<longrightarrow> near_mean (i + length rtts) (acc + sum_list rtts) (AvgRtt stat'))"
  using assms
proof (induction rtts arbitrary: i seen stat m2 acc)
  case (Cons r rtts)
  obtain s1 m1 where s1: "rtt_step (i, r) (stat, m2) = (s1, m1)" by fastforce
  have "rtt_inv (insert r seen) s1" "PacketsSent s1 = PacketsSent stat" "PacketsRecv s1 = PacketsRecv stat"
    using rtt_step_inv[OF Cons.prems(1) _ s1] Cons.prems(2) by auto
  moreover have "near_mean i acc (AvgRtt stat) \<longrightarrow> near_mean (Suc i) (acc + r) (AvgRtt s1)"
    using rtt_step_inv(4)[OF Cons.prems(1) _ s1] Cons.prems(2) near_mean_step by auto
  ultimately show ?case using Cons.IH[of "insert r seen" s1 "Suc i" m1 "acc + r"] Cons.prems s1 by (simp add: add.assoc)
qed simp

lemma ping_stats_inv:
  assumes "rtts \<noteq> []" "set rtts \<subseteq> {0..<2 ^ 63}"
  shows "rtt_inv (set rtts) (ping_stats sq to_int rtts stat)"
    "PacketsSent (ping_stats sq to_int rtts stat) = PacketsSent stat" "PacketsRecv (ping_stats sq to_int rtts stat) = PacketsRecv stat"
    "near_mean (length rtts) (sum_list rtts) (AvgRtt (ping_stats sq to_int rtts stat))"
proof -
  let ?s0 = "stat\<lparr>MinRtt := hd rtts, MaxRtt := hd rtts, AvgRtt := hd rtts\<rparr>"
  obtain s1 m2 where f: "fold rtt_step (enumerate 0 rtts) (?s0, FFin 0) = (s1, m2)" by fastforce
  have "insert (hd rtts) (set rtts) = set rtts" using assms(1) by auto
  then have "rtt_inv (set rtts) s1 \<and> PacketsSent s1 = PacketsSent stat \<and> PacketsRecv s1 = PacketsRecv stat \<and>
      near_mean (length rtts) (sum_list rtts) (AvgRtt s1)"
    using rtt_fold_inv[of "{hd rtts}" ?s0 rtts 0 "FFin 0" s1 m2 0] assms f by (simp add: rtt_inv_def near_mean_def[of 0])
  then show "rtt_inv (set rtts) (ping_stats sq to_int rtts stat)"
    "PacketsSent (ping_stats sq to_int rtts stat) = PacketsSent stat" "PacketsRecv (ping_stats sq to_int rtts stat) = PacketsRecv stat"
    "near_mean (length rtts) (sum_list rtts) (AvgRtt (ping_stats sq to_int rtts stat))"
    using assms(1) f by (auto simp: ping_stats_def rtt_inv_def Let_def)
qed

subsection \<open>The result\<close>

abbreviation ping_count :: "int \<Rightarrow> nat" where
  "ping_count count \<equiv> nat (if count \<le> 0 then 3 else count)"

lemma pingTarget_fails: "(\<exists>e. pingTarget sq to_int doPing count = Inl e) \<longleftrightarrow> (\<exists>i < ping_count count. \<exists>e. doPing i = Inl e)"
proof -
  let ?r = "ping_rounds (ping_count count) doPing 0
    (\<lparr>PacketLoss = FFin 0, PacketsSent = 0, PacketsRecv = 0, MinRtt = 0, AvgRtt = 0, MaxRtt = 0, StdDevRtt = 0\<rparr>, [])"
  have "(\<exists>e. pingTarget sq to_int doPing count = Inl e) \<longleftrightarrow> (\<exists>e. ?r = Inl e)"
    unfolding pingTarget_def by (cases ?r) (auto simp: Let_def)
  also have "\<dots> \<longleftrightarrow> (\<exists>i < ping_count count. \<exists>e. doPing i = Inl e)"
    unfolding ping_rounds_fails by auto
  finally show ?thesis .
qed

lemma ping_statistics_of:
  assumes p: "pingTarget sq to_int doPing count = Inr s" and bounds: "set (replies doPing [0..<ping_count count]) \<subseteq> {0..<2 ^ 63}"
  defines "rs \<equiv> replies doPing [0..<ping_count count]"
  shows "PacketsSent s = int (ping_count count)" "PacketsRecv s = int (length rs)"
    "PacketLoss s = f64_times (f64_div (f64_of_int (PacketsSent s - PacketsRecv s)) (f64_of_int (PacketsSent s))) (FFin 100)"
    "if rs = [] then MinRtt s = 0 \<and> AvgRtt s = 0 \<and> MaxRtt s = 0 else rtt_inv (set rs) s \<and> near_mean (length rs) (sum_list rs) (AvgRtt s)"
proof -
  let ?z = "\<lparr>PacketLoss = FFin 0, PacketsSent = 0, PacketsRecv = 0, MinRtt = 0, AvgRtt = 0, MaxRtt = 0, StdDevRtt = 0\<rparr>"
  obtain stat rtts where r: "ping_rounds (ping_count count) doPing 0 (?z, []) = Inr (stat, rtts)"
    using p by (auto simp: pingTarget_def split: sum.splits)
  note c = ping_rounds_counts[OF r, simplified, folded rs_def]
  let ?s1 = "ping_stats sq to_int rs stat"
  have n: "int (ping_count count) > 0" by auto
  have kept: "PacketsSent ?s1 = int (ping_count count)" "PacketsRecv ?s1 = int (length rs)"
    using ping_stats_inv(2,3)[of rs sq to_int stat] bounds c by (cases "rs = []"; auto simp: ping_stats_def rs_def)+
  then have s: "s = ?s1\<lparr>PacketLoss := f64_times (f64_div (f64_of_int (PacketsSent ?s1 - PacketsRecv ?s1)) (f64_of_int (PacketsSent ?s1))) (FFin 100)\<rparr>"
    using p r c(2) n by (simp add: pingTarget_def Let_def del: of_nat_nat int_nat_eq split: if_splits)
  show "PacketsSent s = int (ping_count count)" "PacketsRecv s = int (length rs)"
    "PacketLoss s = f64_times (f64_div (f64_of_int (PacketsSent s - PacketsRecv s)) (f64_of_int (PacketsSent s))) (FFin 100)"
    unfolding s using kept by simp_all
  show "if rs = [] then MinRtt s = 0 \<and> AvgRtt s = 0 \<and> MaxRtt s = 0 else rtt_inv (set rs) s \<and> near_mean (length rs) (sum_list rs) (AvgRtt s)"
  proof (cases "rs = []")
    case False
    have b: "set rs \<subseteq> {0..<2 ^ 63}" using bounds by (simp add: rs_def)
    show ?thesis unfolding s using ping_stats_inv(1,4)[OF False b, of sq to_int stat] False by (simp add: rtt_inv_def)
  qed (use s c in \<open>simp add: ping_stats_def\<close>)
qed

end
