(* ===== verification/Dial_Ws.thy ===== *)
theory Dial_Ws
  imports Dial_Task
begin

section \<open>Dial testing: web sockets (dialtesting/websocket.go)\<close>

text \<open>What the network does in a run is a record: resolving, dialling, and the exchange of one message.\<close>

record WebsocketResponseTime =
  wt_IsContainDNS :: bool
  wt_Target :: string
  wt_targetTime :: int

record WebsocketSuccess =
  wss_ResponseTime :: "WebsocketResponseTime list"
  wss_ResponseMessage :: "SuccessOption list"
  wss_Header :: "(string \<times> SuccessOption list) list"

record WebsocketOptRequest =
  wr_Timeout :: string
  wr_Headers :: tag_map

record WebsocketOptAuth =
  wa_Username :: string
  wa_Password :: string

record WebsocketAdvanceOption =
  wo_RequestOptions :: "WebsocketOptRequest option"
  wo_Auth :: "WebsocketOptAuth option"

record WebsocketRaw =
  raw_ws_URL :: string
  raw_ws_Message :: string
  raw_ws_SuccessWhen :: "WebsocketSuccess list"
  raw_ws_AdvanceOptions :: "WebsocketAdvanceOption option"

record WebsocketTask = Task +
  ws_URL :: string
  ws_Message :: string
  ws_SuccessWhen :: "WebsocketSuccess list"
  ws_AdvanceOptions :: "WebsocketAdvanceOption option"
  ws_SuccessWhenLogic :: string
  ws_reqCost :: int
  ws_reqDNSCost :: int
  ws_responseMessage :: string
  ws_resp :: "http_response option"
  ws_parsedURL :: "parsed_url option"
  ws_hostname :: string
  ws_reqError :: string
  ws_timeout :: int
  ws_rawTask :: "WebsocketRaw option"
  ws_sslCertNotBefore :: int
  ws_sslCertNotAfter :: int

subsection \<open>Setting up\<close>

definition ws_parse_target :: "dlib \<Rightarrow> WebsocketResponseTime \<Rightarrow> (string, WebsocketResponseTime) step" where
  "ws_parse_target d v = (case d_ParseDuration d (wt_Target v) of Inl e \<Rightarrow> failE e v | Inr du \<Rightarrow> okE (v\<lparr>wt_targetTime := du\<rparr>))"

definition ws_init_checker :: "dlib \<Rightarrow> WebsocketSuccess \<Rightarrow> (string, WebsocketSuccess) step" where
  "ws_init_checker d chk =
     bindE (case each (ws_parse_target d) (wss_ResponseTime chk) of (r, xs) \<Rightarrow> (r, chk\<lparr>wss_ResponseTime := xs\<rparr>)) (\<lambda>chk.
     bindE (case gen_headers d (wss_Header chk) of (r, xs) \<Rightarrow> (r, chk\<lparr>wss_Header := xs\<rparr>)) (\<lambda>chk.
            case each (genReg d) (wss_ResponseMessage chk) of (r, xs) \<Rightarrow> (r, chk\<lparr>wss_ResponseMessage := xs\<rparr>)))"

text \<open>The port that a URL leaves out.\<close>

definition ws_default_port :: "parsed_url \<Rightarrow> parsed_url" where
  "ws_default_port u =
     (if snd (url_splitHostPort (u_Host u)) = []
      then u\<lparr>u_Host := JoinHostPort (u_Host u) (if u_Scheme u = ''wss'' then ''443'' else if u_Scheme u = ''ws'' then ''80'' else [])\<rparr>
      else u)"

definition Websocket_init :: "dlib \<Rightarrow> (string \<Rightarrow> string + parsed_url) \<Rightarrow> WebsocketTask \<Rightarrow> (string, WebsocketTask) step" where
  "Websocket_init d parse t =
     bindE (let t0 = t\<lparr>ws_timeout := 30000000000\<rparr> in
            case ws_AdvanceOptions t0 of
              None \<Rightarrow> okE t0
            | Some opt \<Rightarrow>
                (case wo_RequestOptions opt of
                   None \<Rightarrow> okE t0
                 | Some ro \<Rightarrow>
                     if wr_Timeout ro = [] then okE t0
                     else case d_ParseDuration d (wr_Timeout ro) of Inl e \<Rightarrow> failE e t0 | Inr du \<Rightarrow> okE (t0\<lparr>ws_timeout := du\<rparr>))) (\<lambda>t.
     bindE (if ws_SuccessWhen t = [] then failE ''no any check rule'' t
            else case each (ws_init_checker d) (ws_SuccessWhen t) of (r, cs) \<Rightarrow> (r, t\<lparr>ws_SuccessWhen := cs\<rparr>)) (\<lambda>t.
            case parse (ws_URL t) of
              Inl e \<Rightarrow> failE e t
            | Inr u \<Rightarrow> let u1 = ws_default_port u in okE (t\<lparr>ws_parsedURL := Some u1, ws_hostname := fst (url_splitHostPort (u_Host u1))\<rparr>)))"

definition Websocket_check :: "WebsocketTask \<Rightarrow> string option" where
  "Websocket_check t = (if ws_URL t = [] then Some ''URL should not be empty'' else None)"

subsection \<open>Judging\<close>

definition ws_time_cond :: "dlib \<Rightarrow> WebsocketTask \<Rightarrow> WebsocketResponseTime \<Rightarrow> cond" where
  "ws_time_cond d t v =
     (let reqCost = (if wt_IsContainDNS v then to_i64 (ws_reqCost t + ws_reqDNSCost t) else ws_reqCost t)
      in if reqCost > wt_targetTime v \<and> wt_targetTime v > 0
         then Fails (''response time('' @ d_fmt_dur d reqCost @ '') larger than '' @ d_fmt_dur d (wt_targetTime v))
         else if wt_targetTime v > 0 then Holds else Silent)"

definition ws_conds :: "dlib \<Rightarrow> WebsocketTask \<Rightarrow> WebsocketSuccess \<Rightarrow> cond list" where
  "ws_conds d t chk =
     map (ws_time_cond d t) (wss_ResponseTime chk) @
     map (\<lambda>v. of_check (SuccessOption_check d v (ws_responseMessage t) ''response message'')) (wss_ResponseMessage chk) @
     (case ws_resp t of None \<Rightarrow> [] | Some resp \<Rightarrow> header_conds d ''Websocket'' resp (wss_Header chk))"

definition Websocket_checkResult :: "dlib \<Rightarrow> WebsocketTask \<Rightarrow> string list \<times> bool" where
  "Websocket_checkResult d t = judge (concat (map (ws_conds d t) (ws_SuccessWhen t)))"

text \<open>\<open>now\<close> in microseconds.  Both response times contain the time for resolving.\<close>

definition Websocket_getResults :: "dlib \<Rightarrow> int \<Rightarrow> WebsocketTask \<Rightarrow> tag_map \<times> field_map" where
  "Websocket_getResults d now_us t =
     (let tags = [(''name'', t_Name t), (''url'', ws_URL t), (''status'', ''FAIL''), (''proto'', ''websocket'')];
          responseTime = go_quot (to_i64 (ws_reqCost t + ws_reqDNSCost t)) 1000;
          f1 = [(''response_time'', JInt responseTime), (''response_time_with_dns'', JInt responseTime),
                (''response_message'', JStr (ws_responseMessage t)), (''sent_message'', JStr (ws_Message t)), (''success'', JInt (-1))];
          f2 = f1 @ (if ws_sslCertNotAfter t > 0
                     then [(''ssl_cert_not_after'', JInt (ws_sslCertNotAfter t)),
                           (''ssl_cert_expires_in_days'', JInt (go_quot (to_i64 (ws_sslCertNotAfter t - now_us)) 86400000000))] else [])
      in case Websocket_checkResult d t of (rs, succFlag) \<Rightarrow>
         case conclude (ws_SuccessWhenLogic t) (if ws_reqError t \<noteq> [] then rs @ [ws_reqError t] else rs) succFlag (ws_reqError t)
                [(''response_time'', JInt responseTime)] (set_all (t_Tags t) tags) f2 [] of
           (tags', flds, message) \<Rightarrow>
             let m1 = (case (map_of flds ''fail_reason'', ws_resp t) of
                         (Some (JStr s), Some resp) \<Rightarrow> if s \<noteq> [] then AList.update ''response_header'' (r_Header resp) message else message
                       | _ \<Rightarrow> message)
             in (tags', put_message d m1 flds))"

subsection \<open>Running\<close>

definition Websocket_clear :: "WebsocketTask \<Rightarrow> WebsocketTask" where
  "Websocket_clear t = t\<lparr>ws_reqCost := 0, ws_reqDNSCost := 0, ws_reqError := [], ws_sslCertNotBefore := 0, ws_sslCertNotAfter := 0\<rparr>"

text \<open>\<open>wn_Dial\<close> gets the address, the URL and the headers; of the connection the validity of the first certificate, if it is encrypted.\<close>

record ws_net =
  wn_ParseIP :: "string \<Rightarrow> string option"
  wn_LookupIP :: "string \<Rightarrow> string + string list"
  wn_dnsCost :: int
  wn_Dial :: "string \<Rightarrow> parsed_url \<Rightarrow> (string \<times> string list) list \<Rightarrow> string + http_response"
  wn_cost :: int
  wn_certificate :: "(int \<times> int) option"
  wn_WriteMessage :: "string \<Rightarrow> string option"
  wn_ReadMessage :: "string + string"
  wn_base64 :: "string \<Rightarrow> string"

definition basicAuth :: "(string \<Rightarrow> string) \<Rightarrow> string \<Rightarrow> string \<Rightarrow> string" where
  "basicAuth base64 username password = base64 (username @ '':'' @ password)"

definition Websocket_getHeader :: "(string \<Rightarrow> string) \<Rightarrow> WebsocketTask \<Rightarrow> (string \<times> string list) list" where
  "Websocket_getHeader base64 t =
     (case ws_AdvanceOptions t of
        None \<Rightarrow> []
      | Some opt \<Rightarrow>
          (case wo_RequestOptions opt of
             None \<Rightarrow> []
           | Some ro \<Rightarrow>
               let header = set_all (map (\<lambda>(k, v). (k, [v])) (wr_Headers ro)) []
               in case wo_Auth opt of
                    Some a \<Rightarrow> if wa_Username a \<noteq> [] \<and> wa_Password a \<noteq> []
                              then AList.update ''Authorization'' [''Basic '' @ basicAuth base64 (wa_Username a) (wa_Password a)] header else header
                  | None \<Rightarrow> header))"

text \<open>\<open>Get\<close> gives the first value, and an empty text where there is none; \<open>Add\<close> appends one.\<close>

definition ws_host_header :: "string \<Rightarrow> (string \<times> string list) list \<Rightarrow> (string \<times> string list) list" where
  "ws_host_header hostname header =
     (let vs = (case map_of header ''Host'' of None \<Rightarrow> [] | Some vs \<Rightarrow> vs)
      in if (case vs of [] \<Rightarrow> [] | v # _ \<Rightarrow> v) = [] then AList.update ''Host'' (vs @ [hostname]) header else header)"

definition getMessage :: "ws_net \<Rightarrow> WebsocketTask \<Rightarrow> WebsocketTask" where
  "getMessage n t =
     (case wn_WriteMessage n (ws_Message t) of
        Some e \<Rightarrow> t\<lparr>ws_reqError := e\<rparr>
      | None \<Rightarrow> (case wn_ReadMessage n of Inl e \<Rightarrow> t\<lparr>ws_reqError := e\<rparr> | Inr m \<Rightarrow> t\<lparr>ws_responseMessage := m\<rparr>))"

text \<open>The target to dial: the host of the URL, or the first address of its name.\<close>

definition ws_resolve :: "ws_net \<Rightarrow> parsed_url \<Rightarrow> WebsocketTask \<Rightarrow> string option \<times> WebsocketTask" where
  "ws_resolve n u t =
     (case wn_ParseIP n (ws_hostname t) of
        Some ip \<Rightarrow> (Some (u_Host u), t)
      | None \<Rightarrow>
          (case wn_LookupIP n (ws_hostname t) of
             Inl e \<Rightarrow> (None, t\<lparr>ws_reqError := e\<rparr>)
           | Inr [] \<Rightarrow> (None, t\<lparr>ws_reqError := ''invalid host: '' @ ws_hostname t @ '', found no ip record''\<rparr>)
           | Inr (ip # ips) \<Rightarrow> (Some (JoinHostPort ip (snd (url_splitHostPort (u_Host u)))), t\<lparr>ws_reqDNSCost := wn_dnsCost n\<rparr>)))"

text \<open>A task that was not set up has no URL; \<open>None\<close> is the panic.\<close>

definition Websocket_run :: "ws_net \<Rightarrow> WebsocketTask \<Rightarrow> (string, WebsocketTask) step option" where
  "Websocket_run n t =
     (case ws_parsedURL t of
        None \<Rightarrow> None
      | Some u \<Rightarrow>
          (case ws_resolve n u t of
             (None, t1) \<Rightarrow> Some (okE t1)
           | (Some target, t1) \<Rightarrow>
               (case wn_Dial n target u (ws_host_header (ws_hostname t1) (Websocket_getHeader (wn_base64 n) t1)) of
                  Inl e \<Rightarrow> Some (okE (t1\<lparr>ws_reqError := e, ws_reqDNSCost := 0\<rparr>))
                | Inr resp \<Rightarrow>
                    let t2 = t1\<lparr>ws_reqCost := wn_cost n, ws_resp := Some resp\<rparr>;
                        t3 = (case (u_Scheme u = ''wss'', wn_certificate n) of
                                (True, Some (nb, na)) \<Rightarrow> t2\<lparr>ws_sslCertNotBefore := nb, ws_sslCertNotAfter := na\<rparr> | _ \<Rightarrow> t2)
                    in Some (okE (getMessage n t3)))))"

definition Websocket_setReqError :: "string \<Rightarrow> WebsocketTask \<Rightarrow> WebsocketTask" where
  "Websocket_setReqError e t = t\<lparr>ws_reqError := e\<rparr>"

subsection \<open>Templates\<close>

definition ws_render_checker :: "dlib \<Rightarrow> FuncMap \<Rightarrow> WebsocketSuccess \<Rightarrow> WebsocketSuccess \<Rightarrow> (string, WebsocketSuccess) step option" where
  "ws_render_checker d fm c dest =
     bindP (map_option (\<lambda>(r, xs). (r, dest\<lparr>wss_ResponseMessage := xs\<rparr>))
              (render_options d fm ''render success when'' (wss_ResponseMessage c) (wss_ResponseMessage dest))) (\<lambda>dest.
            map_option (\<lambda>(r, xs). (r, dest\<lparr>wss_Header := xs\<rparr>)) (render_headers d fm (wss_Header c) (wss_Header dest)))"

fun ws_renderSuccessWhen :: "dlib \<Rightarrow> FuncMap \<Rightarrow> WebsocketSuccess list \<Rightarrow> WebsocketSuccess list \<Rightarrow> (string, WebsocketSuccess list) step option" where
  "ws_renderSuccessWhen d fm [] dests = Some (okE dests)"
| "ws_renderSuccessWhen d fm (c # cs) [] = (if wss_ResponseMessage c = [] \<and> list_all (\<lambda>(k, vs). vs = []) (wss_Header c) then ws_renderSuccessWhen d fm cs [] else None)"
| "ws_renderSuccessWhen d fm (c # cs) (dest # dests) =
     (case ws_render_checker d fm c dest of
        None \<Rightarrow> None
      | Some (Some e, x) \<Rightarrow> Some (failE e (x # dests))
      | Some (None, x) \<Rightarrow> map_option (\<lambda>(r, ys). (r, x # ys)) (ws_renderSuccessWhen d fm cs dests))"

text \<open>The task and its raw task are made from the same JSON: where the raw task has options, the task has them.\<close>

definition ws_on_auth :: "(WebsocketOptAuth \<Rightarrow> WebsocketOptAuth) \<Rightarrow> WebsocketTask \<Rightarrow> WebsocketTask" where
  "ws_on_auth f t = t\<lparr>ws_AdvanceOptions := map_option (\<lambda>opt. opt\<lparr>wo_Auth := map_option f (wo_Auth opt)\<rparr>) (ws_AdvanceOptions t)\<rparr>"

definition ws_on_request :: "(WebsocketOptRequest \<Rightarrow> WebsocketOptRequest) \<Rightarrow> WebsocketTask \<Rightarrow> WebsocketTask" where
  "ws_on_request f t = t\<lparr>ws_AdvanceOptions := map_option (\<lambda>opt. opt\<lparr>wo_RequestOptions := map_option f (wo_RequestOptions opt)\<rparr>) (ws_AdvanceOptions t)\<rparr>"

definition ws_renderAuth :: "dlib \<Rightarrow> FuncMap \<Rightarrow> WebsocketOptAuth option \<Rightarrow> WebsocketTask \<Rightarrow> (string, WebsocketTask) step" where
  "ws_renderAuth d fm auth t =
     (case auth of
        None \<Rightarrow> okE t
      | Some a \<Rightarrow>
          bindE (render_into d fm ''render auth username'' (wa_Username a) (\<lambda>x. ws_on_auth (wa_Username_update (\<lambda>_. x))) t)
                (render_into d fm ''render auth password'' (wa_Password a) (\<lambda>x. ws_on_auth (wa_Password_update (\<lambda>_. x)))))"

fun ws_render_request_headers :: "dlib \<Rightarrow> FuncMap \<Rightarrow> tag_map \<Rightarrow> WebsocketTask \<Rightarrow> (string, WebsocketTask) step" where
  "ws_render_request_headers d fm [] t = okE t"
| "ws_render_request_headers d fm ((k, v) # hs) t =
     bindE (render_into d fm ''render header'' v (\<lambda>x. ws_on_request (wr_Headers_update (AList.update k x))) t) (ws_render_request_headers d fm hs)"

definition ws_renderRequestOptions :: "dlib \<Rightarrow> FuncMap \<Rightarrow> WebsocketOptRequest option \<Rightarrow> WebsocketTask \<Rightarrow> (string, WebsocketTask) step" where
  "ws_renderRequestOptions d fm opt t = (case opt of None \<Rightarrow> okE t | Some ro \<Rightarrow> ws_render_request_headers d fm (wr_Headers ro) t)"

definition ws_renderAdvanceOptions :: "dlib \<Rightarrow> FuncMap \<Rightarrow> WebsocketAdvanceOption option \<Rightarrow> WebsocketTask \<Rightarrow> (string, WebsocketTask) step" where
  "ws_renderAdvanceOptions d fm opt t =
     (case opt of
        None \<Rightarrow> okE t
      | Some o1 \<Rightarrow>
          bindE (wrapE (\<lambda>e. ''render request options failed: '' @ e) (ws_renderRequestOptions d fm (wo_RequestOptions o1) t))
                (\<lambda>t. wrapE (\<lambda>e. ''render auth failed: '' @ e) (ws_renderAuth d fm (wo_Auth o1) t)))"

definition Websocket_renderTemplate :: "dlib \<Rightarrow> (string \<Rightarrow> string + WebsocketRaw) \<Rightarrow> FuncMap \<Rightarrow> WebsocketTask \<Rightarrow> (string, WebsocketTask) step option" where
  "Websocket_renderTemplate d unmarshal fm t =
     (case raw_task unmarshal (taskJSONString t) (ws_rawTask t) of
        Inl e \<Rightarrow> Some (failE e t)
      | Inr task \<Rightarrow>
          bindP (Some (render_into d fm ''render url'' (raw_ws_URL task) (\<lambda>x. ws_URL_update (\<lambda>_. x)) (t\<lparr>ws_rawTask := Some task\<rparr>))) (\<lambda>t.
          bindP (Some (render_into d fm ''render message'' (raw_ws_Message task) (\<lambda>x. ws_Message_update (\<lambda>_. x)) t)) (\<lambda>t.
          bindP (map_option (\<lambda>(r, cs). (map_option (\<lambda>e. ''render success when failed: '' @ e) r, t\<lparr>ws_SuccessWhen := cs\<rparr>))
                   (ws_renderSuccessWhen d fm (raw_ws_SuccessWhen task) (ws_SuccessWhen t))) (\<lambda>t.
                 Some (wrapE (\<lambda>e. ''render advance options failed: '' @ e) (ws_renderAdvanceOptions d fm (raw_ws_AdvanceOptions task) t))))))"

definition websocket_ops :: "dlib \<Rightarrow> (string \<Rightarrow> string + parsed_url) \<Rightarrow> int \<Rightarrow> (string \<Rightarrow> string + WebsocketRaw) \<Rightarrow> (string \<Rightarrow> string + string) \<Rightarrow> ws_net \<Rightarrow>
    WebsocketTask child_ops" where
  "websocket_ops d parse now_us unmarshal rawjson n =
     \<lparr>o_class = ''WEBSOCKET'', o_metricName = ''websocket_dial_testing'', o_clear = Websocket_clear, o_check = Websocket_check,
      o_init = Websocket_init d parse, o_run = Websocket_run n, o_renderTemplate = Websocket_renderTemplate d unmarshal,
      o_setReqError = Websocket_setReqError, o_checkResult = Websocket_checkResult d, o_getResults = Websocket_getResults d now_us,
      o_getRawTask = rawjson, o_getHostName = (\<lambda>t. map_sum (\<lambda>e. ''parse host error: '' @ e) (\<lambda>u. [fst (url_splitHostPort (u_Host u))]) (parse (ws_URL t))),
      o_stop = (\<lambda>t. t)\<rparr>"

end
