(* ===== verification/Dial_Http.thy ===== *)
theory Dial_Http
  imports Dial_Task
begin

section \<open>Dial testing: HTTP (dialtesting/http.go, http\_script.go)\<close>

text \<open>
  What the HTTP client and the pipeline language do in a run is a record.  The request body a task remembers is either its own empty one or the one of its
  options, which is shared: \<open>body_ref\<close> says which.  The client is what \<open>init\<close> configures of it.
\<close>

record ScriptResult =
  sr_IsFailed :: bool
  sr_ErrorMessage :: string
  sr_Vars :: "(string \<times> jval) list"

record HTTPSuccess =
  hs_Body :: "SuccessOption list"
  hs_ResponseTime :: string
  hs_respTime :: int
  hs_Header :: "(string \<times> SuccessOption list) list"
  hs_StatusCode :: "SuccessOption list"

record HTTPOptAuth =
  ha_Username :: string
  ha_Password :: string

record HTTPOptRequest =
  hq_FollowRedirect :: bool
  hq_Headers :: tag_map
  hq_Cookies :: string
  hq_Auth :: "HTTPOptAuth option"

record HTTPOptBodyFile =
  hf_Name :: string
  hf_Content :: string
  hf_Encoding :: string
  hf_OriginalFileName :: string

record HTTPOptBody =
  hb_BodyType :: string
  hb_Body :: string
  hb_Files :: "HTTPOptBodyFile list"
  hb_Form :: tag_map
  hb_bodyType :: string

record HTTPOptCertificate =
  hc_IgnoreServerCertificateError :: bool
  hc_PrivateKey :: string
  hc_Certificate :: string
  hc_CaCert :: string

record HTTPOptProxy =
  hp_URL :: string
  hp_Headers :: tag_map

record HTTPAdvanceOption =
  ho_RequestOptions :: "HTTPOptRequest option"
  ho_RequestBody :: "HTTPOptBody option"
  ho_Certificate :: "HTTPOptCertificate option"
  ho_Proxy :: "HTTPOptProxy option"
  ho_NoSaveResponseBody :: "bool option"
  ho_RequestTimeout :: string
  ho_Protocol :: string

datatype body_ref = NoBody | OwnBody | OptBody

datatype transport = HTTP3Transport | HTTP2Transport_plain | HTTP2Transport_tls | HTTPTransport bool

record http_client =
  cli_Timeout :: int
  cli_Transport :: transport
  cli_followRedirect :: bool
  cli_Proxy :: "string option"

record HTTPRaw =
  raw_http_URL :: string
  raw_http_SuccessWhen :: "HTTPSuccess list"
  raw_http_AdvanceOptions :: "HTTPAdvanceOption option"

record HTTPTask = Task +
  http_URL :: string
  http_Method :: string
  http_PostScript :: string
  http_SuccessWhenLogic :: string
  http_SuccessWhen :: "HTTPSuccess list"
  http_AdvanceOptions :: "HTTPAdvanceOption option"
  http_cli :: "http_client option"
  http_resp :: "http_response option"
  http_hasReq :: bool
  http_reqHeader :: tag_map
  http_reqBody :: body_ref
  http_respBody :: string
  http_reqCost :: int
  http_reqError :: string
  http_postScriptResult :: "ScriptResult option"
  http_reqBodyBytesBuffer :: "string option"
  http_dnsParseTime :: f64
  http_connectionTime :: f64
  http_sslTime :: f64
  http_ttfbTime :: f64
  http_downloadTime :: f64
  http_destIP :: string
  http_rawTask :: "HTTPRaw option"
  http_sslCertNotBefore :: int
  http_sslCertNotAfter :: int
  http_protocol :: string
  http_httpTimeout :: int

abbreviation ProtocolAuto :: string where "ProtocolAuto \<equiv> ''auto''"
abbreviation ProtocolHTTP11 :: string where "ProtocolHTTP11 \<equiv> ''http/1.1''"
abbreviation ProtocolHTTP2 :: string where "ProtocolHTTP2 \<equiv> ''http/2''"
abbreviation ProtocolHTTP2Only :: string where "ProtocolHTTP2Only \<equiv> ''http/2-only''"
abbreviation ProtocolHTTP3 :: string where "ProtocolHTTP3 \<equiv> ''http/3''"

definition MaxBodySize :: nat where "MaxBodySize = 10240"
definition DefaultHTTPTimeout :: int where "DefaultHTTPTimeout = 60000000000"

definition getProtocol :: "dlib \<Rightarrow> HTTPAdvanceOption option \<Rightarrow> string" where
  "getProtocol d opt =
     (case opt of
        None \<Rightarrow> ProtocolAuto
      | Some o1 \<Rightarrow>
          (let p = strings_ToLower (d_lower d) (ho_Protocol o1)
           in if p \<in> {''http/1.1'', ''http1.1'', ''1.1'', ''http/1.1 only''} then ProtocolHTTP11
              else if p \<in> {''http/2'', ''http2'', ''2'', ''http/2 fallback'', ''http/2 fallback to http/1.1''} then ProtocolHTTP2
              else if p \<in> {''http/2-only'', ''http/2 only'', ''http2-only''} then ProtocolHTTP2Only
              else if p \<in> {''http/3'', ''http3'', ''3''} then ProtocolHTTP3
              else ProtocolAuto))"

definition on_request_body :: "(HTTPOptBody \<Rightarrow> HTTPOptBody) \<Rightarrow> HTTPTask \<Rightarrow> HTTPTask" where
  "on_request_body f t =
     t\<lparr>http_AdvanceOptions := map_option (\<lambda>o1. o1\<lparr>ho_RequestBody := map_option f (ho_RequestBody o1)\<rparr>) (http_AdvanceOptions t)\<rparr>"

definition request_body :: "HTTPTask \<Rightarrow> HTTPOptBody option" where
  "request_body t = (case http_AdvanceOptions t of None \<Rightarrow> None | Some o1 \<Rightarrow> ho_RequestBody o1)"

definition HTTP_clear :: "HTTPTask \<Rightarrow> HTTPTask" where
  "HTTP_clear t =
     (let t1 = t\<lparr>http_dnsParseTime := FFin 0, http_connectionTime := FFin 0, http_sslTime := FFin 0, http_downloadTime := FFin 0,
                 http_ttfbTime := FFin 0, http_reqCost := 0, http_resp := None, http_respBody := [], http_reqError := [],
                 http_reqBodyBytesBuffer := None, http_sslCertNotBefore := 0, http_sslCertNotAfter := 0, http_destIP := []\<rparr>
      in if http_reqBody t1 = OptBody then on_request_body (\<lambda>b. b\<lparr>hb_bodyType := hb_BodyType b\<rparr>) t1 else t1)"

subsection \<open>Judging\<close>

definition http_conds :: "dlib \<Rightarrow> HTTPTask \<Rightarrow> http_response \<Rightarrow> HTTPSuccess \<Rightarrow> cond list" where
  "http_conds d t resp chk =
     header_conds d ''HTTP'' resp (hs_Header chk) @
     map (\<lambda>v. of_check (SuccessOption_check d v (http_respBody t) ''response body'')) (hs_Body chk) @
     map (\<lambda>v. of_check (SuccessOption_check d v (fmt_d (r_StatusCode resp)) ''HTTP status'')) (hs_StatusCode chk) @
     [if http_reqCost t > hs_respTime chk \<and> hs_respTime chk > 0
      then Fails (''HTTP response time('' @ d_fmt_dur d (http_reqCost t) @ '') larger than '' @ d_fmt_dur d (hs_respTime chk))
      else if hs_respTime chk > 0 then Holds else Silent]"

definition script_cond :: "HTTPTask \<Rightarrow> cond list" where
  "script_cond t =
     (case http_postScriptResult t of None \<Rightarrow> [] | Some r \<Rightarrow> if sr_IsFailed r then [Fails (sr_ErrorMessage r)] else [Holds])"

definition HTTP_checkResult :: "dlib \<Rightarrow> HTTPTask \<Rightarrow> string list \<times> bool" where
  "HTTP_checkResult d t =
     (case http_resp t of
        None \<Rightarrow> ([], True)
      | Some resp \<Rightarrow> judge (concat (map (http_conds d t resp) (http_SuccessWhen t)) @ script_cond t))"

text \<open>\<open>body_json\<close> is the JSON of the request body, \<open>now\<close> is in microseconds.\<close>

definition HTTP_getResults :: "dlib \<Rightarrow> (HTTPTask \<Rightarrow> jval) \<Rightarrow> int \<Rightarrow> HTTPTask \<Rightarrow> tag_map \<times> field_map" where
  "HTTP_getResults d body_json now_us t =
     (let tags = [(''name'', t_Name t), (''url'', case http_rawTask t of Some r \<Rightarrow> raw_http_URL r | None \<Rightarrow> http_URL t), (''status'', ''FAIL''),
                  (''method'', http_Method t), (''dest_ip'', http_destIP t)] @
                 (case http_resp t of Some r \<Rightarrow> [(''proto'', r_Proto r)] | None \<Rightarrow> if http_hasReq t then [(''proto'', ''HTTP/1.1'')] else []) @
                 (case http_resp t of
                    Some r \<Rightarrow> [(''status_code_string'', r_Status r), (''status_code_class'', fmt_d (go_quot (r_StatusCode r) 100) @ ''xx'')] | None \<Rightarrow> []);
          f1 = [(''response_time'', JInt (go_quot (http_reqCost t) 1000)), (''response_body_size'', JInt (int (length (http_respBody t)))), (''success'', JInt (-1))] @
               (case http_resp t of Some r \<Rightarrow> [(''status_code'', JInt (r_StatusCode r))] | None \<Rightarrow> []);
          m0 = [(''request_body'', body_json t), (''request_header'', JMap (map (\<lambda>(k, v). (k, JStr v)) (http_reqHeader t)))]
      in case HTTP_checkResult d t of (rs, succFlag) \<Rightarrow>
         case conclude (http_SuccessWhenLogic t) (if http_reqError t \<noteq> [] then rs @ [http_reqError t] else rs) succFlag (http_reqError t)
                [] (set_all (t_Tags t) tags) f1 m0 of
           (tags', flds, message) \<Rightarrow>
             let notSave = (case http_AdvanceOptions t of None \<Rightarrow> False | Some o1 \<Rightarrow> ho_NoSaveResponseBody o1 = Some True);
                 m1 = (case (map_of flds ''fail_reason'', http_resp t) of
                         (Some (JStr s), Some resp) \<Rightarrow>
                           if \<not> notSave \<and> s \<noteq> []
                           then AList.update ''response_body''
                                  (JStr (if length (http_respBody t) > MaxBodySize then take MaxBodySize (http_respBody t) @ ''...'' else http_respBody t))
                                  (AList.update ''response_header'' (r_Header resp) message)
                           else message
                       | _ \<Rightarrow> message);
                 f2 = set_all [(''response_dns'', JFloat (http_dnsParseTime t)), (''response_connection'', JFloat (http_connectionTime t)),
                               (''response_ssl'', JFloat (http_sslTime t)), (''response_ttfb'', JFloat (http_ttfbTime t)),
                               (''response_download'', JFloat (http_downloadTime t))] flds;
                 f3 = (if http_sslCertNotAfter t > 0
                       then set_all [(''ssl_cert_not_after'', JInt (http_sslCertNotAfter t)),
                                     (''ssl_cert_expires_in_days'', JInt (go_quot (to_i64 (http_sslCertNotAfter t - now_us)) 86400000000))] f2
                       else f2)
             in (tags', put_message d (AList.update ''status'' (JStr (the (map_of tags' ''status''))) m1) f3))"

subsection \<open>Requests\<close>

record http_request =
  q_Method :: string
  q_URL :: string
  q_Host :: "string option"
  q_Header :: tag_map
  q_BasicAuth :: "(string \<times> string) option"
  q_Body :: "string option"

text \<open>\<open>write\<close> writes form fields and decoded files as a multipart body and gives its content type; writing to a buffer does not fail.\<close>

record http_net =
  hn_Parse :: "string \<Rightarrow> string + parsed_url \<times> string"
  hn_base64 :: "string \<Rightarrow> string + string"
  hn_multipart :: "tag_map \<Rightarrow> (string \<times> string \<times> string) list \<Rightarrow> string \<times> string"
  hn_NewRequest :: "string \<Rightarrow> string \<Rightarrow> string option"
  hn_Do :: "http_client option \<Rightarrow> http_request \<Rightarrow> string option \<times> http_response option"
  hn_ReadAll :: "string option \<times> string"
  hn_cost :: int
  hn_dnsTime :: "f64 option"
  hn_connectTime :: "(f64 \<times> string) option"
  hn_sslTime :: "f64 option"
  hn_certificate :: "(int \<times> int) option"
  hn_ttfb :: "f64 option"
  hn_ttfb_http3 :: f64
  hn_certificate_http3 :: "(int \<times> int) option"
  hn_download :: f64
  hn_runPipeline :: "string \<Rightarrow> http_response \<Rightarrow> string \<Rightarrow> string + ScriptResult"
  hn_X509KeyPair :: "string \<Rightarrow> string \<Rightarrow> string option"

fun decode_files :: "http_net \<Rightarrow> HTTPOptBodyFile list \<Rightarrow> string + (string \<times> string \<times> string) list" where
  "decode_files n [] = Inr []"
| "decode_files n (v # vs) =
     (if hf_Encoding v \<noteq> ''base64'' then Inl ''only base64 encoding is supported for file encoding''
      else case hn_base64 n (hf_Content v) of
             Inl e \<Rightarrow> Inl (''failed to decode base64 file content: '' @ e)
           | Inr b \<Rightarrow> map_sum id (\<lambda>r. (hf_Name v, hf_OriginalFileName v, b) # r) (decode_files n vs))"

definition getRequestBody :: "http_net \<Rightarrow> HTTPTask \<Rightarrow> (string + string option) \<times> HTTPTask" where
  "getRequestBody n t =
     (case request_body t of
        None \<Rightarrow> (Inr None, t)
      | Some rb \<Rightarrow>
          (case http_reqBodyBytesBuffer t of
             Some b \<Rightarrow> (Inr (Some b), t)
           | None \<Rightarrow>
               if hb_BodyType rb = ''multipart/form-data''
               then (case decode_files n (hb_Files rb) of
                       Inl e \<Rightarrow> (Inl e, t)
                     | Inr files \<Rightarrow>
                         (case hn_multipart n (hb_Form rb) files of (ct, buf) \<Rightarrow>
                            (Inr (Some buf), (on_request_body (\<lambda>b. b\<lparr>hb_bodyType := ct\<rparr>) t)\<lparr>http_reqBodyBytesBuffer := Some buf\<rparr>)))
               else (Inr (Some (hb_Body rb)), t\<lparr>http_reqBodyBytesBuffer := Some (hb_Body rb)\<rparr>)))"

definition HTTP_check :: "HTTPTask \<Rightarrow> string option" where
  "HTTP_check t =
     (if http_reqBody t = OptBody \<and> (\<exists>f \<in> set (case request_body t of None \<Rightarrow> [] | Some b \<Rightarrow> hb_Files b). hf_Encoding f \<noteq> ''base64'')
      then Some ''only base64 encoding is supported for file encoding'' else None)"

definition add_headers :: "tag_map \<Rightarrow> http_request \<Rightarrow> http_request" where
  "add_headers hs req = req\<lparr>q_Header := q_Header req @ hs\<rparr>"

definition request_options :: "HTTPOptRequest \<Rightarrow> HTTPTask \<times> http_request \<Rightarrow> HTTPTask \<times> http_request" where
  "request_options ro s =
     (case s of (t, req) \<Rightarrow>
        let r1 = fold (\<lambda>(k, v) req. if k = ''Host'' \<or> k = ''host'' then req\<lparr>q_Host := Some v\<rparr> else add_headers [(k, v)] req) (hq_Headers ro) req;
            r2 = (if hq_Cookies ro \<noteq> [] then add_headers [(''Cookie'', hq_Cookies ro)] r1 else r1);
            r3 = (case hq_Auth ro of
                    Some a \<Rightarrow> if ha_Username a = [] \<and> ha_Password a = [] then r2 else r2\<lparr>q_BasicAuth := Some (ha_Username a, ha_Password a)\<rparr>
                  | None \<Rightarrow> r2)
        in (t\<lparr>http_reqHeader := set_all (hq_Headers ro) (http_reqHeader t)\<rparr>, r3))"

definition setupAdvanceOpts :: "HTTPTask \<Rightarrow> http_request \<Rightarrow> HTTPTask \<times> http_request" where
  "setupAdvanceOpts t req =
     (let t0 = t\<lparr>http_reqBody := OwnBody, http_reqHeader := []\<rparr> in
      case http_AdvanceOptions t0 of
        None \<Rightarrow> (t0, req)
      | Some opt \<Rightarrow>
          (case (case ho_RequestOptions opt of None \<Rightarrow> (t0, req) | Some ro \<Rightarrow> request_options ro (t0, req)) of (t1, r1) \<Rightarrow>
             let (t2, r2) =
                  (case ho_RequestBody opt of
                     None \<Rightarrow> (t1, r1)
                   | Some rb \<Rightarrow>
                       if hb_BodyType rb \<noteq> []
                       then (t1\<lparr>http_reqHeader := AList.update ''Content-Type'' (hb_BodyType rb) (http_reqHeader t1), http_reqBody := OptBody\<rparr>,
                             add_headers [(''Content-Type'', hb_bodyType rb)] r1)
                       else (t1\<lparr>http_reqBody := OptBody\<rparr>, r1))
             in (t2, case ho_Proxy opt of None \<Rightarrow> r2 | Some p \<Rightarrow> add_headers (hp_Headers p) r2)))"

subsection \<open>Running\<close>

definition postScriptDo :: "http_net \<Rightarrow> string \<Rightarrow> string \<Rightarrow> http_response option \<Rightarrow> string + ScriptResult" where
  "postScriptDo n script body resp =
     (case resp of
        None \<Rightarrow> Inr \<lparr>sr_IsFailed = False, sr_ErrorMessage = [], sr_Vars = []\<rparr>
      | Some r \<Rightarrow>
          if script = [] then Inr \<lparr>sr_IsFailed = False, sr_ErrorMessage = [], sr_Vars = []\<rparr>
          else map_sum (\<lambda>e. ''run pipeline failed: '' @ e) id (hn_runPipeline n script r body))"

text \<open>What the trace of the client records.\<close>

definition http_trace :: "http_net \<Rightarrow> HTTPTask \<Rightarrow> HTTPTask" where
  "http_trace n t =
     (let t1 = (case hn_dnsTime n of Some x \<Rightarrow> t\<lparr>http_dnsParseTime := x\<rparr> | None \<Rightarrow> t);
          t2 = (case hn_connectTime n of Some (x, ip) \<Rightarrow> t1\<lparr>http_connectionTime := x, http_destIP := ip\<rparr> | None \<Rightarrow> t1);
          t3 = (case hn_sslTime n of Some x \<Rightarrow> t2\<lparr>http_sslTime := x\<rparr> | None \<Rightarrow> t2);
          t4 = (case hn_certificate n of Some (nb, na) \<Rightarrow> t3\<lparr>http_sslCertNotBefore := nb, http_sslCertNotAfter := na\<rparr> | None \<Rightarrow> t3)
      in case hn_ttfb n of Some x \<Rightarrow> t4\<lparr>http_ttfbTime := x\<rparr> | None \<Rightarrow> t4)"

definition http3_trace :: "http_net \<Rightarrow> HTTPTask \<Rightarrow> HTTPTask" where
  "http3_trace n t =
     (if http_protocol t = ProtocolHTTP3 \<and> http_resp t \<noteq> None
      then let t1 = (if hn_ttfb n = None then t\<lparr>http_ttfbTime := hn_ttfb_http3 n\<rparr> else t)
           in case hn_certificate_http3 n of
                Some (nb, na) \<Rightarrow> if http_sslCertNotAfter t1 = 0 then t1\<lparr>http_sslCertNotBefore := nb, http_sslCertNotAfter := na\<rparr> else t1
              | None \<Rightarrow> t1
      else t)"

text \<open>What follows the answer of the client: reading the body and the script.\<close>

definition http_finish :: "http_net \<Rightarrow> string option \<Rightarrow> HTTPTask \<Rightarrow> HTTPTask" where
  "http_finish n err t =
     (case (err, http_resp t) of
        (Some e, _) \<Rightarrow> t\<lparr>http_reqError := e\<rparr>
      | (None, None) \<Rightarrow> t
      | (None, Some resp) \<Rightarrow>
          if http_protocol t = ProtocolHTTP2Only \<and> r_Proto resp \<noteq> ''HTTP/2.0''
          then t\<lparr>http_reqError := ''expected HTTP/2, but got '' @ r_Proto resp\<rparr>
          else let t1 = t\<lparr>http_respBody := snd (hn_ReadAll n), http_reqCost := hn_cost n\<rparr>
               in case fst (hn_ReadAll n) of
                    Some e \<Rightarrow> t1\<lparr>http_reqError := e\<rparr>
                  | None \<Rightarrow>
                      if http_PostScript t1 = [] then t1\<lparr>http_downloadTime := hn_download n\<rparr>
                      else case postScriptDo n (http_PostScript t1) (http_respBody t1) (http_resp t1) of
                             Inl e \<Rightarrow> t1\<lparr>http_reqError := e\<rparr>
                           | Inr r \<Rightarrow> t1\<lparr>http_postScriptResult := Some r, http_downloadTime := hn_download n\<rparr>)"

definition HTTP_run :: "http_net \<Rightarrow> HTTPTask \<Rightarrow> (string, HTTPTask) step" where
  "HTTP_run n t =
     (case hn_Parse n (http_URL t) of
        Inl e \<Rightarrow> okE (t\<lparr>http_reqError := e\<rparr>)
      | Inr (u, url) \<Rightarrow>
          (case getRequestBody n t of
             (Inl e, t1) \<Rightarrow> okE (t1\<lparr>http_reqError := e\<rparr>)
           | (Inr body, t1) \<Rightarrow>
               (case hn_NewRequest n (http_Method t1) url of
                  Some e \<Rightarrow> okE (t1\<lparr>http_hasReq := False, http_reqError := e\<rparr>)
                | None \<Rightarrow>
                    (case setupAdvanceOpts (t1\<lparr>http_hasReq := True\<rparr>)
                            \<lparr>q_Method = http_Method t1, q_URL = url, q_Host = None, q_Header = [], q_BasicAuth = None, q_Body = body\<rparr> of
                       (t2, r2) \<Rightarrow>
                         let r3 = (if http_protocol t2 \<noteq> ProtocolHTTP2Only \<and> http_protocol t2 \<noteq> ProtocolHTTP3
                                   then add_headers [(''Connection'', ''close'')] r2 else r2)
                         in case GetOption t2 of (opt, t3) \<Rightarrow>
                              let r4 = (case map_of opt ''userAgent'' of Some a \<Rightarrow> add_headers [(''User-Agent'', a)] r3 | None \<Rightarrow> r3)
                              in case hn_Do n (http_cli t3) r4 of
                                   (err, resp) \<Rightarrow> okE (http_finish n err (http3_trace n ((http_trace n t3)\<lparr>http_resp := resp\<rparr>)))))))"

subsection \<open>Setting up\<close>

text \<open>\<open>url.Parse\<close> gives schemes in lower case.\<close>

definition isPlainHTTP :: "http_net \<Rightarrow> string \<Rightarrow> bool" where
  "isPlainHTTP n rawURL = (case hn_Parse n rawURL of Inl e \<Rightarrow> False | Inr (u, s) \<Rightarrow> u_Scheme u = ''http'')"

definition http_transport :: "http_net \<Rightarrow> string \<Rightarrow> string \<Rightarrow> transport" where
  "http_transport n protocol url =
     (if protocol = ProtocolHTTP3 then HTTP3Transport
      else if protocol = ProtocolHTTP2Only then if isPlainHTTP n url then HTTP2Transport_plain else HTTP2Transport_tls
      else HTTPTransport (protocol \<noteq> ProtocolHTTP11))"

definition valid_body_type :: "string \<Rightarrow> bool" where
  "valid_body_type b \<longleftrightarrow>
     b \<in> {''text/plain'', ''application/json'', ''text/xml'', ''application/x-www-form-urlencoded'', ''text/html'', ''multipart/form-data'', [], ''None''}"

definition http_init_timeout :: "dlib \<Rightarrow> http_net \<Rightarrow> HTTPAdvanceOption option \<Rightarrow> string + int" where
  "http_init_timeout d n opt =
     (case opt of
        None \<Rightarrow> Inr DefaultHTTPTimeout
      | Some o1 \<Rightarrow>
          (case (if ho_RequestTimeout o1 \<noteq> [] then d_ParseDuration d (ho_RequestTimeout o1) else Inr DefaultHTTPTimeout) of
             Inl e \<Rightarrow> Inl e
           | Inr du \<Rightarrow>
               (case ho_Certificate o1 of
                  None \<Rightarrow> Inr du
                | Some c \<Rightarrow>
                    if hc_IgnoreServerCertificateError c \<or> hc_CaCert c = [] then Inr du
                    else case hn_X509KeyPair n (hc_Certificate c) (hc_PrivateKey c) of Some e \<Rightarrow> Inl e | None \<Rightarrow> Inr du)))"

definition http_init_options :: "http_net \<Rightarrow> HTTPTask \<Rightarrow> (string, HTTPTask) step" where
  "http_init_options n t =
     (case http_AdvanceOptions t of
        None \<Rightarrow> okE t
      | Some opt \<Rightarrow>
          let t1 = (case ho_RequestOptions opt of
                      Some ro \<Rightarrow> if \<not> hq_FollowRedirect ro then t\<lparr>http_cli := map_option (\<lambda>c. c\<lparr>cli_followRedirect := False\<rparr>) (http_cli t)\<rparr> else t
                    | None \<Rightarrow> t)
          in bindE (case ho_RequestBody opt of
                      None \<Rightarrow> okE t1
                    | Some rb \<Rightarrow>
                        if \<not> valid_body_type (hb_BodyType rb) then failE (''invalid body type: `'' @ hb_BodyType rb @ [CHR 0x27]) t1
                        else okE (on_request_body (\<lambda>b. b\<lparr>hb_bodyType := hb_BodyType b\<rparr>) t1))
               (\<lambda>t2. case ho_Proxy opt of
                        None \<Rightarrow> okE t2
                      | Some p \<Rightarrow>
                          if http_protocol t2 = ProtocolHTTP3 then failE ''HTTP/3 does not support proxy configuration'' t2
                          else case hn_Parse n (hp_URL p) of
                                 Inl e \<Rightarrow> failE e t2
                               | Inr (u, s) \<Rightarrow>
                                   okE (t2\<lparr>http_cli := map_option (\<lambda>c. if cli_Transport c = HTTP2Transport_plain then c else c\<lparr>cli_Proxy := Some s\<rparr>) (http_cli t2)\<rparr>)))"

definition http_init_checker :: "dlib \<Rightarrow> HTTPSuccess \<Rightarrow> (string, HTTPSuccess) step" where
  "http_init_checker d chk =
     bindE (if hs_ResponseTime chk \<noteq> []
            then (case d_ParseDuration d (hs_ResponseTime chk) of Inl e \<Rightarrow> failE e chk | Inr du \<Rightarrow> okE (chk\<lparr>hs_respTime := du\<rparr>))
            else okE chk) (\<lambda>chk.
     bindE (case gen_headers d (hs_Header chk) of (r, xs) \<Rightarrow> (r, chk\<lparr>hs_Header := xs\<rparr>)) (\<lambda>chk.
     bindE (case each (genReg d) (hs_Body chk) of (r, xs) \<Rightarrow> (r, chk\<lparr>hs_Body := xs\<rparr>)) (\<lambda>chk.
            case each (genReg d) (hs_StatusCode chk) of (r, xs) \<Rightarrow> (r, chk\<lparr>hs_StatusCode := xs\<rparr>))))"

definition HTTP_init :: "dlib \<Rightarrow> http_net \<Rightarrow> HTTPTask \<Rightarrow> (string, HTTPTask) step" where
  "HTTP_init d n t =
     (case http_init_timeout d n (http_AdvanceOptions t) of
        Inl e \<Rightarrow> failE e t
      | Inr timeout \<Rightarrow>
          let protocol = getProtocol d (http_AdvanceOptions t);
              cli = \<lparr>cli_Timeout = timeout, cli_Transport = http_transport n protocol (http_URL t), cli_followRedirect = True, cli_Proxy = None\<rparr>
          in bindE (http_init_options n (t\<lparr>http_protocol := protocol, http_httpTimeout := timeout, http_cli := Some cli\<rparr>))
               (\<lambda>t1. if http_SuccessWhen t1 = [] \<and> http_PostScript t1 = [] then failE ''no any check rule'' t1
                      else case each (http_init_checker d) (http_SuccessWhen t1) of (r, cs) \<Rightarrow> (r, t1\<lparr>http_SuccessWhen := cs\<rparr>)))"

text \<open>Addresses of version 4 first.\<close>

definition preferIPv4 :: "('ip \<Rightarrow> bool) \<Rightarrow> 'ip list \<Rightarrow> 'ip list" where
  "preferIPv4 To4 ips = (if length ips \<le> 1 then ips else filter To4 ips @ filter (\<lambda>ip. \<not> To4 ip) ips)"

text \<open>Of the configuration of QUIC the timeout for idle handshakes.\<close>

definition limitHTTP3HandshakeTimeout :: "int option \<Rightarrow> int \<Rightarrow> int" where
  "limitHTTP3HandshakeTimeout cfg httpTimeout =
     (let idle = (case cfg of None \<Rightarrow> 0 | Some x \<Rightarrow> x);
          short = httpTimeout > 0 \<and> httpTimeout < 5000000000;
          handshakeTimeout = (if short then httpTimeout else 5000000000)
      in if \<not> short \<and> idle = 0 then idle else if idle > handshakeTimeout then handshakeTimeout else idle)"

text \<open>The value of a variable, from the script of the variable or, where it has none, from that of the task.\<close>

definition HTTP_getVariableValue :: "dlib \<Rightarrow> http_net \<Rightarrow> Variable \<Rightarrow> HTTPTask \<Rightarrow> string + string" where
  "HTTP_getVariableValue d n variable t =
     (if var_PostScript variable = [] \<and> http_PostScript t = [] then Inl ''post_script is empty''
      else if var_TaskVarName variable = [] then Inl ''task variable name is empty''
      else if http_resp t = None then Inl ''response body or response is empty''
      else case (if var_PostScript variable = [] then Inr (http_postScriptResult t)
                 else map_sum (\<lambda>e. ''run pipeline failed: '' @ e) Some (postScriptDo n (var_PostScript variable) (http_respBody t) (http_resp t))) of
             Inl e \<Rightarrow> Inl e
           | Inr None \<Rightarrow> Inl ''pipeline result is empty''
           | Inr (Some r) \<Rightarrow>
               (case map_of (sr_Vars r) (var_TaskVarName variable) of
                  None \<Rightarrow> Inl ''task variable name not found''
                | Some v \<Rightarrow> Inr (d_fmt_any d v)))"

definition HTTP_setReqError :: "string \<Rightarrow> HTTPTask \<Rightarrow> HTTPTask" where
  "HTTP_setReqError e t = t\<lparr>http_reqError := e\<rparr>"

subsection \<open>Templates\<close>

text \<open>The task and its raw task are made from the same JSON: where the raw task has options, the task has them.\<close>

definition on_request_options :: "(HTTPOptRequest \<Rightarrow> HTTPOptRequest) \<Rightarrow> HTTPTask \<Rightarrow> HTTPTask" where
  "on_request_options f t =
     t\<lparr>http_AdvanceOptions := map_option (\<lambda>o1. o1\<lparr>ho_RequestOptions := map_option f (ho_RequestOptions o1)\<rparr>) (http_AdvanceOptions t)\<rparr>"

text \<open>Names and values of form fields are rendered; the field of the old name goes.\<close>

fun render_form :: "dlib \<Rightarrow> FuncMap \<Rightarrow> tag_map \<Rightarrow> HTTPTask \<Rightarrow> (string, HTTPTask) step" where
  "render_form d fm [] t = okE t"
| "render_form d fm ((k, v) # kvs) t =
     (case GetParsedString d fm k of
        Inl e \<Rightarrow> failE (''render form failed: '' @ e) t
      | Inr key \<Rightarrow>
          (case GetParsedString d fm v of
             Inl e \<Rightarrow> failE (''render form failed: '' @ e) t
           | Inr val \<Rightarrow> render_form d fm kvs (on_request_body (\<lambda>b. b\<lparr>hb_Form := AList.update key val (AList.delete k (hb_Form b))\<rparr>) t)))"

definition renderRequestBody :: "dlib \<Rightarrow> FuncMap \<Rightarrow> HTTPOptBody option \<Rightarrow> HTTPTask \<Rightarrow> (string, HTTPTask) step" where
  "renderRequestBody d fm rb t =
     (case rb of
        None \<Rightarrow> okE t
      | Some b \<Rightarrow>
          bindE (render_into d fm ''render request body'' (hb_Body b) (\<lambda>x. on_request_body (hb_Body_update (\<lambda>_. x))) t) (render_form d fm (hb_Form b)))"

fun render_request_headers :: "dlib \<Rightarrow> FuncMap \<Rightarrow> tag_map \<Rightarrow> HTTPTask \<Rightarrow> (string, HTTPTask) step" where
  "render_request_headers d fm [] t = okE t"
| "render_request_headers d fm ((k, v) # hs) t =
     bindE (render_into d fm ''render header'' v (\<lambda>x. on_request_options (hq_Headers_update (AList.update k x))) t) (render_request_headers d fm hs)"

definition renderRequestOptions :: "dlib \<Rightarrow> FuncMap \<Rightarrow> HTTPOptRequest option \<Rightarrow> HTTPTask \<Rightarrow> (string, HTTPTask) step" where
  "renderRequestOptions d fm opt t =
     (case opt of
        None \<Rightarrow> okE t
      | Some ro \<Rightarrow>
          bindE (render_request_headers d fm (hq_Headers ro) t) (\<lambda>t.
          bindE (render_into d fm ''render cookies'' (hq_Cookies ro) (\<lambda>x. on_request_options (hq_Cookies_update (\<lambda>_. x))) t) (\<lambda>t.
            case hq_Auth ro of
              None \<Rightarrow> okE t
            | Some a \<Rightarrow>
                bindE (render_into d fm ''render auth username'' (ha_Username a)
                         (\<lambda>x. on_request_options (hq_Auth_update (map_option (ha_Username_update (\<lambda>_. x))))) t)
                      (render_into d fm ''render auth password'' (ha_Password a)
                         (\<lambda>x. on_request_options (hq_Auth_update (map_option (ha_Password_update (\<lambda>_. x)))))))))"

definition renderAdvanceOptions :: "dlib \<Rightarrow> FuncMap \<Rightarrow> HTTPAdvanceOption option \<Rightarrow> HTTPTask \<Rightarrow> (string, HTTPTask) step" where
  "renderAdvanceOptions d fm opt t =
     (case opt of
        None \<Rightarrow> okE t
      | Some o1 \<Rightarrow>
          bindE (wrapE (\<lambda>e. ''render request options failed: '' @ e) (renderRequestOptions d fm (ho_RequestOptions o1) t))
                (\<lambda>t. wrapE (\<lambda>e. ''render request body failed: '' @ e) (renderRequestBody d fm (ho_RequestBody o1) t)))"

text \<open>The options for the status are not rendered.\<close>

definition http_render_checker :: "dlib \<Rightarrow> FuncMap \<Rightarrow> HTTPSuccess \<Rightarrow> HTTPSuccess \<Rightarrow> (string, HTTPSuccess) step option" where
  "http_render_checker d fm c dest =
     bindP (map_option (\<lambda>(r, xs). (r, dest\<lparr>hs_Body := xs\<rparr>)) (render_options d fm ''render body'' (hs_Body c) (hs_Body dest))) (\<lambda>dest.
     bindP (Some (render_into d fm ''render response time'' (hs_ResponseTime c) (\<lambda>x. hs_ResponseTime_update (\<lambda>_. x)) dest)) (\<lambda>dest.
            map_option (\<lambda>(r, xs). (r, dest\<lparr>hs_Header := xs\<rparr>)) (render_headers d fm (hs_Header c) (hs_Header dest))))"

fun http_renderSuccessWhen :: "dlib \<Rightarrow> FuncMap \<Rightarrow> HTTPSuccess list \<Rightarrow> HTTPSuccess list \<Rightarrow> (string, HTTPSuccess list) step option" where
  "http_renderSuccessWhen d fm [] dests = Some (okE dests)"
| "http_renderSuccessWhen d fm (c # cs) [] =
     (if hs_Body c \<noteq> [] then None
      else case GetParsedString d fm (hs_ResponseTime c) of Inl e \<Rightarrow> Some (failE (''render response time failed: '' @ e) []) | Inr x \<Rightarrow> None)"
| "http_renderSuccessWhen d fm (c # cs) (dest # dests) =
     (case http_render_checker d fm c dest of
        None \<Rightarrow> None
      | Some (Some e, x) \<Rightarrow> Some (failE e (x # dests))
      | Some (None, x) \<Rightarrow> map_option (\<lambda>(r, ys). (r, x # ys)) (http_renderSuccessWhen d fm cs dests))"

definition HTTP_renderTemplate :: "dlib \<Rightarrow> (string \<Rightarrow> string + HTTPRaw) \<Rightarrow> FuncMap \<Rightarrow> HTTPTask \<Rightarrow> (string, HTTPTask) step option" where
  "HTTP_renderTemplate d unmarshal fm t =
     (case raw_task unmarshal (taskJSONString t) (http_rawTask t) of
        Inl e \<Rightarrow> Some (failE e t)
      | Inr task \<Rightarrow>
          bindP (Some (render_into d fm ''render url'' (raw_http_URL task) (\<lambda>x. http_URL_update (\<lambda>_. x)) (t\<lparr>http_rawTask := Some task\<rparr>))) (\<lambda>t.
          bindP (map_option (\<lambda>(r, cs). (map_option (\<lambda>e. ''render success when failed: '' @ e) r, t\<lparr>http_SuccessWhen := cs\<rparr>))
                   (http_renderSuccessWhen d fm (raw_http_SuccessWhen task) (http_SuccessWhen t))) (\<lambda>t.
                 Some (wrapE (\<lambda>e. ''render advance options failed: '' @ e) (renderAdvanceOptions d fm (raw_http_AdvanceOptions task) t)))))"

definition http_ops :: "dlib \<Rightarrow> (HTTPTask \<Rightarrow> jval) \<Rightarrow> int \<Rightarrow> (string \<Rightarrow> string + HTTPRaw) \<Rightarrow> (string \<Rightarrow> string + string) \<Rightarrow> http_net \<Rightarrow> HTTPTask child_ops" where
  "http_ops d body_json now_us unmarshal rawjson n =
     \<lparr>o_class = ''HTTP'', o_metricName = ''http_dial_testing'', o_clear = HTTP_clear, o_check = HTTP_check, o_init = HTTP_init d n,
      o_run = Some \<circ> HTTP_run n, o_renderTemplate = HTTP_renderTemplate d unmarshal, o_setReqError = HTTP_setReqError,
      o_checkResult = HTTP_checkResult d, o_getResults = HTTP_getResults d body_json now_us, o_getRawTask = rawjson,
      o_getHostName = (\<lambda>t. map_sum (\<lambda>e. ''parse host error: '' @ e) (\<lambda>(u, s). [fst (url_splitHostPort (u_Host u))]) (hn_Parse n (http_URL t))),
      o_stop = (\<lambda>t. t)\<rparr>"

end
