(* ===== verification/Dial_Verdict.thy ===== *)
theory Dial_Verdict
  imports Dial_Net Dial_Ws Dial_Http
begin

section \<open>Dial testing: what a report says\<close>

text \<open>
  The kinds of task report alike: whether the task passed, as the field \<open>success\<close> and the tag \<open>status\<close>, and else why.  The contract is a locale,
  and every kind of task is an instance of it.
\<close>

subsection \<open>The specification\<close>

definition failed_cond :: "cond \<Rightarrow> bool" where
  "failed_cond c = (case c of Fails e \<Rightarrow> True | _ \<Rightarrow> False)"

text \<open>A task passes if its request had no error and, by its logic, some condition holds or none fails.\<close>

definition passes :: "string \<Rightarrow> string \<Rightarrow> cond list \<Rightarrow> bool" where
  "passes logic reqError cs \<longleftrightarrow> reqError = [] \<and> (if logic = ''or'' then Holds \<in> set cs else \<not> list_ex failed_cond cs)"

text \<open>What a report on a task with the given tags says; a tag \<open>status\<close> of the user takes the place of the failure.\<close>

definition reports :: "bool \<Rightarrow> tag_map \<Rightarrow> tag_map \<times> field_map \<Rightarrow> bool" where
  "reports ok user r \<longleftrightarrow>
     map_of (snd r) ''success'' = Some (JInt (if ok then 1 else -1)) \<and>
     (map_of (snd r) ''fail_reason'' = None \<longleftrightarrow> ok) \<and>
     map_of (fst r) ''status'' = Some (if ok then ''OK'' else case map_of (rev user) ''status'' of Some v \<Rightarrow> v | None \<Rightarrow> ''FAIL'')"

lemma no_reasons: "fst (judge cs) = [] \<longleftrightarrow> \<not> list_ex failed_cond cs"
  by (auto simp: list_ex_iff failed_cond_def split: cond.splits)

text \<open>\<open>conclude\<close> meets it, whatever \<open>F\<close> adds to the fields afterwards under other names.\<close>

lemma conclude_reports:
  assumes c: "conclude logic (fst (judge cs) @ (if reqError \<noteq> [] then [reqError] else [])) (snd (judge cs)) reqError okmsg (set_all user tags) flds message
        = (tags', flds', message')"
    and tags: "map_of tags ''status'' = Some ''FAIL''"
    and flds: "map_of flds ''success'' = Some (JInt (-1))" "map_of flds ''fail_reason'' = None"
    and same: "map_of flds'' ''success'' = map_of flds' ''success''" "map_of flds'' ''fail_reason'' = map_of flds' ''fail_reason''"
  shows "reports (passes logic reqError cs) user (tags', flds'')"
proof (cases "reqError = []")
  case True
  with c tags flds same show ?thesis
    unfolding conclude_def reports_def passes_def Let_def
    by (auto simp: update_conv' map_of_set_all no_reasons simp del: judge_reasons split: if_splits option.split)
next
  case False
  with c tags flds same show ?thesis
    unfolding conclude_def reports_def passes_def Let_def
    by (auto simp: update_conv' map_of_set_all split: if_splits option.split)
qed

lemma verdictI:
  assumes "map_of tags ''status'' = Some ''FAIL''" "map_of flds ''success'' = Some (JInt (-1))" "map_of flds ''fail_reason'' = None"
    and "\<And>t f m. map_of (F t f m) ''success'' = map_of f ''success''" "\<And>t f m. map_of (F t f m) ''fail_reason'' = map_of f ''fail_reason''"
  shows "reports (passes logic e cs) user
    (case judge cs of (rs, succFlag) \<Rightarrow>
       case conclude logic (if e \<noteq> [] then rs @ [e] else rs) succFlag e okmsg (set_all user tags) flds message of
         (tags', flds', message') \<Rightarrow> (tags', F tags' flds' message'))"
proof -
  obtain tags' flds' message' where c: "conclude logic (fst (judge cs) @ (if e \<noteq> [] then [e] else [])) (snd (judge cs)) e okmsg
      (set_all user tags) flds message = (tags', flds', message')" by (metis prod_cases3)
  then have "(if e \<noteq> [] then fst (judge cs) @ [e] else fst (judge cs)) = fst (judge cs) @ (if e \<noteq> [] then [e] else [])" by simp
  then show ?thesis using conclude_reports[OF c assms] c by (simp add: case_prod_beta)
qed

text \<open>With an error it is a failure, whatever the reasons are.\<close>

lemma errorI:
  assumes "e \<noteq> []" "rs \<noteq> []"
    and "map_of tags ''status'' = Some ''FAIL''" "map_of flds ''success'' = Some (JInt (-1))"
    and "\<And>t f m. map_of (F t f m) ''success'' = map_of f ''success''" "\<And>t f m. map_of (F t f m) ''fail_reason'' = map_of f ''fail_reason''"
  shows "reports False user
    (case conclude logic rs succFlag e okmsg (set_all user tags) flds message of (tags', flds', message') \<Rightarrow> (tags', F tags' flds' message'))"
  using assms by (simp add: conclude_def reports_def update_conv' map_of_set_all Let_def split: option.split)

lemma put_message_other [simp]: "k \<noteq> ''message'' \<Longrightarrow> map_of (put_message d message flds) k = map_of flds k"
  by (simp add: put_message_def update_conv' split: sum.split)

lemma ssl_put_message_other [simp]: "k \<noteq> ''message'' \<Longrightarrow> map_of (ssl_put_message d message flds) k = map_of flds k"
  by (simp add: ssl_put_message_def update_conv')

subsection \<open>Runs that are vetoed\<close>

text \<open>The task a run works on: cleared of its last run and, where it has template functions, rendered anew.  Then the callback is asked.\<close>

definition rendered :: "('a Task_scheme) child_ops \<Rightarrow> 'a Task_scheme \<Rightarrow> (string, 'a Task_scheme) step option" where
  "rendered ops t =
     (case t_fm (Task_Clear ops t) of
        None \<Rightarrow> Some (okE (Task_Clear ops t))
      | Some fm \<Rightarrow> map_option (wrapE (\<lambda>e. ''render template failed: '' @ e)) (o_renderTemplate ops fm (Task_Clear ops t)))"

lemma Task_Run_rendered: "Task_Run ops beforeRun t = bindP (rendered ops t)
    (\<lambda>t2. case (if o_class ops \<noteq> ClassMulti then beforeRun else None) of
             Some f \<Rightarrow> (case f (Task.truncate t2) of Some e \<Rightarrow> Some (okE (o_setReqError ops e t2)) | None \<Rightarrow> o_run ops t2)
           | None \<Rightarrow> o_run ops t2)"
  by (simp add: Task_Run_def rendered_def Let_def)

text \<open>A veto is reported: the run ends without an error of its own, and the report is judged with the text of the veto as the error of the request.\<close>

definition veto_reported :: "('a Task_scheme) child_ops \<Rightarrow> ('a Task_scheme \<Rightarrow> string) \<Rightarrow> ('a Task_scheme \<Rightarrow> cond list) \<Rightarrow> bool" where
  "veto_reported ops logic conds \<longleftrightarrow>
     (\<forall>before t t2 e. rendered ops t = Some (okE t2) \<longrightarrow> before (Task.truncate t2) = Some e \<longrightarrow>
        (\<exists>t'. Task_Run ops (Some before) t = Some (okE t') \<and> reports (passes (logic t') e (conds t')) (t_Tags t2) (o_getResults ops t')))"

subsection \<open>The contract\<close>

locale judged_task =
  fixes getResults :: "'a Task_scheme \<Rightarrow> tag_map \<times> field_map"
    and setReqError :: "string \<Rightarrow> 'a Task_scheme \<Rightarrow> 'a Task_scheme"
    and reqError :: "'a Task_scheme \<Rightarrow> string"
    and logic :: "'a Task_scheme \<Rightarrow> string"
    and conds :: "'a Task_scheme \<Rightarrow> cond list"
  assumes verdict: "reports (passes (logic t) (reqError t) (conds t)) (t_Tags t) (getResults t)"
    and error_set: "reqError (setReqError e t) = e"
    and tags_kept: "t_Tags (setReqError e t) = t_Tags t"
begin

lemma vetoed: "reports (passes (logic (setReqError e t)) e (conds (setReqError e t))) (t_Tags t) (getResults (setReqError e t))"
  using verdict[of "setReqError e t"] by (simp add: error_set tags_kept)

text \<open>A callback that vetoes a run with a text makes it a failure; with an empty text the conditions decide.\<close>

lemma veto_run:
  assumes "o_getResults ops = getResults" "o_setReqError ops = setReqError" "o_class ops \<noteq> ClassMulti"
  shows "veto_reported ops logic conds"
  unfolding veto_reported_def
proof (intro allI impI)
  fix before t t2 and e :: string
  assume r: "rendered ops t = Some (okE t2)" and b: "before (Task.truncate t2) = Some e"
  have "Task_Run ops (Some before) t = Some (okE (setReqError e t2))"
    using assms r b by (simp add: Task_Run_rendered bindP_def okE_def)
  then show "\<exists>t'. Task_Run ops (Some before) t = Some (okE t') \<and> reports (passes (logic t') e (conds t')) (t_Tags t2) (o_getResults ops t')"
    using vetoed[of e t2] assms(1) by auto
qed

text \<open>Where the report is a success, no error was set: setting one is never masked by the conditions.\<close>

lemma success_no_error: "map_of (snd (getResults t)) ''success'' = Some (JInt 1) \<Longrightarrow> reqError t = []"
  using verdict[of t] by (simp add: reports_def passes_def split: if_splits)

end

subsection \<open>The kinds of task\<close>

abbreviation TCP_conditions :: "dlib \<Rightarrow> TCPTask \<Rightarrow> cond list" where
  "TCP_conditions d t \<equiv> concat (map (tcp_conds d t) (tcp_SuccessWhen t))"

abbreviation SSL_conditions :: "dlib \<Rightarrow> SSLTask \<Rightarrow> cond list" where
  "SSL_conditions d t \<equiv> concat (map (ssl_conds d t) (ssl_SuccessWhen t))"

abbreviation ICMP_conditions :: "dlib \<Rightarrow> ICMPTask \<Rightarrow> cond list" where
  "ICMP_conditions d t \<equiv> concat (map (icmp_conds d t) (icmp_SuccessWhen t))"

abbreviation Websocket_conditions :: "dlib \<Rightarrow> WebsocketTask \<Rightarrow> cond list" where
  "Websocket_conditions d t \<equiv> concat (map (ws_conds d t) (ws_SuccessWhen t))"

text \<open>Without a response an HTTP task is judged by its error alone.\<close>

definition HTTP_conditions :: "dlib \<Rightarrow> HTTPTask \<Rightarrow> cond list" where
  "HTTP_conditions d t =
     (case http_resp t of None \<Rightarrow> [Holds] | Some resp \<Rightarrow> concat (map (http_conds d t resp) (http_SuccessWhen t)) @ script_cond t)"

lemma HTTP_judge: "HTTP_checkResult d t = judge (HTTP_conditions d t)"
  by (simp add: HTTP_checkResult_def HTTP_conditions_def judge_def note_cond_def split: option.split)

lemma TCP_verdict: "reports (passes (tcp_SuccessWhenLogic t) (tcp_reqError t) (TCP_conditions d t)) (t_Tags t) (TCP_getResults d t)"
  unfolding TCP_getResults_def TCP_checkResult_def Let_def by (rule verdictI) (auto simp: update_conv')

lemma ICMP_verdict: "reports (passes (icmp_SuccessWhenLogic t) (icmp_reqError t) (ICMP_conditions d t)) (t_Tags t) (ICMP_getResults d t)"
  unfolding ICMP_getResults_def ICMP_checkResult_def Let_def by (rule verdictI) (auto simp: update_conv')

lemma Websocket_verdict:
  "reports (passes (ws_SuccessWhenLogic t) (ws_reqError t) (Websocket_conditions d t)) (t_Tags t) (Websocket_getResults d now_us t)"
  unfolding Websocket_getResults_def Websocket_checkResult_def Let_def by (rule verdictI) auto

lemma HTTP_verdict:
  "reports (passes (http_SuccessWhenLogic t) (http_reqError t) (HTTP_conditions d t)) (t_Tags t) (HTTP_getResults d body_json now_us t)"
  unfolding HTTP_getResults_def HTTP_judge Let_def by (rule verdictI) (auto simp: map_of_set_all split: option.split)

text \<open>An SSL task is not judged at all where its request had an error.\<close>

lemma SSL_verdict: "reports (passes (ssl_SuccessWhenLogic t) (ssl_reqError t) (SSL_conditions d t)) (t_Tags t) (SSL_getResults d t)"
proof (cases "ssl_reqError t = []")
  case True
  have "reports (passes (ssl_SuccessWhenLogic t) [] (SSL_conditions d t)) (t_Tags t) (SSL_getResults d t)"
    unfolding SSL_getResults_def SSL_checkResult_def Let_def True
    using verdictI[of _ _ "\<lambda>tags' flds' message'. ssl_put_message d (AList.update ''status'' (JStr (the (map_of tags' ''status''))) message') flds'"
        "ssl_SuccessWhenLogic t" "[]"]
    by (simp add: update_conv')
  then show ?thesis using True by simp
next
  case False
  have "reports False (t_Tags t) (SSL_getResults d t)"
    unfolding SSL_getResults_def Let_def if_P[OF False] prod.case by (rule errorI) (use False in \<open>auto simp: update_conv'\<close>)
  then show ?thesis using False by (simp add: passes_def)
qed

interpretation tcp: judged_task "TCP_getResults d" TCP_setReqError tcp_reqError tcp_SuccessWhenLogic "TCP_conditions d" for d
  by unfold_locales (auto simp: TCP_verdict TCP_setReqError_def)

interpretation ssl: judged_task "SSL_getResults d" SSL_setReqError ssl_reqError ssl_SuccessWhenLogic "SSL_conditions d" for d
  by unfold_locales (auto simp: SSL_verdict SSL_setReqError_def)

interpretation icmp: judged_task "ICMP_getResults d" ICMP_setReqError icmp_reqError icmp_SuccessWhenLogic "ICMP_conditions d" for d
  by unfold_locales (auto simp: ICMP_verdict ICMP_setReqError_def)

interpretation ws: judged_task "Websocket_getResults d now_us" Websocket_setReqError ws_reqError ws_SuccessWhenLogic "Websocket_conditions d" for d now_us
  by unfold_locales (auto simp: Websocket_verdict Websocket_setReqError_def)

interpretation http: judged_task "HTTP_getResults d body_json now_us" HTTP_setReqError http_reqError http_SuccessWhenLogic "HTTP_conditions d"
  for d body_json now_us
  by unfold_locales (auto simp: HTTP_verdict HTTP_setReqError_def)

end
