(* ===== verification/Dial_Multi.thy ===== *)
theory Dial_Multi
  imports Dial_Http
begin

section \<open>Dial testing: several steps (dialtesting/multi.go)\<close>

text \<open>
  Steps run one after the other; a step is an HTTP task of its own or a pause.  \<open>multi_env\<close> has what a run depends on: how the text of a step becomes a
  task, and what the network does in each attempt of each step.
\<close>

record MultiExtractedVar =
  mv_Name :: string
  mv_Field :: string
  mv_Secure :: bool
  mv_Value :: string

record MultiStep =
  ms_Type :: string
  ms_Name :: string
  ms_AllowFailure :: bool
  ms_Retry :: "(int \<times> int) option"
  ms_TaskString :: string
  ms_Value :: int
  ms_ExtractedVars :: "MultiExtractedVar list"
  ms_result :: "field_map option"
  ms_postScriptResult :: "ScriptResult option"

record MultiTask = Task +
  mu_Steps :: "MultiStep list"
  mu_postScriptResult :: "ScriptResult option"
  mu_duration :: int
  mu_extractedVars :: "MultiExtractedVar list"
  mu_lastStep :: int
  mu_lastHTTPStep :: int

record multi_env =
  me_lib :: dlib
  me_NewTask :: "string \<Rightarrow> string + HTTPTask"
  me_ops :: "nat \<Rightarrow> nat \<Rightarrow> HTTPTask child_ops"
  me_clock_ms :: "nat \<Rightarrow> int"
  me_duration :: int
  me_beforeRun :: "(Task \<Rightarrow> string option) option"

definition Multi_clear :: "MultiTask \<Rightarrow> MultiTask" where
  "Multi_clear t =
     t\<lparr>mu_duration := 0, mu_extractedVars := [], mu_lastStep := -1, mu_lastHTTPStep := -1, mu_Steps := map (\<lambda>s. s\<lparr>ms_result := None\<rparr>) (mu_Steps t)\<rparr>"

subsection \<open>A step\<close>

text \<open>Variables of a step from the script's variables: what later steps see has the value, what is reported has it only where it is not secure.\<close>

definition var_text :: "dlib \<Rightarrow> jval option \<Rightarrow> string" where
  "var_text d v = (case v of None \<Rightarrow> [] | Some JNil \<Rightarrow> [] | Some x \<Rightarrow> d_fmt_any d x)"

definition report_var :: "dlib \<Rightarrow> (string \<times> jval) list \<Rightarrow> MultiExtractedVar \<Rightarrow> MultiExtractedVar" where
  "report_var d vars v =
     (case map_of vars (mv_Field v) of
        Some x \<Rightarrow> if \<not> mv_Secure v \<and> x \<noteq> JNil then v\<lparr>mv_Value := var_text d (Some x)\<rparr> else v
      | None \<Rightarrow> v)"

definition pass_var :: "dlib \<Rightarrow> (string \<times> jval) list \<Rightarrow> MultiExtractedVar \<Rightarrow> MultiExtractedVar" where
  "pass_var d vars v = v\<lparr>mv_Value := var_text d (map_of vars (mv_Field v))\<rparr>"

definition keep_vars :: "dlib \<Rightarrow> HTTPTask \<Rightarrow> MultiTask \<times> MultiStep \<Rightarrow> MultiTask \<times> MultiStep" where
  "keep_vars d ht s =
     (case http_postScriptResult ht of
        None \<Rightarrow> s
      | Some r \<Rightarrow>
          (case s of (t, step) \<Rightarrow>
             (t\<lparr>mu_extractedVars := mu_extractedVars t @ map (pass_var d (sr_Vars r)) (ms_ExtractedVars step)\<rparr>,
              step\<lparr>ms_postScriptResult := Some r, ms_ExtractedVars := map (report_var d (sr_Vars r)) (ms_ExtractedVars step)\<rparr>)))"

text \<open>The task of a step gets the options of the whole, the variables extracted so far, and its configured variables.\<close>

definition step_task :: "MultiTask \<Rightarrow> HTTPTask \<Rightarrow> HTTPTask \<times> MultiTask" where
  "step_task t ht =
     (case GetOption t of (opt, t1) \<Rightarrow>
        ((fold (\<lambda>v. AddExtractedVar (Some \<lparr>cv_ID = [], cv_Type = [], cv_Name = mv_Name v, cv_Value = mv_Value v, cv_Example = [], cv_Secure = mv_Secure v\<rparr>))
            (mu_extractedVars t1) (SetOption (Some opt) ht))\<lparr>CustomVars := ConfigVars t1\<rparr>, t1))"

text \<open>One attempt: the error, the result so far, and the task and step with their variables.\<close>

definition http_attempt :: "multi_env \<Rightarrow> nat \<Rightarrow> nat \<Rightarrow> HTTPTask \<Rightarrow> MultiTask \<times> MultiStep \<Rightarrow> field_map \<Rightarrow>
    (string option \<times> field_map \<times> MultiTask \<times> MultiStep) option" where
  "http_attempt env i j ht s result =
     (case s of (t, step) \<Rightarrow>
        case step_task t ht of (ht1, t1) \<Rightarrow>
          let ops = me_ops env i j in
          case RenderTemplateAndInit ops [] ht1 of
            None \<Rightarrow> None
          | Some (Some e, ht2) \<Rightarrow> Some (Some (''init http step task failed: '' @ e), result, keep_vars (me_lib env) ht2 (t1, step))
          | Some (None, ht2) \<Rightarrow>
              (case Task_Run ops (me_beforeRun env) ht2 of
                 None \<Rightarrow> None
               | Some (err, ht3) \<Rightarrow>
                   (case GetResults (me_lib env) ops ht3 of ((tags, flds), ht4) \<Rightarrow>
                      Some (map_option (\<lambda>e. ''run http step task failed: '' @ e) err,
                            set_all flds (set_all (map (\<lambda>(k, v). (k, JStr v)) tags) result),
                            keep_vars (me_lib env) ht4 (t1, step)))))"

definition status_OK :: "field_map \<Rightarrow> bool" where
  "status_OK result \<longleftrightarrow> map_of result ''status'' = Some (JStr ''OK'')"

text \<open>
  The loop of \<open>runHTTPStep\<close>: \<open>k\<close> attempts are left and \<open>j\<close> were made.  The result is nothing where the task cannot be made; the number of attempts is
  returned as well.
\<close>

fun http_attempts :: "multi_env \<Rightarrow> nat \<Rightarrow> nat \<Rightarrow> nat \<Rightarrow> string option \<Rightarrow> MultiTask \<times> MultiStep \<Rightarrow> field_map \<Rightarrow>
    (string option \<times> field_map option \<times> (MultiTask \<times> MultiStep) \<times> nat) option" where
  "http_attempts env i 0 j err s result = Some (err, Some result, s, j)"
| "http_attempts env i (Suc k) j err s result =
     (case me_NewTask env (ms_TaskString (snd s)) of
        Inl e \<Rightarrow> Some (Some (''new task failed: '' @ e), None, s, j)
      | Inr ht \<Rightarrow>
          (case http_attempt env i j ht s result of
             None \<Rightarrow> None
           | Some (err1, result1, s1) \<Rightarrow>
               if err1 = None \<and> status_OK result1 then Some (None, Some result1, s1, j + 1)
               else http_attempts env i k (j + 1) err1 s1 result1))"

definition max_count :: "MultiStep \<Rightarrow> nat" where
  "max_count step = (case ms_Retry step of Some (retry, interval) \<Rightarrow> if retry > 0 then nat retry + 1 else 1 | None \<Rightarrow> 1)"

definition runHTTPStep :: "multi_env \<Rightarrow> nat \<Rightarrow> MultiTask \<times> MultiStep \<Rightarrow> (string option \<times> field_map option \<times> (MultiTask \<times> MultiStep) \<times> nat) option" where
  "runHTTPStep env i s =
     (case http_attempts env i (max_count (snd s)) 0 None s [] of
        None \<Rightarrow> None
      | Some (err, result, s1, n) \<Rightarrow>
          Some (case (err, result) of
                  (None, Some r) \<Rightarrow>
                    if r \<noteq> [] \<and> \<not> status_OK r
                    then (Some (''run HTTP step task failed: '' @ (case map_of r ''fail_reason'' of Some x \<Rightarrow> d_fmt_any (me_lib env) x | None \<Rightarrow> ''%!s(<nil>)'')), result, s1, n)
                    else (None, result, s1, n)
                | _ \<Rightarrow> (err, result, s1, n)))"

subsection \<open>The run\<close>

record run_state =
  rn_task :: MultiTask
  rn_failed :: bool
  rn_lastStep :: int
  rn_lastHTTPStep :: int

text \<open>One round of the loop over \<open>n\<close> steps.\<close>

definition multi_step :: "multi_env \<Rightarrow> nat \<Rightarrow> nat \<Rightarrow> MultiStep \<Rightarrow> run_state \<Rightarrow> (string option \<times> MultiStep \<times> run_state) option" where
  "multi_step env n i step st =
     (let r0 = [(''type'', JStr (ms_Type step)), (''allow_failure'', JBool (ms_AllowFailure step)), (''task'', JStr (ms_TaskString step))] @
               (if rn_failed st then [] else [(''task_start_time'', JInt (me_clock_ms env i))]);
          st1 = (if rn_failed st then st else st\<lparr>rn_lastStep := int i\<rparr>);
          step1 = step\<lparr>ms_result := Some r0\<rparr>
      in if ms_Type step = ''http'' then
           (if rn_failed st1
            then Some (None, step1\<lparr>ms_result := Some (case me_NewTask env (ms_TaskString step) of
                         Inl e \<Rightarrow> r0
                       | Inr ht \<Rightarrow> set_all [(''name'', JStr (t_Name ht)), (''method'', JStr (http_Method ht)), (''url'', JStr (http_URL ht))] r0)\<rparr>, st1)
            else let st2 = (if int i > rn_lastHTTPStep st1 then st1\<lparr>rn_lastHTTPStep := int i\<rparr> else st1)
                 in case runHTTPStep env i (rn_task st2, step1) of
                      None \<Rightarrow> None
                    | Some (err, result, (t, step2), c) \<Rightarrow>
                        let r1 = set_all (case result of None \<Rightarrow> [] | Some r \<Rightarrow> r) r0;
                            r2 = (case err of None \<Rightarrow> r1 | Some e \<Rightarrow> AList.update ''fail_reason'' (JStr (''run task failed: '' @ e)) r1)
                        in Some (None, step2\<lparr>ms_result := Some r2\<rparr>,
                                 st2\<lparr>rn_task := (if i = n - 1 then t\<lparr>mu_postScriptResult := ms_postScriptResult step2\<rparr> else t),
                                     rn_failed := (err \<noteq> None \<and> \<not> ms_AllowFailure step)\<rparr>))
         else if ms_Type step = ''wait'' then Some (None, step1\<lparr>ms_result := Some (AList.update ''value'' (JInt (ms_Value step)) r0)\<rparr>, st1)
         else Some (Some ''step type should be wait or http'', step1, st1))"

fun multi_steps :: "multi_env \<Rightarrow> nat \<Rightarrow> nat \<Rightarrow> MultiStep list \<Rightarrow> run_state \<Rightarrow> (string option \<times> MultiStep list \<times> run_state) option" where
  "multi_steps env n i [] st = Some (None, [], st)"
| "multi_steps env n i (step # steps) st =
     (case multi_step env n i step st of
        None \<Rightarrow> None
      | Some (Some e, step1, st1) \<Rightarrow> Some (Some e, step1 # steps, st1)
      | Some (None, step1, st1) \<Rightarrow> map_option (\<lambda>(e, r, st2). (e, step1 # r, st2)) (multi_steps env n (i + 1) steps st1))"

definition Multi_run :: "multi_env \<Rightarrow> MultiTask \<Rightarrow> (string, MultiTask) step option" where
  "Multi_run env t =
     (if mu_Steps t = [] then Some (failE ''no steps found'' t)
      else case multi_steps env (length (mu_Steps t)) 0 (mu_Steps t) \<lparr>rn_task = t, rn_failed = False, rn_lastStep = -1, rn_lastHTTPStep = -1\<rparr> of
             None \<Rightarrow> None
           | Some (Some e, steps, st) \<Rightarrow> Some (failE e ((rn_task st)\<lparr>mu_Steps := steps\<rparr>))
           | Some (None, steps, st) \<Rightarrow>
               Some (okE ((rn_task st)\<lparr>mu_Steps := steps, mu_duration := me_duration env, mu_lastStep := rn_lastStep st, mu_lastHTTPStep := rn_lastHTTPStep st\<rparr>)))"

subsection \<open>Results and checks\<close>

definition reported_var :: "MultiExtractedVar \<Rightarrow> MultiExtractedVar" where
  "reported_var v = v\<lparr>mv_Value := (if mv_Secure v then [] else mv_Value v)\<rparr>"

definition multi_var_json :: "MultiExtractedVar \<Rightarrow> jval" where
  "multi_var_json v =
     JMap ([(''name'', JStr (mv_Name v)), (''field'', JStr (mv_Field v)), (''secure'', JBool (mv_Secure v))] @
           (if mv_Value v = [] then [] else [(''value'', JStr (mv_Value v))]))"

definition step_json :: "MultiStep \<Rightarrow> jval" where
  "step_json s =
     JMap (AList.update ''extracted_vars'' (JArr (map (multi_var_json \<circ> reported_var) (ms_ExtractedVars s)))
             (set_all (case ms_result s of None \<Rightarrow> [] | Some r \<Rightarrow> r) []))"

text \<open>\<open>None\<close> is an index out of range.\<close>

definition Multi_getResults :: "dlib \<Rightarrow> MultiTask \<Rightarrow> (tag_map \<times> field_map) option" where
  "Multi_getResults d t =
     (let f1 = [(''success'', JInt (-1)), (''response_time'', JInt (go_quot (mu_duration t) 1000)), (''last_step'', JInt (mu_lastStep t))];
          tags1 = set_all (t_Tags t) [(''status'', ''FAIL''), (''name'', t_Name t)];
          steps = JStr (json_text d (JArr (map step_json (mu_Steps t))))
      in if mu_lastHTTPStep t > -1
         then if nat (mu_lastHTTPStep t) \<ge> length (mu_Steps t) then None
              else (case ms_result (mu_Steps t ! nat (mu_lastHTTPStep t)) of
                      None \<Rightarrow> Some (tags1, AList.update ''steps'' steps f1)
                    | Some r \<Rightarrow>
                        let (tags2, f2) =
                             (if status_OK r then (AList.update ''status'' ''OK'' tags1, AList.update ''success'' (JInt 1) f1)
                              else case map_of r ''fail_reason'' of
                                     Some x \<Rightarrow> if x \<noteq> JNil then (tags1, AList.update ''fail_reason'' x f1) else (tags1, f1)
                                   | None \<Rightarrow> (tags1, f1));
                            f3 = AList.update ''message'' (case map_of r ''message'' of Some x \<Rightarrow> x | None \<Rightarrow> JNil) f2
                        in Some (tags2, AList.update ''steps'' steps f3))
         else Some (tags1, AList.update ''steps'' steps f1))"

definition check_step :: "multi_env \<Rightarrow> MultiStep \<Rightarrow> string option" where
  "check_step env step =
     (case (case ms_Retry step of
              Some (retry, interval) \<Rightarrow>
                if retry < 0 \<or> retry > 5 then Some ''retry should be in 0 ~ 5''
                else if interval < 0 \<or> interval > 5000 then Some ''retry interval should be in 0 ~ 5000'' else None
            | None \<Rightarrow> None) of
        Some e \<Rightarrow> Some e
      | None \<Rightarrow>
          if ms_Type step = ''wait'' then (if ms_Value step \<le> 0 \<or> ms_Value step > 180 then Some ''wait step value should be in 1 ~ 180'' else None)
          else if ms_Type step = ''http'' then
            (if ms_TaskString step = [] then Some ''http step task should not be empty''
             else case me_NewTask env (ms_TaskString step) of
                    Inl e \<Rightarrow> Some (''new task failed: '' @ e)
                  | Inr ht \<Rightarrow>
                      (case CheckTask (me_ops env 0 0) ht of
                         (Some e, ht1) \<Rightarrow> Some (''check task failed: '' @ e)
                       | (None, ht1) \<Rightarrow>
                           (case find (\<lambda>v. \<not> isValidVariableName (mv_Name v)) (ms_ExtractedVars step) of
                              Some v \<Rightarrow> Some (''invalid variable name '' @ mv_Name v) | None \<Rightarrow> None)))
          else Some ''step type should be wait or http'')"

fun Multi_check_steps :: "multi_env \<Rightarrow> MultiStep list \<Rightarrow> string option" where
  "Multi_check_steps env [] = None"
| "Multi_check_steps env (s # ss) = (case check_step env s of Some e \<Rightarrow> Some e | None \<Rightarrow> Multi_check_steps env ss)"

definition Multi_check :: "multi_env \<Rightarrow> MultiTask \<Rightarrow> string option" where
  "Multi_check env t = Multi_check_steps env (mu_Steps t)"

section \<open>Dial testing: how far a task of several steps comes\<close>

text \<open>What a step leaves behind, and from it which steps of a run were carried out and which of them decided the verdict.\<close>

subsection \<open>Attempts\<close>

lemma set_all_key: "k \<in> fst ` set new \<Longrightarrow> map_of (set_all new old) k \<noteq> None"
  using map_of_eq_None_iff[of "rev new" k] by (auto simp: map_of_set_all split: option.split)

lemma set_all_cases: "map_of (set_all new old) k = Some v \<Longrightarrow> k \<in> fst ` set new \<or> map_of old k = Some v"
  using map_of_eq_None_iff[of "rev new" k] by (force simp: map_of_set_all split: option.splits)

lemma update_key: "k \<in> fst ` set (AList.update k v al)"
  using map_of_eq_None_iff[of "AList.update k v al" k] by (auto simp: update_conv')

lemma GetResults_task: "GetResults d ops t = ((tags, flds), t') \<Longrightarrow> ''task'' \<in> fst ` set flds"
  using update_key[of "''task''"] by (auto simp: GetResults_def Let_def split: prod.splits)

lemma http_attempt_result:
  assumes "http_attempt env i j ht s result = Some (None, r, s')"
  shows "r \<noteq> []"
proof -
  obtain tags flds t t' old where "GetResults (me_lib env) (me_ops env i j) t = ((tags, flds), t')" "r = set_all flds old"
    using assms by (force simp: http_attempt_def Let_def split: prod.splits option.splits)
  then have "map_of r ''task'' \<noteq> None" using GetResults_task set_all_key by metis
  then show ?thesis by auto
qed

text \<open>One more attempt: the task cannot be made, it succeeds, or the loop goes on.\<close>

lemma http_attempts_SucE:
  assumes "http_attempts env i (Suc k) j err s result = Some (err', r', s', n)"
  obtains (unmade) e where "err' = Some e" "r' = None" "n = j"
  | (success) ht r where "http_attempt env i j ht s result = Some (None, r, s')" "status_OK r" "err' = None" "r' = Some r" "n = j + 1"
  | (again) ht e1 r1 s1 where "http_attempt env i j ht s result = Some (e1, r1, s1)" "http_attempts env i k (j + 1) e1 s1 r1 = Some (err', r', s', n)"
proof (cases "me_NewTask env (ms_TaskString (snd s))")
  case (Inl e)
  then show ?thesis using assms unmade by auto
next
  case (Inr ht)
  then obtain e1 r1 s1 where a: "http_attempt env i j ht s result = Some (e1, r1, s1)"
    using assms by (cases "http_attempt env i j ht s result") auto
  show ?thesis
  proof (cases "e1 = None \<and> status_OK r1")
    case True
    then show ?thesis using assms Inr a success by auto
  next
    case False
    then have "http_attempts env i (Suc k) j err s result = http_attempts env i k (j + 1) e1 s1 r1" using Inr a by auto
    then show ?thesis using assms again[OF a] by simp
  qed
qed

lemma http_attempts_count:
  assumes "http_attempts env i k j err s result = Some (err', r', s', n)"
  shows "j \<le> n \<and> n \<le> j + k \<and> (n < j + k \<longrightarrow> r' = None \<or> err' = None \<and> status_OK (the r')) \<and> (r' = None \<longrightarrow> err' \<noteq> None)"
  using assms
proof (induction k arbitrary: j err s result)
  case (Suc k)
  from Suc.prems show ?case by (cases rule: http_attempts_SucE) (use Suc.IH in \<open>fastforce+\<close>)
qed auto

lemma http_attempts_result:
  assumes "http_attempts env i k j err s result = Some (None, Some r, s', n)" "k = 0 \<Longrightarrow> err = None \<Longrightarrow> result \<noteq> []"
  shows "r \<noteq> []"
  using assms
proof (induction k arbitrary: j err s result)
  case (Suc k)
  from Suc.prems(1) show ?case
  proof (cases rule: http_attempts_SucE)
    case (again ht e1 r1 s1)
    then show ?thesis using Suc.IH[of "j + 1" e1 s1 r1] http_attempt_result by blast
  qed (use http_attempt_result in auto)
qed simp

lemma set_all_distinct: "distinct (map fst old) \<Longrightarrow> distinct (map fst (set_all new old))"
  unfolding set_all_def by (induction new arbitrary: old) (auto simp: distinct_update)

lemma http_attempt_distinct:
  "http_attempt env i j ht s result = Some (err, r, s') \<Longrightarrow> distinct (map fst result) \<Longrightarrow> distinct (map fst r)"
  by (auto simp: http_attempt_def Let_def split: prod.splits option.splits intro!: set_all_distinct)

lemma http_attempts_distinct:
  assumes "http_attempts env i k j err s result = Some (err', Some r, s', n)" "distinct (map fst result)"
  shows "distinct (map fst r)"
  using assms
proof (induction k arbitrary: j err s result)
  case (Suc k)
  from Suc.prems(1) show ?case
    by (cases rule: http_attempts_SucE) (use Suc http_attempt_distinct in \<open>blast+\<close>)
qed simp

lemma max_count_pos [simp]: "0 < max_count step"
  by (simp add: max_count_def split: option.split)

text \<open>A step without an error has a result with the status \<open>OK\<close>.\<close>

lemma runHTTPStep_ok:
  assumes "runHTTPStep env i s = Some (None, result, s', n)"
  shows "\<exists>r. result = Some r \<and> status_OK r \<and> distinct (map fst r)"
proof -
  obtain r' where a: "http_attempts env i (max_count (snd s)) 0 None s [] = Some (None, r', s', n)"
    and r: "result = r'" "case r' of Some r \<Rightarrow> r = [] \<or> status_OK r | None \<Rightarrow> True"
    using assms by (auto simp: runHTTPStep_def split: option.splits if_splits)
  then obtain r where "r' = Some r" using http_attempts_count[OF a] by auto
  then show ?thesis using http_attempts_result[of env i "max_count (snd s)" 0 None s "[]" r s' n] http_attempts_distinct[of env i "max_count (snd s)" 0 None s "[]"]
      a r max_count_pos[of "snd s"] by auto
qed

text \<open>All attempts are used up before a step has failed.\<close>

lemma runHTTPStep_attempts:
  assumes "runHTTPStep env i s = Some (err, result, s', n)"
  shows "n \<le> max_count (snd s)" "result = None \<or> err = None \<or> n = max_count (snd s)"
proof -
  obtain err' where a: "http_attempts env i (max_count (snd s)) 0 None s [] = Some (err', result, s', n)"
    and e: "err = err' \<or> (err' = None \<and> \<not> status_OK (the result))"
    using assms by (auto simp: runHTTPStep_def split: option.splits if_splits)
  show "n \<le> max_count (snd s)" "result = None \<or> err = None \<or> n = max_count (snd s)"
    using http_attempts_count[OF a] e by auto
qed

lemma check_step_retries: "check_step env step = None \<Longrightarrow> max_count step \<le> 6"
  by (auto simp: check_step_def max_count_def split: option.splits if_splits)

lemma Multi_check_steps_iff: "Multi_check_steps env steps = None \<longleftrightarrow> (\<forall>s \<in> set steps. check_step env s = None)"
  by (induction steps) (auto split: option.split)

subsection \<open>A step\<close>

definition mandatory :: "MultiStep \<Rightarrow> bool" where
  "mandatory step \<longleftrightarrow> ms_Type step = ''http'' \<and> \<not> ms_AllowFailure step"

definition started :: "field_map \<Rightarrow> bool" where
  "started r \<longleftrightarrow> map_of r ''task_start_time'' \<noteq> None"

text \<open>After a failure a step is only described.\<close>

lemma multi_step_skipped:
  assumes "multi_step env n i step st = Some (None, step1, st1)" "rn_failed st"
  shows "st1 = st" "\<exists>r. ms_result step1 = Some r \<and> \<not> started r"
  using assms by (auto simp: multi_step_def Let_def started_def map_of_set_all update_conv' split: if_splits sum.splits)

lemma started_set_all: "started old \<Longrightarrow> started (set_all new old)"
  by (auto simp: started_def map_of_set_all split: option.split)

lemma status_OK_set_all: "status_OK new \<Longrightarrow> distinct (map fst new) \<Longrightarrow> status_OK (set_all new old)"
  using map_of_inject_set[of "rev new" new] by (simp add: status_OK_def map_of_set_all flip: rev_map)

lemma multi_step_started:
  assumes "multi_step env n i step st = Some (None, step1, st1)" "\<not> rn_failed st"
  obtains r where "ms_result step1 = Some r" "started r" "rn_lastStep st1 = int i"
    "rn_lastHTTPStep st1 = (if ms_Type step = ''http'' \<and> int i > rn_lastHTTPStep st then int i else rn_lastHTTPStep st)"
    "rn_failed st1 \<longrightarrow> mandatory step \<and> map_of r ''fail_reason'' \<noteq> None"
    "mandatory step \<and> \<not> rn_failed st1 \<longrightarrow> status_OK r"
proof (cases "ms_Type step = ''http''")
  case True
  let ?r0 = "[(''type'', JStr (ms_Type step)), (''allow_failure'', JBool (ms_AllowFailure step)), (''task'', JStr (ms_TaskString step)),
      (''task_start_time'', JInt (me_clock_ms env i))]"
  obtain err result t step2 c where run: "runHTTPStep env i (rn_task st, step\<lparr>ms_result := Some ?r0\<rparr>) = Some (err, result, (t, step2), c)"
    and step1: "ms_result step1 = Some (case err of None \<Rightarrow> set_all (case result of None \<Rightarrow> [] | Some r \<Rightarrow> r) ?r0
          | Some e \<Rightarrow> AList.update ''fail_reason'' (JStr (''run task failed: '' @ e)) (set_all (case result of None \<Rightarrow> [] | Some r \<Rightarrow> r) ?r0))"
    and st1: "rn_lastStep st1 = int i" "rn_lastHTTPStep st1 = (if int i > rn_lastHTTPStep st then int i else rn_lastHTTPStep st)"
      "rn_failed st1 = (err \<noteq> None \<and> \<not> ms_AllowFailure step)"
    using assms True by (auto simp: multi_step_def Let_def split: option.splits prod.splits if_splits)
  have "started ?r0" by (simp add: started_def)
  then have "started (set_all r ?r0)" for r by (rule started_set_all)
  moreover have "\<exists>r. result = Some r \<and> status_OK r \<and> distinct (map fst r)" if "err = None"
    using runHTTPStep_ok run that by blast
  ultimately show thesis
    by (cases err) (use that[OF step1] st1 True status_OK_set_all in \<open>auto simp: mandatory_def started_def update_conv'\<close>)
next
  case False
  then show thesis using assms that
    by (auto simp: multi_step_def Let_def started_def mandatory_def update_conv' split: if_splits)
qed

subsection \<open>The loop over the steps\<close>

lemma multi_steps_ConsE:
  assumes "multi_steps env n i (step # steps) st = Some (None, steps', st')"
  obtains step1 st1 rest where "multi_step env n i step st = Some (None, step1, st1)" "multi_steps env n (i + 1) steps st1 = Some (None, rest, st')"
    "steps' = step1 # rest"
proof -
  obtain o1 step1 st1 where m: "multi_step env n i step st = Some (o1, step1, st1)" using assms by (cases "multi_step env n i step st") auto
  then have "o1 = None" using assms by (cases o1) auto
  then show thesis using that m assms by auto
qed

lemma multi_steps_skipped:
  assumes "multi_steps env n i steps st = Some (None, steps', st')" "rn_failed st"
  shows "st' = st \<and> length steps' = length steps \<and> (\<forall>j < length steps. \<exists>r. ms_result (steps' ! j) = Some r \<and> \<not> started r)"
  using assms
proof (induction steps arbitrary: i st steps')
  case (Cons step steps)
  from Cons.prems(1) obtain step1 st1 rest where m: "multi_step env n i step st = Some (None, step1, st1)"
    "multi_steps env n (i + 1) steps st1 = Some (None, rest, st')" "steps' = step1 # rest" by (rule multi_steps_ConsE)
  note s = multi_step_skipped[OF m(1) Cons.prems(2)]
  then show ?case using Cons.IH[OF m(2)] Cons.prems(2) m(3) by (auto simp: less_Suc_eq_0_disj)
qed simp

text \<open>
  Of the steps from number \<open>i\<close> on, those up to the number \<open>k\<close> were started; every mandatory step before the last of them succeeded, and if it is not
  the last step at all, it was mandatory and failed.
\<close>

definition carried_out :: "nat \<Rightarrow> MultiStep list \<Rightarrow> MultiStep list \<Rightarrow> int \<Rightarrow> bool" where
  "carried_out i steps steps' k \<longleftrightarrow>
     length steps' = length steps \<and>
     (\<forall>j < length steps. \<exists>r. ms_result (steps' ! j) = Some r \<and> (started r \<longleftrightarrow> int (i + j) \<le> k) \<and>
        (mandatory (steps ! j) \<and> int (i + j) < k \<longrightarrow> status_OK r) \<and>
        (int (i + j) = k \<and> Suc j < length steps \<longrightarrow> mandatory (steps ! j) \<and> map_of r ''fail_reason'' \<noteq> None))"

text \<open>\<open>h\<close> is the last HTTP step among them, or as before.\<close>

definition last_http :: "nat \<Rightarrow> MultiStep list \<Rightarrow> int \<Rightarrow> int \<Rightarrow> int \<Rightarrow> bool" where
  "last_http i steps k before h \<longleftrightarrow>
     (\<forall>j < length steps. ms_Type (steps ! j) = ''http'' \<and> int (i + j) \<le> k \<longrightarrow> int (i + j) \<le> h) \<and>
     (h = before \<or> (\<exists>j < length steps. h = int (i + j) \<and> h \<le> k \<and> ms_Type (steps ! j) = ''http''))"

lemma carried_out_Cons:
  assumes "carried_out (i + 1) steps rest k" "int i < k" "ms_result step1 = Some r" "started r" "mandatory step \<longrightarrow> status_OK r"
  shows "carried_out i (step # steps) (step1 # rest) k"
  unfolding carried_out_def All_less_Suc2 length_Cons nth_Cons_Suc nth_Cons_0
  using assms by (simp add: carried_out_def del: of_nat_add of_nat_Suc)

lemma last_http_Cons:
  assumes "last_http (i + 1) steps k before' h" "int i \<le> k" "before < int i" "before' = (if ms_Type step = ''http'' then int i else before)" "before' \<le> h"
  shows "last_http i (step # steps) k before h"
  using assms unfolding last_http_def by (auto simp: less_Suc_eq_0_disj split: if_splits)

lemma multi_steps_carried:
  assumes "multi_steps env n i steps st = Some (None, steps', st')" "\<not> rn_failed st" "steps \<noteq> []" "rn_lastHTTPStep st < int i"
  shows "carried_out i steps steps' (rn_lastStep st') \<and> int i \<le> rn_lastStep st' \<and> rn_lastStep st' < int (i + length steps) \<and>
    last_http i steps (rn_lastStep st') (rn_lastHTTPStep st) (rn_lastHTTPStep st') \<and> rn_lastHTTPStep st \<le> rn_lastHTTPStep st'"
  using assms
proof (induction steps arbitrary: i st steps')
  case (Cons step steps)
  from Cons.prems(1) obtain step1 st1 rest where m: "multi_step env n i step st = Some (None, step1, st1)"
    "multi_steps env n (i + 1) steps st1 = Some (None, rest, st')" "steps' = step1 # rest" by (rule multi_steps_ConsE)
  from m(1) Cons.prems(2) obtain r where r: "ms_result step1 = Some r" "started r" "rn_lastStep st1 = int i"
    "rn_lastHTTPStep st1 = (if ms_Type step = ''http'' then int i else rn_lastHTTPStep st)"
    "rn_failed st1 \<longrightarrow> mandatory step \<and> map_of r ''fail_reason'' \<noteq> None" "mandatory step \<and> \<not> rn_failed st1 \<longrightarrow> status_OK r"
    by (rule multi_step_started) (use Cons.prems(4) in auto)
  show ?case
  proof (cases "rn_failed st1 \<or> steps = []")
    case True
    then have "st' = st1 \<and> length rest = length steps \<and> (\<forall>j < length steps. \<exists>r. ms_result (rest ! j) = Some r \<and> \<not> started r)"
      using multi_steps_skipped[OF m(2)] m(2) by auto
    then show ?thesis using r m(3) True Cons.prems(4)
      by (auto simp: carried_out_def last_http_def less_Suc_eq_0_disj)
  next
    case False
    then have IH: "carried_out (i + 1) steps rest (rn_lastStep st')" "int (i + 1) \<le> rn_lastStep st'" "rn_lastStep st' < int (i + 1 + length steps)"
      "last_http (i + 1) steps (rn_lastStep st') (rn_lastHTTPStep st1) (rn_lastHTTPStep st')" "rn_lastHTTPStep st1 \<le> rn_lastHTTPStep st'"
      using Cons.IH[OF m(2)] r(4) Cons.prems(4) by auto
    have "carried_out i (step # steps) (step1 # rest) (rn_lastStep st')"
      using carried_out_Cons[OF IH(1) _ r(1,2)] IH(2) r(6) False by simp
    moreover have "last_http i (step # steps) (rn_lastStep st') (rn_lastHTTPStep st) (rn_lastHTTPStep st')"
      using last_http_Cons[OF IH(4) _ Cons.prems(4) r(4) IH(5)] IH(2) by simp
    ultimately show ?thesis using IH(2,3,5) m(3) r(4) Cons.prems(4) by (auto split: if_splits)
  qed
qed simp

subsection \<open>The run\<close>

lemma Multi_run_steps:
  assumes "Multi_run env t = Some (None, t')"
  shows "carried_out 0 (mu_Steps t) (mu_Steps t') (mu_lastStep t')" "0 \<le> mu_lastStep t'" "mu_lastStep t' < int (length (mu_Steps t))"
    "last_http 0 (mu_Steps t) (mu_lastStep t') (-1) (mu_lastHTTPStep t')"
proof -
  let ?st = "\<lparr>rn_task = t, rn_failed = False, rn_lastStep = -1, rn_lastHTTPStep = -1\<rparr>"
  have ne: "mu_Steps t \<noteq> []" using assms by (auto simp: Multi_run_def)
  then obtain steps st where m: "multi_steps env (length (mu_Steps t)) 0 (mu_Steps t) ?st = Some (None, steps, st)"
    and t': "mu_Steps t' = steps" "mu_lastStep t' = rn_lastStep st" "mu_lastHTTPStep t' = rn_lastHTTPStep st"
    using assms by (auto simp: Multi_run_def split: option.splits)
  show "carried_out 0 (mu_Steps t) (mu_Steps t') (mu_lastStep t')" "0 \<le> mu_lastStep t'" "mu_lastStep t' < int (length (mu_Steps t))"
    "last_http 0 (mu_Steps t) (mu_lastStep t') (-1) (mu_lastHTTPStep t')"
    using multi_steps_carried[OF m] ne t' by simp_all
qed

text \<open>The verdict on a run, from the last HTTP step.\<close>

definition last_step_OK :: "MultiTask \<Rightarrow> bool" where
  "last_step_OK t \<longleftrightarrow> mu_lastHTTPStep t \<ge> 0 \<and> (case ms_result (mu_Steps t ! nat (mu_lastHTTPStep t)) of Some r \<Rightarrow> status_OK r | None \<Rightarrow> False)"

lemma Multi_getResults_success:
  assumes "mu_lastHTTPStep t < int (length (mu_Steps t))"
  shows "\<exists>tags flds. Multi_getResults d t = Some (tags, flds) \<and> map_of flds ''success'' = Some (JInt (if last_step_OK t then 1 else -1))"
proof (cases "mu_lastHTTPStep t > -1")
  case True
  then show ?thesis using assms
    by (cases "ms_result (mu_Steps t ! nat (mu_lastHTTPStep t))")
       (auto simp: Multi_getResults_def last_step_OK_def Let_def update_conv' split: option.split if_splits)
next
  case False
  then show ?thesis by (auto simp: Multi_getResults_def last_step_OK_def Let_def update_conv')
qed

end
