(* ===== verification/Dial_Props.thy ===== *)
theory Dial_Props
  imports Dial_Verdict Dial_Net Dial_Multi
begin

section \<open>Dial testing: properties\<close>

text \<open>The verdict of every kind of task, the statistics of a ping, and tasks of several steps.\<close>

subsection \<open>Examples\<close>

definition example_dlib :: dlib where
  "example_dlib =
     \<lparr>d_ParseDuration = (\<lambda>s. Inr 1), d_Compile = (\<lambda>s. None), d_MatchString = (\<lambda>r s. True), d_Parse = (\<lambda>fm s. None), d_Execute = (\<lambda>fm s. Inr s),
      d_undefined = (\<lambda>s. None), d_Marshal = (\<lambda>j. Inr ''{}''), d_fmt_float = (\<lambda>x. ''1''), d_fmt_dur = (\<lambda>x. ''1s''), d_fmt_any = (\<lambda>j. ''any''),
      d_lower = (\<lambda>s. s), d_Cron = (\<lambda>s. None), d_Hostname = (\<lambda>s. Inr s), d_windows = False, MaxMsgSize = 4096\<rparr>"

definition example_task :: Task where
  "example_task =
     \<lparr>ExternalID = ''dial_1'', t_Name = ''example'', AK = ''ak'', PostURL = [], CurStatus = ''OK'', Frequency = ''1m'', Region = [], OwnerExternalID = [],
      WorkspaceLanguage = [], TagsInfo = [], DFLabel = [], ScheduleType = [], Crontab = [], t_Tags = [], Labels = [], UpdateTime = 0, ConfigVars = [],
      ExtractedVars = [], CustomVars = [], taskJSONString = [], t_rawTask = ''{}'', Disabled = 0, isTemplate = False, globalVars = [],
      t_option = None, t_fm = None\<rparr>"

definition example_tcp :: TCPTask where
  "example_tcp = Task.extend example_task
     (TCPTask.fields ''localhost'' ''80'' [] [] False [] [] 0 0 [] [] [] 0 None None)"

definition example_http :: HTTPTask where
  "example_http = Task.extend example_task
     (HTTPTask.fields ''http://localhost'' ''GET'' [] [] [] None None None False [] NoBody [] 0 [] None None (FFin 0) (FFin 0) (FFin 0) (FFin 0) (FFin 0)
       [] None 0 0 [] 0)"

text \<open>A child that reports success without doing anything.\<close>

definition example_ops :: "HTTPTask child_ops" where
  "example_ops =
     \<lparr>o_class = ''HTTP'', o_metricName = ''http_dial_testing'', o_clear = HTTP_clear, o_check = (\<lambda>t. None), o_init = okE, o_run = Some \<circ> okE,
      o_renderTemplate = (\<lambda>fm t. Some (okE t)), o_setReqError = HTTP_setReqError, o_checkResult = HTTP_checkResult example_dlib,
      o_getResults = HTTP_getResults example_dlib (\<lambda>t. JNil) 0, o_getRawTask = Inr, o_getHostName = (\<lambda>t. Inr []), o_stop = (\<lambda>t. t)\<rparr>"

definition example_step :: "string \<Rightarrow> string \<Rightarrow> MultiStep" where
  "example_step kind text =
     \<lparr>ms_Type = kind, ms_Name = kind, ms_AllowFailure = False, ms_Retry = Some (2, 0), ms_TaskString = text, ms_Value = 1, ms_ExtractedVars = [],
      ms_result = None, ms_postScriptResult = None\<rparr>"

text \<open>Three steps: one that succeeds, one whose task cannot be made, and a pause.\<close>

definition example_multi :: MultiTask where
  "example_multi = Task.extend example_task
     (MultiTask.fields [example_step ''http'' ''good'', example_step ''http'' ''bad'', example_step ''wait'' []] None 0 [] (-1) (-1))"

definition example_env :: multi_env where
  "example_env =
     \<lparr>me_lib = example_dlib, me_NewTask = (\<lambda>s. if s = ''good'' then Inr example_http else Inl ''not JSON''), me_ops = (\<lambda>i j. example_ops),
      me_clock_ms = int, me_duration = 5, me_beforeRun = None\<rparr>"

subsection \<open>The verdict\<close>

text \<open>
  C35.  Every kind of task reports the verdict of the specification: \<open>success\<close> is 1 and no \<open>fail_reason\<close> is given exactly if the request had no error and,
  with the logic "or", some condition holds, and else no condition fails; the tag \<open>status\<close> is \<open>OK\<close> then, and else \<open>FAIL\<close> unless the user has a tag
  of that name.
\<close>

theorem task_reports_verdict:
  "reports (passes (tcp_SuccessWhenLogic tcp_t) (tcp_reqError tcp_t) (TCP_conditions d tcp_t)) (t_Tags tcp_t) (TCP_getResults d tcp_t) \<and>
   reports (passes (ssl_SuccessWhenLogic ssl_t) (ssl_reqError ssl_t) (SSL_conditions d ssl_t)) (t_Tags ssl_t) (SSL_getResults d ssl_t) \<and>
   reports (passes (icmp_SuccessWhenLogic icmp_t) (icmp_reqError icmp_t) (ICMP_conditions d icmp_t)) (t_Tags icmp_t) (ICMP_getResults d icmp_t) \<and>
   reports (passes (ws_SuccessWhenLogic ws_t) (ws_reqError ws_t) (Websocket_conditions d ws_t)) (t_Tags ws_t) (Websocket_getResults d now_us ws_t) \<and>
   reports (passes (http_SuccessWhenLogic http_t) (http_reqError http_t) (HTTP_conditions d http_t)) (t_Tags http_t)
     (HTTP_getResults d body_json now_us http_t)"
  using tcp.verdict ssl.verdict icmp.verdict ws.verdict http.verdict by blast

text \<open>
  C39.  A callback that vetoes a run is not lost.  For each of the five kinds of task, with or without template functions: where rendering succeeds and the
  callback then returns an error, the run ends without an error of its own, whatever an earlier run left behind, and the report says that the task passed if and only if the
  text of that error is empty and the conditions are met.  So a veto with a text is always reported as a failure with a reason; one with an empty text is taken
  for no error and the conditions alone decide.
\<close>

theorem vetoed_run_reports_failure:
  "veto_reported (tcp_ops d tcp_unmarshal rawjson tcp_n) tcp_SuccessWhenLogic (TCP_conditions d) \<and>
   veto_reported (ssl_ops d ssl_unmarshal rawjson ssl_n) ssl_SuccessWhenLogic (SSL_conditions d) \<and>
   veto_reported (icmp_ops d icmp_unmarshal rawjson icmp_n) icmp_SuccessWhenLogic (ICMP_conditions d) \<and>
   veto_reported (websocket_ops d parse now_us ws_unmarshal rawjson ws_n) ws_SuccessWhenLogic (Websocket_conditions d) \<and>
   veto_reported (http_ops d body_json now_us http_unmarshal rawjson http_n) http_SuccessWhenLogic (HTTP_conditions d)"
  by (intro conjI tcp.veto_run[of _ d] ssl.veto_run[of _ d] icmp.veto_run[of _ d] ws.veto_run[of _ d now_us] http.veto_run[of _ d body_json now_us])
    (simp_all add: tcp_ops_def ssl_ops_def icmp_ops_def websocket_ops_def http_ops_def)

subsection \<open>Ping\<close>

text \<open>
  C38.  A ping ends with an error exactly if one of its rounds does, and there are three rounds if none are asked for.  Else every round was counted as sent
  and every reply as received, the loss is the share of the others in percent, minimum and maximum are those of the round-trip times, and the average, which
  is computed with truncating divisions, lies between them and is the mean of the times up to \<open>(n - 1) / 2\<close> nanoseconds for \<open>n\<close> replies; without replies all
  three are 0.
\<close>

theorem ping_statistics:
  assumes "set (replies doPing [0..<ping_count count]) \<subseteq> {0..<2 ^ 63}"
  shows "case pingTarget sq to_int doPing count of
      Inl e \<Rightarrow> \<exists>i < ping_count count. \<exists>e. doPing i = Inl e
    | Inr s \<Rightarrow>
        let rs = replies doPing [0..<ping_count count] in
        (\<forall>i < ping_count count. \<exists>r. doPing i = Inr r) \<and>
        PacketsSent s = int (ping_count count) \<and> PacketsRecv s = int (length rs) \<and>
        PacketLoss s = f64_times (f64_div (f64_of_int (PacketsSent s - PacketsRecv s)) (f64_of_int (PacketsSent s))) (FFin 100) \<and>
        (if rs = [] then MinRtt s = 0 \<and> AvgRtt s = 0 \<and> MaxRtt s = 0
         else MinRtt s = Min (set rs) \<and> MaxRtt s = Max (set rs) \<and> MinRtt s \<le> AvgRtt s \<and> AvgRtt s \<le> MaxRtt s \<and>
           2 * \<bar>int (length rs) * AvgRtt s - sum_list rs\<bar> \<le> int (length rs) * (int (length rs) - 1))"
proof (cases "pingTarget sq to_int doPing count")
  case (Inl e)
  then show ?thesis using pingTarget_fails[of sq to_int doPing count] by auto
next
  case (Inr s)
  have "\<forall>i < ping_count count. \<exists>r. doPing i = Inr r" using pingTarget_fails[of sq to_int doPing count] Inr by (metis Inl_Inr_False obj_sumE)
  then show ?thesis using ping_statistics_of[OF Inr assms] Inr by (simp add: Let_def rtt_inv_def near_mean_def split: if_splits)
qed

subsection \<open>Several steps\<close>

text \<open>
  C36.  A run that ends without an error stops at the first mandatory HTTP step that fails: the steps up to \<open>last_step\<close> have a start time and those behind it
  have none, every mandatory step before it has the status \<open>OK\<close>, and if it is not the last step of the task, it is mandatory and has a reason for its
  failure.
\<close>

theorem multi_run_stops_at_failure:
  assumes "Multi_run env t = Some (None, t')"
  shows "carried_out 0 (mu_Steps t) (mu_Steps t') (mu_lastStep t') \<and> 0 \<le> mu_lastStep t' \<and> mu_lastStep t' < int (length (mu_Steps t))"
  using Multi_run_steps[OF assms] by blast

text \<open>
  C37.  The report on such a run never indexes a step that is not there, and it is a success exactly if the last HTTP step that was carried out has the
  status \<open>OK\<close>.
\<close>

theorem multi_report_verdict:
  assumes "Multi_run env t = Some (None, t')"
  shows "last_http 0 (mu_Steps t) (mu_lastStep t') (-1) (mu_lastHTTPStep t') \<and>
    (\<exists>tags flds. Multi_getResults d t' = Some (tags, flds) \<and> map_of flds ''success'' = Some (JInt (if last_step_OK t' then 1 else -1)))"
proof -
  have "mu_lastHTTPStep t' < int (length (mu_Steps t'))"
    using Multi_run_steps[OF assms] by (auto simp: last_http_def carried_out_def)
  then show ?thesis using Multi_run_steps(4)[OF assms] Multi_getResults_success by blast
qed


subsection \<open>Witnesses\<close>

definition example_tcp_ops :: "TCPTask child_ops" where
  "example_tcp_ops = tcp_ops example_dlib (\<lambda>s. Inr \<lparr>raw_tcp_Host = ''h'', raw_tcp_Port = ''1'', raw_tcp_Message = []\<rparr>) Inr
     \<lparr>tn_ParseIP = Some, tn_lookupIP = (\<lambda>s. Inr [s]), tn_dnsCost = 0, tn_Dial = (\<lambda>s. None), tn_cost = 1, tn_SetDeadline = None, tn_Write = (\<lambda>s. None),
      tn_Read = Inr [], tn_traceroute = (\<lambda>s. Inr None)\<rparr>"

text \<open>A task with template functions, rendered, and then vetoed.\<close>

definition example_templated :: TCPTask where
  "example_templated = example_tcp\<lparr>taskJSONString := ''{}'', t_fm := Some default_funcs\<rparr>"

theorem vetoed_run_reports_failure_witness:
  "\<exists>t'. Task_Run example_tcp_ops (Some (\<lambda>t. Some ''vetoed'')) example_templated = Some (okE t') \<and>
     reports False [] (TCP_getResults example_dlib t')"
proof -
  have "case rendered example_tcp_ops example_templated of Some (None, t2) \<Rightarrow> t_Tags t2 = [] | _ \<Rightarrow> False" by code_simp
  then obtain t2 where r: "rendered example_tcp_ops example_templated = Some (okE t2)" "t_Tags t2 = []"
    by (auto simp: okE_def split: option.splits)
  have "veto_reported example_tcp_ops tcp_SuccessWhenLogic (TCP_conditions example_dlib)"
    unfolding example_tcp_ops_def using vetoed_run_reports_failure by blast
  then show ?thesis using r by (fastforce simp: veto_reported_def passes_def example_tcp_ops_def tcp_ops_def)
qed

theorem ping_statistics_witness:
  "case pingTarget (\<lambda>x. x) (\<lambda>x. 0) (\<lambda>i. if i = 1 then Inr None else Inr (Some (int i + 5))) 3 of
     Inl e \<Rightarrow> False | Inr s \<Rightarrow> PacketsSent s = 3 \<and> PacketsRecv s = 2 \<and> MinRtt s = 5 \<and> MaxRtt s = 7 \<and> AvgRtt s = 6"
  using ping_statistics[of "\<lambda>i. if i = 1 then Inr None else Inr (Some (int i + 5))" 3 "\<lambda>x. x" "\<lambda>x. 0"]
  by (auto simp: numeral_3_eq_3 upt_rec map_filter_simps ping_reply_def Let_def split: sum.splits if_splits)

theorem multi_run_stops_at_failure_witness:
  "\<exists>t'. Multi_run example_env example_multi = Some (None, t') \<and> carried_out 0 (mu_Steps example_multi) (mu_Steps t') (mu_lastStep t') \<and> mu_lastStep t' = 1"
proof -
  have "case Multi_run example_env example_multi of Some (None, t') \<Rightarrow> mu_lastStep t' = 1 | _ \<Rightarrow> False" by code_simp
  then show ?thesis using multi_run_stops_at_failure[of example_env example_multi] by (auto split: option.splits)
qed

theorem multi_report_verdict_witness:
  "\<exists>t' tags flds. Multi_run example_env example_multi = Some (None, t') \<and> Multi_getResults example_dlib t' = Some (tags, flds) \<and>
     map_of flds ''success'' = Some (JInt (-1))"
proof -
  have "case Multi_run example_env example_multi of Some (None, t') \<Rightarrow> \<not> last_step_OK t' | _ \<Rightarrow> False" by code_simp
  then obtain t' where t': "Multi_run example_env example_multi = Some (None, t')" "\<not> last_step_OK t'" by (auto split: option.splits)
  then show ?thesis using multi_report_verdict[OF t'(1), of example_dlib] by auto
qed


end
