(* ===== verification/Spec2Isabelle.thy ===== *)
theory Spec2Isabelle
  imports Diskcache_Props2 Filter_Props Filter_Props2 Point_Props Point_Wire_Props Tail_Props Tail_Wheel_Props Tail_Merge_Props
    Tail_Pick_Props Aggr_Props2 Derived_Props Dial_Props
begin

text \<open>
  \<^bold>\<open>Verification of GuanceCloud/cliutils.\<close>  The library is a set of Go packages an observability agent is built from.  Those
  that carry logic of their own are modelled here: \<open>diskcache\<close>, a queue of records in files; \<open>filter\<close>, a language of conditions on tags and
  fields; \<open>point\<close>, the data points with their checks and their protobuf format; \<open>aggregate\<close>, which collects the points of a trace and decides whether to keep them (tail
  sampling), counts those decisions (derived metrics), and sums up metrics in windows of time (metric aggregation); \<open>pkg/hash\<close>; and \<open>dialtesting\<close>,
  which probes servers and judges the answers.  Points are what the other packages move: tail sampling reads them from protobuf payloads, asks
  conditions of \<open>filter\<close> about them, and keeps large payloads in files; aggregation selects them with the same conditions.

  \<^bold>\<open>The Go language (Go\_*).\<close>  \<open>Go_Base\<close> has the collection \<open>go_sem\<close>, wrap-around of signed integers and the lemmas on lists
  everything shares; \<open>Go_Os\<close> an operating system of files, locks and a clock, in which a script decides which system calls fail,
  and the path functions used; \<open>Go_Utf8\<close> the decoding of runes; \<open>Go_Float\<close> and \<open>Go_Float_Bits\<close> the values, order and bit patterns of
  \<open>float64\<close>; \<open>Go_Arith\<close> their rounding arithmetic, truncating division and white space; \<open>Go_Proto\<close> the reader and writer of protobuf fields, with round
  trips for varints and fields.

  \<^bold>\<open>Disk cache (Diskcache\_*).\<close>  \<open>Diskcache_Types\<close> has \<open>DiskCache\<close>, its options, environment and errors (diskcache.go, options.go, envs.go,
  errors.go, meta.go) and the position of the reader with its file (pos.go); \<open>Diskcache_Write\<close> \<open>Put\<close>, \<open>StreamPut\<close>, rotating and dropping
  (put.go, rotate.go, drop.go, write\_file.go); \<open>Diskcache_Read\<close> \<open>Get\<close> and switching (get.go, switch.go); \<open>Diskcache_Open\<close> \<open>Open\<close>,
  \<open>Close\<close> and the directory lock (open.go, flock.go).  The remaining theories hold proofs: the record format with its reference decoder and the
  invariant (\<open>Diskcache_Inv\<close>), what single steps do (\<open>Diskcache_Steps\<close>, \<open>Diskcache_Reading\<close>, \<open>Diskcache_Get\<close>), faults,
  drops, restarts and crashes.  \<open>Diskcache_Queue\<close> states the contract as the locales \<open>fifo_queue\<close> and \<open>draining_queue\<close>; the cache
  interprets them (\<open>dcq\<close>, \<open>dcr\<close>), and \<open>dcd\<close> in \<open>Diskcache_Crash\<close> interprets the first for the invariant of a cache that dumps its position on every
  call.  The claims are in \<open>Diskcache_Props\<close> and \<open>Diskcache_Props2\<close>: order and completeness, recovery after a crash, draining, callbacks,
  termination under any failures, dropping, sizes, exclusion, closing and what becomes of the lock, streams, names of batches, the position file.

  \<^bold>\<open>Filter (Filter\_*).\<close>  \<open>Filter_Ast\<close> has tokens and syntax tree (ast.go, gram\_y.go), \<open>Filter_Lex\<close> the scanner with a constructor per state function
  (lex.go), \<open>Filter_Parse\<close> the feed of the parser and the node constructors (parse.go), \<open>Filter_Eval\<close> evaluation (eval.go).  Shown: evaluation is
  logic over comparisons and does not panic where the regular expressions compiled, comparisons are coherent, the first matching condition is reported (\<open>Filter_Props\<close>); lexing
  ends, covers the input and balances brackets, and the parser is fed the items without comments (\<open>Filter_Props2\<close>).

  \<^bold>\<open>Points (Point\_*).\<close>  \<open>Point_Kvs\<close> and \<open>Point_Store\<close> have key-values and their operations (kvs.go, val.go, key.go), \<open>Point_Check\<close> the checker (check.go) and
  \<open>Point_Checked\<close> its invariant, \<open>Point_Category\<close> the categories (category.go), \<open>Point_Point\<close> flags, construction and equality (point.go, new\_point.go,
  equal.go), \<open>Point_Wire\<close> the writer and the reader of protobuf (easyproto.go), \<open>Point_Batch\<close> the batch decoder (easybatch.go), \<open>Point_Total\<close> that construction with tags does not
  panic, which aggregation relies on.  A list of key-values
  is an interpretation of a store that refines a map.  Shown: that refinement, validity of checked points up to the defaults that are added unchecked, that
  valid ones are left alone, the soundness of the
  skipped conflict scan, absence of panics, equality, lookup of categories (\<open>Point_Props\<close>); what both decoders make of what was written, arrays and repeated keys
  included for the first, and which points come back unchanged (\<open>Point_Wire_Props\<close>).

  \<^bold>\<open>Tail sampling (Tail\_*).\<close>  \<open>Tail_Types\<close> has packets and payloads (tsdata.pb.go, zstd.go, point.go), \<open>Tail_Predicates\<close> the summary of a packet and the
  compilation of conditions to predicates on it, with both ways of deciding (tail-sampling.go, pipeline\_predicates.go),
  \<open>Tail_Config\<close> configuration and keys of groups, \<open>Tail_Pick\<close> the sorting of points into packets, \<open>Tail_Spill\<close> the files of
  payloads (spill.go), \<open>Tail_Wheel\<close> the time wheel of the sampler (timewheel.go).  Proofs: \<open>Tail_Equiv\<close>, \<open>Tail_Compile\<close>, \<open>Tail_Walk\<close> and
  \<open>Tail_Decide\<close> compare the predicates with a walk over the points; \<open>Tail_Wheel_Inv\<close> and \<open>Tail_Wheel_Steps\<close> keep the invariant of the wheel;
  \<open>Tail_Merge\<close> is about merging.  The interface \<open>PayloadSpiller\<close> is the locale \<open>payload_store\<close>, interpreted as \<open>file_store\<close>.  Shown: the summary is
  true, on spans of the usual types exact conditions are decided alike and no condition is missed, conjunctions of flags may be fulfilled by different spans
  (\<open>Tail_Props\<close>); slots and groups agree and a quiet group expires at its tick (\<open>Tail_Wheel_Props\<close>); merging and spilling lose nothing
  (\<open>Tail_Merge_Props\<close>); grouping keeps points and order (\<open>Tail_Pick_Props\<close>).

  \<^bold>\<open>Metric aggregation (Aggr\_*).\<close>  \<open>Aggr_Calc\<close> has the eleven calculators, each with its adding, resetting and points (metricbase.go, algo\_*.go);
  \<open>Aggr_Window\<close> batches, how calculators are made of them (calculator.go), and the cache of windows (windows.go), sequentially;
  \<open>Aggr_Config\<close> the rules, their set-up, selection and grouping (aggr.go, aggr\_config.go, selector.go, whitelist.go, point.go).
  Adders, the collector and the clock run at the same time: \<open>Aggr_Conc\<close> is their step relation, with the locks of the code and \<open>Windows\<close>
  objects at addresses, because an adder may hold one the collector has closed; \<open>Aggr_Conc_Inv\<close> has its invariant.  Proofs: \<open>Aggr_Seq\<close>, \<open>Aggr_Exact\<close>
  (sums, extrema, distinct values, deviations) and \<open>Aggr_Total\<close> (points come out, nothing panics).  Shown: no calculator is lost, counted twice or
  handed over early, and an adder that was refused gives up; batches are added exactly; aggregates are those of the values;
  a validated configuration is computable (\<open>Aggr_Props\<close>, \<open>Aggr_Props2\<close>).

  \<^bold>\<open>Derived metrics (Derived\_*, Hash\_Fnv).\<close>  \<open>Derived_Collector\<close> has the collector of records (derived\_metric\_collector.go), \<open>Derived_Processor\<close> the built-in
  metrics and the processor around the sampler (tail\_sampling\_builtin\_metrics.go, tail\_sampling\_processor.go), \<open>Hash_Fnv\<close> the hashes of
  pkg/hash.  Shown in \<open>Derived_Props\<close>: the processor decides as the sampler alone and, with the default metrics, adds to the collector the durations of the groups
  and one count per decision and nothing else; histograms are cumulative; the collector adds up all sums and histograms, and a flush returns exactly the points of the windows
  that ended; all hash functions agree.

  \<^bold>\<open>Dial testing (Dial\_*).\<close>  \<open>Dial_Task\<close> has conditions and the end of \<open>getResults\<close> that the kinds share (success.go), and what all tasks do: checking,
  running, templates, reports (task.go), with a record of operations for \<open>t.child\<close>; \<open>Dial_Net\<close> the kinds TCP, SSL and ICMP (tcp.go, ssl.go, icmp.go and
  traceroute.go) with the lemmas on the statistics of a ping, \<open>Dial_Ws\<close> and \<open>Dial_Http\<close> the other two (websocket.go, http.go and http\_script.go); \<open>Dial_Multi\<close>
  tasks of several HTTP steps (multi.go) with the lemmas on their runs.  What the network answers is a record per kind.  \<open>Dial_Verdict\<close> states
  the contract of a report as the locale \<open>judged_task\<close>, which all five kinds interpret.  Shown in \<open>Dial_Props\<close>: every kind reports the specified
  verdict, a run that is vetoed with a text is a failure, counts, extrema and, up to the remainders of its divisions, the average of a ping are those of its replies, a run of steps stops at the first mandatory
  failure, its report follows the last HTTP step carried out, and its retries are bounded.

  \<^bold>\<open>Fuel and bounds.\<close>  The retry loop of \<open>Get\<close> has two more rounds than there are files; from every reachable state it returns, whatever fails.
  The scanner has one round more than the input has bytes, and each round consumes.  Records have less than \<open>2^31\<close> bytes and payloads of a
  round trip less than \<open>2^64\<close>; numbers of batches are below the limit of their decimal names; the counter of the spiller is
  below \<open>2^63\<close>.  The wheel has 3600 slots, so a group waits between 1 and 3599 ticks.  Distinct values are exact up to 4096 hashes and a
  bitmap beyond; percentiles keep 8192 samples; counts of a histogram are exact below \<open>2^53\<close> observations, where \<open>float64\<close> has all integers.  The loop
  of \<open>getAndSetBucket\<close> is a \<open>partial_function\<close>; run alone it ends in its first round, and next to a collector after it was refused.  A step of a
  dial test is tried at most six times; round-trip times are below \<open>2^63\<close> nanoseconds.

  \<^bold>\<open>Parameters.\<close>  Code outside the repository is an argument of the definitions: regular expressions, the parser generated from the grammar, the
  zstd compressor, the generated decoder of a point, \<open>xxhash\<close>, the text of floats, the conversion of floats out of range, the
  order of iterating a map, the growth of slices, \<open>time.ParseDuration\<close>; for aggregation the logarithm and the root (record \<open>lib\<close>);
  for dial testing JSON, templates, regular expressions, schedules and how values are printed (record \<open>dlib\<close>).  What the proofs need of them is a hypothesis
  (for instance \<open>lossless\<close> for a compressor), and the witnesses use concrete functions.

  \<^bold>\<open>Not modelled.\<close>  Mutexes outside the windows of aggregation: what holds a lock is one step.  Prometheus metrics, logging, pools of objects, texts of
  messages that are only logged.  The tables of the parser (generated).  JSON and line protocol (third-party libraries).  Of dial testing
  gRPC, browsers, network paths and raw sockets; scripts of the pipeline package.  Web servers, profiles, tracing and OpenTelemetry
  conversion, which are input and output around third-party clients.
\<close>

end
